(* ===== verification/Prelude.thy ===== *)
theory Prelude
  imports Complex_Main "HOL-Library.AList" "HOL-Library.Char_ord" "HOL-Library.List_Lexorder"
    "HOL-Library.Product_Lexorder"
begin

text \<open>
  Shared vocabulary of the development.

  \<^item> The exceptions of the response plane (\<^verbatim>\<open>response/errors.py\<close> and the built-in ones the code
    raises) as values, one constructor per exception class, with a payload that names the
    \<^verbatim>\<open>raise\<close> statement.
  \<^item> Two small monads: \<open>'a res\<close> for code that may raise, and \<open>('s, 'a) ex\<close> for code that may raise
    and changes a state; an exception keeps the state reached so far, as in Python.
  \<^item> The string operations of Python that the sources use, on code points below 256.
  \<^item> A Python \<^verbatim>\<open>dict\<close> as an association list in insertion order (\<^const>\<open>AList.update\<close> overwrites in
    place and appends a new key at the end, as a \<^verbatim>\<open>dict\<close> does).
  \<^item> The lemma collections the component theories fill and use.
\<close>

named_theorems guard_simps \<open>unfolding rules for guards and binds of the two monads\<close>
named_theorems invariant_rules \<open>preservation lemmas, one per operation and invariant\<close>
named_theorems frame_rules \<open>what an operation leaves unchanged\<close>

section \<open>Exceptions\<close>

datatype exn =
    PolicyError string
  | CorrelationRejected string
  | CommandRejected string
  | AdapterError string
  | ValueError string
  | TypeErr string
  | KeyErr string
  | OverflowErr
  | AssertionErr
  | RuntimeErr string
  | StorageErr
  | IntegrityErr string
  | DeliveryErr string bool "int option"
  | ConfigErr string
  | AttributeErr string
  | IndexErr
  | OSErr
  | TimeoutErr
  | FeatureContract string
  | FeatureSchema string
  | ScanLimitExceeded nat
  | ModelProvenance string
  | DatasetBuild string
  | EvaluationErr string
  | LabelErr string

type_synonym 'a res = "exn + 'a"

definition bindR :: "'a res \<Rightarrow> ('a \<Rightarrow> 'b res) \<Rightarrow> 'b res" where
  "bindR m f = (case m of Inl e \<Rightarrow> Inl e | Inr x \<Rightarrow> f x)"

definition guardR :: "bool \<Rightarrow> exn \<Rightarrow> unit res" where
  "guardR b e = (if b then Inr () else Inl e)"

definition tryR :: "'a res \<Rightarrow> (exn \<Rightarrow> 'a res) \<Rightarrow> 'a res" where
  "tryR m h = (case m of Inl e \<Rightarrow> h e | Inr x \<Rightarrow> Inr x)"

lemma bindR_simps [simp]: "bindR (Inl e) f = Inl e" "bindR (Inr x) f = f x"
  by (simp_all add: bindR_def)

lemma bindR_eq_Inr: "bindR m f = Inr y \<longleftrightarrow> (\<exists>x. m = Inr x \<and> f x = Inr y)"
  by (cases m) auto

lemma bindR_InrE: "bindR m f = Inr y \<Longrightarrow> (\<And>x. m = Inr x \<Longrightarrow> f x = Inr y \<Longrightarrow> P) \<Longrightarrow> P"
  by (cases m) auto

lemma guardR_simps [simp]: "guardR True e = Inr ()" "guardR False e = Inl e"
  by (simp_all add: guardR_def)

lemma guardR_eq_Inr [simp]: "guardR b e = Inr u \<longleftrightarrow> b"
  by (simp add: guardR_def)

lemma bind_guardR_eq_Inr: "bindR (guardR b e) f = Inr y \<longleftrightarrow> b \<and> f () = Inr y"
  by (simp add: guardR_def)

lemma bind_guardR_InrE: "bindR (guardR b e) f = Inr y \<Longrightarrow> (b \<Longrightarrow> f () = Inr y \<Longrightarrow> P) \<Longrightarrow> P"
  by (simp add: guardR_def split: if_splits)

lemma bind_guardR_If: "bindR (guardR b e) f = (if b then f () else Inl e)"
  by (simp add: guardR_def)

lemma bindR_cong [fundef_cong]:
  "m = m' \<Longrightarrow> (\<And>x. m' = Inr x \<Longrightarrow> f x = g x) \<Longrightarrow> bindR m f = bindR m' g"
  by (cases m') auto

lemma tryR_simps [simp]: "tryR (Inl e) h = h e" "tryR (Inr x) h = Inr x"
  by (simp_all add: tryR_def)

lemma tryR_eq_Inr_iff: "tryR m (\<lambda>e. Inl (g e)) = Inr y \<longleftrightarrow> m = Inr y"
  by (cases m) auto

lemmas res_success = bindR_eq_Inr bind_guardR_eq_Inr tryR_eq_Inr_iff

text \<open>The exceptions a computation may raise.\<close>

definition raises_only :: "exn set \<Rightarrow> 'a res \<Rightarrow> bool" where
  "raises_only E r \<longleftrightarrow> (\<forall>e. r = Inl e \<longrightarrow> e \<in> E)"

lemma raises_only_intros:
  "raises_only E (Inr x)"
  "e \<in> E \<Longrightarrow> raises_only E (Inl e)"
  "e \<in> E \<Longrightarrow> raises_only E (guardR b e)"
  "raises_only E r \<Longrightarrow> (\<And>x. r = Inr x \<Longrightarrow> raises_only E (f x)) \<Longrightarrow> raises_only E (bindR r f)"
  by (auto simp: raises_only_def guardR_def bindR_def split: sum.splits)

text \<open>A \<^verbatim>\<open>for\<close> loop that builds a list and stops at the first exception.\<close>

fun mapR :: "('a \<Rightarrow> 'b res) \<Rightarrow> 'a list \<Rightarrow> 'b list res" where
  "mapR f [] = Inr []"
| "mapR f (x # xs) = bindR (f x) (\<lambda>y. bindR (mapR f xs) (\<lambda>ys. Inr (y # ys)))"

lemma mapR_length: "mapR f xs = Inr ys \<Longrightarrow> length ys = length xs"
  by (induction xs arbitrary: ys) (auto simp: bindR_eq_Inr)

lemma mapR_nth: "mapR f xs = Inr ys \<Longrightarrow> i < length xs \<Longrightarrow> f (xs ! i) = Inr (ys ! i)"
  by (induction xs arbitrary: ys i) (auto simp: bindR_eq_Inr nth_Cons split: nat.splits)

lemma mapR_member: "mapR f xs = Inr ys \<Longrightarrow> y \<in> set ys \<Longrightarrow> \<exists>x \<in> set xs. f x = Inr y"
  by (metis in_set_conv_nth mapR_length mapR_nth)

lemma mapR_image: "mapR f xs = Inr ys \<Longrightarrow> x \<in> set xs \<Longrightarrow> \<exists>y \<in> set ys. f x = Inr y"
  by (metis in_set_conv_nth mapR_length mapR_nth)

lemma mapR_iff_map: "mapR f xs = Inr ys \<longleftrightarrow> map f xs = map Inr ys"
  by (induction xs arbitrary: ys) (auto simp: bindR_eq_Inr Cons_eq_map_conv)

section \<open>State with exceptions\<close>

type_synonym ('s, 'a) ex = "'s \<Rightarrow> 'a res \<times> 's"

definition bindX :: "('s, 'a) ex \<Rightarrow> ('a \<Rightarrow> ('s, 'b) ex) \<Rightarrow> ('s, 'b) ex" where
  "bindX m f s = (case m s of (Inl e, t) \<Rightarrow> (Inl e, t) | (Inr x, t) \<Rightarrow> f x t)"

definition returnX :: "'a \<Rightarrow> ('s, 'a) ex" where
  "returnX x s = (Inr x, s)"

definition raiseX :: "exn \<Rightarrow> ('s, 'a) ex" where
  "raiseX e s = (Inl e, s)"

definition liftX :: "'a res \<Rightarrow> ('s, 'a) ex" where
  "liftX r s = (r, s)"

lemma bindX_returnX [simp]: "bindX (returnX x) f = f x"
  by (simp add: fun_eq_iff bindX_def returnX_def)

lemma bindX_raiseX [simp]: "bindX (raiseX e) f = raiseX e"
  by (simp add: fun_eq_iff bindX_def raiseX_def)

lemma returnX_apply [simp]: "returnX x s = (Inr x, s)"
  by (simp add: returnX_def)

lemma raiseX_apply [simp]: "raiseX e s = (Inl e, s)"
  by (simp add: raiseX_def)

lemma liftX_apply [simp]: "liftX r s = (r, s)"
  by (simp add: liftX_def)

lemma bindX_apply:
  "m s = (r, t) \<Longrightarrow> bindX m f s = (case r of Inl e \<Rightarrow> (Inl e, t) | Inr x \<Rightarrow> f x t)"
  by (simp add: bindX_def)

lemma bindX_assoc: "bindX (bindX m f) g = bindX m (\<lambda>x. bindX (f x) g)"
  by (simp add: fun_eq_iff bindX_def split: prod.splits sum.splits)

text \<open>
  Two post-conditions of a computation: \<open>always\<close> speaks of the final state on return and on
  exception alike, \<open>on_return\<close> of the value and the final state when it returns.
\<close>

definition always :: "('s \<Rightarrow> bool) \<Rightarrow> ('s, 'a) ex \<Rightarrow> ('s \<Rightarrow> bool) \<Rightarrow> bool" where
  "always P m Q \<longleftrightarrow> (\<forall>s. P s \<longrightarrow> Q (snd (m s)))"

definition on_return :: "('s \<Rightarrow> bool) \<Rightarrow> ('s, 'a) ex \<Rightarrow> ('a \<Rightarrow> 's \<Rightarrow> bool) \<Rightarrow> bool" where
  "on_return P m Q \<longleftrightarrow> (\<forall>s x t. P s \<longrightarrow> m s = (Inr x, t) \<longrightarrow> Q x t)"

lemma always_bindX:
  "always P m Q \<Longrightarrow> (\<And>x. always Q (f x) Q) \<Longrightarrow> always P (bindX m f) Q"
  by (fastforce simp: always_def bindX_def split: prod.splits sum.splits)

lemma always_pure [simp]:
  "always P (returnX x) P" "always P (raiseX e) P" "always P (liftX r) P"
  by (simp_all add: always_def)

lemma alwaysD: "always P m Q \<Longrightarrow> P s \<Longrightarrow> m s = (r, t) \<Longrightarrow> Q t"
  by (auto simp: always_def dest: spec [of _ s])

section \<open>Python strings\<close>

text \<open>Code points of white space below 256 for \<^verbatim>\<open>str.strip\<close> and \<^verbatim>\<open>str.isspace\<close>.\<close>

definition is_space :: "char \<Rightarrow> bool" where
  "is_space c = (of_char c \<in> {9, 10, 11, 12, 13, 28, 29, 30, 31, 32, 133, 160 :: nat})"

definition strip :: "string \<Rightarrow> string" where
  "strip s = rev (dropWhile is_space (rev (dropWhile is_space s)))"

text \<open>\<^verbatim>\<open>str.lower\<close> on code points below 256: ASCII and the Latin-1 capitals.\<close>

definition lower_char :: "char \<Rightarrow> char" where
  "lower_char c = (let n = of_char c :: nat in
     if 65 \<le> n \<and> n \<le> 90 \<or> 192 \<le> n \<and> n \<le> 222 \<and> n \<noteq> 215 then char_of (n + 32) else c)"

definition lower :: "string \<Rightarrow> string" where
  "lower s = map lower_char s"

definition is_digit :: "char \<Rightarrow> bool" where
  "is_digit c = (let n = of_char c :: nat in 48 \<le> n \<and> n \<le> 57)"

definition digit_value :: "char \<Rightarrow> nat" where
  "digit_value c = of_char c - 48"

definition starts_with :: "string \<Rightarrow> string \<Rightarrow> bool" where
  "starts_with p s = (take (length p) s = p)"

text \<open>\<^verbatim>\<open>s.split(sep)\<close> for a one-character separator: never empty.\<close>

fun split_on :: "char \<Rightarrow> string \<Rightarrow> string list" where
  "split_on c [] = [[]]"
| "split_on c (x # xs) =
     (if x = c then [] # split_on c xs
      else case split_on c xs of [] \<Rightarrow> [[x]] | w # ws \<Rightarrow> (x # w) # ws)"

fun join_with :: "string \<Rightarrow> string list \<Rightarrow> string" where
  "join_with sep [] = []"
| "join_with sep [w] = w"
| "join_with sep (w # v # ws) = w @ sep @ join_with sep (v # ws)"

text \<open>\<^verbatim>\<open>sub in s\<close>.\<close>

fun contains_sub :: "string \<Rightarrow> string \<Rightarrow> bool" where
  "contains_sub p [] = (p = [])"
| "contains_sub p (x # xs) = (starts_with p (x # xs) \<or> contains_sub p xs)"

text \<open>Decimal notation of naturals and integers, as \<^verbatim>\<open>str(n)\<close> prints them.\<close>

definition digit_char :: "nat \<Rightarrow> char" where
  "digit_char d = char_of (48 + d)"

fun show_nat :: "nat \<Rightarrow> string" where
  "show_nat n = (if n < 10 then [digit_char n] else show_nat (n div 10) @ [digit_char (n mod 10)])"

declare show_nat.simps [simp del]

definition show_int :: "int \<Rightarrow> string" where
  "show_int i = (if i < 0 then ''-'' @ show_nat (nat (- i)) else show_nat (nat i))"

definition read_nat :: "string \<Rightarrow> nat" where
  "read_nat s = foldl (\<lambda>n c. n * 10 + digit_value c) 0 s"

lemma split_on_not_Nil [simp]: "split_on c s \<noteq> []"
  by (induction s) (auto split: list.splits)

lemma join_split_on: "join_with [c] (split_on c s) = s"
proof (induction s)
  case Nil
  then show ?case by simp
next
  case (Cons x xs)
  obtain w ws where w: "split_on c xs = w # ws"
    using split_on_not_Nil neq_Nil_conv by metis
  show ?case
    using Cons.IH w by (cases ws) auto
qed

lemma split_on_single: "c \<notin> set s \<Longrightarrow> split_on c s = [s]"
  by (induction s) auto

lemma split_on_append: "c \<notin> set w \<Longrightarrow> split_on c (w @ c # s) = w # split_on c s"
  by (induction w) (auto split: list.splits)

lemma split_join:
  "ws \<noteq> [] \<Longrightarrow> (\<And>w. w \<in> set ws \<Longrightarrow> c \<notin> set w) \<Longrightarrow> split_on c (join_with [c] ws) = ws"
  by (induction "[c]" ws rule: join_with.induct)
     (auto simp: split_on_single split_on_append)

lemma of_char_digit_char: "d < 10 \<Longrightarrow> (of_char (digit_char d) :: nat) = 48 + d"
  by (simp add: digit_char_def)

lemma is_digit_digit_char [simp]: "d < 10 \<Longrightarrow> is_digit (digit_char d)"
  by (simp add: is_digit_def of_char_digit_char)

lemma digit_value_digit_char [simp]: "d < 10 \<Longrightarrow> digit_value (digit_char d) = d"
  by (simp add: digit_value_def of_char_digit_char)

lemma show_nat_digits: "list_all is_digit (show_nat n)"
proof (induction n rule: show_nat.induct)
  case (1 n)
  then show ?case by (subst show_nat.simps) auto
qed

lemma show_nat_not_Nil [simp]: "show_nat n \<noteq> []"
  by (subst show_nat.simps) simp

lemma read_nat_snoc: "read_nat (s @ [c]) = read_nat s * 10 + digit_value c"
  by (simp add: read_nat_def)

lemma read_show_nat [simp]: "read_nat (show_nat n) = n"
proof (induction n rule: show_nat.induct)
  case (1 n)
  show ?case
  proof (cases "n < 10")
    case True
    then show ?thesis by (subst show_nat.simps) (simp add: read_nat_def)
  next
    case False
    then show ?thesis using 1
      by (subst show_nat.simps) (simp add: read_nat_snoc)
  qed
qed

lemma show_nat_inject [simp]: "show_nat m = show_nat n \<longleftrightarrow> m = n"
  by (metis read_show_nat)

lemma starts_with_append [simp]: "starts_with p (p @ s)"
  by (simp add: starts_with_def)

lemma strip_idem: "strip (strip s) = strip s"
proof -
  have nil: "dropWhile is_space t = t" if "t = [] \<or> \<not> is_space (hd t)" for t
    using that by (cases t) auto
  let ?a = "dropWhile is_space s"
  let ?b = "dropWhile is_space (rev ?a)"
  have b: "?b = [] \<or> \<not> is_space (hd ?b)"
    using hd_dropWhile by blast
  have "rev ?b = [] \<or> \<not> is_space (hd (rev ?b))"
  proof (cases "?b = []")
    case False
    obtain pre where pre: "rev ?a = pre @ ?b"
      by (metis takeWhile_dropWhile_id)
    then have "?a = rev ?b @ rev pre" by (metis rev_append rev_rev_ident)
    moreover have "rev ?b \<noteq> []" using False by simp
    ultimately have "hd ?a = hd (rev ?b)" by (metis hd_append2)
    moreover have "?a \<noteq> []" using False by (metis dropWhile.simps(1) rev.simps(1))
    then have "\<not> is_space (hd ?a)" using hd_dropWhile by blast
    ultimately show ?thesis by simp
  qed simp
  then have "dropWhile is_space (rev ?b) = rev ?b" by (rule nil)
  then show ?thesis unfolding strip_def using nil [OF b] by simp
qed

lemma lower_char_idem: "lower_char (lower_char c) = lower_char c"
proof (cases "let n = of_char c :: nat in 65 \<le> n \<and> n \<le> 90 \<or> 192 \<le> n \<and> n \<le> 222 \<and> n \<noteq> 215")
  case True
  define n where "n = (of_char c :: nat)"
  have n: "65 \<le> n \<and> n \<le> 90 \<or> 192 \<le> n \<and> n \<le> 222 \<and> n \<noteq> 215"
    using True by (simp add: n_def Let_def)
  have "lower_char c = char_of (n + 32)"
    using n by (simp add: lower_char_def Let_def n_def)
  moreover have "(of_char (char_of (n + 32) :: char) :: nat) = n + 32"
    using n by auto
  ultimately show ?thesis
    using n by (auto simp: lower_char_def Let_def)
next
  case False
  then have "lower_char c = c" by (simp only: lower_char_def Let_def if_False)
  then show ?thesis by simp
qed

lemma lower_idem [simp]: "lower (lower s) = lower s"
  by (simp add: lower_def lower_char_idem)

section \<open>Dictionaries in insertion order\<close>

type_synonym 'v dict = "(string \<times> 'v) list"

abbreviation dict_get :: "'v dict \<Rightarrow> string \<Rightarrow> 'v option" where
  "dict_get d k \<equiv> map_of d k"

abbreviation dict_set :: "string \<Rightarrow> 'v \<Rightarrow> 'v dict \<Rightarrow> 'v dict" where
  "dict_set k v d \<equiv> AList.update k v d"

abbreviation dict_keys :: "'v dict \<Rightarrow> string list" where
  "dict_keys d \<equiv> map fst d"

abbreviation dict_values :: "'v dict \<Rightarrow> 'v list" where
  "dict_values d \<equiv> map snd d"

lemma dict_get_set [simp]: "dict_get (dict_set k v d) k' = (if k' = k then Some v else dict_get d k')"
  by (simp add: update_conv')

lemma dict_set_new: "k \<notin> set (dict_keys d) \<Longrightarrow> dict_set k v d = d @ [(k, v)]"
  by (induction d) auto

lemma dict_keys_set_old: "k \<in> set (dict_keys d) \<Longrightarrow> dict_keys (dict_set k v d) = dict_keys d"
  by (simp add: update_keys)

lemma distinct_dict_set: "distinct (dict_keys d) \<Longrightarrow> distinct (dict_keys (dict_set k v d))"
  by (rule distinct_update)

lemma set_dict_set:
  "distinct (dict_keys d) \<Longrightarrow> set (dict_set k v d) = {(k, v)} \<union> {(k', v') \<in> set d. k' \<noteq> k}"
  by (induction d) force+

lemma dict_value_set:
  "distinct (dict_keys d) \<Longrightarrow> w \<in> set (dict_values (dict_set k v d)) \<Longrightarrow>
   w = v \<or> (\<exists>k'. k' \<noteq> k \<and> dict_get d k' = Some w)"
  by (auto simp: set_dict_set)

lemma dict_get_None_iff [simp]: "dict_get d k = None \<longleftrightarrow> k \<notin> set (dict_keys d)"
  by (simp add: map_of_eq_None_iff image_image)

end
