(* ===== verification/Values.thy ===== *)
theory Values
  imports Prelude "HOL-Library.Multiset"
begin

text \<open>
  The dynamically typed values the sources exchange (JSON and YAML documents, signed commands, audit
  and decision events), the \<^verbatim>\<open>isinstance\<close> tests made on them, and the canonical JSON text that is
  hashed and signed (\<^verbatim>\<open>canonical_json\<close>, \<^verbatim>\<open>sha256_hex\<close> of \<^verbatim>\<open>response/policy.py\<close>).

  A finite \<^verbatim>\<open>float\<close> is its exact rational value. SHA-256 and the shortest decimal notation of a
  \<^verbatim>\<open>float\<close> (\<^verbatim>\<open>float.__repr__\<close>) are fields of the parameter record \<open>prims\<close>: every theorem holds for
  every choice of them unless it says otherwise. Object keys are strings, as in JSON.
\<close>

section \<open>Values\<close>

datatype pyfloat = Fin rat | PosInf | NegInf | NaN

datatype pyval =
    PNone
  | PBool bool
  | PInt int
  | PFloat pyfloat
  | PStr string
  | PList "pyval list"
  | PDict "(string \<times> pyval) list"

fun is_mapping :: "pyval \<Rightarrow> bool" where
  "is_mapping (PDict kvs) = True"
| "is_mapping _ = False"

fun is_list :: "pyval \<Rightarrow> bool" where
  "is_list (PList vs) = True"
| "is_list _ = False"

fun as_str :: "pyval \<Rightarrow> string option" where
  "as_str (PStr s) = Some s"
| "as_str _ = None"

fun entries :: "pyval \<Rightarrow> (string \<times> pyval) list" where
  "entries (PDict kvs) = kvs"
| "entries _ = []"

fun elements :: "pyval \<Rightarrow> pyval list" where
  "elements (PList vs) = vs"
| "elements _ = []"

text \<open>\<^verbatim>\<open>d.get(k)\<close>: \<^verbatim>\<open>None\<close> for a missing key.\<close>

definition pget :: "pyval \<Rightarrow> string \<Rightarrow> pyval" where
  "pget v k = (case map_of (entries v) k of None \<Rightarrow> PNone | Some w \<Rightarrow> w)"

definition pkeys :: "pyval \<Rightarrow> string set" where
  "pkeys v = set (map fst (entries v))"

definition has_key :: "pyval \<Rightarrow> string \<Rightarrow> bool" where
  "has_key v k = (k \<in> pkeys v)"

text \<open>The string at a key of an object whose shape has been validated.\<close>

definition sget :: "pyval \<Rightarrow> string \<Rightarrow> string" where
  "sget v k = (case pget v k of PStr s \<Rightarrow> s | _ \<Rightarrow> [])"

definition nonempty_str :: "pyval \<Rightarrow> bool" where
  "nonempty_str v = (case v of PStr s \<Rightarrow> s \<noteq> [] | _ \<Rightarrow> False)"

lemma pget_PDict [simp]: "pget (PDict kvs) k = (case map_of kvs k of None \<Rightarrow> PNone | Some w \<Rightarrow> w)"
  by (simp add: pget_def)

lemma pkeys_PDict [simp]: "pkeys (PDict kvs) = fst ` set kvs"
  by (simp add: pkeys_def)

lemma is_mapping_conv: "is_mapping v \<longleftrightarrow> (\<exists>kvs. v = PDict kvs)"
  by (cases v) auto

lemma nonempty_str_conv: "nonempty_str v \<longleftrightarrow> (\<exists>s. v = PStr s \<and> s \<noteq> [])"
  by (cases v) (auto simp: nonempty_str_def)

lemma sget_PStr: "pget v k = PStr s \<Longrightarrow> sget v k = s"
  by (simp add: sget_def)

section \<open>Numbers\<close>

text \<open>
  \<^verbatim>\<open>isinstance(v, (int, float)) and not isinstance(v, bool)\<close>, read as an exact number.
  Python compares \<^verbatim>\<open>int\<close> and \<^verbatim>\<open>float\<close> exactly, so comparisons are made on \<^typ>\<open>rat\<close>.
\<close>

fun as_number :: "pyval \<Rightarrow> pyfloat option" where
  "as_number (PInt i) = Some (Fin (of_int i))"
| "as_number (PFloat f) = Some f"
| "as_number _ = None"

text \<open>\<^verbatim>\<open>float(i)\<close> and \<^verbatim>\<open>math.isfinite(i)\<close> raise \<^verbatim>\<open>OverflowError\<close> from this magnitude on.\<close>

definition float_overflows :: "int \<Rightarrow> bool" where
  "float_overflows i = (2 ^ 1024 - 2 ^ 970 \<le> \<bar>i\<bar>)"

text \<open>Equality with an \<^verbatim>\<open>int\<close>, which \<^verbatim>\<open>True == 1\<close> and \<^verbatim>\<open>600.0 == 600\<close> satisfy.\<close>

fun eq_int :: "pyval \<Rightarrow> int \<Rightarrow> bool" where
  "eq_int (PInt j) i = (j = i)"
| "eq_int (PBool b) i = (i = (if b then 1 else 0))"
| "eq_int (PFloat (Fin r)) i = (r = of_int i)"
| "eq_int _ i = False"

section \<open>Canonical JSON and digests\<close>

record prims =
  sha256_hexdigest :: "string \<Rightarrow> string"
  float_repr :: "rat \<Rightarrow> string"

definition hex_digit :: "nat \<Rightarrow> char" where
  "hex_digit d = (if d < 10 then char_of (48 + d) else char_of (87 + d))"

definition escape_char :: "char \<Rightarrow> string" where
  "escape_char c = (let n = of_char c :: nat in
     if n = 34 then [char_of (92 :: nat), c]
     else if n = 92 then [c, c]
     else if n = 10 then [char_of (92 :: nat), CHR ''n'']
     else if n = 13 then [char_of (92 :: nat), CHR ''r'']
     else if n = 9 then [char_of (92 :: nat), CHR ''t'']
     else if n = 8 then [char_of (92 :: nat), CHR ''b'']
     else if n = 12 then [char_of (92 :: nat), CHR ''f'']
     else if 32 \<le> n \<and> n \<le> 126 then [c]
     else [char_of (92 :: nat), CHR ''u'', CHR ''0'', CHR ''0'',
           hex_digit (n div 16), hex_digit (n mod 16)])"

definition json_string :: "string \<Rightarrow> string" where
  "json_string s = [CHR 0x22] @ concat (map escape_char s) @ [CHR 0x22]"

definition show_float :: "prims \<Rightarrow> pyfloat \<Rightarrow> string" where
  "show_float pr f = (case f of Fin r \<Rightarrow> float_repr pr r | PosInf \<Rightarrow> ''Infinity''
     | NegInf \<Rightarrow> ''-Infinity'' | NaN \<Rightarrow> ''NaN'')"

text \<open>
  \<^verbatim>\<open>json.dumps(value, sort_keys=True, separators=(",", ":"), ensure_ascii=True)\<close>.
  The members are rendered first and then sorted by key, which is the same text.
\<close>

primrec canonical_json :: "prims \<Rightarrow> pyval \<Rightarrow> string" where
  "canonical_json pr PNone = ''null''"
| "canonical_json pr (PBool b) = (if b then ''true'' else ''false'')"
| "canonical_json pr (PInt i) = show_int i"
| "canonical_json pr (PFloat f) = show_float pr f"
| "canonical_json pr (PStr s) = json_string s"
| "canonical_json pr (PList vs) = ''['' @ join_with '','' (map (canonical_json pr) vs) @ '']''"
| "canonical_json pr (PDict kvs) =
     ''{'' @ join_with '',''
       (map (\<lambda>(k, t). json_string k @ '':'' @ t)
         (sort_key fst (map (map_prod id (canonical_json pr)) kvs))) @ ''}''"

definition sha256_hex :: "prims \<Rightarrow> pyval \<Rightarrow> string" where
  "sha256_hex pr v = sha256_hexdigest pr (canonical_json pr v)"

text \<open>The text does not depend on the order in which an object was filled.\<close>

lemma canonical_json_perm:
  assumes "distinct (map fst kvs)" and "mset kvs = mset kvs'"
  shows "canonical_json pr (PDict kvs) = canonical_json pr (PDict kvs')"
proof -
  let ?r = "map (map_prod id (canonical_json pr))"
  have "mset (?r kvs) = mset (?r kvs')" using assms(2) by simp
  moreover have "inj_on fst (set (?r kvs))"
  proof -
    have "distinct (map fst (?r kvs))" using assms(1) by (simp add: comp_def)
    then show ?thesis by (rule distinct_map [THEN iffD1, THEN conjunct2])
  qed
  ultimately have "sort_key fst (?r kvs) = sort_key fst (?r kvs')"
    by (intro sort_key_inj_key_eq) simp_all
  then show ?thesis by simp
qed

section \<open>Loops over a permuted list\<close>

lemma mapR_perm:
  assumes "mapR f xs = Inr ys" and "mset xs = mset xs'"
  shows "\<exists>ys'. mapR f xs' = Inr ys' \<and> mset ys' = mset ys"
proof -
  have ok: "f x = Inr (projr (f x))" if "x \<in> set xs'" for x
  proof -
    have "x \<in> set xs" using that mset_eq_setD [OF assms(2)] by simp
    then obtain y where "f x = Inr y" using mapR_image [OF assms(1)] by blast
    then show ?thesis by simp
  qed
  let ?ys' = "map (\<lambda>x. projr (f x)) xs'"
  have "mapR f xs' = Inr ?ys'" unfolding mapR_iff_map using ok by simp
  moreover have "ys = map (\<lambda>x. projr (f x)) xs"
    using arg_cong [OF assms(1) [unfolded mapR_iff_map], of "map projr"] by (simp add: comp_def)
  then have "mset ?ys' = mset ys" using assms(2) by simp
  ultimately show ?thesis by blast
qed

end
