(* ===== verification/Timestamps.thy ===== *)
theory Timestamps
  imports Values
begin

text \<open>
  Timestamps. An instant is its number of microseconds since 1970-01-01T00:00:00Z; a \<^verbatim>\<open>datetime\<close> is
  aware (an instant) or naive. The theory models what the sources use of the \<^verbatim>\<open>datetime\<close> library:
  the proleptic Gregorian calendar, \<^verbatim>\<open>datetime.isoformat\<close> and \<^verbatim>\<open>datetime.fromisoformat\<close> (the
  grammar of the library's reference implementation, with ASCII digits only), and on top of them the
  source's helpers \<^verbatim>\<open>_as_utc\<close>, \<^verbatim>\<open>_rfc3339\<close> and \<^verbatim>\<open>_parse_rfc3339\<close>.

  The main result is the round trip: the text written for an instant is read back as the same
  instant cut to milliseconds.
\<close>

section \<open>Calendar\<close>

definition is_leap :: "int \<Rightarrow> bool" where
  "is_leap y = (y mod 4 = 0 \<and> (y mod 100 \<noteq> 0 \<or> y mod 400 = 0))"

definition days_before_year :: "int \<Rightarrow> int" where
  "days_before_year y = (y - 1) * 365 + (y - 1) div 4 - (y - 1) div 100 + (y - 1) div 400"

definition month_offset :: "int \<Rightarrow> int" where
  "month_offset m = (if m = 1 then 0 else if m = 2 then 31 else if m = 3 then 59 else if m = 4 then 90
     else if m = 5 then 120 else if m = 6 then 151 else if m = 7 then 181 else if m = 8 then 212
     else if m = 9 then 243 else if m = 10 then 273 else if m = 11 then 304 else 334)"

definition days_before_month :: "int \<Rightarrow> int \<Rightarrow> int" where
  "days_before_month y m = month_offset m + (if 2 < m \<and> is_leap y then 1 else 0)"

definition days_in_month :: "int \<Rightarrow> int \<Rightarrow> int" where
  "days_in_month y m = (if m = 2 then (if is_leap y then 29 else 28)
     else if m = 4 \<or> m = 6 \<or> m = 9 \<or> m = 11 then 30 else 31)"

definition ymd2ord :: "int \<Rightarrow> int \<Rightarrow> int \<Rightarrow> int" where
  "ymd2ord y m d = days_before_year y + days_before_month y m + d"

definition month_of :: "int \<Rightarrow> int \<Rightarrow> int" where
  "month_of y r = (if r \<le> days_before_month y 2 then 1 else if r \<le> days_before_month y 3 then 2
     else if r \<le> days_before_month y 4 then 3 else if r \<le> days_before_month y 5 then 4
     else if r \<le> days_before_month y 6 then 5 else if r \<le> days_before_month y 7 then 6
     else if r \<le> days_before_month y 8 then 7 else if r \<le> days_before_month y 9 then 8
     else if r \<le> days_before_month y 10 then 9 else if r \<le> days_before_month y 11 then 10
     else if r \<le> days_before_month y 12 then 11 else 12)"

definition ord2ymd :: "int \<Rightarrow> int \<times> int \<times> int" where
  "ord2ymd ordinal = (
     let n = ordinal - 1;
         n400 = n div 146097; n = n mod 146097;
         n100 = n div 36524; n = n mod 36524;
         n4 = n div 1461; n = n mod 1461;
         n1 = n div 365; n = n mod 365;
         y = n400 * 400 + 1 + n100 * 100 + n4 * 4 + n1
     in if n1 = 4 \<or> n100 = 4 then (y - 1, 12, 31)
        else (let m = month_of y (n + 1) in (y, m, n + 1 - days_before_month y m)))"

definition valid_date :: "int \<Rightarrow> int \<Rightarrow> int \<Rightarrow> bool" where
  "valid_date y m d = (1 \<le> y \<and> y \<le> 9999 \<and> 1 \<le> m \<and> m \<le> 12 \<and> 1 \<le> d \<and> d \<le> days_in_month y m)"

definition max_ordinal :: int where
  "max_ordinal = 3652059"

lemma days_before_year_cycles:
  assumes "0 \<le> b" "b \<le> 3" "0 \<le> c" "c \<le> 24" "0 \<le> d" "d \<le> 3"
  shows "days_before_year (400 * a + 100 * b + 4 * c + d + 1)
           = 146097 * a + 36524 * b + 1461 * c + 365 * d"
proof -
  let ?q = "400 * a + 100 * b + 4 * c + d"
  have "?q div 4 = 100 * a + 25 * b + c"
    by (rule int_div_pos_eq [where r = d]) (use assms in auto)
  moreover have "?q div 100 = 4 * a + b"
    by (rule int_div_pos_eq [where r = "4 * c + d"]) (use assms in auto)
  moreover have "?q div 400 = a"
    by (rule int_div_pos_eq [where r = "100 * b + 4 * c + d"]) (use assms in auto)
  ultimately show ?thesis by (simp add: days_before_year_def)
qed

lemma is_leap_cycles:
  assumes "0 \<le> b" "b \<le> 3" "0 \<le> c" "c \<le> 24"
  shows "is_leap (400 * a + 100 * b + 4 * c + 3 + 1) \<longleftrightarrow> c \<noteq> 24 \<or> b = 3"
proof -
  let ?y = "400 * a + 100 * b + 4 * c + 3 + 1"
  have m4: "?y mod 4 = 0"
    by (rule int_mod_pos_eq [where q = "100 * a + 25 * b + c + 1"]) simp_all
  show ?thesis
  proof (cases "c = 24")
    case False
    have "?y mod 100 = 4 * c + 4"
      by (rule int_mod_pos_eq [where q = "4 * a + b"]) (use assms False in auto)
    then show ?thesis using m4 False assms by (simp add: is_leap_def)
  next
    case True
    have "?y mod 100 = 0"
      by (rule int_mod_pos_eq [where q = "4 * a + b + 1"]) (use True in auto)
    moreover have "?y mod 400 = (if b = 3 then 0 else 100 * b + 100)"
      by (rule int_mod_pos_eq [where q = "if b = 3 then a + 1 else a"]) (use assms True in auto)
    ultimately show ?thesis using m4 True assms by (simp add: is_leap_def)
  qed
qed

lemmas calendar_defs = ymd2ord_def days_before_month_def month_offset_def days_in_month_def

lemma month_of_bounds:
  assumes "1 \<le> r" and "r \<le> 365 + (if is_leap y then 1 else 0)"
  shows "1 \<le> month_of y r \<and> month_of y r \<le> 12 \<and> 1 \<le> r - days_before_month y (month_of y r)
    \<and> r - days_before_month y (month_of y r) \<le> days_in_month y (month_of y r)"
proof (cases "is_leap y")
  case True
  then show ?thesis using assms
    unfolding month_of_def by (simp add: calendar_defs)
next
  case False
  then show ?thesis using assms
    unfolding month_of_def by (simp add: calendar_defs)
qed

lemma last_day: "ymd2ord y 12 31 = days_before_year y + 365 + (if is_leap y then 1 else 0)"
  by (simp add: calendar_defs)

text \<open>The division cascade of \<^const>\<open>ord2ymd\<close> as equations between its parts.\<close>

lemma ord2ymd_parts:
  obtains a b c e r where
    "n - 1 = 146097 * a + 36524 * b + 1461 * c + 365 * e + r"
    "0 \<le> b" "b \<le> 4" "0 \<le> c" "c \<le> 24" "0 \<le> e" "e \<le> 4" "0 \<le> r" "r < 365"
    "36524 * b + 1461 * c + 365 * e + r < 146097" "1461 * c + 365 * e + r < 36524"
    "365 * e + r < 1461"
    "ord2ymd n = (let y = 400 * a + 100 * b + 4 * c + e + 1 in if e = 4 \<or> b = 4 then (y - 1, 12, 31)
      else (y, month_of y (r + 1), r + 1 - days_before_month y (month_of y (r + 1))))"
proof -
  define a r1 where "a = (n - 1) div 146097" and "r1 = (n - 1) mod 146097"
  define b r2 where "b = r1 div 36524" and "r2 = r1 mod 36524"
  define c r3 where "c = r2 div 1461" and "r3 = r2 mod 1461"
  define e r4 where "e = r3 div 365" and "r4 = r3 mod 365"
  note defs = a_def r1_def b_def r2_def c_def r3_def e_def r4_def
  have r: "0 \<le> r1" "r1 < 146097" "0 \<le> r2" "r2 < 36524" "0 \<le> r3" "r3 < 1461" "0 \<le> r4" "r4 < 365"
    by (simp_all add: defs)
  have eqs: "n - 1 = 146097 * a + r1" "r1 = 36524 * b + r2" "r2 = 1461 * c + r3" "r3 = 365 * e + r4"
    unfolding defs by (simp_all only: mult_div_mod_eq)
  have bounds: "0 \<le> b" "b \<le> 4" "0 \<le> c" "c \<le> 24" "0 \<le> e" "e \<le> 4"
    using r eqs by linarith+
  have ord: "ord2ymd n = (let y = 400 * a + 100 * b + 4 * c + e + 1 in if e = 4 \<or> b = 4 then (y - 1, 12, 31)
      else (y, month_of y (r4 + 1), r4 + 1 - days_before_month y (month_of y (r4 + 1))))"
    unfolding ord2ymd_def Let_def defs by (simp add: algebra_simps)
  show ?thesis
    by (rule that [of a b c e r4]) (use r eqs bounds ord in auto)
qed

lemma ord2ymd_correct:
  assumes "ord2ymd n = (y, m, d)"
  shows "ymd2ord y m d = n \<and> 1 \<le> m \<and> m \<le> 12 \<and> 1 \<le> d \<and> d \<le> days_in_month y m"
proof (rule ord2ymd_parts [of n])
  fix a b c e r
  assume n: "n - 1 = 146097 * a + 36524 * b + 1461 * c + 365 * e + r"
    and bounds: "0 \<le> b" "b \<le> 4" "0 \<le> c" "c \<le> 24" "0 \<le> e" "e \<le> 4" "0 \<le> r" "r < 365"
    and total: "36524 * b + 1461 * c + 365 * e + r < 146097" "1461 * c + 365 * e + r < 36524"
    "365 * e + r < 1461"
    and ord: "ord2ymd n = (let y = 400 * a + 100 * b + 4 * c + e + 1 in if e = 4 \<or> b = 4
      then (y - 1, 12, 31)
      else (y, month_of y (r + 1), r + 1 - days_before_month y (month_of y (r + 1))))"
  consider (b4) "b = 4" | (e4) "b \<le> 3" "e = 4" | (regular) "b \<le> 3" "e \<le> 3" using bounds by linarith
  then show ?thesis
  proof cases
    case b4
    have z: "c = 0" "e = 0" "r = 0" using b4 total(1) bounds by linarith+
    have y: "y = 400 * a + 100 * 3 + 4 * 24 + 3 + 1" "m = 12" "d = 31"
      using assms ord b4 z by (simp_all add: Let_def)
    show ?thesis
      using n b4 z days_before_year_cycles [of 3 24 3 a] is_leap_cycles [of 3 24 a]
      unfolding y last_day by (simp add: days_in_month_def)
  next
    case e4
    have z: "r = 0" and c: "c \<noteq> 24 \<or> b = 3" using e4 total bounds by linarith+
    have y: "y = 400 * a + 100 * b + 4 * c + 3 + 1" "m = 12" "d = 31"
      using assms ord e4 by (simp_all add: Let_def)
    show ?thesis
      using n e4 z c bounds days_before_year_cycles [of b c 3 a] is_leap_cycles [of b c a]
      unfolding y last_day by (simp add: days_in_month_def)
  next
    case regular
    then have y: "y = 400 * a + 100 * b + 4 * c + e + 1" and m: "m = month_of y (r + 1)"
      and d: "d = r + 1 - days_before_month y m" using assms ord by (auto simp: Let_def)
    have "days_before_year y = 146097 * a + 36524 * b + 1461 * c + 365 * e"
      using days_before_year_cycles [of b c e a] y bounds regular by simp
    then have "ymd2ord y m d = n" using n by (simp add: ymd2ord_def d)
    then show ?thesis using month_of_bounds [of "r + 1" y] bounds m d by auto
  qed
qed

lemma ord2ymd_valid:
  assumes "1 \<le> n" "n \<le> max_ordinal" and "ord2ymd n = (y, m, d)"
  shows "valid_date y m d"
proof (rule ord2ymd_parts [of n])
  fix a b c e r
  assume n: "n - 1 = 146097 * a + 36524 * b + 1461 * c + 365 * e + r"
    and bounds: "0 \<le> b" "b \<le> 4" "0 \<le> c" "c \<le> 24" "0 \<le> e" "e \<le> 4" "0 \<le> r" "r < 365"
    and total: "36524 * b + 1461 * c + 365 * e + r < 146097" "1461 * c + 365 * e + r < 36524"
    "365 * e + r < 1461"
    and ord: "ord2ymd n = (let y = 400 * a + 100 * b + 4 * c + e + 1 in if e = 4 \<or> b = 4
      then (y - 1, 12, 31)
      else (y, month_of y (r + 1), r + 1 - days_before_month y (month_of y (r + 1))))"
  have a: "0 \<le> a" "a \<le> 24"
    using n assms(1,2) bounds total(1) unfolding max_ordinal_def by linarith+
  have y: "y = 400 * a + 100 * b + 4 * c + e + (if e = 4 \<or> b = 4 then 0 else 1)"
    using ord assms(3) by (auto simp: Let_def split: if_splits)
  have "1 \<le> y" using y a bounds by auto
  moreover have "y \<le> 9999"
  proof (rule ccontr)
    assume "\<not> y \<le> 9999"
    then have big: "10000 \<le> 400 * a + 100 * b + 4 * c + e + (if e = 4 \<or> b = 4 then 0 else 1)"
      using y by simp
    have "146097 * a + 36524 * b + 1461 * c + 365 * e + r \<le> 3652058"
      using n assms(2) by (simp add: max_ordinal_def)
    then show False using big a bounds total by (cases "e = 4 \<or> b = 4") auto
  qed
  ultimately show ?thesis
    using ord2ymd_correct [OF assms(3)] by (simp add: valid_date_def)
qed

section \<open>Instants and their text\<close>

datatype datetime = Aware int | Naive int

definition us_per_day :: int where
  "us_per_day = 86400000000"

definition epoch_ordinal :: int where
  "epoch_ordinal = 719163"

definition min_instant :: int where
  "min_instant = (1 - epoch_ordinal) * us_per_day"

definition max_instant :: int where
  "max_instant = (max_ordinal - epoch_ordinal + 1) * us_per_day - 1"

definition in_range :: "int \<Rightarrow> bool" where
  "in_range t = (min_instant \<le> t \<and> t \<le> max_instant)"

definition seconds :: "int \<Rightarrow> int" where
  "seconds n = n * 1000000"

definition show2 :: "int \<Rightarrow> string" where
  "show2 n = [digit_char (nat (n div 10 mod 10)), digit_char (nat (n mod 10))]"

definition show3 :: "int \<Rightarrow> string" where
  "show3 n = digit_char (nat (n div 100 mod 10)) # show2 n"

definition show4 :: "int \<Rightarrow> string" where
  "show4 n = digit_char (nat (n div 1000 mod 10)) # show3 n"

definition show6 :: "int \<Rightarrow> string" where
  "show6 n = show3 (n div 1000) @ show3 (n mod 1000)"

text \<open>Date and time of day of an instant in UTC, to the second.\<close>

definition iso_seconds :: "int \<Rightarrow> string" where
  "iso_seconds t = (case ord2ymd (t div us_per_day + epoch_ordinal) of (y, m, d) \<Rightarrow>
     let s = t mod us_per_day div 1000000 in
     show4 y @ ''-'' @ show2 m @ ''-'' @ show2 d @ ''T'' @
     show2 (s div 3600) @ '':'' @ show2 (s div 60 mod 60) @ '':'' @ show2 (s mod 60))"

text \<open>
  \<^verbatim>\<open>_rfc3339\<close> of \<^verbatim>\<open>decision.py\<close>, \<^verbatim>\<open>orchestrator/engine.py\<close> and \<^verbatim>\<open>orchestrator/audit.py\<close>:
  milliseconds, and the UTC suffix replaced by \<^verbatim>\<open>Z\<close>.
\<close>

definition rfc3339 :: "int \<Rightarrow> string" where
  "rfc3339 t = iso_seconds t @ ''.'' @ show3 (t mod 1000000 div 1000) @ ''Z''"

definition replace_Z :: "string \<Rightarrow> string" where
  "replace_Z s = concat (map (\<lambda>c. if c = CHR ''Z'' then ''+00:00'' else [c]) s)"

section \<open>Reading ISO 8601 text\<close>

definition digits :: "nat \<Rightarrow> string \<Rightarrow> int option" where
  "digits n s = (if length s = n \<and> list_all is_digit s then Some (int (read_nat s)) else None)"

definition char_at :: "string \<Rightarrow> nat \<Rightarrow> char option" where
  "char_at s i = (if i < length s then Some (s ! i) else None)"

definition digit_at :: "string \<Rightarrow> nat \<Rightarrow> bool" where
  "digit_at s i = (case char_at s i of None \<Rightarrow> False | Some c \<Rightarrow> is_digit c)"

definition find_separator :: "string \<Rightarrow> nat option" where
  "find_separator s = (
     if length s = 7 then Some 7
     else if char_at s 4 = Some (CHR ''-'') then
       (if char_at s 5 = Some (CHR ''W'') then
          (if char_at s 8 = Some (CHR ''-'') then
             (if length s = 9 then None
              else if digit_at s 10 then Some 8 else Some 10)
           else Some 8)
        else Some 10)
     else if char_at s 4 = Some (CHR ''W'') then
       (let idx = 7 + length (takeWhile is_digit (drop 7 s)) in
        if idx < 9 then Some idx else if even idx then Some 7 else Some 8)
     else Some 8)"

definition isoweek1monday :: "int \<Rightarrow> int" where
  "isoweek1monday y = (let firstday = ymd2ord y 1 1; w = (firstday + 6) mod 7 in
     if 3 < w then firstday - w + 7 else firstday - w)"

definition isoweek_to_gregorian :: "int \<Rightarrow> int \<Rightarrow> int \<Rightarrow> (int \<times> int \<times> int) option" where
  "isoweek_to_gregorian y w d = (
     let first_weekday = ymd2ord y 1 1 mod 7;
         week_ok = (0 < w \<and> w < 53 \<or>
           w = 53 \<and> (first_weekday = 4 \<or> first_weekday = 3 \<and> is_leap y))
     in if 1 \<le> y \<and> y \<le> 9999 \<and> week_ok \<and> 0 < d \<and> d < 8
        then Some (ord2ymd (isoweek1monday y + (w - 1) * 7 + (d - 1))) else None)"

definition parse_iso_date :: "string \<Rightarrow> (int \<times> int \<times> int) option" where
  "parse_iso_date s = (case digits 4 (take 4 s) of None \<Rightarrow> None | Some y \<Rightarrow>
     (let sep = char_at s 4 = Some (CHR ''-''); r = drop (if sep then 5 else 4) s in
      if char_at r 0 = Some (CHR ''W'') then
        (case digits 2 (take 2 (drop 1 r)) of None \<Rightarrow> None | Some w \<Rightarrow>
          (let t = drop 3 r in
           if t = [] then isoweek_to_gregorian y w 1
           else if (hd t = CHR ''-'') \<noteq> sep then None
           else case digits 1 (if sep then drop 1 t else t) of None \<Rightarrow> None
             | Some d \<Rightarrow> isoweek_to_gregorian y w d))
      else
        (case digits 2 (take 2 r) of None \<Rightarrow> None | Some m \<Rightarrow>
          (let t = drop 2 r in
           if (char_at t 0 = Some (CHR ''-'')) \<noteq> sep then None
           else case digits 2 (if sep then drop 1 t else t) of None \<Rightarrow> None
             | Some d \<Rightarrow> Some (y, m, d)))))"

definition parse_fraction :: "string \<Rightarrow> int option" where
  "parse_fraction s = (if s = [] \<or> \<not> list_all is_digit s then None
     else Some (int (read_nat (take 6 (s @ ''00000'')))))"

text \<open>\<^verbatim>\<open>HH[:MM[:SS[.f]]]\<close> with or without the colons, in microseconds with the parts kept apart.\<close>

definition parse_hms :: "string \<Rightarrow> (int \<times> int \<times> int \<times> int) option" where
  "parse_hms s = (case digits 2 (take 2 s) of None \<Rightarrow> None | Some h \<Rightarrow>
     (let r = drop 2 s; sep = char_at r 0 = Some (CHR '':'') in
      if r = [] then Some (h, 0, 0, 0) else
      (let r = (if sep then drop 1 r else r) in
       case digits 2 (take 2 r) of None \<Rightarrow> None | Some m \<Rightarrow>
       (let r = drop 2 r in
        if r = [] then Some (h, m, 0, 0)
        else if sep \<and> char_at r 0 \<noteq> Some (CHR '':'') then None else
        (let r = (if sep then drop 1 r else r) in
         case digits 2 (take 2 r) of None \<Rightarrow> None | Some c \<Rightarrow>
         (let r = drop 2 r in
          if r = [] then Some (h, m, c, 0)
          else if char_at r 0 = Some (CHR ''.'') \<or> char_at r 0 = Some (CHR '','')
          then map_option (\<lambda>f. (h, m, c, f)) (parse_fraction (drop 1 r)) else None))))))"

definition time_of_parts :: "int \<times> int \<times> int \<times> int \<Rightarrow> int" where
  "time_of_parts p = (case p of (h, m, c, f) \<Rightarrow> ((h * 60 + m) * 60 + c) * 1000000 + f)"

text \<open>The position of the time zone: the first \<^verbatim>\<open>-\<close>, else the first \<^verbatim>\<open>+\<close>, else the first \<^verbatim>\<open>Z\<close>.\<close>

definition tz_position :: "string \<Rightarrow> nat option" where
  "tz_position s = (
     let pos_of = (\<lambda>c. length (takeWhile (\<lambda>x. x \<noteq> c) s)) in
     if CHR ''-'' \<in> set s then Some (pos_of (CHR ''-''))
     else if CHR ''+'' \<in> set s then Some (pos_of (CHR ''+''))
     else if CHR ''Z'' \<in> set s then Some (pos_of (CHR ''Z'')) else None)"

text \<open>The time of day and the offset from UTC, if one is given.\<close>

definition parse_iso_time :: "string \<Rightarrow> ((int \<times> int \<times> int \<times> int) \<times> int option) option" where
  "parse_iso_time s = (if length s < 2 then None else
     (case tz_position s of
       None \<Rightarrow> map_option (\<lambda>p. (p, None)) (parse_hms s)
     | Some i \<Rightarrow>
        (case parse_hms (take i s) of None \<Rightarrow> None | Some p \<Rightarrow>
          if s ! i = CHR ''Z'' then (if length s = Suc i then Some (p, Some 0) else None)
          else (let z = drop (Suc i) s in
            if length z \<in> {0, 1, 3} then None
            else (case parse_hms z of None \<Rightarrow> None | Some q \<Rightarrow>
              (let off = time_of_parts q in
               if us_per_day \<le> off then None
               else Some (p, Some (if s ! i = CHR ''-'' then - off else off))))))))"

definition valid_time :: "int \<times> int \<times> int \<times> int \<Rightarrow> bool" where
  "valid_time p = (case p of (h, m, c, f) \<Rightarrow> h < 24 \<and> m < 60 \<and> c < 60)"

definition fromisoformat :: "string \<Rightarrow> datetime option" where
  "fromisoformat s = (if length s < 7 then None else
     (case find_separator s of None \<Rightarrow> None | Some i \<Rightarrow>
       (case parse_iso_date (take i s) of None \<Rightarrow> None | Some (y, m, d) \<Rightarrow>
         (let tstr = drop (Suc i) s in
          case (if tstr = [] then Some ((0, 0, 0, 0), None) else parse_iso_time tstr) of
            None \<Rightarrow> None
          | Some (p, off) \<Rightarrow>
              if valid_date y m d \<and> valid_time p then
                (let local = (ymd2ord y m d - epoch_ordinal) * us_per_day + time_of_parts p in
                 case off of None \<Rightarrow> Some (Naive local) | Some z \<Rightarrow> Some (Aware (local - z)))
              else None))))"

text \<open>
  \<^verbatim>\<open>_parse_rfc3339\<close>: \<open>mk\<close> is the exception class of the module (\<^verbatim>\<open>CorrelationRejected\<close> in
  \<^verbatim>\<open>decision.py\<close>, \<^verbatim>\<open>CommandRejected\<close> in \<^verbatim>\<open>engine.py\<close>). Normalising to UTC overflows outside the
  years 1 to 9999.
\<close>

definition parse_rfc3339 :: "(string \<Rightarrow> exn) \<Rightarrow> pyval \<Rightarrow> int res" where
  "parse_rfc3339 mk v = (case v of
     PStr s \<Rightarrow> (if s = [] then Inl (mk ''must be an RFC3339 timestamp'')
       else (case fromisoformat (replace_Z s) of
           None \<Rightarrow> Inl (mk ''is not a valid timestamp'')
         | Some (Naive t) \<Rightarrow> Inl (mk ''must include a timezone'')
         | Some (Aware t) \<Rightarrow> if in_range t then Inr t else Inl OverflowErr))
   | _ \<Rightarrow> Inl (mk ''must be an RFC3339 timestamp''))"

text \<open>\<^verbatim>\<open>_as_utc\<close>: the given time, or the clock.\<close>

definition as_utc :: "(string \<Rightarrow> exn) \<Rightarrow> int \<Rightarrow> datetime option \<Rightarrow> int res" where
  "as_utc mk clock value = (case value of None \<Rightarrow> Inr clock
     | Some (Naive t) \<Rightarrow> Inl (mk ''timestamps must include a timezone'')
     | Some (Aware t) \<Rightarrow> Inr t)"

definition cut_ms :: "int \<Rightarrow> int" where
  "cut_ms t = t - t mod 1000"

section \<open>The round trip\<close>

lemma digit_char_ne [simp]:
  assumes "d < 10"
  shows "digit_char d \<noteq> CHR ''Z''" "digit_char d \<noteq> CHR ''W''" "digit_char d \<noteq> CHR ''-''"
    "digit_char d \<noteq> CHR ''+''" "digit_char d \<noteq> CHR '':''"
proof -
  have n: "(of_char (digit_char d) :: nat) = 48 + d" using assms by (rule of_char_digit_char)
  have "(of_char (CHR ''Z'') :: nat) = 90" "(of_char (CHR ''W'') :: nat) = 87"
    "(of_char (CHR ''-'') :: nat) = 45" "(of_char (CHR ''+'') :: nat) = 43"
    "(of_char (CHR '':'') :: nat) = 58" by simp_all
  then show "digit_char d \<noteq> CHR ''Z''" "digit_char d \<noteq> CHR ''W''" "digit_char d \<noteq> CHR ''-''"
    "digit_char d \<noteq> CHR ''+''" "digit_char d \<noteq> CHR '':''"
    using n assms by auto
qed

lemma nat_digit [simp]: "nat (n mod 10) < 10"
  by (simp add: nat_less_iff)

lemma div_div_10: "n div 100 = n div 10 div (10::int)" "n div 1000 = n div 100 div (10::int)"
  using zdiv_zmult2_eq [of 10 n 10] zdiv_zmult2_eq [of 10 n 100] by simp_all

lemma decimal2: "0 \<le> n \<Longrightarrow> n < 100 \<Longrightarrow> 10 * (n div 10 mod 10) + n mod 10 = (n :: int)"
proof -
  assume n: "0 \<le> n" "n < 100"
  have "n div 10 mod 10 = n div 10" using n by (intro mod_pos_pos_trivial) auto
  then show ?thesis by (simp only: mult_div_mod_eq)
qed

lemma regroup: "100 * a + 10 * b + c = 10 * (10 * a + b) + (c :: int)"
  by simp

lemma decimal3:
  "0 \<le> n \<Longrightarrow> n < 1000 \<Longrightarrow> 100 * (n div 100 mod 10) + 10 * (n div 10 mod 10) + n mod 10 = (n :: int)"
proof -
  assume n: "0 \<le> n" "n < 1000"
  have "10 * (n div 10 div 10 mod 10) + n div 10 mod 10 = n div 10"
    using n by (intro decimal2) auto
  then show ?thesis unfolding regroup div_div_10(1) by (simp only: mult_div_mod_eq)
qed

lemma regroup4: "1000 * a + 100 * b + 10 * c + d = 10 * (100 * a + 10 * b + c) + (d :: int)"
  by simp

lemma div_10_100: "n div 1000 = n div 10 div (100::int)"
  using zdiv_zmult2_eq [of 100 n 10] by simp

lemma decimal4: "0 \<le> n \<Longrightarrow> n < 10000 \<Longrightarrow>
    1000 * (n div 1000 mod 10) + 100 * (n div 100 mod 10) + 10 * (n div 10 mod 10) + n mod 10 = (n :: int)"
proof -
  assume n: "0 \<le> n" "n < 10000"
  have "100 * (n div 10 div 100 mod 10) + 10 * (n div 10 div 10 mod 10) + n div 10 mod 10 = n div 10"
    using n by (intro decimal3) auto
  then show ?thesis unfolding regroup4 div_10_100 div_div_10(1) by (simp only: mult_div_mod_eq)
qed

lemma length_shows [simp]: "length (show2 n) = 2" "length (show3 n) = 3" "length (show4 n) = 4"
  by (simp_all add: show2_def show3_def show4_def)

lemma read_shows:
  "int (read_nat (show2 n)) = 10 * (n div 10 mod 10) + n mod 10"
  "int (read_nat (show3 n)) = 100 * (n div 100 mod 10) + 10 * (n div 10 mod 10) + n mod 10"
  "int (read_nat (show4 n)) = 1000 * (n div 1000 mod 10) + 100 * (n div 100 mod 10) + 10 * (n div 10 mod 10) + n mod 10"
  by (simp_all only: show2_def show3_def show4_def read_nat_def foldl_Cons foldl_Nil
      digit_value_digit_char [OF nat_digit] of_nat_add of_nat_mult int_nat_eq pos_mod_sign
      of_nat_numeral if_True) simp_all

lemma shows_digits [simp]:
  "list_all is_digit (show2 n)" "list_all is_digit (show3 n)" "list_all is_digit (show4 n)"
  by (simp_all add: show2_def show3_def show4_def)

lemma digits_show2: "0 \<le> n \<Longrightarrow> n < 100 \<Longrightarrow> digits 2 (show2 n) = Some n"
  unfolding digits_def read_shows using decimal2 [of n] by (simp only: length_shows shows_digits) simp

lemma digits_show4: "0 \<le> n \<Longrightarrow> n < 10000 \<Longrightarrow> digits 4 (show4 n) = Some n"
  unfolding digits_def read_shows using decimal4 [of n] by (simp only: length_shows shows_digits) simp

lemma fraction_show3: "0 \<le> n \<Longrightarrow> n < 1000 \<Longrightarrow> parse_fraction (show3 n) = Some (n * 1000)"
proof -
  assume n: "0 \<le> n" "n < 1000"
  have r: "int (read_nat (show3 n)) = n" unfolding read_shows using n by (rule decimal3)
  have z: "digit_value (CHR ''0'') = 0" by (simp add: digit_value_def)
  have "take 6 (show3 n @ ''00000'') = ((show3 n @ ''0'') @ ''0'') @ ''0''"
    by simp
  then have "int (read_nat (take 6 (show3 n @ ''00000''))) = n * 1000"
    using r by (simp only: read_nat_snoc z of_nat_add of_nat_mult of_nat_numeral of_nat_0) simp
  moreover have "show3 n \<noteq> []" by (simp add: show3_def)
  ultimately show ?thesis by (simp add: parse_fraction_def)
qed

lemma show_chars [simp]:
  "CHR ''-'' \<notin> set (show2 n)" "CHR ''+'' \<notin> set (show2 n)" "CHR ''Z'' \<notin> set (show2 n)"
  "CHR ''-'' \<notin> set (show3 n)" "CHR ''+'' \<notin> set (show3 n)" "CHR ''Z'' \<notin> set (show3 n)"
  "CHR ''Z'' \<notin> set (show4 n)"
  by (auto simp: show2_def show3_def show4_def dest: sym)

lemma replace_Z_append: "replace_Z (s @ t) = replace_Z s @ replace_Z t"
  by (simp add: replace_Z_def)

lemma replace_Z_id: "CHR ''Z'' \<notin> set s \<Longrightarrow> replace_Z s = s"
  unfolding replace_Z_def by (induction s) auto

lemma replace_Z_literals: "replace_Z ''-'' = ''-''" "replace_Z ''T'' = ''T''" "replace_Z '':'' = '':''"
  "replace_Z ''.'' = ''.''" "replace_Z ''Z'' = ''+00:00''"
  by (simp_all add: replace_Z_def)

lemma parse_hms_show:
  assumes "0 \<le> h" "h < 24" "0 \<le> m" "m < 60" "0 \<le> c" "c < 60" "0 \<le> f" "f < 1000"
  shows "parse_hms (show2 h @ '':'' @ show2 m @ '':'' @ show2 c @ ''.'' @ show3 f)
    = Some (h, m, c, f * 1000)"
  using assms by (simp add: parse_hms_def char_at_def digits_show2 fraction_show3)

lemma parse_hms_utc: "parse_hms ''00:00'' = Some (0, 0, 0, 0)"
  by code_simp

lemma parse_iso_time_show:
  assumes "0 \<le> h" "h < 24" "0 \<le> m" "m < 60" "0 \<le> c" "c < 60" "0 \<le> f" "f < 1000"
  shows "parse_iso_time ((show2 h @ '':'' @ show2 m @ '':'' @ show2 c @ ''.'' @ show3 f) @ ''+00:00'')
    = Some ((h, m, c, f * 1000), Some 0)"
proof -
  let ?b = "show2 h @ '':'' @ show2 m @ '':'' @ show2 c @ ''.'' @ show3 f"
  have b: "CHR ''-'' \<notin> set ?b" "CHR ''+'' \<notin> set ?b" by simp_all
  have tw: "takeWhile (\<lambda>x. x \<noteq> CHR ''+'') (?b @ ''+00:00'') = ?b"
    using b(2) by (subst takeWhile_append2) auto
  have "tz_position (?b @ ''+00:00'') = Some (length ?b)"
    unfolding tz_position_def Let_def tw using b by auto
  moreover have "take (length ?b) (?b @ ''+00:00'') = ?b"
    and "drop (Suc (length ?b)) (?b @ ''+00:00'') = ''00:00''"
    by simp_all
  moreover have "(?b @ ''+00:00'') ! length ?b = CHR ''+''" by (rule nth_append_length)
  ultimately show ?thesis
    unfolding parse_iso_time_def using parse_hms_show [OF assms] parse_hms_utc
    by (simp add: Let_def time_of_parts_def us_per_day_def)
qed

lemma parse_iso_date_show:
  assumes "valid_date y m d"
  shows "parse_iso_date (show4 y @ ''-'' @ show2 m @ ''-'' @ show2 d) = Some (y, m, d)"
proof -
  have "0 \<le> y" "y < 10000" "0 \<le> m" "m < 100" "0 \<le> d" "d < 100"
    using assms by (auto simp: valid_date_def days_in_month_def split: if_splits)
  moreover have "show2 m ! 0 \<noteq> CHR ''W''" by (simp add: show2_def)
  ultimately show ?thesis
    by (simp add: parse_iso_date_def char_at_def digits_show2 digits_show4 nth_append)
qed

lemma find_separator_show:
  "find_separator ((show4 y @ ''-'' @ show2 m @ ''-'' @ show2 d) @ ''T'' @ r) = Some 10"
proof -
  have "show2 m ! 0 \<noteq> CHR ''W''" by (simp add: show2_def)
  then show ?thesis
    by (simp add: find_separator_def char_at_def nth_append)
qed

text \<open>Reading back what \<^const>\<open>rfc3339\<close> wrote.\<close>

lemma fromisoformat_rfc3339:
  assumes "in_range t"
  shows "fromisoformat (replace_Z (rfc3339 t)) = Some (Aware (cut_ms t))"
proof -
  define n where "n = t div us_per_day + epoch_ordinal"
  define s where "s = t mod us_per_day div 1000000"
  obtain y m d where ymd: "ord2ymd n = (y, m, d)" by (cases "ord2ymd n") auto
  let ?D = "show4 y @ ''-'' @ show2 m @ ''-'' @ show2 d"
  let ?f = "t mod 1000000 div 1000"
  let ?B = "show2 (s div 3600) @ '':'' @ show2 (s div 60 mod 60) @ '':'' @ show2 (s mod 60) @ ''.'' @ show3 ?f"
  have "1 \<le> n" "n \<le> max_ordinal"
    using assms unfolding in_range_def min_instant_def max_instant_def n_def us_per_day_def
    by (auto simp: epoch_ordinal_def max_ordinal_def)
  then have valid: "valid_date y m d" and ord: "ymd2ord y m d = n"
    using ymd ord2ymd_valid ord2ymd_correct by blast+
  have s: "0 \<le> s" "s < 86400" by (auto simp: s_def us_per_day_def)
  have f: "0 \<le> ?f" "?f < 1000" by auto
  have "rfc3339 t = ?D @ ''T'' @ ?B @ ''Z''"
    by (simp add: rfc3339_def iso_seconds_def n_def [symmetric] s_def [symmetric] ymd Let_def)
  then have written: "replace_Z (rfc3339 t) = ?D @ ''T'' @ (?B @ ''+00:00'')"
    by (simp only: append_assoc replace_Z_append replace_Z_literals replace_Z_id [OF show_chars(3)]
        replace_Z_id [OF show_chars(6)] replace_Z_id [OF show_chars(7)])
  have len: "length ?D = 10" by simp
  have time: "parse_iso_time (?B @ ''+00:00'')
      = Some ((s div 3600, s div 60 mod 60, s mod 60, ?f * 1000), Some 0)"
    by (rule parse_iso_time_show) (use s f in auto)
  have vt: "valid_time (s div 3600, s div 60 mod 60, s mod 60, ?f * 1000)"
    using s by (auto simp: valid_time_def)
  have "s div 3600 = s div 60 div 60" using zdiv_zmult2_eq [of 60 s 60] by simp
  then have tod: "time_of_parts (s div 3600, s div 60 mod 60, s mod 60, ?f * 1000) = s * 1000000 + ?f * 1000"
    by (simp only: time_of_parts_def prod.case div_mult_mod_eq)
  have "t mod us_per_day mod 1000000 = t mod 1000000" "t mod 1000000 mod 1000 = t mod 1000"
    by (rule mod_mod_cancel; simp add: us_per_day_def)+
  then have day: "s * 1000000 + t mod 1000000 = t mod us_per_day" and ms: "?f * 1000 + t mod 1000 = t mod 1000000"
    using div_mult_mod_eq [of "t mod us_per_day" 1000000] div_mult_mod_eq [of "t mod 1000000" 1000]
    unfolding s_def by (simp_all only:)
  have t: "(n - epoch_ordinal) * us_per_day + (s * 1000000 + t mod 1000000) = t"
    unfolding day n_def by (simp only: add_diff_cancel_right' div_mult_mod_eq)
  have "fromisoformat (replace_Z (rfc3339 t))
      = Some (Aware ((n - epoch_ordinal) * us_per_day + (s * 1000000 + ?f * 1000) - 0))"
    unfolding written fromisoformat_def
    using find_separator_show [of y m d "?B @ ''+00:00''"] parse_iso_date_show [OF valid] time vt valid ord
    by (simp add: len Let_def tod)
  moreover have "(n - epoch_ordinal) * us_per_day + (s * 1000000 + ?f * 1000) - 0 = cut_ms t"
    unfolding cut_ms_def using t ms by (simp only: diff_0_right add_diff_eq [symmetric])
  ultimately show ?thesis by (simp only:)
qed

lemma rfc3339_not_Nil [simp]: "rfc3339 t \<noteq> []"
  by (simp add: rfc3339_def)

lemma cut_ms_alt: "cut_ms t = 1000 * (t div 1000)"
  unfolding cut_ms_def by (rule minus_mod_eq_mult_div)

lemma cut_ms_in_range: "in_range t \<Longrightarrow> in_range (cut_ms t)"
proof -
  assume t: "in_range t"
  have "min_instant div 1000 \<le> t div 1000"
    using t by (intro zdiv_mono1) (simp_all add: in_range_def)
  moreover have "min_instant = 1000 * (min_instant div 1000)"
    by (simp add: min_instant_def us_per_day_def epoch_ordinal_def)
  ultimately have "min_instant \<le> cut_ms t" unfolding cut_ms_alt by linarith
  moreover have "cut_ms t \<le> t" by (simp add: cut_ms_def)
  ultimately show ?thesis using t unfolding in_range_def by linarith
qed

lemma cut_ms_le: "cut_ms t \<le> t" and cut_ms_gt: "t - 1000 < cut_ms t"
  by (simp_all add: cut_ms_def)

lemma cut_ms_idem [simp]: "cut_ms (cut_ms t) = cut_ms t"
  by (simp add: cut_ms_alt)

lemma cut_ms_div: "0 < k \<Longrightarrow> cut_ms t div (1000 * k) = t div (1000 * k)"
  unfolding cut_ms_alt using zdiv_zmult2_eq [of k t 1000] by simp

lemma cut_ms_mod: "0 < k \<Longrightarrow> cut_ms t mod (1000 * k) = cut_ms (t mod (1000 * k))"
proof -
  assume k: "0 < k"
  have "t mod (1000 * k) mod 1000 = t mod 1000" by (rule mod_mod_cancel) simp
  then show ?thesis
    using cut_ms_div [OF k, of t] minus_mult_div_eq_mod [of t "1000 * k"]
      minus_mult_div_eq_mod [of "cut_ms t" "1000 * k"] by (simp add: cut_ms_def)
qed

lemma parse_rfc3339_rfc3339:
  "in_range t \<Longrightarrow> parse_rfc3339 mk (PStr (rfc3339 t)) = Inr (cut_ms t)"
  by (simp add: parse_rfc3339_def fromisoformat_rfc3339 cut_ms_in_range)

lemma rfc3339_cut_ms [simp]: "rfc3339 (cut_ms t) = rfc3339 t"
proof -
  have k: "us_per_day = 1000 * 86400000" "(1000000 :: int) = 1000 * 1000" "(1000 :: int) = 1000 * 1"
    by (simp_all add: us_per_day_def)
  have "cut_ms t div us_per_day = t div us_per_day"
    unfolding k(1) by (rule cut_ms_div) simp
  moreover have "cut_ms t mod us_per_day div 1000000 = t mod us_per_day div 1000000"
    unfolding k(1,2) by (subst cut_ms_mod, simp, subst cut_ms_div) simp_all
  moreover have "cut_ms t mod 1000000 div 1000 = t mod 1000000 div 1000"
    using cut_ms_mod [of 1000 t] cut_ms_div [of 1 "t mod 1000000"] by (simp only: k(2) mult_1_right)
  ultimately show ?thesis by (simp only: rfc3339_def iso_seconds_def)
qed

end
