(* ===== verification/Audit_Log.thy ===== *)
theory Audit_Log
  imports Timestamps
begin

text \<open>
  \<^verbatim>\<open>response/orchestrator/audit.py\<close> and \<^verbatim>\<open>sqlite_audit.py\<close>: lifecycle events, the transition check
  every ledger shares, the in-memory reference ledger, and the SQLite ledger.

  An audit event is a record with the fields \<^verbatim>\<open>AuditEventFactory.build\<close> writes (its constant fields
  are rendered by \<open>event_json\<close>); values copied from the command stay dynamic. A table is the list of
  its rows in insertion order; a row's JSON body is the value it was written from, since
  \<^verbatim>\<open>json.loads\<close> inverts \<^verbatim>\<open>json.dumps\<close> up to the order of keys. A transaction is one function: it
  returns the new table, or the exception, in which case nothing is written.

  The locale \<open>append_only\<close> states what a store may do to histories and what follows for each
  history; \<open>audit_ledger\<close> adds when an append succeeds.
\<close>

section \<open>Lifecycle states and events\<close>

datatype lifecycle = Requested | Applied | Verified | Expired | Rolled_back | Failed

fun show_state :: "lifecycle \<Rightarrow> string" where
  "show_state Requested = ''REQUESTED''"
| "show_state Applied = ''APPLIED''"
| "show_state Verified = ''VERIFIED''"
| "show_state Expired = ''EXPIRED''"
| "show_state Rolled_back = ''ROLLED_BACK''"
| "show_state Failed = ''FAILED''"

definition TERMINAL_STATES :: "lifecycle set" where
  "TERMINAL_STATES = {Expired, Rolled_back}"

fun allowed :: "lifecycle option \<Rightarrow> lifecycle \<Rightarrow> bool" where
  "allowed None s = (s = Requested)"
| "allowed (Some Requested) s = (s \<in> {Applied, Failed, Rolled_back})"
| "allowed (Some Applied) s = (s \<in> {Verified, Rolled_back, Failed})"
| "allowed (Some Verified) s = (s \<in> {Expired, Rolled_back, Failed})"
| "allowed (Some Failed) s = (s \<in> {Failed, Rolled_back})"
| "allowed (Some _) s = False"

record application =
  ap_applied_at :: string
  ap_reference :: string

record verification =
  vf_verified_at :: string
  vf_evidence :: "string list"

record rollback_info =
  rb_completed_at :: string
  rb_cause :: string
  rb_evidence :: "string list"

record failure_info =
  fl_code :: string
  fl_message :: string
  fl_failed_at :: string

record action_intent =
  in_operation :: string
  in_started_at :: "string option"
  in_reference :: "string option"

record audit_event =
  ev_timestamp :: string
  ev_id :: string
  ev_response_id :: string
  ev_number :: nat
  ev_decision_event_id :: pyval
  ev_correlation_id :: pyval
  ev_policy_id :: pyval
  ev_idempotency_key :: pyval
  ev_target :: pyval
  ev_action :: pyval
  ev_adapter :: string
  ev_state :: lifecycle
  ev_previous :: "lifecycle option"
  ev_ttl_seconds :: pyval
  ev_expires_at :: string
  ev_application :: "application option"
  ev_verification :: "verification option"
  ev_rollback :: "rollback_info option"
  ev_failure :: "failure_info option"
  ev_intent :: "action_intent option"

definition event_id :: "prims \<Rightarrow> string \<Rightarrow> nat \<Rightarrow> lifecycle \<Rightarrow> string" where
  "event_id pr response_id number state =
     ''audit-'' @ take 24 (sha256_hexdigest pr (response_id @ '':'' @ show_nat number @ '':'' @ show_state state))"

text \<open>\<^verbatim>\<open>AuditEventFactory.build\<close>; the adapter name falls back on the action's default.\<close>

definition build_event ::
  "prims \<Rightarrow> pyval \<Rightarrow> string \<Rightarrow> int \<Rightarrow> string \<Rightarrow> lifecycle \<Rightarrow> lifecycle option \<Rightarrow> nat \<Rightarrow> int \<Rightarrow>
   application option \<Rightarrow> verification option \<Rightarrow> rollback_info option \<Rightarrow> failure_info option \<Rightarrow>
   action_intent option \<Rightarrow> audit_event" where
  "build_event pr command response_id expires_at adapter state previous number timestamp app ver rb fl intent =
     \<lparr>ev_timestamp = rfc3339 timestamp,
      ev_id = event_id pr response_id number state,
      ev_response_id = response_id,
      ev_number = number,
      ev_decision_event_id = pget command ''decision_event_id'',
      ev_correlation_id = pget command ''correlation_id'',
      ev_policy_id = pget (pget command ''policy'') ''id'',
      ev_idempotency_key = pget command ''idempotency_key'',
      ev_target = pget command ''target'',
      ev_action = pget command ''action'',
      ev_adapter = (if adapter = [] then (if pget command ''action'' = PStr ''block_ip'' then ''opnsense'' else ''wazuh'') else adapter),
      ev_state = state,
      ev_previous = previous,
      ev_ttl_seconds = pget command ''ttl_seconds'',
      ev_expires_at = rfc3339 expires_at,
      ev_application = app, ev_verification = ver, ev_rollback = rb, ev_failure = fl, ev_intent = intent\<rparr>"

definition opt_json :: "string \<Rightarrow> ('a \<Rightarrow> pyval) \<Rightarrow> 'a option \<Rightarrow> (string \<times> pyval) list" where
  "opt_json k f v = (case v of None \<Rightarrow> [] | Some x \<Rightarrow> [(k, f x)])"

definition str_or_none :: "string option \<Rightarrow> pyval" where
  "str_or_none v = (case v of None \<Rightarrow> PNone | Some s \<Rightarrow> PStr s)"

definition event_json :: "audit_event \<Rightarrow> pyval" where
  "event_json e = PDict ([(''@timestamp'', PStr (ev_timestamp e)),
     (''schema_version'', PStr ''response-audit-event-v1''),
     (''event'', PDict [(''id'', PStr (ev_id e)), (''kind'', PStr ''event''),
        (''category'', PList [PStr ''response'']), (''dataset'', PStr ''soc.response.audit'')]),
     (''audit_event_id'', PStr (ev_id e)),
     (''response_id'', PStr (ev_response_id e)),
     (''transition_number'', PInt (int (ev_number e))),
     (''decision_event_id'', ev_decision_event_id e),
     (''correlation_id'', ev_correlation_id e),
     (''policy_id'', ev_policy_id e),
     (''idempotency_key'', ev_idempotency_key e),
     (''target'', ev_target e),
     (''action'', ev_action e),
     (''adapter'', PStr (ev_adapter e)),
     (''state'', PStr (show_state (ev_state e))),
     (''previous_state'', str_or_none (map_option show_state (ev_previous e))),
     (''ttl_seconds'', ev_ttl_seconds e),
     (''expires_at'', PStr (ev_expires_at e)),
     (''allowlist_checked'', PBool True),
     (''rollback_required'', PBool True)]
     @ opt_json ''application'' (\<lambda>a. PDict [(''applied_at'', PStr (ap_applied_at a)),
         (''adapter_reference'', PStr (ap_reference a))]) (ev_application e)
     @ opt_json ''verification'' (\<lambda>v. PDict [(''verified'', PBool True), (''verified_at'', PStr (vf_verified_at v)),
         (''evidence_refs'', PList (map PStr (vf_evidence v)))]) (ev_verification e)
     @ opt_json ''rollback'' (\<lambda>r. PDict [(''completed_at'', PStr (rb_completed_at r)), (''cause'', PStr (rb_cause r)),
         (''evidence_refs'', PList (map PStr (rb_evidence r)))]) (ev_rollback e)
     @ opt_json ''failure'' (\<lambda>f. PDict [(''code'', PStr (fl_code f)), (''message'', PStr (fl_message f)),
         (''failed_at'', PStr (fl_failed_at f))]) (ev_failure e)
     @ opt_json ''action_intent'' (\<lambda>i. PDict [(''operation'', PStr (in_operation i)),
         (''started_at'', str_or_none (in_started_at i)), (''adapter_reference'', str_or_none (in_reference i))]) (ev_intent e))"

text \<open>The instant of an event, as \<^verbatim>\<open>datetime.fromisoformat\<close> reads it back.\<close>

definition event_time :: "audit_event \<Rightarrow> int res" where
  "event_time e = (case fromisoformat (replace_Z (ev_timestamp e)) of
     Some (Aware t) \<Rightarrow> Inr t
   | Some (Naive t) \<Rightarrow> Inl (TypeErr ''can't compare offset-naive and offset-aware datetimes'')
   | None \<Rightarrow> Inl (ValueError ''Invalid isoformat string''))"

section \<open>The transition check\<close>

definition last_state :: "audit_event list \<Rightarrow> lifecycle option" where
  "last_state history = (if history = [] then None else Some (ev_state (last history)))"

definition validate_transition :: "audit_event \<Rightarrow> audit_event list \<Rightarrow> unit res" where
  "validate_transition payload history = (
     let actual_previous = last_state history; state = ev_state payload in
     bindR (guardR (ev_response_id payload \<noteq> []) (CommandRejected ''audit event lacks response_id'')) (\<lambda>_.
     bindR (guardR (ev_previous payload = actual_previous)
       (CommandRejected ''audit event previous_state does not match append-only history'')) (\<lambda>_.
     bindR (guardR (allowed actual_previous state) (CommandRejected ''invalid response transition'')) (\<lambda>_.
     bindR (guardR (if actual_previous = Some Failed \<or> actual_previous = Some Requested \<and> state = Rolled_back
         then list_ex (\<lambda>e. ev_state e = Applied) history \<or> ev_intent payload \<noteq> None else True)
       (CommandRejected ''recovery requires an application or recorded action intent'')) (\<lambda>_.
     guardR (ev_number payload = length history + 1)
       (CommandRejected ''audit event transition_number is not monotonic''))))))"

section \<open>The in-memory ledger\<close>

record memory_ledger =
  m_by_response :: "audit_event list dict"
  m_apply_intents :: "string set"
  m_commands :: "pyval dict"

definition empty_ledger :: memory_ledger where
  "empty_ledger = \<lparr>m_by_response = [], m_apply_intents = {}, m_commands = []\<rparr>"

definition m_events :: "memory_ledger \<Rightarrow> string \<Rightarrow> audit_event list" where
  "m_events L response_id = (case dict_get (m_by_response L) response_id of None \<Rightarrow> [] | Some h \<Rightarrow> h)"

definition last_event :: "audit_event list \<Rightarrow> audit_event option" where
  "last_event history = (if history = [] then None else Some (last history))"

definition m_latest :: "memory_ledger \<Rightarrow> string \<Rightarrow> audit_event option" where
  "m_latest L response_id = last_event (m_events L response_id)"

definition m_append :: "audit_event \<Rightarrow> memory_ledger \<Rightarrow> memory_ledger res" where
  "m_append e L = (
     let response_id = ev_response_id e; history = m_events L response_id in
     bindR (guardR (response_id \<noteq> []) (CommandRejected ''audit event lacks response_id'')) (\<lambda>_.
     bindR (validate_transition e history) (\<lambda>_.
     Inr (L\<lparr>m_by_response := dict_set response_id (history @ [e]) (m_by_response L)\<rparr>))))"

definition m_save_command :: "string \<Rightarrow> pyval \<Rightarrow> memory_ledger \<Rightarrow> memory_ledger res" where
  "m_save_command response_id command L = (case dict_get (m_commands L) response_id of
     Some c \<Rightarrow> (if c \<noteq> command then Inl (CommandRejected ''recovery command is immutable'') else Inr L)
   | None \<Rightarrow> Inr (L\<lparr>m_commands := dict_set response_id command (m_commands L)\<rparr>))"

definition m_claim_apply :: "string \<Rightarrow> memory_ledger \<Rightarrow> memory_ledger res" where
  "m_claim_apply response_id L = (
     if response_id \<in> m_apply_intents L
     then Inl (CommandRejected ''application already attempted; reconciliation required'')
     else if map_option ev_state (m_latest L response_id) \<noteq> Some Requested
     then Inl (CommandRejected ''application intent requires REQUESTED audit state'')
     else Inr (L\<lparr>m_apply_intents := insert response_id (m_apply_intents L)\<rparr>))"

text \<open>A count of events that satisfy a test which may raise.\<close>

fun countR :: "('a \<Rightarrow> bool res) \<Rightarrow> 'a list \<Rightarrow> nat res" where
  "countR p [] = Inr 0"
| "countR p (x # xs) = bindR (p x) (\<lambda>b. bindR (countR p xs) (\<lambda>n. Inr (if b then Suc n else n)))"

definition requested_after :: "string \<Rightarrow> int \<Rightarrow> audit_event \<Rightarrow> bool res" where
  "requested_after policy_id since e = (if ev_policy_id e = PStr policy_id
     then bindR (event_time e) (\<lambda>t. Inr (since < t)) else Inr False)"

definition m_requested_since :: "memory_ledger \<Rightarrow> string \<Rightarrow> int \<Rightarrow> nat res" where
  "m_requested_since L policy_id since =
     countR (\<lambda>e. if ev_state e = Requested then requested_after policy_id since e else Inr False)
       (concat (dict_values (m_by_response L)))"

section \<open>The SQLite ledger\<close>

record audit_row =
  ar_response_id :: string
  ar_number :: nat
  ar_body :: audit_event

record sqlite_ledger =
  q_commands :: "(string \<times> pyval) list"
  q_apply_intents :: "string list"
  q_audit :: "audit_row list"

definition empty_sqlite :: sqlite_ledger where
  "empty_sqlite = \<lparr>q_commands = [], q_apply_intents = [], q_audit = []\<rparr>"

text \<open>\<^verbatim>\<open>SELECT body FROM audit WHERE response_id=? ORDER BY transition_number\<close>\<close>

definition select_events :: "'a audit_row_scheme list \<Rightarrow> string \<Rightarrow> audit_event list" where
  "select_events rows response_id =
     map ar_body (sort_key ar_number (filter (\<lambda>r. ar_response_id r = response_id) rows))"

definition q_events :: "sqlite_ledger \<Rightarrow> string \<Rightarrow> audit_event list" where
  "q_events S response_id = select_events (q_audit S) response_id"

definition q_latest :: "sqlite_ledger \<Rightarrow> string \<Rightarrow> audit_event option" where
  "q_latest S response_id = last_event (q_events S response_id)"

fun replay :: "audit_event list \<Rightarrow> memory_ledger \<Rightarrow> memory_ledger res" where
  "replay [] L = Inr L"
| "replay (e # es) L = bindR (m_append e L) (replay es)"

text \<open>Each append replays the stored history into a fresh in-memory ledger first.\<close>

definition q_append :: "audit_event \<Rightarrow> sqlite_ledger \<Rightarrow> sqlite_ledger res" where
  "q_append e S =
     bindR (replay (q_events S (ev_response_id e)) empty_ledger) (\<lambda>reference.
     bindR (m_append e reference) (\<lambda>_.
     if list_ex (\<lambda>r. ar_response_id r = ev_response_id e \<and> ar_number r = ev_number e) (q_audit S)
     then Inl (IntegrityErr ''UNIQUE constraint failed: audit'')
     else Inr (S\<lparr>q_audit := q_audit S @
       [\<lparr>ar_response_id = ev_response_id e, ar_number = ev_number e, ar_body = e\<rparr>]\<rparr>)))"

definition q_save_command :: "prims \<Rightarrow> string \<Rightarrow> pyval \<Rightarrow> sqlite_ledger \<Rightarrow> sqlite_ledger res" where
  "q_save_command pr response_id command S = (case map_of (q_commands S) response_id of
     Some previous \<Rightarrow> (if canonical_json pr previous \<noteq> canonical_json pr command
       then Inl (CommandRejected ''recovery command is immutable'') else Inr S)
   | None \<Rightarrow> Inr (S\<lparr>q_commands := q_commands S @ [(response_id, command)]\<rparr>))"

definition q_list_commands :: "sqlite_ledger \<Rightarrow> (string \<times> pyval) list" where
  "q_list_commands S = sort_key fst (q_commands S)"

definition q_claim_apply :: "string \<Rightarrow> sqlite_ledger \<Rightarrow> sqlite_ledger res" where
  "q_claim_apply response_id S = (
     if map_option ev_state (q_latest S response_id) \<noteq> Some Requested
     then Inl (CommandRejected ''application intent requires REQUESTED audit state'')
     else if response_id \<in> set (q_apply_intents S)
     then Inl (CommandRejected ''application already attempted; reconciliation required'')
     else Inr (S\<lparr>q_apply_intents := q_apply_intents S @ [response_id]\<rparr>))"

definition q_requested_since :: "sqlite_ledger \<Rightarrow> string \<Rightarrow> int \<Rightarrow> nat res" where
  "q_requested_since S policy_id since =
     countR (requested_after policy_id since) (map ar_body (filter (\<lambda>r. ar_number r = 1) (q_audit S)))"

text \<open>Unresolved attempted writes, by response identifier.\<close>

definition recovery_queue :: "sqlite_ledger \<Rightarrow> audit_event list" where
  "recovery_queue S = filter (\<lambda>e. ev_state e \<notin> {Expired, Rolled_back})
     (concat (map (\<lambda>rid. case q_latest S rid of None \<Rightarrow> [] | Some e \<Rightarrow> [e]) (sort (q_apply_intents S))))"

section \<open>Legal histories\<close>

text \<open>Every event passed the transition check against the events before it.\<close>

definition legal_history :: "audit_event list \<Rightarrow> bool" where
  "legal_history h = (\<forall>i < length h. validate_transition (h ! i) (take i h) = Inr ())"

lemma legal_history_Nil [simp]: "legal_history []"
  by (simp add: legal_history_def)

lemma legal_history_snoc:
  "legal_history (h @ [e]) \<longleftrightarrow> legal_history h \<and> validate_transition e h = Inr ()"
proof
  assume L: "legal_history (h @ [e])"
  have "validate_transition (h ! i) (take i h) = Inr ()" if "i < length h" for i
    using L [unfolded legal_history_def, rule_format, of i] that by (simp add: nth_append)
  moreover have "validate_transition e h = Inr ()"
    using L [unfolded legal_history_def, rule_format, of "length h"] by simp
  ultimately show "legal_history h \<and> validate_transition e h = Inr ()" by (simp add: legal_history_def)
next
  assume "legal_history h \<and> validate_transition e h = Inr ()"
  then show "legal_history (h @ [e])"
    by (auto simp: legal_history_def nth_append less_Suc_eq)
qed

lemma legal_history_take: "legal_history h \<Longrightarrow> legal_history (take n h)"
  by (auto simp: legal_history_def min_def)

lemma validate_transition_iff:
  "validate_transition e h = Inr u \<longleftrightarrow>
     ev_response_id e \<noteq> [] \<and> ev_previous e = last_state h \<and> allowed (last_state h) (ev_state e) \<and>
     (last_state h = Some Failed \<or> last_state h = Some Requested \<and> ev_state e = Rolled_back \<longrightarrow>
        (\<exists>x \<in> set h. ev_state x = Applied) \<or> ev_intent e \<noteq> None) \<and>
     ev_number e = length h + 1"
  by (auto simp: validate_transition_def Let_def res_success list_ex_iff)

lemma last_state_take: "0 < i \<Longrightarrow> i \<le> length h \<Longrightarrow> last_state (take i h) = Some (ev_state (h ! (i - 1)))"
  by (auto simp: last_state_def last_conv_nth min_def)

lemma last_state_snoc [simp]: "last_state (h @ [e]) = Some (ev_state e)"
  by (simp add: last_state_def)

lemma last_state_Nil [simp]: "last_state [] = None"
  by (simp add: last_state_def)

text \<open>Consecutive events are linked by an allowed transition.\<close>

lemma legal_history_step:
  assumes "legal_history h" and "Suc i < length h"
  shows "allowed (Some (ev_state (h ! i))) (ev_state (h ! Suc i))"
    and "ev_previous (h ! Suc i) = Some (ev_state (h ! i))"
  using assms(1) [unfolded legal_history_def, rule_format, OF assms(2)] assms(2)
    last_state_take [of "Suc i" h]
  by (simp_all add: validate_transition_iff)

lemma legal_history_first:
  assumes "legal_history h" and "h \<noteq> []"
  shows "ev_state (hd h) = Requested" and "ev_previous (hd h) = None"
  using assms(1) [unfolded legal_history_def, rule_format, of 0] assms(2)
  by (simp_all add: validate_transition_iff hd_conv_nth)

lemma legal_history_number:
  "legal_history h \<Longrightarrow> i < length h \<Longrightarrow> ev_number (h ! i) = Suc i"
  by (simp add: legal_history_def validate_transition_iff)

lemma legal_history_requested_iff:
  assumes "legal_history h" and "i < length h"
  shows "ev_state (h ! i) = Requested \<longleftrightarrow> i = 0"
proof (cases i)
  case 0
  then show ?thesis using legal_history_first(1) [OF assms(1)] assms(2) by (simp add: hd_conv_nth)
next
  case (Suc j)
  then show ?thesis
    using legal_history_step(1) [OF assms(1), of j] assms(2) by (cases "ev_state (h ! j)") auto
qed

text \<open>Application is the second event or never happens.\<close>

lemma legal_history_applied:
  assumes "legal_history h" and "i < length h" and "ev_state (h ! i) = Applied"
  shows "i = 1"
proof (cases i)
  case 0
  then show ?thesis using legal_history_requested_iff [OF assms(1,2)] assms(3) by simp
next
  case (Suc j)
  then have "ev_state (h ! j) = Requested"
    using legal_history_step(1) [OF assms(1), of j] assms(2,3) by (cases "ev_state (h ! j)") auto
  then show ?thesis using legal_history_requested_iff [OF assms(1), of j] Suc assms(2) by simp
qed

lemma legal_history_verified:
  assumes "legal_history h" and "i < length h" and "ev_state (h ! i) = Verified"
  shows "i = 2" and "ev_state (h ! 1) = Applied"
proof -
  obtain j where j: "i = Suc j"
    using legal_history_requested_iff [OF assms(1,2)] assms(3) by (cases i) auto
  have a: "ev_state (h ! j) = Applied"
    using legal_history_step(1) [OF assms(1), of j] assms(2,3) j by (cases "ev_state (h ! j)") auto
  then have "j = 1" using legal_history_applied [OF assms(1), of j] j assms(2) by simp
  then show "i = 2" "ev_state (h ! 1) = Applied" using j a by simp_all
qed

lemma legal_history_terminal:
  assumes "legal_history h" and "i < length h" and "ev_state (h ! i) \<in> TERMINAL_STATES"
  shows "Suc i = length h"
  using legal_history_step(1) [OF assms(1), of i] assms(2,3)
  by (cases "Suc i < length h") (auto simp: TERMINAL_STATES_def)

section \<open>The contract of an append-only history\<close>

locale append_only =
  fixes events :: "'s \<Rightarrow> string \<Rightarrow> audit_event list" and writes :: "'s \<Rightarrow> 's \<Rightarrow> bool" and inv :: "'s \<Rightarrow> bool"
  assumes writes_inv: "inv s \<Longrightarrow> writes s s' \<Longrightarrow> inv s'"
    and writes_cases: "inv s \<Longrightarrow> writes s s' \<Longrightarrow> (\<forall>r. events s' r = events s r) \<or>
      (\<exists>e. validate_transition e (events s (ev_response_id e)) = Inr () \<and>
        (\<forall>r. events s' r = events s r @ (if r = ev_response_id e then [e] else [])))"
begin

lemma writes_legal:
  assumes "inv s" "writes s s'" "legal_history (events s r)"
  shows "legal_history (events s' r)"
  using writes_cases [OF assms(1,2)] assms(3)
proof (elim disjE exE conjE)
  fix e
  assume "legal_history (events s r)" "validate_transition e (events s (ev_response_id e)) = Inr ()"
    "\<forall>r. events s' r = events s r @ (if r = ev_response_id e then [e] else [])"
  then show "legal_history (events s' r)"
    by (cases "r = ev_response_id e") (simp_all add: legal_history_snoc)
qed simp_all

lemma writes_extend: "inv s \<Longrightarrow> writes s s' \<Longrightarrow> \<exists>es. events s' r = events s r @ es"
  using writes_cases [of s s'] by auto

lemma histories_grow:
  assumes "writes\<^sup>*\<^sup>* s s'" and "inv s"
  shows "inv s' \<and> (\<exists>es. events s' r = events s r @ es)"
  using assms
proof (induction rule: rtranclp_induct)
  case (step t u)
  then show ?case using writes_inv writes_extend [of t u r] by (metis append.assoc)
qed simp

lemma histories_stay_legal:
  assumes "writes\<^sup>*\<^sup>* s s'" and "inv s" and "legal_history (events s r)"
  shows "legal_history (events s' r)"
  using assms
proof (induction rule: rtranclp_induct)
  case (step t u)
  then show ?case using writes_legal [of t u r] histories_grow [of s t] by blast
qed simp

end

locale audit_ledger =
  fixes events :: "'s \<Rightarrow> string \<Rightarrow> audit_event list" and append :: "audit_event \<Rightarrow> 's \<Rightarrow> 's res" and inv :: "'s \<Rightarrow> bool"
  assumes append_inv: "inv s \<Longrightarrow> append e s = Inr s' \<Longrightarrow> inv s'"
    and append_checked: "inv s \<Longrightarrow> append e s = Inr s' \<Longrightarrow>
      validate_transition e (events s (ev_response_id e)) = Inr ()"
    and append_events: "inv s \<Longrightarrow> append e s = Inr s' \<Longrightarrow>
      events s' r = events s r @ (if r = ev_response_id e then [e] else [])"
    and append_accepts: "inv s \<Longrightarrow> validate_transition e (events s (ev_response_id e)) = Inr () \<Longrightarrow>
      \<exists>s'. append e s = Inr s'"
begin

lemma append_iff:
  "inv s \<Longrightarrow> (\<exists>s'. append e s = Inr s') \<longleftrightarrow> validate_transition e (events s (ev_response_id e)) = Inr ()"
  using append_checked append_accepts by blast

end

sublocale audit_ledger \<subseteq> append_only events "\<lambda>s s'. \<exists>e. append e s = Inr s'" inv
  using append_inv append_checked append_events by unfold_locales blast+

lemma m_events_append:
  "m_append e L = Inr L' \<Longrightarrow> m_events L' r = m_events L r @ (if r = ev_response_id e then [e] else [])"
  by (auto simp: m_append_def Let_def res_success m_events_def)

lemma m_append_frame [frame_rules]:
  "m_append e L = Inr L' \<Longrightarrow> m_apply_intents L' = m_apply_intents L \<and> m_commands L' = m_commands L"
  by (auto simp: m_append_def Let_def res_success)

interpretation mem: audit_ledger m_events m_append "\<lambda>L. True"
proof unfold_locales
  show "\<exists>s'. m_append e L = Inr s'" if "validate_transition e (m_events L (ev_response_id e)) = Inr ()" for e L
    using that by (auto simp: m_append_def Let_def validate_transition_iff res_success)
qed (auto simp: m_events_append, auto simp: m_append_def Let_def res_success)

section \<open>The SQLite ledger refines the in-memory one\<close>

text \<open>Tables whose rows spell out the keys of their bodies and whose histories are legal.\<close>

definition rows_of :: "string \<Rightarrow> 'a audit_row_scheme list \<Rightarrow> 'a audit_row_scheme list" where
  "rows_of rid rows = filter (\<lambda>r. ar_response_id r = rid) rows"

definition rows_inv :: "'a audit_row_scheme list \<Rightarrow> bool" where
  "rows_inv rows \<longleftrightarrow>
     (\<forall>r \<in> set rows. ar_response_id r = ev_response_id (ar_body r) \<and> ar_number r = ev_number (ar_body r)) \<and>
     (\<forall>rid. legal_history (map ar_body (rows_of rid rows)))"

lemma rows_inv_Nil [simp]: "rows_inv []"
  by (simp add: rows_inv_def rows_of_def)

lemma rows_sorted:
  assumes "rows_inv rows"
  shows "sorted (map ar_number (rows_of rid rows))"
proof -
  have "map ar_number (rows_of rid rows) = map ev_number (map ar_body (rows_of rid rows))"
    using assms by (auto simp: rows_inv_def rows_of_def)
  also have "\<dots> = map Suc [0..<length (rows_of rid rows)]"
    using assms legal_history_number [of "map ar_body (rows_of rid rows)"]
    by (intro nth_equalityI) (auto simp: rows_inv_def)
  finally show ?thesis by (simp add: sorted_iff_nth_mono)
qed

lemma select_events_rows: "rows_inv rows \<Longrightarrow> select_events rows rid = map ar_body (rows_of rid rows)"
  using rows_sorted [of rows rid] by (simp add: select_events_def rows_of_def [symmetric] sort_key_id_if_sorted)

lemma select_events_legal: "rows_inv rows \<Longrightarrow> legal_history (select_events rows rid)"
  by (simp add: select_events_rows rows_inv_def)

lemma select_events_owner: "rows_inv rows \<Longrightarrow> e \<in> set (select_events rows rid) \<Longrightarrow> ev_response_id e = rid"
  by (auto simp: select_events_rows rows_inv_def rows_of_def)

lemma rows_fresh:
  assumes "rows_inv rows" and "validate_transition e (select_events rows (ev_response_id e)) = Inr ()"
    and "r \<in> set rows"
  shows "\<not> (ar_response_id r = ev_response_id e \<and> ar_number r = ev_number e)"
proof
  let ?h = "select_events rows (ev_response_id e)"
  assume r: "ar_response_id r = ev_response_id e \<and> ar_number r = ev_number e"
  have "ar_body r \<in> set ?h" using r assms(3) by (auto simp: select_events_rows [OF assms(1)] rows_of_def)
  then obtain i where "i < length ?h" "?h ! i = ar_body r"
    unfolding in_set_conv_nth by blast
  then have "ev_number (ar_body r) \<le> length ?h"
    using legal_history_number [OF select_events_legal [OF assms(1)], of i "ev_response_id e"] by simp
  then show False using r assms by (simp add: rows_inv_def validate_transition_iff)
qed

lemma rows_inv_snoc:
  assumes "rows_inv rows" and "validate_transition e (select_events rows (ev_response_id e)) = Inr ()"
    and "ar_response_id row = ev_response_id e" "ar_number row = ev_number e" "ar_body row = e"
  shows "rows_inv (rows @ [row])"
    and "select_events (rows @ [row]) r = select_events rows r @ (if r = ev_response_id e then [e] else [])"
proof -
  have rows: "rows_of rid (rows @ [row]) = rows_of rid rows @ (if rid = ev_response_id e then [row] else [])" for rid
    using assms(3) by (auto simp: rows_of_def)
  show i: "rows_inv (rows @ [row])"
    using assms unfolding rows_inv_def rows
    by (auto simp: legal_history_snoc select_events_rows [OF assms(1)])
  show "select_events (rows @ [row]) r = select_events rows r @ (if r = ev_response_id e then [e] else [])"
    using assms(5) by (simp add: select_events_rows [OF i] select_events_rows [OF assms(1)] rows)
qed

lemma replay_append: "replay (xs @ ys) L = bindR (replay xs L) (replay ys)"
  by (induction xs arbitrary: L) (auto simp: bindR_def split: sum.splits)

lemma replay_legal:
  "legal_history h \<Longrightarrow> \<forall>e \<in> set h. ev_response_id e = rid \<Longrightarrow>
   \<exists>L. replay h empty_ledger = Inr L \<and> m_events L rid = h"
proof (induction h rule: rev_induct)
  case Nil
  then show ?case by (simp add: empty_ledger_def m_events_def)
next
  case (snoc e h)
  then obtain L where L: "replay h empty_ledger = Inr L" "m_events L rid = h"
    by (auto simp: legal_history_snoc)
  then obtain L' where "m_append e L = Inr L'"
    using mem.append_accepts [of e L] snoc.prems by (auto simp: legal_history_snoc)
  then show ?case using L m_events_append [of e L L' rid] snoc.prems by (auto simp: replay_append)
qed

definition q_inv :: "sqlite_ledger \<Rightarrow> bool" where
  "q_inv S = rows_inv (q_audit S)"

lemma q_append_iff:
  assumes "q_inv S"
  shows "q_append e S = Inr S' \<longleftrightarrow> validate_transition e (q_events S (ev_response_id e)) = Inr () \<and>
    S' = S\<lparr>q_audit := q_audit S @ [\<lparr>ar_response_id = ev_response_id e, ar_number = ev_number e, ar_body = e\<rparr>]\<rparr>"
proof -
  let ?h = "q_events S (ev_response_id e)"
  note i = assms [unfolded q_inv_def]
  obtain L where L: "replay ?h empty_ledger = Inr L" "m_events L (ev_response_id e) = ?h"
    using replay_legal [of ?h "ev_response_id e"] select_events_legal [OF i] select_events_owner [OF i]
    unfolding q_events_def by blast
  have "\<not> list_ex (\<lambda>r. ar_response_id r = ev_response_id e \<and> ar_number r = ev_number e) (q_audit S)"
    if "validate_transition e ?h = Inr ()"
    using rows_fresh [OF i] that by (auto simp: list_ex_iff q_events_def)
  then show ?thesis
    using L mem.append_iff [of e L] by (cases "m_append e L") (auto simp: q_append_def)
qed

interpretation sql: audit_ledger q_events q_append q_inv
proof unfold_locales
  fix S e S' r
  assume i: "q_inv S" and a: "q_append e S = Inr S'"
  have v: "validate_transition e (q_events S (ev_response_id e)) = Inr ()"
    using a by (simp add: q_append_iff [OF i])
  note snoc = rows_inv_snoc [OF i [unfolded q_inv_def] v [unfolded q_events_def],
      of "\<lparr>ar_response_id = ev_response_id e, ar_number = ev_number e, ar_body = e\<rparr>"]
  show "validate_transition e (q_events S (ev_response_id e)) = Inr ()" by (rule v)
  show "q_inv S'" "q_events S' r = q_events S r @ (if r = ev_response_id e then [e] else [])"
    using a snoc by (simp_all add: q_append_iff [OF i] q_inv_def q_events_def)
next
  show "q_inv S \<Longrightarrow> validate_transition e (q_events S (ev_response_id e)) = Inr () \<Longrightarrow> \<exists>S'. q_append e S = Inr S'" for S e
    by (simp add: q_append_iff)
qed

definition ledger_rel :: "sqlite_ledger \<Rightarrow> memory_ledger \<Rightarrow> bool" where
  "ledger_rel S L \<longleftrightarrow> q_inv S \<and> (\<forall>r. q_events S r = m_events L r) \<and> set (q_apply_intents S) = m_apply_intents L"

lemma ledger_rel_empty: "ledger_rel empty_sqlite empty_ledger"
  by (simp add: ledger_rel_def q_inv_def q_events_def select_events_def m_events_def empty_sqlite_def empty_ledger_def)

lemma ledger_rel_append:
  assumes "ledger_rel S L"
  shows "(\<exists>S'. q_append e S = Inr S') \<longleftrightarrow> (\<exists>L'. m_append e L = Inr L')"
    and "q_append e S = Inr S' \<Longrightarrow> m_append e L = Inr L' \<Longrightarrow> ledger_rel S' L'"
proof -
  have i: "q_inv S" and ev: "\<And>r. q_events S r = m_events L r" and ai: "set (q_apply_intents S) = m_apply_intents L"
    using assms by (simp_all add: ledger_rel_def)
  show "(\<exists>S'. q_append e S = Inr S') \<longleftrightarrow> (\<exists>L'. m_append e L = Inr L')"
    using sql.append_iff [OF i, of e] mem.append_iff [of e L] ev by simp
  assume q: "q_append e S = Inr S'" and m: "m_append e L = Inr L'"
  have "set (q_apply_intents S') = m_apply_intents L'"
    using q ai m_append_frame [OF m] by (simp add: q_append_iff [OF i])
  then show "ledger_rel S' L'"
    using sql.append_inv [OF i q] sql.append_events [OF i q] m_events_append [OF m] ev
    by (simp add: ledger_rel_def)
qed

lemma ledger_rel_claim:
  assumes "ledger_rel S L"
  shows "(\<exists>S'. q_claim_apply r S = Inr S') \<longleftrightarrow> (\<exists>L'. m_claim_apply r L = Inr L')"
    and "q_claim_apply r S = Inr S' \<Longrightarrow> m_claim_apply r L = Inr L' \<Longrightarrow> ledger_rel S' L'"
proof -
  have i: "q_inv S" and ev: "\<And>r. q_events S r = m_events L r" and ai: "set (q_apply_intents S) = m_apply_intents L"
    using assms by (simp_all add: ledger_rel_def)
  have lt: "q_latest S r = m_latest L r" by (simp add: q_latest_def m_latest_def ev)
  show "(\<exists>S'. q_claim_apply r S = Inr S') \<longleftrightarrow> (\<exists>L'. m_claim_apply r L = Inr L')"
    by (auto simp: q_claim_apply_def m_claim_apply_def lt ai)
  assume "q_claim_apply r S = Inr S'" and "m_claim_apply r L = Inr L'"
  then have "S' = S\<lparr>q_apply_intents := q_apply_intents S @ [r]\<rparr>" "L' = L\<lparr>m_apply_intents := insert r (m_apply_intents L)\<rparr>"
    by (simp_all add: q_claim_apply_def m_claim_apply_def split: if_splits)
  then show "ledger_rel S' L'"
    using i ev ai by (simp add: ledger_rel_def q_inv_def q_events_def m_events_def)
qed

text \<open>Intents are claimed once.\<close>

lemma m_claim_once: "m_claim_apply r L = Inr L' \<Longrightarrow> r \<notin> m_apply_intents L \<and> m_apply_intents L' = insert r (m_apply_intents L)"
  by (auto simp: m_claim_apply_def split: if_splits)

end
