(* ===== verification/Store.thy ===== *)
theory Store
  imports Audit_Log
begin

text \<open>
  \<^verbatim>\<open>response/orchestrator/store.py\<close>: the SQLite journal that checkpoints a response together with its
  audit event. The file is a record of tables, each the list of its rows in insertion order; primary
  keys, \<^verbatim>\<open>UNIQUE\<close> constraints and the immutability triggers are explicit tests that raise
  \<open>IntegrityErr\<close>. Every public method first tests that the store is open (\<^verbatim>\<open>exclusive\<close>). A method
  body is one transaction: on an exception the tables are as before.

  File modes, the owner lock and SQLite's journal are not modelled. What a failing commit may leave
  behind is an input of the orchestrator model (theory \<open>Orchestrator\<close>).
\<close>

section \<open>Responses and their snapshots\<close>

datatype operation = Op_apply | Op_revert

fun show_operation :: "operation \<Rightarrow> string" where
  "show_operation Op_apply = ''apply''"
| "show_operation Op_revert = ''revert''"

text \<open>\<^verbatim>\<open>_ResponseRecord\<close>; instants are microseconds.\<close>

record resp =
  r_id :: string
  r_command :: pyval
  r_expires :: int
  r_state :: lifecycle
  r_number :: nat
  r_reference :: "string option"
  r_authorized :: bool
  r_pending :: "operation option"
  r_started :: "string option"

text \<open>\<^verbatim>\<open>asdict(record)\<close> with the expiry as text.\<close>

record snapshot =
  sn_id :: string
  sn_command :: pyval
  sn_expires :: string
  sn_state :: lifecycle
  sn_number :: nat
  sn_reference :: "string option"
  sn_authorized :: bool
  sn_pending :: "operation option"
  sn_started :: "string option"

definition snapshot_of :: "resp \<Rightarrow> snapshot" where
  "snapshot_of r = \<lparr>sn_id = r_id r, sn_command = r_command r, sn_expires = rfc3339 (r_expires r),
     sn_state = r_state r, sn_number = r_number r, sn_reference = r_reference r,
     sn_authorized = r_authorized r, sn_pending = r_pending r, sn_started = r_started r\<rparr>"

definition resp_of :: "int \<Rightarrow> snapshot \<Rightarrow> resp" where
  "resp_of expires s = \<lparr>r_id = sn_id s, r_command = sn_command s, r_expires = expires,
     r_state = sn_state s, r_number = sn_number s, r_reference = sn_reference s,
     r_authorized = sn_authorized s, r_pending = sn_pending s, r_started = sn_started s\<rparr>"

section \<open>Tables\<close>

record store_row =
  row_command :: string
  row_expires :: string
  row_snapshot :: snapshot

record stored_audit = audit_row +
  au_id :: string

record admission =
  ad_policy_id :: pyval
  ad_admitted_at :: int

record rstore =
  s_records :: "store_row dict"
  s_audit :: "stored_audit list"
  s_intents :: "string list"
  s_admissions :: "admission dict"
  s_exported :: "string list"
  s_claimed :: bool
  s_closed :: bool

definition empty_store :: rstore where
  "empty_store = \<lparr>s_records = [], s_audit = [], s_intents = [], s_admissions = [], s_exported = [],
     s_claimed = False, s_closed = False\<rparr>"

definition exclusive :: "rstore \<Rightarrow> 'a res \<Rightarrow> 'a res" where
  "exclusive st body = (if s_closed st then Inl (RuntimeErr ''response store is closed'') else body)"

definition s_events :: "rstore \<Rightarrow> string \<Rightarrow> audit_event list" where
  "s_events st response_id = select_events (s_audit st) response_id"

definition s_latest :: "rstore \<Rightarrow> string \<Rightarrow> audit_event option" where
  "s_latest st response_id = last_event (s_events st response_id)"

text \<open>\<^verbatim>\<open>INSERT OR IGNORE INTO admissions\<close>\<close>

definition record_admission :: "audit_event \<Rightarrow> rstore \<Rightarrow> rstore res" where
  "record_admission e st = bindR (event_time e) (\<lambda>at_time.
     Inr (st\<lparr>s_admissions := (if ev_response_id e \<in> set (dict_keys (s_admissions st)) then s_admissions st
       else s_admissions st @ [(ev_response_id e, \<lparr>ad_policy_id = ev_policy_id e, ad_admitted_at = at_time\<rparr>)])\<rparr>))"

fun record_admissions :: "audit_event list \<Rightarrow> rstore \<Rightarrow> rstore res" where
  "record_admissions [] st = Inr st"
| "record_admissions (e # es) st = bindR (record_admission e st) (record_admissions es)"

definition backfill_admissions :: "rstore \<Rightarrow> rstore res" where
  "backfill_admissions st = (if s_admissions st \<noteq> [] then Inr st
     else record_admissions (map ar_body (filter (\<lambda>r. ar_number r = 1) (s_audit st))) st)"

text \<open>Opening the file again: the owner flags live in the process, the tables on disk.\<close>

definition open_store :: "rstore \<Rightarrow> rstore res" where
  "open_store disk = backfill_admissions (disk\<lparr>s_claimed := False, s_closed := False\<rparr>)"

definition s_claim :: "rstore \<Rightarrow> rstore res" where
  "s_claim st = exclusive st (if s_claimed st
     then Inl (RuntimeErr ''store already belongs to an orchestrator'') else Inr (st\<lparr>s_claimed := True\<rparr>))"

definition matches_latest :: "rstore \<Rightarrow> snapshot \<Rightarrow> bool" where
  "matches_latest st s = (case s_latest st (sn_id s) of None \<Rightarrow> False
     | Some e \<Rightarrow> ev_state e = sn_state s \<and> ev_number e = sn_number s)"

definition s_load :: "rstore \<Rightarrow> snapshot list res" where
  "s_load st = exclusive st (let records = map row_snapshot (dict_values (s_records st)) in
     if list_all (matches_latest st) records then Inr records
     else Inl (CommandRejected ''response checkpoint differs from its audit history''))"

section \<open>Checkpoints\<close>

definition insert_intent :: "string \<Rightarrow> rstore \<Rightarrow> rstore res" where
  "insert_intent response_id st = (if response_id \<in> set (s_intents st)
     then Inl (CommandRejected ''application already attempted; recovery required'')
     else Inr (st\<lparr>s_intents := s_intents st @ [response_id]\<rparr>))"

definition insert_audit :: "string \<Rightarrow> audit_event \<Rightarrow> rstore \<Rightarrow> rstore res" where
  "insert_audit response_id e st =
     bindR (validate_transition e (s_events st response_id)) (\<lambda>_.
     if list_ex (\<lambda>r. au_id r = ev_id e \<or> ar_response_id r = response_id \<and> ar_number r = ev_number e) (s_audit st)
     then Inl (IntegrityErr ''UNIQUE constraint failed: audit'')
     else (let st' = st\<lparr>s_audit := s_audit st @ [\<lparr>ar_response_id = response_id, ar_number = ev_number e,
             ar_body = e, au_id = ev_id e\<rparr>]\<rparr>
       in if ev_number e = 1 then record_admission e st' else Inr st'))"

text \<open>The upsert, with the trigger \<^verbatim>\<open>record_input_immutable\<close>.\<close>

definition upsert_record :: "prims \<Rightarrow> snapshot \<Rightarrow> rstore \<Rightarrow> rstore res" where
  "upsert_record pr s st = (
     let row = \<lparr>row_command = canonical_json pr (sn_command s), row_expires = sn_expires s, row_snapshot = s\<rparr> in
     case dict_get (s_records st) (sn_id s) of
       Some old \<Rightarrow> (if row_command row \<noteq> row_command old \<or> row_expires row \<noteq> row_expires old
         then Inl (IntegrityErr ''response input is immutable'')
         else Inr (st\<lparr>s_records := dict_set (sn_id s) row (s_records st)\<rparr>))
     | None \<Rightarrow> Inr (st\<lparr>s_records := dict_set (sn_id s) row (s_records st)\<rparr>))"

definition checkpoint :: "prims \<Rightarrow> snapshot \<Rightarrow> audit_event option \<Rightarrow> rstore \<Rightarrow> rstore res" where
  "checkpoint pr s event st = exclusive st (
     bindR (if event = None \<and> sn_pending s = Some Op_apply then insert_intent (sn_id s) st else Inr st) (\<lambda>st1.
     bindR (case event of None \<Rightarrow> Inr st1 | Some e \<Rightarrow> insert_audit (sn_id s) e st1) (\<lambda>st2.
     bindR (guardR (matches_latest st2 s) (CommandRejected ''checkpoint must match the latest audit event'')) (\<lambda>_.
     upsert_record pr s st2))))"

section \<open>Queries and export marks\<close>

definition s_requested_since :: "rstore \<Rightarrow> string \<Rightarrow> int \<Rightarrow> nat res" where
  "s_requested_since st policy_id since = exclusive st
     (Inr (length (filter (\<lambda>a. ad_policy_id a = PStr policy_id \<and> since < ad_admitted_at a) (dict_values (s_admissions st)))))"

definition unexported_events :: "nat \<Rightarrow> rstore \<Rightarrow> (string \<times> audit_event) list" where
  "unexported_events limit st = take limit (map (\<lambda>r. (au_id r, ar_body r))
     (filter (\<lambda>r. au_id r \<notin> set (s_exported st)) (s_audit st)))"

definition mark_exported :: "string \<Rightarrow> rstore \<Rightarrow> rstore res" where
  "mark_exported audit_id st = exclusive st (Inr (if audit_id \<in> set (s_exported st) then st
     else st\<lparr>s_exported := s_exported st @ [audit_id]\<rparr>))"

definition s_commands :: "rstore \<Rightarrow> (string \<times> pyval) list" where
  "s_commands st = sort_key fst (map (\<lambda>(i, row). (i, sn_command (row_snapshot row))) (s_records st))"

definition s_close :: "rstore \<Rightarrow> rstore" where
  "s_close st = st\<lparr>s_closed := True\<rparr>"

section \<open>What a checkpoint writes\<close>

definition admit :: "audit_event \<Rightarrow> int \<Rightarrow> admission dict \<Rightarrow> admission dict" where
  "admit e t adm = (if ev_response_id e \<in> set (dict_keys adm) then adm
     else adm @ [(ev_response_id e, \<lparr>ad_policy_id = ev_policy_id e, ad_admitted_at = t\<rparr>)])"

definition admits :: "audit_event \<Rightarrow> admission dict \<Rightarrow> admission dict \<Rightarrow> bool" where
  "admits e adm adm' \<longleftrightarrow> (if ev_number e = 1 then (\<exists>t. event_time e = Inr t \<and> adm' = admit e t adm) else adm' = adm)"

lemma record_admission_Inr:
  "record_admission e st = Inr st' \<longleftrightarrow> (\<exists>t. event_time e = Inr t \<and> st' = st\<lparr>s_admissions := admit e t (s_admissions st)\<rparr>)"
  by (auto simp: record_admission_def bindR_eq_Inr admit_def)

lemma insert_audit_Inr:
  assumes "insert_audit rid e st = Inr st'"
  shows "validate_transition e (s_events st rid) = Inr ()" "ev_id e \<notin> au_id ` set (s_audit st)"
    and "\<exists>adm. st' = st\<lparr>s_audit := s_audit st @ [\<lparr>ar_response_id = rid, ar_number = ev_number e, ar_body = e, au_id = ev_id e\<rparr>],
      s_admissions := adm\<rparr> \<and> admits e (s_admissions st) adm"
proof -
  let ?rows = "s_audit st @ [\<lparr>ar_response_id = rid, ar_number = ev_number e, ar_body = e, au_id = ev_id e\<rparr>]"
  have v: "validate_transition e (s_events st rid) = Inr ()"
    and f: "\<not> list_ex (\<lambda>r. au_id r = ev_id e \<or> ar_response_id r = rid \<and> ar_number r = ev_number e) (s_audit st)"
    and r: "(if ev_number e = 1 then record_admission e (st\<lparr>s_audit := ?rows\<rparr>) else Inr (st\<lparr>s_audit := ?rows\<rparr>)) = Inr st'"
    using assms by (simp_all add: insert_audit_def bindR_eq_Inr Let_def split: if_splits)
  show "validate_transition e (s_events st rid) = Inr ()" by (rule v)
  show "ev_id e \<notin> au_id ` set (s_audit st)" using f by (auto simp: list_ex_iff)
  show "\<exists>adm. st' = st\<lparr>s_audit := ?rows, s_admissions := adm\<rparr> \<and> admits e (s_admissions st) adm"
  proof (cases "ev_number e = 1")
    case True
    then show ?thesis using r by (auto simp: record_admission_Inr admits_def)
  next
    case False
    then show ?thesis using r by (intro exI [of _ "s_admissions st"]) (auto simp: admits_def)
  qed
qed

lemma upsert_record_Inr:
  assumes "upsert_record pr s st = Inr st'"
  shows "st' = st\<lparr>s_records := dict_set (sn_id s)
      \<lparr>row_command = canonical_json pr (sn_command s), row_expires = sn_expires s, row_snapshot = s\<rparr> (s_records st)\<rparr>"
    and "dict_get (s_records st) (sn_id s) = Some old \<Longrightarrow>
      row_command old = canonical_json pr (sn_command s) \<and> row_expires old = sn_expires s"
  using assms by (auto simp: upsert_record_def Let_def split: option.splits if_splits)

lemma insert_intent_Inr:
  "insert_intent rid st = Inr st' \<longleftrightarrow> rid \<notin> set (s_intents st) \<and> st' = st\<lparr>s_intents := s_intents st @ [rid]\<rparr>"
  by (auto simp: insert_intent_def)

definition claims_apply :: "snapshot \<Rightarrow> audit_event option \<Rightarrow> bool" where
  "claims_apply s ev \<longleftrightarrow> ev = None \<and> sn_pending s = Some Op_apply"

definition store_step :: "prims \<Rightarrow> snapshot \<Rightarrow> audit_event option \<Rightarrow> rstore \<Rightarrow> rstore \<Rightarrow> bool" where
  "store_step pr s ev st st' \<longleftrightarrow>
     \<not> s_closed st \<and> s_closed st' = s_closed st \<and> s_claimed st' = s_claimed st \<and> s_exported st' = s_exported st \<and>
     s_intents st' = s_intents st @ (if claims_apply s ev then [sn_id s] else []) \<and>
     (claims_apply s ev \<longrightarrow> sn_id s \<notin> set (s_intents st)) \<and>
     s_records st' = dict_set (sn_id s)
       \<lparr>row_command = canonical_json pr (sn_command s), row_expires = sn_expires s, row_snapshot = s\<rparr> (s_records st) \<and>
     (\<forall>old. dict_get (s_records st) (sn_id s) = Some old \<longrightarrow>
        row_command old = canonical_json pr (sn_command s) \<and> row_expires old = sn_expires s) \<and>
     matches_latest st' s \<and>
     (case ev of None \<Rightarrow> s_audit st' = s_audit st \<and> s_admissions st' = s_admissions st
      | Some e \<Rightarrow> validate_transition e (s_events st (sn_id s)) = Inr () \<and> ev_id e \<notin> au_id ` set (s_audit st) \<and>
          s_audit st' = s_audit st @ [\<lparr>ar_response_id = sn_id s, ar_number = ev_number e, ar_body = e, au_id = ev_id e\<rparr>] \<and>
          admits e (s_admissions st) (s_admissions st'))"

lemma matches_latest_cong:
  "s_audit st' = s_audit st \<Longrightarrow> matches_latest st' s = matches_latest st s"
  by (simp add: matches_latest_def s_latest_def s_events_def)

lemma checkpoint_step:
  assumes "checkpoint pr s ev st = Inr st'"
  shows "store_step pr s ev st st'"
proof -
  obtain st1 st2 where c: "\<not> s_closed st"
    and 1: "(if claims_apply s ev then insert_intent (sn_id s) st else Inr st) = Inr st1"
    and 2: "(case ev of None \<Rightarrow> Inr st1 | Some e \<Rightarrow> insert_audit (sn_id s) e st1) = Inr st2"
    and m: "matches_latest st2 s" and 3: "upsert_record pr s st2 = Inr st'"
    using assms by (auto simp: checkpoint_def exclusive_def bindR_eq_Inr claims_apply_def split: if_splits)
  note u = upsert_record_Inr [OF 3]
  have st1: "s_audit st1 = s_audit st" "s_admissions st1 = s_admissions st" "s_records st1 = s_records st"
    "s_exported st1 = s_exported st" "s_claimed st1 = s_claimed st" "s_closed st1 = s_closed st"
    "s_intents st1 = s_intents st @ (if claims_apply s ev then [sn_id s] else [])"
    "claims_apply s ev \<Longrightarrow> sn_id s \<notin> set (s_intents st)"
    using 1 by (auto simp: insert_intent_Inr split: if_splits)
  have ev: "s_events st1 rid = s_events st rid" for rid by (simp add: s_events_def st1)
  have au: "case ev of None \<Rightarrow> st2 = st1
    | Some e \<Rightarrow> validate_transition e (s_events st (sn_id s)) = Inr () \<and> ev_id e \<notin> au_id ` set (s_audit st) \<and>
        (\<exists>adm. st2 = st1\<lparr>s_audit := s_audit st @ [\<lparr>ar_response_id = sn_id s, ar_number = ev_number e, ar_body = e, au_id = ev_id e\<rparr>],
          s_admissions := adm\<rparr> \<and> admits e (s_admissions st) adm)"
    using 2 insert_audit_Inr [of "sn_id s" _ st1 st2] by (cases ev) (simp_all add: st1 ev)
  have "matches_latest st' s" using m matches_latest_cong [of st' st2 s] by (simp add: u(1))
  then show ?thesis
    using c st1 u au unfolding store_step_def by (cases ev) auto
qed

section \<open>The invariant of the journal\<close>

text \<open>
  Histories are legal, every row spells out its snapshot and matches the latest event of its
  history, every history has a row, and the admissions are the first events.
\<close>

definition row_ok :: "prims \<Rightarrow> rstore \<Rightarrow> string \<Rightarrow> store_row \<Rightarrow> bool" where
  "row_ok pr st rid row \<longleftrightarrow> sn_id (row_snapshot row) = rid \<and>
     row_command row = canonical_json pr (sn_command (row_snapshot row)) \<and>
     row_expires row = sn_expires (row_snapshot row) \<and> matches_latest st (row_snapshot row)"

definition admissions_ok :: "rstore \<Rightarrow> bool" where
  "admissions_ok st \<longleftrightarrow> distinct (dict_keys (s_admissions st)) \<and>
     (\<forall>rid. rid \<in> set (dict_keys (s_admissions st)) \<longleftrightarrow> s_events st rid \<noteq> []) \<and>
     (\<forall>rid a. dict_get (s_admissions st) rid = Some a \<longrightarrow>
        ad_policy_id a = ev_policy_id (hd (s_events st rid)) \<and> event_time (hd (s_events st rid)) = Inr (ad_admitted_at a))"

definition store_inv :: "prims \<Rightarrow> rstore \<Rightarrow> bool" where
  "store_inv pr st \<longleftrightarrow> rows_inv (s_audit st) \<and> distinct (map au_id (s_audit st)) \<and>
     distinct (dict_keys (s_records st)) \<and>
     (\<forall>rid row. dict_get (s_records st) rid = Some row \<longrightarrow> row_ok pr st rid row) \<and>
     (\<forall>rid. s_events st rid \<noteq> [] \<longrightarrow> rid \<in> set (dict_keys (s_records st))) \<and> admissions_ok st"

lemma store_inv_empty [simp]: "store_inv pr empty_store"
  by (simp add: store_inv_def admissions_ok_def empty_store_def s_events_def select_events_def)

definition new_events :: "string \<Rightarrow> audit_event option \<Rightarrow> string \<Rightarrow> audit_event list" where
  "new_events rid ev r = (case ev of Some e \<Rightarrow> if r = rid then [e] else [] | None \<Rightarrow> [])"

lemma store_step_events:
  assumes "store_step pr s ev st st'" and "rows_inv (s_audit st)" and "\<forall>e. ev = Some e \<longrightarrow> ev_response_id e = sn_id s"
  shows "rows_inv (s_audit st')" and "s_events st' r = s_events st r @ new_events (sn_id s) ev r"
proof -
  have "rows_inv (s_audit st') \<and> s_events st' r = s_events st r @ new_events (sn_id s) ev r"
  proof (cases ev)
    case None
    then show ?thesis using assms by (simp add: store_step_def s_events_def new_events_def)
  next
    case (Some e)
    then have rid: "ev_response_id e = sn_id s" using assms(3) by simp
    let ?row = "\<lparr>ar_response_id = sn_id s, ar_number = ev_number e, ar_body = e, au_id = ev_id e\<rparr>"
    have "validate_transition e (select_events (s_audit st) (ev_response_id e)) = Inr ()"
      and "s_audit st' = s_audit st @ [?row]"
      using assms(1) Some by (simp_all add: store_step_def s_events_def rid)
    then show ?thesis
      using rows_inv_snoc [OF assms(2), of e ?row] Some rid by (simp add: s_events_def new_events_def)
  qed
  then show "rows_inv (s_audit st')" "s_events st' r = s_events st r @ new_events (sn_id s) ev r" by simp_all
qed

lemma matches_latest_events:
  "s_events st' (sn_id s) = s_events st (sn_id s) \<Longrightarrow> matches_latest st' s = matches_latest st s"
  by (simp add: matches_latest_def s_latest_def)

lemma admissions_ok_step:
  assumes "store_step pr s ev st st'" and "rows_inv (s_audit st)" and "\<forall>e. ev = Some e \<longrightarrow> ev_response_id e = sn_id s"
    and "admissions_ok st"
  shows "admissions_ok st'"
proof (cases ev)
  case None
  then show ?thesis
    using assms(1,4) store_step_events(2) [OF assms(1-3)]
    by (simp add: admissions_ok_def store_step_def new_events_def)
next
  case (Some e)
  let ?h = "s_events st (sn_id s)"
  have rid: "ev_response_id e = sn_id s" using assms(3) Some by simp
  have evs: "s_events st' r = s_events st r @ (if r = sn_id s then [e] else [])" for r
    using store_step_events(2) [OF assms(1-3), of r] Some by (simp add: new_events_def)
  have v: "validate_transition e ?h = Inr ()" and ad: "admits e (s_admissions st) (s_admissions st')"
    using assms(1) Some by (simp_all add: store_step_def)
  show ?thesis
  proof (cases "?h = []")
    case True
    then obtain t where t: "event_time e = Inr t" "s_admissions st' = s_admissions st @
        [(sn_id s, \<lparr>ad_policy_id = ev_policy_id e, ad_admitted_at = t\<rparr>)]"
      using ad v assms(4) by (auto simp: admits_def admit_def validate_transition_iff rid admissions_ok_def)
    have "sn_id s \<notin> set (dict_keys (s_admissions st))" using assms(4) True by (simp add: admissions_ok_def)
    then have "s_admissions st' = dict_set (sn_id s) \<lparr>ad_policy_id = ev_policy_id e, ad_admitted_at = t\<rparr> (s_admissions st)"
      using t(2) dict_set_new by metis
    then show ?thesis
      using assms(4) True t(1) unfolding admissions_ok_def evs by (auto simp: distinct_update dom_update)
  next
    case False
    then have "s_admissions st' = s_admissions st"
      using ad v by (simp add: admits_def validate_transition_iff)
    moreover have "hd (s_events st' r) = hd (s_events st r)" "s_events st' r \<noteq> [] \<longleftrightarrow> s_events st r \<noteq> []" for r
      using False by (auto simp: evs)
    ultimately show ?thesis
      using assms(4) by (simp add: admissions_ok_def)
  qed
qed

lemma store_inv_step [invariant_rules]:
  assumes "store_step pr s ev st st'" and "store_inv pr st" and "\<forall>e. ev = Some e \<longrightarrow> ev_response_id e = sn_id s"
  shows "store_inv pr st'"
proof -
  note inv = assms(2) [unfolded store_inv_def]
  have ri: "rows_inv (s_audit st)" using inv by blast
  note evs = store_step_events(2) [OF assms(1) ri assms(3)]
  have recs: "s_records st' = dict_set (sn_id s)
      \<lparr>row_command = canonical_json pr (sn_command s), row_expires = sn_expires s, row_snapshot = s\<rparr> (s_records st)"
    and ml: "matches_latest st' s" using assms(1) by (simp_all add: store_step_def)
  have "row_ok pr st' rid row" if "dict_get (s_records st') rid = Some row" for rid row
  proof (cases "rid = sn_id s")
    case True
    then show ?thesis using that ml by (auto simp: recs row_ok_def)
  next
    case False
    then have old: "row_ok pr st rid row" using that inv by (simp add: recs)
    moreover have "s_events st' rid = s_events st rid" using False by (simp add: evs new_events_def split: option.splits)
    ultimately show ?thesis using matches_latest_events [of st' "row_snapshot row" st] by (simp add: row_ok_def)
  qed
  moreover have "distinct (map au_id (s_audit st'))"
    using assms(1) inv by (cases ev) (auto simp: store_step_def)
  moreover have "rid \<in> set (dict_keys (s_records st'))" if "s_events st' rid \<noteq> []" for rid
    using that inv by (cases "rid = sn_id s") (auto simp: evs new_events_def recs dom_update split: option.splits if_splits)
  ultimately show ?thesis
    using store_step_events(1) [OF assms(1) ri assms(3)] admissions_ok_step [OF assms(1) ri assms(3)] inv
    by (simp add: store_inv_def recs distinct_update)
qed

text \<open>Writes of the journal, as the orchestrator makes them.\<close>

definition store_writes :: "prims \<Rightarrow> rstore \<Rightarrow> rstore \<Rightarrow> bool" where
  "store_writes pr st st' \<longleftrightarrow> (\<exists>s ev. (\<forall>e. ev = Some e \<longrightarrow> ev_response_id e = sn_id s) \<and> checkpoint pr s ev st = Inr st') \<or>
     (\<exists>i. mark_exported i st = Inr st')"

lemma mark_exported_Inr:
  "mark_exported i st = Inr st' \<Longrightarrow> \<exists>x. st' = st\<lparr>s_exported := x\<rparr>"
  by (cases "i \<in> set (s_exported st)")
     (auto simp: mark_exported_def exclusive_def intro: exI [of _ "s_exported st"] split: if_splits)

lemma store_inv_process_flags [simp]:
  "store_inv pr (st\<lparr>s_exported := x\<rparr>) = store_inv pr st"
  "store_inv pr (st\<lparr>s_claimed := b\<rparr>) = store_inv pr st"
  "store_inv pr (st\<lparr>s_closed := c\<rparr>) = store_inv pr st"
  by (simp_all add: store_inv_def row_ok_def admissions_ok_def matches_latest_def s_latest_def s_events_def)

interpretation sto: append_only s_events "store_writes pr" "store_inv pr" for pr
proof unfold_locales
  fix st st' assume i: "store_inv pr st" and w: "store_writes pr st st'"
  have ri: "rows_inv (s_audit st)" using i by (simp add: store_inv_def)
  have "store_inv pr st' \<and> ((\<forall>r. s_events st' r = s_events st r) \<or>
      (\<exists>e. validate_transition e (s_events st (ev_response_id e)) = Inr () \<and>
        (\<forall>r. s_events st' r = s_events st r @ (if r = ev_response_id e then [e] else []))))"
    using w unfolding store_writes_def
  proof (elim disjE exE conjE)
    fix s ev
    assume rid: "\<forall>e. ev = Some e \<longrightarrow> ev_response_id e = sn_id s" and c: "checkpoint pr s ev st = Inr st'"
    note step = checkpoint_step [OF c]
    note evs = store_step_events(2) [OF step ri rid]
    show ?thesis
    proof (cases ev)
      case None
      then show ?thesis using store_inv_step [OF step i rid] by (simp add: evs new_events_def)
    next
      case (Some e)
      then have "validate_transition e (s_events st (ev_response_id e)) = Inr ()"
        using step rid by (simp add: store_step_def)
      moreover have "s_events st' r = s_events st r @ (if r = ev_response_id e then [e] else [])" for r
        using rid Some by (simp add: evs new_events_def)
      ultimately show ?thesis using store_inv_step [OF step i rid] by blast
    qed
  next
    fix i' assume "mark_exported i' st = Inr st'"
    then show ?thesis using i by (auto dest!: mark_exported_Inr simp: s_events_def)
  qed
  then show "store_inv pr st'" and "(\<forall>r. s_events st' r = s_events st r) \<or>
      (\<exists>e. validate_transition e (s_events st (ev_response_id e)) = Inr () \<and>
        (\<forall>r. s_events st' r = s_events st r @ (if r = ev_response_id e then [e] else [])))" by blast+
qed

section \<open>Reopening and admission counts\<close>

lemma row_in_events: "rows_inv (s_audit st) \<Longrightarrow> r \<in> set (s_audit st) \<Longrightarrow> ar_body r \<in> set (s_events st (ar_response_id r))"
  by (auto simp: s_events_def select_events_rows rows_of_def)

lemma open_store_inv:
  assumes "store_inv pr st"
  shows "open_store st = Inr (st\<lparr>s_claimed := False, s_closed := False\<rparr>)"
proof (cases "s_admissions st = []")
  case True
  have "s_events st rid = []" for rid
    using assms True unfolding store_inv_def admissions_ok_def by fastforce
  moreover have "rows_inv (s_audit st)" using assms by (simp add: store_inv_def)
  ultimately have "s_audit st = []"
    using row_in_events [of st] by (cases "s_audit st") (auto dest: spec)
  then show ?thesis using True by (simp add: open_store_def backfill_admissions_def)
qed (simp add: open_store_def backfill_admissions_def)

text \<open>The admissions table counts exactly the histories of a policy that began after an instant.\<close>

lemma s_requested_since_eq:
  assumes "store_inv pr st" and "\<not> s_closed st"
  shows "s_requested_since st policy since = Inr (card {rid. s_events st rid \<noteq> [] \<and>
     ev_policy_id (hd (s_events st rid)) = PStr policy \<and> (\<exists>t. event_time (hd (s_events st rid)) = Inr t \<and> since < t)})"
proof -
  let ?P = "\<lambda>a. ad_policy_id a = PStr policy \<and> since < ad_admitted_at a"
  let ?adm = "s_admissions st"
  have ok: "admissions_ok st" using assms(1) by (simp add: store_inv_def)
  then have d: "distinct (dict_keys ?adm)" by (simp add: admissions_ok_def)
  have "length (filter ?P (dict_values ?adm)) = length (map fst (filter (\<lambda>(k, a). ?P a) ?adm))"
    by (simp add: filter_map comp_def case_prod_unfold)
  also have "\<dots> = card (set (map fst (filter (\<lambda>(k, a). ?P a) ?adm)))"
    by (rule distinct_card [OF distinct_map_filter [OF d], symmetric])
  also have "set (map fst (filter (\<lambda>(k, a). ?P a) ?adm)) = {rid. \<exists>a. dict_get ?adm rid = Some a \<and> ?P a}"
    by (simp only: map_of_eq_Some_iff [OF d]) (auto simp: image_iff)
  also have "\<dots> = {rid. s_events st rid \<noteq> [] \<and> ev_policy_id (hd (s_events st rid)) = PStr policy \<and>
      (\<exists>t. event_time (hd (s_events st rid)) = Inr t \<and> since < t)}"
  proof (intro Collect_cong)
    fix rid
    show "(\<exists>a. dict_get ?adm rid = Some a \<and> ?P a) \<longleftrightarrow> s_events st rid \<noteq> [] \<and>
      ev_policy_id (hd (s_events st rid)) = PStr policy \<and> (\<exists>t. event_time (hd (s_events st rid)) = Inr t \<and> since < t)"
    proof (cases "dict_get ?adm rid")
      case None
      then have "s_events st rid = []" using ok unfolding admissions_ok_def by (metis dict_get_None_iff)
      with None show ?thesis by (simp del: dict_get_None_iff)
    next
      case (Some a)
      then have "rid \<in> set (dict_keys ?adm)" using dict_get_None_iff [of ?adm rid] by auto
      then have "s_events st rid \<noteq> []" "ad_policy_id a = ev_policy_id (hd (s_events st rid))"
        "event_time (hd (s_events st rid)) = Inr (ad_admitted_at a)"
        using ok Some unfolding admissions_ok_def by blast+
      then show ?thesis using Some by simp
    qed
  qed
  finally show ?thesis using assms(2) by (simp add: s_requested_since_def exclusive_def)
qed

end
