(* ===== verification/Ipaddr.thy ===== *)
theory Ipaddr
  imports Values
begin

text \<open>
  What the sources use of the \<^verbatim>\<open>ipaddress\<close> library (Python 3.12, the version the repository's CI
  runs): reading and printing IPv4 and IPv6 addresses, networks with \<^verbatim>\<open>strict=False\<close>, membership,
  and the special-use classes. An address is its integer value; an IPv6 address keeps its scope
  (zone) identifier, which takes part in equality but not in network membership, as in the library.
\<close>

section \<open>Addresses\<close>

datatype ip = IPv4 int | IPv6 int "string option"

definition parse_octet :: "string \<Rightarrow> int option" where
  "parse_octet s = (if s = [] \<or> \<not> list_all is_digit s \<or> 3 < length s \<or>
      s \<noteq> ''0'' \<and> hd s = CHR ''0'' \<or> 255 < read_nat s
     then None else Some (int (read_nat s)))"

definition parse_ipv4 :: "string \<Rightarrow> int option" where
  "parse_ipv4 s = (case map parse_octet (split_on (CHR ''.'') s) of
     [Some a, Some b, Some c, Some d] \<Rightarrow> Some (((a * 256 + b) * 256 + c) * 256 + d)
   | _ \<Rightarrow> None)"

definition is_hex_digit :: "char \<Rightarrow> bool" where
  "is_hex_digit c = (let n = of_char c :: nat in
     48 \<le> n \<and> n \<le> 57 \<or> 65 \<le> n \<and> n \<le> 70 \<or> 97 \<le> n \<and> n \<le> 102)"

definition hex_value :: "char \<Rightarrow> int" where
  "hex_value c = (let n = of_char c :: int in
     if n \<le> 57 then n - 48 else if n \<le> 70 then n - 55 else n - 87)"

definition read_hex :: "string \<Rightarrow> int" where
  "read_hex s = foldl (\<lambda>n c. n * 16 + hex_value c) 0 s"

definition parse_hextet :: "string \<Rightarrow> int option" where
  "parse_hextet s = (if s = [] \<or> \<not> list_all is_hex_digit s \<or> 4 < length s then None
     else Some (read_hex s))"

fun show_hex :: "nat \<Rightarrow> string" where
  "show_hex n = (if n < 16 then [hex_digit n] else show_hex (n div 16) @ [hex_digit (n mod 16)])"

declare show_hex.simps [simp del]

text \<open>The hextets of a list of strings, most significant first.\<close>

fun hextets_value :: "string list \<Rightarrow> int \<Rightarrow> int option" where
  "hextets_value [] acc = Some acc"
| "hextets_value (h # hs) acc =
     (case parse_hextet h of None \<Rightarrow> None | Some v \<Rightarrow> hextets_value hs (acc * 65536 + v))"

text \<open>An IPv4 suffix (\<^verbatim>\<open>::ffff:10.0.0.1\<close>) becomes two hextets.\<close>

definition expand_suffix :: "string list \<Rightarrow> string list option" where
  "expand_suffix parts = (if CHR ''.'' \<in> set (last parts)
     then (case parse_ipv4 (last parts) of None \<Rightarrow> None
       | Some v \<Rightarrow> Some (butlast parts @ [show_hex (nat (v div 65536)), show_hex (nat (v mod 65536))]))
     else Some parts)"

text \<open>Positions of empty parts strictly between the ends: the places of a double colon.\<close>

definition inner_gaps :: "string list \<Rightarrow> nat list" where
  "inner_gaps parts = filter (\<lambda>i. parts ! i = []) [1 ..< length parts - 1]"

definition parse_ipv6_int :: "string \<Rightarrow> int option" where
  "parse_ipv6_int s = (if s = [] then None else
     (let parts0 = split_on (CHR '':'') s in
      if length parts0 < 3 then None else
      (case expand_suffix parts0 of None \<Rightarrow> None | Some parts \<Rightarrow>
        if 9 < length parts then None else
        (case inner_gaps parts of
          [] \<Rightarrow> (if length parts \<noteq> 8 \<or> hd parts = [] \<or> last parts = [] then None
                 else hextets_value parts 0)
        | [i] \<Rightarrow>
            (let hi = (if hd parts = [] then i - 1 else i);
                 lo0 = length parts - i - 1;
                 lo = (if last parts = [] then lo0 - 1 else lo0) in
             if hd parts = [] \<and> hi \<noteq> 0 \<or> last parts = [] \<and> lo \<noteq> 0 \<or> 8 \<le> hi + lo then None
             else (case hextets_value (take hi parts) 0 of None \<Rightarrow> None
               | Some v \<Rightarrow> hextets_value (drop (length parts - lo) parts) (v * 65536 ^ (8 - (hi + lo)))))
        | _ \<Rightarrow> None))))"

definition parse_ipv6 :: "string \<Rightarrow> ip option" where
  "parse_ipv6 s = (if CHR ''/'' \<in> set s then None else
     (let addr = takeWhile (\<lambda>c. c \<noteq> CHR ''%'') s in
      if length addr = length s then map_option (\<lambda>v. IPv6 v None) (parse_ipv6_int s)
      else (let scope = drop (Suc (length addr)) s in
        if scope = [] \<or> CHR ''%'' \<in> set scope then None
        else map_option (\<lambda>v. IPv6 v (Some scope)) (parse_ipv6_int addr))))"

text \<open>\<^verbatim>\<open>ipaddress.ip_address\<close>: IPv4 first, then IPv6; \<^verbatim>\<open>ValueError\<close> is \<open>None\<close>.\<close>

definition ip_address :: "string \<Rightarrow> ip option" where
  "ip_address s = (case parse_ipv4 s of Some v \<Rightarrow> Some (IPv4 v) | None \<Rightarrow> parse_ipv6 s)"

section \<open>Printing\<close>

definition show_ipv4 :: "int \<Rightarrow> string" where
  "show_ipv4 v = join_with ''.'' [show_nat (nat (v div 16777216 mod 256)),
     show_nat (nat (v div 65536 mod 256)), show_nat (nat (v div 256 mod 256)), show_nat (nat (v mod 256))]"

definition hextets :: "int \<Rightarrow> string list" where
  "hextets v = map (\<lambda>i. show_hex (nat (v div 65536 ^ (7 - i) mod 65536))) [0 ..< 8]"

text \<open>The longest run of zero hextets, the first one on a tie: (start, length).\<close>

fun best_run :: "string list \<Rightarrow> nat \<Rightarrow> nat \<times> nat \<Rightarrow> nat \<times> nat \<Rightarrow> nat \<times> nat" where
  "best_run [] i cur best = best"
| "best_run (h # hs) i cur best =
     (if h = ''0'' then
        (let cur' = (if snd cur = 0 then (i, 1) else (fst cur, Suc (snd cur))) in
         best_run hs (Suc i) cur' (if snd best < snd cur' then cur' else best))
      else best_run hs (Suc i) (0, 0) best)"

definition compress_hextets :: "string list \<Rightarrow> string list" where
  "compress_hextets hs = (case best_run hs 0 (0, 0) (0, 0) of (st, n) \<Rightarrow>
     if 1 < n then
       (if st = 0 then [[]] else []) @ take st hs @ [[]] @ drop (st + n) hs @
       (if st + n = length hs then [[]] else [])
     else hs)"

definition show_ipv6 :: "int \<Rightarrow> string" where
  "show_ipv6 v = join_with '':'' (compress_hextets (hextets v))"

fun show_ip :: "ip \<Rightarrow> string" where
  "show_ip (IPv4 v) = show_ipv4 v"
| "show_ip (IPv6 v None) = show_ipv6 v"
| "show_ip (IPv6 v (Some z)) = show_ipv6 v @ ''%'' @ z"

section \<open>Networks\<close>

datatype ip_net = Net4 int nat | Net6 int nat

definition net_base :: "nat \<Rightarrow> nat \<Rightarrow> int \<Rightarrow> int" where
  "net_base width prefix v = v div 2 ^ (width - prefix) * 2 ^ (width - prefix)"

text \<open>\<^verbatim>\<open>address in network\<close>: the versions agree and the masked address is the network address.\<close>

fun in_net :: "ip \<Rightarrow> ip_net \<Rightarrow> bool" where
  "in_net (IPv4 v) (Net4 b p) = (net_base 32 p v = b)"
| "in_net (IPv6 v z) (Net6 b p) = (net_base 128 p v = b)"
| "in_net _ _ = False"

definition parse_prefix :: "nat \<Rightarrow> string \<Rightarrow> nat option" where
  "parse_prefix width s = (if s \<noteq> [] \<and> list_all is_digit s \<and> read_nat s \<le> width
     then Some (read_nat s) else None)"

text \<open>An IPv4 netmask or hostmask in dotted form.\<close>

definition parse_mask4 :: "string \<Rightarrow> nat option" where
  "parse_mask4 s = (case parse_ipv4 s of None \<Rightarrow> None | Some m \<Rightarrow>
     (case filter (\<lambda>p. m = 2 ^ 32 - 2 ^ (32 - p)) [0 ..< 33] of
        p # _ \<Rightarrow> Some p
      | [] \<Rightarrow> (case filter (\<lambda>p. m = 2 ^ (32 - p) - 1) [0 ..< 33] of p # _ \<Rightarrow> Some p | [] \<Rightarrow> None)))"

definition orelse :: "'a option \<Rightarrow> 'a option \<Rightarrow> 'a option" where
  "orelse a b = (case a of None \<Rightarrow> b | Some x \<Rightarrow> Some x)"

definition ip_network :: "string \<Rightarrow> ip_net option" where
  "ip_network s = (case split_on (CHR ''/'') s of
     [a] \<Rightarrow> (case ip_address a of Some (IPv4 v) \<Rightarrow> Some (Net4 v 32)
       | Some (IPv6 v z) \<Rightarrow> Some (Net6 v 128) | None \<Rightarrow> None)
   | [a, m] \<Rightarrow> (case ip_address a of
         Some (IPv4 v) \<Rightarrow> map_option (\<lambda>p. Net4 (net_base 32 p v) p)
           (orelse (parse_prefix 32 m) (parse_mask4 m))
       | Some (IPv6 v z) \<Rightarrow> map_option (\<lambda>p. Net6 (net_base 128 p v) p) (parse_prefix 128 m)
       | None \<Rightarrow> None)
   | _ \<Rightarrow> None)"

fun show_net :: "ip_net \<Rightarrow> string" where
  "show_net (Net4 b p) = show_ipv4 b @ ''/'' @ show_nat p"
| "show_net (Net6 b p) = show_ipv6 b @ ''/'' @ show_nat p"

section \<open>Special-use classes\<close>

definition v4 :: "int \<Rightarrow> int \<Rightarrow> int \<Rightarrow> int \<Rightarrow> int" where
  "v4 a b c d = ((a * 256 + b) * 256 + c) * 256 + d"

definition private4 :: "ip_net list" where
  "private4 = [Net4 0 8, Net4 (v4 10 0 0 0) 8, Net4 (v4 127 0 0 0) 8, Net4 (v4 169 254 0 0) 16,
     Net4 (v4 172 16 0 0) 12, Net4 (v4 192 0 0 0) 24, Net4 (v4 192 0 0 170) 31, Net4 (v4 192 0 2 0) 24,
     Net4 (v4 192 168 0 0) 16, Net4 (v4 198 18 0 0) 15, Net4 (v4 198 51 100 0) 24,
     Net4 (v4 203 0 113 0) 24, Net4 (v4 240 0 0 0) 4, Net4 (v4 255 255 255 255) 32]"

definition private4_exceptions :: "ip_net list" where
  "private4_exceptions = [Net4 (v4 192 0 0 9) 32, Net4 (v4 192 0 0 10) 32]"

text \<open>The IPv6 network with the given leading hextets.\<close>

definition v6 :: "int list \<Rightarrow> int" where
  "v6 hs = foldl (\<lambda>n h. n * 65536 + h) 0 hs * 65536 ^ (8 - length hs)"

definition private6 :: "ip_net list" where
  "private6 = [Net6 1 128, Net6 0 128, Net6 (v6 [0, 0, 0, 0, 0, 0xffff]) 96, Net6 (v6 [0x64, 0xff9b, 1]) 48,
     Net6 (v6 [0x100]) 64, Net6 (v6 [0x2001]) 23, Net6 (v6 [0x2001, 0xdb8]) 32, Net6 (v6 [0x2002]) 16,
     Net6 (v6 [0xfc00]) 7, Net6 (v6 [0xfe80]) 10]"

definition private6_exceptions :: "ip_net list" where
  "private6_exceptions = [Net6 (v6 [0x2001, 1, 0, 0, 0, 0, 0, 1]) 128, Net6 (v6 [0x2001, 1, 0, 0, 0, 0, 0, 2]) 128,
     Net6 (v6 [0x2001, 3]) 32, Net6 (v6 [0x2001, 4, 0x112]) 48, Net6 (v6 [0x2001, 0x20]) 28,
     Net6 (v6 [0x2001, 0x30]) 28]"

definition reserved6 :: "ip_net list" where
  "reserved6 = [Net6 0 8, Net6 (v6 [0x100]) 8, Net6 (v6 [0x200]) 7, Net6 (v6 [0x400]) 6, Net6 (v6 [0x800]) 5,
     Net6 (v6 [0x1000]) 4, Net6 (v6 [0x4000]) 3, Net6 (v6 [0x6000]) 3, Net6 (v6 [0x8000]) 3,
     Net6 (v6 [0xa000]) 3, Net6 (v6 [0xc000]) 3, Net6 (v6 [0xe000]) 4, Net6 (v6 [0xf000]) 5,
     Net6 (v6 [0xf800]) 6, Net6 (v6 [0xfe00]) 9]"

definition in_any :: "ip \<Rightarrow> ip_net list \<Rightarrow> bool" where
  "in_any a nets = list_ex (in_net a) nets"

fun is_unspecified :: "ip \<Rightarrow> bool" where
  "is_unspecified (IPv4 v) = (v = 0)"
| "is_unspecified (IPv6 v z) = (v = 0)"

fun is_loopback :: "ip \<Rightarrow> bool" where
  "is_loopback (IPv4 v) = in_net (IPv4 v) (Net4 (v4 127 0 0 0) 8)"
| "is_loopback (IPv6 v z) = (v = 1)"

fun is_link_local :: "ip \<Rightarrow> bool" where
  "is_link_local (IPv4 v) = in_net (IPv4 v) (Net4 (v4 169 254 0 0) 16)"
| "is_link_local (IPv6 v z) = in_net (IPv6 v z) (Net6 (v6 [0xfe80]) 10)"

fun is_multicast :: "ip \<Rightarrow> bool" where
  "is_multicast (IPv4 v) = in_net (IPv4 v) (Net4 (v4 224 0 0 0) 4)"
| "is_multicast (IPv6 v z) = in_net (IPv6 v z) (Net6 (v6 [0xff00]) 8)"

fun is_reserved :: "ip \<Rightarrow> bool" where
  "is_reserved (IPv4 v) = in_net (IPv4 v) (Net4 (v4 240 0 0 0) 4)"
| "is_reserved (IPv6 v z) = in_any (IPv6 v z) reserved6"

fun is_private :: "ip \<Rightarrow> bool" where
  "is_private (IPv4 v) = (in_any (IPv4 v) private4 \<and> \<not> in_any (IPv4 v) private4_exceptions)"
| "is_private (IPv6 v z) =
     (if in_net (IPv6 v z) (Net6 (v6 [0, 0, 0, 0, 0, 0xffff]) 96)
      then in_any (IPv4 (v mod 2 ^ 32)) private4 \<and> \<not> in_any (IPv4 (v mod 2 ^ 32)) private4_exceptions
      else in_any (IPv6 v z) private6 \<and> \<not> in_any (IPv6 v z) private6_exceptions)"

definition special_use :: "ip \<Rightarrow> bool" where
  "special_use a = (is_unspecified a \<or> is_loopback a \<or> is_link_local a \<or> is_multicast a)"

section \<open>IPv4 text round trip\<close>

lemma parse_octet_show:
  assumes "n < 256"
  shows "parse_octet (show_nat n) = Some (int n)"
proof -
  have one: "length (show_nat k) = 1" if "k < 10" for k
    using that by (subst show_nat.simps) simp
  have more: "length (show_nat k) \<le> Suc (length (show_nat (k div 10)))" for k
    by (subst show_nat.simps) simp
  have "n div 10 div 10 < 10" using assms by auto
  then have "length (show_nat n) \<le> 3"
    using one [of "n div 10 div 10"] more [of n] more [of "n div 10"] by linarith
  moreover have "hd (show_nat n) \<noteq> CHR ''0''" if "n \<noteq> 0"
    using that
  proof (induction n rule: show_nat.induct)
    case (1 n)
    have zero: "digit_char d \<noteq> CHR ''0''" if "0 < d" "d < 10" for d
    proof
      assume "digit_char d = CHR ''0''"
      then have "(of_char (digit_char d) :: nat) = 48" by simp
      then show False using that by (simp add: of_char_digit_char)
    qed
    show ?case
    proof (cases "n < 10")
      case True
      then show ?thesis using zero [of n] 1(2) by (subst show_nat.simps) simp
    next
      case False
      then show ?thesis using 1 by (subst show_nat.simps) (simp add: hd_append)
    qed
  qed
  moreover have "parse_octet (show_nat 0) = Some (int 0)" by code_simp
  ultimately show ?thesis
    using assms show_nat_digits [of n] by (cases "n = 0") (simp_all add: parse_octet_def)
qed

lemma dot_not_digit: "CHR ''.'' \<notin> set (show_nat n)"
proof
  assume "CHR ''.'' \<in> set (show_nat n)"
  then have "is_digit (CHR ''.'')" using show_nat_digits [of n] by (simp add: list_all_iff)
  then show False by (simp add: is_digit_def)
qed

lemma octets_value:
  assumes "0 \<le> v" "v < 2 ^ 32"
  shows "((v div 16777216 mod 256 * 256 + v div 65536 mod 256) * 256 + v div 256 mod 256) * 256 + v mod 256 = (v :: int)"
proof -
  have d: "v div 65536 = v div 256 div 256" "v div 16777216 = v div 256 div 256 div 256"
    using zdiv_zmult2_eq [of 256 v 256] zdiv_zmult2_eq [of 256 v 65536] by simp_all
  have "0 \<le> v div 256 div 256 div 256" using assms by (simp add: pos_imp_zdiv_nonneg_iff)
  moreover have "v div 16777216 < 256" using assms by simp
  ultimately have "v div 256 div 256 div 256 mod 256 = v div 256 div 256 div 256"
    unfolding d by (intro mod_pos_pos_trivial) simp_all
  then show ?thesis unfolding d by (simp only: div_mult_mod_eq)
qed

lemma ip_address_show_ipv4:
  assumes "0 \<le> v" "v < 2 ^ 32"
  shows "ip_address (show_ip (IPv4 v)) = Some (IPv4 v)"
proof -
  let ?o = "[v div 16777216 mod 256, v div 65536 mod 256, v div 256 mod 256, v mod 256]"
  have "split_on (CHR ''.'') (show_ipv4 v) = map (\<lambda>x. show_nat (nat x)) ?o"
    unfolding show_ipv4_def by (subst split_join) (auto simp: dot_not_digit)
  moreover have "parse_octet (show_nat (nat (x mod 256))) = Some (x mod 256)" for x
    using parse_octet_show [of "nat (x mod 256)"] by (simp add: nat_less_iff)
  ultimately have "parse_ipv4 (show_ipv4 v) = Some v"
    unfolding parse_ipv4_def by (simp only: list.map list.case option.case octets_value [OF assms])
  then show ?thesis by (simp add: ip_address_def)
qed

lemma net_base_self: "net_base w p (net_base w p v) = net_base w p v"
  by (simp add: net_base_def)

end
