(* ===== verification/Policy.thy ===== *)
theory Policy
  imports Ipaddr
begin

text \<open>
  \<^verbatim>\<open>response/policy.py\<close>: loading a policy document (data, never code) and the target protections
  both sides of the response boundary check. Every \<^verbatim>\<open>from_mapping\<close> takes the parsed YAML value and
  either raises or returns the typed object; frozen sets of host names are lists used through
  membership only.
\<close>

section \<open>Vocabulary and argument checks\<close>

definition SUPPORTED_ACTIONS :: "string list" where
  "SUPPORTED_ACTIONS = [''block_ip'', ''isolate_host'']"

definition SUPPORTED_SIGNAL_TYPES :: "string list" where
  "SUPPORTED_SIGNAL_TYPES =
     [''suricata'', ''wazuh'', ''authentication'', ''threat_intel'', ''protected_asset'', ''honeypot'']"

text \<open>The double nearest to 0.9, which the literal \<^verbatim>\<open>0.9\<close> denotes.\<close>

definition float_0_9 :: rat where
  "float_0_9 = 8106479329266893 / 9007199254740992"

definition require_mapping :: "pyval \<Rightarrow> pyval res" where
  "require_mapping v = (if is_mapping v then Inr v else Inl (PolicyError ''must be a mapping''))"

definition require_string :: "pyval \<Rightarrow> string res" where
  "require_string v = (case v of PStr s \<Rightarrow>
       (if strip s = [] then Inl (PolicyError ''must be a non-empty string'') else Inr (strip s))
     | _ \<Rightarrow> Inl (PolicyError ''must be a non-empty string''))"

definition require_positive_int :: "pyval \<Rightarrow> int \<Rightarrow> int res" where
  "require_positive_int v lo = (case v of PInt i \<Rightarrow>
       (if i < lo then Inl (PolicyError ''must be an integer >= minimum'') else Inr i)
     | _ \<Rightarrow> Inl (PolicyError ''must be an integer >= minimum''))"

definition string_list :: "pyval \<Rightarrow> string list res" where
  "string_list v = (case v of PNone \<Rightarrow> Inr []
     | PList vs \<Rightarrow> bindR (mapR require_string vs) (\<lambda>values.
         if distinct values then Inr values
         else Inl (PolicyError ''must not contain duplicate values''))
     | _ \<Rightarrow> Inl (PolicyError ''must be a list of strings''))"

definition no_unknown :: "pyval \<Rightarrow> string list \<Rightarrow> bool" where
  "no_unknown v allowed = list_all (\<lambda>k. k \<in> set allowed) (map fst (entries v))"

definition exact_keys :: "pyval \<Rightarrow> string list \<Rightarrow> bool" where
  "exact_keys v ks = (no_unknown v ks \<and> list_all (\<lambda>k. k \<in> set (map fst (entries v))) ks)"

lemma no_unknown_iff: "no_unknown v ks \<longleftrightarrow> pkeys v \<subseteq> set ks"
  by (auto simp: no_unknown_def pkeys_def list_all_iff)

lemma exact_keys_iff: "exact_keys v ks \<longleftrightarrow> pkeys v = set ks"
  by (auto simp: exact_keys_def no_unknown_iff pkeys_def list_all_iff)

lemma require_mapping_Inr [simp]: "require_mapping v = Inr w \<longleftrightarrow> is_mapping v \<and> w = v"
  by (auto simp: require_mapping_def)

lemma require_string_Inr: "require_string v = Inr s \<longleftrightarrow> (\<exists>t. v = PStr t \<and> s = strip t \<and> s \<noteq> [])"
  by (cases v) (auto simp: require_string_def split: if_splits)

lemma require_positive_int_Inr [simp]: "require_positive_int v lo = Inr i \<longleftrightarrow> v = PInt i \<and> lo \<le> i"
  by (cases v) (auto simp: require_positive_int_def split: if_splits)

section \<open>Corroborating signals\<close>

record target =
  t_type :: string
  t_value :: string

text \<open>A normalised corroborating signal, as \<^verbatim>\<open>_validate_independent_signals\<close> builds it.\<close>

record signal =
  s_type :: string
  s_reference :: string
  s_observed_at :: string
  s_target :: target
  s_severity :: "int option"
  s_count :: "int option"
  s_confidence :: "rat option"

record signal_requirement =
  r_kind :: string
  r_min_severity :: "int option"
  r_min_count :: "int option"

definition optional_int :: "pyval \<Rightarrow> int \<Rightarrow> int option res" where
  "optional_int v lo = (if v = PNone then Inr None
     else bindR (require_positive_int v lo) (\<lambda>i. Inr (Some i)))"

definition signal_requirement_from_mapping :: "pyval \<Rightarrow> signal_requirement res" where
  "signal_requirement_from_mapping value =
     bindR (require_mapping value) (\<lambda>data.
     bindR (guardR (no_unknown data [''type'', ''min_severity'', ''min_count''])
       (PolicyError ''has unsupported fields'')) (\<lambda>_.
     bindR (require_string (pget data ''type'')) (\<lambda>kind.
     bindR (guardR (kind \<in> set SUPPORTED_SIGNAL_TYPES)
       (PolicyError ''type must be an independent signal type'')) (\<lambda>_.
     bindR (optional_int (pget data ''min_severity'') 0) (\<lambda>sev.
     bindR (optional_int (pget data ''min_count'') 1) (\<lambda>cnt.
     Inr \<lparr>r_kind = kind, r_min_severity = sev, r_min_count = cnt\<rparr>))))))"

text \<open>A missing number is never enough for a requirement that asks for one.\<close>

definition at_least :: "int option \<Rightarrow> int option \<Rightarrow> bool" where
  "at_least value bound = (case bound of None \<Rightarrow> True
     | Some b \<Rightarrow> (case value of None \<Rightarrow> False | Some x \<Rightarrow> b \<le> x))"

definition matches :: "signal_requirement \<Rightarrow> signal \<Rightarrow> bool" where
  "matches r s = (s_type s = r_kind r \<and> at_least (s_severity s) (r_min_severity r) \<and>
     at_least (s_count s) (r_min_count r))"

section \<open>Target protections\<close>

record protection_policy =
  allowlisted_ips :: "ip list"
  allowlisted_networks :: "ip_net list"
  protected_ips :: "ip list"
  protected_networks :: "ip_net list"
  protected_hosts :: "string list"
  allowed_isolation_hosts :: "string list"
  block_private_ip_targets :: bool

definition parse_all :: "(string \<Rightarrow> 'a option) \<Rightarrow> exn \<Rightarrow> string list \<Rightarrow> 'a list res" where
  "parse_all f e = mapR (\<lambda>s. case f s of None \<Rightarrow> Inl e | Some x \<Rightarrow> Inr x)"

definition addresses :: "pyval \<Rightarrow> string \<Rightarrow> ip list res" where
  "addresses data name = bindR (string_list (pget data name))
     (parse_all ip_address (PolicyError ''contains an invalid IP address''))"

definition networks :: "pyval \<Rightarrow> string \<Rightarrow> ip_net list res" where
  "networks data name = bindR (string_list (pget data name))
     (parse_all ip_network (PolicyError ''contains an invalid CIDR''))"

definition hosts :: "pyval \<Rightarrow> string \<Rightarrow> string list res" where
  "hosts data name = bindR (string_list (pget data name)) (\<lambda>hs. Inr (map lower hs))"

definition protection_policy_from_mapping :: "pyval \<Rightarrow> protection_policy res" where
  "protection_policy_from_mapping value =
     bindR (require_mapping value) (\<lambda>data.
     bindR (guardR (no_unknown data [''allowlisted_ips'', ''allowlisted_networks'', ''protected_ips'',
         ''protected_networks'', ''protected_hosts'', ''allowed_isolation_hosts'',
         ''block_private_ip_targets'']) (PolicyError ''has unsupported fields'')) (\<lambda>_.
     bindR (case (if has_key data ''block_private_ip_targets''
           then pget data ''block_private_ip_targets'' else PBool False) of
         PBool b \<Rightarrow> Inr b | _ \<Rightarrow> Inl (PolicyError ''block_private_ip_targets must be boolean'')) (\<lambda>private.
     bindR (addresses data ''allowlisted_ips'') (\<lambda>ai.
     bindR (networks data ''allowlisted_networks'') (\<lambda>an.
     bindR (addresses data ''protected_ips'') (\<lambda>pi.
     bindR (networks data ''protected_networks'') (\<lambda>pn.
     bindR (hosts data ''protected_hosts'') (\<lambda>ph.
     bindR (hosts data ''allowed_isolation_hosts'') (\<lambda>ah.
     Inr \<lparr>allowlisted_ips = ai, allowlisted_networks = an, protected_ips = pi, protected_networks = pn,
       protected_hosts = ph, allowed_isolation_hosts = ah, block_private_ip_targets = private\<rparr>)))))))))"

definition assert_target_allowed :: "protection_policy \<Rightarrow> string \<Rightarrow> string \<Rightarrow> string \<Rightarrow> unit res" where
  "assert_target_allowed p action target_type target_value = (
     if action = ''block_ip'' then
       (if target_type \<noteq> ''ip'' then Inl (PolicyError ''block_ip requires an IP target'')
        else (case ip_address target_value of
          None \<Rightarrow> Inl (PolicyError ''block_ip target is not a valid IP address'')
        | Some a \<Rightarrow>
            if special_use a
            then Inl (PolicyError ''automatic containment cannot target special-use IP addresses'')
            else if is_reserved a
            then Inl (PolicyError ''automatic containment cannot target reserved IP addresses'')
            else if block_private_ip_targets p \<and> is_private a
            then Inl (PolicyError ''automatic containment of private IP addresses is disabled'')
            else if a \<in> set (allowlisted_ips p) \<or> in_any a (allowlisted_networks p)
            then Inl (PolicyError ''target is explicitly allowlisted'')
            else if a \<in> set (protected_ips p)
            then Inl (PolicyError ''target is protected DNS, NTP, RADIUS, SOC, or management infrastructure'')
            else if in_any a (protected_networks p)
            then Inl (PolicyError ''target is in a protected management or SOC network'')
            else Inr ()))
     else if action = ''isolate_host'' then
       (if target_type \<noteq> ''host'' then Inl (PolicyError ''isolate_host requires a host target'')
        else bindR (require_string (PStr target_value)) (\<lambda>h.
          let host = lower h in
          if host \<in> set (protected_hosts p)
          then Inl (PolicyError ''target is a protected management or SOC host'')
          else if host \<notin> set (allowed_isolation_hosts p)
          then Inl (PolicyError ''host is not explicitly eligible for controlled isolation'')
          else Inr ()))
     else Inl (PolicyError ''unsupported response action''))"

section \<open>Rules and the catalog\<close>

record rate_limit =
  max_actions :: int
  window_seconds :: int

definition rate_limit_from_mapping :: "pyval \<Rightarrow> rate_limit res" where
  "rate_limit_from_mapping value =
     bindR (require_mapping value) (\<lambda>data.
     bindR (guardR (exact_keys data [''max_actions'', ''window_seconds''])
       (PolicyError ''defaults.rate_limit must contain only max_actions and window_seconds'')) (\<lambda>_.
     bindR (require_positive_int (pget data ''max_actions'') 1) (\<lambda>m.
     bindR (require_positive_int (pget data ''window_seconds'') 1) (\<lambda>w.
     Inr \<lparr>max_actions = m, window_seconds = w\<rparr>))))"

record response_policy =
  p_id :: string
  p_version :: string
  p_action :: string
  p_ttl_seconds :: int
  p_min_ai_score :: rat
  p_require_any :: "signal_requirement list"
  p_sha256 :: string

text \<open>\<^verbatim>\<open>ai_score_gte\<close>: \<^verbatim>\<open>float(score)\<close> of a too large \<^verbatim>\<open>int\<close> raises \<^verbatim>\<open>OverflowError\<close>.\<close>

definition score_threshold :: "pyval \<Rightarrow> rat res" where
  "score_threshold v = (
     let bad = PolicyError ''ai_score_gte must be between 0.90 and 1'' in
     case v of
       PInt i \<Rightarrow> if float_overflows i then Inl OverflowErr
         else if float_0_9 \<le> of_int i \<and> (of_int i :: rat) \<le> 1 then Inr (of_int i) else Inl bad
     | PFloat (Fin r) \<Rightarrow> if float_0_9 \<le> r \<and> r \<le> 1 then Inr r else Inl bad
     | _ \<Rightarrow> Inl bad)"

definition requirement_json :: "signal_requirement \<Rightarrow> pyval" where
  "requirement_json r = PDict ([(''type'', PStr (r_kind r))]
     @ (case r_min_severity r of None \<Rightarrow> [] | Some i \<Rightarrow> [(''min_severity'', PInt i)])
     @ (case r_min_count r of None \<Rightarrow> [] | Some i \<Rightarrow> [(''min_count'', PInt i)]))"

definition response_policy_from_mapping :: "prims \<Rightarrow> pyval \<Rightarrow> response_policy res" where
  "response_policy_from_mapping pr value =
     bindR (require_mapping value) (\<lambda>data.
     bindR (guardR (no_unknown data [''id'', ''version'', ''enabled'', ''action'', ''ttl_seconds'', ''when''])
       (PolicyError ''has unsupported fields'')) (\<lambda>_.
     bindR (guardR (pget data ''enabled'' = PBool True) (PolicyError ''must set enabled: true'')) (\<lambda>_.
     bindR (require_string (pget data ''id'')) (\<lambda>identifier.
     bindR (require_string (pget data ''version'')) (\<lambda>version.
     bindR (require_string (pget data ''action'')) (\<lambda>action.
     bindR (guardR (action \<in> set SUPPORTED_ACTIONS) (PolicyError ''action is unsupported'')) (\<lambda>_.
     bindR (require_positive_int (pget data ''ttl_seconds'') 60) (\<lambda>ttl.
     bindR (guardR (ttl \<le> 86400) (PolicyError ''ttl_seconds exceeds one day'')) (\<lambda>_.
     bindR (require_mapping (pget data ''when'')) (\<lambda>w.
     bindR (guardR (exact_keys w [''ai_score_gte'', ''require_any''])
       (PolicyError ''when must contain ai_score_gte and require_any'')) (\<lambda>_.
     bindR (score_threshold (pget w ''ai_score_gte'')) (\<lambda>score.
     bindR (guardR (is_list (pget w ''require_any'') \<and> elements (pget w ''require_any'') \<noteq> [])
       (PolicyError ''require_any must contain an independent signal'')) (\<lambda>_.
     bindR (mapR signal_requirement_from_mapping (elements (pget w ''require_any''))) (\<lambda>reqs.
     Inr \<lparr>p_id = identifier, p_version = version, p_action = action, p_ttl_seconds = ttl,
       p_min_ai_score = score, p_require_any = reqs,
       p_sha256 = sha256_hex pr (PDict [(''id'', PStr identifier), (''version'', PStr version),
         (''enabled'', PBool True), (''action'', PStr action), (''ttl_seconds'', PInt ttl),
         (''when'', PDict [(''ai_score_gte'', PFloat (Fin score)),
            (''require_any'', PList (map requirement_json reqs))])])\<rparr>))))))))))))))"

record policy_catalog =
  c_protections :: protection_policy
  c_rate_limit :: rate_limit
  c_dedup_seconds :: int
  c_command_valid_for_seconds :: int
  c_evidence_max_age_seconds :: int
  c_policies :: "response_policy dict"

definition sorted_strs :: "string list \<Rightarrow> pyval" where
  "sorted_strs xs = PList (map PStr (sort xs))"

text \<open>The safeguards every policy hash binds: protections, limits and lifetimes.\<close>

definition safeguard_material :: "protection_policy \<Rightarrow> rate_limit \<Rightarrow> int \<Rightarrow> int \<Rightarrow> int \<Rightarrow> pyval" where
  "safeguard_material p rl dedup valid age = PDict [
     (''protections'', PDict [
        (''allowlisted_ips'', sorted_strs (map show_ip (allowlisted_ips p))),
        (''allowlisted_networks'', sorted_strs (map show_net (allowlisted_networks p))),
        (''protected_ips'', sorted_strs (map show_ip (protected_ips p))),
        (''protected_networks'', sorted_strs (map show_net (protected_networks p))),
        (''protected_hosts'', sorted_strs (remdups (protected_hosts p))),
        (''allowed_isolation_hosts'', sorted_strs (remdups (allowed_isolation_hosts p)))]),
     (''block_private_ip_targets'', PBool (block_private_ip_targets p)),
     (''rate_limit'', PDict [(''max_actions'', PInt (max_actions rl)), (''window_seconds'', PInt (window_seconds rl))]),
     (''dedup_seconds'', PInt dedup),
     (''command_valid_for_seconds'', PInt valid),
     (''evidence_max_age_seconds'', PInt age)]"

definition bind_safeguards :: "prims \<Rightarrow> pyval \<Rightarrow> response_policy \<Rightarrow> response_policy" where
  "bind_safeguards pr safeguards rule = rule\<lparr>p_sha256 := sha256_hex pr (PDict [
     (''rule_sha256'', PStr (p_sha256 rule)), (''safeguards'', safeguards)])\<rparr>"

definition policy_catalog_from_mapping :: "prims \<Rightarrow> pyval \<Rightarrow> policy_catalog res" where
  "policy_catalog_from_mapping pr value =
     bindR (require_mapping value) (\<lambda>data.
     bindR (guardR (exact_keys data [''schema_version'', ''defaults'', ''policies''])
       (PolicyError ''policy document must contain only schema_version, defaults, and policies'')) (\<lambda>_.
     bindR (guardR (pget data ''schema_version'' = PStr ''response-policy-set-v1'')
       (PolicyError ''unsupported response policy schema version'')) (\<lambda>_.
     bindR (require_mapping (pget data ''defaults'')) (\<lambda>defaults.
     bindR (guardR (exact_keys defaults [''protections'', ''rate_limit'', ''dedup_seconds'',
         ''command_valid_for_seconds'', ''evidence_max_age_seconds''])
       (PolicyError ''defaults has unsupported or missing fields'')) (\<lambda>_.
     bindR (require_positive_int (pget defaults ''dedup_seconds'') 60) (\<lambda>dedup.
     bindR (require_positive_int (pget defaults ''command_valid_for_seconds'') 30) (\<lambda>valid.
     bindR (guardR (valid \<le> 900) (PolicyError ''defaults.command_valid_for_seconds must be <= 900'')) (\<lambda>_.
     bindR (require_positive_int (pget defaults ''evidence_max_age_seconds'') 30) (\<lambda>age.
     bindR (guardR (age \<le> 86400) (PolicyError ''defaults.evidence_max_age_seconds must be <= 86400'')) (\<lambda>_.
     bindR (protection_policy_from_mapping (pget defaults ''protections'')) (\<lambda>protections.
     bindR (rate_limit_from_mapping (pget defaults ''rate_limit'')) (\<lambda>rl.
     bindR (guardR (is_list (pget data ''policies'') \<and> elements (pget data ''policies'') \<noteq> [])
       (PolicyError ''policies must be a non-empty list'')) (\<lambda>_.
     bindR (mapR (response_policy_from_mapping pr) (elements (pget data ''policies''))) (\<lambda>rules.
     let policies = map (bind_safeguards pr (safeguard_material protections rl dedup valid age)) rules in
     bindR (guardR (distinct (map p_id policies)) (PolicyError ''policy identifiers must be unique'')) (\<lambda>_.
     Inr \<lparr>c_protections = protections, c_rate_limit = rl, c_dedup_seconds = dedup,
       c_command_valid_for_seconds = valid, c_evidence_max_age_seconds = age,
       c_policies = map (\<lambda>p. (p_id p, p)) policies\<rparr>)))))))))))))))"

definition catalog_policy :: "policy_catalog \<Rightarrow> string \<Rightarrow> response_policy res" where
  "catalog_policy c policy_id = (case dict_get (c_policies c) policy_id of
     None \<Rightarrow> Inl (PolicyError ''unknown response policy'') | Some p \<Rightarrow> Inr p)"

section \<open>What a loaded catalog guarantees\<close>

definition wf_requirement :: "signal_requirement \<Rightarrow> bool" where
  "wf_requirement r = (r_kind r \<in> set SUPPORTED_SIGNAL_TYPES \<and>
     (case r_min_severity r of None \<Rightarrow> True | Some i \<Rightarrow> 0 \<le> i) \<and>
     (case r_min_count r of None \<Rightarrow> True | Some i \<Rightarrow> 1 \<le> i))"

definition wf_policy :: "response_policy \<Rightarrow> bool" where
  "wf_policy p = (p_id p \<noteq> [] \<and> p_action p \<in> set SUPPORTED_ACTIONS \<and>
     60 \<le> p_ttl_seconds p \<and> p_ttl_seconds p \<le> 86400 \<and>
     float_0_9 \<le> p_min_ai_score p \<and> p_min_ai_score p \<le> 1 \<and>
     p_require_any p \<noteq> [] \<and> list_all wf_requirement (p_require_any p))"

definition wf_catalog :: "policy_catalog \<Rightarrow> bool" where
  "wf_catalog c = (c_policies c \<noteq> [] \<and> distinct (dict_keys (c_policies c)) \<and>
     list_all (\<lambda>(k, p). k = p_id p \<and> wf_policy p) (c_policies c) \<and>
     60 \<le> c_dedup_seconds c \<and> 30 \<le> c_command_valid_for_seconds c \<and> c_command_valid_for_seconds c \<le> 900 \<and>
     30 \<le> c_evidence_max_age_seconds c \<and> c_evidence_max_age_seconds c \<le> 86400 \<and>
     1 \<le> max_actions (c_rate_limit c) \<and> 1 \<le> window_seconds (c_rate_limit c))"

lemma signal_requirement_wf:
  "signal_requirement_from_mapping v = Inr r \<Longrightarrow> wf_requirement r"
  by (auto simp: signal_requirement_from_mapping_def wf_requirement_def optional_int_def
      res_success split: if_splits option.splits)

lemma score_threshold_bounds:
  "score_threshold v = Inr r \<Longrightarrow> float_0_9 \<le> r \<and> r \<le> 1"
  by (auto simp: score_threshold_def Let_def split: pyval.splits pyfloat.splits if_splits)

lemma response_policy_wf:
  assumes "response_policy_from_mapping pr v = Inr p"
  shows "wf_policy p"
proof -
  obtain ident act ttl score reqs vs where
    p: "p_id p = ident" "p_action p = act" "p_ttl_seconds p = ttl" "p_min_ai_score p = score"
      "p_require_any p = reqs"
    and "ident \<noteq> []" "act \<in> set SUPPORTED_ACTIONS" "60 \<le> ttl" "ttl \<le> 86400"
      "float_0_9 \<le> score \<and> score \<le> 1" "vs \<noteq> []"
    and reqs: "mapR signal_requirement_from_mapping vs = Inr reqs"
    using assms unfolding response_policy_from_mapping_def
    by (auto simp: res_success require_string_Inr dest: score_threshold_bounds)
  moreover have "reqs \<noteq> []" using mapR_length [OF reqs] \<open>vs \<noteq> []\<close> by auto
  moreover have "list_all wf_requirement reqs"
    using mapR_member [OF reqs] by (auto simp: list_all_iff intro: signal_requirement_wf)
  ultimately show ?thesis by (simp add: wf_policy_def)
qed

lemma bind_safeguards_wf [simp]: "wf_policy (bind_safeguards pr s p) = wf_policy p"
  "p_id (bind_safeguards pr s p) = p_id p"
  by (simp_all add: bind_safeguards_def wf_policy_def)

lemma rate_limit_wf:
  "rate_limit_from_mapping v = Inr r \<Longrightarrow> 1 \<le> max_actions r \<and> 1 \<le> window_seconds r"
  by (auto simp: rate_limit_from_mapping_def res_success)

lemma rules_wf:
  assumes "mapR (response_policy_from_mapping pr) vs = Inr rules"
  shows "(vs \<noteq> [] \<longrightarrow> rules \<noteq> []) \<and> (\<forall>p \<in> set rules. wf_policy p)"
  using mapR_length [OF assms] mapR_member [OF assms] by (auto intro: response_policy_wf)

lemma policy_catalog_wf:
  "policy_catalog_from_mapping pr v = Inr c \<Longrightarrow> wf_catalog c"
  unfolding policy_catalog_from_mapping_def Let_def
  by (clarsimp simp: res_success wf_catalog_def list_all_iff comp_def dest!: rules_wf rate_limit_wf)

lemma wf_catalog_policy:
  "wf_catalog c \<Longrightarrow> catalog_policy c i = Inr p \<Longrightarrow> wf_policy p \<and> p_id p = i"
  by (auto simp: wf_catalog_def catalog_policy_def list_all_iff split: option.splits dest!: map_of_SomeD)

section \<open>What an allowed target is\<close>

lemma assert_block_ip_iff:
  "assert_target_allowed p ''block_ip'' ty val = Inr () \<longleftrightarrow>
     ty = ''ip'' \<and> (\<exists>a. ip_address val = Some a \<and> \<not> special_use a \<and> \<not> is_reserved a \<and>
       \<not> (block_private_ip_targets p \<and> is_private a) \<and>
       a \<notin> set (allowlisted_ips p) \<and> \<not> in_any a (allowlisted_networks p) \<and>
       a \<notin> set (protected_ips p) \<and> \<not> in_any a (protected_networks p))"
  by (auto simp: assert_target_allowed_def split: option.splits)

lemma assert_isolate_host_iff:
  "assert_target_allowed p ''isolate_host'' ty val = Inr () \<longleftrightarrow>
     ty = ''host'' \<and> strip val \<noteq> [] \<and> lower (strip val) \<notin> set (protected_hosts p) \<and>
     lower (strip val) \<in> set (allowed_isolation_hosts p)"
  by (auto simp: assert_target_allowed_def require_string_def Let_def bindR_def)

lemma assert_target_action:
  "assert_target_allowed p act ty val = Inr () \<Longrightarrow> act = ''block_ip'' \<or> act = ''isolate_host''"
  by (auto simp: assert_target_allowed_def split: if_splits)

lemma assert_target_only_policy_error:
  "assert_target_allowed p act ty val = Inl e \<Longrightarrow> \<exists>m. e = PolicyError m"
  by (auto simp: assert_target_allowed_def require_string_def Let_def bindR_def
      split: if_splits option.splits)

end
