(* ===== verification/Decision.thy ===== *)
theory Decision
  imports Policy Timestamps
begin

text \<open>
  \<^verbatim>\<open>response/decision.py\<close>: the correlation-gated decision engine. \<open>evaluate\<close> validates an anomaly, its
  corroborating signals and the target, applies the policy, and returns a decision event and, only
  when everything holds, an action request and a signed command. It has no side effects; the signing
  function of the authenticator is a parameter.
\<close>

section \<open>Identifiers and the signed payload\<close>

definition make_identifier :: "prims \<Rightarrow> string \<Rightarrow> pyval \<Rightarrow> string" where
  "make_identifier pr prefix material = prefix @ ''-'' @ take 24 (sha256_hex pr material)"

text \<open>Every command field except the signature itself is signed.\<close>

definition signature_payload :: "prims \<Rightarrow> pyval \<Rightarrow> string res" where
  "signature_payload pr command = (case pget command ''authorization'' of
     PDict auth \<Rightarrow> Inr (canonical_json pr (PDict (AList.update ''authorization''
       (PDict (AList.delete ''signature'' auth)) (entries command))))
   | _ \<Rightarrow> Inl (CorrelationRejected ''response command is missing authorization''))"

section \<open>Validation of the evidence\<close>

record anomaly =
  a_event_id :: string
  a_model_id :: string
  a_score :: rat
  a_threshold :: rat
  a_is_anomaly :: bool
  a_observed_at :: string
  a_target :: target

definition finite_number :: "pyval \<Rightarrow> rat res" where
  "finite_number v = (case v of
     PInt i \<Rightarrow> if float_overflows i then Inl (CorrelationRejected ''must be a finite number'') else Inr (of_int i)
   | PFloat (Fin r) \<Rightarrow> Inr r
   | _ \<Rightarrow> Inl (CorrelationRejected ''must be a finite number''))"

definition validate_target :: "pyval \<Rightarrow> target res" where
  "validate_target value =
     bindR (guardR (is_mapping value) (CorrelationRejected ''target must be an object'')) (\<lambda>_.
     bindR (guardR (exact_keys value [''type'', ''value''])
       (CorrelationRejected ''target must contain only type and value'')) (\<lambda>_.
     (case (pget value ''type'', pget value ''value'') of
        (PStr ty, PStr val) \<Rightarrow>
          if (ty \<noteq> ''ip'' \<and> ty \<noteq> ''host'') \<or> strip val = [] \<or> 255 < length (strip val)
          then Inl (CorrelationRejected ''target must contain a supported type and non-empty value'')
          else if ty = ''ip'' then
            (case ip_address (strip val) of
               None \<Rightarrow> Inl (CorrelationRejected ''IP target must be a valid IPv4 or IPv6 address'')
             | Some a \<Rightarrow> Inr \<lparr>t_type = ty, t_value = show_ip a\<rparr>)
          else Inr \<lparr>t_type = ty, t_value = lower (strip val)\<rparr>
      | _ \<Rightarrow> Inl (CorrelationRejected ''target must contain a supported type and non-empty value''))))"

definition validate_anomaly :: "pyval \<Rightarrow> anomaly res" where
  "validate_anomaly value =
     bindR (guardR (is_mapping value) (CorrelationRejected ''anomaly must be an object'')) (\<lambda>_.
     bindR (guardR (nonempty_str (pget value ''event_id'')) (CorrelationRejected ''anomaly.event_id is required'')) (\<lambda>_.
     bindR (guardR (nonempty_str (pget value ''model_id'')) (CorrelationRejected ''anomaly.model_id is required'')) (\<lambda>_.
     bindR (finite_number (pget value ''score'')) (\<lambda>score.
     bindR (guardR (0 \<le> score \<and> score \<le> 1) (CorrelationRejected ''anomaly.score must be between 0 and 1'')) (\<lambda>_.
     bindR (finite_number (pget value ''threshold'')) (\<lambda>threshold.
     bindR (guardR (0 \<le> threshold \<and> threshold \<le> 1)
       (CorrelationRejected ''anomaly.threshold must be between 0 and 1'')) (\<lambda>_.
     (case pget value ''is_anomaly'' of
        PBool flag \<Rightarrow>
          bindR (guardR (flag = (threshold \<le> score))
            (CorrelationRejected ''anomaly flag disagrees with score and model threshold'')) (\<lambda>_.
          bindR (parse_rfc3339 CorrelationRejected (pget value ''observed_at'')) (\<lambda>observed.
          bindR (validate_target (pget value ''target'')) (\<lambda>t.
          Inr \<lparr>a_event_id = sget value ''event_id'', a_model_id = sget value ''model_id'',
            a_score = score, a_threshold = threshold, a_is_anomaly = flag,
            a_observed_at = rfc3339 observed, a_target = t\<rparr>)))
      | _ \<Rightarrow> Inl (CorrelationRejected ''anomaly.is_anomaly must be boolean'')))))))))"

definition optional_number :: "pyval \<Rightarrow> string \<Rightarrow> rat option res" where
  "optional_number sig field = (if has_key sig field
     then bindR (finite_number (pget sig field)) (\<lambda>n.
       bindR (guardR (0 \<le> n) (CorrelationRejected ''cannot be negative'')) (\<lambda>_. Inr (Some n)))
     else Inr None)"

definition whole :: "rat option \<Rightarrow> int option res" where
  "whole n = (case n of None \<Rightarrow> Inr None
     | Some r \<Rightarrow> if r = of_int \<lfloor>r\<rfloor> then Inr (Some \<lfloor>r\<rfloor>) else Inl (CorrelationRejected ''must be an integer''))"

text \<open>One signal; \<open>seen\<close> holds the references of the earlier ones.\<close>

definition validate_signal :: "string list \<Rightarrow> pyval \<Rightarrow> signal res" where
  "validate_signal seen sig =
     bindR (guardR (is_mapping sig) (CorrelationRejected ''must be an object'')) (\<lambda>_.
     bindR (guardR (no_unknown sig [''type'', ''reference'', ''severity'', ''count'', ''observed_at'', ''confidence'', ''target''])
       (CorrelationRejected ''has unsupported fields'')) (\<lambda>_.
     bindR (guardR (pget sig ''type'' \<noteq> PStr ''ai'') (CorrelationRejected ''AI output cannot corroborate itself'')) (\<lambda>_.
     bindR (guardR (pget sig ''type'' \<in> PStr ` set SUPPORTED_SIGNAL_TYPES)
       (CorrelationRejected ''has an unsupported type'')) (\<lambda>_.
     bindR (guardR (nonempty_str (pget sig ''reference'') \<and> strip (sget sig ''reference'') \<noteq> [])
       (CorrelationRejected ''reference is required'')) (\<lambda>_.
     bindR (parse_rfc3339 CorrelationRejected (pget sig ''observed_at'')) (\<lambda>observed.
     let ref = strip (sget sig ''reference'') in
     bindR (guardR (ref \<notin> set seen) (CorrelationRejected ''duplicate corroborating signal'')) (\<lambda>_.
     bindR (validate_target (pget sig ''target'')) (\<lambda>t.
     bindR (bindR (optional_number sig ''severity'') whole) (\<lambda>sev.
     bindR (bindR (optional_number sig ''count'') whole) (\<lambda>cnt.
     bindR (optional_number sig ''confidence'') (\<lambda>conf.
     bindR (guardR (case conf of None \<Rightarrow> True | Some c \<Rightarrow> c \<le> 1) (CorrelationRejected ''confidence cannot exceed 1'')) (\<lambda>_.
     Inr \<lparr>s_type = sget sig ''type'', s_reference = ref, s_observed_at = rfc3339 observed, s_target = t,
       s_severity = sev, s_count = cnt, s_confidence = conf\<rparr>))))))))))))"

fun validate_signals :: "string list \<Rightarrow> pyval list \<Rightarrow> signal list res" where
  "validate_signals seen [] = Inr []"
| "validate_signals seen (v # vs) =
     bindR (validate_signal seen v) (\<lambda>s.
     bindR (validate_signals (s_reference s # seen) vs) (\<lambda>ss. Inr (s # ss)))"

definition signal_key :: "signal \<Rightarrow> string \<times> string" where
  "signal_key s = (s_type s, s_reference s)"

definition validate_independent_signals :: "pyval \<Rightarrow> signal list res" where
  "validate_independent_signals value =
     bindR (guardR (is_list value) (CorrelationRejected ''independent_signals must be a list'')) (\<lambda>_.
     bindR (validate_signals [] (elements value)) (\<lambda>ss. Inr (sort_key signal_key ss)))"

section \<open>The policy test\<close>

text \<open>\<^verbatim>\<open>f"{x:.2f}"\<close> for a number between 0 and 99: rounding half to even on the exact value.\<close>

definition fixed2 :: "rat \<Rightarrow> string" where
  "fixed2 r = (let x = 100 * r; f = \<lfloor>x\<rfloor>; d = x - of_int f;
     n = (if d < 1 / 2 \<or> d = 1 / 2 \<and> even f then f else f + 1)
     in show_nat (nat (n div 100)) @ ''.'' @ show2 (n mod 100))"

definition MAX_SKEW :: int where
  "MAX_SKEW = seconds 60"

fun stale_evidence :: "int \<Rightarrow> int \<Rightarrow> string list \<Rightarrow> string option res" where
  "stale_evidence oldest latest [] = Inr None"
| "stale_evidence oldest latest (o_at # rest) =
     bindR (parse_rfc3339 CorrelationRejected (PStr o_at)) (\<lambda>observed.
       if observed < oldest then Inr (Some ''evidence is older than the active correlation freshness limit'')
       else if latest < observed then Inr (Some ''evidence timestamp exceeds the allowed future clock skew'')
       else stale_evidence oldest latest rest)"

definition rejection_reason ::
  "policy_catalog \<Rightarrow> response_policy \<Rightarrow> anomaly \<Rightarrow> signal list \<Rightarrow> target \<Rightarrow> int \<Rightarrow> string option res" where
  "rejection_reason cat pol a ss t now =
     bindR (stale_evidence (now - seconds (c_evidence_max_age_seconds cat)) (now + MAX_SKEW)
       (a_observed_at a # map s_observed_at ss)) (\<lambda>stale.
     case stale of Some r \<Rightarrow> Inr (Some r)
     | None \<Rightarrow>
        if \<not> a_is_anomaly a then Inr (Some ''AI event is not marked anomalous'')
        else if a_score a < p_min_ai_score pol
        then Inr (Some (''AI score below policy threshold '' @ fixed2 (p_min_ai_score pol)))
        else if \<not> list_ex (\<lambda>r. list_ex (matches r) ss) (p_require_any pol)
        then Inr (Some ''no independent corroborating signal satisfied the policy'')
        else (case assert_target_allowed (c_protections cat) (p_action pol) (t_type t) (t_value t) of
            Inl (PolicyError m) \<Rightarrow> Inr (Some (''target protection rejected the response: '' @ m))
          | Inl e \<Rightarrow> Inl e
          | Inr _ \<Rightarrow> Inr None))"

section \<open>Documents\<close>

definition target_json :: "target \<Rightarrow> pyval" where
  "target_json t = PDict [(''type'', PStr (t_type t)), (''value'', PStr (t_value t))]"

definition signal_json :: "signal \<Rightarrow> pyval" where
  "signal_json s = PDict ([(''type'', PStr (s_type s)), (''reference'', PStr (s_reference s)),
     (''observed_at'', PStr (s_observed_at s)), (''target'', target_json (s_target s))]
     @ (case s_severity s of None \<Rightarrow> [] | Some i \<Rightarrow> [(''severity'', PInt i)])
     @ (case s_count s of None \<Rightarrow> [] | Some i \<Rightarrow> [(''count'', PInt i)])
     @ (case s_confidence s of None \<Rightarrow> [] | Some r \<Rightarrow> [(''confidence'', PFloat (Fin r))]))"

definition policy_json :: "response_policy \<Rightarrow> pyval" where
  "policy_json p = PDict [(''id'', PStr (p_id p)), (''version'', PStr (p_version p)), (''sha256'', PStr (p_sha256 p))]"

definition signal_kind :: "string \<Rightarrow> string" where
  "signal_kind ty = (if ty = ''suricata'' then ''suricata_alert'' else if ty = ''wazuh'' then ''wazuh_alert''
     else if ty = ''authentication'' then ''authentication_failures''
     else if ty = ''threat_intel'' then ''threat_intel_match''
     else if ty = ''protected_asset'' then ''protected_asset_context'' else ''honeypot_interaction'')"

definition decision_event ::
  "response_policy \<Rightarrow> anomaly \<Rightarrow> signal list \<Rightarrow> target \<Rightarrow> string \<Rightarrow> string \<Rightarrow> int \<Rightarrow> string \<Rightarrow> string \<Rightarrow>
   bool \<Rightarrow> string option \<Rightarrow> string \<Rightarrow> pyval" where
  "decision_event pol a ss t decision_event_id correlation timestamp outcome action eligible request_id reason = PDict [
     (''@timestamp'', PStr (rfc3339 timestamp)),
     (''schema_version'', PStr ''correlation-decision-event-v1''),
     (''event'', PDict [(''id'', PStr decision_event_id), (''kind'', PStr ''event''),
        (''category'', PList [PStr ''correlation'']), (''dataset'', PStr ''soc.correlation.decision'')]),
     (''correlation_id'', PStr correlation),
     (''anomaly'', PDict [(''event_id'', PStr (a_event_id a)), (''model_id'', PStr (a_model_id a)),
        (''score'', PFloat (Fin (a_score a))), (''threshold'', PFloat (Fin (a_threshold a))),
        (''is_anomaly'', PBool (a_is_anomaly a))]),
     (''signals'', PList (PDict [(''kind'', PStr ''ai_anomaly''), (''reference'', PStr (a_event_id a)),
          (''observed_at'', PStr (a_observed_at a)), (''confidence'', PFloat (Fin (a_score a)))]
        # map (\<lambda>s. PDict ([(''kind'', PStr (signal_kind (s_type s))), (''reference'', PStr (s_reference s)),
            (''observed_at'', PStr (s_observed_at s))]
            @ (case s_confidence s of None \<Rightarrow> [] | Some r \<Rightarrow> [(''confidence'', PFloat (Fin r))]))) ss)),
     (''policy'', policy_json pol),
     (''target'', target_json t),
     (''decision'', PDict ([(''outcome'', PStr outcome), (''action'', PStr action),
        (''automatic_response_eligible'', PBool eligible)]
        @ (case request_id of None \<Rightarrow> [] | Some r \<Rightarrow> [(''response_request_id'', PStr r)])
        @ [(''confidence'', PFloat (Fin (a_score a))), (''reason'', PStr reason)]))]"

record decision_result =
  d_eligible :: bool
  d_reason :: string
  d_event :: "pyval option"
  d_action_request :: "pyval option"
  d_command :: "pyval option"

record engine =
  e_prims :: prims
  e_catalog :: policy_catalog
  e_key_id :: string
  e_sign :: "pyval \<Rightarrow> string res"

definition decision_material :: "response_policy \<Rightarrow> anomaly \<Rightarrow> signal list \<Rightarrow> target \<Rightarrow> pyval" where
  "decision_material pol a ss t = PDict [(''policy_id'', PStr (p_id pol)), (''policy_sha256'', PStr (p_sha256 pol)),
     (''anomaly_event_id'', PStr (a_event_id a)), (''target'', target_json t),
     (''signals'', PList (map signal_json ss))]"

definition request_material :: "string \<Rightarrow> response_policy \<Rightarrow> anomaly \<Rightarrow> signal list \<Rightarrow> target \<Rightarrow> pyval" where
  "request_material decision_event_id pol a ss t = PDict [(''decision_event_id'', PStr decision_event_id),
     (''policy_sha256'', PStr (p_sha256 pol)), (''target'', target_json t),
     (''anomaly_event_id'', PStr (a_event_id a)), (''signals'', PList (map signal_json ss))]"

definition resolve_correlation :: "prims \<Rightarrow> pyval \<Rightarrow> pyval \<Rightarrow> string res" where
  "resolve_correlation pr material correlation_id = (
     let c = (if correlation_id = PNone then PStr (make_identifier pr ''cor'' material) else correlation_id) in
     case c of PStr s \<Rightarrow> (if strip s = [] \<or> 256 < length (strip s)
         then Inl (CorrelationRejected ''correlation_id must be a non-empty string up to 256 characters'')
         else Inr (strip s))
     | _ \<Rightarrow> Inl (CorrelationRejected ''correlation_id must be a non-empty string up to 256 characters''))"

definition authorization_json :: "string \<Rightarrow> int \<Rightarrow> int \<Rightarrow> (string \<times> pyval) list" where
  "authorization_json key_id issued expires = [(''issuer'', PStr ''decision_engine''), (''key_id'', PStr key_id),
     (''issued_at'', PStr (rfc3339 issued)), (''expires_at'', PStr (rfc3339 expires))]"

definition command_json ::
  "string \<Rightarrow> string \<Rightarrow> string \<Rightarrow> response_policy \<Rightarrow> target \<Rightarrow> string \<Rightarrow> (string \<times> pyval) list \<Rightarrow> pyval" where
  "command_json request_id decision_event_id correlation pol t idempotency_key auth = PDict [
     (''schema_version'', PStr ''response-command-v1''),
     (''request_id'', PStr request_id),
     (''decision_event_id'', PStr decision_event_id),
     (''correlation_id'', PStr correlation),
     (''policy'', policy_json pol),
     (''target'', target_json t),
     (''action'', PStr (p_action pol)),
     (''ttl_seconds'', PInt (p_ttl_seconds pol)),
     (''allowlist_checked'', PBool True),
     (''rollback_required'', PBool True),
     (''idempotency_key'', PStr idempotency_key),
     (''authorization'', PDict auth)]"

definition action_request_json ::
  "string \<Rightarrow> string \<Rightarrow> response_policy \<Rightarrow> anomaly \<Rightarrow> signal list \<Rightarrow> target \<Rightarrow> string \<Rightarrow> int \<Rightarrow> pyval" where
  "action_request_json correlation decision_event_id pol a ss t idempotency_key timestamp = PDict [
     (''schema_version'', PStr ''response-request-v1''), (''correlation_id'', PStr correlation),
     (''decision_event_id'', PStr decision_event_id), (''policy_id'', PStr (p_id pol)),
     (''policy_sha256'', PStr (p_sha256 pol)), (''idempotency_key'', PStr idempotency_key),
     (''issued_by'', PStr ''decision_engine''),
     (''entity'', PDict [(''type'', PStr (t_type t)), (''id'', PStr (t_value t))]),
     (''action'', PStr (p_action pol)),
     (''reason'', PStr ''hybrid correlation: anomaly plus independent corroboration''),
     (''ai_score'', PFloat (Fin (a_score a))), (''model_id'', PStr (a_model_id a)),
     (''signals'', PList (PDict [(''type'', PStr ''ai''), (''reference'', PStr (a_event_id a))]
        # map (\<lambda>s. PDict [(''type'', PStr (s_type s)), (''reference'', PStr (s_reference s))]) ss)),
     (''ttl_seconds'', PInt (p_ttl_seconds pol)), (''allowlist_checked'', PBool True),
     (''rollback_required'', PBool True), (''requested_at'', PStr (rfc3339 timestamp))]"

section \<open>The engine\<close>

text \<open>The consistency of the evidence: one target, and no signal that is the AI event itself.\<close>

fun check_bindings :: "anomaly \<Rightarrow> target \<Rightarrow> signal list \<Rightarrow> unit res" where
  "check_bindings a t [] = Inr ()"
| "check_bindings a t (s # ss) =
     bindR (guardR (s_target s = t) (CorrelationRejected ''corroborating signal target differs from the response target'')) (\<lambda>_.
     bindR (guardR (s_reference s \<noteq> a_event_id a)
       (CorrelationRejected ''AI output cannot corroborate itself under another signal type'')) (\<lambda>_.
     check_bindings a t ss))"

text \<open>The second half of \<^verbatim>\<open>evaluate\<close>: the request for evidence that passed the policy.\<close>

definition issue_command ::
  "engine \<Rightarrow> response_policy \<Rightarrow> anomaly \<Rightarrow> signal list \<Rightarrow> target \<Rightarrow> string \<Rightarrow> string \<Rightarrow> int \<Rightarrow> decision_result res" where
  "issue_command e pol a ss t decision_event_id correlation timestamp = (
     let pr = e_prims e;
         material = request_material decision_event_id pol a ss t;
         request_id = make_identifier pr ''req'' material;
         key = ''idemp-'' @ sha256_hex pr material;
         auth = authorization_json (e_key_id e) timestamp
           (timestamp + seconds (c_command_valid_for_seconds (e_catalog e)));
         command = command_json request_id decision_event_id correlation pol t key auth
     in bindR (e_sign e command) (\<lambda>sig.
        Inr \<lparr>d_eligible = True, d_reason = ''hybrid policy conditions satisfied'',
          d_event = Some (decision_event pol a ss t decision_event_id correlation timestamp
            ''response_requested'' (p_action pol) True (Some request_id) ''hybrid policy conditions satisfied''),
          d_action_request = Some (action_request_json correlation decision_event_id pol a ss t key timestamp),
          d_command = Some (command_json request_id decision_event_id correlation pol t key
            (auth @ [(''signature'', PStr sig)]))\<rparr>))"

definition evaluate ::
  "engine \<Rightarrow> string \<Rightarrow> pyval \<Rightarrow> pyval \<Rightarrow> pyval \<Rightarrow> int \<Rightarrow> datetime option \<Rightarrow> pyval \<Rightarrow> decision_result res" where
  "evaluate e policy_id anomaly independent_signals target clock now correlation_id =
     bindR (catalog_policy (e_catalog e) policy_id) (\<lambda>pol.
     bindR (as_utc CorrelationRejected clock now) (\<lambda>timestamp.
     bindR (validate_anomaly anomaly) (\<lambda>a.
     bindR (validate_target target) (\<lambda>t.
     bindR (validate_independent_signals independent_signals) (\<lambda>ss.
     bindR (guardR (a_target a = t) (CorrelationRejected ''anomaly target differs from the requested response target'')) (\<lambda>_.
     bindR (check_bindings a t ss) (\<lambda>_.
     if ss = [] then Inr \<lparr>d_eligible = False,
       d_reason = ''anomaly-only evidence is alert-only and cannot request containment'',
       d_event = None, d_action_request = None, d_command = None\<rparr>
     else
       (let material = decision_material pol a ss t;
            decision_event_id = make_identifier (e_prims e) ''dec'' material
        in bindR (resolve_correlation (e_prims e) material correlation_id) (\<lambda>correlation.
           bindR (rejection_reason (e_catalog e) pol a ss t timestamp) (\<lambda>rejection.
           case rejection of
             Some r \<Rightarrow>
               (let outcome = (if starts_with ''target protection'' r then ''denied''
                  else if a_is_anomaly a then ''alert'' else ''store_only'')
                in Inr \<lparr>d_eligible = False, d_reason = r,
                  d_event = Some (decision_event pol a ss t decision_event_id correlation timestamp
                    outcome ''none'' False None r),
                  d_action_request = None, d_command = None\<rparr>)
           | None \<Rightarrow> issue_command e pol a ss t decision_event_id correlation timestamp))))))))))"

section \<open>Facts about the validated evidence\<close>

lemma validate_signal_props:
  assumes "validate_signal seen v = Inr s"
  shows "s_type s \<in> set SUPPORTED_SIGNAL_TYPES" "s_reference s \<noteq> []" "s_reference s \<notin> set seen"
  using assms unfolding validate_signal_def Let_def
  by (auto simp: res_success sget_def)

text \<open>The earlier references only matter for the duplicate test.\<close>

lemma validate_signal_seen:
  "validate_signal seen v = Inr s \<longleftrightarrow> validate_signal [] v = Inr s \<and> s_reference s \<notin> set seen"
  unfolding validate_signal_def Let_def by (auto simp: res_success)

lemma validate_signals_iff:
  "validate_signals seen vs = Inr ss \<longleftrightarrow>
     mapR (validate_signal []) vs = Inr ss \<and> distinct (map s_reference ss) \<and>
     set (map s_reference ss) \<inter> set seen = {}"
proof (induction vs arbitrary: seen ss)
  case Nil
  then show ?case by auto
next
  case (Cons v vs)
  have disj: "r \<notin> S \<and> distinct R \<and> set R \<inter> insert r S = {} \<longleftrightarrow> distinct (r # R) \<and> set (r # R) \<inter> S = {}"
    for r :: string and R S by auto
  show ?case
  proof (cases "validate_signal [] v")
    case (Inr s)
    show ?thesis
      using disj [of "s_reference s" "set seen" "map s_reference (tl ss)"]
      by (cases "mapR (validate_signal []) vs"; cases ss)
        (auto simp: bindR_eq_Inr Cons.IH validate_signal_seen [of seen] Inr simp del: set_map)
  qed (simp add: bindR_eq_Inr validate_signal_seen [of seen])
qed

lemma validate_independent_signals_perm:
  assumes "validate_independent_signals (PList vs) = Inr ss" and "mset vs = mset vs'"
  shows "validate_independent_signals (PList vs') = Inr ss"
proof -
  obtain us where us: "mapR (validate_signal []) vs = Inr us" "distinct (map s_reference us)"
    and ss: "ss = sort_key signal_key us"
    using assms(1) by (auto simp: validate_independent_signals_def bindR_eq_Inr validate_signals_iff)
  obtain us' where us': "mapR (validate_signal []) vs' = Inr us'" "mset us' = mset us"
    using mapR_perm [OF us(1) assms(2)] by blast
  have "mset (map s_reference us') = mset (map s_reference us)" using us'(2) by simp
  then have d: "distinct (map s_reference us')" using us(2) mset_eq_imp_distinct_iff by blast
  then have "inj_on signal_key (set us')"
    by (auto simp: signal_key_def distinct_map inj_on_def)
  then have "sort_key signal_key us' = sort_key signal_key us"
    using us'(2) by (intro sort_key_inj_key_eq) simp_all
  moreover have "validate_signals [] vs' = Inr us'"
    using us'(1) d by (simp add: validate_signals_iff)
  ultimately show ?thesis using ss by (simp add: validate_independent_signals_def)
qed

lemma validated_signals:
  assumes "validate_independent_signals v = Inr ss" and "s \<in> set ss"
  shows "s_type s \<in> set SUPPORTED_SIGNAL_TYPES" "s_reference s \<noteq> []"
  using assms
  by (auto simp: validate_independent_signals_def bindR_eq_Inr validate_signals_iff
      dest!: mapR_member dest: validate_signal_props)

lemma check_bindings_iff:
  "check_bindings a t ss = Inr u \<longleftrightarrow> (\<forall>s \<in> set ss. s_target s = t \<and> s_reference s \<noteq> a_event_id a)"
  by (induction ss) (auto simp: res_success)

lemma stale_evidence_fresh:
  "stale_evidence lo hi os = Inr None \<longleftrightarrow>
     (\<forall>w \<in> set os. \<exists>t. parse_rfc3339 CorrelationRejected (PStr w) = Inr t \<and> lo \<le> t \<and> t \<le> hi)"
proof (induction os)
  case (Cons w os)
  show ?case
  proof (cases "parse_rfc3339 CorrelationRejected (PStr w)")
    case (Inr t)
    then show ?thesis using Cons.IH by (cases "t < lo"; cases "hi < t") (auto simp: not_less)
  qed simp
qed simp

lemma rejection_reason_None:
  assumes "rejection_reason cat pol a ss t now = Inr None"
  shows "a_is_anomaly a" "p_min_ai_score pol \<le> a_score a"
    "\<exists>r \<in> set (p_require_any pol). \<exists>s \<in> set ss. matches r s"
    "assert_target_allowed (c_protections cat) (p_action pol) (t_type t) (t_value t) = Inr ()"
    "stale_evidence (now - seconds (c_evidence_max_age_seconds cat)) (now + MAX_SKEW)
       (a_observed_at a # map s_observed_at ss) = Inr None"
  using assms unfolding rejection_reason_def
  by (auto simp: bindR_eq_Inr list_ex_iff split: option.splits if_splits sum.splits exn.splits)

section \<open>The shape of a decision\<close>

lemma issue_command_Inr:
  assumes "issue_command e pol a ss t did cor ts = Inr r"
  obtains sig where
    "e_sign e (command_json (make_identifier (e_prims e) ''req'' (request_material did pol a ss t)) did cor pol t
       (''idemp-'' @ sha256_hex (e_prims e) (request_material did pol a ss t))
       (authorization_json (e_key_id e) ts (ts + seconds (c_command_valid_for_seconds (e_catalog e))))) = Inr sig"
    "d_eligible r"
    "d_command r = Some (command_json (make_identifier (e_prims e) ''req'' (request_material did pol a ss t)) did cor pol t
       (''idemp-'' @ sha256_hex (e_prims e) (request_material did pol a ss t))
       (authorization_json (e_key_id e) ts (ts + seconds (c_command_valid_for_seconds (e_catalog e)))
         @ [(''signature'', PStr sig)]))"
  using assms unfolding issue_command_def Let_def by (auto simp: bindR_eq_Inr)

text \<open>A command exists only on the path that passed every test.\<close>

lemma evaluate_command:
  assumes "evaluate e pid anomaly signals target clock now cid = Inr r" and "d_command r = Some cmd"
  obtains pol ts a t ss cor where
    "catalog_policy (e_catalog e) pid = Inr pol" "as_utc CorrelationRejected clock now = Inr ts"
    "validate_anomaly anomaly = Inr a" "validate_target target = Inr t"
    "validate_independent_signals signals = Inr ss" "a_target a = t"
    "check_bindings a t ss = Inr ()" "ss \<noteq> []"
    "resolve_correlation (e_prims e) (decision_material pol a ss t) cid = Inr cor"
    "rejection_reason (e_catalog e) pol a ss t ts = Inr None"
    "issue_command e pol a ss t (make_identifier (e_prims e) ''dec'' (decision_material pol a ss t)) cor ts = Inr r"
proof -
  have none: "(Inr \<lparr>d_eligible = b, d_reason = m, d_event = ev, d_action_request = q, d_command = None\<rparr> = Inr r) = False"
    for b m ev q using assms(2) by auto
  show thesis
    using assms(1) unfolding evaluate_def Let_def
    apply (elim bind_guardR_InrE bindR_InrE)
    subgoal for pol ts a t ss u
      apply (cases "ss = []")
       apply (simp only: if_True none refl)
      apply (simp only: if_False)
      apply (elim bindR_InrE)
      subgoal for cor rej
        apply (cases rej)
         apply (simp only: option.case)
         apply (rule that [of pol ts a t ss cor]; simp)
        apply (simp only: option.case none)
        done
      done
    done
qed

lemma evaluate_perm:
  assumes "evaluate e pid anomaly (PList vs) target clock now cid = Inr r" and "mset vs = mset vs'"
  shows "evaluate e pid anomaly (PList vs') target clock now cid = Inr r"
proof -
  obtain ss where ss: "validate_independent_signals (PList vs) = Inr ss"
    using assms(1) unfolding evaluate_def by (auto simp: res_success)
  have "validate_independent_signals (PList vs') = Inr ss"
    using validate_independent_signals_perm [OF ss assms(2)] .
  then show ?thesis using assms(1) ss unfolding evaluate_def by simp
qed

end
