(* ===== verification/Signing.thy ===== *)
theory Signing
  imports Decision
begin

text \<open>
  Command authentication: the reference \<^verbatim>\<open>HmacCommandAuthenticator\<close> of \<^verbatim>\<open>response/decision.py\<close> and
  the \<^verbatim>\<open>Ed25519CommandAuthenticator\<close> of \<^verbatim>\<open>response/signing.py\<close>, with the unpadded URL-safe base64 both
  use. HMAC-SHA-256 and Ed25519 are code of the \<^verbatim>\<open>cryptography\<close> and \<^verbatim>\<open>hashlib\<close> packages: they are
  fields of the authenticator records, and what is assumed of them (digest and signature lengths, and
  that a public key accepts the signatures of its own private key) is part of the predicates
  \<open>hmac_ready\<close> and \<open>ed_ready\<close>. Byte strings are strings of 8-bit characters.

  The locales \<open>command_verifier\<close> and \<open>command_authenticator\<close> state the contract of the
  \<^verbatim>\<open>CommandAuthenticator\<close> protocol the orchestrator and the decision engine rely on; both
  implementations are shown to meet it.
\<close>

section \<open>Unpadded URL-safe base64\<close>

definition b64_alphabet :: string where
  "b64_alphabet = ''ABCDEFGHIJKLMNOPQRSTUVWXYZabcdefghijklmnopqrstuvwxyz0123456789-_''"

definition b64_char :: "nat \<Rightarrow> char" where
  "b64_char n = b64_alphabet ! n"

fun position :: "char \<Rightarrow> string \<Rightarrow> nat option" where
  "position c [] = None"
| "position c (x # xs) = (if x = c then Some 0 else map_option Suc (position c xs))"

definition b64_value :: "char \<Rightarrow> nat option" where
  "b64_value c = position c b64_alphabet"

fun sextets :: "nat list \<Rightarrow> nat list" where
  "sextets (a # b # c # rest) =
     (a div 4) # ((a mod 4) * 16 + b div 16) # ((b mod 16) * 4 + c div 64) # (c mod 64) # sextets rest"
| "sextets [a, b] = [a div 4, (a mod 4) * 16 + b div 16, (b mod 16) * 4]"
| "sextets [a] = [a div 4, (a mod 4) * 16]"
| "sextets [] = []"

text \<open>A group of one character encodes no byte: \<^verbatim>\<open>binascii.Error\<close>, a \<^verbatim>\<open>ValueError\<close>.\<close>

fun octets :: "nat list \<Rightarrow> nat list option" where
  "octets (w # x # y # z # rest) = map_option
     (\<lambda>bs. (w * 4 + x div 16) # ((x mod 16) * 16 + y div 4) # ((y mod 4) * 64 + z) # bs) (octets rest)"
| "octets [w, x, y] = Some [w * 4 + x div 16, (x mod 16) * 16 + y div 4]"
| "octets [w, x] = Some [w * 4 + x div 16]"
| "octets [w] = None"
| "octets [] = Some []"

definition b64 :: "string \<Rightarrow> string" where
  "b64 data = map b64_char (sextets (map of_char data))"

fun values_of :: "string \<Rightarrow> nat list option" where
  "values_of [] = Some []"
| "values_of (c # cs) = (case (b64_value c, values_of cs) of (Some v, Some vs) \<Rightarrow> Some (v # vs) | _ \<Rightarrow> None)"

text \<open>Callers pass only strings over the alphabet (the signature pattern is tested first).\<close>

definition unb64 :: "string \<Rightarrow> string res" where
  "unb64 value = (case Option.bind (values_of value) octets of
     None \<Rightarrow> Inl (ValueError ''invalid base64'') | Some bs \<Rightarrow> Inr (map char_of bs))"

text \<open>The patterns \<^verbatim>\<open>[A-Za-z0-9_-]{n}\<close> and \<^verbatim>\<open>[A-Za-z0-9._-]{1,128}\<close>.\<close>

definition signature_form :: "nat \<Rightarrow> string \<Rightarrow> bool" where
  "signature_form n s = (length s = n \<and> list_all (\<lambda>c. c \<in> set b64_alphabet) s)"

definition key_id_form :: "string \<Rightarrow> bool" where
  "key_id_form s = (s \<noteq> [] \<and> length s \<le> 128 \<and> list_all (\<lambda>c. c \<in> set (CHR ''.'' # b64_alphabet)) s)"

section \<open>The HMAC reference authenticator\<close>

record hmac_auth =
  h_prims :: prims
  h_digest :: "string \<Rightarrow> string \<Rightarrow> string"
  h_keys :: "string dict"
  h_signing_key_id :: string

definition hmac_init :: "prims \<Rightarrow> (string \<Rightarrow> string \<Rightarrow> string) \<Rightarrow> string dict \<Rightarrow> string \<Rightarrow> hmac_auth res" where
  "hmac_init pr hmac_sha256 keys signing_key_id =
     bindR (guardR (keys \<noteq> [] \<and> signing_key_id \<in> set (dict_keys keys))
       (ValueError ''a non-empty key ring and known signing key are required'')) (\<lambda>_.
     bindR (guardR (list_all (\<lambda>k. 32 \<le> length k) (dict_values keys))
       (ValueError ''command-authentication keys must be at least 32 bytes'')) (\<lambda>_.
     Inr \<lparr>h_prims = pr, h_digest = hmac_sha256, h_keys = keys, h_signing_key_id = signing_key_id\<rparr>))"

definition hmac_sign :: "hmac_auth \<Rightarrow> pyval \<Rightarrow> string res" where
  "hmac_sign A command = (case dict_get (h_keys A) (h_signing_key_id A) of
     None \<Rightarrow> Inl (KeyErr (h_signing_key_id A))
   | Some key \<Rightarrow> bindR (signature_payload (h_prims A) command) (\<lambda>payload. Inr (b64 (h_digest A key payload))))"

text \<open>
  The last part of the two \<^verbatim>\<open>verify\<close> methods, the validity interval; the Ed25519 one reads the clock
  only after the order of the two instants has been tested.
\<close>

definition hmac_check_interval :: "pyval \<Rightarrow> int \<Rightarrow> datetime option \<Rightarrow> unit res" where
  "hmac_check_interval authorization clock now =
     bindR (parse_rfc3339 CorrelationRejected (pget authorization ''issued_at'')) (\<lambda>issued_at.
     bindR (parse_rfc3339 CorrelationRejected (pget authorization ''expires_at'')) (\<lambda>expires_at.
     bindR (as_utc CorrelationRejected clock now) (\<lambda>current.
     guardR (issued_at < expires_at \<and> current < expires_at)
       (CorrelationRejected ''response command authorization is expired''))))"

definition check_interval :: "pyval \<Rightarrow> int \<Rightarrow> datetime option \<Rightarrow> unit res" where
  "check_interval authorization clock now =
     bindR (parse_rfc3339 CorrelationRejected (pget authorization ''issued_at'')) (\<lambda>issued_at.
     bindR (parse_rfc3339 CorrelationRejected (pget authorization ''expires_at'')) (\<lambda>expires_at.
     bindR (guardR (issued_at < expires_at) (CorrelationRejected ''response command authorization is expired'')) (\<lambda>_.
     bindR (as_utc CorrelationRejected clock now) (\<lambda>current.
     guardR (current < expires_at) (CorrelationRejected ''response command authorization is expired'')))))"

definition hmac_verify :: "hmac_auth \<Rightarrow> int \<Rightarrow> pyval \<Rightarrow> datetime option \<Rightarrow> unit res" where
  "hmac_verify A clock command now = (
     let authorization = pget command ''authorization''; signature = pget authorization ''signature'' in
     bindR (guardR (is_mapping authorization) (CorrelationRejected ''response command has no authorization'')) (\<lambda>_.
     (case Option.bind (as_str (pget authorization ''key_id'')) (dict_get (h_keys A)) of
        None \<Rightarrow> Inl (CorrelationRejected ''response command uses an unknown authorization key'')
      | Some key \<Rightarrow>
          bindR (guardR (case signature of PStr s \<Rightarrow> signature_form 43 s | _ \<Rightarrow> False)
            (CorrelationRejected ''response command has an invalid authorization signature'')) (\<lambda>_.
          bindR (signature_payload (h_prims A) command) (\<lambda>payload.
          bindR (guardR (signature = PStr (b64 (h_digest A key payload)))
            (CorrelationRejected ''response command signature verification failed'')) (\<lambda>_.
          hmac_check_interval authorization clock now))))))"

section \<open>The Ed25519 authenticator\<close>

record ed_prims =
  ed_sign :: "string \<Rightarrow> string \<Rightarrow> string"
  ed_public :: "string \<Rightarrow> string"
  ed_verify :: "string \<Rightarrow> string \<Rightarrow> string \<Rightarrow> bool"

record ed_auth =
  x_prims :: prims
  x_ed :: ed_prims
  x_ring :: "string dict"
  x_signing_key :: "string option"
  x_signing_key_id :: "string option"

definition ed_init ::
  "prims \<Rightarrow> ed_prims \<Rightarrow> string dict \<Rightarrow> string option \<Rightarrow> string option \<Rightarrow> ed_auth res" where
  "ed_init pr ed verify_keys signing_key signing_key_id =
     bindR (guardR (verify_keys \<noteq> [] \<and> list_all key_id_form (dict_keys verify_keys))
       (ValueError ''a non-empty ring of valid key IDs is required'')) (\<lambda>_.
     bindR (guardR ((signing_key = None) = (signing_key_id = None))
       (ValueError ''signing_key and signing_key_id must be supplied together'')) (\<lambda>_.
     bindR (guardR (case signing_key_id of None \<Rightarrow> True | Some k \<Rightarrow> k \<in> set (dict_keys verify_keys))
       (ValueError ''the signing key ID must be a member of the key ring'')) (\<lambda>_.
     Inr \<lparr>x_prims = pr, x_ed = ed, x_ring = verify_keys, x_signing_key = signing_key,
       x_signing_key_id = signing_key_id\<rparr>)))"

text \<open>\<^verbatim>\<open>signer\<close>: a ring that holds only the public half of its own key.\<close>

definition ed_signer :: "prims \<Rightarrow> ed_prims \<Rightarrow> string \<Rightarrow> string \<Rightarrow> ed_auth res" where
  "ed_signer pr ed key key_id = ed_init pr ed [(key_id, ed_public ed key)] (Some key) (Some key_id)"

text \<open>
  \<^verbatim>\<open>load_key_ring\<close> on the \<^verbatim>\<open>*.pub\<close> files of the directory, each with its stem and the result of
  \<^verbatim>\<open>load_public_key\<close>; names that are no key identifiers are skipped.
\<close>

fun ring_of :: "(string \<times> string res) list \<Rightarrow> string dict res" where
  "ring_of [] = Inr []"
| "ring_of ((stem, key) # files) = (if key_id_form stem
     then bindR key (\<lambda>k. bindR (ring_of files) (\<lambda>ring. Inr ((stem, k) # ring)))
     else ring_of files)"

definition load_key_ring :: "(string \<times> string res) list \<Rightarrow> string dict res" where
  "load_key_ring files = bindR (ring_of (sort_key fst files)) (\<lambda>ring.
     if ring = [] then Inl (ValueError ''the verification key ring is empty'') else Inr ring)"

definition ed_verifier :: "prims \<Rightarrow> ed_prims \<Rightarrow> (string \<times> string res) list \<Rightarrow> ed_auth res" where
  "ed_verifier pr ed files = bindR (load_key_ring files) (\<lambda>ring. ed_init pr ed ring None None)"

definition ed_sign_command :: "ed_auth \<Rightarrow> pyval \<Rightarrow> string res" where
  "ed_sign_command A command = (case x_signing_key A of
     None \<Rightarrow> Inl (CorrelationRejected ''this authenticator has no signing key'')
   | Some key \<Rightarrow> bindR (signature_payload (x_prims A) command) (\<lambda>payload. Inr (b64 (ed_sign (x_ed A) key payload))))"

definition ed_verify_command :: "ed_auth \<Rightarrow> int \<Rightarrow> pyval \<Rightarrow> datetime option \<Rightarrow> unit res" where
  "ed_verify_command A clock command now = (
     let authorization = pget command ''authorization''; signature = pget authorization ''signature'' in
     bindR (guardR (is_mapping authorization) (CorrelationRejected ''response command has no authorization'')) (\<lambda>_.
     (case Option.bind (as_str (pget authorization ''key_id'')) (dict_get (x_ring A)) of
        None \<Rightarrow> Inl (CorrelationRejected ''response command uses an unknown authorization key'')
      | Some key \<Rightarrow>
          bindR (guardR (case signature of PStr s \<Rightarrow> signature_form 86 s | _ \<Rightarrow> False)
            (CorrelationRejected ''response command has an invalid authorization signature'')) (\<lambda>_.
          bindR (tryR (bindR (unb64 (sget authorization ''signature'')) (\<lambda>raw.
                 bindR (signature_payload (x_prims A) command) (\<lambda>payload.
                 guardR (ed_verify (x_ed A) key raw payload) (ValueError ''InvalidSignature''))))
               (\<lambda>e. case e of ValueError m \<Rightarrow> Inl (CorrelationRejected ''response command signature verification failed'')
                 | _ \<Rightarrow> Inl e)) (\<lambda>_.
          check_interval authorization clock now)))))"

section \<open>Base64 round trip\<close>

lemma b64_alphabet_values: "list_all (\<lambda>n. b64_value (b64_char n) = Some n \<and> b64_char n \<in> set b64_alphabet) [0..<64]"
  by code_simp

lemma b64_char_value: "n < 64 \<Longrightarrow> b64_value (b64_char n) = Some n"
  and b64_char_alphabet: "n < 64 \<Longrightarrow> b64_char n \<in> set b64_alphabet"
  using b64_alphabet_values by (simp_all add: list_all_iff)

lemma values_of_map: "list_all (\<lambda>n. n < 64) ns \<Longrightarrow> values_of (map b64_char ns) = Some ns"
  by (induction ns) (simp_all add: b64_char_value)

lemma sextets_bound: "list_all (\<lambda>b. b < 256) bs \<Longrightarrow> list_all (\<lambda>n. n < 64) (sextets bs)"
  by (induction bs rule: sextets.induct) auto

lemma octets_sextets: "list_all (\<lambda>b. b < 256) bs \<Longrightarrow> octets (sextets bs) = Some bs"
  by (induction bs rule: sextets.induct) auto

lemma length_sextets: "length (sextets bs) = (4 * length bs + 2) div 3"
  by (induction bs rule: sextets.induct) auto

lemma char_bytes: "list_all (\<lambda>b. b < 256) (map (of_char :: char \<Rightarrow> nat) s)"
  by (simp add: list_all_iff)

lemma unb64_b64 [simp]: "unb64 (b64 s) = Inr s"
  using values_of_map [OF sextets_bound [OF char_bytes [of s]]] octets_sextets [OF char_bytes [of s]]
  by (simp add: unb64_def b64_def comp_def)

lemma b64_form: "length s = n \<Longrightarrow> (4 * n + 2) div 3 = m \<Longrightarrow> signature_form m (b64 s)"
  using sextets_bound [OF char_bytes [of s]]
  by (auto simp: signature_form_def b64_def length_sextets list_all_iff b64_char_alphabet)

section \<open>The contract of an authenticator\<close>

text \<open>What the orchestrator relies on when it re-checks a command, at the instant \<open>t\<close>.\<close>

locale command_verifier =
  fixes verify :: "pyval \<Rightarrow> int \<Rightarrow> unit res"
  assumes verify_error: "verify c t = Inl e \<Longrightarrow> e = OverflowErr \<or> (\<exists>m. e = CorrelationRejected m)"
    and verify_interval: "verify c t = Inr () \<Longrightarrow> \<exists>i x.
      parse_rfc3339 CorrelationRejected (pget (pget c ''authorization'') ''issued_at'') = Inr i \<and>
      parse_rfc3339 CorrelationRejected (pget (pget c ''authorization'') ''expires_at'') = Inr x \<and> i < x \<and> t < x"
    and verify_earlier: "verify c t = Inr () \<Longrightarrow> s \<le> t \<Longrightarrow> verify c s = Inr ()"
begin

text \<open>No authorization is accepted at or after its expiry.\<close>

lemma verify_not_later:
  "verify c t = Inr () \<Longrightarrow>
   parse_rfc3339 CorrelationRejected (pget (pget c ''authorization'') ''expires_at'') = Inr x \<Longrightarrow> x \<le> s \<Longrightarrow>
   verify c s \<noteq> Inr ()"
  using verify_interval [of c s] by auto

end

text \<open>What the decision engine relies on: the verifier accepts what the signer signed.\<close>

locale command_authenticator = command_verifier verify
  for verify :: "pyval \<Rightarrow> int \<Rightarrow> unit res" +
  fixes ready :: "string \<Rightarrow> bool" and sign :: "pyval \<Rightarrow> string res"
  assumes sign_verify: "ready key_id \<Longrightarrow> sign (PDict kvs) = Inr sig \<Longrightarrow>
    map_of kvs ''authorization'' = Some (PDict auth) \<Longrightarrow> map_of auth ''key_id'' = Some (PStr key_id) \<Longrightarrow>
    ''signature'' \<notin> set (dict_keys auth) \<Longrightarrow>
    parse_rfc3339 CorrelationRejected (pget (PDict auth) ''issued_at'') = Inr i \<Longrightarrow>
    parse_rfc3339 CorrelationRejected (pget (PDict auth) ''expires_at'') = Inr x \<Longrightarrow> i < x \<Longrightarrow> t < x \<Longrightarrow>
    verify (PDict (dict_set ''authorization'' (PDict (auth @ [(''signature'', PStr sig)])) kvs)) t = Inr ()"

lemma dict_set_set [simp]: "dict_set k v (dict_set k w d) = dict_set k v d"
  by (induction d) auto

lemma delete_snoc: "k \<notin> set (dict_keys d) \<Longrightarrow> AList.delete k (d @ [(k, v)]) = d"
  by (induction d) auto

lemma delete_absent: "k \<notin> set (dict_keys d) \<Longrightarrow> AList.delete k d = d"
  by (induction d) auto

text \<open>Adding the signature does not change the text that is signed.\<close>

lemma signature_payload_signed:
  assumes "map_of kvs ''authorization'' = Some (PDict auth)" and "''signature'' \<notin> set (dict_keys auth)"
  shows "signature_payload pr (PDict (dict_set ''authorization'' (PDict (auth @ [(''signature'', v)])) kvs)) =
    signature_payload pr (PDict kvs)"
  using assms by (simp add: signature_payload_def delete_snoc delete_absent)

lemma interval_iff:
  "check_interval auth clk (Some (Aware t)) = Inr u \<longleftrightarrow> (\<exists>i x.
     parse_rfc3339 CorrelationRejected (pget auth ''issued_at'') = Inr i \<and>
     parse_rfc3339 CorrelationRejected (pget auth ''expires_at'') = Inr x \<and> i < x \<and> t < x)"
  "hmac_check_interval auth clk (Some (Aware t)) = Inr u \<longleftrightarrow> check_interval auth clk (Some (Aware t)) = Inr u"
  by (auto simp: check_interval_def hmac_check_interval_def as_utc_def res_success)

definition hmac_ready :: "hmac_auth \<Rightarrow> string \<Rightarrow> bool" where
  "hmac_ready A key_id \<longleftrightarrow> key_id = h_signing_key_id A \<and> (\<forall>k m. length (h_digest A k m) = 32)"

definition ed_ready :: "ed_auth \<Rightarrow> string \<Rightarrow> bool" where
  "ed_ready A key_id \<longleftrightarrow> (\<exists>sk. x_signing_key A = Some sk \<and>
     dict_get (x_ring A) key_id = Some (ed_public (x_ed A) sk) \<and>
     (\<forall>m. length (ed_sign (x_ed A) sk m) = 64 \<and> ed_verify (x_ed A) (ed_public (x_ed A) sk) (ed_sign (x_ed A) sk m) m))"

section \<open>Both implementations meet the contract\<close>

lemma parse_rfc3339_raises [intro]: "raises_only (insert OverflowErr (range mk)) (parse_rfc3339 mk v)"
  by (auto simp: parse_rfc3339_def raises_only_def split: pyval.splits option.splits datetime.splits if_splits)

lemma as_utc_raises [intro]: "raises_only (insert OverflowErr (range mk)) (as_utc mk clk now)"
  by (auto simp: as_utc_def raises_only_def split: option.splits datetime.splits)

abbreviation rejections :: "exn set" where
  "rejections \<equiv> insert OverflowErr (range CorrelationRejected)"

lemma signature_payload_raises [intro]: "raises_only rejections (signature_payload pr c)"
  by (auto simp: signature_payload_def raises_only_def split: pyval.splits)

lemma interval_raises [intro]:
  "raises_only rejections (check_interval auth clk now)"
  "raises_only rejections (hmac_check_interval auth clk now)"
  by (auto simp: check_interval_def hmac_check_interval_def intro!: raises_only_intros)

lemma hmac_verify_raises: "raises_only rejections (hmac_verify A clk c now)"
  unfolding hmac_verify_def Let_def
  by (auto intro!: raises_only_intros split: option.splits)

lemma ed_verify_command_raises: "raises_only rejections (ed_verify_command A clk c now)"
proof -
  have "raises_only rejections (tryR (bindR (unb64 s) (\<lambda>raw.
      bindR (signature_payload pr c) (\<lambda>payload. guardR (f raw payload) (ValueError m))))
      (\<lambda>e. case e of ValueError _ \<Rightarrow> Inl (CorrelationRejected m') | _ \<Rightarrow> Inl e))" for s pr f m m'
    using signature_payload_raises [of pr c]
    by (cases "unb64 s"; cases "signature_payload pr c")
       (auto simp: raises_only_def tryR_def guardR_def unb64_def split: option.splits exn.splits)
  then show ?thesis
    unfolding ed_verify_command_def Let_def
    by (auto intro!: raises_only_intros split: option.splits)
qed

lemma hmac_verify_iff:
  "hmac_verify A clk c now = Inr u \<longleftrightarrow> (\<exists>auth kid key payload.
     pget c ''authorization'' = PDict auth \<and> pget (PDict auth) ''key_id'' = PStr kid \<and>
     dict_get (h_keys A) kid = Some key \<and> signature_payload (h_prims A) c = Inr payload \<and>
     pget (PDict auth) ''signature'' = PStr (b64 (h_digest A key payload)) \<and>
     signature_form 43 (b64 (h_digest A key payload)) \<and> hmac_check_interval (PDict auth) clk now = Inr ())"
  unfolding hmac_verify_def Let_def
  by (cases "pget c ''authorization''")
     (auto simp: res_success bind_eq_Some_conv split: option.splits pyval.splits elim!: as_str.elims)

lemma ed_verify_command_iff:
  "ed_verify_command A clk c now = Inr u \<longleftrightarrow> (\<exists>auth kid key payload s raw.
     pget c ''authorization'' = PDict auth \<and> pget (PDict auth) ''key_id'' = PStr kid \<and>
     dict_get (x_ring A) kid = Some key \<and> signature_payload (x_prims A) c = Inr payload \<and>
     pget (PDict auth) ''signature'' = PStr s \<and> signature_form 86 s \<and> unb64 s = Inr raw \<and>
     ed_verify (x_ed A) key raw payload \<and> check_interval (PDict auth) clk now = Inr ())"
proof -
  have "tryR m (\<lambda>e. case e of ValueError _ \<Rightarrow> Inl (CorrelationRejected w) | _ \<Rightarrow> Inl e) = Inr y \<longleftrightarrow> m = Inr y"
    for m :: "unit res" and w y by (cases m) (auto split: exn.splits)
  then show ?thesis
    unfolding ed_verify_command_def Let_def
    by (cases "pget c ''authorization''")
       (auto simp: res_success bind_eq_Some_conv sget_def split: option.splits pyval.splits elim!: as_str.elims)
qed

lemma signed_entries:
  assumes "map_of kvs ''authorization'' = Some (PDict auth)" and "''signature'' \<notin> set (dict_keys auth)"
  shows "pget (PDict (dict_set ''authorization'' (PDict (auth @ [(''signature'', v)])) kvs)) ''authorization'' =
      PDict (auth @ [(''signature'', v)])"
    and "pget (PDict (auth @ [(''signature'', v)])) ''signature'' = v"
    and "k \<noteq> ''signature'' \<Longrightarrow> pget (PDict (auth @ [(''signature'', v)])) k = pget (PDict auth) k"
  using assms by (simp_all add: map_add_def map_of_eq_None_iff [THEN iffD2] split: option.splits)

interpretation hm: command_authenticator "\<lambda>c t. hmac_verify A clk c (Some (Aware t))" "hmac_ready A" "hmac_sign A"
  for A clk
proof unfold_locales
  show "hmac_verify A clk c (Some (Aware t)) = Inl e \<Longrightarrow> e = OverflowErr \<or> (\<exists>m. e = CorrelationRejected m)" for c t e
    using hmac_verify_raises [of A clk c "Some (Aware t)"] by (auto simp: raises_only_def)
  show "hmac_verify A clk c (Some (Aware t)) = Inr () \<Longrightarrow> \<exists>i x.
      parse_rfc3339 CorrelationRejected (pget (pget c ''authorization'') ''issued_at'') = Inr i \<and>
      parse_rfc3339 CorrelationRejected (pget (pget c ''authorization'') ''expires_at'') = Inr x \<and> i < x \<and> t < x" for c t
    by (auto simp: hmac_verify_iff interval_iff)
  show "hmac_verify A clk c (Some (Aware t)) = Inr () \<Longrightarrow> s \<le> t \<Longrightarrow> hmac_verify A clk c (Some (Aware s)) = Inr ()" for c t s
    by (fastforce simp: hmac_verify_iff interval_iff)
next
  fix key_id kvs sig auth i x t
  assume ready: "hmac_ready A key_id" and sig: "hmac_sign A (PDict kvs) = Inr sig"
    and auth: "map_of kvs ''authorization'' = Some (PDict auth)" "map_of auth ''key_id'' = Some (PStr key_id)"
      "''signature'' \<notin> set (dict_keys auth)"
    and times: "parse_rfc3339 CorrelationRejected (pget (PDict auth) ''issued_at'') = Inr i"
      "parse_rfc3339 CorrelationRejected (pget (PDict auth) ''expires_at'') = Inr x" "i < x" "t < x"
  obtain key payload where "dict_get (h_keys A) key_id = Some key"
      "signature_payload (h_prims A) (PDict kvs) = Inr payload" "sig = b64 (h_digest A key payload)"
    using sig ready by (auto simp: hmac_sign_def hmac_ready_def bindR_eq_Inr split: option.splits)
  then show "hmac_verify A clk (PDict (dict_set ''authorization'' (PDict (auth @ [(''signature'', PStr sig)])) kvs))
      (Some (Aware t)) = Inr ()"
    using ready auth times b64_form [of "h_digest A key payload" 32 43]
    by (simp add: hmac_verify_iff interval_iff signed_entries signature_payload_signed hmac_ready_def del: pget_PDict)
       (simp add: pget_def)
qed

interpretation ed: command_authenticator "\<lambda>c t. ed_verify_command A clk c (Some (Aware t))" "ed_ready A" "ed_sign_command A"
  for A clk
proof unfold_locales
  show "ed_verify_command A clk c (Some (Aware t)) = Inl e \<Longrightarrow> e = OverflowErr \<or> (\<exists>m. e = CorrelationRejected m)" for c t e
    using ed_verify_command_raises [of A clk c "Some (Aware t)"] by (auto simp: raises_only_def)
  show "ed_verify_command A clk c (Some (Aware t)) = Inr () \<Longrightarrow> \<exists>i x.
      parse_rfc3339 CorrelationRejected (pget (pget c ''authorization'') ''issued_at'') = Inr i \<and>
      parse_rfc3339 CorrelationRejected (pget (pget c ''authorization'') ''expires_at'') = Inr x \<and> i < x \<and> t < x" for c t
    by (auto simp: ed_verify_command_iff interval_iff)
  show "ed_verify_command A clk c (Some (Aware t)) = Inr () \<Longrightarrow> s \<le> t \<Longrightarrow> ed_verify_command A clk c (Some (Aware s)) = Inr ()" for c t s
    by (fastforce simp: ed_verify_command_iff interval_iff)
next
  fix key_id kvs sig auth i x t
  assume ready: "ed_ready A key_id" and sig: "ed_sign_command A (PDict kvs) = Inr sig"
    and auth: "map_of kvs ''authorization'' = Some (PDict auth)" "map_of auth ''key_id'' = Some (PStr key_id)"
      "''signature'' \<notin> set (dict_keys auth)"
    and times: "parse_rfc3339 CorrelationRejected (pget (PDict auth) ''issued_at'') = Inr i"
      "parse_rfc3339 CorrelationRejected (pget (PDict auth) ''expires_at'') = Inr x" "i < x" "t < x"
  obtain sk payload where "x_signing_key A = Some sk"
      "signature_payload (x_prims A) (PDict kvs) = Inr payload" "sig = b64 (ed_sign (x_ed A) sk payload)"
    using sig by (auto simp: ed_sign_command_def bindR_eq_Inr split: option.splits)
  then show "ed_verify_command A clk (PDict (dict_set ''authorization'' (PDict (auth @ [(''signature'', PStr sig)])) kvs))
      (Some (Aware t)) = Inr ()"
    using ready auth times b64_form [of "ed_sign (x_ed A) sk payload" 64 86]
    by (simp add: ed_verify_command_iff interval_iff signed_entries signature_payload_signed ed_ready_def del: pget_PDict)
       (simp add: pget_def)
qed

end
