(* ===== verification/Adapters.thy ===== *)
theory Adapters
  imports Ipaddr
begin

text \<open>
  \<^verbatim>\<open>response/adapters\<close>: the constrained adapters, over an arbitrary world \<open>'w\<close> (the firewalls, the
  Wazuh manager, their network). A client of the world is a record of functions that return a reply
  or an exception together with the new world; nothing is assumed of the clients.

  An adapter method returns an \<open>adapter_reply\<close>: an \<^verbatim>\<open>AdapterOutcome\<close>, or \<open>Malformed\<close> for anything
  else a foreign implementation could return. The locale \<open>containment_adapter\<close> is the part of the
  \<^verbatim>\<open>ContainmentAdapter\<close> protocol the orchestrator counts on; the adapters meet it for any client.
\<close>

section \<open>The adapter protocol\<close>

record adapter_outcome =
  oc_ok :: bool
  oc_reference :: "string option"
  oc_evidence :: "string list"
  oc_code :: "string option"
  oc_message :: "string option"

definition outcome_success :: "string \<Rightarrow> string list \<Rightarrow> adapter_outcome" where
  "outcome_success reference refs = \<lparr>oc_ok = True, oc_reference = Some reference, oc_evidence = refs,
     oc_code = None, oc_message = None\<rparr>"

definition outcome_failure :: "string \<Rightarrow> string \<Rightarrow> string list \<Rightarrow> adapter_outcome" where
  "outcome_failure code message refs = \<lparr>oc_ok = False, oc_reference = None, oc_evidence = refs,
     oc_code = Some code, oc_message = Some message\<rparr>"

datatype adapter_reply = Outcome adapter_outcome | Malformed

record 'w adapter =
  ad_name :: string
  ad_action :: string
  ad_recovery_reference :: "pyval \<Rightarrow> string res"
  ad_apply :: "pyval \<Rightarrow> ('w, adapter_reply) ex"
  ad_verify :: "pyval \<Rightarrow> string \<Rightarrow> ('w, adapter_reply) ex"
  ad_revert :: "pyval \<Rightarrow> string \<Rightarrow> ('w, adapter_reply) ex"

text \<open>\<^verbatim>\<open>str.upper\<close> on ASCII.\<close>

definition upper :: "string \<Rightarrow> string" where
  "upper s = map (\<lambda>c. let n = of_char c :: nat in if 97 \<le> n \<and> n \<le> 122 then char_of (n - 32) else c) s"

section \<open>The blocklist adapter\<close>

record 'w blocklist_client =
  cl_add :: "string \<Rightarrow> string \<Rightarrow> int option \<Rightarrow> ('w, string) ex"
  cl_remove :: "string \<Rightarrow> string \<Rightarrow> ('w, string) ex"
  cl_contains :: "string \<Rightarrow> ('w, pyval) ex"

record 'w peer =
  pe_name :: string
  pe_client :: "'w blocklist_client"

definition SOC_BLOCKLIST_ALIAS :: string where
  "SOC_BLOCKLIST_ALIAS = ''SOC_BLOCKLIST''"

definition BACKSTOP_GRACE_SECONDS :: int where
  "BACKSTOP_GRACE_SECONDS = 300"

definition command_address :: "pyval \<Rightarrow> string res" where
  "command_address command = (let tgt = pget command ''target'' in
     if pget command ''action'' \<noteq> PStr ''block_ip'' \<or> \<not> is_mapping tgt \<or> pget tgt ''type'' \<noteq> PStr ''ip''
     then Inl (ValueError ''firewall adapters accept only block_ip commands for IP targets'')
     else (case pget tgt ''value'' of
         PStr v \<Rightarrow> (case ip_address v of None \<Rightarrow> Inl (ValueError ''does not appear to be an IPv4 or IPv6 address'')
           | Some a \<Rightarrow> Inr (show_ip a))
       | _ \<Rightarrow> Inl (ValueError ''firewall target must be a string IP address'')))"

definition command_key :: "pyval \<Rightarrow> string res" where
  "command_key command = (case pget command ''idempotency_key'' of
     PStr k \<Rightarrow> (if k = [] then Inl (ValueError ''firewall command has no idempotency key'') else Inr k)
   | _ \<Rightarrow> Inl (ValueError ''firewall command has no idempotency key''))"

definition command_lifetime :: "pyval \<Rightarrow> int option" where
  "command_lifetime command = (case pget command ''ttl_seconds'' of
     PInt ttl \<Rightarrow> (if ttl \<le> 0 then None else Some (ttl + BACKSTOP_GRACE_SECONDS)) | _ \<Rightarrow> None)"

definition evidence_ref :: "string \<Rightarrow> 'w peer \<Rightarrow> string \<Rightarrow> string \<Rightarrow> string" where
  "evidence_ref nm p op reference =
     nm @ '':'' @ pe_name p @ '':'' @ SOC_BLOCKLIST_ALIAS @ '':'' @ op @ '':'' @ reference"

definition released_without_removal :: "string \<Rightarrow> bool" where
  "released_without_removal reference = (starts_with ''shared:'' reference \<or> starts_with ''preexisting:'' reference)"

definition blocklist_reference :: "string \<Rightarrow> pyval \<Rightarrow> string res" where
  "blocklist_reference nm command =
     bindR (command_address command) (\<lambda>_. bindR (command_key command) (\<lambda>key.
     Inr (nm @ ''-ha:'' @ SOC_BLOCKLIST_ALIAS @ '':'' @ key)))"

text \<open>
  The loop of \<^verbatim>\<open>apply\<close>: it stops at the first exception and says how many peers it has touched,
  the one in flight included.
\<close>

fun add_peers :: "string \<Rightarrow> string \<Rightarrow> string \<Rightarrow> int option \<Rightarrow> 'w peer list \<Rightarrow> 'w \<Rightarrow>
  bool \<times> 'w peer list \<times> string list \<times> 'w" where
  "add_peers nm address key life [] w = (True, [], [], w)"
| "add_peers nm address key life (p # ps) w =
     (case cl_add (pe_client p) address key life w of
        (Inl e, w1) \<Rightarrow> (False, [p], [], w1)
      | (Inr peer_ref, w1) \<Rightarrow>
          (case cl_contains (pe_client p) address w1 of
             (Inl e, w2) \<Rightarrow> (False, [p], [evidence_ref nm p ''add'' peer_ref], w2)
           | (Inr present, w2) \<Rightarrow>
               if present \<noteq> PBool True then (False, [p], [evidence_ref nm p ''add'' peer_ref], w2)
               else (case add_peers nm address key life ps w2 of (ok, applied, refs, w3) \<Rightarrow>
                 (ok, p # applied, evidence_ref nm p ''add'' peer_ref
                    # evidence_ref nm p ''membership'' SOC_BLOCKLIST_ALIAS # refs, w3))))"

fun rollback_peers :: "string \<Rightarrow> string \<Rightarrow> string \<Rightarrow> 'w peer list \<Rightarrow> 'w \<Rightarrow> string list \<times> 'w" where
  "rollback_peers nm address key [] w = ([], w)"
| "rollback_peers nm address key (p # ps) w =
     (case cl_remove (pe_client p) address key w of (r, w1) \<Rightarrow>
        let ref = (case r of Inr reference \<Rightarrow> evidence_ref nm p ''compensate'' reference
              | Inl e \<Rightarrow> nm @ '':'' @ pe_name p @ '':'' @ SOC_BLOCKLIST_ALIAS @ '':compensate:failed'')
        in (case rollback_peers nm address key ps w1 of (refs, w2) \<Rightarrow> (ref # refs, w2)))"

definition blocklist_apply :: "string \<Rightarrow> 'w peer list \<Rightarrow> pyval \<Rightarrow> ('w, adapter_reply) ex" where
  "blocklist_apply nm peers command w = (
     case bindR (command_address command) (\<lambda>a. bindR (command_key command) (\<lambda>k. Inr (a, k))) of
       Inl e \<Rightarrow> (Inl e, w)
     | Inr (address, key) \<Rightarrow>
         (case add_peers nm address key (command_lifetime command) peers w of (ok, applied, refs, w1) \<Rightarrow>
            if ok then (bindR (blocklist_reference nm command) (\<lambda>r. Inr (Outcome (outcome_success r refs))), w1)
            else (case rollback_peers nm address key (rev applied) w1 of (back, w2) \<Rightarrow>
              (Inr (Outcome (outcome_failure (upper nm @ ''_HA_APPLY_FAILED'')
                 ''SOC_BLOCKLIST apply failed; applied peers were reverted where possible'' (refs @ back))), w2))))"

fun verify_peers :: "string \<Rightarrow> string \<Rightarrow> 'w peer list \<Rightarrow> string list \<Rightarrow> string list \<Rightarrow> string \<Rightarrow> 'w \<Rightarrow> adapter_outcome \<times> 'w" where
  "verify_peers nm address [] missing refs reference w =
     (if missing \<noteq> [] then outcome_failure (upper nm @ ''_HA_VERIFY_FAILED'')
        (''SOC_BLOCKLIST is absent on peer(s): '' @ join_with '', '' missing) refs
      else outcome_success reference refs, w)"
| "verify_peers nm address (p # ps) missing refs reference w =
     (case cl_contains (pe_client p) address w of
        (Inl e, w1) \<Rightarrow> (outcome_failure (upper nm @ ''_HA_VERIFY_ERROR'')
           (''cannot verify '' @ pe_name p @ '' fixed-set membership'') refs, w1)
      | (Inr present, w1) \<Rightarrow> verify_peers nm address ps
          (if present \<noteq> PBool True then missing @ [pe_name p] else missing)
          (refs @ [evidence_ref nm p ''verify'' SOC_BLOCKLIST_ALIAS]) reference w1)"

definition blocklist_verify :: "string \<Rightarrow> 'w peer list \<Rightarrow> pyval \<Rightarrow> string \<Rightarrow> ('w, adapter_reply) ex" where
  "blocklist_verify nm peers command reference w = (case command_address command of
     Inl e \<Rightarrow> (Inl e, w)
   | Inr address \<Rightarrow> (case verify_peers nm address peers [] [] reference w of (oc, w1) \<Rightarrow> (Inr (Outcome oc), w1)))"

text \<open>One peer of \<^verbatim>\<open>revert\<close>: whether it failed, and its evidence.\<close>

definition revert_peer :: "string \<Rightarrow> string \<Rightarrow> string \<Rightarrow> 'w peer \<Rightarrow> 'w \<Rightarrow> bool \<times> string list \<times> 'w" where
  "revert_peer nm address key p w =
     (case cl_remove (pe_client p) address key w of
        (Inl e, w1) \<Rightarrow> (True, [], w1)
      | (Inr peer_ref, w1) \<Rightarrow>
          (let removed = evidence_ref nm p ''remove'' peer_ref in
           case cl_contains (pe_client p) address w1 of
             (Inl e, w2) \<Rightarrow> (True, [removed], w2)
           | (Inr present, w2) \<Rightarrow>
               if present \<noteq> PBool False then
                 (if released_without_removal peer_ref
                  then (False, [removed, evidence_ref nm p ''released'' SOC_BLOCKLIST_ALIAS], w2)
                  else (True, [removed], w2))
               else (False, [removed, evidence_ref nm p ''absence'' SOC_BLOCKLIST_ALIAS], w2)))"

fun revert_peers :: "string \<Rightarrow> string \<Rightarrow> string \<Rightarrow> 'w peer list \<Rightarrow> 'w \<Rightarrow> string list \<times> string list \<times> 'w" where
  "revert_peers nm address key [] w = ([], [], w)"
| "revert_peers nm address key (p # ps) w =
     (case revert_peer nm address key p w of (bad, refs, w1) \<Rightarrow>
        (case revert_peers nm address key ps w1 of (failures, refs', w2) \<Rightarrow>
           ((if bad then [pe_name p] else []) @ failures, refs @ refs', w2)))"

definition blocklist_revert :: "string \<Rightarrow> 'w peer list \<Rightarrow> pyval \<Rightarrow> string \<Rightarrow> ('w, adapter_reply) ex" where
  "blocklist_revert nm peers command reference w = (
     case bindR (command_address command) (\<lambda>a. bindR (command_key command) (\<lambda>k. Inr (a, k))) of
       Inl e \<Rightarrow> (Inl e, w)
     | Inr (address, key) \<Rightarrow> (case revert_peers nm address key peers w of (failures, refs, w1) \<Rightarrow>
         (Inr (Outcome (if failures \<noteq> [] then outcome_failure (upper nm @ ''_HA_REVERT_FAILED'')
            (''SOC_BLOCKLIST removal could not be verified on peer(s): '' @ join_with '', '' failures) refs
          else outcome_success reference refs)), w1)))"

definition blocklist_adapter :: "string \<Rightarrow> 'w peer list \<Rightarrow> 'w adapter res" where
  "blocklist_adapter nm peers =
     bindR (guardR (2 \<le> length peers \<and> list_all (\<lambda>p. pe_name p \<noteq> []) peers \<and> distinct (map pe_name peers))
       (ValueError ''at least two uniquely named firewall peers are required'')) (\<lambda>_.
     Inr \<lparr>ad_name = nm, ad_action = ''block_ip'', ad_recovery_reference = blocklist_reference nm,
       ad_apply = blocklist_apply nm peers, ad_verify = blocklist_verify nm peers, ad_revert = blocklist_revert nm peers\<rparr>)"

definition nftables_adapter :: "'w peer list \<Rightarrow> 'w adapter res" where
  "nftables_adapter peers = blocklist_adapter ''nftables'' peers"

definition vyos_adapter :: "'w peer list \<Rightarrow> 'w adapter res" where
  "vyos_adapter peers = blocklist_adapter ''vyos'' peers"

definition opnsense_adapter :: "'w peer \<Rightarrow> 'w peer \<Rightarrow> 'w adapter res" where
  "opnsense_adapter primary secondary =
     bindR (guardR (pe_name primary \<noteq> [] \<and> pe_name secondary \<noteq> [] \<and> pe_name primary \<noteq> pe_name secondary)
       (ValueError ''two uniquely named OPNsense HA peers are required'')) (\<lambda>_.
     blocklist_adapter ''opnsense'' [primary, secondary])"

section \<open>The Wazuh adapter\<close>

record 'w wazuh_client =
  wz_start :: "string \<Rightarrow> string \<Rightarrow> ('w, string) ex"
  wz_enforced :: "string \<Rightarrow> string \<Rightarrow> ('w, pyval) ex"
  wz_restore :: "string \<Rightarrow> string \<Rightarrow> ('w, string) ex"
  wz_removed :: "string \<Rightarrow> string \<Rightarrow> ('w, pyval) ex"

definition ISOLATE_ACTION :: string where
  "ISOLATE_ACTION = ''cxyz-isolate-endpoint''"

definition RECOVER_ACTION :: string where
  "RECOVER_ACTION = ''cxyz-restore-endpoint''"

definition command_host :: "pyval \<Rightarrow> (string \<times> string) res" where
  "command_host command = (let tgt = pget command ''target'' in
     if pget command ''action'' \<noteq> PStr ''isolate_host'' \<or> \<not> is_mapping tgt \<or> pget tgt ''type'' \<noteq> PStr ''host''
     then Inl (ValueError ''Wazuh adapter accepts only isolate_host commands for host targets'')
     else (case (pget tgt ''value'', pget command ''idempotency_key'') of
         (PStr host, PStr key) \<Rightarrow> (if host = [] \<or> key = []
           then Inl (ValueError ''Wazuh command lacks host or correlation identity'') else Inr (host, key))
       | _ \<Rightarrow> Inl (ValueError ''Wazuh command lacks host or correlation identity'')))"

definition wazuh_ref :: "string \<Rightarrow> string \<Rightarrow> string" where
  "wazuh_ref action reference = ''wazuh:'' @ action @ '':'' @ reference"

definition wazuh_reference :: "pyval \<Rightarrow> string res" where
  "wazuh_reference command = bindR (command_host command) (\<lambda>(_, op). Inr (wazuh_ref ISOLATE_ACTION op))"

definition wazuh_apply :: "'w wazuh_client \<Rightarrow> pyval \<Rightarrow> ('w, adapter_reply) ex" where
  "wazuh_apply c command w = (case command_host command of Inl e \<Rightarrow> (Inl e, w)
     | Inr (host, op) \<Rightarrow> (case wz_start c host op w of
         (Inl e, w1) \<Rightarrow> (Inr (Outcome (outcome_failure ''WAZUH_ISOLATE_FAILED''
            ''controlled Wazuh isolation request failed'' [])), w1)
       | (Inr reference, w1) \<Rightarrow> (bindR (wazuh_reference command) (\<lambda>r.
            Inr (Outcome (outcome_success r [wazuh_ref ISOLATE_ACTION reference]))), w1)))"

definition wazuh_verify :: "'w wazuh_client \<Rightarrow> pyval \<Rightarrow> string \<Rightarrow> ('w, adapter_reply) ex" where
  "wazuh_verify c command reference w = (case command_host command of Inl e \<Rightarrow> (Inl e, w)
     | Inr (host, op) \<Rightarrow> (case wz_enforced c host op w of
         (Inl e, w1) \<Rightarrow> (Inr (Outcome (outcome_failure ''WAZUH_ISOLATE_VERIFY_ERROR''
            ''cannot verify controlled Wazuh isolation'' [])), w1)
       | (Inr enforced, w1) \<Rightarrow> (Inr (Outcome (if enforced \<noteq> PBool True
            then outcome_failure ''WAZUH_ISOLATE_VERIFY_FAILED'' ''Wazuh did not prove endpoint isolation'' []
            else outcome_success reference [wazuh_ref ISOLATE_ACTION ''verified''])), w1)))"

definition wazuh_revert :: "'w wazuh_client \<Rightarrow> pyval \<Rightarrow> string \<Rightarrow> ('w, adapter_reply) ex" where
  "wazuh_revert c command reference w = (case command_host command of Inl e \<Rightarrow> (Inl e, w)
     | Inr (host, op) \<Rightarrow> (case bindX (wz_restore c host op) (\<lambda>r. bindX (wz_removed c host op) (\<lambda>b. returnX (r, b))) w of
         (Inl e, w1) \<Rightarrow> (Inr (Outcome (outcome_failure ''WAZUH_RECOVER_FAILED'' ''controlled Wazuh recovery failed'' [])), w1)
       | (Inr (ref, removed), w1) \<Rightarrow> (Inr (Outcome (if removed \<noteq> PBool True
            then outcome_failure ''WAZUH_RECOVER_VERIFY_FAILED'' ''Wazuh did not prove endpoint recovery'' []
            else outcome_success reference [wazuh_ref RECOVER_ACTION ref, wazuh_ref RECOVER_ACTION ''verified''])), w1)))"

definition wazuh_adapter :: "'w wazuh_client \<Rightarrow> 'w adapter" where
  "wazuh_adapter c = \<lparr>ad_name = ''wazuh'', ad_action = ''isolate_host'', ad_recovery_reference = wazuh_reference,
     ad_apply = wazuh_apply c, ad_verify = wazuh_verify c, ad_revert = wazuh_revert c\<rparr>"

section \<open>The contract of an adapter\<close>

text \<open>
  What recovery after a crash rests on. A command that has no recovery reference is refused with the
  world untouched; every other one gets a proper outcome, never an exception that would hide what was
  done, and a successful apply returns the very reference that can be recomputed from the command.
  Verification and removal answer for the reference they were given.
\<close>

locale containment_adapter =
  fixes ref :: "pyval \<Rightarrow> string res"
    and apply_c :: "pyval \<Rightarrow> ('w, adapter_reply) ex"
    and verify_c :: "pyval \<Rightarrow> string \<Rightarrow> ('w, adapter_reply) ex"
    and revert_c :: "pyval \<Rightarrow> string \<Rightarrow> ('w, adapter_reply) ex"
  assumes refuses: "ref c = Inl e \<Longrightarrow> \<exists>e'. apply_c c w = (Inl e', w)"
    and applies: "ref c = Inr r \<Longrightarrow> \<exists>oc w'. apply_c c w = (Inr (Outcome oc), w') \<and> (oc_ok oc \<longrightarrow> oc_reference oc = Some r)"
    and verifies: "verify_c c r w = (x, w') \<Longrightarrow>
      (\<exists>e. x = Inl e \<and> w' = w) \<or> (\<exists>oc. x = Inr (Outcome oc) \<and> (oc_ok oc \<longrightarrow> oc_reference oc = Some r))"
    and reverts: "revert_c c r w = (x, w') \<Longrightarrow>
      (\<exists>e. x = Inl e \<and> w' = w) \<or> (\<exists>oc. x = Inr (Outcome oc) \<and> (oc_ok oc \<longrightarrow> oc_reference oc = Some r))"
begin

lemma raises_untouched: "apply_c c w = (Inl e, w') \<Longrightarrow> w' = w"
  using refuses [of c _ w] applies [of c _ w] by (cases "ref c") fastforce+

lemma touched_recoverable:
  assumes "apply_c c w = (x, w')" "w' \<noteq> w"
  shows "\<exists>r oc. ref c = Inr r \<and> x = Inr (Outcome oc) \<and> (oc_ok oc \<longrightarrow> oc_reference oc = Some r)"
  using assms refuses [of c _ w] applies [of c _ w] by (cases "ref c") fastforce+

lemma revert_after_crash:
  assumes "apply_c c w = (Inr (Outcome oc), w')" "oc_ok oc" "ref c = Inr r"
  shows "revert_c c (the (oc_reference oc)) = revert_c c r"
  using applies [OF assms(3), of w] assms by auto

end

lemma outcome_simps [simp]:
  "oc_ok (outcome_success r refs)" "oc_reference (outcome_success r refs) = Some r"
  "oc_evidence (outcome_success r refs) = refs" "\<not> oc_ok (outcome_failure code message refs)"
  "oc_evidence (outcome_failure code message refs) = refs"
  by (simp_all add: outcome_success_def outcome_failure_def)

lemma verify_peers_reference:
  "verify_peers nm a ps missing refs r w = (oc, w') \<Longrightarrow> oc_ok oc \<Longrightarrow> oc_reference oc = Some r"
  by (induction nm a ps missing refs r w rule: verify_peers.induct) (auto split: prod.splits sum.splits if_splits)

interpretation blocklist: containment_adapter "blocklist_reference nm" "blocklist_apply nm peers"
    "blocklist_verify nm peers" "blocklist_revert nm peers" for nm peers
proof (unfold_locales, goal_cases)
  case (1 c e w)
  then show ?case by (cases "command_address c"; cases "command_key c") (auto simp: blocklist_reference_def blocklist_apply_def)
next
  case (2 c r w)
  then show ?case
    by (cases "command_address c"; cases "command_key c")
      (auto simp: blocklist_reference_def blocklist_apply_def split: prod.split)
next
  case (3 c r w x w')
  then show ?case 
    by (cases "command_address c") (auto dest: verify_peers_reference simp: blocklist_verify_def split: prod.splits)
next
  case (4 c r w x w')
  then show ?case
    by (cases "command_address c"; cases "command_key c")
      (auto simp: blocklist_revert_def split: prod.splits if_splits)
qed

interpretation wazuh: containment_adapter wazuh_reference "wazuh_apply cl" "wazuh_verify cl" "wazuh_revert cl" for cl
proof (unfold_locales, goal_cases)
  case (1 c e w)
  then show ?case by (cases "command_host c") (auto simp: wazuh_reference_def wazuh_apply_def)
next
  case (2 c r w)
  then show ?case
    by (cases "command_host c") (auto simp: wazuh_reference_def wazuh_apply_def split: prod.split sum.split)
next
  case (3 c r w x w')
  then show ?case by (cases "command_host c") (auto simp: wazuh_verify_def split: prod.splits sum.splits if_splits)
next
  case (4 c r w x w')
  then show ?case by (cases "command_host c") (auto simp: wazuh_revert_def split: prod.splits sum.splits if_splits)
qed

end
