(* ===== verification/Orchestrator.thy ===== *)
theory Orchestrator
  imports Store Signing Adapters
begin

text \<open>
  \<^verbatim>\<open>response/orchestrator/engine.py\<close>: the response lifecycle. The state of a
  \<^verbatim>\<open>ResponseOrchestrator\<close> is its persistence (the response store, with what the next commits will
  do, or the in-memory ledger), the \<^verbatim>\<open>_storage_failed\<close> flag, the responses in memory, the dedup
  cache, and the world the adapters act on. The policy catalog, the authenticator, the adapters and
  the digest function are the environment. Operations are computations with state and exceptions: an
  exception keeps everything done before it, as in Python.

  A commit of the store follows the next entry of a fault list: it succeeds, it fails and is rolled
  back, or it is durable although the caller sees an error (\<^verbatim>\<open>ambiguous commit\<close>). A process that dies
  is a failed commit followed by a restart, since nothing but the store survives it.
\<close>

section \<open>State and environment\<close>

datatype fault = No_fault | Fail_rollback | Fail_after_commit

datatype persist = PStore rstore "fault list" | PLedger memory_ledger

record 'w orch =
  o_persist :: persist
  o_failed :: bool
  o_records :: "resp dict"
  o_dedup :: "(string \<times> int) dict"
  o_world :: 'w

record 'w env =
  v_prims :: prims
  v_catalog :: policy_catalog
  v_verify :: "pyval \<Rightarrow> int \<Rightarrow> unit res"
  v_adapters :: "'w adapter dict"

record result =
  rs_id :: string
  rs_state :: lifecycle
  rs_accepted :: bool
  rs_dedup :: bool
  rs_message :: "string option"
  rs_event :: "audit_event option"

type_synonym ('w, 'a) op = "('w orch, 'a) ex"

definition response_id :: "prims \<Rightarrow> string \<Rightarrow> string" where
  "response_id pr idempotency_key = ''resp-'' @ take 24 (sha256_hexdigest pr idempotency_key)"

definition is_store :: "persist \<Rightarrow> bool" where
  "is_store p = (case p of PStore st fs \<Rightarrow> True | PLedger L \<Rightarrow> False)"

definition p_events :: "persist \<Rightarrow> string \<Rightarrow> audit_event list" where
  "p_events p rid = (case p of PStore st fs \<Rightarrow> s_events st rid | PLedger L \<Rightarrow> m_events L rid)"

definition p_requested_since :: "persist \<Rightarrow> string \<Rightarrow> int \<Rightarrow> nat res" where
  "p_requested_since p policy since = (case p of
     PStore st fs \<Rightarrow> s_requested_since st policy since | PLedger L \<Rightarrow> m_requested_since L policy since)"

definition p_commands :: "persist \<Rightarrow> (string \<times> pyval) list" where
  "p_commands p = (case p of PStore st fs \<Rightarrow> s_commands st | PLedger L \<Rightarrow> m_commands L)"

definition p_intents :: "persist \<Rightarrow> string set" where
  "p_intents p = (case p of PStore st fs \<Rightarrow> set (s_intents st) | PLedger L \<Rightarrow> m_apply_intents L)"

text \<open>\<^verbatim>\<open>_serialized\<close>\<close>

definition serialized :: "('w, 'a) op \<Rightarrow> ('w, 'a) op" where
  "serialized m s = (
     if o_failed s then (Inl (RuntimeErr ''response persistence failed; close and reopen the store before recovery''), s)
     else case o_persist s of
         PStore st fs \<Rightarrow> (if s_closed st then (Inl (RuntimeErr ''response store is closed''), s) else m s)
       | PLedger L \<Rightarrow> m s)"

definition put_record :: "resp \<Rightarrow> ('w, unit) op" where
  "put_record r s = (Inr (), s\<lparr>o_records := dict_set (r_id r) r (o_records s)\<rparr>)"

definition get_record :: "string \<Rightarrow> ('w, resp) op" where
  "get_record rid s = (case dict_get (o_records s) rid of
     None \<Rightarrow> (Inl (CommandRejected ''unknown response''), s) | Some r \<Rightarrow> (Inr r, s))"

definition adapter_for :: "'w env \<Rightarrow> resp \<Rightarrow> 'w adapter res" where
  "adapter_for v r = (case dict_get (v_adapters v) (sget (r_command r) ''action'') of
     None \<Rightarrow> Inl (KeyErr ''action'') | Some a \<Rightarrow> Inr a)"

section \<open>Validation\<close>

definition COMMAND_FIELDS :: "string list" where
  "COMMAND_FIELDS = [''schema_version'', ''request_id'', ''decision_event_id'', ''correlation_id'', ''policy'', ''target'',
     ''action'', ''ttl_seconds'', ''allowlist_checked'', ''rollback_required'', ''idempotency_key'', ''authorization'']"

definition check_policy :: "'w env \<Rightarrow> pyval \<Rightarrow> response_policy res" where
  "check_policy v command = (let data = pget command ''policy'' in
     bindR (guardR (is_mapping data \<and> exact_keys data [''id'', ''version'', ''sha256''])
       (CommandRejected ''response command policy is malformed'')) (\<lambda>_.
     bindR (case pget data ''id'' of
         PStr i \<Rightarrow> tryR (catalog_policy (v_catalog v) i) (\<lambda>e. Inl (CommandRejected ''response command policy is unknown''))
       | _ \<Rightarrow> Inl (CommandRejected ''response command policy is unknown'')) (\<lambda>pol.
     bindR (guardR (pget data ''id'' = PStr (p_id pol) \<and> pget data ''version'' = PStr (p_version pol) \<and>
         pget data ''sha256'' = PStr (p_sha256 pol))
       (CommandRejected ''response command policy version or hash does not match active policy'')) (\<lambda>_.
     bindR (guardR (pget command ''action'' = PStr (p_action pol))
       (CommandRejected ''response command action differs from active policy'')) (\<lambda>_.
     bindR (guardR (eq_int (pget command ''ttl_seconds'') (p_ttl_seconds pol))
       (CommandRejected ''response command TTL differs from active policy'')) (\<lambda>_. Inr pol))))))"

definition check_target :: "pyval \<Rightarrow> unit res" where
  "check_target command = (let tgt = pget command ''target''; action = pget command ''action'' in
     bindR (guardR (is_mapping tgt \<and> exact_keys tgt [''type'', ''value''])
       (CommandRejected ''response command target is malformed'')) (\<lambda>_.
     bindR (guardR ((pget tgt ''type'' = PStr ''ip'' \<or> pget tgt ''type'' = PStr ''host'') \<and>
         nonempty_str (pget tgt ''value'') \<and> length (sget tgt ''value'') \<le> 255)
       (CommandRejected ''response command target has an unsupported type or value'')) (\<lambda>_.
     bindR (guardR (action = PStr ''block_ip'' \<longrightarrow> pget tgt ''type'' = PStr ''ip'')
       (CommandRejected ''block_ip command must target an IP address'')) (\<lambda>_.
     bindR (guardR (action = PStr ''block_ip'' \<longrightarrow> ip_address (sget tgt ''value'') \<noteq> None)
       (CommandRejected ''block_ip command target is not a valid IP address'')) (\<lambda>_.
     guardR (action = PStr ''isolate_host'' \<longrightarrow> pget tgt ''type'' = PStr ''host'')
       (CommandRejected ''isolate_host command must target a host''))))))"

definition check_authorization :: "'w env \<Rightarrow> pyval \<Rightarrow> int \<Rightarrow> unit res" where
  "check_authorization v command now = (let auth = pget command ''authorization'' in
     bindR (guardR (is_mapping auth \<and> exact_keys auth [''issuer'', ''key_id'', ''signature'', ''issued_at'', ''expires_at''])
       (CommandRejected ''response command authorization is malformed'')) (\<lambda>_.
     bindR (guardR (pget auth ''issuer'' = PStr ''decision_engine'')
       (CommandRejected ''response command issuer is not trusted'')) (\<lambda>_.
     bindR (parse_rfc3339 CommandRejected (pget auth ''issued_at'')) (\<lambda>issued_at.
     bindR (parse_rfc3339 CommandRejected (pget auth ''expires_at'')) (\<lambda>expires_at.
     bindR (guardR (issued_at < expires_at)
       (CommandRejected ''response command authorization expiry must follow issuance'')) (\<lambda>_.
     bindR (guardR (issued_at \<le> now + seconds 60)
       (CommandRejected ''response command authorization is issued too far in the future'')) (\<lambda>_.
     bindR (guardR (expires_at - issued_at \<le> seconds (c_command_valid_for_seconds (v_catalog v)))
       (CommandRejected ''response command authorization lifetime exceeds active policy'')) (\<lambda>_.
     tryR (v_verify v command now) (\<lambda>e. case e of CorrelationRejected m \<Rightarrow> Inl (CommandRejected m) | _ \<Rightarrow> Inl e)))))))))"

definition validate_command :: "'w env \<Rightarrow> pyval \<Rightarrow> int \<Rightarrow> pyval res" where
  "validate_command v command now =
     bindR (guardR (is_mapping command) (CommandRejected ''response command must be an object'')) (\<lambda>_.
     bindR (guardR (exact_keys command COMMAND_FIELDS)
       (CommandRejected ''response command has missing or unsupported fields'')) (\<lambda>_.
     bindR (guardR (pget command ''schema_version'' = PStr ''response-command-v1'')
       (CommandRejected ''unsupported response command schema'')) (\<lambda>_.
     bindR (guardR (list_all (\<lambda>f. nonempty_str (pget command f))
         [''request_id'', ''decision_event_id'', ''correlation_id'', ''idempotency_key''])
       (CommandRejected ''response command field must be non-empty'')) (\<lambda>_.
     bindR (guardR (pget command ''allowlist_checked'' = PBool True \<and> pget command ''rollback_required'' = PBool True)
       (CommandRejected ''response command must require allowlist checking and rollback'')) (\<lambda>_.
     bindR (check_policy v command) (\<lambda>_.
     bindR (check_target command) (\<lambda>_.
     bindR (check_authorization v command now) (\<lambda>_. Inr command))))))))"

text \<open>\<^verbatim>\<open>timedelta(seconds=normalized["ttl_seconds"])\<close>\<close>

definition ttl_of :: "pyval \<Rightarrow> int" where
  "ttl_of command = (case pget command ''ttl_seconds'' of
     PInt i \<Rightarrow> i | PBool b \<Rightarrow> (if b then 1 else 0) | PFloat (Fin r) \<Rightarrow> \<lfloor>r\<rfloor> | _ \<Rightarrow> 0)"

definition target_allowed :: "'w env \<Rightarrow> pyval \<Rightarrow> unit res" where
  "target_allowed v command = assert_target_allowed (c_protections (v_catalog v)) (sget command ''action'')
     (sget (pget command ''target'') ''type'') (sget (pget command ''target'') ''value'')"

section \<open>Transitions\<close>

definition next_fault :: "fault list \<Rightarrow> fault \<times> fault list" where
  "next_fault fs = (case fs of [] \<Rightarrow> (No_fault, []) | f # rest \<Rightarrow> (f, rest))"

text \<open>\<^verbatim>\<open>_checkpoint\<close>: any exception of the store poisons the orchestrator.\<close>

definition checkpoint_op :: "'w env \<Rightarrow> resp \<Rightarrow> audit_event option \<Rightarrow> ('w, unit) op" where
  "checkpoint_op v r ev s = (case o_persist s of
     PLedger L \<Rightarrow> (Inr (), s)
   | PStore st fs \<Rightarrow> (case next_fault fs of (f, fs') \<Rightarrow>
       (case checkpoint (v_prims v) (snapshot_of r) ev st of
          Inl e \<Rightarrow> (Inl e, s\<lparr>o_persist := PStore st fs', o_failed := True\<rparr>)
        | Inr st' \<Rightarrow> (case f of
            No_fault \<Rightarrow> (Inr (), s\<lparr>o_persist := PStore st' fs'\<rparr>)
          | Fail_rollback \<Rightarrow> (Inl StorageErr, s\<lparr>o_persist := PStore st fs', o_failed := True\<rparr>)
          | Fail_after_commit \<Rightarrow> (Inl StorageErr, s\<lparr>o_persist := PStore st' fs', o_failed := True\<rparr>)))))"

definition append_op :: "audit_event \<Rightarrow> ('w, unit) op" where
  "append_op e s = (case o_persist s of
     PLedger L \<Rightarrow> (case m_append e L of Inl x \<Rightarrow> (Inl x, s) | Inr L' \<Rightarrow> (Inr (), s\<lparr>o_persist := PLedger L'\<rparr>))
   | PStore st fs \<Rightarrow> (Inl (RuntimeErr ''response audit must be committed atomically through checkpoint''), s))"

definition intent_of :: "resp \<Rightarrow> action_intent option" where
  "intent_of r = (case r_pending r of None \<Rightarrow> None
     | Some op \<Rightarrow> Some \<lparr>in_operation = show_operation op, in_started_at = r_started r, in_reference = r_reference r\<rparr>)"

definition transition_event ::
  "'w env \<Rightarrow> string \<Rightarrow> resp \<Rightarrow> lifecycle \<Rightarrow> int \<Rightarrow> application option \<Rightarrow> verification option \<Rightarrow>
   rollback_info option \<Rightarrow> failure_info option \<Rightarrow> audit_event" where
  "transition_event v adapter r state timestamp app ver rb fl =
     build_event (v_prims v) (r_command r) (r_id r) (r_expires r) adapter state
       (if r_number r = 0 then None else Some (r_state r)) (r_number r + 1) timestamp app ver rb fl (intent_of r)"

definition transition_record :: "resp \<Rightarrow> lifecycle \<Rightarrow> bool \<Rightarrow> resp" where
  "transition_record r state clear_intent = r\<lparr>r_state := state, r_number := r_number r + 1,
     r_pending := (if clear_intent then None else r_pending r),
     r_started := (if clear_intent then None else r_started r)\<rparr>"

text \<open>\<^verbatim>\<open>_transition\<close> returns the event and the updated record; the caller's record changes after it.\<close>

definition transition ::
  "'w env \<Rightarrow> resp \<Rightarrow> lifecycle \<Rightarrow> int \<Rightarrow> application option \<Rightarrow> verification option \<Rightarrow>
   rollback_info option \<Rightarrow> failure_info option \<Rightarrow> bool \<Rightarrow> ('w, audit_event \<times> resp) op" where
  "transition v r state timestamp app ver rb fl clear_intent =
     bindX (liftX (adapter_for v r)) (\<lambda>a.
     (let event = transition_event v (ad_name a) r state timestamp app ver rb fl;
          updated = transition_record r state clear_intent
      in bindX (\<lambda>s. if is_store (o_persist s) then checkpoint_op v updated (Some event) s else append_op event s) (\<lambda>_.
         returnX (event, updated))))"

text \<open>A transition of a record that is already in \<^verbatim>\<open>_records\<close>.\<close>

definition transition_put ::
  "'w env \<Rightarrow> resp \<Rightarrow> lifecycle \<Rightarrow> int \<Rightarrow> application option \<Rightarrow> verification option \<Rightarrow>
   rollback_info option \<Rightarrow> failure_info option \<Rightarrow> bool \<Rightarrow> ('w, audit_event \<times> resp) op" where
  "transition_put v r state timestamp app ver rb fl clear_intent =
     bindX (transition v r state timestamp app ver rb fl clear_intent) (\<lambda>(event, r').
     bindX (put_record r') (\<lambda>_. returnX (event, r')))"

definition failure_payload :: "int \<Rightarrow> string \<Rightarrow> string \<Rightarrow> failure_info" where
  "failure_payload timestamp code message =
     \<lparr>fl_code = take 128 code, fl_message = take 2048 message, fl_failed_at = rfc3339 timestamp\<rparr>"

definition fail_op :: "'w env \<Rightarrow> resp \<Rightarrow> int \<Rightarrow> string \<Rightarrow> string \<Rightarrow> ('w, audit_event) op" where
  "fail_op v r timestamp code message =
     bindX (transition_put v r Failed timestamp None None None (Some (failure_payload timestamp code message)) False)
       (\<lambda>(event, _). returnX event)"

definition or_else :: "string option \<Rightarrow> string \<Rightarrow> string" where
  "or_else v d = (case v of None \<Rightarrow> d | Some s \<Rightarrow> if s = [] then d else s)"

definition fail_from_outcome :: "'w env \<Rightarrow> resp \<Rightarrow> int \<Rightarrow> adapter_outcome \<Rightarrow> string \<Rightarrow> ('w, audit_event) op" where
  "fail_from_outcome v r timestamp outcome fallback =
     fail_op v r timestamp (or_else (oc_code outcome) fallback)
       (or_else (oc_message outcome) ''constrained adapter failed without a message'')"

definition begin_operation :: "'w env \<Rightarrow> resp \<Rightarrow> operation \<Rightarrow> int \<Rightarrow> ('w, resp) op" where
  "begin_operation v r operation timestamp = (let r' = r\<lparr>r_pending := Some operation, r_started := Some (rfc3339 timestamp)\<rparr> in
     bindX (put_record r') (\<lambda>_. bindX (checkpoint_op v r' None) (\<lambda>_. returnX r')))"

text \<open>\<^verbatim>\<open>_invoke\<close>: an adapter that raises or returns nonsense has an unknown outcome.\<close>

definition invoke :: "string \<Rightarrow> ('w, adapter_reply) ex \<Rightarrow> ('w, adapter_outcome) op" where
  "invoke error_code call s = (case call (o_world s) of (reply, w) \<Rightarrow>
     (Inr (case reply of
        Inl e \<Rightarrow> outcome_failure error_code ''adapter outcome is unknown; recovery is required'' []
      | Inr (Outcome oc) \<Rightarrow> (if list_all (\<lambda>r. r \<noteq> []) (oc_evidence oc) then oc
          else outcome_failure ''ADAPTER_INVALID_OUTCOME'' ''adapter returned no valid outcome; recovery is required'' [])
      | Inr Malformed \<Rightarrow> outcome_failure ''ADAPTER_INVALID_OUTCOME'' ''adapter returned no valid outcome; recovery is required'' []),
      s\<lparr>o_world := w\<rparr>))"

definition target_identity :: "pyval \<Rightarrow> (pyval \<times> string) res" where
  "target_identity command = (let tgt = pget command ''target''; value = sget tgt ''value'' in
     if pget tgt ''type'' = PStr ''ip'' then (case ip_address value of
         None \<Rightarrow> Inl (ValueError ''does not appear to be an IPv4 or IPv6 address'')
       | Some a \<Rightarrow> Inr (pget command ''action'', show_ip a))
     else Inr (pget command ''action'', lower (strip value)))"

definition unresolved :: "resp \<Rightarrow> bool" where
  "unresolved r = (r_pending r \<noteq> None \<or> r_state r = Failed \<and> r_reference r \<noteq> None)"

fun target_available :: "resp \<Rightarrow> resp list \<Rightarrow> unit res" where
  "target_available r [] = Inr ()"
| "target_available r (other # others) = (
     if r_id other = r_id r then target_available r others
     else if unresolved other \<or> r_state other \<in> {Applied, Verified}
     then bindR (target_identity (r_command other)) (\<lambda>a. bindR (target_identity (r_command r)) (\<lambda>b.
       if a = b then Inl (CommandRejected ''target has an active or unresolved containment operation'')
       else target_available r others))
     else target_available r others)"

text \<open>\<^verbatim>\<open>_application\<close> and \<^verbatim>\<open>_applied_at\<close>: the latest recorded application.\<close>

definition recorded_application :: "audit_event list \<Rightarrow> application option" where
  "recorded_application h = (case filter (\<lambda>e. ev_application e \<noteq> None) (rev h) of [] \<Rightarrow> None | e # _ \<Rightarrow> ev_application e)"

definition applied_at :: "audit_event list \<Rightarrow> string res" where
  "applied_at h = (case recorded_application h of
     None \<Rightarrow> Inl (CommandRejected ''response audit history lacks an applied timestamp'') | Some a \<Rightarrow> Inr (ap_applied_at a))"

section \<open>Submission\<close>

definition result_of :: "string \<Rightarrow> lifecycle \<Rightarrow> bool \<Rightarrow> string option \<Rightarrow> audit_event option \<Rightarrow> result" where
  "result_of rid state accepted message event = \<lparr>rs_id = rid, rs_state = state, rs_accepted = accepted,
     rs_dedup = False, rs_message = message, rs_event = event\<rparr>"

definition prune_dedup :: "int \<Rightarrow> ('w, unit) op" where
  "prune_dedup now s = (Inr (), s\<lparr>o_dedup := filter (\<lambda>(key, value). now < snd value) (o_dedup s)\<rparr>)"

definition save_command_op :: "string \<Rightarrow> pyval \<Rightarrow> ('w, unit) op" where
  "save_command_op rid command s = (case o_persist s of
     PStore st fs \<Rightarrow> (Inr (), s)
   | PLedger L \<Rightarrow> (case m_save_command rid command L of Inl e \<Rightarrow> (Inl e, s)
       | Inr L' \<Rightarrow> (Inr (), s\<lparr>o_persist := PLedger L'\<rparr>)))"

definition find_duplicate :: "string \<Rightarrow> string \<Rightarrow> 'w orch \<Rightarrow> string option" where
  "find_duplicate key rid s = (case dict_get (o_dedup s) key of
     Some (rid', until) \<Rightarrow> Some rid'
   | None \<Rightarrow> if rid \<in> set (dict_keys (o_records s)) then Some rid else None)"

definition report_duplicate :: "string \<Rightarrow> ('w, result) op" where
  "report_duplicate rid = bindX (get_record rid) (\<lambda>r s. (Inr \<lparr>rs_id = rid, rs_state = r_state r,
     rs_accepted = (r_authorized r \<and> r_state r \<noteq> Failed \<and> r_pending r = None), rs_dedup = True,
     rs_message = Some ''duplicate command did not create another privileged action'',
     rs_event = last_event (p_events (o_persist s) rid)\<rparr>, s))"

text \<open>The checks after the REQUESTED event: protections, rate limit, authorization.\<close>

definition admit_request :: "'w env \<Rightarrow> resp \<Rightarrow> audit_event \<Rightarrow> int \<Rightarrow> ('w, result) op" where
  "admit_request v r requested timestamp = (
     case target_allowed v (r_command r) of
       Inl (PolicyError m) \<Rightarrow> bindX (fail_op v r timestamp ''TARGET_PROTECTED'' m) (\<lambda>failed.
         returnX (result_of (r_id r) Failed False (Some ''orchestrator rejected protected target'') (Some failed)))
     | Inl e \<Rightarrow> raiseX e
     | Inr _ \<Rightarrow>
         bindX (\<lambda>s. (p_requested_since (o_persist s) (sget (pget (r_command r) ''policy'') ''id'')
           (timestamp - seconds (window_seconds (c_rate_limit (v_catalog v)))), s)) (\<lambda>n.
         if int n > max_actions (c_rate_limit (v_catalog v))
         then bindX (fail_op v r timestamp ''RATE_LIMITED'' ''automatic response rate limit reached; no adapter was invoked'') (\<lambda>failed.
           returnX (result_of (r_id r) Failed False (Some ''automatic response rate limited'') (Some failed)))
         else (let r' = r\<lparr>r_authorized := True\<rparr> in
           bindX (put_record r') (\<lambda>_. bindX (checkpoint_op v r' None) (\<lambda>_.
           returnX (result_of (r_id r) Requested True None (Some requested)))))))"

text \<open>A new response; the expiry overflows after the year 9999.\<close>

definition new_response :: "string \<Rightarrow> pyval \<Rightarrow> int \<Rightarrow> resp" where
  "new_response rid command timestamp = \<lparr>r_id = rid, r_command = command,
     r_expires = timestamp + seconds (ttl_of command), r_state = Requested, r_number = 0, r_reference = None,
     r_authorized = False, r_pending = None, r_started = None\<rparr>"

definition remember :: "string \<Rightarrow> string \<Rightarrow> int \<Rightarrow> ('w, unit) op" where
  "remember key rid until s = (Inr (), s\<lparr>o_dedup := dict_set key (rid, until) (o_dedup s)\<rparr>)"

definition submit :: "'w env \<Rightarrow> int \<Rightarrow> pyval \<Rightarrow> datetime option \<Rightarrow> ('w, result) op" where
  "submit v clock command now = serialized (
     bindX (liftX (as_utc CommandRejected clock now)) (\<lambda>timestamp.
     bindX (liftX (validate_command v command timestamp)) (\<lambda>normalized.
     (let key = sget normalized ''idempotency_key''; rid = response_id (v_prims v) key in
      bindX (prune_dedup timestamp) (\<lambda>_.
      bindX (\<lambda>s. (Inr (find_duplicate key rid s), s)) (\<lambda>duplicate.
      case duplicate of Some rid' \<Rightarrow> report_duplicate rid'
      | None \<Rightarrow> (let r = new_response rid normalized timestamp in
          bindX (liftX (guardR (in_range (r_expires r)) OverflowErr)) (\<lambda>_.
          bindX (save_command_op rid normalized) (\<lambda>_.
          bindX (transition v r Requested timestamp None None None None False) (\<lambda>(requested, r1).
          bindX (put_record r1) (\<lambda>_.
          bindX (remember key rid (timestamp + seconds (c_dedup_seconds (v_catalog v)))) (\<lambda>_.
          admit_request v r1 requested timestamp))))))))))))"

section \<open>Application and verification\<close>

definition claim_apply_op :: "string \<Rightarrow> ('w, unit) op" where
  "claim_apply_op rid s = (case o_persist s of
     PStore st fs \<Rightarrow> (Inr (), s)
   | PLedger L \<Rightarrow> (case m_claim_apply rid L of Inl e \<Rightarrow> (Inl e, s)
       | Inr L' \<Rightarrow> (Inr (), s\<lparr>o_persist := PLedger L'\<rparr>)))"

text \<open>
  The privileged part of \<^verbatim>\<open>apply\<close>, once every check has passed: the intent is committed, the adapter
  is called, and its outcome is recorded.
\<close>

definition start_apply :: "'w env \<Rightarrow> 'w adapter \<Rightarrow> resp \<Rightarrow> string \<Rightarrow> int \<Rightarrow> ('w, resp \<times> adapter_outcome) op" where
  "start_apply v a r reference timestamp = (let r1 = r\<lparr>r_reference := Some reference\<rparr> in
     bindX (put_record r1) (\<lambda>_.
     bindX (claim_apply_op (r_id r)) (\<lambda>_.
     bindX (begin_operation v r1 Op_apply timestamp) (\<lambda>r2.
     bindX (invoke ''APPLICATION_OUTCOME_UNKNOWN'' (ad_apply a (r_command r))) (\<lambda>outcome. returnX (r2, outcome))))))"

definition finish_apply :: "'w env \<Rightarrow> resp \<Rightarrow> adapter_outcome \<Rightarrow> int \<Rightarrow> ('w, result) op" where
  "finish_apply v r2 outcome timestamp = (
     let reference = (case oc_reference outcome of None \<Rightarrow> [] | Some ref \<Rightarrow> ref) in
     if \<not> oc_ok outcome \<or> reference = []
     then bindX (fail_from_outcome v r2 timestamp outcome ''ADAPTER_APPLY_FAILED'') (\<lambda>failed.
       returnX (result_of (r_id r2) Failed False (Some (or_else (oc_message outcome) ''adapter apply failed'')) (Some failed)))
     else (let r3 = r2\<lparr>r_reference := Some reference\<rparr> in
       bindX (put_record r3) (\<lambda>_.
       bindX (transition_put v r3 Applied timestamp
         (Some \<lparr>ap_applied_at = rfc3339 timestamp, ap_reference = reference\<rparr>) None None None True) (\<lambda>(event, _).
       returnX (result_of (r_id r2) Applied True
         (Some ''action applied; containment is not successful until verification'') (Some event))))))"

definition perform_apply :: "'w env \<Rightarrow> 'w adapter \<Rightarrow> resp \<Rightarrow> string \<Rightarrow> int \<Rightarrow> ('w, result) op" where
  "perform_apply v a r reference timestamp =
     bindX (start_apply v a r reference timestamp) (\<lambda>(r2, outcome). finish_apply v r2 outcome timestamp)"

text \<open>The second authorization, at the side effect.\<close>

definition reauthorize :: "'w env \<Rightarrow> resp \<Rightarrow> int \<Rightarrow> unit res" where
  "reauthorize v r timestamp = bindR (validate_command v (r_command r) timestamp) (\<lambda>_. target_allowed v (r_command r))"

definition apply_op :: "'w env \<Rightarrow> int \<Rightarrow> string \<Rightarrow> datetime option \<Rightarrow> ('w, result) op" where
  "apply_op v clock rid now = serialized (
     bindX (liftX (as_utc CommandRejected clock now)) (\<lambda>timestamp.
     bindX (get_record rid) (\<lambda>r.
     bindX (liftX (guardR (r_state r = Requested) (CommandRejected ''response is not REQUESTED''))) (\<lambda>_.
     bindX (liftX (guardR (r_authorized r) (CommandRejected ''response submission did not complete authorization''))) (\<lambda>_.
     bindX (liftX (guardR (r_reference r = None)
       (CommandRejected ''prior adapter application requires audit reconciliation''))) (\<lambda>_.
     if r_expires r \<le> timestamp
     then bindX (fail_op v r timestamp ''EXPIRED_BEFORE_APPLY'' ''containment TTL elapsed before adapter invocation'') (\<lambda>event.
       returnX (result_of rid Failed False None (Some event)))
     else (case reauthorize v r timestamp of
         Inl (CommandRejected m) \<Rightarrow> bindX (fail_op v r timestamp ''REAUTHORIZATION_FAILED'' ''queued command no longer authorized'') (\<lambda>event.
           returnX (result_of rid Failed False None (Some event)))
       | Inl (PolicyError m) \<Rightarrow> bindX (fail_op v r timestamp ''REAUTHORIZATION_FAILED'' ''queued command no longer authorized'') (\<lambda>event.
           returnX (result_of rid Failed False None (Some event)))
       | Inl e \<Rightarrow> raiseX e
       | Inr _ \<Rightarrow>
           bindX (liftX (adapter_for v r)) (\<lambda>a.
           bindX (\<lambda>s. (target_available r (dict_values (o_records s)), s)) (\<lambda>_.
           bindX (liftX (ad_recovery_reference a (r_command r))) (\<lambda>reference.
           bindX (liftX (guardR (reference \<noteq> [])
             (CommandRejected ''adapter must provide a stable recovery reference before apply''))) (\<lambda>_.
           perform_apply v a r reference timestamp)))))))))))"

definition revert :: "'w env \<Rightarrow> resp \<Rightarrow> int \<Rightarrow> lifecycle \<Rightarrow> string \<Rightarrow> ('w, result) op" where
  "revert v r timestamp terminal_state cause = (case r_reference r of
     None \<Rightarrow> raiseX AssertionErr
   | Some reference \<Rightarrow>
       bindX (liftX (adapter_for v r)) (\<lambda>a.
       bindX (begin_operation v r Op_revert timestamp) (\<lambda>r1.
       bindX (invoke ''ADAPTER_OUTCOME_UNKNOWN'' (ad_revert a (r_command r) reference)) (\<lambda>outcome.
       if \<not> oc_ok outcome \<or> oc_evidence outcome = []
       then bindX (fail_from_outcome v r1 timestamp outcome ''ADAPTER_REVERT_FAILED'') (\<lambda>failed.
         returnX (result_of (r_id r) Failed False (Some (or_else (oc_message outcome) ''rollback failed'')) (Some failed)))
       else bindX (\<lambda>s. (Inr (recorded_application (p_events (o_persist s) (r_id r))), s)) (\<lambda>app.
         bindX (transition_put v r1 terminal_state timestamp app None
           (Some \<lparr>rb_completed_at = rfc3339 timestamp, rb_cause = cause, rb_evidence = oc_evidence outcome\<rparr>) None True) (\<lambda>(event, _).
         returnX (result_of (r_id r) terminal_state True (Some ''action reversed and verified by the adapter'') (Some event))))))))"

text \<open>The rollback that follows a failed verification.\<close>

definition rollback_unverified :: "'w env \<Rightarrow> 'w adapter \<Rightarrow> resp \<Rightarrow> string \<Rightarrow> adapter_outcome \<Rightarrow> int \<Rightarrow> ('w, result) op" where
  "rollback_unverified v a r reference outcome timestamp =
     bindX (begin_operation v r Op_revert timestamp) (\<lambda>r1.
     bindX (invoke ''ADAPTER_OUTCOME_UNKNOWN'' (ad_revert a (r_command r) reference)) (\<lambda>rollback.
     if oc_ok rollback \<and> oc_evidence rollback \<noteq> []
     then bindX (\<lambda>s. (applied_at (p_events (o_persist s) (r_id r)), s)) (\<lambda>at_time.
       bindX (transition_put v r1 Rolled_back timestamp (Some \<lparr>ap_applied_at = at_time, ap_reference = reference\<rparr>) None
         (Some \<lparr>rb_completed_at = rfc3339 timestamp, rb_cause = ''failed_verification'', rb_evidence = oc_evidence rollback\<rparr>)
         (Some (failure_payload timestamp (or_else (oc_code outcome) ''VERIFICATION_FAILED'')
           (or_else (oc_message outcome) ''adapter did not prove containment''))) True) (\<lambda>(event, _).
       returnX (result_of (r_id r) Rolled_back False (Some ''verification failed; action rolled back'') (Some event))))
     else bindX (fail_from_outcome v r1 timestamp rollback ''VERIFY_AND_ROLLBACK_FAILED'') (\<lambda>failed.
       returnX (result_of (r_id r) Failed False (Some ''verification failed and rollback could not be proven'') (Some failed)))))"

definition verify_op :: "'w env \<Rightarrow> int \<Rightarrow> string \<Rightarrow> datetime option \<Rightarrow> ('w, result) op" where
  "verify_op v clock rid now = serialized (
     bindX (liftX (as_utc CommandRejected clock now)) (\<lambda>timestamp.
     bindX (get_record rid) (\<lambda>r.
     bindX (liftX (guardR (r_state r = Applied) (CommandRejected ''response is not APPLIED''))) (\<lambda>_.
     bindX (liftX (guardR (r_pending r = None)
       (CommandRejected ''unfinished adapter operation must be recovered before verification''))) (\<lambda>_.
     if r_expires r \<le> timestamp then revert v r timestamp Rolled_back ''ttl_expired''
     else (case r_reference r of None \<Rightarrow> raiseX AssertionErr
       | Some reference \<Rightarrow>
         bindX (liftX (adapter_for v r)) (\<lambda>a.
         bindX (invoke ''ADAPTER_OUTCOME_UNKNOWN'' (ad_verify a (r_command r) reference)) (\<lambda>outcome.
         if oc_ok outcome \<and> oc_evidence outcome \<noteq> []
         then bindX (\<lambda>s. (applied_at (p_events (o_persist s) (r_id r)), s)) (\<lambda>at_time.
           bindX (transition_put v r Verified timestamp (Some \<lparr>ap_applied_at = at_time, ap_reference = reference\<rparr>)
             (Some \<lparr>vf_verified_at = rfc3339 timestamp, vf_evidence = oc_evidence outcome\<rparr>) None None False) (\<lambda>(event, _).
           returnX (result_of rid Verified True (Some ''containment verified'') (Some event))))
         else rollback_unverified v a r reference outcome timestamp))))))))"

section \<open>Expiry, rollback and recovery\<close>

text \<open>A loop over the responses; each pass reads the record as it is then.\<close>

fun for_records :: "(resp \<Rightarrow> ('w, 'a list) op) \<Rightarrow> string list \<Rightarrow> ('w, 'a list) op" where
  "for_records body [] = returnX []"
| "for_records body (rid # rids) =
     bindX (get_record rid) (\<lambda>r. bindX (body r) (\<lambda>xs. bindX (for_records body rids) (\<lambda>ys. returnX (xs @ ys))))"

definition for_all_records :: "(resp \<Rightarrow> ('w, 'a list) op) \<Rightarrow> ('w, 'a list) op" where
  "for_all_records body s = for_records body (dict_keys (o_records s)) s"

definition due :: "resp \<Rightarrow> int \<Rightarrow> bool" where
  "due r timestamp = ((r_state r \<in> {Applied, Verified} \<or> unresolved r) \<and> r_expires r \<le> timestamp)"

definition expire_due :: "'w env \<Rightarrow> int \<Rightarrow> datetime option \<Rightarrow> ('w, result list) op" where
  "expire_due v clock now = serialized (
     bindX (liftX (as_utc CommandRejected clock now)) (\<lambda>timestamp.
     for_all_records (\<lambda>r. if due r timestamp
       then bindX (revert v r timestamp (if r_state r = Verified then Expired else Rolled_back) ''ttl_expired'') (\<lambda>x. returnX [x])
       else returnX [])))"

definition rollback :: "'w env \<Rightarrow> int \<Rightarrow> string \<Rightarrow> string \<Rightarrow> datetime option \<Rightarrow> ('w, result) op" where
  "rollback v clock rid cause now = serialized (
     bindX (liftX (guardR (cause = ''manual'' \<or> cause = ''recovery'')
       (CommandRejected ''manual rollback cause must be manual or recovery''))) (\<lambda>_.
     bindX (liftX (as_utc CommandRejected clock now)) (\<lambda>timestamp.
     bindX (get_record rid) (\<lambda>r.
     bindX (liftX (guardR (r_state r \<in> {Applied, Verified} \<or> unresolved r)
       (CommandRejected ''response cannot be rolled back''))) (\<lambda>_.
     revert v r timestamp Rolled_back cause)))))"

definition recover_pending :: "'w env \<Rightarrow> int \<Rightarrow> datetime option \<Rightarrow> ('w, result list) op" where
  "recover_pending v clock now = serialized (
     bindX (liftX (as_utc CommandRejected clock now)) (\<lambda>timestamp.
     for_all_records (\<lambda>r. if r_pending r \<noteq> None
       then bindX (revert v r timestamp Rolled_back ''recovery'') (\<lambda>x. returnX [x]) else returnX [])))"

section \<open>Queries\<close>

definition pending_apply :: "('w, string list) op" where
  "pending_apply = serialized (\<lambda>s. (Inr (map r_id (filter (\<lambda>r. r_state r = Requested \<and> r_authorized r \<and>
     r_reference r = None \<and> r_pending r = None) (dict_values (o_records s)))), s))"

definition awaiting_verification :: "('w, string list) op" where
  "awaiting_verification = serialized (\<lambda>s. (Inr (map r_id (filter (\<lambda>r. r_state r = Applied \<and> r_pending r = None)
     (dict_values (o_records s)))), s))"

definition snapshot_op :: "string \<Rightarrow> ('w, pyval) op" where
  "snapshot_op rid = serialized (bindX (get_record rid) (\<lambda>r. returnX (PDict [
     (''response_id'', PStr (r_id r)), (''state'', PStr (show_state (r_state r))),
     (''action'', pget (r_command r) ''action''), (''target'', pget (r_command r) ''target''),
     (''expires_at'', PStr (rfc3339 (r_expires r))), (''authorized'', PBool (r_authorized r)),
     (''pending_operation'', str_or_none (map_option show_operation (r_pending r)))])))"

definition audit_history :: "string \<Rightarrow> ('w, audit_event list) op" where
  "audit_history rid = serialized (bindX (get_record rid) (\<lambda>_ s. (Inr (p_events (o_persist s) rid), s)))"

section \<open>Restart\<close>

text \<open>An audit event that speaks of another command or another expiry.\<close>

definition event_differs :: "pyval \<Rightarrow> string \<Rightarrow> audit_event \<Rightarrow> bool" where
  "event_differs command expires e = (ev_target e \<noteq> pget command ''target'' \<or> ev_action e \<noteq> pget command ''action'' \<or>
     ev_idempotency_key e \<noteq> pget command ''idempotency_key'' \<or> ev_expires_at e \<noteq> expires)"

definition restore_one :: "'w env \<Rightarrow> (string \<Rightarrow> audit_event list) \<Rightarrow> snapshot \<Rightarrow> resp res" where
  "restore_one v events s =
     bindR (parse_rfc3339 CommandRejected (PStr (sn_expires s))) (\<lambda>expires.
     (let r = resp_of expires s; history = events (r_id r) in
      bindR (guardR (r_id r = response_id (v_prims v) (sget (r_command r) ''idempotency_key''))
        (CommandRejected ''checkpoint response identity is invalid'')) (\<lambda>_.
      bindR (parse_rfc3339 CommandRejected (PStr (ev_timestamp (hd history)))) (\<lambda>accepted_at.
      bindR (v_verify v (r_command r) accepted_at) (\<lambda>_.
      if list_ex (event_differs (r_command r) (rfc3339 (r_expires r))) history
      then Inl (CommandRejected ''checkpoint audit differs from signed command'') else Inr r)))))"

definition permitted_adapters :: "(string \<times> string list) list" where
  "permitted_adapters = [(''block_ip'', [''opnsense'', ''nftables'', ''vyos'']), (''isolate_host'', [''wazuh''])]"

definition bind_adapters :: "'w adapter list \<Rightarrow> 'w adapter dict res" where
  "bind_adapters adapters = (let by_action = foldl (\<lambda>d a. dict_set (ad_action a) a d) [] adapters in
     bindR (guardR (length by_action = length adapters \<and> set (dict_keys by_action) = {''block_ip'', ''isolate_host''})
       (ValueError ''exactly one constrained adapter is required for block_ip and isolate_host'')) (\<lambda>_.
     bindR (guardR (list_all (\<lambda>(action, names). case dict_get by_action action of None \<Rightarrow> False | Some a \<Rightarrow> ad_name a \<in> set names) permitted_adapters)
       (ValueError ''response action is bound to an unexpected privileged adapter'')) (\<lambda>_. Inr by_action)))"

text \<open>The constructor over a freshly opened store.\<close>

definition start_from_store :: "'w env \<Rightarrow> rstore \<Rightarrow> fault list \<Rightarrow> 'w \<Rightarrow> 'w orch res" where
  "start_from_store v st fs w =
     bindR (s_claim st) (\<lambda>st1.
     bindR (s_load st1) (\<lambda>snapshots.
     bindR (mapR (restore_one v (s_events st1)) snapshots) (\<lambda>rs.
     Inr \<lparr>o_persist = PStore st1 fs, o_failed = False,
       o_records = foldl (\<lambda>d r. dict_set (r_id r) r d) [] rs, o_dedup = [], o_world = w\<rparr>)))"

definition start_from_ledger :: "memory_ledger \<Rightarrow> 'w \<Rightarrow> 'w orch" where
  "start_from_ledger L w = \<lparr>o_persist = PLedger L, o_failed = False, o_records = [], o_dedup = [], o_world = w\<rparr>"

text \<open>\<^verbatim>\<open>restore_recovery\<close>: rollback-only records from a ledger.\<close>

definition recover_one :: "'w env \<Rightarrow> string \<Rightarrow> pyval \<Rightarrow> audit_event list \<Rightarrow> resp res" where
  "recover_one v rid command history = (let first = hd history; latest = last history in
     bindR (parse_rfc3339 CommandRejected (PStr (ev_timestamp first))) (\<lambda>accepted_at.
     bindR (v_verify v command accepted_at) (\<lambda>_.
     bindR (guardR (response_id (v_prims v) (sget command ''idempotency_key'') = rid)
       (CommandRejected ''recovery command identity mismatch'')) (\<lambda>_.
     bindR (guardR (\<not> list_ex (event_differs command (ev_expires_at first)) history)
       (CommandRejected ''recovery audit differs from signed command'')) (\<lambda>_.
     bindR (parse_rfc3339 CommandRejected (PStr (ev_expires_at first))) (\<lambda>expires.
     Inr \<lparr>r_id = rid, r_command = command, r_expires = expires, r_state = ev_state latest,
       r_number = ev_number latest, r_reference = map_option ap_reference (recorded_application history),
       r_authorized = False, r_pending = None, r_started = None\<rparr>))))))"

fun recover_all :: "'w env \<Rightarrow> (string \<Rightarrow> audit_event list) \<Rightarrow> (string \<times> pyval) list \<Rightarrow> resp dict res" where
  "recover_all v events [] = Inr []"
| "recover_all v events ((rid, command) # rest) = (if events rid = [] then recover_all v events rest
     else bindR (recover_one v rid command (events rid)) (\<lambda>r.
       bindR (recover_all v events rest) (\<lambda>d. Inr ((rid, r) # d))))"

definition restore_recovery :: "'w env \<Rightarrow> ('w, string list) op" where
  "restore_recovery v = serialized (\<lambda>s.
     if o_records s \<noteq> [] then (Inl (CommandRejected ''recovery requires a fresh orchestrator''), s)
     else (case recover_all v (p_events (o_persist s)) (p_commands (o_persist s)) of
         Inl e \<Rightarrow> (Inl e, s)
       | Inr restored \<Rightarrow> (Inr (dict_keys restored), s\<lparr>o_records := restored\<rparr>)))"

end
