(* ===== verification/Protocol.thy ===== *)
theory Protocol
  imports Orchestrator
begin

text \<open>
  The orchestrator as a protocol of small steps, and the proof that every operation is a sequence of
  them. A step is one durable change of one response (\<open>change\<close>), the creation of a response, the
  start of an application (whose adapter call follows its commit at once, under the same lock), a
  call of \<^verbatim>\<open>verify\<close> or \<^verbatim>\<open>revert\<close>, or a change of the dedup cache; a commit that fails leaves an
  orchestrator that refuses all further work. The invariants of the system are then proved once per
  step, by rule induction, instead of once per operation and exception.
\<close>

section \<open>Small steps\<close>

text \<open>What may change in one response, and the audit event that records it.\<close>

inductive change :: "'w env \<Rightarrow> resp \<Rightarrow> resp \<Rightarrow> audit_event option \<Rightarrow> bool" for v :: "'w env" where
  Authorize: "r_state r = Requested \<Longrightarrow> r_reference r = None \<Longrightarrow> r_pending r = None \<Longrightarrow>
    target_allowed v (r_command r) = Inr () \<Longrightarrow>
    change v r (r\<lparr>r_authorized := True\<rparr>) None"
| Begin_revert: "r_reference r \<noteq> None \<Longrightarrow> r_state r \<in> {Applied, Verified} \<or> unresolved r \<Longrightarrow>
    change v r (r\<lparr>r_pending := Some Op_revert, r_started := Some t\<rparr>) None"
| Mark_applied: "r_state r = Requested \<Longrightarrow> r_pending r = Some Op_apply \<Longrightarrow> ref \<noteq> [] \<Longrightarrow>
    change v r (transition_record (r\<lparr>r_reference := Some ref\<rparr>) Applied True)
      (Some (transition_event v nm (r\<lparr>r_reference := Some ref\<rparr>) Applied ts
        (Some \<lparr>ap_applied_at = rfc3339 ts, ap_reference = ref\<rparr>) None None None))"
| Mark_failed: "r_reference r \<noteq> None \<longrightarrow> r_pending r \<noteq> None \<Longrightarrow>
    change v r (transition_record r Failed False) (Some (transition_event v nm r Failed ts None None None (Some fl)))"
| Mark_verified: "r_state r = Applied \<Longrightarrow> r_pending r = None \<Longrightarrow> ts < r_expires r \<Longrightarrow> vf_evidence vf \<noteq> [] \<Longrightarrow>
    change v r (transition_record r Verified False) (Some (transition_event v nm r Verified ts (Some app) (Some vf) None None))"
| Mark_reverted: "r_pending r = Some Op_revert \<Longrightarrow> st = Rolled_back \<or> st = Expired \<and> r_state r = Verified \<Longrightarrow>
    rb_evidence rb \<noteq> [] \<Longrightarrow>
    change v r (transition_record r st True) (Some (transition_event v nm r st ts app None (Some rb) fl))"

text \<open>When the adapter may be asked to apply, and what is committed first.\<close>

definition may_apply :: "'w env \<Rightarrow> resp dict \<Rightarrow> resp \<Rightarrow> 'w adapter \<Rightarrow> string \<Rightarrow> int \<Rightarrow> bool" where
  "may_apply v recs r a ref ts \<longleftrightarrow> r_state r = Requested \<and> r_authorized r \<and> r_reference r = None \<and> ts < r_expires r \<and>
     reauthorize v r ts = Inr () \<and> adapter_for v r = Inr a \<and> target_available r (dict_values recs) = Inr () \<and>
     ad_recovery_reference a (r_command r) = Inr ref \<and> ref \<noteq> []"

definition applying :: "resp \<Rightarrow> string \<Rightarrow> int \<Rightarrow> resp" where
  "applying r ref ts = r\<lparr>r_reference := Some ref, r_pending := Some Op_apply, r_started := Some (rfc3339 ts)\<rparr>"

definition may_create :: "'w env \<Rightarrow> resp dict \<Rightarrow> pyval \<Rightarrow> int \<Rightarrow> resp \<Rightarrow> audit_event \<Rightarrow> bool" where
  "may_create v recs cmd ts r e \<longleftrightarrow> (\<exists>r0 a. validate_command v cmd ts = Inr cmd \<and>
     r0 = new_response (response_id (v_prims v) (sget cmd ''idempotency_key'')) cmd ts \<and> in_range (r_expires r0) \<and>
     r_id r0 \<notin> set (dict_keys recs) \<and> adapter_for v r0 = Inr a \<and>
     e = transition_event v (ad_name a) r0 Requested ts None None None None \<and> r = transition_record r0 Requested False)"

text \<open>The calls that do not apply anything.\<close>

inductive other_call :: "'w env \<Rightarrow> resp \<Rightarrow> ('w, adapter_reply) ex \<Rightarrow> bool" for v :: "'w env" where
  Call_verify: "adapter_for v r = Inr a \<Longrightarrow> r_reference r = Some ref \<Longrightarrow> r_state r = Applied \<Longrightarrow> r_pending r = None \<Longrightarrow>
    other_call v r (ad_verify a (r_command r) ref)"
| Call_revert: "adapter_for v r = Inr a \<Longrightarrow> r_reference r = Some ref \<Longrightarrow> r_pending r = Some Op_revert \<Longrightarrow>
    other_call v r (ad_revert a (r_command r) ref)"

text \<open>A commit that fails: nothing was written, or everything was, and no more work is done.\<close>

definition poisoned :: "'w env \<Rightarrow> resp \<Rightarrow> audit_event option \<Rightarrow> 'w orch \<Rightarrow> 'w orch \<Rightarrow> bool" where
  "poisoned v r ev s s' \<longleftrightarrow> (\<exists>st fs st' fs'. o_persist s = PStore st fs \<and>
     (st' = st \<or> checkpoint (v_prims v) (snapshot_of r) ev st = Inr st') \<and>
     o_persist s' = PStore st' fs' \<and> o_failed s' \<and> o_world s' = o_world s)"

inductive micro :: "int \<Rightarrow> 'w env \<Rightarrow> 'w orch \<Rightarrow> 'w orch \<Rightarrow> bool" for ts :: int and v :: "'w env" where
  Create: "\<not> o_failed s \<Longrightarrow> may_create v (o_records s) cmd ts r e \<Longrightarrow> o_persist s = PStore st fs \<Longrightarrow>
    checkpoint (v_prims v) (snapshot_of r) (Some e) st = Inr st' \<Longrightarrow>
    micro ts v s (s\<lparr>o_persist := PStore st' fs', o_records := dict_set (r_id r) r (o_records s)\<rparr>)"
| Create_fail: "\<not> o_failed s \<Longrightarrow> may_create v (o_records s) cmd ts r e \<Longrightarrow> poisoned v r (Some e) s s' \<Longrightarrow> micro ts v s s'"
| Change: "\<not> o_failed s \<Longrightarrow> dict_get (o_records s) (r_id r) = Some r \<Longrightarrow> change v r r' ev \<Longrightarrow> o_persist s = PStore st fs \<Longrightarrow>
    checkpoint (v_prims v) (snapshot_of r') ev st = Inr st' \<Longrightarrow>
    micro ts v s (s\<lparr>o_persist := PStore st' fs', o_records := dict_set (r_id r) r' (o_records s)\<rparr>)"
| Change_fail: "\<not> o_failed s \<Longrightarrow> dict_get (o_records s) (r_id r) = Some r \<Longrightarrow> change v r r' ev \<Longrightarrow> poisoned v r' ev s s' \<Longrightarrow>
    micro ts v s s'"
| Start: "\<not> o_failed s \<Longrightarrow> dict_get (o_records s) (r_id r) = Some r \<Longrightarrow> may_apply v (o_records s) r a ref ts \<Longrightarrow>
    o_persist s = PStore st fs \<Longrightarrow> checkpoint (v_prims v) (snapshot_of (applying r ref ts)) None st = Inr st' \<Longrightarrow>
    w = snd (ad_apply a (r_command r) (o_world s)) \<Longrightarrow>
    micro ts v s (s\<lparr>o_persist := PStore st' fs', o_records := dict_set (r_id r) (applying r ref ts) (o_records s), o_world := w\<rparr>)"
| Start_fail: "\<not> o_failed s \<Longrightarrow> dict_get (o_records s) (r_id r) = Some r \<Longrightarrow> may_apply v (o_records s) r a ref ts \<Longrightarrow>
    poisoned v (applying r ref ts) None s s' \<Longrightarrow> micro ts v s s'"
| Call: "\<not> o_failed s \<Longrightarrow> dict_get (o_records s) (r_id r) = Some r \<Longrightarrow> other_call v r call \<Longrightarrow>
    micro ts v s (s\<lparr>o_world := snd (call (o_world s))\<rparr>)"
| Cache: "\<not> o_failed s \<Longrightarrow> micro ts v s (s\<lparr>o_dedup := d\<rparr>)"

definition steps :: "int \<Rightarrow> 'w env \<Rightarrow> 'w orch \<Rightarrow> 'w orch \<Rightarrow> bool" where
  "steps ts v = (micro ts v)\<^sup>*\<^sup>*"

lemma steps_refl [simp, intro]: "steps ts v s s"
  by (simp add: steps_def)

lemma steps_trans: "steps ts v s t \<Longrightarrow> steps ts v t u \<Longrightarrow> steps ts v s u"
  unfolding steps_def by (rule rtranclp_trans)

lemma steps_micro: "micro ts v s t \<Longrightarrow> steps ts v s t"
  by (simp add: steps_def)

section \<open>Every operation is a sequence of small steps\<close>

definition ids_ok :: "resp dict \<Rightarrow> bool" where
  "ids_ok recs \<longleftrightarrow> (\<forall>rid r. dict_get recs rid = Some r \<longrightarrow> r_id r = rid)"

text \<open>A store-backed orchestrator that accepts work.\<close>

definition live :: "'w orch \<Rightarrow> bool" where
  "live s \<longleftrightarrow> is_store (o_persist s) \<and> \<not> o_failed s \<and> ids_ok (o_records s)"

definition runs :: "int \<Rightarrow> 'w env \<Rightarrow> ('w, 'a) op \<Rightarrow> 'w orch \<Rightarrow> bool" where
  "runs ts v m s \<longleftrightarrow> steps ts v s (snd (m s))"

text \<open>A computation that ends, if it returns, in a live state where a response has a given value.\<close>

definition yields :: "int \<Rightarrow> 'w env \<Rightarrow> ('w, 'a) op \<Rightarrow> 'w orch \<Rightarrow> ('a \<Rightarrow> 'w orch \<Rightarrow> bool) \<Rightarrow> bool" where
  "yields ts v m s Q \<longleftrightarrow> steps ts v s (snd (m s)) \<and> (\<forall>x t. m s = (Inr x, t) \<longrightarrow> live t \<and> Q x t)"

lemma liveE:
  assumes "live s"
  obtains st fs where "o_persist s = PStore st fs" "\<not> o_failed s" "ids_ok (o_records s)"
  using assms by (cases "o_persist s") (auto simp: live_def is_store_def)

lemma live_upd [simp]:
  "live (s\<lparr>o_world := w\<rparr>) = live s" "live (s\<lparr>o_dedup := d\<rparr>) = live s"
  by (simp_all add: live_def)

lemma ids_ok_set [simp]: "r_id r = rid \<Longrightarrow> ids_ok recs \<Longrightarrow> ids_ok (dict_set rid r recs)"
  by (simp add: ids_ok_def)

lemma bindX_liftX [simp]: "bindX (liftX (Inr x)) f = f x" "bindX (liftX (Inl e)) f = raiseX e"
  by (simp_all add: fun_eq_iff bindX_def)

lemma runs_pure [simp]:
  "runs ts v (returnX x) s" "runs ts v (raiseX e) s" "runs ts v (liftX y) s"
  by (simp_all add: runs_def)

lemma yields_bindX:
  assumes "yields ts v m s Q" and "\<And>x t. m s = (Inr x, t) \<Longrightarrow> live t \<Longrightarrow> Q x t \<Longrightarrow> yields ts v (f x) t R"
  shows "yields ts v (bindX m f) s R"
proof (cases "m s")
  case (Pair r t)
  show ?thesis
  proof (cases r)
    case (Inl e)
    then show ?thesis using assms(1) Pair by (simp add: yields_def bindX_def)
  next
    case (Inr x)
    then have "steps ts v s t" "live t" "Q x t" using assms(1) Pair by (simp_all add: yields_def)
    then have "yields ts v (f x) t R" using assms(2) Pair Inr by blast
    then show ?thesis using Pair Inr steps_trans [OF \<open>steps ts v s t\<close>] by (simp add: yields_def bindX_def)
  qed
qed

lemma yields_returnX: "live s \<Longrightarrow> Q x s \<Longrightarrow> yields ts v (returnX x) s Q"
  by (simp add: yields_def)

lemma yields_raiseX [simp]: "yields ts v (raiseX e) s Q"
  by (simp add: yields_def)

lemma yields_bind:
  "yields ts v m s Q \<Longrightarrow> (\<And>x t. live t \<Longrightarrow> Q x t \<Longrightarrow> yields ts v (f x) t R) \<Longrightarrow> yields ts v (bindX m f) s R"
  by (rule yields_bindX)

lemma yields_read: "live s \<Longrightarrow> yields ts v (\<lambda>s. (g s, s)) s (\<lambda>x t. t = s \<and> g s = Inr x)"
  by (simp add: yields_def)

lemma yields_liftX: "live s \<Longrightarrow> yields ts v (liftX y) s (\<lambda>x t. t = s \<and> y = Inr x)"
  by (simp add: yields_def)

lemma yields_get_record:
  "live s \<Longrightarrow> yields ts v (get_record rid) s (\<lambda>r t. t = s \<and> dict_get (o_records s) rid = Some r \<and> r_id r = rid)"
  by (auto simp: yields_def get_record_def live_def ids_ok_def split: option.splits)

lemma yields_steps: "yields ts v m s Q \<Longrightarrow> steps ts v s (snd (m s))"
  by (simp add: yields_def)

lemma checkpoint_op_cases:
  assumes "o_persist s = PStore st fs"
  obtains (ok) st' fs' where "checkpoint (v_prims v) (snapshot_of r) ev st = Inr st'"
      "checkpoint_op v r ev s = (Inr (), s\<lparr>o_persist := PStore st' fs'\<rparr>)"
    | (bad) e st' fs' where "st' = st \<or> checkpoint (v_prims v) (snapshot_of r) ev st = Inr st'"
      "checkpoint_op v r ev s = (Inl e, s\<lparr>o_persist := PStore st' fs', o_failed := True\<rparr>)"
  using assms
  by (cases "next_fault fs"; cases "checkpoint (v_prims v) (snapshot_of r) ev st"; cases "fst (next_fault fs)")
     (auto simp: checkpoint_op_def)

text \<open>A change of a response: memory holds \<open>q\<close> at the commit and the new value after it.\<close>

lemma yields_commit:
  assumes "live s" "dict_get (o_records s) (r_id r) = Some r" "change v r r' ev" "r_id r' = r_id r"
  shows "yields ts v (\<lambda>s. bindX (checkpoint_op v r' ev) (\<lambda>_. bindX (put_record r') (\<lambda>_. returnX x))
      (s\<lparr>o_records := dict_set (r_id r) q (o_records s)\<rparr>)) s
    (\<lambda>y t. y = x \<and> dict_get (o_records t) (r_id r) = Some r')"
proof -
  let ?t = "s\<lparr>o_records := dict_set (r_id r) q (o_records s)\<rparr>"
  obtain st fs where s: "o_persist s = PStore st fs" "\<not> o_failed s" "ids_ok (o_records s)" using assms(1) by (rule liveE)
  then have t: "o_persist ?t = PStore st fs" by simp
  show ?thesis
  proof (rule checkpoint_op_cases [OF t, of v r' ev])
    fix st' fs' assume c: "checkpoint (v_prims v) (snapshot_of r') ev st = Inr st'"
      and e: "checkpoint_op v r' ev ?t = (Inr (), ?t\<lparr>o_persist := PStore st' fs'\<rparr>)"
    have "micro ts v s (s\<lparr>o_persist := PStore st' fs', o_records := dict_set (r_id r) r' (o_records s)\<rparr>)"
      using s assms c by (intro Change)
    then show ?thesis using e s assms(4)
      by (simp add: yields_def bindX_def put_record_def steps_micro live_def is_store_def)
  next
    fix e st' fs' assume "st' = st \<or> checkpoint (v_prims v) (snapshot_of r') ev st = Inr st'"
      and e: "checkpoint_op v r' ev ?t = (Inl e, ?t\<lparr>o_persist := PStore st' fs', o_failed := True\<rparr>)"
    then have "poisoned v r' ev s (?t\<lparr>o_persist := PStore st' fs', o_failed := True\<rparr>)"
      using s(1) by (auto simp: poisoned_def)
    then have "micro ts v s (?t\<lparr>o_persist := PStore st' fs', o_failed := True\<rparr>)"
      using s assms by (intro Change_fail)
    then show ?thesis using e by (simp add: yields_def bindX_def steps_micro)
  qed
qed

lemma dict_set_same: "dict_get d k = Some x \<Longrightarrow> dict_set k x d = d"
  by (rule update_triv)

lemma put_record_run: "bindX (put_record q) f s = f () (s\<lparr>o_records := dict_set (r_id q) q (o_records s)\<rparr>)"
  by (simp add: bindX_def put_record_def)

lemma yields_cong: "m s = m' s \<Longrightarrow> yields ts v m' s Q \<Longrightarrow> yields ts v m s Q"
  by (simp add: yields_def)

lemma yields_mono: "yields ts v m s Q \<Longrightarrow> (\<And>x t. Q x t \<Longrightarrow> R x t) \<Longrightarrow> yields ts v m s R"
  by (auto simp: yields_def)

lemma checkpoint_op_records: "checkpoint_op v r ev s = (z, t) \<Longrightarrow> o_records t = o_records s"
  by (auto simp: checkpoint_op_def split: persist.splits prod.splits sum.splits fault.splits)

lemma yields_put_commit:
  assumes "live s" "dict_get (o_records s) (r_id r) = Some r" "change v r r' None" "r_id r' = r_id r"
  shows "yields ts v (bindX (put_record r') (\<lambda>_. bindX (checkpoint_op v r' None) (\<lambda>_. returnX x))) s
    (\<lambda>y t. y = x \<and> dict_get (o_records t) (r_id r) = Some r')"
proof (rule yields_cong)
  show "yields ts v (\<lambda>s. bindX (checkpoint_op v r' None) (\<lambda>_. bindX (put_record r') (\<lambda>_. returnX x))
      (s\<lparr>o_records := dict_set (r_id r) r' (o_records s)\<rparr>)) s (\<lambda>y t. y = x \<and> dict_get (o_records t) (r_id r) = Some r')"
    using yields_commit [OF assms] .
  show "bindX (put_record r') (\<lambda>_. bindX (checkpoint_op v r' None) (\<lambda>_. returnX x)) s =
      bindX (checkpoint_op v r' None) (\<lambda>_. bindX (put_record r') (\<lambda>_. returnX x))
      (s\<lparr>o_records := dict_set (r_id r) r' (o_records s)\<rparr>)"
    unfolding put_record_run assms(4)
    by (auto simp: bindX_def put_record_def assms(4) dest!: checkpoint_op_records split: prod.splits sum.splits)
qed

lemma yields_begin_operation:
  assumes "live s" "dict_get (o_records s) (r_id r) = Some r" "r' = r\<lparr>r_pending := Some op, r_started := Some (rfc3339 t')\<rparr>"
    and "change v r r' None"
  shows "yields ts v (begin_operation v r op t') s (\<lambda>x t. x = r' \<and> dict_get (o_records t) (r_id r) = Some r')"
  using yields_put_commit [OF assms(1,2,4)] assms(3) by (simp add: begin_operation_def Let_def)

lemma transition_store_run:
  assumes "is_store (o_persist s)" "adapter_for v r = Inr a"
  shows "transition_put v r st t' app ver rb fl cl s =
    bindX (checkpoint_op v (transition_record r st cl) (Some (transition_event v (ad_name a) r st t' app ver rb fl)))
      (\<lambda>_. bindX (put_record (transition_record r st cl)) (\<lambda>_. returnX
        (transition_event v (ad_name a) r st t' app ver rb fl, transition_record r st cl))) s"
  using assms by (simp add: transition_put_def transition_def bindX_assoc Let_def bindX_def split: sum.splits prod.splits)

lemma transition_record_id [simp]:
  "r_id (transition_record r st cl) = r_id r" "r_command (transition_record r st cl) = r_command r"
  "r_expires (transition_record r st cl) = r_expires r" "r_state (transition_record r st cl) = st"
  by (simp_all add: transition_record_def)

lemma yields_transition:
  assumes "live s" "dict_get (o_records s) (r_id r) = Some r" "adapter_for v q = Inr a" "r_id q = r_id r"
    and "\<And>nm. change v r (transition_record q st cl) (Some (transition_event v nm q st t' app ver rb fl))"
  shows "yields ts v (\<lambda>s. transition_put v q st t' app ver rb fl cl (s\<lparr>o_records := dict_set (r_id r) q (o_records s)\<rparr>)) s
    (\<lambda>x t. dict_get (o_records t) (r_id r) = Some (transition_record q st cl))"
proof (rule yields_cong)
  let ?e = "transition_event v (ad_name a) q st t' app ver rb fl"
  let ?r = "transition_record q st cl"
  show "transition_put v q st t' app ver rb fl cl (s\<lparr>o_records := dict_set (r_id r) q (o_records s)\<rparr>) =
    bindX (checkpoint_op v ?r (Some ?e)) (\<lambda>_. bindX (put_record ?r) (\<lambda>_. returnX (?e, ?r)))
      (s\<lparr>o_records := dict_set (r_id r) q (o_records s)\<rparr>)"
    using assms(1,3) by (intro transition_store_run) (simp_all add: live_def)
  show "yields ts v (\<lambda>s. bindX (checkpoint_op v ?r (Some ?e)) (\<lambda>_. bindX (put_record ?r) (\<lambda>_. returnX (?e, ?r)))
      (s\<lparr>o_records := dict_set (r_id r) q (o_records s)\<rparr>)) s
    (\<lambda>x t. dict_get (o_records t) (r_id r) = Some ?r)"
    by (rule yields_mono [OF yields_commit [OF assms(1,2) assms(5) [of "ad_name a"]]]) (simp_all add: assms(4))
qed

lemma yields_transition_put:
  assumes "live s" "dict_get (o_records s) (r_id r) = Some r"
    and "\<And>nm. change v r (transition_record r st cl) (Some (transition_event v nm r st t' app ver rb fl))"
  shows "yields ts v (transition_put v r st t' app ver rb fl cl) s
    (\<lambda>x t. dict_get (o_records t) (r_id r) = Some (transition_record r st cl))"
proof (cases "adapter_for v r")
  case (Inl e)
  then show ?thesis by (simp add: yields_def transition_put_def transition_def bindX_def)
next
  case (Inr a)
  show ?thesis
    by (rule yields_cong [OF _ yields_transition [OF assms(1,2) Inr refl assms(3)]])
       (simp add: dict_set_same [OF assms(2)])
qed

lemma yields_done: "live s \<Longrightarrow> yields ts v (returnX x) s (\<lambda>_ _. True)"
  by (simp add: yields_returnX)

lemma yields_fail_op:
  assumes "live s" "dict_get (o_records s) (r_id r) = Some r"
    and "r_reference r \<noteq> None \<longrightarrow> r_pending r \<noteq> None"
  shows "yields ts v (fail_op v r t' code msg) s (\<lambda>x t. True)"
  unfolding fail_op_def
  by (rule yields_bind [OF yields_transition_put [OF assms(1,2) Mark_failed [OF assms(3)]]])
     (auto intro: yields_done split: prod.splits)

lemma yields_fail_from_outcome:
  assumes "live s" "dict_get (o_records s) (r_id r) = Some r"
    and "r_reference r \<noteq> None \<longrightarrow> r_pending r \<noteq> None"
  shows "yields ts v (fail_from_outcome v r t' oc fb) s (\<lambda>x t. True)"
  unfolding fail_from_outcome_def using assms by (rule yields_fail_op)

lemma yields_invoke:
  assumes "live s" "dict_get (o_records s) (r_id r) = Some r" "other_call v r call"
  shows "yields ts v (invoke code call) s (\<lambda>oc t. dict_get (o_records t) (r_id r) = Some r)"
proof -
  have "micro ts v s (s\<lparr>o_world := snd (call (o_world s))\<rparr>)"
    using assms by (intro Call) (simp_all add: live_def)
  then show ?thesis using assms(1,2)
    by (auto simp: yields_def invoke_def steps_micro split: prod.splits)
qed

lemma adapter_for_cong: "r_command r' = r_command r \<Longrightarrow> adapter_for v r' = adapter_for v r"
  by (simp add: adapter_for_def)

lemma yields_revert:
  assumes "live s" "dict_get (o_records s) (r_id r) = Some r"
    and act: "r_state r \<in> {Applied, Verified} \<or> unresolved r"
    and st: "st = Rolled_back \<or> st = Expired \<and> r_state r = Verified"
  shows "yields ts v (revert v r t' st cause) s (\<lambda>x t. True)"
proof (cases "r_reference r")
  case (Some ref)
  define r1 where "r1 = r\<lparr>r_pending := Some Op_revert, r_started := Some (rfc3339 t')\<rparr>"
  have r1: "r_id r = r_id r1" "r_command r = r_command r1" "r_reference r1 = Some ref" "r_pending r1 = Some Op_revert"
    "r_state r1 = r_state r"
    by (simp_all add: r1_def Some)
  have begin_ok: "change v r r1 None" unfolding r1_def using Some act by (intro Begin_revert) auto
  show ?thesis
    unfolding revert_def Some option.case
    apply (rule yields_bind [OF yields_liftX [OF assms(1)]], clarify)
    apply (rule yields_bind [OF yields_begin_operation [OF assms(1,2) r1_def begin_ok]], clarify)
    subgoal premises p for a t0 x1 t1
    proof -
      have a1: "adapter_for v r1 = Inr a" using p adapter_for_cong [of r1 r v] r1 by simp
      have g1: "dict_get (o_records t1) (r_id r1) = Some r1" using p r1 by simp
      show ?thesis
        unfolding r1(1,2)
        apply (rule yields_bind [OF yields_invoke [OF p(3) g1 Call_revert [OF a1 r1(3,4)]]])
        subgoal premises q for oc t2
        proof (cases "\<not> oc_ok oc \<or> oc_evidence oc = []")
          case True
          then show ?thesis
            using yields_fail_from_outcome [OF q(1,2)] r1(4) by (auto intro!: yields_bind yields_done)
        next
          case False
          then show ?thesis
            apply simp
            apply (rule yields_bind [OF yields_read [OF q(1)]], clarify)
            apply (rule yields_bind [OF yields_transition_put [OF q(1,2) Mark_reverted [OF r1(4)]]])
            using st r1 by (auto intro: yields_done)
        qed
        done
    qed
    done
qed (simp add: revert_def)

lemma yields_rollback_unverified:
  assumes "live s" "dict_get (o_records s) (r_id r) = Some r" "adapter_for v r = Inr a"
    "r_reference r = Some ref" "r_state r = Applied"
  shows "yields ts v (rollback_unverified v a r ref oc t') s (\<lambda>x t. True)"
proof -
  define r1 where "r1 = r\<lparr>r_pending := Some Op_revert, r_started := Some (rfc3339 t')\<rparr>"
  have r1: "r_id r = r_id r1" "r_command r = r_command r1" "r_reference r1 = Some ref" "r_pending r1 = Some Op_revert"
    by (simp_all add: r1_def assms)
  have begin_ok: "change v r r1 None" unfolding r1_def using assms by (intro Begin_revert) auto
  have a1: "adapter_for v r1 = Inr a" using assms(3) adapter_for_cong [of r1 r v] r1 by simp
  show ?thesis
    unfolding rollback_unverified_def
    apply (rule yields_bind [OF yields_begin_operation [OF assms(1,2) r1_def begin_ok]], clarify)
    subgoal premises p for x1 t1
    proof -
      have g1: "dict_get (o_records t1) (r_id r1) = Some r1" using p r1 by simp
      show ?thesis
        unfolding r1(1,2)
        apply (rule yields_bind [OF yields_invoke [OF p(1) g1 Call_revert [OF a1 r1(3,4)]]])
        subgoal premises q for undo t2
        proof (cases "oc_ok undo \<and> oc_evidence undo \<noteq> []")
          case True
          then show ?thesis
            apply simp
            apply (rule yields_bind [OF yields_read [OF q(1)]], clarify)
            apply (rule yields_bind [OF yields_transition_put [OF q(1,2) Mark_reverted [OF r1(4)]]])
            by (auto intro: yields_done)
        next
          case False
          then show ?thesis
            using yields_fail_from_outcome [OF q(1,2)] r1(4) by (auto intro!: yields_bind yields_done)
        qed
        done
    qed
    done
qed

lemma yields_serialized: "live s \<Longrightarrow> yields ts v m s Q \<Longrightarrow> yields ts v (serialized m) s Q"
  by (auto simp: yields_def serialized_def live_def is_store_def split: persist.splits)

lemma yields_verify_op:
  assumes "live s"
  shows "yields ts v (verify_op v clk rid now) s (\<lambda>x t. True)"
  unfolding verify_op_def
  apply (rule yields_serialized [OF assms])
  apply (rule yields_bind [OF yields_liftX [OF assms]], clarify)
  apply (rule yields_bind [OF yields_get_record [OF assms]], clarify)
  apply (rule yields_bind [OF yields_liftX [OF assms]], clarify)
  apply (rule yields_bind [OF yields_liftX [OF assms]], clarify)
  subgoal premises p for t' _ r
  proof -
    have g: "dict_get (o_records s) (r_id r) = Some r" "r_state r = Applied" "r_pending r = None"
      using p by (simp_all add: guardR_def split: if_splits)
    show ?thesis
    proof (cases "r_expires r \<le> t'")
      case True
      then show ?thesis using yields_revert [OF assms g(1)] g(2) by simp
    next
      case False
      show ?thesis
      proof (cases "r_reference r")
        case (Some ref)
        show ?thesis
          apply (simp add: False Some)
          apply (rule yields_bind [OF yields_liftX [OF assms]], clarify)
          subgoal premises q for a
            apply (rule yields_bind [OF yields_invoke [OF assms g(1) Call_verify [OF q(2) Some g(2,3)]]])
            subgoal premises w for oc t2
            proof (cases "oc_ok oc \<and> oc_evidence oc \<noteq> []")
              case True
              then show ?thesis
                apply simp
                apply (rule yields_bind [OF yields_read [OF w(1)]], clarify)
                apply (rule yields_bind [OF yields_transition_put [OF w(1,2) Mark_verified [OF g(2,3)]]])
                using False by (auto intro: yields_done)
            next
              case False
              then show ?thesis
                using yields_rollback_unverified [OF w(1,2) q(2) Some g(2)] by auto
            qed
            done
          done
      qed (simp add: False)
    qed
  qed
  done

lemma bindX_run: "m s = m' s' \<Longrightarrow> bindX m f s = bindX m' f s'"
  by (simp add: bindX_def)

lemma begin_operation_run:
  "begin_operation v r op ts s = (let r' = r\<lparr>r_pending := Some op, r_started := Some (rfc3339 ts)\<rparr> in
     bindX (checkpoint_op v r' None) (\<lambda>_. returnX r') (s\<lparr>o_records := dict_set (r_id r) r' (o_records s)\<rparr>))"
  by (simp add: begin_operation_def Let_def put_record_run)

lemma yields_start_apply:
  assumes "live s" "dict_get (o_records s) (r_id r) = Some r" "may_apply v (o_records s) r a ref ts"
  shows "yields ts v (start_apply v a r ref ts) s
    (\<lambda>(x, oc) t. x = applying r ref ts \<and> dict_get (o_records t) (r_id r) = Some (applying r ref ts))"
proof -
  let ?r = "applying r ref ts"
  let ?t = "s\<lparr>o_records := dict_set (r_id r) ?r (o_records s)\<rparr>"
  obtain st fs where s: "o_persist s = PStore st fs" "\<not> o_failed s" "ids_ok (o_records s)" using assms(1) by (rule liveE)
  then have t: "o_persist ?t = PStore st fs" by simp
  have id: "r_id ?r = r_id r" by (simp add: applying_def)
  have swap: "s\<lparr>o_records := x, o_persist := p, o_world := w\<rparr> = s\<lparr>o_persist := p, o_records := x, o_world := w\<rparr>" for x p w
    by (cases s) simp
  have run: "start_apply v a r ref ts s = bindX (checkpoint_op v ?r None) (\<lambda>_.
      bindX (invoke ''APPLICATION_OUTCOME_UNKNOWN'' (ad_apply a (r_command r))) (\<lambda>oc. returnX (?r, oc))) ?t"
  proof -
    let ?r1 = "r\<lparr>r_reference := Some ref\<rparr>"
    let ?s1 = "s\<lparr>o_records := dict_set (r_id r) ?r1 (o_records s)\<rparr>"
    have claim: "bindX (claim_apply_op (r_id r)) f ?s1 = f () ?s1" for f :: "unit \<Rightarrow> ('a, resp \<times> adapter_outcome) op"
      using s(1) by (simp add: bindX_def claim_apply_op_def)
    have started: "begin_operation v ?r1 Op_apply ts ?s1 = bindX (checkpoint_op v ?r None) (\<lambda>_. returnX ?r) ?t"
      by (simp add: begin_operation_run Let_def applying_def)
    show ?thesis
      unfolding start_apply_def Let_def put_record_run
      by (simp add: claim bindX_run [of "begin_operation v ?r1 Op_apply ts" ?s1 "bindX (checkpoint_op v ?r None) (\<lambda>_. returnX ?r)" ?t, OF started] bindX_assoc)
  qed
  show ?thesis
  proof (rule checkpoint_op_cases [OF t, of v ?r None])
    fix st' fs' assume c: "checkpoint (v_prims v) (snapshot_of ?r) None st = Inr st'"
      and e: "checkpoint_op v ?r None ?t = (Inr (), ?t\<lparr>o_persist := PStore st' fs'\<rparr>)"
    have "micro ts v s (s\<lparr>o_persist := PStore st' fs', o_records := dict_set (r_id r) ?r (o_records s),
        o_world := snd (ad_apply a (r_command r) (o_world s))\<rparr>)"
      using s assms c by (intro Start) simp_all
    then show ?thesis using e s
      by (auto simp: yields_def run bindX_def invoke_def swap steps_micro live_def is_store_def id split: prod.splits)
  next
    fix e st' fs' assume "st' = st \<or> checkpoint (v_prims v) (snapshot_of ?r) None st = Inr st'"
      and e: "checkpoint_op v ?r None ?t = (Inl e, ?t\<lparr>o_persist := PStore st' fs', o_failed := True\<rparr>)"
    then have "poisoned v ?r None s (?t\<lparr>o_persist := PStore st' fs', o_failed := True\<rparr>)"
      using s(1) by (auto simp: poisoned_def)
    then have "micro ts v s (?t\<lparr>o_persist := PStore st' fs', o_failed := True\<rparr>)"
      using s assms by (intro Start_fail)
    then show ?thesis using e by (simp add: yields_def run bindX_def steps_micro)
  qed
qed

lemma yields_finish_apply:
  assumes "live s" "dict_get (o_records s) (r_id r) = Some r" "adapter_for v r = Inr a"
    "r_state r = Requested" "r_pending r = Some Op_apply"
  shows "yields ts v (finish_apply v r oc t') s (\<lambda>x t. True)"
proof -
  define ref where "ref = (case oc_reference oc of None \<Rightarrow> [] | Some ref \<Rightarrow> ref)"
  let ?q = "r\<lparr>r_reference := Some ref\<rparr>"
  show ?thesis
  proof (cases "\<not> oc_ok oc \<or> ref = []")
    case True
    then show ?thesis
      using yields_fail_from_outcome [OF assms(1,2)] assms(5)
      by (auto simp: finish_apply_def Let_def ref_def [symmetric] intro!: yields_bind yields_done)
  next
    case False
    have q: "adapter_for v ?q = Inr a" using assms(3) adapter_for_cong [of ?q r v] by simp
    have m: "change v r (transition_record ?q Applied True) (Some (transition_event v nm ?q Applied t'
        (Some \<lparr>ap_applied_at = rfc3339 t', ap_reference = ref\<rparr>) None None None))" for nm
      using assms(4,5) False by (intro Mark_applied) simp_all
    note tr = yields_transition [OF assms(1,2) q _ m]
    show ?thesis
    proof (rule yields_cong)
      show "finish_apply v r oc t' s = bindX (\<lambda>s. transition_put v ?q Applied t'
          (Some \<lparr>ap_applied_at = rfc3339 t', ap_reference = ref\<rparr>) None None None True
            (s\<lparr>o_records := dict_set (r_id r) ?q (o_records s)\<rparr>)) (\<lambda>(event, _).
        returnX (result_of (r_id r) Applied True
         (Some ''action applied; containment is not successful until verification'') (Some event))) s"
        using False by (simp add: finish_apply_def Let_def ref_def [symmetric] put_record_run) (rule bindX_run, simp)
      show "yields ts v (bindX (\<lambda>s. transition_put v ?q Applied t'
          (Some \<lparr>ap_applied_at = rfc3339 t', ap_reference = ref\<rparr>) None None None True
            (s\<lparr>o_records := dict_set (r_id r) ?q (o_records s)\<rparr>)) (\<lambda>(event, _).
        returnX (result_of (r_id r) Applied True
         (Some ''action applied; containment is not successful until verification'') (Some event)))) s (\<lambda>x t. True)"
        by (rule yields_bind [OF tr]) (auto intro: yields_done)
    qed
  qed
qed

lemma yields_perform_apply:
  assumes "live s" "dict_get (o_records s) (r_id r) = Some r" "may_apply v (o_records s) r a ref ts"
  shows "yields ts v (perform_apply v a r ref ts) s (\<lambda>x t. True)"
proof -
  let ?r = "applying r ref ts"
  have r2: "r_id r = r_id ?r" "r_state ?r = Requested" "r_pending ?r = Some Op_apply"
    using assms(3) by (simp_all add: applying_def may_apply_def)
  have a2: "adapter_for v ?r = Inr a"
    using assms(3) adapter_for_cong [of ?r r v] by (simp add: may_apply_def applying_def)
  show ?thesis
    unfolding perform_apply_def
    by (rule yields_bind [OF yields_start_apply [OF assms]])
       (auto simp: r2(1) intro!: yields_finish_apply [OF _ _ a2 r2(2,3)])
qed

lemma yields_fail_result:
  assumes "live s" "dict_get (o_records s) (r_id r) = Some r" "r_reference r \<noteq> None \<longrightarrow> r_pending r \<noteq> None"
  shows "yields ts v (bindX (fail_op v r t' code msg) (\<lambda>e. returnX (f e))) s (\<lambda>x t. True)"
  by (rule yields_bind [OF yields_fail_op [OF assms]]) (rule yields_done)

lemma yields_apply_op:
  assumes "live s" "as_utc CommandRejected clk now = Inr ts"
  shows "yields ts v (apply_op v clk rid now) s (\<lambda>x t. True)"
  unfolding apply_op_def
  apply (rule yields_serialized [OF assms(1)])
  apply (simp only: assms(2) bindX_liftX)
  apply (rule yields_bind [OF yields_get_record [OF assms(1)]], clarify)
  apply (rule yields_bind [OF yields_liftX [OF assms(1)]], clarify)
  apply (rule yields_bind [OF yields_liftX [OF assms(1)]], clarify)
  apply (rule yields_bind [OF yields_liftX [OF assms(1)]], clarify)
  subgoal premises p for r
  proof -
    have g: "dict_get (o_records s) (r_id r) = Some r" "r_state r = Requested" "r_authorized r" "r_reference r = None"
      using p by (simp_all add: guardR_def split: if_splits)
    note fails = yields_fail_result [OF assms(1) g(1)]
    show ?thesis
    proof (cases "r_expires r \<le> ts")
      case True
      then show ?thesis using fails g(4) by simp
    next
      case False
      show ?thesis
      proof (cases "reauthorize v r ts")
        case (Inl e)
        then show ?thesis using False fails g(4) by (cases e) simp_all
      next
        case (Inr u)
        show ?thesis
          apply (simp add: False Inr)
          apply (rule yields_bind [OF yields_liftX [OF assms(1)]], clarify)
          apply (rule yields_bind [OF yields_read [OF assms(1)]], clarify)
          apply (rule yields_bind [OF yields_liftX [OF assms(1)]], clarify)
          apply (rule yields_bind [OF yields_liftX [OF assms(1)]], clarify)
          apply (rule yields_perform_apply [OF assms(1) g(1)])
          using False Inr g by (simp add: may_apply_def)
      qed
    qed
  qed
  done

lemma yields_admit_request:
  assumes "live s" "dict_get (o_records s) (r_id r) = Some r" "r_state r = Requested" "r_reference r = None" "r_pending r = None"
  shows "yields ts v (admit_request v r e t') s (\<lambda>x t. True)"
proof (cases "target_allowed v (r_command r)")
  case (Inl x)
  then show ?thesis using yields_fail_result [OF assms(1,2)] assms(4) by (cases x) (simp_all add: admit_request_def)
next
  case (Inr u)
  have auth: "change v r (r\<lparr>r_authorized := True\<rparr>) None" using assms Inr by (intro Authorize) simp_all
  show ?thesis
    unfolding admit_request_def Inr sum.case
    apply (rule yields_bind [OF yields_read [OF assms(1)]], clarify)
    subgoal premises p for n
    proof (cases "max_actions (c_rate_limit (v_catalog v)) < int n")
      case True
      then show ?thesis using yields_fail_result [OF assms(1,2)] assms(4) by simp
    next
      case False
      show ?thesis
        unfolding Let_def if_not_P [OF False]
        by (rule yields_mono [OF yields_put_commit [OF assms(1,2) auth]]) simp_all
    qed
    done
qed

lemma yields_create:
  assumes "live s" "may_create v (o_records s) cmd ts r e" "r0 = new_response (response_id (v_prims v) (sget cmd ''idempotency_key'')) cmd ts"
  shows "yields ts v (transition_put v r0 Requested ts None None None None False) s
    (\<lambda>(e', r') t. r' = r \<and> dict_get (o_records t) (r_id r) = Some r)"
proof -
  obtain a where a: "adapter_for v r0 = Inr a" and e: "e = transition_event v (ad_name a) r0 Requested ts None None None None"
    and r: "r = transition_record r0 Requested False"
    using assms(2) by (auto simp: may_create_def assms(3))
  obtain st fs where s: "o_persist s = PStore st fs" "\<not> o_failed s" "ids_ok (o_records s)" using assms(1) by (rule liveE)
  have run: "transition_put v r0 Requested ts None None None None False s =
      bindX (checkpoint_op v r (Some e)) (\<lambda>_. bindX (put_record r) (\<lambda>_. returnX (e, r))) s"
    using transition_store_run [OF _ a] s(1) by (simp add: e r is_store_def)
  show ?thesis
  proof (rule checkpoint_op_cases [OF s(1), of v r "Some e"])
    fix st' fs' assume c: "checkpoint (v_prims v) (snapshot_of r) (Some e) st = Inr st'"
      and f: "checkpoint_op v r (Some e) s = (Inr (), s\<lparr>o_persist := PStore st' fs'\<rparr>)"
    have "micro ts v s (s\<lparr>o_persist := PStore st' fs', o_records := dict_set (r_id r) r (o_records s)\<rparr>)"
      by (rule Create [OF s(2) assms(2) s(1) c])
    then show ?thesis using f s
      by (simp add: yields_def run bindX_def put_record_def steps_micro live_def is_store_def)
  next
    fix x st' fs' assume c: "st' = st \<or> checkpoint (v_prims v) (snapshot_of r) (Some e) st = Inr st'"
      and f: "checkpoint_op v r (Some e) s = (Inl x, s\<lparr>o_persist := PStore st' fs', o_failed := True\<rparr>)"
    have "poisoned v r (Some e) s (s\<lparr>o_persist := PStore st' fs', o_failed := True\<rparr>)"
      using c s(1) by (auto simp: poisoned_def)
    then have "micro ts v s (s\<lparr>o_persist := PStore st' fs', o_failed := True\<rparr>)"
      by (rule Create_fail [OF s(2) assms(2)])
    then show ?thesis using f by (simp add: yields_def run bindX_def steps_micro)
  qed
qed

lemma yields_cache:
  "live s \<Longrightarrow> yields ts v (prune_dedup t') s (\<lambda>_ t. o_records t = o_records s)"
  "live s \<Longrightarrow> yields ts v (remember k rid u) s (\<lambda>_ t. o_records t = o_records s)"
  by (auto simp: yields_def prune_dedup_def remember_def live_def intro!: steps_micro Cache)

lemma bind_transition_put:
  "bindX (transition v r st t' a b c d cl) (\<lambda>(e, r'). bindX (put_record r') (\<lambda>_. f e r')) =
   bindX (transition_put v r st t' a b c d cl) (\<lambda>(e, r'). f e r')"
  by (simp add: transition_put_def bindX_assoc case_prod_unfold)

lemma yields_submit:
  assumes "live s" "as_utc CommandRejected clk now = Inr ts"
  shows "yields ts v (submit v clk cmd now) s (\<lambda>x t. True)"
  unfolding submit_def
  apply (rule yields_serialized [OF assms(1)])
  apply (simp only: assms(2) bindX_liftX Let_def)
  apply (rule yields_bind [OF yields_liftX [OF assms(1)]], clarify)
  apply (rule yields_bind [OF yields_cache(1) [OF assms(1)]])
  apply (rule yields_bind [OF yields_read], assumption, clarify)
  subgoal premises p for cmd' t0 u t
  proof (cases "find_duplicate (sget cmd' ''idempotency_key'') (response_id (v_prims v) (sget cmd' ''idempotency_key'')) t")
    case (Some rid)
    show ?thesis
      unfolding Some option.case report_duplicate_def
      by (rule yields_bind [OF yields_get_record [OF p(3)]], clarify) (simp add: yields_def p)
  next
    case None
    have cmd': "cmd' = cmd" using p(2) by (auto simp: validate_command_def res_success)
    let ?new = "new_response (response_id (v_prims v) (sget cmd ''idempotency_key'')) cmd ts"
    have new: "r_id ?new \<notin> set (dict_keys (o_records t))"
      using None by (simp add: find_duplicate_def new_response_def cmd' split: option.splits if_splits prod.splits)
    have store: "save_command_op rid c t = (Inr (), t)" for rid c
      using p(3) by (auto elim!: liveE simp: save_command_op_def)
    show ?thesis
      unfolding cmd' None [unfolded cmd'] option.case bind_transition_put
      apply (rule yields_bind [OF yields_liftX [OF p(3)]], clarify)
      apply (rule yields_bind [where Q = "\<lambda>_ u. u = t"])
       apply (simp add: yields_def store p)
      apply clarify
      subgoal premises q
      proof (cases "adapter_for v ?new")
        case (Inl e)
        then show ?thesis by (simp add: yields_def transition_put_def transition_def bindX_def)
      next
        case (Inr a)
        let ?r = "transition_record ?new Requested False"
        have c: "may_create v (o_records t) cmd ts ?r (transition_event v (ad_name a) ?new Requested ts None None None None)"
          using new Inr p(2) q cmd' by (auto simp: may_create_def)
        show ?thesis
          apply (rule yields_bind [OF yields_create [OF p(3) c refl]], clarify)
          apply (rule yields_bind [OF yields_cache(2)], assumption)
          apply (rule yields_admit_request, assumption)
          by (simp_all add: transition_record_def new_response_def)
      qed
      done
  qed
  done

lemma yields_for_records:
  assumes "live s" and "\<And>r t. live t \<Longrightarrow> dict_get (o_records t) (r_id r) = Some r \<Longrightarrow> yields ts v (body r) t (\<lambda>x u. True)"
  shows "yields ts v (for_records body rids) s (\<lambda>x t. True)"
  using assms(1)
proof (induction rids arbitrary: s)
  case Nil
  then show ?case unfolding for_records.simps by (rule yields_done)
next
  case (Cons rid rids)
  show ?case
    unfolding for_records.simps
    apply (rule yields_bind [OF yields_get_record [OF Cons.prems]], clarify)
    apply (rule yields_bind [OF assms(2)], assumption, simp)
    apply (rule yields_bind [OF Cons.IH], assumption)
    by (rule yields_done)
qed

lemma yields_for_all_records:
  assumes "live s" and "\<And>r t. live t \<Longrightarrow> dict_get (o_records t) (r_id r) = Some r \<Longrightarrow> yields ts v (body r) t (\<lambda>x u. True)"
  shows "yields ts v (for_all_records body) s (\<lambda>x t. True)"
  by (rule yields_cong [OF _ yields_for_records [OF assms]]) (simp_all add: for_all_records_def)

lemma yields_revert_one:
  "live s \<Longrightarrow> dict_get (o_records s) (r_id r) = Some r \<Longrightarrow> r_state r \<in> {Applied, Verified} \<or> unresolved r \<Longrightarrow>
   st = Rolled_back \<or> st = Expired \<and> r_state r = Verified \<Longrightarrow>
   yields ts v (bindX (revert v r t' st cause) (\<lambda>x. returnX [x])) s (\<lambda>x t. True)"
  by (rule yields_bind [OF yields_revert yields_done])

lemma yields_expire_due:
  assumes "live s"
  shows "yields ts v (expire_due v clk now) s (\<lambda>x t. True)"
  unfolding expire_due_def
  apply (rule yields_serialized [OF assms])
  apply (rule yields_bind [OF yields_liftX [OF assms]], clarify)
  apply (rule yields_for_all_records [OF assms])
  by (auto simp: due_def intro!: yields_revert_one yields_done)

lemma yields_recover_pending:
  assumes "live s"
  shows "yields ts v (recover_pending v clk now) s (\<lambda>x t. True)"
  unfolding recover_pending_def
  apply (rule yields_serialized [OF assms])
  apply (rule yields_bind [OF yields_liftX [OF assms]], clarify)
  apply (rule yields_for_all_records [OF assms])
  by (auto simp: unresolved_def intro!: yields_revert_one yields_done)

lemma yields_rollback:
  assumes "live s"
  shows "yields ts v (rollback v clk rid cause now) s (\<lambda>x t. True)"
  unfolding rollback_def
  apply (rule yields_serialized [OF assms])
  apply (rule yields_bind [OF yields_liftX [OF assms]], clarify)
  apply (rule yields_bind [OF yields_liftX [OF assms]], clarify)
  apply (rule yields_bind [OF yields_get_record [OF assms]], clarify)
  apply (rule yields_bind [OF yields_liftX [OF assms]], clarify)
  subgoal for t' u r
    using assms by (intro yields_revert) (auto simp: guardR_def split: if_splits)
  done

section \<open>Operations of the orchestrator\<close>

datatype request =
    Submit pyval
  | Apply string
  | Verify string
  | Expire_due
  | Rollback string string
  | Recover_pending
  | Pending_apply
  | Awaiting_verification
  | Snapshot string
  | Audit_history string

definition exec :: "'w env \<Rightarrow> int \<Rightarrow> datetime option \<Rightarrow> request \<Rightarrow> 'w orch \<Rightarrow> 'w orch" where
  "exec v clk now q s = (case q of
     Submit c \<Rightarrow> snd (submit v clk c now s)
   | Apply rid \<Rightarrow> snd (apply_op v clk rid now s)
   | Verify rid \<Rightarrow> snd (verify_op v clk rid now s)
   | Expire_due \<Rightarrow> snd (expire_due v clk now s)
   | Rollback rid cause \<Rightarrow> snd (rollback v clk rid cause now s)
   | Recover_pending \<Rightarrow> snd (recover_pending v clk now s)
   | Pending_apply \<Rightarrow> snd (pending_apply s)
   | Awaiting_verification \<Rightarrow> snd (awaiting_verification s)
   | Snapshot rid \<Rightarrow> snd (snapshot_op rid s)
   | Audit_history rid \<Rightarrow> snd (audit_history rid s))"

lemma exec_failed: "o_failed s \<Longrightarrow> exec v clk now q s = s"
  by (cases q) (simp_all add: exec_def serialized_def submit_def apply_op_def verify_op_def expire_due_def rollback_def
      recover_pending_def pending_apply_def awaiting_verification_def snapshot_op_def audit_history_def)

lemma exec_queries:
  "snd (pending_apply s) = s" "snd (awaiting_verification s) = s" "snd (snapshot_op rid s) = s" "snd (audit_history rid s) = s"
  by (auto simp: serialized_def pending_apply_def awaiting_verification_def snapshot_op_def audit_history_def
      get_record_def bindX_def split: persist.splits option.splits)

lemma exec_bad_time:
  assumes "as_utc CommandRejected clk now = Inl e"
  shows "exec v clk now q s = s"
  using assms exec_queries [where s = s]
  by (cases q) (auto simp: exec_def serialized_def submit_def apply_op_def verify_op_def expire_due_def rollback_def
      recover_pending_def bindX_def guardR_def split: persist.splits)

text \<open>Every operation of a store-backed orchestrator, whatever it returns or raises, is a sequence of small steps.\<close>

lemma exec_steps:
  assumes "is_store (o_persist s)" "o_failed s \<or> ids_ok (o_records s)"
  shows "exec v clk now q s = s \<or> (\<exists>ts. as_utc CommandRejected clk now = Inr ts \<and> steps ts v s (exec v clk now q s))"
proof (cases "o_failed s")
  case True
  then show ?thesis by (simp add: exec_failed)
next
  case False
  then have l: "live s" using assms by (simp add: live_def)
  show ?thesis
  proof (cases "as_utc CommandRejected clk now")
    case (Inr ts)
    note ops = yields_submit [OF l Inr] yields_apply_op [OF l Inr] yields_verify_op [OF l] yields_expire_due [OF l]
      yields_rollback [OF l] yields_recover_pending [OF l]
    show ?thesis
      using ops [THEN yields_steps] exec_queries [where s = s] by (cases q) (simp_all add: exec_def Inr)
  qed (simp add: exec_bad_time)
qed

end
