(* ===== verification/Invariants.thy ===== *)
theory Invariants
  imports Protocol
begin

text \<open>
  Invariants of a store-backed orchestrator, proved once per small step of theory \<open>Protocol\<close> and
  lifted to every run of the system: any operations with any arguments, any pattern of commit
  failures, restarts at any point, and any change of policy catalog and adapters in between. Only
  the digest function and the verification keys stay fixed.
\<close>

section \<open>What holds of every row\<close>

text \<open>A response whose adapter may have an effect in force.\<close>

definition holding :: "snapshot \<Rightarrow> bool" where
  "holding s \<longleftrightarrow> sn_pending s \<noteq> None \<or> sn_state s = Failed \<and> sn_reference s \<noteq> None \<or> sn_state s \<in> {Applied, Verified}"

definition snap_ok :: "string set \<Rightarrow> snapshot \<Rightarrow> bool" where
  "snap_ok intents s \<longleftrightarrow>
     (sn_id s \<in> intents \<longleftrightarrow> sn_reference s \<noteq> None) \<and>
     (sn_pending s \<noteq> None \<longrightarrow> sn_reference s \<noteq> None) \<and>
     (sn_state s \<in> {Applied, Verified, Expired} \<longrightarrow> sn_reference s \<noteq> None) \<and>
     (sn_state s \<in> {Expired, Rolled_back} \<longrightarrow> sn_pending s = None) \<and>
     (sn_state s \<in> {Requested, Failed} \<and> sn_reference s \<noteq> None \<longrightarrow> sn_pending s \<noteq> None) \<and>
     (sn_reference s \<noteq> None \<longrightarrow> sn_authorized s)"

text \<open>The evidence an event must carry.\<close>

definition event_ok :: "audit_event \<Rightarrow> bool" where
  "event_ok e \<longleftrightarrow> (case ev_state e of
     Requested \<Rightarrow> True
   | Applied \<Rightarrow> (\<exists>a. ev_application e = Some a \<and> ap_reference a \<noteq> [])
   | Verified \<Rightarrow> (\<exists>a vf. ev_application e = Some a \<and> ev_verification e = Some vf \<and> vf_evidence vf \<noteq> [])
   | Failed \<Rightarrow> ev_failure e \<noteq> None
   | _ \<Rightarrow> (\<exists>rb. ev_rollback e = Some rb \<and> rb_evidence rb \<noteq> []))"

text \<open>The signed command behind a row, and that the whole history speaks of it.\<close>

definition origin_ok :: "(pyval \<Rightarrow> int \<Rightarrow> unit res) \<Rightarrow> prims \<Rightarrow> audit_event list \<Rightarrow> snapshot \<Rightarrow> bool" where
  "origin_ok vf pr h s \<longleftrightarrow> sn_id s = response_id pr (sget (sn_command s) ''idempotency_key'') \<and>
     (\<exists>x. in_range x \<and> sn_expires s = rfc3339 x) \<and>
     (\<exists>t. in_range t \<and> ev_timestamp (hd h) = rfc3339 t \<and> vf (sn_command s) t = Inr ()) \<and>
     (\<forall>e \<in> set h. \<not> event_differs (sn_command s) (sn_expires s) e \<and> event_ok e)"

definition exclusive_targets :: "store_row dict \<Rightarrow> bool" where
  "exclusive_targets rows \<longleftrightarrow> (\<forall>i j x y. dict_get rows i = Some x \<longrightarrow> dict_get rows j = Some y \<longrightarrow> i \<noteq> j \<longrightarrow>
     holding (row_snapshot x) \<longrightarrow> holding (row_snapshot y) \<longrightarrow>
     target_identity (sn_command (row_snapshot x)) \<noteq> target_identity (sn_command (row_snapshot y)))"

definition store_ok :: "(pyval \<Rightarrow> int \<Rightarrow> unit res) \<Rightarrow> prims \<Rightarrow> rstore \<Rightarrow> bool" where
  "store_ok vf pr st \<longleftrightarrow> store_inv pr st \<and> set (s_intents st) \<subseteq> set (dict_keys (s_records st)) \<and>
     (\<forall>rid row. dict_get (s_records st) rid = Some row \<longrightarrow>
        snap_ok (set (s_intents st)) (row_snapshot row) \<and> origin_ok vf pr (s_events st rid) (row_snapshot row)) \<and>
     exclusive_targets (s_records st)"

lemma store_ok_empty [simp]: "store_ok vf pr empty_store"
  using store_inv_empty [of pr] by (simp add: store_ok_def exclusive_targets_def) (simp add: empty_store_def)

text \<open>One commit keeps it, if the new snapshot is right.\<close>

lemma store_ok_commit:
  assumes ok: "store_ok vf pr st" and c: "checkpoint pr s ev st = Inr st'"
    and rid: "\<forall>e. ev = Some e \<longrightarrow> ev_response_id e = sn_id s"
    and snap: "snap_ok (set (s_intents st')) s"
    and orig: "origin_ok vf pr (s_events st (sn_id s) @ new_events (sn_id s) ev (sn_id s)) s"
    and excl: "\<And>j y. holding s \<Longrightarrow> dict_get (s_records st) j = Some y \<Longrightarrow> j \<noteq> sn_id s \<Longrightarrow> holding (row_snapshot y) \<Longrightarrow>
      target_identity (sn_command (row_snapshot y)) \<noteq> target_identity (sn_command s)"
  shows "store_ok vf pr st'"
proof -
  note step = checkpoint_step [OF c]
  have i: "store_inv pr st" using ok by (simp add: store_ok_def)
  have ri: "rows_inv (s_audit st)" using i by (simp add: store_inv_def)
  note evs = store_step_events(2) [OF step ri rid]
  have recs: "s_records st' = dict_set (sn_id s)
      \<lparr>row_command = canonical_json pr (sn_command s), row_expires = sn_expires s, row_snapshot = s\<rparr> (s_records st)"
    and ints: "s_intents st' = s_intents st @ (if claims_apply s ev then [sn_id s] else [])"
    using step by (simp_all add: store_step_def)
  have rows: "snap_ok (set (s_intents st')) (row_snapshot row) \<and> origin_ok vf pr (s_events st' j) (row_snapshot row)"
    if g: "dict_get (s_records st') j = Some row" for j row
  proof (cases "j = sn_id s")
    case True
    then have "row_snapshot row = s" using g by (auto simp: recs)
    then show ?thesis using snap orig True by (simp add: evs)
  next
    case False
    then have g': "dict_get (s_records st) j = Some row" using g by (simp add: recs)
    then have "sn_id (row_snapshot row) = j" using i by (simp add: store_inv_def row_ok_def)
    moreover have "s_events st' j = s_events st j" using False by (simp add: evs new_events_def split: option.splits)
    ultimately show ?thesis using ok g' False by (auto simp: store_ok_def ints snap_ok_def)
  qed
  have "exclusive_targets (s_records st')"
    unfolding exclusive_targets_def
  proof (intro allI impI)
    fix j k x y
    assume g: "dict_get (s_records st') j = Some x" "dict_get (s_records st') k = Some y" "j \<noteq> k"
      and h: "holding (row_snapshot x)" "holding (row_snapshot y)"
    consider "j = sn_id s" "k \<noteq> sn_id s" | "k = sn_id s" "j \<noteq> sn_id s" | "j \<noteq> sn_id s" "k \<noteq> sn_id s" using g(3) by blast
    then show "target_identity (sn_command (row_snapshot x)) \<noteq> target_identity (sn_command (row_snapshot y))"
    proof cases
      case 1
      then show ?thesis using g h excl [of k y] by (auto simp: recs)
    next
      case 2
      then show ?thesis using g h excl [of j x] by (auto simp: recs)
    next
      case 3
      then show ?thesis using g h ok unfolding store_ok_def exclusive_targets_def by (auto simp: recs)
    qed
  qed
  moreover have "set (s_intents st') \<subseteq> set (dict_keys (s_records st'))"
    using ok by (auto simp: store_ok_def ints recs dom_update)
  ultimately show ?thesis using store_inv_step [OF step i rid] rows by (simp add: store_ok_def)
qed

section \<open>Changes keep the rows right\<close>

lemma snapshot_of_simps [simp]:
  "sn_id (snapshot_of r) = r_id r" "sn_command (snapshot_of r) = r_command r" "sn_expires (snapshot_of r) = rfc3339 (r_expires r)"
  "sn_state (snapshot_of r) = r_state r" "sn_number (snapshot_of r) = r_number r" "sn_reference (snapshot_of r) = r_reference r"
  "sn_authorized (snapshot_of r) = r_authorized r" "sn_pending (snapshot_of r) = r_pending r" "sn_started (snapshot_of r) = r_started r"
  by (simp_all add: snapshot_of_def)

lemma transition_event_simps [simp]:
  "ev_response_id (transition_event v nm r st ts a b c d) = r_id r"
  "ev_state (transition_event v nm r st ts a b c d) = st"
  "ev_timestamp (transition_event v nm r st ts a b c d) = rfc3339 ts"
  "ev_application (transition_event v nm r st ts a b c d) = a"
  "ev_verification (transition_event v nm r st ts a b c d) = b"
  "ev_rollback (transition_event v nm r st ts a b c d) = c"
  "ev_failure (transition_event v nm r st ts a b c d) = d"
  "\<not> event_differs (r_command r) (rfc3339 (r_expires r)) (transition_event v nm r st ts a b c d)"
  by (simp_all add: transition_event_def build_event_def event_differs_def)

lemma transition_record_more [simp]:
  "r_number (transition_record r st cl) = r_number r + 1" "r_reference (transition_record r st cl) = r_reference r"
  "r_authorized (transition_record r st cl) = r_authorized r"
  "r_pending (transition_record r st cl) = (if cl then None else r_pending r)"
  by (simp_all add: transition_record_def)

lemma change_same:
  assumes "change v r r' ev"
  shows "r_id r' = r_id r" "r_command r' = r_command r" "r_expires r' = r_expires r"
  using assms by (induction rule: change.induct) simp_all

lemma change_event:
  assumes "change v r r' (Some e)"
  shows "ev_response_id e = r_id r" "\<not> event_differs (r_command r) (rfc3339 (r_expires r)) e" "event_ok e"
proof -
  have "ev_response_id e = r_id r \<and> \<not> event_differs (r_command r) (rfc3339 (r_expires r)) e \<and> event_ok e"
    using assms
  proof (cases rule: change.cases)
    case (Mark_applied ref nm ts)
    have "\<not> event_differs (r_command (r\<lparr>r_reference := Some ref\<rparr>)) (rfc3339 (r_expires (r\<lparr>r_reference := Some ref\<rparr>))) e"
      unfolding Mark_applied(2) by (rule transition_event_simps(8))
    then show ?thesis using Mark_applied by (simp add: event_ok_def)
  qed (auto simp: event_ok_def)
  then show "ev_response_id e = r_id r" "\<not> event_differs (r_command r) (rfc3339 (r_expires r)) e" "event_ok e" by simp_all
qed

lemma change_snap:
  assumes "change v r r' ev" "snap_ok I (snapshot_of r)"
  shows "snap_ok I (snapshot_of r')" "holding (snapshot_of r') \<Longrightarrow> holding (snapshot_of r)" "\<not> claims_apply (snapshot_of r') ev"
  using assms
  by (induction rule: change.induct) (auto simp: snap_ok_def holding_def claims_apply_def unresolved_def)

section \<open>Memory agrees with the store\<close>

definition agree :: "rstore \<Rightarrow> resp dict \<Rightarrow> bool" where
  "agree st recs \<longleftrightarrow> distinct (dict_keys recs) \<and> set (dict_keys recs) = set (dict_keys (s_records st)) \<and>
     (\<forall>rid r. dict_get recs rid = Some r \<longrightarrow> r_id r = rid \<and>
        (\<exists>row. dict_get (s_records st) rid = Some row \<and> row_snapshot row = snapshot_of r))"

definition sys_ok :: "(pyval \<Rightarrow> int \<Rightarrow> unit res) \<Rightarrow> prims \<Rightarrow> 'w orch \<Rightarrow> bool" where
  "sys_ok vf pr s \<longleftrightarrow> (\<exists>st fs. o_persist s = PStore st fs \<and> store_ok vf pr st \<and> (\<not> o_failed s \<longrightarrow> agree st (o_records s)))"

lemma agree_commit:
  assumes "agree st recs" "checkpoint pr (snapshot_of r) ev st = Inr st'"
  shows "agree st' (dict_set (r_id r) r recs)"
proof -
  have recs: "s_records st' = dict_set (r_id r) \<lparr>row_command = canonical_json pr (r_command r),
      row_expires = rfc3339 (r_expires r), row_snapshot = snapshot_of r\<rparr> (s_records st)"
    using checkpoint_step [OF assms(2)] by (simp add: store_step_def)
  then show ?thesis
    using assms(1) unfolding agree_def by (auto simp: distinct_update dom_update)
qed

lemma agree_row:
  assumes "store_ok vf pr st" "agree st recs" "dict_get recs (r_id r) = Some r"
  shows "snap_ok (set (s_intents st)) (snapshot_of r)" "origin_ok vf pr (s_events st (r_id r)) (snapshot_of r)"
    "\<exists>row. dict_get (s_records st) (r_id r) = Some row \<and> row_snapshot row = snapshot_of r"
  using assms unfolding store_ok_def agree_def by metis+

lemma history_not_empty:
  assumes "store_ok vf pr st" "dict_get (s_records st) rid = Some row"
  shows "s_events st rid \<noteq> []"
  using assms by (auto simp: store_ok_def store_inv_def row_ok_def matches_latest_def s_latest_def last_event_def split: if_splits)

lemma origin_ok_extend:
  assumes "origin_ok vf pr h (snapshot_of r)" "h \<noteq> []" "\<forall>e \<in> set h'. \<not> event_differs (r_command r) (rfc3339 (r_expires r)) e \<and> event_ok e"
    and "r_id r' = r_id r" "r_command r' = r_command r" "r_expires r' = r_expires r"
  shows "origin_ok vf pr (h @ h') (snapshot_of r')"
  using assms by (auto simp: origin_ok_def)

text \<open>A committed change.\<close>

lemma store_ok_change:
  assumes ok: "store_ok vf pr st" and a: "agree st recs" and g: "dict_get recs (r_id r) = Some r"
    and ch: "change v r r' ev" and c: "checkpoint pr (snapshot_of r') ev st = Inr st'"
  shows "store_ok vf pr st'"
proof -
  note row = agree_row [OF ok a g] and same = change_same [OF ch] and snap = change_snap [OF ch agree_row(1) [OF ok a g]]
  obtain rw where rw: "dict_get (s_records st) (r_id r) = Some rw" "row_snapshot rw = snapshot_of r" using row(3) by blast
  have "s_intents st' = s_intents st" using checkpoint_step [OF c] snap(3) by (simp add: store_step_def)
  show ?thesis
  proof (rule store_ok_commit [OF ok c])
    show "\<forall>e. ev = Some e \<longrightarrow> ev_response_id e = sn_id (snapshot_of r')"
      using change_event(1) [of v r r'] ch same by auto
    show "snap_ok (set (s_intents st')) (snapshot_of r')" using snap(1) \<open>s_intents st' = s_intents st\<close> by simp
    show "origin_ok vf pr (s_events st (sn_id (snapshot_of r')) @ new_events (sn_id (snapshot_of r')) ev (sn_id (snapshot_of r'))) (snapshot_of r')"
      using origin_ok_extend [OF row(2) history_not_empty [OF ok rw(1)] _ same] change_event [of v r r'] ch same
      by (auto simp: new_events_def split: option.splits)
    fix j y
    assume "holding (snapshot_of r')" "dict_get (s_records st) j = Some y" "j \<noteq> sn_id (snapshot_of r')" "holding (row_snapshot y)"
    then show "target_identity (sn_command (row_snapshot y)) \<noteq> target_identity (sn_command (snapshot_of r'))"
      using ok rw snap(2) same unfolding store_ok_def exclusive_targets_def
      by (metis snapshot_of_simps(1,2))
  qed
qed

lemma target_available_other:
  assumes "target_available r rs = Inr ()" "other \<in> set rs" "r_id other \<noteq> r_id r" "holding (snapshot_of other)"
  shows "target_identity (r_command other) \<noteq> target_identity (r_command r)"
  using assms
proof (induction rs)
  case (Cons x xs)
  then show ?case
    by (auto simp: holding_def unresolved_def bindR_eq_Inr split: if_splits)
qed simp

lemma agree_other:
  assumes "agree st recs" "dict_get (s_records st) j = Some y"
  obtains q where "dict_get recs j = Some q" "r_id q = j" "row_snapshot y = snapshot_of q" "q \<in> set (dict_values recs)"
proof -
  have "j \<in> set (dict_keys (s_records st))" using assms(2) dict_get_None_iff [of "s_records st" j] by auto
  then have "j \<in> set (dict_keys recs)" using assms(1) by (simp add: agree_def)
  then obtain q where q: "dict_get recs j = Some q" using dict_get_None_iff [of recs j] by (cases "dict_get recs j") auto
  moreover have "q \<in> set (dict_values recs)" using map_of_SomeD [OF q] by force
  moreover have "r_id q = j" "row_snapshot y = snapshot_of q" using assms q unfolding agree_def by force+
  ultimately show thesis by (intro that)
qed

text \<open>A committed start of an application.\<close>

lemma store_ok_start:
  assumes ok: "store_ok vf pr st" and a: "agree st recs" and g: "dict_get recs (r_id r) = Some r"
    and m: "may_apply v recs r ad ref ts" and c: "checkpoint pr (snapshot_of (applying r ref ts)) None st = Inr st'"
  shows "store_ok vf pr st'"
proof -
  let ?r = "applying r ref ts"
  note row = agree_row [OF ok a g]
  have r: "r_id ?r = r_id r" "r_command ?r = r_command r" "r_expires ?r = r_expires r" "r_pending ?r = Some Op_apply"
    "r_reference ?r = Some ref" "r_state ?r = Requested" "r_authorized ?r"
    using m by (simp_all add: applying_def may_apply_def)
  obtain rw where rw: "dict_get (s_records st) (r_id r) = Some rw" using row(3) by blast
  have ints: "s_intents st' = s_intents st @ [r_id r]"
    using checkpoint_step [OF c] r by (simp add: store_step_def claims_apply_def)
  show ?thesis
  proof (rule store_ok_commit [OF ok c])
    show "snap_ok (set (s_intents st')) (snapshot_of ?r)" by (simp add: snap_ok_def ints r)
    show "origin_ok vf pr (s_events st (sn_id (snapshot_of ?r)) @ new_events (sn_id (snapshot_of ?r)) None (sn_id (snapshot_of ?r))) (snapshot_of ?r)"
      using origin_ok_extend [OF row(2) history_not_empty [OF ok rw] _ r(1-3), of "[]"] by (simp add: new_events_def r)
    fix j y
    assume y: "dict_get (s_records st) j = Some y" "j \<noteq> sn_id (snapshot_of ?r)" "holding (row_snapshot y)"
    obtain q where "r_id q = j" "row_snapshot y = snapshot_of q" "q \<in> set (dict_values recs)" using agree_other [OF a y(1)] by blast
    then show "target_identity (sn_command (row_snapshot y)) \<noteq> target_identity (sn_command (snapshot_of ?r))"
      using target_available_other [of r "dict_values recs" q] m y r by (simp add: may_apply_def)
  qed simp
qed

lemma validate_command_verified:
  "validate_command v cmd ts = Inr c \<Longrightarrow> c = cmd \<and> v_verify v cmd ts = Inr ()"
proof -
  have t: "tryR m (\<lambda>e. case e of CorrelationRejected x \<Rightarrow> Inl (CommandRejected x) | _ \<Rightarrow> Inl e) = Inr () \<Longrightarrow> m = Inr ()"
    for m :: "unit res" by (cases m) (auto split: exn.splits)
  assume "validate_command v cmd ts = Inr c"
  then show ?thesis
    unfolding validate_command_def check_authorization_def Let_def
    by (elim bind_guardR_InrE bindR_InrE) (auto dest: t)
qed

text \<open>A committed submission.\<close>

lemma store_ok_create:
  assumes ok: "store_ok vf pr st" and a: "agree st recs" and m: "may_create v recs cmd ts r e" and "in_range ts"
    and v: "v_prims v = pr" "v_verify v = vf" and c: "checkpoint pr (snapshot_of r) (Some e) st = Inr st'"
  shows "store_ok vf pr st'"
proof -
  obtain r0 ad where "r0 = new_response (response_id pr (sget cmd ''idempotency_key'')) cmd ts" "validate_command v cmd ts = Inr cmd"
    "in_range (r_expires r0)" "r_id r0 \<notin> set (dict_keys recs)" "r = transition_record r0 Requested False" "adapter_for v r0 = Inr ad"
    "e = transition_event v (ad_name ad) r0 Requested ts None None None None"
    using m unfolding may_create_def v(1) by (elim exE conjE) (rule that; assumption)
  then have vc: "validate_command v cmd ts = Inr cmd" and new: "r_id r \<notin> set (dict_keys recs)"
    and e: "e = transition_event v (ad_name ad) (new_response (response_id pr (sget cmd ''idempotency_key'')) cmd ts) Requested ts None None None None"
    and r: "r = transition_record (new_response (response_id pr (sget cmd ''idempotency_key'')) cmd ts) Requested False"
    and x: "in_range (r_expires r)"
    by simp_all
  have rs: "r_id r = response_id pr (sget cmd ''idempotency_key'')" "r_command r = cmd" "r_reference r = None"
    "r_pending r = None" "r_state r = Requested"
    by (simp_all add: r new_response_def)
  have ne: "r_id r \<notin> set (dict_keys (s_records st))" using new a by (simp add: agree_def)
  then have h: "s_events st (r_id r) = []" and ni: "r_id r \<notin> set (s_intents st)" using ok by (auto simp: store_ok_def store_inv_def)
  have evr: "ev_response_id e = r_id r" by (simp add: e r)
  have ints: "s_intents st' = s_intents st" using checkpoint_step [OF c] by (simp add: store_step_def claims_apply_def)
  show ?thesis
  proof (rule store_ok_commit [OF ok c])
    show "\<forall>x. Some e = Some x \<longrightarrow> ev_response_id x = sn_id (snapshot_of r)" using evr by simp
    show "snap_ok (set (s_intents st')) (snapshot_of r)" using ni by (simp add: snap_ok_def ints rs)
    have d: "\<not> event_differs cmd (rfc3339 (r_expires r)) e"
      using transition_event_simps(8) [of "new_response (response_id pr (sget cmd ''idempotency_key'')) cmd ts"]
      by (simp add: e r new_response_def)
    have ek: "event_ok e" and et: "ev_timestamp e = rfc3339 ts" by (simp_all add: e event_ok_def)
    show "origin_ok vf pr (s_events st (sn_id (snapshot_of r)) @ new_events (sn_id (snapshot_of r)) (Some e) (sn_id (snapshot_of r))) (snapshot_of r)"
      using validate_command_verified [OF vc] v x assms(4) d ek et
      unfolding origin_ok_def new_events_def snapshot_of_simps h by (auto simp: rs)
  qed (simp add: holding_def rs)
qed

lemma poisoned_ok:
  assumes "sys_ok vf pr s" "poisoned v r ev s s'" "v_prims v = pr"
    and "\<And>st fs st'. o_persist s = PStore st fs \<Longrightarrow> store_ok vf pr st \<Longrightarrow> checkpoint pr (snapshot_of r) ev st = Inr st' \<Longrightarrow> store_ok vf pr st'"
  shows "sys_ok vf pr s'"
  using assms unfolding sys_ok_def poisoned_def by auto

theorem micro_ok [invariant_rules]:
  assumes "micro ts v s s'" "sys_ok vf pr s" "v_prims v = pr" "v_verify v = vf" "in_range ts"
  shows "sys_ok vf pr s'"
  using assms
proof (induction rule: micro.induct)
  case (Create s cmd r e st fs st' fs')
  then show ?case
    using store_ok_create [of vf pr st "o_records s" v cmd ts r e st'] agree_commit [of st "o_records s" pr r "Some e" st']
    by (auto simp: sys_ok_def)
next
  case (Create_fail s cmd r e s')
  then show ?case
    by (intro poisoned_ok [OF Create_fail.prems(1) Create_fail.hyps(3)]) (auto simp: sys_ok_def intro: store_ok_create)
next
  case (Change s r r' ev st fs st' fs')
  then show ?case
    using store_ok_change [of vf pr st "o_records s" r v r' ev st'] agree_commit [of st "o_records s" pr r' ev st'] change_same(1) [of v r r' ev]
    by (auto simp: sys_ok_def)
next
  case (Change_fail s r r' ev s')
  then show ?case
    by (intro poisoned_ok [OF Change_fail.prems(1) Change_fail.hyps(4)]) (auto simp: sys_ok_def intro: store_ok_change)
next
  case (Start s r a ref st fs st' w fs')
  then show ?case
    using store_ok_start [of vf pr st "o_records s" r v a ref ts st'] agree_commit [of st "o_records s" pr "applying r ref ts" None st']
    by (auto simp: sys_ok_def applying_def)
next
  case (Start_fail s r a ref s')
  then show ?case
    by (intro poisoned_ok [OF Start_fail.prems(1) Start_fail.hyps(4)]) (auto simp: sys_ok_def intro: store_ok_start)
qed (auto simp: sys_ok_def)

section \<open>Restarts\<close>

lemma foldl_dict_set_distinct:
  "distinct (map k rs) \<Longrightarrow> set (map k rs) \<inter> set (dict_keys d) = {} \<Longrightarrow>
   foldl (\<lambda>d r. dict_set (k r) r d) d rs = d @ map (\<lambda>r. (k r, r)) rs"
proof (induction rs arbitrary: d)
  case (Cons r rs)
  then have "dict_set (k r) r d = d @ [(k r, r)]" by (intro dict_set_new) auto
  then show ?case using Cons by auto
qed simp

lemma restore_one_Inr:
  assumes "restore_one v events s = Inr r"
  shows "\<exists>x. parse_rfc3339 CommandRejected (PStr (sn_expires s)) = Inr x \<and> r = resp_of x s"
  using assms unfolding restore_one_def Let_def by (auto simp: res_success split: if_splits)

lemma resp_of_snapshot:
  assumes "in_range x" "sn_expires s = rfc3339 x" "parse_rfc3339 CommandRejected (PStr (sn_expires s)) = Inr y"
  shows "snapshot_of (resp_of y s) = s" "y = cut_ms x"
proof -
  show y: "y = cut_ms x" using assms parse_rfc3339_rfc3339 [OF assms(1), of CommandRejected] by simp
  show "snapshot_of (resp_of y s) = s"
    by (simp add: snapshot_of_def resp_of_def y assms(2) [symmetric])
qed

lemma store_ok_snapshots:
  assumes "store_ok vf pr st" "rows = s_records st"
  shows "distinct (map (\<lambda>row. sn_id (row_snapshot row)) (dict_values rows))"
    and "map (\<lambda>row. sn_id (row_snapshot row)) (dict_values rows) = dict_keys rows"
proof -
  have d: "distinct (dict_keys rows)" using assms by (simp add: store_ok_def store_inv_def)
  have "sn_id (row_snapshot row) = rid" if "(rid, row) \<in> set rows" for rid row
    using assms that map_of_is_SomeI [OF d that] by (auto simp: store_ok_def store_inv_def row_ok_def)
  then show m: "map (\<lambda>row. sn_id (row_snapshot row)) (dict_values rows) = dict_keys rows"
    by (auto simp: comp_def)
  show "distinct (map (\<lambda>row. sn_id (row_snapshot row)) (dict_values rows))" unfolding m by (rule d)
qed

text \<open>What a restart that succeeds brings back is what the store holds.\<close>

lemma start_agrees:
  assumes ok: "store_ok vf pr st" and s: "start_from_store v st fs w = Inr s"
  shows "\<exists>st1. o_persist s = PStore st1 fs \<and> st1 = st\<lparr>s_claimed := True\<rparr> \<and> agree st1 (o_records s) \<and> \<not> o_failed s \<and> o_world s = w"
proof -
  let ?st = "st\<lparr>s_claimed := True\<rparr>"
  let ?snaps = "map row_snapshot (dict_values (s_records st))"
  obtain rs where rs: "mapR (restore_one v (s_events ?st)) ?snaps = Inr rs"
    and s': "s = \<lparr>o_persist = PStore ?st fs, o_failed = False,
       o_records = foldl (\<lambda>d r. dict_set (r_id r) r d) [] rs, o_dedup = [], o_world = w\<rparr>"
    using s by (auto simp: start_from_store_def s_claim_def s_load_def exclusive_def Let_def res_success split: if_splits)
  have each: "snapshot_of (rs ! i) = ?snaps ! i" if i: "i < length ?snaps" for i
  proof -
    obtain rid row where "(rid, row) \<in> set (s_records st)" and row: "?snaps ! i = row_snapshot row"
      using i by (auto simp: in_set_conv_nth) (metis nth_mem prod.collapse)
    then have "dict_get (s_records st) rid = Some row"
      using ok by (intro map_of_is_SomeI) (simp_all add: store_ok_def store_inv_def)
    then obtain x where x: "in_range x" "sn_expires (row_snapshot row) = rfc3339 x"
      using ok unfolding store_ok_def origin_ok_def by blast
    have "restore_one v (s_events ?st) (row_snapshot row) = Inr (rs ! i)" using mapR_nth [OF rs i] row by simp
    from restore_one_Inr [OF this] show ?thesis using resp_of_snapshot [OF x] row by auto
  qed
  have len: "length rs = length ?snaps" using mapR_length [OF rs] .
  have snaps: "map snapshot_of rs = ?snaps" using each len by (intro nth_equalityI) simp_all
  have ids: "map r_id rs = dict_keys (s_records st)"
  proof -
    have "map r_id rs = map sn_id (map snapshot_of rs)" by simp
    also have "\<dots> = dict_keys (s_records st)" unfolding snaps using store_ok_snapshots(2) [OF ok refl] by simp
    finally show ?thesis .
  qed
  have dist: "distinct (map r_id rs)" unfolding ids using ok by (simp add: store_ok_def store_inv_def)
  have recs: "o_records s = map (\<lambda>r. (r_id r, r)) rs"
    using foldl_dict_set_distinct [OF dist, of "[]"] by (simp add: s')
  have found: "\<exists>row. dict_get (s_records st) (r_id r) = Some row \<and> row_snapshot row = snapshot_of r" if mem: "r \<in> set rs" for r
  proof -
    from mem [unfolded in_set_conv_nth] obtain i where i: "i < length rs" "rs ! i = r" by (elim exE conjE)
    let ?p = "s_records st ! i"
    have "fst ?p = r_id r" using arg_cong [OF ids, of "\<lambda>l. l ! i"] i len by simp
    moreover have "row_snapshot (snd ?p) = snapshot_of r" using each [of i] i len by simp
    moreover have "(fst ?p, snd ?p) \<in> set (s_records st)" using i len by simp
    then have "dict_get (s_records st) (fst ?p) = Some (snd ?p)"
      using ok by (intro map_of_is_SomeI) (simp_all add: store_ok_def store_inv_def)
    ultimately show ?thesis by metis
  qed
  have mem: "r_id r = rid \<and> r \<in> set rs" if "dict_get (o_records s) rid = Some r" for rid r
    using map_of_SomeD [OF that] by (auto simp: recs)
  have "dict_keys (o_records s) = dict_keys (s_records st)" using ids by (simp add: recs comp_def)
  moreover have "distinct (dict_keys (s_records st))" using ok by (simp add: store_ok_def store_inv_def)
  moreover have "r_id r = rid \<and> (\<exists>row. dict_get (s_records st) rid = Some row \<and> row_snapshot row = snapshot_of r)"
    if "dict_get (o_records s) rid = Some r" for rid r
    using mem [OF that] found [of r] by blast
  ultimately have "agree st (o_records s)" unfolding agree_def by simp
  then have "agree ?st (o_records s)" by (simp add: agree_def)
  then show ?thesis by (simp add: s')
qed

text \<open>With the verification keys it was written with, the store can always be taken over again.\<close>

context command_verifier
begin

lemma restore_one_ok:
  assumes o: "origin_ok verify pr h s" and h: "events (sn_id s) = h" and v: "v_prims v = pr" "v_verify v = verify"
  shows "\<exists>r. restore_one v events s = Inr r"
proof -
  obtain x t where x: "in_range x" "sn_expires s = rfc3339 x"
    and t: "in_range t" "ev_timestamp (hd h) = rfc3339 t" "verify (sn_command s) t = Inr ()"
    and id: "sn_id s = response_id pr (sget (sn_command s) ''idempotency_key'')"
    and e: "\<forall>e \<in> set h. \<not> event_differs (sn_command s) (sn_expires s) e"
    using o unfolding origin_ok_def by blast
  have "verify (sn_command s) (cut_ms t) = Inr ()" using verify_earlier [OF t(3) cut_ms_le] .
  moreover have "\<not> list_ex (event_differs (sn_command s) (rfc3339 x)) h" using e x by (auto simp: list_ex_iff)
  ultimately show ?thesis
    using id h v by (simp add: restore_one_def x parse_rfc3339_rfc3339 resp_of_def t(1,2) Let_def)
qed

lemma restart_succeeds:
  assumes ok: "store_ok verify pr st" and v: "v_prims v = pr" "v_verify v = verify" and fresh: "\<not> s_claimed st" "\<not> s_closed st"
  shows "\<exists>s. start_from_store v st fs w = Inr s"
proof -
  let ?st = "st\<lparr>s_claimed := True\<rparr>"
  let ?rows = "dict_values (s_records st)"
  have row: "matches_latest ?st (row_snapshot row) \<and> (\<exists>r. restore_one v (s_events ?st) (row_snapshot row) = Inr r)"
    if r: "row \<in> set ?rows" for row
  proof -
    obtain rid where "(rid, row) \<in> set (s_records st)" using r by force
    then have g: "dict_get (s_records st) rid = Some row"
      using ok by (intro map_of_is_SomeI) (simp_all add: store_ok_def store_inv_def)
    then have "row_ok pr st rid row" and o: "origin_ok verify pr (s_events st rid) (row_snapshot row)"
      using ok unfolding store_ok_def store_inv_def by blast+
    moreover have "s_events ?st rid = s_events st rid" by (simp add: s_events_def)
    ultimately show ?thesis
      using restore_one_ok [OF o _ v, of "s_events ?st"] matches_latest_cong [of ?st st] by (simp add: row_ok_def)
  qed
  have "\<exists>rs. mapR (restore_one v (s_events ?st)) (map row_snapshot rows) = Inr rs" if "set rows \<subseteq> set ?rows" for rows
    using that
  proof (induction rows)
    case (Cons x xs)
    then obtain r rs where "restore_one v (s_events ?st) (row_snapshot x) = Inr r"
        "mapR (restore_one v (s_events ?st)) (map row_snapshot xs) = Inr rs"
      using row [of x] by auto
    then show ?case by simp
  qed simp
  then obtain rs where "mapR (restore_one v (s_events ?st)) (map row_snapshot ?rows) = Inr rs" by blast
  then show ?thesis
    using row fresh by (auto simp: start_from_store_def s_claim_def s_load_def exclusive_def Let_def list_all_iff)
qed

end

section \<open>Every run of the system\<close>

text \<open>
  \<open>ext\<close> says how the outside world may move by itself. An operation may be any request at any time
  with any policy catalog and adapters; the store may be closed, its export marks set, and the
  process restarted over it.
\<close>

definition allowed_env :: "(pyval \<Rightarrow> int \<Rightarrow> unit res) \<Rightarrow> prims \<Rightarrow> 'w env \<Rightarrow> bool" where
  "allowed_env vf pr v \<longleftrightarrow> v_prims v = pr \<and> v_verify v = vf"

definition allowed_time :: "int \<Rightarrow> datetime option \<Rightarrow> bool" where
  "allowed_time clk now \<longleftrightarrow> (\<forall>ts. as_utc CommandRejected clk now = Inr ts \<longrightarrow> in_range ts)"

inductive reach :: "(pyval \<Rightarrow> int \<Rightarrow> unit res) \<Rightarrow> prims \<Rightarrow> 'w env set \<Rightarrow> ('w \<Rightarrow> 'w \<Rightarrow> bool) \<Rightarrow> 'w \<Rightarrow> 'w orch \<Rightarrow> bool"
  for vf pr V ext w0 where
  Boot: "v \<in> V \<Longrightarrow> start_from_store v empty_store fs w0 = Inr s \<Longrightarrow> reach vf pr V ext w0 s"
| Exec: "reach vf pr V ext w0 s \<Longrightarrow> v \<in> V \<Longrightarrow> allowed_env vf pr v \<Longrightarrow> allowed_time clk now \<Longrightarrow>
    reach vf pr V ext w0 (exec v clk now q s)"
| Restart: "reach vf pr V ext w0 s \<Longrightarrow> o_persist s = PStore st fs \<Longrightarrow> open_store st = Inr st1 \<Longrightarrow> v \<in> V \<Longrightarrow>
    start_from_store v st1 fs' (o_world s) = Inr s' \<Longrightarrow> reach vf pr V ext w0 s'"
| Export: "reach vf pr V ext w0 s \<Longrightarrow> o_persist s = PStore st fs \<Longrightarrow> mark_exported i st = Inr st' \<Longrightarrow>
    reach vf pr V ext w0 (s\<lparr>o_persist := PStore st' fs\<rparr>)"
| Close: "reach vf pr V ext w0 s \<Longrightarrow> o_persist s = PStore st fs \<Longrightarrow> reach vf pr V ext w0 (s\<lparr>o_persist := PStore (s_close st) fs\<rparr>)"
| World: "reach vf pr V ext w0 s \<Longrightarrow> ext (o_world s) w \<Longrightarrow> reach vf pr V ext w0 (s\<lparr>o_world := w\<rparr>)"

lemma store_ok_flags [simp]:
  "store_ok vf pr (st\<lparr>s_exported := x\<rparr>) = store_ok vf pr st"
  "store_ok vf pr (st\<lparr>s_claimed := b\<rparr>) = store_ok vf pr st"
  "store_ok vf pr (st\<lparr>s_closed := c\<rparr>) = store_ok vf pr st"
  by (simp_all add: store_ok_def s_events_def)

lemma agree_flags [simp]:
  "agree (st\<lparr>s_exported := x\<rparr>) recs = agree st recs" "agree (st\<lparr>s_claimed := b\<rparr>) recs = agree st recs"
  "agree (st\<lparr>s_closed := c\<rparr>) recs = agree st recs"
  by (simp_all add: agree_def)

lemma steps_ok:
  assumes "steps ts v s s'" "sys_ok vf pr s" "allowed_env vf pr v" "in_range ts"
  shows "sys_ok vf pr s'"
  using assms(1,2) unfolding steps_def
  by (induction rule: rtranclp_induct) (use assms(3,4) in \<open>auto simp: allowed_env_def intro: micro_ok\<close>)

lemma sys_ok_ids: "sys_ok vf pr s \<Longrightarrow> is_store (o_persist s) \<and> (o_failed s \<or> ids_ok (o_records s))"
  by (auto simp: sys_ok_def is_store_def agree_def ids_ok_def)

theorem reach_ok:
  assumes "reach vf pr V ext w0 s"
  shows "sys_ok vf pr s"
  using assms
proof (induction rule: reach.induct)
  case (Boot v fs s)
  from start_agrees [OF store_ok_empty [of vf pr] Boot(2)] show ?case by (auto simp: sys_ok_def)
next
  case (Exec s v clk now q)
  have "exec v clk now q s = s \<or> (\<exists>ts. as_utc CommandRejected clk now = Inr ts \<and> steps ts v s (exec v clk now q s))"
    using sys_ok_ids [OF Exec.IH] by (intro exec_steps) auto
  then show ?case using Exec steps_ok [of _ v s "exec v clk now q s" vf pr] by (auto simp: allowed_time_def)
next
  case (Restart s st fs st1 v fs' s')
  then have ok: "store_ok vf pr st" by (auto simp: sys_ok_def)
  then have "st1 = st\<lparr>s_claimed := False, s_closed := False\<rparr>"
    using Restart.hyps(3) open_store_inv [of pr st] by (simp add: store_ok_def)
  then have "store_ok vf pr st1" using ok by simp
  from start_agrees [OF this Restart.hyps(5)] this show ?case by (auto simp: sys_ok_def)
next
  case (Export s st fs i st')
  then show ?case by (auto simp: sys_ok_def dest!: mark_exported_Inr)
qed (auto simp: sys_ok_def s_close_def)

section \<open>Application happens at most once\<close>

text \<open>An adapter whose world also logs the idempotency key of every call of \<^verbatim>\<open>apply\<close>.\<close>

definition logged :: "'w adapter \<Rightarrow> ('w \<times> string list) adapter" where
  "logged a = \<lparr>ad_name = ad_name a, ad_action = ad_action a, ad_recovery_reference = ad_recovery_reference a,
     ad_apply = (\<lambda>c (w, l). case ad_apply a c w of (r, w') \<Rightarrow> (r, (w', l @ [sget c ''idempotency_key'']))),
     ad_verify = (\<lambda>c ref (w, l). case ad_verify a c ref w of (r, w') \<Rightarrow> (r, (w', l))),
     ad_revert = (\<lambda>c ref (w, l). case ad_revert a c ref w of (r, w') \<Rightarrow> (r, (w', l)))\<rparr>"

definition logged_env :: "('w \<times> string list) env \<Rightarrow> bool" where
  "logged_env v \<longleftrightarrow> (\<forall>k a. dict_get (v_adapters v) k = Some a \<longrightarrow> (\<exists>b. a = logged b))"

definition apply_log :: "('w \<times> string list) orch \<Rightarrow> string list" where
  "apply_log s = snd (o_world s)"

lemma logged_calls:
  "snd (snd (ad_apply (logged b) c w)) = snd w @ [sget c ''idempotency_key'']"
  "snd (snd (ad_verify (logged b) c ref w)) = snd w"
  "snd (snd (ad_revert (logged b) c ref w)) = snd w"
  by (cases w; simp add: logged_def split: prod.splits)+

lemma logged_adapter_for: "logged_env v \<Longrightarrow> adapter_for v r = Inr a \<Longrightarrow> \<exists>b. a = logged b"
  by (auto simp: logged_env_def adapter_for_def split: option.splits)

lemma other_call_log: "other_call v r call \<Longrightarrow> logged_env v \<Longrightarrow> snd (snd (call w)) = snd w"
  by (induction rule: other_call.induct) (auto dest!: logged_adapter_for simp: logged_calls)

text \<open>The log only grows by the key of a response that passed every check at that instant.\<close>

definition applied_now :: "int \<Rightarrow> 'w env \<Rightarrow> string \<Rightarrow> bool" where
  "applied_now ts v key \<longleftrightarrow> (\<exists>r :: resp. sget (r_command r) ''idempotency_key'' = key \<and> r_state r = Requested \<and> r_authorized r \<and>
     r_reference r = None \<and> ts < r_expires r \<and> validate_command v (r_command r) ts = Inr (r_command r) \<and>
     target_allowed v (r_command r) = Inr ())"

lemma may_apply_checked: "may_apply v recs r a ref ts \<Longrightarrow> applied_now ts v (sget (r_command r) ''idempotency_key'')"
  unfolding applied_now_def may_apply_def reauthorize_def
  by (rule exI [of _ r]) (auto simp: bindR_eq_Inr dest: validate_command_verified)

lemma micro_log:
  assumes "micro ts v s s'" "logged_env v"
  shows "apply_log s' = apply_log s \<or> (\<exists>key. applied_now ts v key \<and> apply_log s' = apply_log s @ [key])"
  using assms
proof (induction rule: micro.induct)
  case (Start s r a ref st fs st' w fs')
  then obtain b where "a = logged b" by (auto simp: may_apply_def dest: logged_adapter_for)
  then show ?case using Start may_apply_checked by (auto simp: apply_log_def logged_calls)
qed (auto simp: apply_log_def poisoned_def other_call_log)

lemma steps_log:
  assumes "steps ts v s s'" "logged_env v"
  shows "\<exists>keys. apply_log s' = apply_log s @ keys \<and> (\<forall>key \<in> set keys. applied_now ts v key)"
  using assms(1) unfolding steps_def
proof (induction rule: rtranclp_induct)
  case (step t u)
  then obtain keys where "apply_log t = apply_log s @ keys" "\<forall>key \<in> set keys. applied_now ts v key" by blast
  then show ?case using micro_log [OF step.hyps(2) assms(2)] by (auto intro: exI [of _ "keys @ [_]"])
qed simp

text \<open>Every logged key has its durable intent, and no key is logged twice.\<close>

definition log_ok :: "prims \<Rightarrow> ('w \<times> string list) orch \<Rightarrow> bool" where
  "log_ok pr s \<longleftrightarrow> distinct (apply_log s) \<and> (\<forall>key \<in> set (apply_log s). response_id pr key \<in> p_intents (o_persist s))"

lemma checkpoint_intents: "checkpoint pr x ev st = Inr st' \<Longrightarrow> set (s_intents st) \<subseteq> set (s_intents st')"
  using checkpoint_step [of pr x ev st st'] by (auto simp: store_step_def)

lemma poisoned_intents: "poisoned v r ev s s' \<Longrightarrow> p_intents (o_persist s) \<subseteq> p_intents (o_persist s')"
  by (auto simp: poisoned_def p_intents_def intro: subsetD [OF checkpoint_intents])

lemma log_ok_mono:
  "log_ok pr s \<Longrightarrow> apply_log s' = apply_log s \<Longrightarrow> p_intents (o_persist s) \<subseteq> p_intents (o_persist s') \<Longrightarrow> log_ok pr s'"
  by (auto simp: log_ok_def)

lemma micro_log_ok:
  assumes "micro ts v s s'" "sys_ok vf pr s" "log_ok pr s" "logged_env v" "v_prims v = pr"
  shows "log_ok pr s'"
  using assms
proof (induction rule: micro.induct)
  case (Start s r a ref st fs st' w fs')
  let ?key = "sget (r_command r) ''idempotency_key''"
  obtain b where b: "a = logged b" using Start by (auto simp: may_apply_def dest: logged_adapter_for)
  have ok: "store_ok vf pr st" "agree st (o_records s)" using Start by (auto simp: sys_ok_def)
  have id: "r_id r = response_id pr ?key" using agree_row(2) [OF ok Start.hyps(2)] by (simp add: origin_ok_def)
  have st: "s_intents st' = s_intents st @ [r_id r]" "r_id r \<notin> set (s_intents st)"
    using checkpoint_step [OF Start.hyps(5)] by (auto simp: store_step_def claims_apply_def applying_def)
  let ?s = "s\<lparr>o_persist := PStore st' fs', o_records := dict_set (r_id r) (applying r ref ts) (o_records s), o_world := w\<rparr>"
  have new: "?key \<notin> set (apply_log s)"
    using Start.prems(2) st(2) id Start.hyps(4) by (auto simp: log_ok_def p_intents_def)
  have l: "apply_log ?s = apply_log s @ [?key]" using Start.hyps(6) b by (simp add: apply_log_def logged_calls)
  have i: "p_intents (o_persist ?s) = insert (response_id pr ?key) (p_intents (o_persist s))"
    using st(1) id Start.hyps(4) by (simp add: p_intents_def)
  show ?case using Start.prems(2) new unfolding log_ok_def l i by simp
next
  case (Create s cmd r e st fs st' fs')
  show ?case
    by (rule log_ok_mono [OF Create.prems(2)])
       (use checkpoint_intents [OF Create.hyps(4)] Create.hyps(3) in \<open>simp_all add: apply_log_def p_intents_def\<close>)
next
  case (Change s r r' ev st fs st' fs')
  show ?case
    by (rule log_ok_mono [OF Change.prems(2)])
       (use checkpoint_intents [OF Change.hyps(5)] Change.hyps(4) in \<open>simp_all add: apply_log_def p_intents_def\<close>)
next
  case (Call s r call)
  show ?case
    by (rule log_ok_mono [OF Call.prems(2)])
       (simp_all add: apply_log_def other_call_log [OF Call.hyps(3) Call.prems(3)])
next
  case (Cache s d)
  show ?case by (rule log_ok_mono [OF Cache.prems(2)]) (simp_all add: apply_log_def)
next
  case (Create_fail s cmd r e s')
  show ?case
    by (rule log_ok_mono [OF Create_fail.prems(2) _ poisoned_intents [OF Create_fail.hyps(3)]])
       (use Create_fail.hyps(3) in \<open>auto simp: apply_log_def poisoned_def\<close>)
next
  case (Change_fail s r r' ev s')
  show ?case
    by (rule log_ok_mono [OF Change_fail.prems(2) _ poisoned_intents [OF Change_fail.hyps(4)]])
       (use Change_fail.hyps(4) in \<open>auto simp: apply_log_def poisoned_def\<close>)
next
  case (Start_fail s r a ref s')
  show ?case
    by (rule log_ok_mono [OF Start_fail.prems(2) _ poisoned_intents [OF Start_fail.hyps(4)]])
       (use Start_fail.hyps(4) in \<open>auto simp: apply_log_def poisoned_def\<close>)
qed

lemma steps_log_ok:
  assumes "steps ts v s s'" "sys_ok vf pr s" "log_ok pr s" "logged_env v" "allowed_env vf pr v" "in_range ts"
  shows "log_ok pr s'"
proof -
  have "sys_ok vf pr s' \<and> log_ok pr s'"
    using assms(1-3) unfolding steps_def
  proof (induction rule: rtranclp_induct)
    case (step t u)
    then show ?case using micro_log_ok [OF step.hyps(2)] micro_ok [OF step.hyps(2)] assms(4-6) by (auto simp: allowed_env_def)
  qed simp
  then show ?thesis by simp
qed

lemma reach_log_ok:
  assumes "reach vf pr V ext (w0, []) s" "\<forall>v \<in> V. logged_env v" "\<forall>w w'. ext w w' \<longrightarrow> snd w' = snd w"
  shows "log_ok pr s"
  using assms(1)
proof (induction rule: reach.induct)
  case (Boot v fs s)
  from start_agrees [OF store_ok_empty Boot(2)] show ?case by (auto simp: log_ok_def apply_log_def)
next
  case (Exec s v clk now q)
  note ok = reach_ok [OF Exec.hyps(1)]
  have "exec v clk now q s = s \<or> (\<exists>ts. as_utc CommandRejected clk now = Inr ts \<and> steps ts v s (exec v clk now q s))"
    using sys_ok_ids [OF ok] by (intro exec_steps) auto
  then show ?case
    using Exec steps_log_ok [OF _ ok Exec.IH, of _ v "exec v clk now q s"] assms(2) by (auto simp: allowed_time_def)
next
  case (Restart s st fs st1 v fs' s')
  have ok: "store_ok vf pr st" using reach_ok [OF Restart.hyps(1)] Restart.hyps(2) by (auto simp: sys_ok_def)
  have st1: "st1 = st\<lparr>s_claimed := False, s_closed := False\<rparr>"
    using ok Restart.hyps(3) open_store_inv [of pr st] by (simp add: store_ok_def)
  then have "store_ok vf pr st1" using ok by simp
  from start_agrees [OF this Restart.hyps(5)] show ?case
    using Restart.IH Restart.hyps(2) st1 by (auto simp: log_ok_def apply_log_def p_intents_def)
next
  case (Export s st fs i st')
  then show ?case by (auto simp: log_ok_def apply_log_def p_intents_def dest!: mark_exported_Inr)
next
  case (Close s st fs)
  then show ?case by (auto simp: log_ok_def apply_log_def p_intents_def s_close_def)
next
  case (World s w)
  then have "snd w = snd (o_world s)" using assms(3) by blast
  then show ?case using World.IH by (simp add: log_ok_def apply_log_def)
qed

end
