(* ===== verification/Progress.thy ===== *)
theory Progress
  imports Invariants
begin

text \<open>
  Progress of the orchestrator (\<^verbatim>\<open>response/orchestrator/engine.py\<close>): with a store that commits, the
  operations do what they were asked to. The other theories bound what may happen; this one shows
  that it does happen, so that none of the bounds holds because nothing ever moves.
\<close>

section \<open>When a checkpoint is accepted\<close>

definition keeps_input :: "prims \<Rightarrow> snapshot \<Rightarrow> rstore \<Rightarrow> bool" where
  "keeps_input pr s st \<longleftrightarrow> (\<forall>old. dict_get (s_records st) (sn_id s) = Some old \<longrightarrow>
     row_command old = canonical_json pr (sn_command s) \<and> row_expires old = sn_expires s)"

lemma upsert_ok: "keeps_input pr s st \<Longrightarrow> \<exists>st'. upsert_record pr s st = Inr st'"
  by (auto simp: upsert_record_def keeps_input_def Let_def split: option.splits)

lemma checkpoint_plain:
  assumes "\<not> s_closed st" "matches_latest st s" "keeps_input pr s st" "sn_pending s = Some Op_apply \<longrightarrow> sn_id s \<notin> set (s_intents st)"
  shows "\<exists>st'. checkpoint pr s None st = Inr st'"
proof -
  let ?r = "if sn_pending s = Some Op_apply then insert_intent (sn_id s) st else Inr st"
  obtain st1 where 1: "?r = Inr st1" and st1: "s_audit st1 = s_audit st" "s_records st1 = s_records st"
    using assms(4) by (cases "sn_pending s = Some Op_apply") (auto simp: insert_intent_def)
  have "matches_latest st1 s" using assms(2) matches_latest_cong [OF st1(1)] by simp
  moreover have "\<exists>st'. upsert_record pr s st1 = Inr st'" using upsert_ok assms(3) st1(2) by (simp add: keeps_input_def)
  ultimately show ?thesis using assms(1) 1 by (simp add: checkpoint_def exclusive_def)
qed

lemma checkpoint_event:
  assumes inv: "store_inv pr st" and op: "\<not> s_closed st" and keep: "keeps_input pr s st"
    and vt: "validate_transition e (s_events st (sn_id s)) = Inr ()" and rid: "ev_response_id e = sn_id s"
    and fresh: "ev_id e \<notin> au_id ` set (s_audit st)" and time: "ev_number e = 1 \<Longrightarrow> \<exists>t. event_time e = Inr t"
    and m: "ev_state e = sn_state s" "ev_number e = sn_number s"
  shows "\<exists>st'. checkpoint pr s (Some e) st = Inr st'"
proof -
  let ?row = "\<lparr>ar_response_id = sn_id s, ar_number = ev_number e, ar_body = e, au_id = ev_id e\<rparr>"
  have ri: "rows_inv (s_audit st)" using inv by (simp add: store_inv_def)
  have vt': "validate_transition e (select_events (s_audit st) (ev_response_id e)) = Inr ()"
    using vt by (simp add: s_events_def rid)
  have "\<not> list_ex (\<lambda>r. au_id r = ev_id e \<or> ar_response_id r = sn_id s \<and> ar_number r = ev_number e) (s_audit st)"
    using fresh rows_fresh [OF ri vt'] rid by (auto simp: list_ex_iff image_iff)
  then obtain st2 where 2: "insert_audit (sn_id s) e st = Inr st2"
    using vt time by (cases "ev_number e = 1") (auto simp: insert_audit_def Let_def record_admission_def)
  then have st2: "s_audit st2 = s_audit st @ [?row]" "s_records st2 = s_records st" by (auto dest!: insert_audit_Inr)
  have "s_events st2 (sn_id s) = s_events st (sn_id s) @ [e]"
    using rows_inv_snoc [OF ri vt', of ?row] rid by (simp add: s_events_def st2)
  then have "matches_latest st2 s" using m by (simp add: matches_latest_def s_latest_def last_event_def)
  moreover have "\<exists>st'. upsert_record pr s st2 = Inr st'" using upsert_ok keep st2(2) by (simp add: keeps_input_def)
  ultimately show ?thesis using op 2 by (simp add: checkpoint_def exclusive_def)
qed

section \<open>Commits that do not fail\<close>

text \<open>\<open>st'\<close> is what the store becomes; the record goes to memory as well.\<close>

lemma checkpoint_op_commits:
  "o_persist s = PStore st [] \<Longrightarrow> checkpoint (v_prims v) (snapshot_of r) ev st = Inr st' \<Longrightarrow>
   checkpoint_op v r ev s = (Inr (), s\<lparr>o_persist := PStore st' []\<rparr>)"
  by (simp add: checkpoint_op_def next_fault_def)

lemma keeps_input_recorded:
  assumes "store_inv pr st" "dict_get (s_records st) (sn_id s) = Some row" "sn_command (row_snapshot row) = sn_command s"
    "sn_expires (row_snapshot row) = sn_expires s"
  shows "keeps_input pr s st"
proof -
  have "row_ok pr st (sn_id s) row" using assms(1,2) by (simp add: store_inv_def)
  then show ?thesis using assms by (simp add: keeps_input_def row_ok_def)
qed

section \<open>A valid command is accepted\<close>

text \<open>The REQUESTED event of a command and the response it creates.\<close>

definition request_event :: "'w env \<Rightarrow> string \<Rightarrow> pyval \<Rightarrow> int \<Rightarrow> audit_event" where
  "request_event v nm cmd ts = transition_event v nm (new_response (response_id (v_prims v) (sget cmd ''idempotency_key'')) cmd ts)
     Requested ts None None None None"

definition requested :: "'w env \<Rightarrow> pyval \<Rightarrow> int \<Rightarrow> bool \<Rightarrow> resp" where
  "requested v cmd ts ok = (transition_record (new_response (response_id (v_prims v) (sget cmd ''idempotency_key'')) cmd ts)
     Requested False)\<lparr>r_authorized := ok\<rparr>"

lemma new_response_simps [simp]:
  "r_id (new_response i cmd ts) = i" "r_command (new_response i cmd ts) = cmd"
  "r_expires (new_response i cmd ts) = ts + seconds (ttl_of cmd)"
  by (simp_all add: new_response_def)

lemma requested_unauthorized:
  "transition_record (new_response (response_id (v_prims v) (sget cmd ''idempotency_key'')) cmd ts) Requested False =
   requested v cmd ts False"
  by (simp add: requested_def transition_record_def new_response_def)

lemma event_time_rfc3339: "in_range t \<Longrightarrow> ev_timestamp e = rfc3339 t \<Longrightarrow> event_time e = Inr (cut_ms t)"
  by (simp add: event_time_def fromisoformat_rfc3339)

lemma request_event_simps [simp]:
  "ev_response_id (request_event v nm cmd ts) = response_id (v_prims v) (sget cmd ''idempotency_key'')"
  "ev_state (request_event v nm cmd ts) = Requested" "ev_number (request_event v nm cmd ts) = 1"
  "ev_previous (request_event v nm cmd ts) = None" "ev_timestamp (request_event v nm cmd ts) = rfc3339 ts"
  by (simp_all add: request_event_def transition_event_def build_event_def new_response_def)

lemma requested_simps [simp]:
  "r_id (requested v cmd ts ok) = response_id (v_prims v) (sget cmd ''idempotency_key'')"
  "r_command (requested v cmd ts ok) = cmd" "r_state (requested v cmd ts ok) = Requested" "r_number (requested v cmd ts ok) = 1"
  "r_pending (requested v cmd ts ok) = None" "r_reference (requested v cmd ts ok) = None"
  "(requested v cmd ts a)\<lparr>r_authorized := b\<rparr> = requested v cmd ts b" "r_expires (requested v cmd ts a) = ts + seconds (ttl_of cmd)"
  by (simp_all add: requested_def transition_record_def new_response_def)

lemma request_committed:
  assumes inv: "store_inv (v_prims v) st" and op: "\<not> s_closed st" and ts: "in_range ts"
    and new: "response_id (v_prims v) (sget cmd ''idempotency_key'') \<notin> set (dict_keys (s_records st))"
    and fresh: "ev_id (request_event v nm cmd ts) \<notin> au_id ` set (s_audit st)"
  shows "\<exists>st1. checkpoint (v_prims v) (snapshot_of (requested v cmd ts False)) (Some (request_event v nm cmd ts)) st = Inr st1 \<and>
    \<not> s_closed st1 \<and> store_inv (v_prims v) st1"
proof -
  let ?rid = "response_id (v_prims v) (sget cmd ''idempotency_key'')" and ?e = "request_event v nm cmd ts"
  let ?s = "snapshot_of (requested v cmd ts False)"
  have none: "s_events st ?rid = []" using inv new by (auto simp: store_inv_def)
  have ne: "?rid \<noteq> []" by (simp add: response_id_def)
  have vt: "validate_transition ?e (s_events st (sn_id ?s)) = Inr ()"
    using none ne by (simp add: validate_transition_def Let_def last_state_def snapshot_of_def)
  have "dict_get (s_records st) ?rid = None" using new by (simp add: map_of_eq_None_iff)
  then have "keeps_input (v_prims v) ?s st" by (simp add: keeps_input_def del: map_of_eq_None_iff dict_get_None_iff)
  then obtain st1 where st1: "checkpoint (v_prims v) ?s (Some ?e) st = Inr st1"
    using checkpoint_event [OF inv op _ vt _ fresh] event_time_rfc3339 [OF ts] by auto
  have step: "store_step (v_prims v) ?s (Some ?e) st st1" by (rule checkpoint_step [OF st1])
  then show ?thesis using st1 store_inv_step [OF step inv] by (auto simp: store_step_def)
qed

text \<open>The second commit of a submission sets the authorization.\<close>

lemma authorization_committed:
  assumes "checkpoint (v_prims v) (snapshot_of (requested v cmd ts False)) (Some e) st = Inr st1" "\<not> s_closed st1"
  shows "\<exists>st2. checkpoint (v_prims v) (snapshot_of (requested v cmd ts True)) None st1 = Inr st2 \<and>
    s_audit st2 = s_audit st1 \<and> s_admissions st2 = s_admissions st1"
proof -
  let ?s = "snapshot_of (requested v cmd ts False)" and ?s' = "snapshot_of (requested v cmd ts True)"
  have step: "store_step (v_prims v) ?s (Some e) st st1" by (rule checkpoint_step [OF assms(1)])
  have "matches_latest st1 ?s' = matches_latest st1 ?s" by (simp add: matches_latest_def split: option.split)
  then have "matches_latest st1 ?s'" using step by (simp add: store_step_def)
  moreover have "keeps_input (v_prims v) ?s' st1" using step by (simp add: store_step_def keeps_input_def)
  ultimately obtain st2 where "checkpoint (v_prims v) ?s' None st1 = Inr st2"
    using checkpoint_plain [OF assms(2), of ?s'] by auto
  then show ?thesis using checkpoint_step [of "v_prims v" ?s' None st1 st2] by (simp add: store_step_def)
qed

lemma request_counted:
  assumes "store_step pr s (Some e) st st1" "s_requested_since st pol since = Inr n"
  shows "\<exists>m. s_requested_since st1 pol since = Inr m \<and> m \<le> Suc n"
  using assms by (auto simp: s_requested_since_def store_step_def exclusive_def admits_def admit_def split: if_splits)

lemma submit_accepts:
  assumes s: "\<not> o_failed s" "o_persist s = PStore st []" and inv: "store_inv (v_prims v) st" "\<not> s_closed st"
    and ts: "as_utc CommandRejected clk now = Inr ts" "in_range ts" "in_range (ts + seconds (ttl_of cmd))"
    and cmd: "validate_command v cmd ts = Inr cmd" "dict_get (v_adapters v) (sget cmd ''action'') = Some a"
      "target_allowed v cmd = Inr ()"
    and new: "sget cmd ''idempotency_key'' \<notin> set (dict_keys (o_dedup s))"
      "response_id (v_prims v) (sget cmd ''idempotency_key'') \<notin> set (dict_keys (o_records s))"
      "response_id (v_prims v) (sget cmd ''idempotency_key'') \<notin> set (dict_keys (s_records st))"
    and fresh: "ev_id (request_event v (ad_name a) cmd ts) \<notin> au_id ` set (s_audit st)"
    and rate: "s_requested_since st (sget (pget cmd ''policy'') ''id'') (ts - seconds (window_seconds (c_rate_limit (v_catalog v)))) = Inr n"
      "int n < max_actions (c_rate_limit (v_catalog v))"
  shows "\<exists>s' st1 st2. submit v clk cmd now s =
      (Inr (result_of (response_id (v_prims v) (sget cmd ''idempotency_key'')) Requested True None
        (Some (request_event v (ad_name a) cmd ts))), s') \<and>
    checkpoint (v_prims v) (snapshot_of (requested v cmd ts False)) (Some (request_event v (ad_name a) cmd ts)) st = Inr st1 \<and>
    checkpoint (v_prims v) (snapshot_of (requested v cmd ts True)) None st1 = Inr st2 \<and> o_persist s' = PStore st2 [] \<and>
    o_records s' = dict_set (response_id (v_prims v) (sget cmd ''idempotency_key'')) (requested v cmd ts True) (o_records s) \<and>
    \<not> o_failed s' \<and> o_world s' = o_world s"
proof -
  let ?key = "sget cmd ''idempotency_key''"
  let ?rid = "response_id (v_prims v) ?key" and ?e = "request_event v (ad_name a) cmd ts"
  let ?since = "ts - seconds (window_seconds (c_rate_limit (v_catalog v)))"
  obtain st1 where st1: "checkpoint (v_prims v) (snapshot_of (requested v cmd ts False)) (Some ?e) st = Inr st1" "\<not> s_closed st1"
    using request_committed [OF inv ts(2) new(3) fresh] by blast
  obtain st2 where st2: "checkpoint (v_prims v) (snapshot_of (requested v cmd ts True)) None st1 = Inr st2"
    using authorization_committed [OF st1] by blast
  obtain m where m: "s_requested_since st1 (sget (pget cmd ''policy'') ''id'') ?since = Inr m" "int m \<le> max_actions (c_rate_limit (v_catalog v))"
    using request_counted [OF checkpoint_step [OF st1(1)] rate(1)] rate(2) by fastforce
  let ?d = "filter (\<lambda>(key, value). ts < snd value) (o_dedup s)"
  have none: "dict_get ?d ?key = None" using new(1) by (force simp: map_of_eq_None_iff)
  have dup: "find_duplicate ?key ?rid (s\<lparr>o_dedup := ?d\<rparr>) = None"
    using new(2) none by (simp add: find_duplicate_def del: map_of_eq_None_iff dict_get_None_iff)
  let ?s1 = "s\<lparr>o_dedup := ?d, o_persist := PStore st1 []\<rparr>"
  have tr: "transition v (new_response ?rid cmd ts) Requested ts None None None None False (s\<lparr>o_dedup := ?d\<rparr>) =
      (Inr (?e, requested v cmd ts False), ?s1)"
    using s cmd(2) checkpoint_op_commits [of "s\<lparr>o_dedup := ?d\<rparr>" st v "requested v cmd ts False" "Some ?e" st1] st1(1)
    by (simp add: transition_def adapter_for_def Let_def bindX_def is_store_def requested_unauthorized
        request_event_def [symmetric] liftX_def returnX_def)
  let ?s2 = "?s1\<lparr>o_records := dict_set ?rid (requested v cmd ts False) (o_records s),
      o_dedup := dict_set ?key (?rid, ts + seconds (c_dedup_seconds (v_catalog v))) ?d\<rparr>"
  let ?s3 = "?s2\<lparr>o_records := dict_set ?rid (requested v cmd ts True) (o_records s), o_persist := PStore st2 []\<rparr>"
  have ad: "admit_request v (requested v cmd ts False) ?e ts ?s2 = (Inr (result_of ?rid Requested True None (Some ?e)), ?s3)"
    using m cmd(3) checkpoint_op_commits [of "?s2\<lparr>o_records := dict_set ?rid (requested v cmd ts True) (o_records s)\<rparr>" st1 v
        "requested v cmd ts True" None st2] st2
    by (simp add: admit_request_def bindX_def p_requested_since_def put_record_def returnX_def Let_def)
  have "submit v clk cmd now s = (Inr (result_of ?rid Requested True None (Some ?e)), ?s3)"
    using s inv(2) ts cmd(1) dup tr ad
    by (simp add: submit_def serialized_def bindX_def liftX_def prune_dedup_def save_command_op_def put_record_def remember_def Let_def)
  then show ?thesis using st1(1) st2 s(1) by auto
qed

section \<open>Transitions of a recorded response\<close>

text \<open>The store knows the record, up to what the pending operation changes.\<close>

definition recorded :: "prims \<Rightarrow> rstore \<Rightarrow> resp \<Rightarrow> bool" where
  "recorded pr st r \<longleftrightarrow> store_inv pr st \<and> \<not> s_closed st \<and> matches_latest st (snapshot_of r) \<and> keeps_input pr (snapshot_of r) st"

lemma agree_recorded:
  assumes "agree st recs" "store_inv pr st" "\<not> s_closed st" "dict_get recs rid = Some r"
  shows "recorded pr st r \<and> r_id r = rid"
proof -
  obtain row where row: "dict_get (s_records st) rid = Some row" "row_snapshot row = snapshot_of r" "r_id r = rid"
    using assms(1,4) unfolding agree_def by blast
  then have "row_ok pr st rid row" using assms(2) by (simp add: store_inv_def)
  then show ?thesis using row assms(2,3) by (auto simp: recorded_def row_ok_def keeps_input_def)
qed

lemma recorded_history:
  assumes "recorded pr st r"
  shows "s_events st (r_id r) \<noteq> []" "r_number r = length (s_events st (r_id r))" "last_state (s_events st (r_id r)) = Some (r_state r)"
proof -
  let ?h = "s_events st (r_id r)"
  have "legal_history ?h" using assms by (simp add: recorded_def store_inv_def s_events_def select_events_legal)
  moreover have "?h \<noteq> []" "ev_state (last ?h) = r_state r" "ev_number (last ?h) = r_number r"
    using assms by (auto simp: recorded_def matches_latest_def s_latest_def last_event_def split: if_splits)
  ultimately show "?h \<noteq> []" "r_number r = length ?h" "last_state ?h = Some (r_state r)"
    using legal_history_number [of ?h "length ?h - 1"] by (auto simp: last_conv_nth last_state_def)
qed

lemma recorded_plain:
  assumes "recorded pr st r" "r_pending r = Some Op_apply \<longrightarrow> r_id r \<notin> set (s_intents st)"
  shows "\<exists>st'. checkpoint pr (snapshot_of r) None st = Inr st' \<and> recorded pr st' r \<and> s_audit st' = s_audit st \<and> s_events st' = s_events st"
proof -
  obtain st' where st': "checkpoint pr (snapshot_of r) None st = Inr st'"
    using checkpoint_plain [of st "snapshot_of r" pr] assms by (auto simp: recorded_def)
  have step: "store_step pr (snapshot_of r) None st st'" by (rule checkpoint_step [OF st'])
  have "store_inv pr st'" using store_inv_step [OF step] assms(1) by (simp add: recorded_def)
  moreover have "s_audit st' = s_audit st" using step by (simp add: store_step_def)
  moreover from this have "s_events st' = s_events st" by (simp add: fun_eq_iff s_events_def)
  ultimately show ?thesis using st' step by (auto simp: recorded_def store_step_def keeps_input_def)
qed

lemma recorded_cong:
  "recorded pr st r \<Longrightarrow> r_id q = r_id r \<Longrightarrow> r_command q = r_command r \<Longrightarrow> r_expires q = r_expires r \<Longrightarrow>
   r_state q = r_state r \<Longrightarrow> r_number q = r_number r \<Longrightarrow> recorded pr st q"
  by (simp add: recorded_def matches_latest_def keeps_input_def split: option.splits)

lemma legal_history_owner: "legal_history h \<Longrightarrow> h \<noteq> [] \<Longrightarrow> ev_response_id (hd h) \<noteq> []"
  unfolding legal_history_def by (drule spec [of _ 0]) (simp add: validate_transition_iff hd_conv_nth)

lemma transition_put_commits:
  assumes s: "o_persist s = PStore st []" and r: "recorded (v_prims v) st r" and a: "adapter_for v r = Inr a"
    and ok: "allowed (Some (r_state r)) state" and pending: "r_pending r \<noteq> None"
    and fresh: "event_id (v_prims v) (r_id r) (r_number r + 1) state \<notin> au_id ` set (s_audit st)"
  shows "\<exists>st'. transition_put v r state ts app ver rb fl cl s =
      (Inr (transition_event v (ad_name a) r state ts app ver rb fl, transition_record r state cl),
       s\<lparr>o_persist := PStore st' [], o_records := dict_set (r_id r) (transition_record r state cl) (o_records s)\<rparr>) \<and>
    s_events st' (r_id r) = s_events st (r_id r) @ [transition_event v (ad_name a) r state ts app ver rb fl] \<and>
    recorded (v_prims v) st' (transition_record r state cl) \<and>
    au_id ` set (s_audit st') = insert (event_id (v_prims v) (r_id r) (r_number r + 1) state) (au_id ` set (s_audit st))"
proof -
  let ?e = "transition_event v (ad_name a) r state ts app ver rb fl" and ?q = "transition_record r state cl"
  note h = recorded_history [OF r]
  have inv: "store_inv (v_prims v) st" "\<not> s_closed st" using r by (simp_all add: recorded_def)
  have e: "ev_response_id ?e = r_id r" "ev_state ?e = state" "ev_number ?e = r_number r + 1" "ev_previous ?e = Some (r_state r)"
      "ev_intent ?e \<noteq> None" "ev_id ?e = event_id (v_prims v) (r_id r) (r_number r + 1) state"
    using h(1,2) pending by (auto simp: transition_event_def build_event_def intent_of_def)
  have ne: "r_id r \<noteq> []"
    using select_events_owner [of "s_audit st" "hd (s_events st (r_id r))" "r_id r"] legal_history_owner [of "s_events st (r_id r)"]
      h(1) inv(1) by (simp add: store_inv_def s_events_def select_events_legal)
  have vt: "validate_transition ?e (s_events st (r_id r)) = Inr ()"
    using e h ok ne by (simp add: validate_transition_def Let_def)
  obtain st' where st': "checkpoint (v_prims v) (snapshot_of ?q) (Some ?e) st = Inr st'"
    using checkpoint_event [OF inv, of "snapshot_of ?q" ?e] r vt e fresh h(1,2)
    by (auto simp: recorded_def keeps_input_def transition_record_def)
  have step: "store_step (v_prims v) (snapshot_of ?q) (Some ?e) st st'" by (rule checkpoint_step [OF st'])
  have "s_events st' (r_id r) = s_events st (r_id r) @ [?e]"
    using store_step_events(2) [OF step, of "r_id r"] inv(1) e(1) by (simp add: store_inv_def new_events_def)
  moreover have "transition_put v r state ts app ver rb fl cl s = (Inr (?e, ?q),
       s\<lparr>o_persist := PStore st' [], o_records := dict_set (r_id r) ?q (o_records s)\<rparr>)"
    using s a checkpoint_op_commits [OF s st']
    by (simp add: transition_store_run [OF _ a] is_store_def bindX_def put_record_def returnX_def)
  moreover have "recorded (v_prims v) st' ?q"
    using step store_inv_step [OF step inv(1)] e(1) by (simp add: recorded_def store_step_def keeps_input_def)
  moreover have "au_id ` set (s_audit st') = insert (ev_id ?e) (au_id ` set (s_audit st))"
    using step by (simp add: store_step_def)
  ultimately show ?thesis using e(6) by auto
qed

section \<open>An authorized command is applied\<close>

text \<open>A usable outcome: success, evidence without blanks.\<close>

definition usable :: "adapter_outcome \<Rightarrow> bool" where
  "usable oc \<longleftrightarrow> oc_ok oc \<and> oc_evidence oc \<noteq> [] \<and> [] \<notin> set (oc_evidence oc)"

lemma invoke_usable:
  "call (o_world s) = (Inr (Outcome oc), w) \<Longrightarrow> [] \<notin> set (oc_evidence oc) \<Longrightarrow> invoke code call s = (Inr oc, s\<lparr>o_world := w\<rparr>)"
  by (auto simp: invoke_def list_all_iff)

lemma begin_operation_commits:
  assumes "o_persist s = PStore st []" "recorded (v_prims v) st r" "op = Op_apply \<longrightarrow> r_id r \<notin> set (s_intents st)"
  shows "\<exists>st' r'. r' = r\<lparr>r_pending := Some op, r_started := Some (rfc3339 ts)\<rparr> \<and>
    begin_operation v r op ts s = (Inr r', s\<lparr>o_records := dict_set (r_id r) r' (o_records s), o_persist := PStore st' []\<rparr>) \<and>
    recorded (v_prims v) st' r' \<and> s_audit st' = s_audit st \<and> s_events st' = s_events st"
proof -
  let ?r = "r\<lparr>r_pending := Some op, r_started := Some (rfc3339 ts)\<rparr>"
  have "recorded (v_prims v) st ?r" by (rule recorded_cong [OF assms(2)]) simp_all
  then obtain st' where st': "checkpoint (v_prims v) (snapshot_of ?r) None st = Inr st'" "recorded (v_prims v) st' ?r"
      "s_audit st' = s_audit st" "s_events st' = s_events st"
    using recorded_plain [of "v_prims v" st ?r] assms(3) by auto
  then show ?thesis
    using checkpoint_op_commits [of "s\<lparr>o_records := dict_set (r_id r) ?r (o_records s)\<rparr>" st v ?r None st'] assms(1)
    by (intro exI [of _ st']) (simp add: begin_operation_run Let_def bindX_def returnX_def)
qed

lemma perform_apply_succeeds:
  assumes s: "o_persist s = PStore st []" and r: "recorded (v_prims v) st r" and a: "adapter_for v r = Inr a"
    and req: "r_state r = Requested" and first: "r_id r \<notin> set (s_intents st)"
    and out: "ad_apply a (r_command r) (o_world s) = (Inr (Outcome oc), w)" "usable oc" "oc_reference oc = Some ref'" "ref' \<noteq> []"
    and fresh: "event_id (v_prims v) (r_id r) (r_number r + 1) Applied \<notin> au_id ` set (s_audit st)"
  shows "\<exists>res s' r' st'. perform_apply v a r ref ts s = (Inr res, s') \<and> rs_accepted res \<and> rs_state res = Applied \<and>
    dict_get (o_records s') (r_id r) = Some r' \<and> r_state r' = Applied \<and> r_reference r' = Some ref' \<and> r_pending r' = None \<and>
    o_persist s' = PStore st' [] \<and> last_state (s_events st' (r_id r)) = Some Applied \<and> o_world s' = w \<and> o_failed s' = o_failed s \<and>
    r_command r' = r_command r \<and> r_number r' = r_number r + 1 \<and> recorded (v_prims v) st' r' \<and>
    au_id ` set (s_audit st') = insert (event_id (v_prims v) (r_id r) (r_number r + 1) Applied) (au_id ` set (s_audit st))"
proof -
  let ?r1 = "r\<lparr>r_reference := Some ref\<rparr>" and ?s1 = "s\<lparr>o_records := dict_set (r_id r) (r\<lparr>r_reference := Some ref\<rparr>) (o_records s)\<rparr>"
  have "recorded (v_prims v) st ?r1" by (rule recorded_cong [OF r]) simp_all
  then obtain st1 r2 where r2: "r2 = ?r1\<lparr>r_pending := Some Op_apply, r_started := Some (rfc3339 ts)\<rparr>"
    and b: "begin_operation v ?r1 Op_apply ts ?s1 = (Inr r2, ?s1\<lparr>o_records := dict_set (r_id r) r2 (o_records ?s1), o_persist := PStore st1 []\<rparr>)"
    and st1: "recorded (v_prims v) st1 r2" "s_audit st1 = s_audit st"
    using begin_operation_commits [of ?s1 st v ?r1 Op_apply ts] s first by auto
  let ?s2 = "?s1\<lparr>o_records := dict_set (r_id r) r2 (o_records ?s1), o_persist := PStore st1 [], o_world := w\<rparr>"
  let ?r3 = "r2\<lparr>r_reference := Some ref'\<rparr>"
  let ?s3 = "?s2\<lparr>o_records := dict_set (r_id r) ?r3 (o_records ?s2)\<rparr>"
  have start: "start_apply v a r ref ts s = (Inr (r2, oc), ?s2)"
    using b s out invoke_usable [of "ad_apply a (r_command r)" "?s1\<lparr>o_records := dict_set (r_id r) r2 (o_records ?s1), o_persist := PStore st1 []\<rparr>" oc w]
    by (simp add: start_apply_def Let_def put_record_def bindX_def claim_apply_op_def returnX_def usable_def)
  have rec: "recorded (v_prims v) st1 ?r3" by (rule recorded_cong [OF st1(1)]) simp_all
  have ad: "adapter_for v ?r3 = Inr a" using a by (simp add: adapter_for_def r2)
  have r3: "r_id ?r3 = r_id r" "allowed (Some (r_state ?r3)) Applied" "r_pending ?r3 \<noteq> None" "r_number ?r3 = r_number r"
    by (simp_all add: r2 req)
  have fr: "event_id (v_prims v) (r_id ?r3) (r_number ?r3 + 1) Applied \<notin> au_id ` set (s_audit st1)"
    using fresh unfolding r3(1,4) st1(2) .
  have p3: "o_persist ?s3 = PStore st1 []" by simp
  let ?app = "Some \<lparr>ap_applied_at = rfc3339 ts, ap_reference = ref'\<rparr>"
  obtain st2 where tr: "transition_put v ?r3 Applied ts ?app None None None True ?s3 =
      (Inr (transition_event v (ad_name a) ?r3 Applied ts ?app None None None, transition_record ?r3 Applied True),
       ?s3\<lparr>o_persist := PStore st2 [], o_records := dict_set (r_id r) (transition_record ?r3 Applied True) (o_records ?s3)\<rparr>)"
    and ev: "s_events st2 (r_id r) = s_events st1 (r_id r) @ [transition_event v (ad_name a) ?r3 Applied ts ?app None None None]"
    and st2: "recorded (v_prims v) st2 (transition_record ?r3 Applied True)"
      "au_id ` set (s_audit st2) = insert (event_id (v_prims v) (r_id r) (r_number r + 1) Applied) (au_id ` set (s_audit st))"
    using transition_put_commits [OF p3 rec ad r3(2,3) fr, of ts ?app None None None True] unfolding r3(1,4) st1(2) by (elim exE conjE) blast
  have "r_id r2 = r_id r" by (simp add: r2)
  then have "finish_apply v r2 oc ts ?s2 = (Inr (result_of (r_id r) Applied True
      (Some ''action applied; containment is not successful until verification'')
      (Some (transition_event v (ad_name a) ?r3 Applied ts ?app None None None))),
      ?s3\<lparr>o_persist := PStore st2 [], o_records := dict_set (r_id r) (transition_record ?r3 Applied True) (o_records ?s3)\<rparr>)"
    using out(2-4) tr by (simp add: finish_apply_def Let_def usable_def put_record_def bindX_def returnX_def)
  then show ?thesis
    using start ev st2 by (simp add: perform_apply_def bindX_def result_of_def last_state_def transition_record_def r2)
qed

lemma apply_op_succeeds:
  assumes s: "\<not> o_failed s" "o_persist s = PStore st []" "store_inv (v_prims v) st" "\<not> s_closed st" "agree st (o_records s)"
    and ts: "as_utc CommandRejected clk now = Inr ts"
    and r: "dict_get (o_records s) rid = Some r" and may: "may_apply v (o_records s) r a ref ts" and first: "rid \<notin> set (s_intents st)"
    and out: "ad_apply a (r_command r) (o_world s) = (Inr (Outcome oc), w)" "usable oc" "oc_reference oc = Some ref'" "ref' \<noteq> []"
    and fresh: "event_id (v_prims v) rid (r_number r + 1) Applied \<notin> au_id ` set (s_audit st)"
  shows "\<exists>res s' r' st'. apply_op v clk rid now s = (Inr res, s') \<and> rs_accepted res \<and> rs_state res = Applied \<and>
    dict_get (o_records s') rid = Some r' \<and> r_state r' = Applied \<and> r_reference r' = Some ref' \<and> r_pending r' = None \<and>
    o_persist s' = PStore st' [] \<and> last_state (s_events st' rid) = Some Applied \<and> o_world s' = w \<and> \<not> o_failed s' \<and>
    r_command r' = r_command r \<and> r_number r' = r_number r + 1 \<and> recorded (v_prims v) st' r' \<and>
    au_id ` set (s_audit st') = insert (event_id (v_prims v) rid (r_number r + 1) Applied) (au_id ` set (s_audit st))"
proof -
  have rec: "recorded (v_prims v) st r" "r_id r = rid" using agree_recorded [OF s(5,3,4) r] by simp_all
  have m: "r_state r = Requested" "r_authorized r" "r_reference r = None" "ts < r_expires r" "reauthorize v r ts = Inr ()"
      "adapter_for v r = Inr a" "target_available r (dict_values (o_records s)) = Inr ()"
      "ad_recovery_reference a (r_command r) = Inr ref" "ref \<noteq> []"
    using may by (simp_all add: may_apply_def)
  have "apply_op v clk rid now s = perform_apply v a r ref ts s"
    using s(1,2,4) ts r m by (simp add: apply_op_def serialized_def bindX_def liftX_def get_record_def)
  then show ?thesis
    using perform_apply_succeeds [OF s(2) rec(1) m(6) m(1) first [folded rec(2)] out fresh [folded rec(2)], of ref ts] s(1) rec(2) by auto
qed

section \<open>A containment can be taken back\<close>

lemma revert_succeeds:
  assumes s: "o_persist s = PStore st []" and r: "recorded (v_prims v) st r" "r_reference r = Some ref" and a: "adapter_for v r = Inr a"
    and al: "allowed (Some (r_state r)) terminal" "terminal \<noteq> Applied"
    and out: "ad_revert a (r_command r) ref (o_world s) = (Inr (Outcome oc), w)" "usable oc"
    and fresh: "event_id (v_prims v) (r_id r) (r_number r + 1) terminal \<notin> au_id ` set (s_audit st)"
  shows "\<exists>res s' r' st'. revert v r ts terminal cause s = (Inr res, s') \<and> rs_accepted res \<and> rs_state res = terminal \<and>
    dict_get (o_records s') (r_id r) = Some r' \<and> r_state r' = terminal \<and> r_pending r' = None \<and>
    o_persist s' = PStore st' [] \<and> last_state (s_events st' (r_id r)) = Some terminal \<and> o_world s' = w \<and> o_failed s' = o_failed s"
proof -
  obtain st1 r1 where r1: "r1 = r\<lparr>r_pending := Some Op_revert, r_started := Some (rfc3339 ts)\<rparr>"
    and b: "begin_operation v r Op_revert ts s = (Inr r1, s\<lparr>o_records := dict_set (r_id r) r1 (o_records s), o_persist := PStore st1 []\<rparr>)"
    and st1: "recorded (v_prims v) st1 r1" "s_audit st1 = s_audit st"
    using begin_operation_commits [OF s r(1), of Op_revert ts] by auto
  let ?s1 = "s\<lparr>o_records := dict_set (r_id r) r1 (o_records s), o_persist := PStore st1 []\<rparr>"
  let ?s2 = "?s1\<lparr>o_world := w\<rparr>"
  have i: "r_id r1 = r_id r" "allowed (Some (r_state r1)) terminal" "r_pending r1 \<noteq> None" "r_number r1 = r_number r" "adapter_for v r1 = Inr a"
    using al a by (simp_all add: r1 adapter_for_def)
  have inv: "invoke code (ad_revert a (r_command r) ref) ?s1 = (Inr oc, ?s2)" for code
    using out by (intro invoke_usable) (simp_all add: usable_def)
  let ?app = "recorded_application (s_events st1 (r_id r))"
  let ?rb = "Some \<lparr>rb_completed_at = rfc3339 ts, rb_cause = cause, rb_evidence = oc_evidence oc\<rparr>"
  have fr: "event_id (v_prims v) (r_id r1) (r_number r1 + 1) terminal \<notin> au_id ` set (s_audit st1)"
    using fresh unfolding i(1,4) st1(2) .
  have p2: "o_persist ?s2 = PStore st1 []" by simp
  obtain st2 where tr: "transition_put v r1 terminal ts ?app None ?rb None True ?s2 =
      (Inr (transition_event v (ad_name a) r1 terminal ts ?app None ?rb None, transition_record r1 terminal True),
       ?s2\<lparr>o_persist := PStore st2 [], o_records := dict_set (r_id r) (transition_record r1 terminal True) (o_records ?s2)\<rparr>)"
    and ev: "s_events st2 (r_id r) = s_events st1 (r_id r) @ [transition_event v (ad_name a) r1 terminal ts ?app None ?rb None]"
    using transition_put_commits [OF p2 st1(1) i(5,2,3) fr, of ts ?app None ?rb None True] unfolding i(1) by (elim exE conjE) blast
  have "revert v r ts terminal cause s = (Inr (result_of (r_id r) terminal True (Some ''action reversed and verified by the adapter'')
      (Some (transition_event v (ad_name a) r1 terminal ts ?app None ?rb None))),
      ?s2\<lparr>o_persist := PStore st2 [], o_records := dict_set (r_id r) (transition_record r1 terminal True) (o_records ?s2)\<rparr>)"
    using r(2) a b inv out(2) tr by (simp add: revert_def bindX_def liftX_def usable_def p_events_def returnX_def)
  then show ?thesis
    using ev by (simp add: result_of_def transition_record_def last_state_def)
qed

lemma rollback_succeeds:
  assumes s: "\<not> o_failed s" "o_persist s = PStore st []" "store_inv (v_prims v) st" "\<not> s_closed st" "agree st (o_records s)"
    and ts: "as_utc CommandRejected clk now = Inr ts" and cause: "cause = ''manual'' \<or> cause = ''recovery''"
    and r: "dict_get (o_records s) rid = Some r" "r_state r \<in> {Applied, Verified} \<or> unresolved r" "r_state r \<notin> {Expired, Rolled_back}"
      "r_reference r = Some ref" and a: "adapter_for v r = Inr a"
    and out: "ad_revert a (r_command r) ref (o_world s) = (Inr (Outcome oc), w)" "usable oc"
    and fresh: "event_id (v_prims v) rid (r_number r + 1) Rolled_back \<notin> au_id ` set (s_audit st)"
  shows "\<exists>res s' r' st'. rollback v clk rid cause now s = (Inr res, s') \<and> rs_accepted res \<and> rs_state res = Rolled_back \<and>
    dict_get (o_records s') rid = Some r' \<and> r_state r' = Rolled_back \<and> r_pending r' = None \<and>
    o_persist s' = PStore st' [] \<and> last_state (s_events st' rid) = Some Rolled_back \<and> o_world s' = w \<and> \<not> o_failed s'"
proof -
  have rec: "recorded (v_prims v) st r" "r_id r = rid" using agree_recorded [OF s(5,3,4) r(1)] by simp_all
  have al: "allowed (Some (r_state r)) Rolled_back" using r(3) by (cases "r_state r") auto
  have "rollback v clk rid cause now s = revert v r ts Rolled_back cause s"
    using s(1,2,4) ts r(1,2) cause by (auto simp: rollback_def serialized_def bindX_def liftX_def get_record_def)
  then show ?thesis
    using revert_succeeds [OF s(2) rec(1) r(4) a al _ out fresh [folded rec(2)], of ts cause] s(1) rec(2) by auto
qed

end
