(* ===== verification/Scenario.thy ===== *)
theory Scenario
  imports Invariants
begin

text \<open>
  A concrete deployment the witnesses run: a policy catalog, an anomaly with one Suricata alert, a
  decision engine with an Ed25519 key, two firewall peers and a Wazuh manager. The digest and
  signature functions are simple stand-ins that satisfy what is assumed of the real ones.
\<close>

definition demo_prims :: prims where
  "demo_prims = \<lparr>sha256_hexdigest = rev, float_repr = (\<lambda>r. ''0.95'')\<rparr>"

definition demo_ed :: ed_prims where
  "demo_ed = \<lparr>ed_sign = (\<lambda>sk m. replicate 64 CHR ''x''), ed_public = id,
     ed_verify = (\<lambda>pk raw m. raw = replicate 64 CHR ''x'')\<rparr>"

definition demo_auth :: ed_auth where
  "demo_auth = \<lparr>x_prims = demo_prims, x_ed = demo_ed, x_ring = [(''k1'', ''secret'')],
     x_signing_key = Some ''secret'', x_signing_key_id = Some ''k1''\<rparr>"

definition demo_policy :: response_policy where
  "demo_policy = \<lparr>p_id = ''block'', p_version = ''1'', p_action = ''block_ip'', p_ttl_seconds = 600,
     p_min_ai_score = 19 / 20, p_require_any = [\<lparr>r_kind = ''suricata'', r_min_severity = Some 2, r_min_count = None\<rparr>],
     p_sha256 = ''abc''\<rparr>"

definition demo_catalog :: policy_catalog where
  "demo_catalog = \<lparr>c_protections = \<lparr>allowlisted_ips = [], allowlisted_networks = [], protected_ips = [], protected_networks = [],
       protected_hosts = [], allowed_isolation_hosts = [], block_private_ip_targets = True\<rparr>,
     c_rate_limit = \<lparr>max_actions = 5, window_seconds = 300\<rparr>, c_dedup_seconds = 60,
     c_command_valid_for_seconds = 300, c_evidence_max_age_seconds = 300, c_policies = [(''block'', demo_policy)]\<rparr>"

definition demo_engine :: engine where
  "demo_engine = \<lparr>e_prims = demo_prims, e_catalog = demo_catalog, e_key_id = ''k1'', e_sign = ed_sign_command demo_auth\<rparr>"

text \<open>2023-11-14T22:13:20Z\<close>

definition demo_now :: int where
  "demo_now = seconds 1700000000"

definition demo_target :: pyval where
  "demo_target = PDict [(''type'', PStr ''ip''), (''value'', PStr ''8.8.8.8'')]"

definition demo_anomaly :: pyval where
  "demo_anomaly = PDict [(''event_id'', PStr ''ai-1''), (''model_id'', PStr ''m1''), (''score'', PFloat (Fin (97 / 100))),
     (''threshold'', PFloat (Fin (1 / 2))), (''is_anomaly'', PBool True),
     (''observed_at'', PStr ''2023-11-14T22:13:10Z''), (''target'', demo_target)]"

definition demo_signals :: "pyval list" where
  "demo_signals = [PDict [(''type'', PStr ''suricata''), (''reference'', PStr ''alert-7''), (''severity'', PInt 3),
     (''observed_at'', PStr ''2023-11-14T22:13:12Z''), (''target'', demo_target)],
     PDict [(''type'', PStr ''honeypot''), (''reference'', PStr ''hp-1''),
     (''observed_at'', PStr ''2023-11-14T22:13:11Z''), (''target'', demo_target)]]"

section \<open>Two firewalls and a manager\<close>

type_synonym demo_world = "string list \<times> string list"

definition demo_peer :: "string \<Rightarrow> (demo_world \<Rightarrow> string list) \<Rightarrow> (string list \<Rightarrow> demo_world \<Rightarrow> demo_world) \<Rightarrow> demo_world peer" where
  "demo_peer nm get put = \<lparr>pe_name = nm, pe_client = \<lparr>
     cl_add = (\<lambda>a key life w. (Inr (''added:'' @ key), put (a # get w) w)),
     cl_remove = (\<lambda>a key w. (Inr (''removed:'' @ key), put (filter (\<lambda>x. x \<noteq> a) (get w)) w)),
     cl_contains = (\<lambda>a w. (Inr (PBool (a \<in> set (get w))), w))\<rparr>\<rparr>"

definition demo_peers :: "demo_world peer list" where
  "demo_peers = [demo_peer ''fw-core'' fst (\<lambda>x w. (x, snd w)), demo_peer ''fw-dmz'' snd (\<lambda>x w. (fst w, x))]"

definition demo_wazuh :: "demo_world wazuh_client" where
  "demo_wazuh = \<lparr>wz_start = (\<lambda>h k w. (Inr ''sent'', w)), wz_enforced = (\<lambda>h k w. (Inr (PBool True), w)),
     wz_restore = (\<lambda>h k w. (Inr ''sent'', w)), wz_removed = (\<lambda>h k w. (Inr (PBool True), w))\<rparr>"

definition demo_block :: "demo_world adapter" where
  "demo_block = (case nftables_adapter demo_peers of Inr a \<Rightarrow> a | Inl _ \<Rightarrow> wazuh_adapter demo_wazuh)"

definition demo_env :: "(demo_world \<times> string list) env" where
  "demo_env = \<lparr>v_prims = demo_prims, v_catalog = demo_catalog,
     v_verify = (\<lambda>c t. ed_verify_command demo_auth 0 c (Some (Aware t))),
     v_adapters = [(''block_ip'', logged demo_block), (''isolate_host'', logged (wazuh_adapter demo_wazuh))]\<rparr>"

definition demo_boot :: "(demo_world \<times> string list) orch" where
  "demo_boot = \<lparr>o_persist = PStore (empty_store\<lparr>s_claimed := True\<rparr>) [], o_failed = False, o_records = [], o_dedup = [], o_world = (([], []), [])\<rparr>"

text \<open>A run: boot, a command, and one request after it.\<close>

definition demo_run :: "pyval \<Rightarrow> request \<Rightarrow> (demo_world \<times> string list) orch" where
  "demo_run cmd q = exec demo_env 0 (Some (Aware demo_now)) q
     (exec demo_env 0 (Some (Aware demo_now)) (Submit cmd) demo_boot)"

section \<open>Evaluation of the decision\<close>

definition demo_t :: target where
  "demo_t = \<lparr>t_type = ''ip'', t_value = ''8.8.8.8''\<rparr>"

definition demo_a :: anomaly where
  "demo_a = \<lparr>a_event_id = ''ai-1'', a_model_id = ''m1'', a_score = 97 / 100, a_threshold = 1 / 2, a_is_anomaly = True,
     a_observed_at = ''2023-11-14T22:13:10.000Z'', a_target = demo_t\<rparr>"

definition demo_ss :: "signal list" where
  "demo_ss = [\<lparr>s_type = ''honeypot'', s_reference = ''hp-1'', s_observed_at = ''2023-11-14T22:13:11.000Z'', s_target = demo_t,
       s_severity = None, s_count = None, s_confidence = None\<rparr>,
     \<lparr>s_type = ''suricata'', s_reference = ''alert-7'', s_observed_at = ''2023-11-14T22:13:12.000Z'', s_target = demo_t,
       s_severity = Some 3, s_count = None, s_confidence = None\<rparr>]"

lemma demo_validated:
  "validate_anomaly demo_anomaly = Inr demo_a" "validate_target demo_target = Inr demo_t"
  "validate_independent_signals (PList demo_signals) = Inr demo_ss"
  by code_simp+

lemma demo_not_rejected: "rejection_reason demo_catalog demo_policy demo_a demo_ss demo_t demo_now = Inr None"
  by code_simp

lemma demo_in_range: "in_range demo_now" "in_range (demo_now + seconds 300)" "in_range (demo_now + seconds 600)"
  by code_simp+

lemma demo_signs: "e_sign demo_engine (command_json a b c p t k auth) = Inr (b64 (replicate 64 CHR ''x''))"
  by (simp add: demo_engine_def ed_sign_command_def demo_auth_def demo_ed_def signature_payload_def command_json_def)

lemma demo_decided:
  assumes "cid = ''case-1'' \<or> cid = ''case-2''"
  shows "\<exists>r cmd. evaluate demo_engine ''block'' demo_anomaly (PList demo_signals) demo_target 0 (Some (Aware demo_now)) (PStr cid) = Inr r \<and>
     d_command r = Some cmd"
proof -
  have "strip ''case-1'' = ''case-1''" "strip ''case-2'' = ''case-2''" by code_simp+
  then have c: "resolve_correlation p m (PStr cid) = Inr cid" for p m
    using assms by (auto simp: resolve_correlation_def)
  have b: "check_bindings demo_a demo_t demo_ss = Inr ()" "a_target demo_a = demo_t" "demo_ss \<noteq> []"
    by (simp_all add: demo_a_def demo_ss_def demo_t_def)
  have p: "catalog_policy (e_catalog demo_engine) ''block'' = Inr demo_policy" "e_catalog demo_engine = demo_catalog"
    by (simp_all add: demo_engine_def demo_catalog_def catalog_policy_def)
  have "\<exists>r cmd. issue_command demo_engine demo_policy demo_a demo_ss demo_t i k demo_now = Inr r \<and> d_command r = Some cmd" for i k
    by (simp add: issue_command_def Let_def demo_signs)
  then show ?thesis
    using c b p(1) demo_not_rejected by (simp add: evaluate_def p(2) demo_validated as_utc_def Let_def)
qed

end
