(* ===== verification/Handoff.thy ===== *)
theory Handoff
  imports Orchestrator
begin

text \<open>
  The handoff between the two sides of the response boundary: a command the decision engine issues is
  one the orchestrator accepts, when both run the same policy catalog and the orchestrator holds the
  verification key. The proof is made once against the authenticator contract.
\<close>

lemma cut_ms_add_seconds: "cut_ms (t + seconds n) = cut_ms t + seconds n"
proof -
  have "(t + 1000 * (1000 * n)) mod 1000 = t mod 1000" by (rule mod_mult_self2)
  then show ?thesis by (simp add: cut_ms_def seconds_def mult.commute)
qed

lemma resolve_correlation_not_Nil: "resolve_correlation pr m c = Inr s \<Longrightarrow> s \<noteq> []"
  by (auto simp: resolve_correlation_def Let_def split: if_splits pyval.splits)

lemma issued_command_parts:
  assumes "c = command_json rid did cor pol t key auth"
  shows "is_mapping c" "exact_keys c COMMAND_FIELDS" "pget c ''schema_version'' = PStr ''response-command-v1''"
    "pget c ''request_id'' = PStr rid" "pget c ''decision_event_id'' = PStr did" "pget c ''correlation_id'' = PStr cor"
    "pget c ''policy'' = policy_json pol" "pget c ''target'' = target_json t" "pget c ''action'' = PStr (p_action pol)"
    "pget c ''ttl_seconds'' = PInt (p_ttl_seconds pol)" "pget c ''allowlist_checked'' = PBool True"
    "pget c ''rollback_required'' = PBool True" "pget c ''idempotency_key'' = PStr key" "pget c ''authorization'' = PDict auth"
  by (simp_all add: assms command_json_def exact_keys_def no_unknown_def COMMAND_FIELDS_def)

text \<open>The target of an allowed action passes the orchestrator's own target check.\<close>

lemma check_target_allowed:
  assumes a: "assert_target_allowed p (p_action pol) (t_type t) (t_value t) = Inr ()" and len: "length (t_value t) \<le> 255"
    and c: "pget c ''target'' = target_json t" "pget c ''action'' = PStr (p_action pol)"
  shows "check_target c = Inr ()"
proof -
  consider "p_action pol = ''block_ip''" | "p_action pol = ''isolate_host''" using assert_target_action [OF a] by blast
  then show ?thesis
  proof cases
    case 1
    then obtain ip where ip: "t_type t = ''ip''" "ip_address (t_value t) = Some ip" using a by (auto simp: assert_block_ip_iff)
    have "t_value t \<noteq> []"
    proof
      assume "t_value t = []"
      moreover have "ip_address [] = None" by code_simp
      ultimately show False using ip by simp
    qed
    then show ?thesis
      using c 1 ip len by (simp add: check_target_def target_json_def exact_keys_def no_unknown_def nonempty_str_def sget_def)
  next
    case 2
    then have h: "t_type t = ''host''" "strip (t_value t) \<noteq> []" using a by (auto simp: assert_isolate_host_iff)
    then have "t_value t \<noteq> []" by (auto simp: strip_def)
    then show ?thesis
      using c 2 h len by (simp add: check_target_def target_json_def exact_keys_def no_unknown_def nonempty_str_def sget_def)
  qed
qed

lemma check_policy_issued:
  assumes "catalog_policy (v_catalog v) pid = Inr pol" "p_id pol = pid"
    and c: "pget c ''policy'' = policy_json pol" "pget c ''action'' = PStr (p_action pol)" "pget c ''ttl_seconds'' = PInt (p_ttl_seconds pol)"
  shows "check_policy v c = Inr pol"
  using assms by (simp add: check_policy_def policy_json_def exact_keys_def no_unknown_def)

context command_authenticator
begin

lemma check_authorization_issued:
  assumes v: "v_verify v = verify" and r: "ready key_id"
    and sig: "sign (command_json rid did cor pol t k auth) = Inr sg"
    and auth: "auth = authorization_json key_id ts (ts + seconds n)" and n: "0 < n" "n \<le> c_command_valid_for_seconds (v_catalog v)"
    and rng: "in_range ts" "in_range (ts + seconds n)"
    and now: "cut_ms ts \<le> now + seconds 60" "now < cut_ms (ts + seconds n)"
    and c: "c = command_json rid did cor pol t k (auth @ [(''signature'', PStr sg)])"
  shows "check_authorization v c now = Inr ()"
proof -
  have times: "parse_rfc3339 mk (pget (PDict auth) ''issued_at'') = Inr (cut_ms ts)"
    "parse_rfc3339 mk (pget (PDict auth) ''expires_at'') = Inr (cut_ms ts + seconds n)" for mk
    using rng parse_rfc3339_rfc3339 cut_ms_add_seconds by (simp_all add: auth authorization_json_def)
  have lt: "cut_ms ts < cut_ms ts + seconds n" "now < cut_ms ts + seconds n" using n now by (simp_all add: cut_ms_add_seconds) (simp add: seconds_def)
  have "verify (PDict (dict_set ''authorization'' (PDict (auth @ [(''signature'', PStr sg)]))
      (entries (command_json rid did cor pol t k auth)))) now = Inr ()"
    using sig times lt
    by (intro sign_verify [OF r, where auth = auth and i = "cut_ms ts" and x = "cut_ms ts + seconds n"]) (simp_all add: auth authorization_json_def command_json_def)
  then have "verify c now = Inr ()" by (simp add: c command_json_def)
  moreover have "pget c ''authorization'' = PDict (auth @ [(''signature'', PStr sg)])" using issued_command_parts(14) [OF c] .
  moreover have "pget (PDict (auth @ [(''signature'', PStr sg)])) k' = pget (PDict auth) k'" if "k' \<noteq> ''signature''" for k'
    using that by (simp add: auth authorization_json_def)
  ultimately show ?thesis
    using times [of CommandRejected] lt now n v
    by (simp add: check_authorization_def Let_def auth authorization_json_def exact_keys_def no_unknown_def seconds_def
        del: pget_PDict)
       (simp add: authorization_json_def)
qed

lemma issued_command_accepted:
  assumes ev: "evaluate e pid anomaly signals target clk now cid = Inr r" "d_command r = Some cmd"
    and e: "wf_catalog (e_catalog e)" "e_sign e = sign" "ready (e_key_id e)"
    and v: "v_catalog v = e_catalog e" "v_verify v = verify"
    and ts: "as_utc CorrelationRejected clk now = Inr ts" "in_range ts" "in_range (ts + seconds (c_command_valid_for_seconds (e_catalog e)))"
    and now': "cut_ms ts \<le> now' + seconds 60" "now' < cut_ms (ts + seconds (c_command_valid_for_seconds (e_catalog e)))"
    and len: "length (sget (pget cmd ''target'') ''value'') \<le> 255"
  shows "validate_command v cmd now' = Inr cmd"
proof (rule evaluate_command [OF ev])
  fix pol ts' a t ss cor
  assume p: "catalog_policy (e_catalog e) pid = Inr pol" and ts': "as_utc CorrelationRejected clk now = Inr ts'"
    and cor: "resolve_correlation (e_prims e) (decision_material pol a ss t) cid = Inr cor"
    and rej: "rejection_reason (e_catalog e) pol a ss t ts' = Inr None"
    and issue: "issue_command e pol a ss t (make_identifier (e_prims e) ''dec'' (decision_material pol a ss t)) cor ts' = Inr r"
  let ?n = "c_command_valid_for_seconds (e_catalog e)"
  let ?auth = "authorization_json (e_key_id e) ts (ts + seconds ?n)"
  have [simp]: "ts' = ts" using ts(1) ts' by simp
  show ?thesis
  proof (rule issue_command_Inr [OF issue])
    fix sg
    let ?did = "make_identifier (e_prims e) ''dec'' (decision_material pol a ss t)"
    let ?m = "request_material ?did pol a ss t"
    let ?rid = "make_identifier (e_prims e) ''req'' ?m"
    let ?key = "''idemp-'' @ sha256_hex (e_prims e) ?m"
    assume sg: "e_sign e (command_json ?rid ?did cor pol t ?key
        (authorization_json (e_key_id e) ts' (ts' + seconds ?n))) = Inr sg"
      and "d_command r = Some (command_json ?rid ?did cor pol t ?key
        (authorization_json (e_key_id e) ts' (ts' + seconds ?n) @ [(''signature'', PStr sg)]))"
    then have c: "cmd = command_json ?rid ?did cor pol t ?key (?auth @ [(''signature'', PStr sg)])" using ev(2) by simp
    note parts = issued_command_parts [OF c]
    have n: "0 < ?n" using e(1) by (simp add: wf_catalog_def)
    have pid: "p_id pol = pid" using wf_catalog_policy [OF e(1) p] by simp
    have 1: "check_policy v cmd = Inr pol" using check_policy_issued [of v, OF _ pid parts(7,9,10)] p v by simp
    have 2: "check_target cmd = Inr ()"
      using check_target_allowed [OF rejection_reason_None(4) [OF rej] _ parts(8,9)] len
      by (simp add: parts(8)) (simp add: target_json_def sget_def)
    have 3: "check_authorization v cmd now' = Inr ()"
      using check_authorization_issued [OF v(2) e(3) _ refl n _ ts(2,3) now' c] sg e(2) v(1) by simp
    have ids: "?rid \<noteq> []" "?did \<noteq> []" "?key \<noteq> []" "cor \<noteq> []"
      using resolve_correlation_not_Nil [OF cor] by (simp_all add: make_identifier_def)
    show ?thesis
      unfolding validate_command_def using 1 2 3 parts ids by (simp add: nonempty_str_def)
  qed
qed

end

end
