(* ===== verification/Decision_Correctness.thy ===== *)
theory Decision_Correctness
  imports Scenario Handoff
begin

text \<open>
  What the decision engine (\<^verbatim>\<open>response/decision.py\<close>) and the authenticators (\<^verbatim>\<open>response/signing.py\<close>)
  promise to the orchestrator: which evidence a command needs, what it does not depend on, and that
  the orchestrator accepts it. The witnesses evaluate the configuration of theory \<open>Scenario\<close>.
\<close>

section \<open>Which evidence a command needs\<close>

abbreviation demo_evaluate :: "pyval list \<Rightarrow> pyval \<Rightarrow> decision_result res" where
  "demo_evaluate signals cid \<equiv>
     evaluate demo_engine ''block'' demo_anomaly (PList signals) demo_target 0 (Some (Aware demo_now)) cid"

lemma demo_catalog_wf: "wf_catalog (e_catalog demo_engine)"
  by (simp add: demo_engine_def demo_catalog_def wf_catalog_def wf_policy_def demo_policy_def float_0_9_def
      wf_requirement_def SUPPORTED_ACTIONS_def SUPPORTED_SIGNAL_TYPES_def)

lemma corroborated_signal:
  assumes "evaluate e pid anomaly signals target clk now cid = Inr r" "d_command r = Some cmd" "wf_catalog (e_catalog e)"
  shows "\<exists>pol ts a t ss q s. catalog_policy (e_catalog e) pid = Inr pol \<and> as_utc CorrelationRejected clk now = Inr ts \<and>
    validate_anomaly anomaly = Inr a \<and> validate_target target = Inr t \<and> validate_independent_signals signals = Inr ss \<and>
    a_is_anomaly a \<and> float_0_9 \<le> p_min_ai_score pol \<and> p_min_ai_score pol \<le> a_score a \<and> a_target a = t \<and>
    q \<in> set (p_require_any pol) \<and> s \<in> set ss \<and> matches q s \<and>
    s_type s \<in> set SUPPORTED_SIGNAL_TYPES \<and> s_target s = t \<and> s_reference s \<noteq> a_event_id a \<and>
    assert_target_allowed (c_protections (e_catalog e)) (p_action pol) (t_type t) (t_value t) = Inr ()"
proof (rule evaluate_command [OF assms(1,2)])
  fix pol ts a t ss cor
  assume h: "catalog_policy (e_catalog e) pid = Inr pol" "as_utc CorrelationRejected clk now = Inr ts"
    "validate_anomaly anomaly = Inr a" "validate_target target = Inr t" "validate_independent_signals signals = Inr ss"
    "a_target a = t" "check_bindings a t ss = Inr ()"
    and rej: "rejection_reason (e_catalog e) pol a ss t ts = Inr None"
  obtain q s where q: "q \<in> set (p_require_any pol)" "s \<in> set ss" "matches q s"
    using rejection_reason_None(3) [OF rej] by blast
  have "wf_policy pol" using wf_catalog_policy [OF assms(3) h(1)] by simp
  then have "float_0_9 \<le> p_min_ai_score pol" "wf_requirement q" using q(1) by (auto simp: wf_policy_def list_all_iff)
  moreover have "s_type s = r_kind q" using q(3) by (simp add: matches_def)
  ultimately have "s_type s \<in> set SUPPORTED_SIGNAL_TYPES" by (simp add: wf_requirement_def)
  moreover have "s_target s = t \<and> s_reference s \<noteq> a_event_id a" using h(7) q(2) by (simp add: check_bindings_iff)
  ultimately show ?thesis
    using h q \<open>float_0_9 \<le> p_min_ai_score pol\<close> rejection_reason_None(1,2,4) [OF rej] by blast
qed

text \<open>
  C5. A command is issued only for a hybrid decision: the anomaly is flagged and scores at least the
  policy's threshold, which a loaded catalog keeps at 0.9 or more, and some non-AI signal of a
  supported type, on the same target and with a reference other than the anomaly's own event,
  satisfies one of the policy's requirements; the target passes the protections.
\<close>

theorem command_needs_corroboration:
  assumes "evaluate e pid anomaly signals target clk now cid = Inr r" "d_command r = Some cmd" "wf_catalog (e_catalog e)"
  shows "\<exists>pol a t ss q s. catalog_policy (e_catalog e) pid = Inr pol \<and> validate_anomaly anomaly = Inr a \<and>
    validate_target target = Inr t \<and> validate_independent_signals signals = Inr ss \<and>
    a_is_anomaly a \<and> float_0_9 \<le> p_min_ai_score pol \<and> p_min_ai_score pol \<le> a_score a \<and> a_target a = t \<and>
    q \<in> set (p_require_any pol) \<and> s \<in> set ss \<and> matches q s \<and>
    s_type s \<in> set SUPPORTED_SIGNAL_TYPES \<and> s_target s = t \<and> s_reference s \<noteq> a_event_id a \<and>
    assert_target_allowed (c_protections (e_catalog e)) (p_action pol) (t_type t) (t_value t) = Inr ()"
  using corroborated_signal [OF assms] by blast

theorem command_needs_corroboration_witness:
  "\<exists>r cmd. demo_evaluate demo_signals (PStr ''case-1'') = Inr r \<and> d_command r = Some cmd \<and>
    (\<exists>pol a t ss q s. catalog_policy (e_catalog demo_engine) ''block'' = Inr pol \<and> validate_anomaly demo_anomaly = Inr a \<and>
      validate_target demo_target = Inr t \<and> validate_independent_signals (PList demo_signals) = Inr ss \<and>
      a_is_anomaly a \<and> float_0_9 \<le> p_min_ai_score pol \<and> p_min_ai_score pol \<le> a_score a \<and> a_target a = t \<and>
      q \<in> set (p_require_any pol) \<and> s \<in> set ss \<and> matches q s \<and>
      s_type s \<in> set SUPPORTED_SIGNAL_TYPES \<and> s_target s = t \<and> s_reference s \<noteq> a_event_id a \<and>
      assert_target_allowed (c_protections (e_catalog demo_engine)) (p_action pol) (t_type t) (t_value t) = Inr ())"
proof -
  obtain r cmd where d: "demo_evaluate demo_signals (PStr ''case-1'') = Inr r" "d_command r = Some cmd"
    using demo_decided [of "''case-1''"] by (simp, metis)
  then show ?thesis using command_needs_corroboration [OF d demo_catalog_wf] by blast
qed

section \<open>What a decision does not depend on\<close>

lemma issue_command_complete:
  "issue_command e pol a ss t did cor ts = Inr r \<Longrightarrow> d_eligible r \<and> d_event r \<noteq> None \<and> d_action_request r \<noteq> None \<and> d_command r \<noteq> None"
  by (auto simp: issue_command_def Let_def bindR_eq_Inr)

lemma evaluate_complete:
  assumes "evaluate e pid anomaly signals target clk now cid = Inr r"
  shows "(d_eligible r \<longleftrightarrow> d_command r \<noteq> None) \<and> (d_eligible r \<longleftrightarrow> d_action_request r \<noteq> None) \<and>
    (d_event r = None \<longleftrightarrow> validate_independent_signals signals = Inr []) \<and> (d_event r = None \<longrightarrow> \<not> d_eligible r) \<and>
    (\<not> d_eligible r \<longrightarrow> (\<forall>ev. d_event r = Some ev \<longrightarrow> pget (pget ev ''decision'') ''action'' = PStr ''none''))"
  using assms unfolding evaluate_def Let_def
  apply (elim bind_guardR_InrE bindR_InrE)
  subgoal for pol ts a t ss u
    apply (cases "ss = []")
     apply (simp only: if_True refl sum.inject)
     apply (drule sym [of _ r], simp)
    apply (simp only: if_False)
    apply (elim bindR_InrE)
    subgoal for cor rej
      apply (cases rej)
       apply (simp only: option.case, drule issue_command_complete, simp)
      apply (simp only: option.case sum.inject)
      apply (drule sym [of _ r], simp add: decision_event_def)
      done
    done
  done

text \<open>
  A decision is all or nothing: an eligible one carries the event, the action request and the
  command; any other carries neither request nor command, its event, if it has one, records the
  action \<^verbatim>\<open>none\<close>, and a decision without any independent signal leaves no event at all.
\<close>

theorem decision_all_or_nothing:
  assumes "evaluate e pid anomaly signals target clk now cid = Inr r"
  shows "(d_eligible r \<longleftrightarrow> d_command r \<noteq> None) \<and> (d_eligible r \<longleftrightarrow> d_action_request r \<noteq> None) \<and>
    (d_event r = None \<longleftrightarrow> validate_independent_signals signals = Inr []) \<and> (d_event r = None \<longrightarrow> \<not> d_eligible r) \<and>
    (\<not> d_eligible r \<longrightarrow> (\<forall>ev. d_event r = Some ev \<longrightarrow> pget (pget ev ''decision'') ''action'' = PStr ''none''))"
  by (rule evaluate_complete [OF assms])

theorem decision_all_or_nothing_witness:
  "\<exists>r. demo_evaluate demo_signals (PStr ''case-1'') = Inr r \<and> d_eligible r \<and> d_action_request r \<noteq> None \<and> d_event r \<noteq> None"
proof -
  obtain r cmd where d: "demo_evaluate demo_signals (PStr ''case-1'') = Inr r" "d_command r = Some cmd"
    using demo_decided [of "''case-1''"] by (simp, metis)
  then show ?thesis using decision_all_or_nothing [OF d(1)] by auto
qed

text \<open>
  C13. The order in which the collectors deliver the corroborating signals does not matter: a
  permutation of the list gives the same decision, event, identifiers, request and signed command.
\<close>

theorem signal_order_irrelevant:
  assumes "mset vs = mset vs'" "evaluate e pid anomaly (PList vs) target clk now cid = Inr r"
  shows "evaluate e pid anomaly (PList vs') target clk now cid = Inr r"
  using evaluate_perm [OF assms(2,1)] .

theorem signal_order_irrelevant_witness:
  "\<exists>r cmd. d_command r = Some cmd \<and> demo_evaluate demo_signals (PStr ''case-1'') = Inr r \<and>
     demo_evaluate (rev demo_signals) (PStr ''case-1'') = Inr r"
proof -
  obtain r cmd where d: "demo_evaluate demo_signals (PStr ''case-1'') = Inr r" "d_command r = Some cmd"
    using demo_decided [of "''case-1''"] by (simp, metis)
  then show ?thesis using signal_order_irrelevant [OF mset_rev [symmetric] d(1)] by blast
qed

lemma command_json_key: "pget (command_json i d c p t k auth) ''idempotency_key'' = PStr k"
  by (simp add: command_json_def)

lemma issued_key:
  assumes "evaluate e pid anomaly signals target clk now cid = Inr r" "d_command r = Some cmd"
  obtains pol a t ss where "catalog_policy (e_catalog e) pid = Inr pol" "validate_anomaly anomaly = Inr a"
    "validate_target target = Inr t" "validate_independent_signals signals = Inr ss"
    "pget cmd ''idempotency_key'' = PStr (''idemp-'' @ sha256_hex (e_prims e)
       (request_material (make_identifier (e_prims e) ''dec'' (decision_material pol a ss t)) pol a ss t))"
proof (rule evaluate_command [OF assms])
  fix pol ts a t ss cor
  assume h: "catalog_policy (e_catalog e) pid = Inr pol" "validate_anomaly anomaly = Inr a" "validate_target target = Inr t"
      "validate_independent_signals signals = Inr ss"
    and i: "issue_command e pol a ss t (make_identifier (e_prims e) ''dec'' (decision_material pol a ss t)) cor ts = Inr r"
  have "pget cmd ''idempotency_key'' = PStr (''idemp-'' @ sha256_hex (e_prims e)
       (request_material (make_identifier (e_prims e) ''dec'' (decision_material pol a ss t)) pol a ss t))"
    by (rule issue_command_Inr [OF i]) (use assms(2) in \<open>simp add: command_json_key\<close>)
  then show thesis using h that by blast
qed

text \<open>
  The identity of a containment is its evidence: two commands decided from the same policy,
  anomaly, signals and target carry the same idempotency key, whatever their correlation labels and
  the times at which they were decided, so that the orchestrator recognises the second as a duplicate.
\<close>

theorem idempotency_key_stable:
  assumes "evaluate e pid anomaly signals target clk now cid = Inr r" "d_command r = Some cmd"
    and "evaluate e pid anomaly signals target clk' now' cid' = Inr r'" "d_command r' = Some cmd'"
  shows "pget cmd ''idempotency_key'' = pget cmd' ''idempotency_key''"
  by (rule issued_key [OF assms(1,2)], rule issued_key [OF assms(3,4)]) simp

theorem idempotency_key_stable_witness:
  "\<exists>r cmd r' cmd'. demo_evaluate demo_signals (PStr ''case-1'') = Inr r \<and> d_command r = Some cmd \<and>
     demo_evaluate demo_signals (PStr ''case-2'') = Inr r' \<and> d_command r' = Some cmd' \<and>
     pget cmd ''idempotency_key'' = pget cmd' ''idempotency_key''"
proof -
  obtain r cmd r' cmd' where d: "demo_evaluate demo_signals (PStr ''case-1'') = Inr r" "d_command r = Some cmd"
      "demo_evaluate demo_signals (PStr ''case-2'') = Inr r'" "d_command r' = Some cmd'"
    using demo_decided [of "''case-1''"] demo_decided [of "''case-2''"] by (simp, metis)
  then show ?thesis using idempotency_key_stable [OF d] by blast
qed

section \<open>Errors\<close>

lemma raises_only_mono: "raises_only E r \<Longrightarrow> E \<subseteq> F \<Longrightarrow> raises_only F r"
  by (auto simp: raises_only_def)

lemma validators_raise:
  "raises_only rejections (validate_target v)" "raises_only rejections (finite_number v)"
  "raises_only rejections (optional_number v f)" "raises_only rejections (whole n)"
proof -
  show fin: "raises_only rejections (finite_number v)" for v
    by (auto simp: finite_number_def raises_only_def split: pyval.splits pyfloat.splits)
  show "raises_only rejections (validate_target v)"
    unfolding validate_target_def
    by (intro raises_only_intros) (auto simp: raises_only_def split: pyval.splits option.splits)
  show "raises_only rejections (optional_number v f)"
    unfolding optional_number_def using fin by (auto intro!: raises_only_intros)
  show "raises_only rejections (whole n)" by (auto simp: whole_def raises_only_def split: option.splits)
qed

lemma validate_anomaly_raises: "raises_only rejections (validate_anomaly v)"
  unfolding validate_anomaly_def
  by (auto intro!: raises_only_intros validators_raise split: pyval.splits)

lemma validate_signal_raises: "raises_only rejections (validate_signal seen v)"
  unfolding validate_signal_def Let_def
  by (auto intro!: raises_only_intros validators_raise)

lemma validate_independent_signals_raises: "raises_only rejections (validate_independent_signals v)"
proof -
  have "raises_only rejections (validate_signals seen vs)" for seen vs
    by (induction vs arbitrary: seen) (auto intro!: raises_only_intros validate_signal_raises)
  then show ?thesis unfolding validate_independent_signals_def by (auto intro!: raises_only_intros)
qed

lemma check_bindings_raises: "raises_only rejections (check_bindings a t ss)"
  by (induction ss) (auto intro!: raises_only_intros)

lemma rejection_reason_raises: "raises_only rejections (rejection_reason cat pol a ss t now)"
proof -
  let ?allowed = "assert_target_allowed (c_protections cat) (p_action pol) (t_type t) (t_value t)"
  have stale: "raises_only rejections (stale_evidence lo hi os)" for lo hi os
    by (induction os) (auto intro!: raises_only_intros)
  consider m where "?allowed = Inl (PolicyError m)" | "?allowed = Inr ()"
    using assert_target_only_policy_error by (cases ?allowed) (blast, auto)
  then show ?thesis unfolding rejection_reason_def
    by cases (auto intro!: raises_only_intros stale split: option.split)
qed



section \<open>Hand-over to the orchestrator\<close>

text \<open>
  C6. What the engine decides, the orchestrator accepts: under the same catalog and a key ring that
  holds the signer's key, the command of a decision taken at \<open>ts\<close> passes the orchestrator's whole
  validation at any instant from a minute before \<open>ts\<close> until the authorization expires, provided the
  canonical target text is at most 255 characters.
\<close>

theorem decision_accepted:
  assumes "evaluate e pid anomaly signals target clk now cid = Inr r" "d_command r = Some cmd"
    and "wf_catalog (e_catalog e)" "e_sign e = ed_sign_command A" "ed_ready A (e_key_id e)"
    and "v_catalog v = e_catalog e" "v_verify v = (\<lambda>c t. ed_verify_command A clk' c (Some (Aware t)))"
    and "as_utc CorrelationRejected clk now = Inr ts" "in_range ts" "in_range (ts + seconds (c_command_valid_for_seconds (e_catalog e)))"
    and "cut_ms ts \<le> now' + seconds 60" "now' < cut_ms (ts + seconds (c_command_valid_for_seconds (e_catalog e)))"
    and "length (sget (pget cmd ''target'') ''value'') \<le> 255"
  shows "validate_command v cmd now' = Inr cmd"
  using ed.issued_command_accepted [OF assms] .

lemma demo_command_target:
  assumes "demo_evaluate demo_signals cid = Inr r" "d_command r = Some cmd"
  shows "sget (pget cmd ''target'') ''value'' = ''8.8.8.8''"
proof (rule evaluate_command [OF assms])
  fix pol ts a t ss cor d
  assume t: "validate_target demo_target = Inr t"
    and i: "issue_command demo_engine pol a ss t (make_identifier (e_prims demo_engine) ''dec'' (decision_material pol a ss t)) cor ts = Inr r"
  have "t = demo_t" using t demo_validated(2) by simp
  then show ?thesis
    by - (rule issue_command_Inr [OF i], use assms(2) in \<open>simp add: command_json_def target_json_def demo_t_def sget_def\<close>)
qed

lemma demo_keys: "ed_ready demo_auth ''k1''"
  by (simp add: ed_ready_def demo_auth_def demo_ed_def)

theorem decision_accepted_witness:
  "\<exists>r cmd. demo_evaluate demo_signals (PStr ''case-1'') = Inr r \<and> d_command r = Some cmd \<and>
     validate_command demo_env cmd demo_now = Inr cmd"
proof -
  obtain r cmd where d: "demo_evaluate demo_signals (PStr ''case-1'') = Inr r" "d_command r = Some cmd"
    using demo_decided [of "''case-1''"] by (simp, metis)
  have valid: "c_command_valid_for_seconds (e_catalog demo_engine) = 300" by (simp add: demo_engine_def demo_catalog_def)
  have times: "cut_ms demo_now \<le> demo_now + seconds 60" "demo_now < cut_ms (demo_now + seconds 300)"
    by code_simp+
  have "validate_command demo_env cmd demo_now = Inr cmd"
    by (rule decision_accepted [OF d demo_catalog_wf, where A = demo_auth and clk' = 0 and ts = demo_now])
       (use demo_keys demo_in_range times demo_command_target [OF d] valid in
         \<open>simp_all add: demo_engine_def demo_env_def as_utc_def\<close>)
  then show ?thesis using d by blast
qed

text \<open>
  C14. Signatures round trip for both authenticators: a command that an HMAC or an Ed25519
  authenticator signed verifies with its own key ring at every instant before its expiry, with the
  signature added to its authorization.
\<close>

theorem signed_command_verifies:
  assumes "map_of kvs ''authorization'' = Some (PDict auth)" "map_of auth ''key_id'' = Some (PStr key_id)"
    and "''signature'' \<notin> set (dict_keys auth)"
    and "parse_rfc3339 CorrelationRejected (pget (PDict auth) ''issued_at'') = Inr i"
    and "parse_rfc3339 CorrelationRejected (pget (PDict auth) ''expires_at'') = Inr x" "i < x" "t < x"
    and "hmac_ready H key_id" "hmac_sign H (PDict kvs) = Inr hsig" "ed_ready A key_id" "ed_sign_command A (PDict kvs) = Inr esig"
  shows "hmac_verify H clk (PDict (dict_set ''authorization'' (PDict (auth @ [(''signature'', PStr hsig)])) kvs)) (Some (Aware t)) = Inr () \<and>
    ed_verify_command A clk (PDict (dict_set ''authorization'' (PDict (auth @ [(''signature'', PStr esig)])) kvs)) (Some (Aware t)) = Inr ()"
  using hm.sign_verify [OF assms(8,9,1-7)] ed.sign_verify [OF assms(10,11,1-7)] by blast

definition demo_hmac :: hmac_auth where
  "demo_hmac = \<lparr>h_prims = demo_prims, h_digest = (\<lambda>k m. replicate 32 CHR ''d''), h_keys = [(''k1'', replicate 32 CHR ''k'')],
     h_signing_key_id = ''k1''\<rparr>"

definition demo_authorization :: "(string \<times> pyval) list" where
  "demo_authorization = authorization_json ''k1'' demo_now (demo_now + seconds 300)"

theorem signed_command_verifies_witness:
  "\<exists>hsig esig. hmac_verify demo_hmac 0 (PDict [(''authorization'', PDict (demo_authorization @ [(''signature'', PStr hsig)]))])
      (Some (Aware demo_now)) = Inr () \<and>
    ed_verify_command demo_auth 0 (PDict [(''authorization'', PDict (demo_authorization @ [(''signature'', PStr esig)]))])
      (Some (Aware demo_now)) = Inr ()"
proof -
  let ?kvs = "[(''authorization'', PDict demo_authorization)]"
  obtain hsig esig where s: "hmac_sign demo_hmac (PDict ?kvs) = Inr hsig" "ed_sign_command demo_auth (PDict ?kvs) = Inr esig"
    by (simp add: hmac_sign_def demo_hmac_def ed_sign_command_def demo_auth_def signature_payload_def)
  have p: "parse_rfc3339 CorrelationRejected (pget (PDict demo_authorization) ''issued_at'') = Inr (cut_ms demo_now)"
      "parse_rfc3339 CorrelationRejected (pget (PDict demo_authorization) ''expires_at'') = Inr (cut_ms (demo_now + seconds 300))"
    by (simp_all add: demo_authorization_def authorization_json_def parse_rfc3339_rfc3339 demo_in_range)
  have c: "cut_ms demo_now < cut_ms (demo_now + seconds 300)" "demo_now < cut_ms (demo_now + seconds 300)" by code_simp+
  have "hmac_ready demo_hmac ''k1''" by (simp add: hmac_ready_def demo_hmac_def)
  from signed_command_verifies [OF _ _ _ p c this s(1) demo_keys s(2), where clk = 0]
  show ?thesis by (auto simp: demo_authorization_def authorization_json_def)
qed

end
