(* ===== verification/Runs.thy ===== *)
theory Runs
  imports Progress Decision_Correctness
begin

text \<open>
  A run of the whole response plane in the configuration of theory \<open>Scenario\<close>: the engine decides, the
  orchestrator accepts the command and has the firewalls apply it. The properties of the root theory
  are witnessed on the states of this run.
\<close>

section \<open>Reachable states\<close>

lemma demo_boots: "start_from_store demo_env empty_store [] (([], []), []) = Inr demo_boot"
  by (simp add: start_from_store_def s_claim_def s_load_def exclusive_def empty_store_def demo_boot_def)

abbreviation demo_reach :: "(demo_world \<times> string list) orch \<Rightarrow> bool" where
  "demo_reach \<equiv> reach (v_verify demo_env) demo_prims {demo_env} (\<lambda>w w'. snd w' = snd w) (([], []), [])"

lemma demo_boot_reach: "demo_reach demo_boot"
  by (rule reach.Boot [OF _ demo_boots]) simp

lemma demo_exec_reach: "demo_reach s \<Longrightarrow> demo_reach (exec demo_env 0 (Some (Aware demo_now)) q s)"
proof -
  have env: "allowed_env (v_verify demo_env) demo_prims demo_env" by (simp add: allowed_env_def demo_env_def)
  have time: "allowed_time 0 (Some (Aware demo_now))" using demo_in_range by (simp add: allowed_time_def as_utc_def)
  show "demo_reach s \<Longrightarrow> demo_reach (exec demo_env 0 (Some (Aware demo_now)) q s)"
    by (rule reach.Exec [OF _ _ env time]) simp_all
qed

lemma demo_run_reach: "demo_reach (demo_run cmd q)"
  unfolding demo_run_def by (intro demo_exec_reach demo_boot_reach)

lemma demo_logged: "\<forall>v \<in> {demo_env}. logged_env v"
  by (auto simp: logged_env_def demo_env_def)

section \<open>The command\<close>

lemma demo_command:
  obtains r cmd where "demo_evaluate demo_signals (PStr ''case-1'') = Inr r" "d_command r = Some cmd"
    "validate_command demo_env cmd demo_now = Inr cmd" "target_allowed demo_env cmd = Inr ()"
    "pget cmd ''action'' = PStr ''block_ip''" "pget cmd ''ttl_seconds'' = PInt 600"
    "pget cmd ''target'' = PDict [(''type'', PStr ''ip''), (''value'', PStr ''8.8.8.8'')]"
    "\<exists>k. pget cmd ''idempotency_key'' = PStr k \<and> k \<noteq> []"
proof -
  obtain r cmd where d: "demo_evaluate demo_signals (PStr ''case-1'') = Inr r" "d_command r = Some cmd"
    using demo_decided [of "''case-1''"] by (simp, metis)
  have parts: "pget cmd ''action'' = PStr ''block_ip'' \<and> pget cmd ''ttl_seconds'' = PInt 600 \<and>
      pget cmd ''target'' = PDict [(''type'', PStr ''ip''), (''value'', PStr ''8.8.8.8'')] \<and>
      (\<exists>k. pget cmd ''idempotency_key'' = PStr k \<and> k \<noteq> []) \<and> target_allowed demo_env cmd = Inr ()"
  proof (rule evaluate_command [OF d])
    fix pol ts a t ss cor
    assume p: "catalog_policy (e_catalog demo_engine) ''block'' = Inr pol" and t: "validate_target demo_target = Inr t"
      and rej: "rejection_reason (e_catalog demo_engine) pol a ss t ts = Inr None"
      and i: "issue_command demo_engine pol a ss t (make_identifier (e_prims demo_engine) ''dec'' (decision_material pol a ss t)) cor ts = Inr r"
    have "pol = demo_policy" "t = demo_t"
      using p t demo_validated(2) by (simp_all add: demo_engine_def demo_catalog_def catalog_policy_def)
    then show ?thesis
      using rejection_reason_None(4) [OF rej]
      by - (rule issue_command_Inr [OF i], use d(2) in \<open>simp add: command_json_def target_json_def demo_t_def demo_policy_def
        target_allowed_def sget_def demo_engine_def demo_env_def\<close>)
  qed
  have valid: "c_command_valid_for_seconds (e_catalog demo_engine) = 300" by (simp add: demo_engine_def demo_catalog_def)
  have times: "cut_ms demo_now \<le> demo_now + seconds 60" "demo_now < cut_ms (demo_now + seconds 300)" by code_simp+
  have e: "e_sign demo_engine = ed_sign_command demo_auth" "ed_ready demo_auth (e_key_id demo_engine)"
      "v_catalog demo_env = e_catalog demo_engine" "v_verify demo_env = (\<lambda>c t. ed_verify_command demo_auth 0 c (Some (Aware t)))"
      "as_utc CorrelationRejected 0 (Some (Aware demo_now)) = Inr demo_now"
    using demo_keys by (simp_all add: demo_engine_def demo_env_def as_utc_def)
  have "validate_command demo_env cmd demo_now = Inr cmd"
    by (rule ed.issued_command_accepted [OF d demo_catalog_wf e demo_in_range(1)])
       (use demo_in_range times demo_command_target [OF d] valid in simp_all)
  then show thesis using that d parts by blast
qed

section \<open>The run\<close>

lemma demo_world_apply:
  assumes "pget cmd ''action'' = PStr ''block_ip''" "pget cmd ''target'' = PDict [(''type'', PStr ''ip''), (''value'', PStr ''8.8.8.8'')]"
    and "pget cmd ''idempotency_key'' = PStr k" "k \<noteq> []"
  shows "\<exists>oc w ref. ad_apply demo_block cmd ([], []) = (Inr (Outcome oc), w) \<and> usable oc \<and> oc_reference oc = Some ref \<and> ref \<noteq> [] \<and>
    ad_recovery_reference demo_block cmd = Inr ref \<and> w = ([''8.8.8.8''], [''8.8.8.8''])"
proof -
  have ip: "map_option show_ip (ip_address ''8.8.8.8'') = Some ''8.8.8.8''" by code_simp
  then have a: "command_address cmd = Inr ''8.8.8.8''" using assms by (auto simp: command_address_def)
  have k: "command_key cmd = Inr k" using assms by (simp add: command_key_def)
  show ?thesis
    using a k by (simp add: demo_block_def nftables_adapter_def blocklist_adapter_def demo_peers_def demo_peer_def blocklist_apply_def
        blocklist_reference_def outcome_success_def usable_def evidence_ref_def)
qed

text \<open>Submission stores the response; application then reaches both firewalls.\<close>

lemma demo_submitted:
  assumes "validate_command demo_env cmd demo_now = Inr cmd" "target_allowed demo_env cmd = Inr ()"
    "pget cmd ''action'' = PStr ''block_ip''" "pget cmd ''ttl_seconds'' = PInt 600"
  obtains s' st1 st2 where "submit demo_env 0 cmd (Some (Aware demo_now)) demo_boot =
      (Inr (result_of (response_id demo_prims (sget cmd ''idempotency_key'')) Requested True None
        (Some (request_event demo_env ''nftables'' cmd demo_now))), s')"
    "checkpoint demo_prims (snapshot_of (requested demo_env cmd demo_now False)) (Some (request_event demo_env ''nftables'' cmd demo_now))
       (empty_store\<lparr>s_claimed := True\<rparr>) = Inr st1"
    "checkpoint demo_prims (snapshot_of (requested demo_env cmd demo_now True)) None st1 = Inr st2" "o_persist s' = PStore st2 []"
    "o_records s' = [(response_id demo_prims (sget cmd ''idempotency_key''), requested demo_env cmd demo_now True)]"
    "\<not> o_failed s'" "o_world s' = (([], []), [])"
proof -
  have pr: "v_prims demo_env = demo_prims" by (simp add: demo_env_def)
  have n: "ad_name (logged demo_block) = ''nftables''"
    by (simp add: logged_def demo_block_def nftables_adapter_def blocklist_adapter_def demo_peers_def demo_peer_def)
  have t: "in_range (demo_now + seconds (ttl_of cmd))" using demo_in_range(3) assms(4) by (simp add: ttl_of_def)
  let ?st = "empty_store\<lparr>s_claimed := True\<rparr>" and ?rid = "response_id (v_prims demo_env) (sget cmd ''idempotency_key'')"
  have b: "\<not> o_failed demo_boot" "o_persist demo_boot = PStore ?st []" "store_inv (v_prims demo_env) ?st" "\<not> s_closed ?st"
      "as_utc CommandRejected 0 (Some (Aware demo_now)) = Inr demo_now"
    by (simp_all add: demo_boot_def as_utc_def) (simp add: empty_store_def)
  have a: "dict_get (v_adapters demo_env) (sget cmd ''action'') = Some (logged demo_block)"
    using assms(3) by (simp add: demo_env_def sget_def)
  have f: "sget cmd ''idempotency_key'' \<notin> set (dict_keys (o_dedup demo_boot))" "?rid \<notin> set (dict_keys (o_records demo_boot))"
      "?rid \<notin> set (dict_keys (s_records ?st))" "ev_id (request_event demo_env (ad_name (logged demo_block)) cmd demo_now) \<notin> au_id ` set (s_audit ?st)"
    by (simp_all add: demo_boot_def empty_store_def)
  have q: "s_requested_since ?st i since = Inr 0" "int 0 < max_actions (c_rate_limit (v_catalog demo_env))" for i since
    by (simp_all add: s_requested_since_def exclusive_def empty_store_def demo_env_def demo_catalog_def)
  have e: "o_records demo_boot = []" "o_world demo_boot = (([], []), [])" by (simp_all add: demo_boot_def)
  show thesis
    using submit_accepts [OF b(1-5) demo_in_range(1) t assms(1) a assms(2) f q] that unfolding pr n e by auto
qed

lemma demo_event_ids: "event_id demo_prims rid 2 Applied \<noteq> event_id demo_prims rid 1 Requested"
  by (simp add: event_id_def demo_prims_def)

text \<open>After the submission everything is in place for the application.\<close>

lemma demo_ready:
  obtains cmd r k s st oc ref where "demo_evaluate demo_signals (PStr ''case-1'') = Inr r" "d_command r = Some cmd"
    "pget cmd ''idempotency_key'' = PStr k" "exec demo_env 0 (Some (Aware demo_now)) (Submit cmd) demo_boot = s"
    "\<not> o_failed s" "o_persist s = PStore st []" "store_inv (v_prims demo_env) st" "\<not> s_closed st" "agree st (o_records s)"
    "as_utc CommandRejected 0 (Some (Aware demo_now)) = Inr demo_now"
    "dict_get (o_records s) (response_id demo_prims k) = Some (requested demo_env cmd demo_now True)"
    "may_apply demo_env (o_records s) (requested demo_env cmd demo_now True) (logged demo_block) ref demo_now"
    "response_id demo_prims k \<notin> set (s_intents st)"
    "ad_apply (logged demo_block) (r_command (requested demo_env cmd demo_now True)) (o_world s) =
       (Inr (Outcome oc), (([''8.8.8.8''], [''8.8.8.8'']), [k]))"
    "usable oc" "oc_reference oc = Some ref" "ref \<noteq> []"
    "event_id (v_prims demo_env) (response_id demo_prims k) (r_number (requested demo_env cmd demo_now True) + 1) Applied \<notin> au_id ` set (s_audit st)"
    "pget cmd ''action'' = PStr ''block_ip''" "pget cmd ''target'' = PDict [(''type'', PStr ''ip''), (''value'', PStr ''8.8.8.8'')]" "k \<noteq> []"
    "au_id ` set (s_audit st) = {event_id demo_prims (response_id demo_prims k) 1 Requested}"
proof (rule demo_command)
  fix r cmd
  let ?now = "Some (Aware demo_now)"
  assume d: "demo_evaluate demo_signals (PStr ''case-1'') = Inr r" "d_command r = Some cmd"
    and v: "validate_command demo_env cmd demo_now = Inr cmd" "target_allowed demo_env cmd = Inr ()"
    and c: "pget cmd ''action'' = PStr ''block_ip''" "pget cmd ''ttl_seconds'' = PInt 600"
      "pget cmd ''target'' = PDict [(''type'', PStr ''ip''), (''value'', PStr ''8.8.8.8'')]"
      "\<exists>k. pget cmd ''idempotency_key'' = PStr k \<and> k \<noteq> []"
  obtain k where k: "pget cmd ''idempotency_key'' = PStr k" "k \<noteq> []" using c(4) by blast
  let ?rid = "response_id demo_prims k" and ?r = "requested demo_env cmd demo_now True"
  have key: "sget cmd ''idempotency_key'' = k" "sget cmd ''action'' = ''block_ip''" using k c by (simp_all add: sget_def)
  have pr: "v_prims demo_env = demo_prims" by (simp add: demo_env_def)
  obtain s st1 st2 where sub: "submit demo_env 0 cmd ?now demo_boot = (Inr (result_of ?rid Requested True None
        (Some (request_event demo_env ''nftables'' cmd demo_now))), s)"
    and cp: "checkpoint demo_prims (snapshot_of (requested demo_env cmd demo_now False)) (Some (request_event demo_env ''nftables'' cmd demo_now))
       (empty_store\<lparr>s_claimed := True\<rparr>) = Inr st1" "checkpoint demo_prims (snapshot_of ?r) None st1 = Inr st2"
    and s: "o_persist s = PStore st2 []" "o_records s = [(?rid, ?r)]" "\<not> o_failed s" "o_world s = (([], []), [])"
    using demo_submitted [OF v c(1,2)] unfolding key by blast
  have run: "exec demo_env 0 ?now (Submit cmd) demo_boot = s" by (simp add: exec_def sub)
  have "demo_reach s" using demo_exec_reach [OF demo_boot_reach, of "Submit cmd"] by (simp add: run)
  then have ok: "store_inv demo_prims st2" "agree st2 (o_records s)"
    using reach_ok [of _ _ _ _ _ s] s(1,3) by (auto simp: sys_ok_def store_ok_def)
  note step = checkpoint_step [OF cp(1)] checkpoint_step [OF cp(2)]
  have st: "\<not> s_closed st2" "?rid \<notin> set (s_intents st2)"
    using step by (auto simp: store_step_def claims_apply_def empty_store_def)
  have ids: "au_id ` set (s_audit st2) = {event_id demo_prims ?rid 1 Requested}"
    using step by (auto simp: store_step_def empty_store_def pr request_event_def transition_event_def build_event_def new_response_def key)
  have fr: "event_id (v_prims demo_env) ?rid (r_number ?r + 1) Applied \<notin> au_id ` set (s_audit st2)"
    using ids demo_event_ids [of ?rid] by (simp add: pr numeral_2_eq_2)
  obtain oc w ref where w: "ad_apply demo_block cmd ([], []) = (Inr (Outcome oc), w)" "usable oc" "oc_reference oc = Some ref" "ref \<noteq> []"
      "ad_recovery_reference demo_block cmd = Inr ref" "w = ([''8.8.8.8''], [''8.8.8.8''])"
    using demo_world_apply [OF c(1,3) k] by blast
  have get: "dict_get (o_records s) ?rid = Some ?r" by (simp add: s(2))
  have "dict_get (v_adapters demo_env) ''block_ip'' = Some (logged demo_block)" by (simp add: demo_env_def)
  then have adf: "adapter_for demo_env ?r = Inr (logged demo_block)" by (simp add: adapter_for_def key)
  have rr: "ad_recovery_reference (logged demo_block) cmd = Inr ref" using w(5) by (simp add: logged_def)
  have auth: "r_authorized ?r" by (simp add: requested_def)
  have ex: "demo_now < r_expires ?r" by (simp add: ttl_of_def c(2) seconds_def)
  have may: "may_apply demo_env (o_records s) ?r (logged demo_block) ref demo_now"
    using v w(4) adf rr auth ex by (simp add: may_apply_def reauthorize_def s(2))
  have ap: "ad_apply (logged demo_block) (r_command ?r) (o_world s) = (Inr (Outcome oc), (w, [k]))"
    using w(1) by (simp add: logged_def s(4) key)
  have utc: "as_utc CommandRejected 0 ?now = Inr demo_now" by (simp add: as_utc_def)
  show thesis
    by (rule that [OF d k(1) run s(3,1) ok(1) [folded pr] st(1) ok(2) utc get may st(2) ap [unfolded w(6)] w(2,3,4) fr c(1,3) k(2) ids])
qed

lemma demo_world_revert:
  assumes "pget cmd ''action'' = PStr ''block_ip''" "pget cmd ''target'' = PDict [(''type'', PStr ''ip''), (''value'', PStr ''8.8.8.8'')]"
    and "pget cmd ''idempotency_key'' = PStr k" "k \<noteq> []"
  shows "\<exists>oc. ad_revert demo_block cmd ref ([''8.8.8.8''], [''8.8.8.8'']) = (Inr (Outcome oc), ([], [])) \<and> usable oc"
proof -
  have ip: "map_option show_ip (ip_address ''8.8.8.8'') = Some ''8.8.8.8''" by code_simp
  then have a: "command_address cmd = Inr ''8.8.8.8''" using assms by (auto simp: command_address_def)
  have k: "command_key cmd = Inr k" using assms by (simp add: command_key_def)
  show ?thesis
    using a k by (simp add: demo_block_def nftables_adapter_def blocklist_adapter_def demo_peers_def demo_peer_def blocklist_revert_def
        revert_peer_def outcome_success_def usable_def evidence_ref_def released_without_removal_def Let_def)
qed

lemma demo_rollback_ids: "event_id demo_prims rid 3 Rolled_back \<noteq> event_id demo_prims rid 1 Requested"
  "event_id demo_prims rid 3 Rolled_back \<noteq> event_id demo_prims rid 2 Applied"
  by (simp_all add: event_id_def demo_prims_def)

text \<open>The run up to the application, and what is in place for its reversal.\<close>

lemma demo_applied:
  obtains cmd k rid s st q ref oc where "rid = response_id demo_prims k" "demo_run cmd (Apply rid) = s"
    "\<not> o_failed s" "o_persist s = PStore st []" "store_inv (v_prims demo_env) st" "\<not> s_closed st" "agree st (o_records s)"
    "dict_get (o_records s) rid = Some q" "r_state q = Applied" "r_reference q = Some ref" "adapter_for demo_env q = Inr (logged demo_block)"
    "o_world s = (([''8.8.8.8''], [''8.8.8.8'']), [k])"
    "ad_revert (logged demo_block) (r_command q) ref (o_world s) = (Inr (Outcome oc), (([], []), [k]))" "usable oc"
    "event_id (v_prims demo_env) rid (r_number q + 1) Rolled_back \<notin> au_id ` set (s_audit st)"
proof (rule demo_ready)
  fix cmd r k s st oc ref
  let ?now = "Some (Aware demo_now)" and ?rid = "response_id demo_prims k" and ?r = "requested demo_env cmd demo_now True"
  let ?w = "(([''8.8.8.8''], [''8.8.8.8'']), [k])"
  assume k: "pget cmd ''idempotency_key'' = PStr k" and run: "exec demo_env 0 ?now (Submit cmd) demo_boot = s"
    and h: "\<not> o_failed s" "o_persist s = PStore st []" "store_inv (v_prims demo_env) st" "\<not> s_closed st" "agree st (o_records s)"
      "as_utc CommandRejected 0 ?now = Inr demo_now" "dict_get (o_records s) ?rid = Some ?r"
      "may_apply demo_env (o_records s) ?r (logged demo_block) ref demo_now" "?rid \<notin> set (s_intents st)"
      "ad_apply (logged demo_block) (r_command ?r) (o_world s) = (Inr (Outcome oc), ?w)" "usable oc" "oc_reference oc = Some ref" "ref \<noteq> []"
      "event_id (v_prims demo_env) ?rid (r_number ?r + 1) Applied \<notin> au_id ` set (s_audit st)"
    and c: "pget cmd ''action'' = PStr ''block_ip''" "pget cmd ''target'' = PDict [(''type'', PStr ''ip''), (''value'', PStr ''8.8.8.8'')]" "k \<noteq> []"
    and ids: "au_id ` set (s_audit st) = {event_id demo_prims ?rid 1 Requested}"
  obtain res s' q st' where fin: "apply_op demo_env 0 ?rid ?now s = (Inr res, s')"
    and q: "dict_get (o_records s') ?rid = Some q" "r_state q = Applied" "r_reference q = Some ref" "o_persist s' = PStore st' []"
      "o_world s' = ?w" "\<not> o_failed s'" "r_command q = r_command ?r" "r_number q = r_number ?r + 1" "recorded (v_prims demo_env) st' q"
      "au_id ` set (s_audit st') = insert (event_id (v_prims demo_env) ?rid (r_number ?r + 1) Applied) (au_id ` set (s_audit st))"
    using apply_op_succeeds [OF h] by blast
  have run': "demo_run cmd (Apply ?rid) = s'" by (simp add: demo_run_def run) (simp add: exec_def fin)
  have ok: "store_inv (v_prims demo_env) st'" "\<not> s_closed st'" using q(9) by (simp_all add: recorded_def)
  have ag: "agree st' (o_records s')"
    using reach_ok [OF demo_run_reach [of cmd "Apply ?rid"]] q(4,6) by (auto simp: run' sys_ok_def)
  have cmd: "r_command q = cmd" using q(7) by simp
  have ad: "adapter_for demo_env q = Inr (logged demo_block)" by (simp add: adapter_for_def cmd sget_def c) (simp add: demo_env_def)
  obtain oc' where rv: "ad_revert demo_block cmd ref ([''8.8.8.8''], [''8.8.8.8'']) = (Inr (Outcome oc'), ([], []))" "usable oc'"
    using demo_world_revert [OF c(1,2) k c(3)] by blast
  have lrv: "ad_revert (logged demo_block) (r_command q) ref (o_world s') = (Inr (Outcome oc'), (([], []), [k]))"
    using rv(1) by (simp add: logged_def q(5) cmd)
  have pr: "v_prims demo_env = demo_prims" by (simp add: demo_env_def)
  have "r_number q + 1 = 3" "r_number ?r + 1 = 2" using q(8) by simp_all
  then have fr: "event_id (v_prims demo_env) ?rid (r_number q + 1) Rolled_back \<notin> au_id ` set (s_audit st')"
    using demo_rollback_ids [of ?rid] unfolding q(10) ids pr by (simp add: numeral_2_eq_2 numeral_3_eq_3)
  show thesis
    by (rule that [OF refl run' q(6,4) ok ag q(1,2,3) ad q(5) lrv rv(2) fr])
qed

end
