(* ===== verification/Http.thy ===== *)
theory Http
  imports Values
begin

text \<open>
  \<^verbatim>\<open>soc/workers/https.py\<close> and \<^verbatim>\<open>response/transports/http.py\<close>: the origin-bound HTTPS transport every
  control-plane client is built on.

  The network is a function of the request and the world. It answers with a response, is unreachable
  (\<^verbatim>\<open>URLError\<close>, \<^verbatim>\<open>TimeoutError\<close>, \<^verbatim>\<open>OSError\<close>, while connecting or reading), or breaks the HTTP protocol
  (\<^verbatim>\<open>HTTPException\<close>). A response carries the number of bytes the bounded read returned, what the
  connection still announces, and what \<^verbatim>\<open>json.loads\<close> makes of the bytes (\<^const>\<open>None\<close>: not JSON). The
  opener turns every status outside 200..299 into an \<^verbatim>\<open>HTTPError\<close>: \<^verbatim>\<open>NoRedirect\<close> follows no redirect.
\<close>

section \<open>Text of Python values\<close>

definition repr_char :: "char \<Rightarrow> char \<Rightarrow> string" where
  "repr_char q c = (let n = of_char c :: nat; bs = char_of (92 :: nat) in
     if c = q \<or> c = bs then [bs, c]
     else if n = 10 then [bs, CHR ''n''] else if n = 13 then [bs, CHR ''r''] else if n = 9 then [bs, CHR ''t'']
     else if n < 32 \<or> 127 \<le> n \<and> n \<le> 160 \<or> n = 173 then [bs, CHR ''x'', hex_digit (n div 16), hex_digit (n mod 16)]
     else [c])"

definition repr_string :: "string \<Rightarrow> string" where
  "repr_string s = (let q = if CHR 0x27 \<in> set s \<and> CHR 0x22 \<notin> set s then CHR 0x22 else CHR 0x27
     in [q] @ concat (map (repr_char q) s) @ [q])"

definition repr_float :: "prims \<Rightarrow> pyfloat \<Rightarrow> string" where
  "repr_float pr f = (case f of Fin r \<Rightarrow> float_repr pr r | PosInf \<Rightarrow> ''inf'' | NegInf \<Rightarrow> ''-inf'' | NaN \<Rightarrow> ''nan'')"

primrec py_repr :: "prims \<Rightarrow> pyval \<Rightarrow> string" where
  "py_repr pr PNone = ''None''"
| "py_repr pr (PBool b) = (if b then ''True'' else ''False'')"
| "py_repr pr (PInt i) = show_int i"
| "py_repr pr (PFloat f) = repr_float pr f"
| "py_repr pr (PStr s) = repr_string s"
| "py_repr pr (PList vs) = ''['' @ join_with '', '' (map (py_repr pr) vs) @ '']''"
| "py_repr pr (PDict kvs) = ''{'' @ join_with '', ''
     (map (\<lambda>(k, t). repr_string k @ '': '' @ t) (map (map_prod id (py_repr pr)) kvs)) @ ''}''"

definition py_str :: "prims \<Rightarrow> pyval \<Rightarrow> string" where
  "py_str pr v = (case v of PStr s \<Rightarrow> s | _ \<Rightarrow> py_repr pr v)"

text \<open>What \<^verbatim>\<open>json.dumps(..., allow_nan=False)\<close> accepts.\<close>

primrec json_finite :: "pyval \<Rightarrow> bool" where
  "json_finite PNone = True"
| "json_finite (PBool b) = True"
| "json_finite (PInt i) = True"
| "json_finite (PFloat f) = (case f of Fin r \<Rightarrow> True | _ \<Rightarrow> False)"
| "json_finite (PStr s) = True"
| "json_finite (PList vs) = list_all id (map json_finite vs)"
| "json_finite (PDict kvs) = list_all snd (map (map_prod id json_finite) kvs)"

section \<open>Percent encoding\<close>

text \<open>\<^verbatim>\<open>urllib.parse.quote(s, safe='')\<close> and \<^verbatim>\<open>quote_plus\<close>, on the UTF-8 bytes of the text.\<close>

definition unreserved :: "char \<Rightarrow> bool" where
  "unreserved c = (let n = of_char c :: nat in
     48 \<le> n \<and> n \<le> 57 \<or> 65 \<le> n \<and> n \<le> 90 \<or> 97 \<le> n \<and> n \<le> 122 \<or> n = 45 \<or> n = 46 \<or> n = 95 \<or> n = 126)"

definition upper_hex :: "nat \<Rightarrow> char" where
  "upper_hex d = (if d < 10 then char_of (48 + d) else char_of (55 + d))"

definition percent :: "nat \<Rightarrow> string" where
  "percent n = [CHR ''%'', upper_hex (n div 16), upper_hex (n mod 16)]"

definition utf8 :: "char \<Rightarrow> nat list" where
  "utf8 c = (let n = of_char c in if n < 128 then [n] else [192 + n div 64, 128 + n mod 64])"

definition quote_char :: "char \<Rightarrow> string" where
  "quote_char c = (if unreserved c then [c] else concat (map percent (utf8 c)))"

definition quote :: "string \<Rightarrow> string" where
  "quote s = concat (map quote_char s)"

definition quote_plus :: "string \<Rightarrow> string" where
  "quote_plus s = concat (map (\<lambda>c. if c = CHR '' '' then ''+'' else quote_char c) s)"

definition urlencode :: "(string \<times> string) list \<Rightarrow> string" where
  "urlencode form = join_with ''&'' (map (\<lambda>(k, v). quote_plus k @ ''='' @ quote_plus v) form)"

section \<open>The client\<close>

record http_request =
  rq_method :: string
  rq_url :: string
  rq_headers :: "(string \<times> string) list"
  rq_json :: "pyval option"
  rq_form :: "string option"

record http_response =
  re_status :: int
  re_length :: nat
  re_remaining :: "nat option"
  re_body :: "pyval option"

datatype http_reply = Response http_response | Unreachable | Broken_response

record 'w http =
  ht_origin :: string
  ht_open :: "http_request \<Rightarrow> 'w \<Rightarrow> http_reply \<times> 'w"
  ht_authorization :: "('w, string option) ex"

record url_parts =
  up_scheme :: string
  up_hostname :: "string option"
  up_username :: "string option"
  up_password :: "string option"
  up_path :: string
  up_query :: string
  up_fragment :: string

definition truthy :: "string option \<Rightarrow> bool" where
  "truthy s = (s \<noteq> None \<and> s \<noteq> Some [])"

definition rstrip_slash :: "string \<Rightarrow> string" where
  "rstrip_slash s = rev (dropWhile (\<lambda>c. c = CHR ''/'') (rev s))"

definition json_https :: "(string \<Rightarrow> url_parts) \<Rightarrow> (http_request \<Rightarrow> 'w \<Rightarrow> http_reply \<times> 'w) \<Rightarrow> string \<Rightarrow>
  string option \<Rightarrow> string option \<Rightarrow> ('w, string option) ex \<Rightarrow> 'w http res" where
  "json_https urlsplit net origin cert key authorization = (
     let parsed = urlsplit origin in
     bindR (guardR (\<not> (up_scheme parsed \<noteq> ''https'' \<or> \<not> truthy (up_hostname parsed) \<or> truthy (up_username parsed)
         \<or> truthy (up_password parsed) \<or> up_query parsed \<noteq> [] \<or> up_fragment parsed \<noteq> []
         \<or> up_path parsed \<notin> {[], ''/''}))
       (ValueError ''a bare HTTPS origin without credentials is required'')) (\<lambda>_.
     bindR (guardR (truthy cert = truthy key)
       (ValueError ''client certificate and key must be provided together'')) (\<lambda>_.
     Inr \<lparr>ht_origin = rstrip_slash origin, ht_open = net, ht_authorization = authorization\<rparr>)))"

definition with_authorization :: "'w http \<Rightarrow> ('w, string option) ex \<Rightarrow> 'w http" where
  "with_authorization c authorization = c\<lparr>ht_authorization := authorization\<rparr>"

definition relative_path :: "string \<Rightarrow> bool" where
  "relative_path path = (starts_with ''/'' path \<and> \<not> starts_with ''//'' path)"

definition MAX_REPLY :: nat where
  "MAX_REPLY = 2 * 1024 * 1024"

definition http_error :: "int \<Rightarrow> exn" where
  "http_error status = DeliveryErr (''HTTP_'' @ show_int status) (status \<in> {408, 425, 429} \<or> status \<ge> 500) (Some status)"

text \<open>
  The \<^verbatim>\<open>try\<close> block of both methods; only \<^verbatim>\<open>request\<close> looks at the announced rest of the body (\<open>whole\<close>).
\<close>

definition read_reply :: "bool \<Rightarrow> http_reply \<Rightarrow> (int \<times> pyval) res" where
  "read_reply whole reply = (case reply of
     Unreachable \<Rightarrow> Inl (DeliveryErr ''TLS_OR_NETWORK_UNAVAILABLE'' True None)
   | Broken_response \<Rightarrow> Inl (DeliveryErr ''INCOMPLETE_HTTP_RESPONSE'' True None)
   | Response r \<Rightarrow>
       if \<not> (200 \<le> re_status r \<and> re_status r < 300) then Inl (http_error (re_status r))
       else if MAX_REPLY < re_length r then Inl (DeliveryErr ''RESPONSE_TOO_LARGE'' False None)
       else if whole \<and> re_remaining r \<notin> {None, Some 0} then Inl (DeliveryErr ''INCOMPLETE_HTTP_RESPONSE'' True None)
       else (case re_body r of
           None \<Rightarrow> Inl (DeliveryErr ''INVALID_JSON_RESPONSE'' False None)
         | Some decoded \<Rightarrow> if is_mapping decoded then Inr (re_status r, decoded)
             else Inl (DeliveryErr ''RESPONSE_NOT_OBJECT'' False None)))"

definition http_send :: "bool \<Rightarrow> 'w http \<Rightarrow> http_request \<Rightarrow> ('w, int \<times> pyval) ex" where
  "http_send whole c rq w = (case ht_open c rq w of (reply, w') \<Rightarrow> (read_reply whole reply, w'))"

definition request :: "'w http \<Rightarrow> string \<Rightarrow> string \<Rightarrow> pyval option \<Rightarrow> ('w, int \<times> pyval) ex" where
  "request c method path payload =
     bindX (liftX (guardR (relative_path path) (ValueError ''request path must be origin-relative''))) (\<lambda>_.
     bindX (liftX (case payload of None \<Rightarrow> Inr ()
       | Some p \<Rightarrow> guardR (json_finite p) (ValueError ''Out of range float values are not JSON compliant''))) (\<lambda>_.
     bindX (ht_authorization c) (\<lambda>authorization.
     http_send True c \<lparr>rq_method = method, rq_url = ht_origin c @ path,
       rq_headers = [(''Accept'', ''application/json'')]
         @ (if payload = None then [] else [(''Content-Type'', ''application/json'')])
         @ (case authorization of Some a \<Rightarrow> if a = [] then [] else [(''Authorization'', a)] | None \<Rightarrow> []),
       rq_json = payload, rq_form = None\<rparr>)))"

definition post_form :: "'w http \<Rightarrow> string \<Rightarrow> (string \<times> string) list \<Rightarrow> ('w, int \<times> pyval) ex" where
  "post_form c path form =
     bindX (liftX (guardR (relative_path path) (ValueError ''request path must be origin-relative''))) (\<lambda>_.
     http_send False c \<lparr>rq_method = ''POST'', rq_url = ht_origin c @ path,
       rq_headers = [(''Content-Type'', ''application/x-www-form-urlencoded''), (''Accept'', ''application/json'')],
       rq_json = None, rq_form = Some (urlencode form)\<rparr>)"

section \<open>What a reply can be\<close>

lemma read_reply_Inr:
  "read_reply whole reply = Inr (status, body) \<longleftrightarrow>
     (\<exists>r. reply = Response r \<and> re_status r = status \<and> 200 \<le> status \<and> status < 300 \<and> re_length r \<le> MAX_REPLY \<and>
       (whole \<longrightarrow> re_remaining r \<in> {None, Some 0}) \<and> re_body r = Some body \<and> is_mapping body)"
  by (cases reply) (auto simp: read_reply_def split: option.splits)

lemma read_reply_Inl:
  "read_reply whole reply = Inl e \<Longrightarrow> \<exists>code retryable status. e = DeliveryErr code retryable status"
  by (cases reply) (auto simp: read_reply_def http_error_def split: option.splits if_splits)

text \<open>Quoted text stays inside its path segment or query value.\<close>

lemma percent_chars: "n < 256 \<Longrightarrow> c \<in> set (percent n) \<Longrightarrow> c = CHR ''%'' \<or> unreserved c"
proof -
  assume n: "n < 256" and c: "c \<in> set (percent n)"
  have "d < 16 \<Longrightarrow> unreserved (upper_hex d)" for d
    by (auto simp: unreserved_def upper_hex_def Let_def)
  then show ?thesis using n c by (auto simp: percent_def)
qed

lemma utf8_bytes: "b \<in> set (utf8 c) \<Longrightarrow> b < 256"
proof -
  assume b: "b \<in> set (utf8 c)"
  have "(of_char c :: nat) < 256" by simp
  then have "of_char c div 64 < (4 :: nat)" by linarith
  then show ?thesis using b by (simp add: utf8_def Let_def split: if_splits) linarith
qed

lemma quote_chars: "c \<in> set (quote s) \<Longrightarrow> c = CHR ''%'' \<or> unreserved c"
  by (auto simp: quote_def quote_char_def dest: percent_chars [OF utf8_bytes] split: if_splits)

end
