(* ===== verification/Address_Text.thy ===== *)
theory Address_Text
  imports Ipaddr
begin

text \<open>
  The text of addresses is canonical: what \<^verbatim>\<open>str(ipaddress.ip_address(s))\<close> prints parses back to the
  same address, IPv4 and IPv6, compressed zero runs and scope identifiers included. The code relies on
  it wherever an address is normalised once and compared as text afterwards (the ownership ledger, the
  firewall sets, the target of a containment).
\<close>

section \<open>Hexadecimal groups\<close>

lemma hex_digit_props:
  assumes "d < 16"
  shows "is_hex_digit (hex_digit d)" "hex_value (hex_digit d) = int d"
proof -
  have n: "(of_char (hex_digit d) :: nat) = (if d < 10 then 48 + d else 87 + d)"
    using assms by (simp add: hex_digit_def)
  then show "is_hex_digit (hex_digit d)" using assms by (auto simp: is_hex_digit_def)
  have "(of_char (hex_digit d) :: int) = int (if d < 10 then 48 + d else 87 + d)"
    unfolding n [symmetric] of_nat_of_char by (rule refl)
  then show "hex_value (hex_digit d) = int d" using assms by (auto simp: hex_value_def)
qed

lemma read_hex_snoc: "read_hex (s @ [c]) = read_hex s * 16 + hex_value c"
  by (simp add: read_hex_def)

lemma show_hex_read: "read_hex (show_hex n) = int n"
proof (induction n rule: show_hex.induct)
  case (1 n)
  show ?case
  proof (cases "n < 16")
    case True
    then show ?thesis by (subst show_hex.simps) (simp add: read_hex_def hex_digit_props)
  next
    case False
    have "int n = int (n div 16) * 16 + int (n mod 16)" by (simp add: zdiv_int zmod_int)
    moreover have "show_hex n = show_hex (n div 16) @ [hex_digit (n mod 16)]"
      using False by (subst show_hex.simps) simp
    ultimately show ?thesis using 1 False by (simp add: read_hex_snoc hex_digit_props)
  qed
qed

lemma show_hex_digits: "list_all is_hex_digit (show_hex n)" "show_hex n \<noteq> []"
proof -
  show "list_all is_hex_digit (show_hex n)"
    by (induction n rule: show_hex.induct) (subst show_hex.simps, simp add: hex_digit_props)
  show "show_hex n \<noteq> []" by (subst show_hex.simps) simp
qed

lemma show_hex_length: "n < 16 ^ Suc k \<Longrightarrow> length (show_hex n) \<le> Suc k"
proof (induction k arbitrary: n)
  case 0
  then show ?case by (subst show_hex.simps) simp
next
  case (Suc k)
  have "n div 16 < 16 ^ Suc k" using Suc.prems by (simp add: less_mult_imp_div_less)
  then show ?case using Suc.IH [of "n div 16"] by (subst show_hex.simps) simp
qed

lemma parse_show_hextet: "n < 65536 \<Longrightarrow> parse_hextet (show_hex n) = Some (int n)"
  using show_hex_length [of n 3] by (simp add: parse_hextet_def show_hex_digits show_hex_read)

lemma hex_free: "\<not> is_hex_digit c \<Longrightarrow> c \<notin> set (show_hex n)"
  using show_hex_digits(1) [of n] by (auto simp: list_all_iff)

lemma not_hex [simp]: "\<not> is_hex_digit CHR '':''" "\<not> is_hex_digit CHR ''.''" "\<not> is_hex_digit CHR ''%''" "\<not> is_hex_digit CHR ''/''"
  by (simp_all add: is_hex_digit_def)

lemma show_hex_zero: "show_hex 0 = ''0''"
  by code_simp

lemma hextets_value_append:
  "hextets_value (xs @ ys) acc = (case hextets_value xs acc of None \<Rightarrow> None | Some a \<Rightarrow> hextets_value ys a)"
  by (induction xs arbitrary: acc) (auto split: option.split)

lemma hextets_value_zeros: "hextets_value (replicate n ''0'') acc = Some (acc * 65536 ^ n)"
proof (induction n arbitrary: acc)
  case (Suc n)
  have "parse_hextet ''0'' = Some 0" by code_simp
  then show ?case using Suc by (simp add: algebra_simps)
qed simp

section \<open>The value of the printed groups\<close>

lemma hextets_props:
  assumes "h \<in> set (hextets v)"
  shows "h \<noteq> []" "\<not> is_hex_digit c \<Longrightarrow> c \<notin> set h"
  using assms by (auto simp: hextets_def show_hex_digits hex_free)

lemma hextets_length [simp]: "length (hextets v) = 8"
  by (simp add: hextets_def)

lemma hextets_nonempty [simp]: "hextets v \<noteq> []"
  using hextets_length [of v] by (metis list.size(3) zero_neq_numeral)

lemma hextets_prefix:
  assumes "0 \<le> v" "v < 65536 ^ 8" "k \<le> 8"
  shows "hextets_value (map (\<lambda>i. show_hex (nat (v div 65536 ^ (7 - i) mod 65536))) [0 ..< k]) 0 = Some (v div 65536 ^ (8 - k))"
  using assms(3)
proof (induction k)
  case 0
  then show ?case using assms by simp
next
  case (Suc k)
  define x where "x = v div 65536 ^ (7 - k)"
  have "8 - k = Suc (7 - k)" using Suc.prems by simp
  then have "v div 65536 ^ (8 - k) = x div 65536" using zdiv_zmult2_eq [of 65536 v "65536 ^ (7 - k)"] by (simp add: x_def mult.commute)
  moreover have "parse_hextet (show_hex (nat (x mod 65536))) = Some (x mod 65536)"
    using parse_show_hextet [of "nat (x mod 65536)"] by (simp add: nat_less_iff)
  ultimately show ?case
    using Suc by (simp add: hextets_value_append x_def [symmetric])
qed

lemma hextets_value_self: "0 \<le> v \<Longrightarrow> v < 2 ^ 128 \<Longrightarrow> hextets_value (hextets v) 0 = Some v"
  using hextets_prefix [of v 8] by (simp add: hextets_def)

section \<open>Zero runs\<close>

definition run_ok :: "string list \<Rightarrow> nat \<Rightarrow> nat \<times> nat \<Rightarrow> bool" where
  "run_ok hs i r \<longleftrightarrow> fst r + snd r \<le> i \<and> (\<forall>j. fst r \<le> j \<and> j < fst r + snd r \<longrightarrow> hs ! j = ''0'')"

lemma best_run_ok:
  "run_ok all i best \<Longrightarrow> run_ok all i cur \<Longrightarrow> (snd cur \<noteq> 0 \<longrightarrow> fst cur + snd cur = i) \<Longrightarrow>
   hs = drop i all \<Longrightarrow> i + length hs = length all \<Longrightarrow> run_ok all (length all) (best_run hs i cur best)"
proof (induction hs i cur best rule: best_run.induct)
  case (1 i cur best)
  then show ?case by simp
next
  case (2 h hs i cur best)
  have "i < length all" using 2(7) by simp
  then have "drop i all = all ! i # drop (Suc i) all" by (rule Cons_nth_drop_Suc [symmetric])
  then have h: "all ! i = h" "hs = drop (Suc i) all" "Suc i + length hs = length all" using 2(6,7) by simp_all
  have weaken: "run_ok all i r \<Longrightarrow> run_ok all (Suc i) r" for r by (simp add: run_ok_def)
  show ?case
  proof (cases "h = ''0''")
    case False
    have "run_ok all (Suc i) (0, 0)" by (simp add: run_ok_def)
    then show ?thesis using 2(2) [OF False weaken [OF 2(3)]] False h by simp
  next
    case True
    let ?c = "if snd cur = 0 then (i, 1) else (fst cur, Suc (snd cur))"
    have c: "run_ok all (Suc i) ?c" "snd ?c \<noteq> 0 \<longrightarrow> fst ?c + snd ?c = Suc i"
      using 2(4,5) h(1) True by (auto simp: run_ok_def less_Suc_eq)
    have "run_ok all (Suc i) (if snd best < snd ?c then ?c else best)" using c(1) weaken [OF 2(3)] by simp
    from 2(1) [OF True refl this c h(2,3)] show ?thesis using True by (simp add: Let_def)
  qed
qed

lemma best_run_zeros:
  assumes "best_run hs 0 (0, 0) (0, 0) = (st, n)"
  shows "st + n \<le> length hs" "take n (drop st hs) = replicate n ''0''"
proof -
  have ok: "run_ok hs (length hs) (st, n)"
    using best_run_ok [of hs 0 "(0, 0)" "(0, 0)" hs] assms by (simp add: run_ok_def)
  then show le: "st + n \<le> length hs" by (simp add: run_ok_def)
  show "take n (drop st hs) = replicate n ''0''"
    using ok le by (intro nth_equalityI) (simp_all add: run_ok_def)
qed

section \<open>IPv6 text\<close>

lemma filter_upt_single: "i < n \<Longrightarrow> m \<le> i \<Longrightarrow> (\<And>j. m \<le> j \<Longrightarrow> j < n \<Longrightarrow> P j \<longleftrightarrow> j = i) \<Longrightarrow> filter P [m ..< n] = [i]"
proof -
  assume i: "i < n" "m \<le> i" and P: "\<And>j. m \<le> j \<Longrightarrow> j < n \<Longrightarrow> P j \<longleftrightarrow> j = i"
  have "filter P [m ..< n] = filter (\<lambda>j. j = i) [m ..< n]" using P by (intro filter_cong) auto
  also have "\<dots> = [i]"
  proof -
    have "[m ..< n] = [m ..< i] @ i # [Suc i ..< n]" 
      using i upt_add_eq_append [of m i "n - i"] upt_conv_Cons [of i n] by simp
    then show ?thesis by (simp add: filter_empty_conv)
  qed
  finally show ?thesis .
qed

lemma gap_parse:
  assumes hs0: "\<forall>h \<in> set hs. h \<noteq> []" and len: "length hs = 8" and n: "1 < n" "st + n \<le> 8"
    and parts: "parts = (if st = 0 then [[]] else []) @ take st hs @ [[]] @ drop (st + n) hs @ (if st + n = length hs then [[]] else [])"
  shows "inner_gaps parts = [if st = 0 then 1 else st]" "hd parts = [] \<longleftrightarrow> st = 0" "last parts = [] \<longleftrightarrow> st + n = 8"
    "length parts = (if st = 0 then 1 else 0) + Suc (8 - n) + (if st + n = 8 then 1 else 0)"
proof -
  note hs = bspec [OF hs0]
  have ne: "take st hs \<noteq> []" if "st \<noteq> 0" using that len by auto
  have ne': "drop (st + n) hs \<noteq> []" if "st + n \<noteq> 8" using that len n by simp
  show l: "length parts = (if st = 0 then 1 else 0) + Suc (8 - n) + (if st + n = 8 then 1 else 0)"
    using parts len n by auto
  show "hd parts = [] \<longleftrightarrow> st = 0"
    using parts ne hs [of "hd hs"] len by (auto simp: hd_append hd_take intro!: hd_in_set)
  show "last parts = [] \<longleftrightarrow> st + n = 8"
    using parts ne' hs [of "last hs"] len by (cases "hs = []") (auto simp: last_drop)
  show "inner_gaps parts = [if st = 0 then 1 else st]"
    unfolding inner_gaps_def
  proof (rule filter_upt_single)
    show "(if st = 0 then 1 else st) < length parts - 1" using l n by auto
    show "1 \<le> (if st = 0 then 1 else st)" by simp
    show "parts ! j = [] \<longleftrightarrow> j = (if st = 0 then 1 else st)" if "1 \<le> j" "j < length parts - 1" for j
    proof -
      have "j < length parts" using that by simp
      have t: "take st hs ! i \<noteq> []" if "i < st" for i using that hs len n by (auto simp: nth_mem)
      have d: "drop (st + n) hs ! i \<noteq> []" if "i < 8 - (st + n)" for i using that hs len n by (auto simp: nth_mem)
      show ?thesis
      proof (cases "st = 0")
        case True
        then have "parts ! j = [] \<longleftrightarrow> j = 1 \<or> (drop n hs ! (j - 2) = [] \<and> j \<noteq> 1)"
          using that l n len by (auto simp: parts nth_append nth_Cons' numeral_2_eq_2)
        moreover have "j \<noteq> 1 \<Longrightarrow> j - 2 < 8 - n" using True that l n by (simp split: if_splits)
        ultimately show ?thesis using True d [of "j - 2"] by auto
      next
        case False
        then have "parts ! j = (if j < st then take st hs ! j else if j = st then [] else drop (st + n) hs ! (j - Suc st))"
          using that l n len by (auto simp: parts nth_append nth_Cons')
        moreover have "\<not> j < st \<Longrightarrow> j \<noteq> st \<Longrightarrow> j - Suc st < 8 - (st + n)" using False that l n by (simp split: if_splits)
        ultimately show ?thesis using False t [of j] d [of "j - Suc st"] by auto
      qed
    qed
  qed
qed

lemma parse_show_ipv6:
  assumes v: "0 \<le> v" "v < 2 ^ 128"
  shows "parse_ipv6_int (show_ipv6 v) = Some v"
proof -
  let ?hs = "hextets v"
  obtain st n where run: "best_run ?hs 0 (0, 0) (0, 0) = (st, n)" by fastforce
  note z = best_run_zeros [OF run]
  have nz: "\<forall>h \<in> set ?hs. h \<noteq> []" using hextets_props(1) by blast
  define parts where "parts = compress_hextets ?hs"
  have parts: "parts = (if 1 < n then (if st = 0 then [[]] else []) @ take st ?hs @ [[]] @ drop (st + n) ?hs @
      (if st + n = length ?hs then [[]] else []) else ?hs)"
    by (simp add: parts_def compress_hextets_def run)
  have free: "c \<notin> set w" if "w \<in> set parts" "\<not> is_hex_digit c" for w c
    using that hextets_props(2) [of w v c] by (auto simp: parts split: if_splits dest: in_set_takeD in_set_dropD)
  have three: "3 \<le> length parts" "parts \<noteq> []"
    using gap_parse(4) [OF nz hextets_length _ _ refl, of n st] z(1) by (auto simp: parts)
  have split: "split_on (CHR '':'') (show_ipv6 v) = parts"
    unfolding show_ipv6_def parts_def [symmetric] by (rule split_join [OF three(2)]) (simp add: free)
  have ne: "show_ipv6 v \<noteq> []" using split three by auto
  have suffix: "expand_suffix parts = Some parts" using free [OF last_in_set [OF three(2)]] by (simp add: expand_suffix_def)
  have start: "parse_ipv6_int (show_ipv6 v) = (if 9 < length parts then None else
        (case inner_gaps parts of
          [] \<Rightarrow> (if length parts \<noteq> 8 \<or> hd parts = [] \<or> last parts = [] then None
                 else hextets_value parts 0)
        | [i] \<Rightarrow>
            (let hi = (if hd parts = [] then i - 1 else i);
                 lo0 = length parts - i - 1;
                 lo = (if last parts = [] then lo0 - 1 else lo0) in
             if hd parts = [] \<and> hi \<noteq> 0 \<or> last parts = [] \<and> lo \<noteq> 0 \<or> 8 \<le> hi + lo then None
             else (case hextets_value (take hi parts) 0 of None \<Rightarrow> None
               | Some v \<Rightarrow> hextets_value (drop (length parts - lo) parts) (v * 65536 ^ (8 - (hi + lo)))))
        | _ \<Rightarrow> None))"
    using ne split three suffix by (simp add: parse_ipv6_int_def Let_def)
  show ?thesis
  proof (cases "1 < n")
    case False
    then have p: "parts = ?hs" by (simp add: parts)
    have "inner_gaps ?hs = []" using hextets_props(1) [of _ v] by (auto simp: inner_gaps_def filter_empty_conv)
    moreover have "hd ?hs \<noteq> []" "last ?hs \<noteq> []" using hextets_props(1) [of _ v] by simp_all
    ultimately show ?thesis using start p hextets_value_self [OF v] by simp
  next
    case True
    then have p: "parts = (if st = 0 then [[]] else []) @ take st ?hs @ [[]] @ drop (st + n) ?hs @ (if st + n = length ?hs then [[]] else [])"
      by (simp add: parts)
    have le: "st + n \<le> 8" using z(1) by simp
    note g = gap_parse [OF nz hextets_length True le p]
    define lo where "lo = 8 - (st + n)"
    have tk: "take st parts = take st ?hs" using le by (auto simp: p)
    have dr: "drop (length parts - lo) parts = drop (st + n) ?hs"
      using g(4) le by (auto simp: p lo_def)
    have hs: "?hs = take st ?hs @ replicate n ''0'' @ drop (st + n) ?hs"
      using z(2) by (metis append_take_drop_id drop_drop add.commute)
    obtain a where a: "hextets_value (take st ?hs) 0 = Some a"
      using hextets_value_self [OF v] by (subst (asm) hs) (auto simp: hextets_value_append split: option.splits)
    have b: "hextets_value (drop (st + n) ?hs) (a * 65536 ^ n) = Some v"
      using hextets_value_self [OF v] a by (subst (asm) hs) (simp add: hextets_value_append hextets_value_zeros)
    have hi: "(if hd parts = [] then (if st = 0 then 1 else st) - 1 else (if st = 0 then 1 else st)) = st" using g(2) by simp
    have lo: "(if last parts = [] then length parts - (if st = 0 then 1 else st) - 1 - 1
        else length parts - (if st = 0 then 1 else st) - 1) = lo"
      using g(3,4) le True by (auto simp: lo_def)
    have "8 - (st + lo) = n" "\<not> 8 \<le> st + lo" "\<not> 9 < length parts" "last parts = [] \<longrightarrow> lo = 0"
      using le True g(3,4) by (auto simp: lo_def)
    then show ?thesis
      unfolding start g(1) list.case Let_def hi lo using g(2) a b by (cases "st = 0") (simp_all add: tk dr)
  qed
qed

section \<open>Ranges\<close>

lemma read_hex_range: "list_all is_hex_digit s \<Longrightarrow> 0 \<le> read_hex s \<and> read_hex s < 16 ^ length s"
proof (induction s rule: rev_induct)
  case Nil
  then show ?case by (simp add: read_hex_def)
next
  case (snoc c s)
  have "is_hex_digit c" using snoc.prems by simp
  then have "0 \<le> hex_value c" "hex_value c < 16"
    using of_nat_of_char [of c, where 'a = int] by (auto simp: is_hex_digit_def hex_value_def Let_def)
  then show ?case using snoc by (simp add: read_hex_snoc)
qed

lemma parse_hextet_range: "parse_hextet h = Some x \<Longrightarrow> 0 \<le> x \<and> x < 65536"
proof -
  assume h: "parse_hextet h = Some x"
  then have "0 \<le> x" "x < 16 ^ length h" "length h \<le> 4"
    using read_hex_range [of h] by (auto simp: parse_hextet_def split: if_splits)
  moreover have "(16 :: int) ^ length h \<le> 16 ^ 4" using \<open>length h \<le> 4\<close> by (intro power_increasing) simp_all
  ultimately show ?thesis by simp
qed

lemma hextets_value_range:
  "hextets_value hs acc = Some x \<Longrightarrow> 0 \<le> acc \<Longrightarrow> acc < 65536 ^ k \<Longrightarrow> 0 \<le> x \<and> x < 65536 ^ (k + length hs)"
proof (induction hs arbitrary: acc k)
  case Nil
  then show ?case by simp
next
  case (Cons h hs)
  obtain v where v: "parse_hextet h = Some v" "hextets_value hs (acc * 65536 + v) = Some x"
    using Cons.prems(1) by (auto split: option.splits)
  have "acc * 65536 + v < 65536 ^ Suc k" using parse_hextet_range [OF v(1)] Cons.prems(3) by simp
  then show ?case using Cons.IH [OF v(2), of "Suc k"] parse_hextet_range [OF v(1)] Cons.prems(2) by simp
qed

lemma parse_ipv6_range:
  assumes "parse_ipv6_int s = Some v"
  shows "0 \<le> v \<and> v < 2 ^ 128"
proof -
  obtain parts where p: "(case inner_gaps parts of
          [] \<Rightarrow> (if length parts \<noteq> 8 \<or> hd parts = [] \<or> last parts = [] then None
                 else hextets_value parts 0)
        | [i] \<Rightarrow>
            (let hi = (if hd parts = [] then i - 1 else i);
                 lo0 = length parts - i - 1;
                 lo = (if last parts = [] then lo0 - 1 else lo0) in
             if hd parts = [] \<and> hi \<noteq> 0 \<or> last parts = [] \<and> lo \<noteq> 0 \<or> 8 \<le> hi + lo then None
             else (case hextets_value (take hi parts) 0 of None \<Rightarrow> None
               | Some v \<Rightarrow> hextets_value (drop (length parts - lo) parts) (v * 65536 ^ (8 - (hi + lo)))))
        | _ \<Rightarrow> None) = Some v"
    using assms by (auto simp: parse_ipv6_int_def Let_def split: if_splits option.splits)
  have full: "0 \<le> v \<and> v < 2 ^ 128" if "hextets_value parts 0 = Some v" "length parts = 8"
    using hextets_value_range [OF that(1), of 0] that(2) by simp
  have gap: "0 \<le> v \<and> v < 2 ^ 128" if "hextets_value (take hi parts) 0 = Some a"
      "hextets_value (drop (length parts - lo) parts) (a * 65536 ^ (8 - (hi + lo))) = Some v" "hi + lo < 8" for hi lo a
  proof -
    have "0 \<le> a" "a < 65536 ^ min (length parts) hi"
      using hextets_value_range [OF that(1), of 0] by simp_all
    moreover have "(65536 :: int) ^ min (length parts) hi \<le> 65536 ^ hi" by (intro power_increasing) simp_all
    ultimately have "a < 65536 ^ hi" by linarith
    then have "a * 65536 ^ (8 - (hi + lo)) < 65536 ^ hi * 65536 ^ (8 - (hi + lo))" by simp
    also have "\<dots> = 65536 ^ (8 - lo)" using that(3) by (simp flip: power_add)
    finally have "0 \<le> v \<and> v < 65536 ^ (8 - lo + (length parts - (length parts - lo)))"
      using hextets_value_range [OF that(2), of "8 - lo"] \<open>0 \<le> a\<close> by simp
    moreover have "(65536 :: int) ^ (8 - lo + (length parts - (length parts - lo))) \<le> 65536 ^ 8"
      using that(3) by (intro power_increasing) simp_all
    ultimately show ?thesis by simp
  qed
  show ?thesis
  proof (cases "inner_gaps parts")
    case Nil
    then show ?thesis using p full by (simp split: if_splits)
  next
    case (Cons i r)
    define hi where "hi = (if hd parts = [] then i - 1 else i)"
    define lo where "lo = (if last parts = [] then length parts - i - 1 - 1 else length parts - i - 1)"
    have "r = []" using p Cons by (cases r) simp_all
    then have "(if hd parts = [] \<and> hi \<noteq> 0 \<or> last parts = [] \<and> lo \<noteq> 0 \<or> 8 \<le> hi + lo then None
        else (case hextets_value (take hi parts) 0 of None \<Rightarrow> None
          | Some v \<Rightarrow> hextets_value (drop (length parts - lo) parts) (v * 65536 ^ (8 - (hi + lo))))) = Some v"
      using p Cons unfolding hi_def lo_def Let_def by simp
    then have "\<not> 8 \<le> hi + lo" and "(case hextets_value (take hi parts) 0 of None \<Rightarrow> None
          | Some v \<Rightarrow> hextets_value (drop (length parts - lo) parts) (v * 65536 ^ (8 - (hi + lo)))) = Some v"
      by (meson option.distinct(1))+
    then show ?thesis using gap [of hi _ lo] by (auto split: option.splits)
  qed
qed

lemma parse_ipv4_range: "parse_ipv4 s = Some v \<Longrightarrow> 0 \<le> v \<and> v < 2 ^ 32"
proof -
  have o: "parse_octet s = Some x \<Longrightarrow> 0 \<le> x \<and> x < 256" for s x by (auto simp: parse_octet_def split: if_splits)
  assume "parse_ipv4 s = Some v"
  then obtain a b c d where "map parse_octet (split_on (CHR ''.'') s) = [Some a, Some b, Some c, Some d]"
    and v: "v = ((a * 256 + b) * 256 + c) * 256 + d"
    by (auto simp: parse_ipv4_def split: list.splits option.splits)
  then have "Some x \<in> set (map parse_octet (split_on (CHR ''.'') s))" if "x \<in> {a, b, c, d}" for x using that by auto
  then have "0 \<le> x \<and> x < 256" if "x \<in> {a, b, c, d}" for x using that o by (metis (no_types, lifting) imageE list.set_map)
  then have "0 \<le> a" "a < 256" "0 \<le> b" "b < 256" "0 \<le> c" "c < 256" "0 \<le> d" "d < 256" by blast+
  then show ?thesis unfolding v by simp
qed

section \<open>Canonical text\<close>

lemma colon_not_ipv4: "CHR '':'' \<in> set s \<Longrightarrow> parse_ipv4 s = None"
proof (rule ccontr)
  assume c: "CHR '':'' \<in> set s" and "parse_ipv4 s \<noteq> None"
  then have "list_all (\<lambda>w. parse_octet w \<noteq> None) (split_on (CHR ''.'') s)"
    unfolding parse_ipv4_def by (auto simp: list_all_iff split: list.splits option.splits)
  then have w: "w \<in> set (split_on (CHR ''.'') s) \<Longrightarrow> CHR '':'' \<notin> set w" for w
    by (fastforce simp: list_all_iff parse_octet_def is_digit_def split: if_splits)
  have "CHR '':'' \<notin> set (join_with [CHR ''.''] ws)" if "\<And>w. w \<in> set ws \<Longrightarrow> CHR '':'' \<notin> set w" for ws
    using that by (induction "[CHR ''.'']" ws rule: join_with.induct) auto
  from this [of "split_on (CHR ''.'') s"] w c show False by (simp add: join_split_on)
qed

lemma show_ipv6_chars:
  assumes "0 \<le> v" "v < 2 ^ 128"
  shows "CHR '':'' \<in> set (show_ipv6 v)" "CHR ''%'' \<notin> set (show_ipv6 v)" "CHR ''/'' \<notin> set (show_ipv6 v)"
proof -
  have "parse_ipv6_int (show_ipv6 v) \<noteq> None" using parse_show_ipv6 [OF assms] by simp
  then have "\<not> length (split_on (CHR '':'') (show_ipv6 v)) < 3"
    by (auto simp: parse_ipv6_int_def Let_def split: if_splits)
  then show "CHR '':'' \<in> set (show_ipv6 v)" by (metis One_nat_def length_Cons less_numeral_extra(1) list.size(3) one_less_numeral_iff semiring_norm(77) split_on_single numeral_3_eq_3 Suc_lessI lessI less_trans)
  have "w \<in> set (compress_hextets (hextets v)) \<Longrightarrow> \<not> is_hex_digit c \<Longrightarrow> c \<notin> set w" for w c
    using hextets_props(2) [of w v c] by (auto simp: compress_hextets_def split: prod.splits if_splits dest: in_set_takeD in_set_dropD)
  moreover have "c \<notin> set (join_with '':'' ws)" if "\<And>w. w \<in> set ws \<Longrightarrow> c \<notin> set w" "c \<noteq> CHR '':''" for ws c
    using that by (induction "'':''" ws rule: join_with.induct) auto
  ultimately show "CHR ''%'' \<notin> set (show_ipv6 v)" "CHR ''/'' \<notin> set (show_ipv6 v)"
    by (simp_all add: show_ipv6_def)
qed

lemma parse_ipv6_scoped:
  assumes "0 \<le> v" "v < 2 ^ 128" "z \<noteq> []" "CHR ''%'' \<notin> set z" "CHR ''/'' \<notin> set z"
  shows "parse_ipv6 (show_ipv6 v @ ''%'' @ z) = Some (IPv6 v (Some z))"
proof -
  have "takeWhile (\<lambda>c. c \<noteq> CHR ''%'') (show_ipv6 v @ ''%'' @ z) = show_ipv6 v"
    using show_ipv6_chars [OF assms(1,2)] by (subst takeWhile_append2) auto
  then show ?thesis
    using assms show_ipv6_chars [OF assms(1,2)] parse_show_ipv6 [OF assms(1,2)] by (simp add: parse_ipv6_def Let_def)
qed

lemma parse_ipv6_plain:
  assumes "0 \<le> v" "v < 2 ^ 128"
  shows "parse_ipv6 (show_ipv6 v) = Some (IPv6 v None)"
proof -
  have tw: "takeWhile (\<lambda>c. c \<noteq> CHR ''%'') (show_ipv6 v) = show_ipv6 v"
    using show_ipv6_chars [OF assms] by (auto simp: takeWhile_eq_all_conv)
  show ?thesis unfolding parse_ipv6_def Let_def tw using show_ipv6_chars [OF assms] parse_show_ipv6 [OF assms] by simp
qed

lemma ip_address_show:
  assumes "ip_address s = Some a"
  shows "ip_address (show_ip a) = Some a"
proof (cases a)
  case (IPv4 v)
  then have "parse_ipv4 s = Some v" using assms
    by (auto simp: ip_address_def parse_ipv6_def Let_def split: option.splits if_splits)
  then show ?thesis using ip_address_show_ipv4 parse_ipv4_range IPv4 by simp
next
  case (IPv6 v z)
  then have p: "parse_ipv6 s = Some (IPv6 v z)" using assms by (auto simp: ip_address_def split: option.splits)
  then have r: "0 \<le> v" "v < 2 ^ 128" by (auto simp: parse_ipv6_def Let_def dest!: parse_ipv6_range split: if_splits)
  have "parse_ipv6 (show_ip a) = Some a"
  proof (cases z)
    case None
    then show ?thesis using IPv6 parse_ipv6_plain [OF r] by simp
  next
    case (Some t)
    then have "t \<noteq> []" "CHR ''%'' \<notin> set t" "CHR ''/'' \<notin> set t"
      using p by (auto simp: parse_ipv6_def Let_def split: if_splits dest: in_set_dropD)
    then show ?thesis using IPv6 Some parse_ipv6_scoped [OF r] by simp
  qed
  moreover have "CHR '':'' \<in> set (show_ip a)" using IPv6 show_ipv6_chars(1) [OF r] by (cases z) simp_all
  ultimately show ?thesis using colon_not_ipv4 by (simp add: ip_address_def)
qed

end
