(* ===== verification/Ownership.thy ===== *)
theory Ownership
  imports Adapters Address_Text
begin

text \<open>
  \<^verbatim>\<open>response/transports/ownership.py\<close>: the durable ledger of who holds an address on a firewall peer, and
  the client that puts it between the adapter and the raw set of the peer. The ledger is a record of
  its two tables; a ledger method is one transaction. The client's state is the pair of the outside
  world, in which the raw set lives, and the ledger; a raw call may raise, before or after it had an
  effect, and then the method raises with the ledger as it was left.

  The contract between client and ledger is the locale \<open>ownership_ledger\<close>. File modes are not modelled.
\<close>

section \<open>The raw set\<close>

record 'w raw_set =
  rw_contains :: "string \<Rightarrow> ('w, bool) ex"
  rw_add :: "string \<Rightarrow> int option \<Rightarrow> ('w, unit) ex"
  rw_remove :: "string \<Rightarrow> ('w, unit) ex"

section \<open>The ledger\<close>

datatype own_mode = Adding | Owned

record own_ledger =
  ow_owners :: "((string \<times> string) \<times> own_mode) list"
  ow_foreign :: "string list"

definition empty_ownership :: own_ledger where
  "empty_ownership = \<lparr>ow_owners = [], ow_foreign = []\<rparr>"

definition owners :: "own_ledger \<Rightarrow> string \<Rightarrow> own_mode dict" where
  "owners L address = map (\<lambda>((a, owner), mode). (owner, mode)) (filter (\<lambda>((a, owner), mode). a = address) (ow_owners L))"

definition is_foreign :: "own_ledger \<Rightarrow> string \<Rightarrow> bool" where
  "is_foreign L address \<longleftrightarrow> address \<in> set (ow_foreign L)"

definition claim :: "string \<Rightarrow> string \<Rightarrow> own_mode \<Rightarrow> bool \<Rightarrow> own_ledger \<Rightarrow> own_ledger" where
  "claim address owner mode foreign L = L\<lparr>ow_owners := AList.update (address, owner) mode (ow_owners L),
     ow_foreign := (if foreign \<and> address \<notin> set (ow_foreign L) then ow_foreign L @ [address] else ow_foreign L)\<rparr>"

definition release :: "string \<Rightarrow> string \<Rightarrow> own_ledger \<Rightarrow> own_ledger" where
  "release address owner L = (
     let left = filter (\<lambda>((a, b), mode). \<not> (a = address \<and> b = owner)) (ow_owners L)
     in L\<lparr>ow_owners := left,
       ow_foreign := (if list_ex (\<lambda>((a, b), mode). a = address) left then ow_foreign L
         else filter (\<lambda>a. a \<noteq> address) (ow_foreign L))\<rparr>)"

section \<open>The client\<close>

definition norm :: "string \<Rightarrow> string res" where
  "norm address = (case ip_address address of
     None \<Rightarrow> Inl (ValueError ''does not appear to be an IPv4 or IPv6 address'') | Some a \<Rightarrow> Inr (show_ip a))"

definition tag :: "string \<Rightarrow> string \<Rightarrow> string" where
  "tag kind key = kind @ '':'' @ drop (length key - 12) key"

text \<open>Raw calls run on the world, ledger calls on the ledger.\<close>

definition on_world :: "('w, 'a) ex \<Rightarrow> ('w \<times> own_ledger, 'a) ex" where
  "on_world m s = (case m (fst s) of (r, w) \<Rightarrow> (r, (w, snd s)))"

definition on_ledger :: "(own_ledger \<Rightarrow> own_ledger) \<Rightarrow> ('w \<times> own_ledger, unit) ex" where
  "on_ledger f s = (Inr (), (fst s, f (snd s)))"

definition ensure_present :: "'w raw_set \<Rightarrow> string \<Rightarrow> int option \<Rightarrow> ('w \<times> own_ledger, unit) ex" where
  "ensure_present raw address life =
     bindX (on_world (rw_contains raw address)) (\<lambda>present.
     if present then returnX () else on_world (rw_add raw address life))"

definition add_soc_blocklist_address :: "'w raw_set \<Rightarrow> string \<Rightarrow> string \<Rightarrow> int option \<Rightarrow> ('w \<times> own_ledger, string) ex" where
  "add_soc_blocklist_address raw address0 key life =
     bindX (liftX (norm address0)) (\<lambda>address s.
       (let held = owners (snd s) address; foreign = is_foreign (snd s) address in
        if key \<in> set (dict_keys held)
        then bindX (ensure_present raw address life) (\<lambda>_.
             bindX (on_ledger (claim address key Owned False)) (\<lambda>_. returnX (tag ''owned'' key))) s
        else if held = [] \<and> \<not> foreign
        then bindX (on_world (rw_contains raw address)) (\<lambda>present.
             if present then bindX (on_ledger (claim address key Owned True)) (\<lambda>_. returnX (tag ''preexisting'' key))
             else bindX (on_ledger (claim address key Adding False)) (\<lambda>_.
                  bindX (on_world (rw_add raw address life)) (\<lambda>_.
                  bindX (on_ledger (claim address key Owned False)) (\<lambda>_. returnX (tag ''added'' key))))) s
        else bindX (on_ledger (claim address key Owned False)) (\<lambda>_.
             bindX (ensure_present raw address life) (\<lambda>_. returnX (tag ''shared'' key))) s))"

definition remove_soc_blocklist_address :: "'w raw_set \<Rightarrow> string \<Rightarrow> string \<Rightarrow> ('w \<times> own_ledger, string) ex" where
  "remove_soc_blocklist_address raw address0 key =
     bindX (liftX (norm address0)) (\<lambda>address s.
       (let held = dict_keys (owners (snd s) address); others = filter (\<lambda>o'. o' \<noteq> key) held in
        if key \<notin> set held then (Inr (tag ''absent'' key), s)
        else if others \<noteq> [] \<or> is_foreign (snd s) address
        then bindX (on_ledger (release address key)) (\<lambda>_.
             returnX (tag (if others \<noteq> [] then ''shared'' else ''preexisting'') key)) s
        else bindX (on_world (rw_remove raw address)) (\<lambda>_.
             bindX (on_ledger (release address key)) (\<lambda>_. returnX (tag ''removed'' key))) s))"

definition soc_blocklist_contains :: "'w raw_set \<Rightarrow> string \<Rightarrow> ('w \<times> own_ledger, pyval) ex" where
  "soc_blocklist_contains raw address0 =
     bindX (liftX (norm address0)) (\<lambda>address. bindX (on_world (rw_contains raw address)) (\<lambda>b. returnX (PBool b)))"

definition owned_client :: "'w raw_set \<Rightarrow> ('w \<times> own_ledger) blocklist_client" where
  "owned_client raw = \<lparr>cl_add = add_soc_blocklist_address raw, cl_remove = remove_soc_blocklist_address raw,
     cl_contains = soc_blocklist_contains raw\<rparr>"

section \<open>The contract of the ledger\<close>

text \<open>
  \<open>tracks F m L\<close>: the ledger \<open>L\<close> explains the set \<open>m\<close> of a peer that held \<open>F\<close> before the response
  plane touched it. What was there stays there, everything else has an owner, and an owned address is
  marked foreign exactly when it was there before.
\<close>

locale ownership_ledger =
  fixes owner_set :: "'l \<Rightarrow> string \<Rightarrow> string set" and foreign :: "'l \<Rightarrow> string \<Rightarrow> bool"
    and claim :: "string \<Rightarrow> string \<Rightarrow> own_mode \<Rightarrow> bool \<Rightarrow> 'l \<Rightarrow> 'l" and release :: "string \<Rightarrow> string \<Rightarrow> 'l \<Rightarrow> 'l"
  assumes owners_claim: "owner_set (claim a k md f L) b = (if b = a then insert k (owner_set L a) else owner_set L b)"
    and foreign_claim: "foreign (claim a k md f L) b \<longleftrightarrow> foreign L b \<or> f \<and> b = a"
    and owners_release: "owner_set (release a k L) b = (if b = a then owner_set L a - {k} else owner_set L b)"
    and foreign_release: "foreign (release a k L) b \<longleftrightarrow> foreign L b \<and> (b = a \<longrightarrow> owner_set L a - {k} \<noteq> {})"
begin

definition tracks :: "string set \<Rightarrow> string set \<Rightarrow> 'l \<Rightarrow> bool" where
  "tracks F m L \<longleftrightarrow> F \<subseteq> m \<and> (\<forall>a \<in> m - F. owner_set L a \<noteq> {}) \<and> (\<forall>a. foreign L a \<longleftrightarrow> a \<in> F \<and> owner_set L a \<noteq> {})"

lemmas ledger_laws = owners_claim foreign_claim owners_release foreign_release

lemma tracks_observed:
  "tracks F m L \<Longrightarrow> owner_set L a = {} \<Longrightarrow> a \<in> m \<Longrightarrow> tracks F m (claim a k md True L)"
  by (auto simp: tracks_def ledger_laws)

lemma tracks_intent:
  "tracks F m L \<Longrightarrow> a \<notin> m \<Longrightarrow> tracks F m (claim a k md False L)"
  by (auto simp: tracks_def ledger_laws)

lemma tracks_shared:
  "tracks F m L \<Longrightarrow> owner_set L a \<noteq> {} \<Longrightarrow> tracks F m (claim a k md False L)"
  by (auto simp: tracks_def ledger_laws)

lemma tracks_added: "tracks F m L \<Longrightarrow> owner_set L a \<noteq> {} \<Longrightarrow> tracks F (insert a m) L"
  by (auto simp: tracks_def)

lemma tracks_removed: "tracks F m L \<Longrightarrow> owner_set L a \<noteq> {} \<Longrightarrow> \<not> foreign L a \<Longrightarrow> tracks F (m - {a}) L"
  by (auto simp: tracks_def)

lemma tracks_release_shared:
  "tracks F m L \<Longrightarrow> owner_set L a - {k} \<noteq> {} \<or> foreign L a \<Longrightarrow> tracks F m (release a k L)"
  by (auto simp: tracks_def ledger_laws)

lemma tracks_release_last: "tracks F m L \<Longrightarrow> a \<notin> m \<Longrightarrow> tracks F m (release a k L)"
  by (auto simp: tracks_def ledger_laws)

end

definition owner_set :: "own_ledger \<Rightarrow> string \<Rightarrow> string set" where
  "owner_set L a = set (dict_keys (owners L a))"

lemma owner_set_iff: "k \<in> owner_set L a \<longleftrightarrow> (\<exists>m. ((a, k), m) \<in> set (ow_owners L))"
  by (auto simp: owner_set_def owners_def image_iff split: prod.splits)

lemma update_has_key: "(\<exists>m. (p, m) \<in> set (AList.update q v al)) \<longleftrightarrow> p = q \<or> (\<exists>m. (p, m) \<in> set al)"
  by (induction al) auto

lemma list_ex_address: "list_ex (\<lambda>((x, y), mode). x = a) l \<longleftrightarrow> (\<exists>y m. ((a, y), m) \<in> set l)"
  by (induction l) auto

interpretation own: ownership_ledger owner_set is_foreign claim release
proof unfold_locales
  show "owner_set (claim a k md f L) b = (if b = a then insert k (owner_set L a) else owner_set L b)" for a k md f L b
    by (auto simp: set_eq_iff owner_set_iff claim_def update_has_key)
  show "is_foreign (claim a k md f L) b \<longleftrightarrow> is_foreign L b \<or> f \<and> b = a" for a k md f L b
    by (auto simp: is_foreign_def claim_def)
  have rel: "owner_set (release a k L) b = (if b = a then owner_set L a - {k} else owner_set L b)" for a k L b
    by (auto simp: set_eq_iff owner_set_iff release_def Let_def image_iff split: prod.splits)
  then show "owner_set (release a k L) b = (if b = a then owner_set L a - {k} else owner_set L b)" for a k L b .
  have fo: "ow_foreign (release a k L) = (if list_ex (\<lambda>((x, y), mode). x = a) (ow_owners (release a k L)) then ow_foreign L
      else filter (\<lambda>x. x \<noteq> a) (ow_foreign L))" for a k L
    by (simp add: release_def Let_def)
  have "list_ex (\<lambda>((x, y), mode). x = a) (ow_owners (release a k L)) \<longleftrightarrow> owner_set (release a k L) a \<noteq> {}" for a k L
    by (simp add: list_ex_address owner_set_iff ex_in_conv [symmetric])
  then show "is_foreign (release a k L) b \<longleftrightarrow> is_foreign L b \<and> (b = a \<longrightarrow> owner_set L a - {k} \<noteq> {})" for a k L b
    using rel [of a k L a] fo [of a k L] by (simp add: is_foreign_def)
qed

section \<open>The client keeps the contract\<close>

text \<open>
  A backend that does what it says about addresses in canonical text: queries are truthful and change
  nothing, a call that returns had its effect, and one that raises had it or not. Nobody else writes
  the set in between.
\<close>

definition raw_ok :: "'w raw_set \<Rightarrow> ('w \<Rightarrow> string set) \<Rightarrow> bool" where
  "raw_ok raw mem \<longleftrightarrow>
     (\<forall>a w r w'. norm a = Inr a \<longrightarrow> rw_contains raw a w = (r, w') \<longrightarrow> mem w' = mem w \<and> (\<forall>b. r = Inr b \<longrightarrow> b = (a \<in> mem w))) \<and>
     (\<forall>a l w r w'. norm a = Inr a \<longrightarrow> rw_add raw a l w = (r, w') \<longrightarrow> mem w' = insert a (mem w) \<or> r \<noteq> Inr () \<and> mem w' = mem w) \<and>
     (\<forall>a w r w'. norm a = Inr a \<longrightarrow> rw_remove raw a w = (r, w') \<longrightarrow> mem w' = mem w - {a} \<or> r \<noteq> Inr () \<and> mem w' = mem w)"

lemma raw_okD:
  assumes "raw_ok raw mem" "norm a = Inr a"
  shows "rw_contains raw a w = (r, w') \<Longrightarrow> mem w' = mem w" "rw_contains raw a w = (Inr b, w') \<Longrightarrow> b = (a \<in> mem w)"
    "rw_add raw a l w = (r1, w') \<Longrightarrow> mem w' = insert a (mem w) \<or> r1 \<noteq> Inr () \<and> mem w' = mem w"
    "rw_remove raw a w = (r2, w') \<Longrightarrow> mem w' = mem w - {a} \<or> r2 \<noteq> Inr () \<and> mem w' = mem w"
  using assms unfolding raw_ok_def by blast+

lemma norm_idem: "norm a0 = Inr a \<Longrightarrow> norm a = Inr a"
  by (auto simp: norm_def ip_address_show split: option.splits)

lemma ensure_present_tracks:
  assumes ok: "raw_ok raw mem" "norm a = Inr a" and t: "own.tracks F (mem w) L" "owner_set L a \<noteq> {}"
    and run: "ensure_present raw a life (w, L) = (r, (w', L'))"
  shows "own.tracks F (mem w') L' \<and> L' = L"
proof -
  obtain x w1 where c: "rw_contains raw a w = (x, w1)" by fastforce
  have m1: "mem w1 = mem w" using raw_okD(1) [OF ok c] .
  obtain y w2 where ad: "rw_add raw a life w1 = (y, w2)" by fastforce
  have "own.tracks F (mem w2) L"
    using raw_okD(3) [OF ok ad] own.tracks_added [OF t] t(1) m1 by auto
  then show ?thesis
    using run c ad m1 t(1)
    by (auto simp: ensure_present_def bindX_def on_world_def returnX_def split: sum.splits if_splits prod.splits)
qed

lemma bindX_liftX_Inr: "bindX (liftX (Inr x)) f = f x"
  by (simp add: fun_eq_iff bindX_def liftX_def)

lemma on_ledger_run: "bindX (on_ledger f) g s = g () (fst s, f (snd s))"
  by (simp add: bindX_def on_ledger_def)

lemma add_tracks:
  assumes ok: "raw_ok raw mem" and t: "own.tracks F (mem w) L"
    and run: "add_soc_blocklist_address raw a0 k life (w, L) = (r, (w', L'))"
  shows "own.tracks F (mem w') L'"
proof (cases "norm a0")
  case (Inl e)
  then show ?thesis using run t by (simp add: add_soc_blocklist_address_def bindX_def liftX_def)
next
  case (Inr a)
  note ok = ok norm_idem [OF Inr]
  have keys: "set (dict_keys (owners L a)) = owner_set L a" "(owners L a = []) = (owner_set L a = {})"
    by (simp_all add: owner_set_def)
  note run = run [unfolded add_soc_blocklist_address_def Inr bindX_liftX_Inr]
  show ?thesis
  proof (cases "owner_set L a = {}")
    case False
    obtain x w1 L1 where e: "ensure_present raw a life (w, L) = (x, (w1, L1))" by (metis prod.exhaust)
    obtain x2 w2 L2 where e2: "ensure_present raw a life (w, claim a k Owned False L) = (x2, (w2, L2))" by (metis prod.exhaust)
    have t1: "own.tracks F (mem w1) L1" "L1 = L" using ensure_present_tracks [OF ok t False e] by blast+
    have "own.tracks F (mem w1) (claim a k Owned False L1)" using own.tracks_shared [OF t1(1)] False t1(2) by simp
    moreover have "owner_set (claim a k Owned False L) a \<noteq> {}" by (simp add: own.owners_claim)
    then have "own.tracks F (mem w2) L2"
      using ensure_present_tracks [OF ok own.tracks_shared [OF t False] _ e2] by blast
    ultimately show ?thesis
      using run False e e2 keys t1
      by (auto simp: Let_def bindX_def on_ledger_def returnX_def split: sum.splits if_splits)
  next
    case True
    have nf: "\<not> is_foreign L a" using t True by (simp add: own.tracks_def)
    obtain x w1 where c: "rw_contains raw a w = (x, w1)" by fastforce
    have m1: "mem w1 = mem w" using raw_okD(1) [OF ok c] .
    obtain y w2 where ad: "rw_add raw a life w1 = (y, w2)" by fastforce
    have present: "own.tracks F (mem w1) (claim a k Owned True L)" if "a \<in> mem w"
      using own.tracks_observed [OF t True that] m1 by simp
    have absent: "own.tracks F (mem w2) (claim a k Adding False L)" "own.tracks F (mem w2) (claim a k Owned False (claim a k Adding False L))"
      if "a \<notin> mem w"
    proof -
      have i: "own.tracks F (mem w1) (claim a k Adding False L)" using own.tracks_intent [OF t that] m1 by simp
      have o: "owner_set (claim a k Adding False L) a \<noteq> {}" by (simp add: own.owners_claim)
      show 1: "own.tracks F (mem w2) (claim a k Adding False L)"
        using raw_okD(3) [OF ok ad] own.tracks_added [OF i o] i by auto
      show "own.tracks F (mem w2) (claim a k Owned False (claim a k Adding False L))"
        by (rule own.tracks_shared [OF 1 o])
    qed
    show ?thesis
    proof (cases x)
      case (Inl e)
      then show ?thesis using run True keys nf c t m1 by (simp add: Let_def bindX_def on_world_def)
    next
      case x: (Inr b)
      have "b = (a \<in> mem w)" using raw_okD(2) [OF ok c [unfolded x]] .
      then show ?thesis
        using run True keys nf c x ad present absent
        by (auto simp: Let_def bindX_def on_world_def on_ledger_def returnX_def split: sum.splits if_splits)
    qed
  qed
qed

lemma remove_tracks:
  assumes ok: "raw_ok raw mem" and t: "own.tracks F (mem w) L"
    and run: "remove_soc_blocklist_address raw a0 k (w, L) = (r, (w', L'))"
  shows "own.tracks F (mem w') L'"
proof (cases "norm a0")
  case (Inl e)
  then show ?thesis using run t by (simp add: remove_soc_blocklist_address_def bindX_def liftX_def)
next
  case (Inr a)
  note ok = ok norm_idem [OF Inr]
  let ?others = "filter (\<lambda>o'. o' \<noteq> k) (dict_keys (owners L a))"
  have others: "(?others \<noteq> []) = (owner_set L a - {k} \<noteq> {})" by (auto simp: owner_set_def filter_empty_conv)
  note run = run [unfolded remove_soc_blocklist_address_def Inr bindX_liftX_Inr]
  obtain x w1 where rm: "rw_remove raw a w = (x, w1)" by fastforce
  consider "k \<notin> owner_set L a" | "k \<in> owner_set L a" "owner_set L a - {k} \<noteq> {} \<or> is_foreign L a"
    | "k \<in> owner_set L a" "owner_set L a - {k} = {}" "\<not> is_foreign L a" by blast
  then show ?thesis
  proof cases
    case 1
    then show ?thesis using run t by (simp add: owner_set_def)
  next
    case 2
    then show ?thesis using run own.tracks_release_shared [OF t 2(2)] others
      by (auto simp: owner_set_def Let_def on_ledger_run returnX_def split: if_splits)
  next
    case 3
    then have ne: "owner_set L a \<noteq> {}" by blast
    have "own.tracks F (mem w1) L \<and> (x = Inr () \<longrightarrow> own.tracks F (mem w1) (release a k L))"
    proof (cases "mem w1 = mem w - {a}")
      case True
      then have "own.tracks F (mem w1) L" using own.tracks_removed [OF t ne 3(3)] by simp
      then show ?thesis using own.tracks_release_last [of F "mem w1" L a k] True by simp
    next
      case False
      then show ?thesis using raw_okD(4) [OF ok rm] t by simp
    qed
    moreover have "k \<in> set (dict_keys (owners L a))" "?others = []" using 3 others by (simp_all add: owner_set_def)
    ultimately show ?thesis
      using run rm 3(3) by (cases x) (simp_all add: Let_def bindX_def on_world_def on_ledger_def returnX_def)
  qed
qed

section \<open>Sequences of calls\<close>

datatype own_call = Own_add string string "int option" | Own_remove string string | Own_contains string

fun own_exec :: "'w raw_set \<Rightarrow> own_call \<Rightarrow> 'w \<times> own_ledger \<Rightarrow> 'w \<times> own_ledger" where
  "own_exec raw (Own_add a k life) s = snd (add_soc_blocklist_address raw a k life s)"
| "own_exec raw (Own_remove a k) s = snd (remove_soc_blocklist_address raw a k s)"
| "own_exec raw (Own_contains a) s = snd (soc_blocklist_contains raw a s)"

definition own_runs :: "'w raw_set \<Rightarrow> own_call list \<Rightarrow> 'w \<Rightarrow> 'w \<times> own_ledger" where
  "own_runs raw cs w = foldl (\<lambda>s c. own_exec raw c s) (w, empty_ownership) cs"

lemma contains_tracks:
  assumes "raw_ok raw mem" "own.tracks F (mem w) L" "soc_blocklist_contains raw a0 (w, L) = (r, (w', L'))"
  shows "own.tracks F (mem w') L'"
proof (cases "norm a0")
  case (Inl e)
  then show ?thesis using assms(2,3) by (simp add: soc_blocklist_contains_def bindX_def liftX_def)
next
  case (Inr a)
  obtain x w1 where c: "rw_contains raw a w = (x, w1)" by fastforce
  have "mem w1 = mem w" by (rule raw_okD(1) [OF assms(1) norm_idem [OF Inr] c])
  moreover have "w' = w1" "L' = L"
    using assms(3) c unfolding soc_blocklist_contains_def Inr bindX_liftX_Inr
    by (cases x; simp add: bindX_def on_world_def)+
  ultimately show ?thesis using assms(2) by simp
qed

lemma own_exec_tracks:
  assumes "raw_ok raw mem" "own.tracks F (mem (fst s)) (snd s)"
  shows "own.tracks F (mem (fst (own_exec raw c s))) (snd (own_exec raw c s))"
proof -
  obtain w L where s: "s = (w, L)" by fastforce
  then have t: "own.tracks F (mem w) L" using assms(2) by simp
  show ?thesis
  proof (cases c)
    case (Own_add a k life)
    obtain r w' L' where "add_soc_blocklist_address raw a k life (w, L) = (r, (w', L'))" by (metis prod.exhaust)
    then show ?thesis using add_tracks [OF assms(1) t] Own_add s by simp
  next
    case (Own_remove a k)
    obtain r w' L' where "remove_soc_blocklist_address raw a k (w, L) = (r, (w', L'))" by (metis prod.exhaust)
    then show ?thesis using remove_tracks [OF assms(1) t] Own_remove s by simp
  next
    case (Own_contains a)
    obtain r w' L' where "soc_blocklist_contains raw a (w, L) = (r, (w', L'))" by (metis prod.exhaust)
    then show ?thesis using contains_tracks [OF assms(1) t] Own_contains s by simp
  qed
qed

lemma own_runs_tracks:
  assumes "raw_ok raw mem"
  shows "own.tracks (mem w0) (mem (fst (own_runs raw cs w0))) (snd (own_runs raw cs w0))"
proof -
  have "own.tracks F (mem (fst s)) (snd s) \<Longrightarrow>
      own.tracks F (mem (fst (foldl (\<lambda>s c. own_exec raw c s) s cs))) (snd (foldl (\<lambda>s c. own_exec raw c s) s cs))" for F s
    by (induction cs arbitrary: s) (simp_all add: own_exec_tracks [OF assms])
  moreover have "own.tracks (mem w0) (mem w0) empty_ownership"
    by (auto simp: own.tracks_def empty_ownership_def owner_set_def owners_def is_foreign_def)
  ultimately show ?thesis by (simp add: own_runs_def)
qed

section \<open>Properties\<close>

definition list_set :: "string list raw_set" where
  "list_set = \<lparr>rw_contains = (\<lambda>a w. (Inr (a \<in> set w), w)), rw_add = (\<lambda>a l w. (Inr (), a # w)),
     rw_remove = (\<lambda>a w. (Inr (), filter (\<lambda>x. x \<noteq> a) w))\<rparr>"

lemma list_set_ok: "raw_ok list_set set"
  by (auto simp: raw_ok_def list_set_def)

text \<open>
  C20. Containment never lifts someone else's block: whatever sequence of adds, removes and queries
  runs on a peer, with any keys and with backend calls that fail before or after their effect, every
  entry that was in the set before stays in it, and every entry the response plane put there has an
  owner on record that can still release it.
\<close>

theorem foreign_entries_survive:
  assumes "raw_ok raw mem"
  shows "mem w0 \<subseteq> mem (fst (own_runs raw cs w0)) \<and>
    (\<forall>a \<in> mem (fst (own_runs raw cs w0)) - mem w0. owner_set (snd (own_runs raw cs w0)) a \<noteq> {})"
  using own_runs_tracks [OF assms, of w0 cs] by (simp add: own.tracks_def)

theorem foreign_entries_survive_witness:
  "let (w, L) = own_runs list_set [Own_add ''8.8.8.8'' ''k1'' None, Own_add ''9.9.9.9'' ''k2'' None, Own_remove ''8.8.8.8'' ''k1''] [''8.8.8.8'']
   in set [''8.8.8.8''] \<subseteq> set w \<and> (\<forall>a \<in> set w - set [''8.8.8.8'']. owner_set L a \<noteq> {})"
  using foreign_entries_survive [OF list_set_ok, of "[''8.8.8.8'']"] by (simp add: case_prod_beta)

text \<open>
  The last owner of an entry the response plane added removes it: when the only key that holds an
  address releases it and the call returns, the address has left the set and nobody owns it, unless it
  was there before the response plane came.
\<close>

theorem last_owner_removes:
  assumes ok: "raw_ok raw mem" and s: "own_runs raw cs w0 = (w, L)" and a: "norm a0 = Inr a"
    and k: "owner_set L a = {k}" and run: "remove_soc_blocklist_address raw a0 k (w, L) = (Inr t, (w', L'))"
  shows "owner_set L' a = {} \<and> (a \<in> mem w' \<longleftrightarrow> a \<in> mem w0)"
proof -
  have t: "own.tracks (mem w0) (mem w) L" using own_runs_tracks [OF ok, of w0 cs] s by simp
  have t': "own.tracks (mem w0) (mem w') L'" by (rule remove_tracks [OF ok t run])
  obtain x w1 where rm: "rw_remove raw a w = (x, w1)" by fastforce
  have c: "k \<in> set (dict_keys (owners L a))" "filter (\<lambda>o'. o' \<noteq> k) (dict_keys (owners L a)) = []"
    using k by (auto simp: owner_set_def filter_empty_conv)
  note run = run [unfolded remove_soc_blocklist_address_def a bindX_liftX_Inr]
  have "release a k L = L'"
  proof (cases "is_foreign L a")
    case True
    then show ?thesis using run c(1) by (simp add: Let_def c(2) on_ledger_run returnX_def)
  next
    case False
    then show ?thesis
      using run c(1) by (cases x) (simp_all add: Let_def c(2) bindX_def on_world_def on_ledger_def returnX_def rm)
  qed
  then have e: "owner_set L' a = {}" using own.owners_release [of a k L a] k by simp
  then have "a \<in> mem w' \<longleftrightarrow> a \<in> mem w0" using t' by (auto simp: own.tracks_def)
  then show ?thesis using e by simp
qed

lemma demo_owned:
  "own_runs list_set [Own_add ''9.9.9.9'' ''k2'' None] [] = ([''9.9.9.9''], \<lparr>ow_owners = [((''9.9.9.9'', ''k2''), Owned)], ow_foreign = []\<rparr>)"
  "norm ''9.9.9.9'' = Inr ''9.9.9.9''"
  "remove_soc_blocklist_address list_set ''9.9.9.9'' ''k2'' ([''9.9.9.9''], \<lparr>ow_owners = [((''9.9.9.9'', ''k2''), Owned)], ow_foreign = []\<rparr>) =
     (Inr ''removed:k2'', ([], \<lparr>ow_owners = [], ow_foreign = []\<rparr>))"
  by code_simp+

theorem last_owner_removes_witness:
  "\<exists>t w' L'. remove_soc_blocklist_address list_set ''9.9.9.9'' ''k2'' (own_runs list_set [Own_add ''9.9.9.9'' ''k2'' None] []) = (Inr t, (w', L')) \<and>
     owner_set L' ''9.9.9.9'' = {} \<and> ''9.9.9.9'' \<notin> set w'"
proof -
  have "owner_set \<lparr>ow_owners = [((''9.9.9.9'', ''k2''), Owned)], ow_foreign = []\<rparr> ''9.9.9.9'' = {''k2''}"
    by (simp add: owner_set_def owners_def)
  from last_owner_removes [OF list_set_ok demo_owned(1,2) this demo_owned(3)] show ?thesis
    unfolding demo_owned(1) using demo_owned(3) by auto
qed

text \<open>
  Normalised address text is canonical: normalising what \<^verbatim>\<open>str(ip_address(s))\<close> printed changes nothing,
  for IPv4 and for IPv6 with compressed zeros and scope identifiers, and two accepted texts denote
  the same address exactly when their normalised texts are equal. So the ledger has one key per address.
\<close>

theorem address_text_canonical:
  assumes "norm s = Inr a" "norm t = Inr b"
  shows "norm a = Inr a \<and> (a = b \<longleftrightarrow> ip_address s = ip_address t)"
proof -
  obtain x y where x: "ip_address s = Some x" "a = show_ip x" and y: "ip_address t = Some y" "b = show_ip y"
    using assms by (auto simp: norm_def split: option.splits)
  have a: "ip_address a = Some x" and b: "ip_address b = Some y"
    using ip_address_show [OF x(1)] ip_address_show [OF y(1)] x(2) y(2) by simp_all
  have "norm a = Inr a" unfolding norm_def a using x(2) by simp
  moreover have "a = b \<longleftrightarrow> x = y" using a b x(2) y(2) by (metis option.inject)
  ultimately show ?thesis using x(1) y(1) by simp
qed

theorem address_text_canonical_witness:
  "norm ''0:0:0:0:0:0:0A:1%eth0'' = Inr ''::a:1%eth0'' \<and> norm ''::a:1%eth0'' = Inr ''::a:1%eth0'' \<and>
   ip_address ''0:0:0:0:0:0:0A:1%eth0'' = ip_address ''::a:1%eth0''"
proof -
  have 1: "ip_address ''0:0:0:0:0:0:0A:1%eth0'' = Some (IPv6 0xA0001 (Some ''eth0''))"
    "ip_address ''::a:1%eth0'' = Some (IPv6 0xA0001 (Some ''eth0''))"
    "show_ip (IPv6 0xA0001 (Some ''eth0'')) = ''::a:1%eth0''"
    by code_simp+
  have n: "norm ''0:0:0:0:0:0:0A:1%eth0'' = Inr ''::a:1%eth0''" "norm ''::a:1%eth0'' = Inr ''::a:1%eth0''"
    by (simp_all only: norm_def 1 option.case)
  have "ip_address ''0:0:0:0:0:0:0A:1%eth0'' = ip_address ''::a:1%eth0''"
    using conjunct2 [OF address_text_canonical [OF n]] by (rule iffD1) (rule refl)
  with n show ?thesis by (intro conjI)
qed

end
