(* ===== verification/Transports.thy ===== *)
theory Transports
  imports Http Ownership Signing
begin

text \<open>
  \<^verbatim>\<open>response/transports\<close>: the three firewall backends as raw sets over the HTTPS transport, and the
  Wazuh manager client. The Wazuh client keeps its bearer token next to the world; its clock and its
  \<^verbatim>\<open>sleep\<close> act on the world, and its polling loop is a \<open>partial_function\<close>, so that a loop that never
  ends has the value \<^const>\<open>None\<close>. Instants and durations of the monotonic clock are exact rationals.
\<close>

text \<open>\<^verbatim>\<open>base64.b64encode\<close>: the standard alphabet, padded to a multiple of four characters.\<close>

definition std_b64_char :: "nat \<Rightarrow> char" where
  "std_b64_char n = (if n = 62 then CHR ''+'' else if n = 63 then CHR ''/'' else b64_char n)"

definition std_b64 :: "nat list \<Rightarrow> string" where
  "std_b64 bytes = (let t = map std_b64_char (sextets bytes) in t @ replicate ((4 - length t mod 4) mod 4) CHR ''='')"

definition basic_authorization :: "string \<Rightarrow> string \<Rightarrow> string" where
  "basic_authorization user secret = ''Basic '' @ std_b64 (concat (map utf8 (user @ '':'' @ secret)))"

definition no_authorization :: "('w, string option) ex" where
  "no_authorization = returnX None"

definition json_get :: "pyval \<Rightarrow> string \<Rightarrow> pyval \<Rightarrow> pyval res" where
  "json_get v k d = (if is_mapping v then Inr (case map_of (entries v) k of None \<Rightarrow> d | Some x \<Rightarrow> x)
     else Inl (AttributeErr k))"

section \<open>nftables\<close>

definition nft_contains :: "'w http \<Rightarrow> string \<Rightarrow> ('w, bool) ex" where
  "nft_contains h address =
     bindX (request h ''POST'' ''/v1/contains'' (Some (PDict [(''address'', PStr address)]))) (\<lambda>(status, reply).
     case (if status = 200 then pget reply ''present'' else PNone) of
       PBool present \<Rightarrow> returnX present
     | _ \<Rightarrow> raiseX (DeliveryErr ''NFT_AGENT_CONTAINS_CONTRACT'' True None))"

definition nft_add :: "'w http \<Rightarrow> string \<Rightarrow> int option \<Rightarrow> ('w, unit) ex" where
  "nft_add h address life =
     bindX (request h ''POST'' ''/v1/add'' (Some (PDict ((''address'', PStr address) #
       (case life of None \<Rightarrow> [] | Some l \<Rightarrow> [(''max_lifetime_seconds'', PInt l)]))))) (\<lambda>(status, reply).
     if status \<noteq> 200 \<or> pget reply ''ok'' \<noteq> PBool True
     then raiseX (DeliveryErr ''NFT_AGENT_ADD_NOT_ACKNOWLEDGED'' True None) else returnX ())"

definition nft_remove :: "'w http \<Rightarrow> string \<Rightarrow> ('w, unit) ex" where
  "nft_remove h address =
     bindX (request h ''POST'' ''/v1/remove'' (Some (PDict [(''address'', PStr address)]))) (\<lambda>(status, reply).
     if status \<noteq> 200 \<or> pget reply ''ok'' \<noteq> PBool True
     then raiseX (DeliveryErr ''NFT_AGENT_REMOVE_NOT_ACKNOWLEDGED'' True None) else returnX ())"

definition nft_raw_set :: "'w http \<Rightarrow> 'w raw_set" where
  "nft_raw_set h = \<lparr>rw_contains = nft_contains h, rw_add = nft_add h, rw_remove = nft_remove h\<rparr>"

section \<open>VyOS\<close>

definition VYOS_PATH :: "string list" where
  "VYOS_PATH = [''firewall'', ''group'', ''address-group'', SOC_BLOCKLIST_ALIAS, ''address'']"

record 'w vyos_set =
  vy_http :: "'w http"
  vy_key :: string

definition vyos_set_init :: "'w http \<Rightarrow> string \<Rightarrow> 'w vyos_set res" where
  "vyos_set_init h api_key =
     bindR (guardR (api_key \<noteq> [] \<and> \<not> list_ex is_space api_key) (ValueError ''VyOS API key must be a single token'')) (\<lambda>_.
     Inr \<lparr>vy_http = h, vy_key = api_key\<rparr>)"

text \<open>The text of \<^verbatim>\<open>json.dumps(operation, separators=(",", ":"))\<close>: its two keys are already in order.\<close>

definition vyos_call :: "prims \<Rightarrow> 'w vyos_set \<Rightarrow> string \<Rightarrow> string \<Rightarrow> string list \<Rightarrow> ('w, pyval) ex" where
  "vyos_call pr v endpoint op path =
     bindX (post_form (vy_http v) endpoint
       [(''data'', canonical_json pr (PDict [(''op'', PStr op), (''path'', PList (map PStr path))])), (''key'', vy_key v)])
     (\<lambda>(status, reply). if status \<noteq> 200 then raiseX (DeliveryErr ''VYOS_API_STATUS'' True None) else returnX reply)"

definition vyos_error :: "prims \<Rightarrow> pyval \<Rightarrow> string" where
  "vyos_error pr reply = lower (py_str pr (case map_of (entries reply) ''error'' of None \<Rightarrow> PStr [] | Some v \<Rightarrow> v))"

definition vyos_contains :: "prims \<Rightarrow> 'w vyos_set \<Rightarrow> string \<Rightarrow> ('w, bool) ex" where
  "vyos_contains pr v address =
     bindX (vyos_call pr v ''/retrieve'' ''returnValues'' VYOS_PATH) (\<lambda>reply.
     if pget reply ''success'' \<noteq> PBool True
     then (let error = vyos_error pr reply in
       if contains_sub ''empty'' error \<or> contains_sub ''does not exist'' error then returnX False
       else raiseX (DeliveryErr ''VYOS_RETRIEVE_FAILED'' True None))
     else (let values = (case pget reply ''data'' of PList vs \<Rightarrow> vs | PStr s \<Rightarrow> [PStr s] | _ \<Rightarrow> [])
       in returnX (PStr address \<in> set values)))"

definition vyos_add :: "prims \<Rightarrow> 'w vyos_set \<Rightarrow> string \<Rightarrow> int option \<Rightarrow> ('w, unit) ex" where
  "vyos_add pr v address life =
     bindX (vyos_call pr v ''/configure'' ''set'' (VYOS_PATH @ [address])) (\<lambda>reply.
     if pget reply ''success'' \<noteq> PBool True then raiseX (DeliveryErr ''VYOS_SET_FAILED'' True None) else returnX ())"

definition vyos_remove :: "prims \<Rightarrow> 'w vyos_set \<Rightarrow> string \<Rightarrow> ('w, unit) ex" where
  "vyos_remove pr v address =
     bindX (vyos_call pr v ''/configure'' ''delete'' (VYOS_PATH @ [address])) (\<lambda>reply.
     if pget reply ''success'' \<noteq> PBool True
     then (let error = vyos_error pr reply in
       if \<not> contains_sub ''nothing to delete'' error \<and> \<not> contains_sub ''not exist'' error
       then raiseX (DeliveryErr ''VYOS_DELETE_FAILED'' True None) else returnX ())
     else returnX ())"

definition vyos_raw_set :: "prims \<Rightarrow> 'w vyos_set \<Rightarrow> 'w raw_set" where
  "vyos_raw_set pr v = \<lparr>rw_contains = vyos_contains pr v, rw_add = vyos_add pr v, rw_remove = vyos_remove pr v\<rparr>"

section \<open>OPNsense\<close>

definition OPNSENSE_BASE :: string where
  "OPNSENSE_BASE = ''/api/firewall/alias_util''"

definition opnsense_row_is :: "prims \<Rightarrow> ip \<Rightarrow> pyval \<Rightarrow> bool" where
  "opnsense_row_is pr tgt row = (let value = (if is_mapping row then pget row ''ip'' else PNone) in
     value \<noteq> PNone \<and> ip_address (hd (split_on CHR ''/'' (py_str pr value))) = Some tgt)"

definition opnsense_contains :: "prims \<Rightarrow> 'w http \<Rightarrow> string \<Rightarrow> ('w, bool) ex" where
  "opnsense_contains pr h address =
     bindX (request h ''GET'' (OPNSENSE_BASE @ ''/list/'' @ SOC_BLOCKLIST_ALIAS) None) (\<lambda>(status, reply).
     case (if status = 200 then pget reply ''rows'' else PNone) of
       PList rows \<Rightarrow> (case ip_address address of
           None \<Rightarrow> raiseX (ValueError ''does not appear to be an IPv4 or IPv6 address'')
         | Some tgt \<Rightarrow> returnX (list_ex (opnsense_row_is pr tgt) rows))
     | _ \<Rightarrow> raiseX (DeliveryErr ''OPNSENSE_LIST_CONTRACT'' True None))"

definition opnsense_add :: "'w http \<Rightarrow> string \<Rightarrow> int option \<Rightarrow> ('w, unit) ex" where
  "opnsense_add h address life =
     bindX (request h ''POST'' (OPNSENSE_BASE @ ''/add/'' @ SOC_BLOCKLIST_ALIAS)
       (Some (PDict [(''address'', PStr address)]))) (\<lambda>(status, reply).
     if status \<noteq> 200 \<or> pget reply ''status'' \<noteq> PStr ''done''
     then raiseX (DeliveryErr ''OPNSENSE_ADD_NOT_ACKNOWLEDGED'' True None) else returnX ())"

text \<open>An unhashable status (\<^verbatim>\<open>list\<close>, \<^verbatim>\<open>dict\<close>) in \<^verbatim>\<open>status not in {...}\<close> raises \<^verbatim>\<open>TypeError\<close>.\<close>

definition opnsense_remove :: "'w http \<Rightarrow> string \<Rightarrow> ('w, unit) ex" where
  "opnsense_remove h address =
     bindX (request h ''POST'' (OPNSENSE_BASE @ ''/delete/'' @ SOC_BLOCKLIST_ALIAS)
       (Some (PDict [(''address'', PStr address)]))) (\<lambda>(status, reply).
     if status \<noteq> 200 then raiseX (DeliveryErr ''OPNSENSE_DELETE_NOT_ACKNOWLEDGED'' True None)
     else if is_list (pget reply ''status'') \<or> is_mapping (pget reply ''status'') then raiseX (TypeErr ''unhashable type'')
     else if pget reply ''status'' \<notin> {PStr ''done'', PStr ''not_found''}
     then raiseX (DeliveryErr ''OPNSENSE_DELETE_NOT_ACKNOWLEDGED'' True None) else returnX ())"

definition opnsense_raw_set :: "prims \<Rightarrow> 'w http \<Rightarrow> 'w raw_set" where
  "opnsense_raw_set pr h = \<lparr>rw_contains = opnsense_contains pr h, rw_add = opnsense_add h, rw_remove = opnsense_remove h\<rparr>"

section \<open>The Wazuh manager\<close>

definition ISOLATE_SCRIPT :: string where
  "ISOLATE_SCRIPT = ''!cxyz-isolate-endpoint''"

definition RESTORE_SCRIPT :: string where
  "RESTORE_SCRIPT = ''!cxyz-restore-endpoint''"

definition MARKER_DIR :: string where
  "MARKER_DIR = ''/var/ossec/var/cxyz-isolation''"

definition TOKEN_TTL_SECONDS :: rat where
  "TOKEN_TTL_SECONDS = 600"

definition marker_path :: "prims \<Rightarrow> string \<Rightarrow> string" where
  "marker_path pr operation_id = MARKER_DIR @ ''/'' @ take 40 (sha256_hexdigest pr operation_id)"

record 'w wazuh_api =
  wa_http :: "'w http"
  wa_basic :: "'w http"
  wa_timeout :: rat
  wa_poll :: rat
  wa_clock :: "'w \<Rightarrow> rat \<times> 'w"
  wa_sleep :: "rat \<Rightarrow> 'w \<Rightarrow> 'w"

record wazuh_session =
  ws_token :: "string option"
  ws_token_at :: rat

definition wazuh_api_init :: "'w http \<Rightarrow> string \<Rightarrow> string \<Rightarrow> rat \<Rightarrow> rat \<Rightarrow> ('w \<Rightarrow> rat \<times> 'w) \<Rightarrow> (rat \<Rightarrow> 'w \<Rightarrow> 'w) \<Rightarrow>
  'w wazuh_api \<times> wazuh_session" where
  "wazuh_api_init h user password timeout poll clock sleep =
     (\<lparr>wa_http = h, wa_basic = with_authorization h (returnX (Some (basic_authorization user password))),
        wa_timeout = timeout, wa_poll = poll, wa_clock = clock, wa_sleep = sleep\<rparr>,
      \<lparr>ws_token = None, ws_token_at = 0\<rparr>)"

text \<open>Calls on the world and on the clock, next to the session.\<close>

definition on_net :: "('w, 'a) ex \<Rightarrow> (wazuh_session \<times> 'w, 'a) ex" where
  "on_net m s = (case m (snd s) of (r, w) \<Rightarrow> (r, (fst s, w)))"

definition read_clock :: "'w wazuh_api \<Rightarrow> (wazuh_session \<times> 'w, rat) ex" where
  "read_clock c s = (case wa_clock c (snd s) of (t, w) \<Rightarrow> (Inr t, (fst s, w)))"

definition login :: "'w wazuh_api \<Rightarrow> (wazuh_session \<times> 'w, unit) ex" where
  "login c =
     bindX (on_net (request (wa_basic c) ''POST'' ''/security/user/authenticate'' None)) (\<lambda>(status, reply).
     bindX (liftX (if status = 200 then bindR (json_get reply ''data'' (PDict [])) (\<lambda>data. json_get data ''token'' PNone)
       else Inr PNone)) (\<lambda>token.
     case token of
       PStr t \<Rightarrow> (if t = [] then raiseX (DeliveryErr ''WAZUH_AUTH_FAILED'' True None)
         else bindX (read_clock c) (\<lambda>now s. (Inr (), (\<lparr>ws_token = Some t, ws_token_at = now\<rparr>, snd s))))
     | _ \<Rightarrow> raiseX (DeliveryErr ''WAZUH_AUTH_FAILED'' True None)))"

definition bearer :: "'w wazuh_api \<Rightarrow> (wazuh_session \<times> 'w, 'w http) ex" where
  "bearer c =
     bindX (\<lambda>s. case ws_token (fst s) of
         None \<Rightarrow> (Inr True, s)
       | Some t \<Rightarrow> bindX (read_clock c) (\<lambda>now. returnX (now - ws_token_at (fst s) > TOKEN_TTL_SECONDS)) s) (\<lambda>stale.
     bindX (if stale then login c else returnX ()) (\<lambda>_ s.
       (Inr (with_authorization (wa_http c) (returnX (Some (''Bearer '' @ the (ws_token (fst s)))))), s)))"

definition bearer_request :: "'w wazuh_api \<Rightarrow> string \<Rightarrow> string \<Rightarrow> pyval option \<Rightarrow> (wazuh_session \<times> 'w, int \<times> pyval) ex" where
  "bearer_request c method path payload = bindX (bearer c) (\<lambda>h. on_net (request h method path payload))"

fun is_unauthorized :: "exn \<Rightarrow> bool" where
  "is_unauthorized (DeliveryErr code retryable status) = (status = Some 401)"
| "is_unauthorized _ = False"

definition wazuh_call :: "'w wazuh_api \<Rightarrow> string \<Rightarrow> string \<Rightarrow> pyval option \<Rightarrow> (wazuh_session \<times> 'w, pyval) ex" where
  "wazuh_call c method path payload =
     bindX (\<lambda>s. case bearer_request c method path payload s of
         (Inl e, s1) \<Rightarrow>
           if is_unauthorized e then bearer_request c method path payload (apfst (\<lambda>ss. ss\<lparr>ws_token := None\<rparr>) s1)
           else (Inl e, s1)
       | (Inr reply, s1) \<Rightarrow> (Inr reply, s1)) (\<lambda>(status, reply).
     if status \<noteq> 200 then raiseX (DeliveryErr ''WAZUH_API_STATUS'' True None) else returnX reply)"

text \<open>\<^verbatim>\<open>len(items) != 1\<close> and \<^verbatim>\<open>items[0].get(...)\<close> on whatever JSON value is there.\<close>

definition sole_agent :: "string \<Rightarrow> pyval \<Rightarrow> pyval res" where
  "sole_agent host items = (let bad = Inl (DeliveryErr ''WAZUH_AGENT_NOT_UNIQUE_ACTIVE'' False None) in
     case items of
       PList [item] \<Rightarrow> (if \<not> is_mapping item then Inl (AttributeErr ''name'')
         else if pget item ''name'' \<noteq> PStr host \<or> pget item ''status'' \<noteq> PStr ''active'' then bad else Inr item)
     | PList _ \<Rightarrow> bad
     | PStr [ch] \<Rightarrow> Inl (AttributeErr ''name'') | PStr _ \<Rightarrow> bad
     | PDict [kv] \<Rightarrow> Inl (KeyErr ''0'') | PDict _ \<Rightarrow> bad
     | _ \<Rightarrow> Inl (TypeErr ''object has no len()''))"

definition agent_query :: "string \<Rightarrow> string" where
  "agent_query host = ''/agents?name='' @ quote host @ ''&select=id,name,status&limit=2''"

definition agent_id :: "prims \<Rightarrow> 'w wazuh_api \<Rightarrow> string \<Rightarrow> (wazuh_session \<times> 'w, string) ex" where
  "agent_id pr c host =
     bindX (wazuh_call c ''GET'' (agent_query host) None) (\<lambda>reply.
     liftX (bindR (json_get reply ''data'' (PDict [])) (\<lambda>data.
       bindR (json_get data ''affected_items'' (PList [])) (\<lambda>items.
       bindR (sole_agent host items) (\<lambda>item.
       if has_key item ''id'' then Inr (py_str pr (pget item ''id'')) else Inl (KeyErr ''id''))))))"

fun py_iter :: "pyval \<Rightarrow> pyval list res" where
  "py_iter (PList vs) = Inr vs"
| "py_iter (PStr s) = Inr (map (\<lambda>ch. PStr [ch]) s)"
| "py_iter (PDict kvs) = Inr (map (\<lambda>(k, v). PStr k) kvs)"
| "py_iter _ = Inl (TypeErr ''object is not iterable'')"

definition trigger :: "prims \<Rightarrow> 'w wazuh_api \<Rightarrow> string \<Rightarrow> string \<Rightarrow> string \<Rightarrow> (wazuh_session \<times> 'w, string) ex" where
  "trigger pr c script host operation_id =
     bindX (agent_id pr c host) (\<lambda>agent.
     bindX (wazuh_call c ''PUT'' (''/active-response?agents_list='' @ quote agent)
       (Some (PDict [(''command'', PStr script), (''custom'', PBool True), (''arguments'', PList [PStr operation_id])]))) (\<lambda>reply.
     liftX (bindR (json_get reply ''data'' (PDict [])) (\<lambda>data.
       bindR (json_get data ''total_failed_items'' (PInt 1)) (\<lambda>failed.
       bindR (if \<not> eq_int failed 0 then Inr False
         else bindR (json_get data ''affected_items'' (PList [])) (\<lambda>items.
           bindR (py_iter items) (\<lambda>vs. Inr (agent \<in> set (map (py_str pr) vs))))) (\<lambda>accepted.
       if accepted then Inr (''ar:'' @ agent @ '':'' @ take 12 (sha256_hexdigest pr operation_id))
       else Inl (DeliveryErr ''WAZUH_ACTIVE_RESPONSE_NOT_ACCEPTED'' True None)))))))"

definition start_isolation :: "prims \<Rightarrow> 'w wazuh_api \<Rightarrow> string \<Rightarrow> string \<Rightarrow> (wazuh_session \<times> 'w, string) ex" where
  "start_isolation pr c host correlation_id = trigger pr c ISOLATE_SCRIPT host correlation_id"

definition restore_isolation :: "prims \<Rightarrow> 'w wazuh_api \<Rightarrow> string \<Rightarrow> string \<Rightarrow> (wazuh_session \<times> 'w, string) ex" where
  "restore_isolation pr c host correlation_id = trigger pr c RESTORE_SCRIPT host correlation_id"

fun positive :: "pyval \<Rightarrow> bool res" where
  "positive (PInt i) = Inr (i > 0)"
| "positive (PBool b) = Inr b"
| "positive (PFloat (Fin r)) = Inr (r > 0)"
| "positive (PFloat f) = Inr (f = PosInf)"
| "positive _ = Inl (TypeErr ''not supported between instances'')"

definition marker_present :: "prims \<Rightarrow> 'w wazuh_api \<Rightarrow> string \<Rightarrow> string \<Rightarrow> (wazuh_session \<times> 'w, bool) ex" where
  "marker_present pr c host operation_id =
     bindX (agent_id pr c host) (\<lambda>agent.
     bindX (wazuh_call c ''GET'' (''/syscheck/'' @ quote agent @ ''?file='' @ quote (marker_path pr operation_id) @ ''&limit=1'') None) (\<lambda>reply.
     liftX (bindR (json_get reply ''data'' (PDict [])) (\<lambda>data.
       bindR (json_get data ''total_affected_items'' (PInt 0)) positive))))"

partial_function (option) await_loop :: "prims \<Rightarrow> 'w wazuh_api \<Rightarrow> string \<Rightarrow> string \<Rightarrow> bool \<Rightarrow> rat \<Rightarrow>
  wazuh_session \<times> 'w \<Rightarrow> (bool res \<times> (wazuh_session \<times> 'w)) option" where
  "await_loop pr c host op present deadline s =
     (case marker_present pr c host op s of
        (Inl e, s1) \<Rightarrow> Some (Inl e, s1)
      | (Inr b, s1) \<Rightarrow>
          if b = present then Some (Inr True, s1)
          else (case wa_clock c (snd s1) of (now, w1) \<Rightarrow>
            if now \<ge> deadline then Some (Inr False, (fst s1, w1))
            else await_loop pr c host op present deadline (fst s1, wa_sleep c (wa_poll c) w1)))"

declare await_loop.simps [code]

definition await :: "prims \<Rightarrow> 'w wazuh_api \<Rightarrow> string \<Rightarrow> string \<Rightarrow> bool \<Rightarrow>
  wazuh_session \<times> 'w \<Rightarrow> (bool res \<times> (wazuh_session \<times> 'w)) option" where
  "await pr c host op present s = (case wa_clock c (snd s) of (now, w1) \<Rightarrow>
     await_loop pr c host op present (now + wa_timeout c) (fst s, w1))"

definition isolation_is_enforced :: "prims \<Rightarrow> 'w wazuh_api \<Rightarrow> string \<Rightarrow> string \<Rightarrow>
  wazuh_session \<times> 'w \<Rightarrow> (bool res \<times> (wazuh_session \<times> 'w)) option" where
  "isolation_is_enforced pr c host correlation_id = await pr c host correlation_id True"

definition isolation_is_removed :: "prims \<Rightarrow> 'w wazuh_api \<Rightarrow> string \<Rightarrow> string \<Rightarrow>
  wazuh_session \<times> 'w \<Rightarrow> (bool res \<times> (wazuh_session \<times> 'w)) option" where
  "isolation_is_removed pr c host correlation_id = await pr c host correlation_id False"

section \<open>Requests stay at the origin\<close>

text \<open>Two transports with the same origin whose networks differ only elsewhere.\<close>

definition same_at_origin :: "'w http \<Rightarrow> 'w http \<Rightarrow> bool" where
  "same_at_origin h h' \<longleftrightarrow> ht_origin h = ht_origin h' \<and> ht_authorization h = ht_authorization h' \<and>
     (\<forall>rq. starts_with (ht_origin h @ ''/'') (rq_url rq) \<longrightarrow> ht_open h rq = ht_open h' rq)"

lemma relative_path_prefix: "relative_path path \<Longrightarrow> starts_with (origin @ ''/'') (origin @ path)"
  by (cases path) (auto simp: relative_path_def starts_with_def)

lemma bindX_gets: "bindX (\<lambda>s. (Inr (g s), s)) f = (\<lambda>s. f (g s) s)"
  by (simp add: fun_eq_iff bindX_def)

lemmas bearer_request_eq = bearer_request_def [unfolded bearer_def bindX_assoc bindX_gets]

lemma guardX_cong:
  assumes "b \<Longrightarrow> m = m'"
  shows "bindX (liftX (guardR b e)) (\<lambda>_. m) = bindX (liftX (guardR b e)) (\<lambda>_. m')"
  using assms by (cases b) (simp_all add: fun_eq_iff bindX_def)

lemma request_same:
  assumes "same_at_origin h h'"
  shows "request h = request h'" "post_form h = post_form h'"
proof -
  have o: "ht_origin h = ht_origin h'" "ht_authorization h = ht_authorization h'" using assms by (simp_all add: same_at_origin_def)
  have send: "http_send whole h rq = http_send whole h' rq" if "relative_path path" "rq_url rq = ht_origin h @ path" for whole rq path
    using that assms relative_path_prefix [of path "ht_origin h"] by (simp add: fun_eq_iff http_send_def same_at_origin_def)
  have "request h m p pl = request h' m p pl" for m p pl
    unfolding request_def o [symmetric] by (rule guardX_cong) (simp add: send)
  then show "request h = request h'" by (simp add: fun_eq_iff)
  have "post_form h p fs = post_form h' p fs" for p fs
    unfolding post_form_def o [symmetric] by (rule guardX_cong) (simp add: send)
  then show "post_form h = post_form h'" by (simp add: fun_eq_iff)
qed

lemma same_with_authorization:
  "same_at_origin h h' \<Longrightarrow> same_at_origin (with_authorization h a) (with_authorization h' a)"
  by (simp add: same_at_origin_def with_authorization_def)

text \<open>
  The control plane talks to its origins only. Whatever addresses, hosts and keys it is given, each
  operation of the nftables, VyOS and OPNsense sets and of the Wazuh client gives the same results and
  effects on two networks that agree on the URLs below the configured origin.
\<close>

theorem transports_origin_bound:
  assumes "same_at_origin h h'"
  shows "nft_raw_set h = nft_raw_set h' \<and> opnsense_raw_set pr h = opnsense_raw_set pr h' \<and>
    vyos_raw_set pr \<lparr>vy_http = h, vy_key = k\<rparr> = vyos_raw_set pr \<lparr>vy_http = h', vy_key = k\<rparr> \<and>
    (let c = fst (wazuh_api_init h user password timeout poll clock sleep);
         c' = fst (wazuh_api_init h' user password timeout poll clock sleep)
     in trigger pr c = trigger pr c' \<and> marker_present pr c = marker_present pr c')"
proof -
  have vy: "vyos_call pr \<lparr>vy_http = h, vy_key = k\<rparr> = vyos_call pr \<lparr>vy_http = h', vy_key = k\<rparr>"
    by (simp add: fun_eq_iff vyos_call_def request_same [OF assms])
  define c where "c = fst (wazuh_api_init h user password timeout poll clock sleep)"
  define c' where "c' = fst (wazuh_api_init h' user password timeout poll clock sleep)"
  have s: "same_at_origin (wa_basic c) (wa_basic c')" "same_at_origin (wa_http c) (wa_http c')" "wa_clock c = wa_clock c'"
    using assms by (simp_all add: c_def c'_def wazuh_api_init_def same_with_authorization)
  have rc: "read_clock c = read_clock c'" using s(3) by (simp add: fun_eq_iff read_clock_def)
  have lg: "login c = login c'" unfolding login_def request_same(1) [OF s(1)] rc by (rule refl)
  have rq: "request (with_authorization (wa_http c) a) = request (with_authorization (wa_http c') a)" for a
    by (rule request_same(1) [OF same_with_authorization [OF s(2)]])
  have "bearer_request c m p pl = bearer_request c' m p pl" for m p pl
    unfolding bearer_request_eq rc lg rq by (rule refl)
  then have br: "bearer_request c = bearer_request c'" by (intro ext) simp
  have "wazuh_call c m p pl = wazuh_call c' m p pl" for m p pl
    unfolding wazuh_call_def br by (rule refl)
  then have wc: "wazuh_call c = wazuh_call c'" by (intro ext) simp
  have "trigger pr c sc ho op = trigger pr c' sc ho op" "marker_present pr c ho op = marker_present pr c' ho op" for sc ho op
    unfolding trigger_def marker_present_def agent_id_def wc by (rule refl)+
  then have wz: "trigger pr c = trigger pr c'" "marker_present pr c = marker_present pr c'" by (intro ext, simp)+
  have "vyos_raw_set pr \<lparr>vy_http = h, vy_key = k\<rparr> = vyos_raw_set pr \<lparr>vy_http = h', vy_key = k\<rparr>"
    by (simp add: vyos_raw_set_def ext [OF vyos_contains_def] ext [OF ext [OF vyos_add_def]] ext [OF vyos_remove_def] vy)
  moreover have "nft_raw_set h = nft_raw_set h'" "opnsense_raw_set pr h = opnsense_raw_set pr h'"
    by (simp_all add: nft_raw_set_def opnsense_raw_set_def fun_eq_iff nft_contains_def nft_add_def nft_remove_def
        opnsense_contains_def opnsense_add_def opnsense_remove_def request_same [OF assms])
  ultimately show ?thesis using wz by (simp add: c_def c'_def)
qed

section \<open>Polling ends\<close>

text \<open>Time never runs backwards, and sleeping takes the time it is asked to take.\<close>

definition net_timely :: "('w \<Rightarrow> rat) \<Rightarrow> 'w http \<Rightarrow> bool" where
  "net_timely time h \<longleftrightarrow> (\<forall>rq w. time w \<le> time (snd (ht_open h rq w))) \<and> (\<forall>w. time w \<le> time (snd (ht_authorization h w)))"

definition timely :: "('w \<Rightarrow> rat) \<Rightarrow> 'w wazuh_api \<Rightarrow> bool" where
  "timely time c \<longleftrightarrow> net_timely time (wa_http c) \<and> net_timely time (wa_basic c) \<and>
     (\<forall>w. time w \<le> fst (wa_clock c w) \<and> fst (wa_clock c w) \<le> time (snd (wa_clock c w))) \<and>
     (\<forall>w. time w + wa_poll c \<le> time (wa_sleep c (wa_poll c) w))"

definition slow :: "('s \<Rightarrow> rat) \<Rightarrow> ('s, 'a) ex \<Rightarrow> bool" where
  "slow time m \<longleftrightarrow> (\<forall>s. time s \<le> time (snd (m s)))"

lemma slow_bindX: "slow time m \<Longrightarrow> (\<And>x. slow time (f x)) \<Longrightarrow> slow time (bindX m f)"
  unfolding slow_def bindX_def by (auto split: prod.splits sum.splits) (metis order_trans snd_conv)+

lemma slow_pure [simp]: "slow time (returnX x)" "slow time (raiseX e)" "slow time (liftX r)"
  by (simp_all add: slow_def)

lemma slow_request: "net_timely time h \<Longrightarrow> slow time (request h m p payload)"
  unfolding request_def
  by (intro slow_bindX slow_pure)
    (auto simp: slow_def net_timely_def http_send_def split: option.split prod.split, (metis snd_conv)+)

lemma net_timely_with: "net_timely time h \<Longrightarrow> net_timely time (with_authorization h (returnX a))"
  by (simp add: net_timely_def with_authorization_def)

lemma slow_on_net: "slow time m \<Longrightarrow> slow (\<lambda>s. time (snd s)) (on_net m)"
  by (simp add: slow_def on_net_def split: prod.split) (metis snd_conv)

lemma slow_clock: "timely time c \<Longrightarrow> slow (\<lambda>s. time (snd s)) (read_clock c)"
  by (simp add: slow_def read_clock_def timely_def split: prod.split) (metis fst_conv order_trans snd_conv)

lemma slow_login: "timely time c \<Longrightarrow> slow (\<lambda>s. time (snd s)) (login c)"
proof -
  assume t: "timely time c"
  have set_token: "slow (\<lambda>s. time (snd s)) (\<lambda>s. (Inr x, (ss, snd s)))" for x :: unit and ss
    by (simp add: slow_def)
  show ?thesis
    unfolding login_def using t slow_clock [OF t]
    by (auto intro!: slow_bindX slow_on_net slow_request set_token simp: timely_def split: pyval.split)
qed

lemma slow_bearer_request: "timely time c \<Longrightarrow> slow (\<lambda>s. time (snd s)) (bearer_request c m p payload)"
proof -
  assume t: "timely time c"
  let ?slow = "slow (\<lambda>s. time (snd s))"
  have stale: "?slow (\<lambda>s. case ws_token (fst s) of None \<Rightarrow> (Inr True, s)
      | Some tk \<Rightarrow> bindX (read_clock c) (\<lambda>now. returnX (now - ws_token_at (fst s) > TOKEN_TTL_SECONDS)) s)"
    using slow_clock [OF t] by (auto simp: slow_def bindX_def split: option.split sum.split prod.split) (metis snd_conv)+
  have "?slow (\<lambda>s. on_net (request (with_authorization (wa_http c) (returnX (Some (''Bearer '' @ the (ws_token (fst s)))))) m p payload) s)"
    using slow_on_net [OF slow_request [OF net_timely_with]] t unfolding slow_def timely_def by blast
  then show ?thesis unfolding bearer_request_eq using stale slow_login [OF t] by (auto intro!: slow_bindX)
qed

lemma slow_wazuh_call: "timely time c \<Longrightarrow> slow (\<lambda>s. time (snd s)) (wazuh_call c m p payload)"
proof -
  assume t: "timely time c"
  note b = slow_bearer_request [OF t, of m p payload]
  have "time (snd s) \<le> time (snd (snd (bearer_request c m p payload (apfst f s1))))"
    if "bearer_request c m p payload s = (r, s1)" for s r s1 f
  proof -
    have "time (snd s) \<le> time (snd s1)" using b that unfolding slow_def by (metis snd_conv)
    also have "\<dots> \<le> time (snd (snd (bearer_request c m p payload (apfst f s1))))"
      using b unfolding slow_def by (metis snd_apfst)
    finally show ?thesis .
  qed
  then have "slow (\<lambda>s. time (snd s)) (\<lambda>s. case bearer_request c m p payload s of
         (Inl e, s1) \<Rightarrow>
           if is_unauthorized e then bearer_request c m p payload (apfst (\<lambda>ss. ss\<lparr>ws_token := None\<rparr>) s1)
           else (Inl e, s1)
       | (Inr reply, s1) \<Rightarrow> (Inr reply, s1))"
    using b by (auto simp: slow_def split: prod.split sum.split) (metis snd_conv)+
  then show ?thesis unfolding wazuh_call_def by (auto intro!: slow_bindX split: prod.split)
qed

lemma slow_marker_present: "timely time c \<Longrightarrow> slow (\<lambda>s. time (snd s)) (marker_present pr c host op)"
  unfolding marker_present_def agent_id_def by (intro slow_bindX slow_wazuh_call slow_pure)

lemma await_loop_returns:
  assumes t: "timely time c" and p: "0 < wa_poll c"
  shows "deadline \<le> time (snd s) + of_nat n * wa_poll c \<Longrightarrow>
    \<exists>r s'. await_loop pr c host op present deadline s = Some (r, s') \<and>
      (r = Inr True \<longrightarrow> (\<exists>s0. marker_present pr c host op s0 = (Inr present, s'))) \<and>
      (r = Inr False \<longrightarrow> deadline \<le> time (snd s'))"
proof (induction n arbitrary: s)
  case 0
  obtain r s1 where m: "marker_present pr c host op s = (r, s1)" by (meson surj_pair)
  have m1: "time (snd s) \<le> time (snd s1)" using slow_marker_present [OF t] m unfolding slow_def by (metis snd_conv)
  obtain now w1 where cl: "wa_clock c (snd s1) = (now, w1)" by fastforce
  have "time (snd s1) \<le> now" "now \<le> time w1" using t cl unfolding timely_def by (metis fst_conv snd_conv)+
  then have "deadline \<le> now" "deadline \<le> time w1" using 0 m1 by simp_all
  then show ?case
    using m cl by (subst (1) await_loop.simps) (auto simp del: split_paired_Ex split: sum.split)
next
  case (Suc n)
  obtain r s1 where m: "marker_present pr c host op s = (r, s1)" by (meson surj_pair)
  have m1: "time (snd s) \<le> time (snd s1)" using slow_marker_present [OF t] m unfolding slow_def by (metis snd_conv)
  obtain now w1 where cl: "wa_clock c (snd s1) = (now, w1)" by fastforce
  have now: "time (snd s1) \<le> now" "now \<le> time w1" using t cl unfolding timely_def by (metis fst_conv snd_conv)+
  let ?s = "(fst s1, wa_sleep c (wa_poll c) w1)"
  have "time w1 + wa_poll c \<le> time (snd ?s)" using t by (simp add: timely_def)
  then have "deadline \<le> time (snd ?s) + of_nat n * wa_poll c"
    using Suc.prems m1 now by (simp add: algebra_simps)
  from Suc.IH [OF this] show ?case
    using m cl now by (subst (1) await_loop.simps) (auto simp del: split_paired_Ex split: sum.split)
qed

text \<open>
  C25. Waiting for an endpoint ends. When time does not run backwards, a sleep takes its time and the
  polling interval is positive, \<^verbatim>\<open>_await\<close> returns or raises: it answers \<^verbatim>\<open>True\<close> only as the outcome of a
  query that found the marker in the wanted state, and \<^verbatim>\<open>False\<close> only after the whole timeout.
\<close>

theorem await_returns:
  assumes "timely time c" "0 < wa_poll c"
  shows "\<exists>r s'. await pr c host op present s = Some (r, s') \<and>
    (r = Inr True \<longrightarrow> (\<exists>s0. marker_present pr c host op s0 = (Inr present, s'))) \<and>
    (r = Inr False \<longrightarrow> time (snd s) + wa_timeout c \<le> time (snd s'))"
proof -
  obtain now w1 where cl: "wa_clock c (snd s) = (now, w1)" by fastforce
  have now: "time (snd s) \<le> now" using assms(1) cl unfolding timely_def by (metis fst_conv)
  obtain n where "(now + wa_timeout c - time w1) / wa_poll c \<le> of_nat n" using real_arch_simple by blast
  then have "now + wa_timeout c \<le> time (snd (fst s, w1)) + of_nat n * wa_poll c"
    using assms(2) by (simp add: divide_le_eq algebra_simps)
  from await_loop_returns [OF assms this] obtain r s' where
    r: "await_loop pr c host op present (now + wa_timeout c) (fst s, w1) = Some (r, s')"
      "r = Inr True \<longrightarrow> (\<exists>s0. marker_present pr c host op s0 = (Inr present, s'))"
      "r = Inr False \<longrightarrow> now + wa_timeout c \<le> time (snd s')"
    by blast
  have "await pr c host op present s = Some (r, s')" using r(1) cl by (simp add: await_def)
  moreover have "r = Inr False \<longrightarrow> time (snd s) + wa_timeout c \<le> time (snd s')" using r(3) now by auto
  ultimately show ?thesis using r(2) by blast
qed

text \<open>A manager whose file inventory shows the marker from second 4 on; the world is the time.\<close>

definition manager_reply :: "pyval \<Rightarrow> http_reply" where
  "manager_reply data = Response \<lparr>re_status = 200, re_length = 64, re_remaining = None, re_body = Some (PDict [(''data'', data)])\<rparr>"

definition demo_manager :: "http_request \<Rightarrow> rat \<Rightarrow> http_reply \<times> rat" where
  "demo_manager rq t = (
     if starts_with ''https://wazuh/security'' (rq_url rq) then manager_reply (PDict [(''token'', PStr ''t'')])
     else if starts_with ''https://wazuh/agents'' (rq_url rq)
     then manager_reply (PDict [(''affected_items'', PList [PDict [(''id'', PStr ''007''), (''name'', PStr ''web''), (''status'', PStr ''active'')]])])
     else if starts_with ''https://wazuh/syscheck/007?file='' (rq_url rq)
     then manager_reply (PDict [(''total_affected_items'', PInt (if t \<ge> 4 then 1 else 0))])
     else Unreachable, t)"

definition demo_wazuh_http :: "rat http" where
  "demo_wazuh_http = \<lparr>ht_origin = ''https://wazuh'', ht_open = demo_manager, ht_authorization = no_authorization\<rparr>"

definition demo_wazuh_api :: "rat wazuh_api \<times> wazuh_session" where
  "demo_wazuh_api = wazuh_api_init demo_wazuh_http ''user'' ''secret'' 25 2 (\<lambda>t. (t, t)) (\<lambda>d t. t + d)"

definition demo_hash :: prims where
  "demo_hash = \<lparr>sha256_hexdigest = rev, float_repr = (\<lambda>_. [])\<rparr>"

lemma demo_timely: "timely id (fst demo_wazuh_api)" "0 < wa_poll (fst demo_wazuh_api)"
  by (simp_all add: timely_def net_timely_def demo_wazuh_api_def wazuh_api_init_def demo_wazuh_http_def
      demo_manager_def with_authorization_def no_authorization_def)

theorem await_returns_witness:
  "\<exists>r s'. await demo_hash (fst demo_wazuh_api) ''web'' ''op-1'' True (snd demo_wazuh_api, 0) = Some (r, s') \<and>
     (r = Inr False \<longrightarrow> 0 + wa_timeout (fst demo_wazuh_api) \<le> snd s')"
proof -
  obtain r s' where "await demo_hash (fst demo_wazuh_api) ''web'' ''op-1'' True (snd demo_wazuh_api, 0) = Some (r, s')"
    "r = Inr False \<longrightarrow> id (snd (snd demo_wazuh_api, 0)) + wa_timeout (fst demo_wazuh_api) \<le> id (snd s')"
    using await_returns [OF demo_timely, where s = "(snd demo_wazuh_api, 0)"] by blast
  then show ?thesis by auto
qed

theorem transports_origin_bound_witness:
  "nft_raw_set demo_wazuh_http = nft_raw_set (demo_wazuh_http\<lparr>ht_open := \<lambda>rq t.
     if starts_with ''https://wazuh/'' (rq_url rq) then demo_manager rq t else (Broken_response, t + 1)\<rparr>)"
proof -
  let ?h = "demo_wazuh_http\<lparr>ht_open := \<lambda>rq t.
     if starts_with ''https://wazuh/'' (rq_url rq) then demo_manager rq t else (Broken_response, t + 1)\<rparr>"
  have "same_at_origin demo_wazuh_http ?h"
    by (simp add: same_at_origin_def demo_wazuh_http_def fun_eq_iff)
  from conjunct1 [OF transports_origin_bound [OF this]] show ?thesis .
qed

end
