(* ===== verification/Elastic.thy ===== *)
theory Elastic
  imports Transports "HOL-Library.Sublist"
begin

text \<open>
  \<^verbatim>\<open>soc/workers/common.py\<close>: timestamps, the credential file that is read again when it changes, and the
  Elasticsearch client with its bounded search, its paged scan and its create-once write. The paging
  loop is a \<open>partial_function\<close>: \<^const>\<open>None\<close> is a scan that never ends. Private SQLite files and locks are
  I/O and are not modelled.
\<close>

section \<open>Timestamps\<close>

definition utc_text :: "int \<Rightarrow> string" where
  "utc_text t = iso_seconds t @ (if t mod 1000000 = 0 then [] else ''.'' @ show6 (t mod 1000000)) @ ''Z''"

definition utc_of_text :: "string \<Rightarrow> int res" where
  "utc_of_text s = (case fromisoformat (replace_Z s) of
     None \<Rightarrow> Inl (ValueError ''Invalid isoformat string'')
   | Some (Naive t) \<Rightarrow> Inl (ValueError ''timestamp must include a UTC offset'')
   | Some (Aware t) \<Rightarrow> if in_range t then Inr t else Inl OverflowErr)"

text \<open>\<^verbatim>\<open>strftime("%Y.%m.%d")\<close>: the year is not padded.\<close>

definition day_suffix :: "int \<Rightarrow> string" where
  "day_suffix t = (case ord2ymd (t div us_per_day + epoch_ordinal) of (y, m, d) \<Rightarrow>
     show_int y @ ''.'' @ show2 m @ ''.'' @ show2 d)"

section \<open>Credentials\<close>

definition elastic_authorization :: "string \<Rightarrow> string" where
  "elastic_authorization credential = (if CHR '':'' \<in> set credential
     then ''Basic '' @ std_b64 (concat (map utf8 credential)) else ''ApiKey '' @ credential)"

text \<open>A credential file as \<^verbatim>\<open>os.stat\<close> and \<^verbatim>\<open>read_text\<close> see it; \<^const>\<open>None\<close> is an \<^verbatim>\<open>OSError\<close>.\<close>

record credential_file =
  cf_stamp :: "(int \<times> int \<times> int) option"
  cf_text :: "string option"

definition read_secret_file :: "credential_file \<Rightarrow> string res" where
  "read_secret_file f = (case cf_text f of None \<Rightarrow> Inl OSErr
     | Some t \<Rightarrow> (let value = strip t in
         if value = [] \<or> list_ex is_space value then Inl (ValueError ''must be a single token without whitespace'')
         else Inr value))"

record file_authorization =
  fa_stamp :: "(int \<times> int \<times> int) option"
  fa_value :: string

definition fa_reload :: "bool \<Rightarrow> credential_file \<Rightarrow> file_authorization \<Rightarrow> file_authorization res" where
  "fa_reload strict f a = (case cf_stamp f of None \<Rightarrow> Inl OSErr
     | Some stamp \<Rightarrow>
         if fa_stamp a = Some stamp then Inr a
         else (case read_secret_file f of
             Inl e \<Rightarrow> (if strict then Inl e else Inr a)
           | Inr secret \<Rightarrow> Inr \<lparr>fa_stamp = Some stamp, fa_value = elastic_authorization secret\<rparr>))"

definition fa_init :: "credential_file \<Rightarrow> file_authorization res" where
  "fa_init f = fa_reload True f \<lparr>fa_stamp = None, fa_value = []\<rparr>"

definition fa_call :: "credential_file \<Rightarrow> file_authorization \<Rightarrow> string \<times> file_authorization" where
  "fa_call f a = (let a' = (case fa_reload False f a of Inl e \<Rightarrow> a | Inr b \<Rightarrow> b) in (fa_value a', a'))"

section \<open>The client\<close>

definition is_index_char :: "char \<Rightarrow> bool" where
  "is_index_char c = (let n = of_char c :: nat in 97 \<le> n \<and> n \<le> 122 \<or> is_digit c \<or> c \<in> set ''_.*,-'')"

definition index_matches :: "string \<Rightarrow> bool" where
  "index_matches s = (list_all is_index_char s \<and> 1 \<le> length s \<and> length s \<le> 255)"

definition quote_index :: "string \<Rightarrow> string" where
  "quote_index s = concat (map (\<lambda>c. if c = CHR '','' \<or> c = CHR ''*'' then [c] else quote_char c) s)"

definition elastic_index :: "string \<Rightarrow> string res" where
  "elastic_index index = (if \<not> index_matches index then Inl (ValueError ''invalid index expression'') else Inr (quote_index index))"

definition es_search :: "'w http \<Rightarrow> string \<Rightarrow> pyval \<Rightarrow> ('w, pyval list) ex" where
  "es_search h index body =
     bindX (liftX (elastic_index index)) (\<lambda>idx.
     bindX (request h ''POST'' (''/'' @ idx @ ''/_search?allow_no_indices=true&ignore_unavailable=true'') (Some body)) (\<lambda>(status, reply).
     if status \<noteq> 200 then raiseX (DeliveryErr ''ES_SEARCH_NOT_ACKNOWLEDGED'' True None)
     else liftX (bindR (json_get reply ''hits'' (PDict [])) (\<lambda>outer. bindR (json_get outer ''hits'' (PList [])) (\<lambda>hits.
       case hits of PList hs \<Rightarrow> Inr hs | _ \<Rightarrow> Inl (DeliveryErr ''ES_SEARCH_RESPONSE_CONTRACT'' False None))))))"

fun is_conflict :: "exn \<Rightarrow> bool" where
  "is_conflict (DeliveryErr code retryable status) = (status = Some 409)"
| "is_conflict _ = False"

definition es_create :: "'w http \<Rightarrow> string \<Rightarrow> string \<Rightarrow> pyval \<Rightarrow> ('w, bool) ex" where
  "es_create h index doc_id document =
     bindX (liftX (guardR (index_matches index \<and> CHR ''*'' \<notin> set index \<and> CHR '','' \<notin> set index) (ValueError ''invalid concrete index''))) (\<lambda>_.
     bindX (liftX (guardR (doc_id \<noteq> [] \<and> length doc_id \<le> 512) (ValueError ''document id must be 1..512 characters''))) (\<lambda>_ w.
     case request h ''PUT'' (''/'' @ index @ ''/_create/'' @ quote doc_id) (Some document) w of
       (Inl e, w') \<Rightarrow> if is_conflict e then (Inr False, w') else (Inl e, w')
     | (Inr (status, reply), w') \<Rightarrow>
         if status \<noteq> 201 \<or> pget reply ''result'' \<noteq> PStr ''created''
         then (Inl (DeliveryErr ''ES_CREATE_NOT_ACKNOWLEDGED'' True None), w') else (Inr True, w')))"

section \<open>Scanning\<close>

definition scan_body :: "pyval \<Rightarrow> pyval list \<Rightarrow> string list option \<Rightarrow> int \<Rightarrow> pyval list option \<Rightarrow> pyval" where
  "scan_body query order source page_size after = PDict ([(''size'', PInt page_size), (''query'', query), (''sort'', PList order),
     (''track_total_hits'', PBool False)]
     @ (case source of None \<Rightarrow> [] | Some fs \<Rightarrow> [(''_source'', PList (map PStr fs))])
     @ (case after of None \<Rightarrow> [] | Some a \<Rightarrow> [(''search_after'', PList a)]))"

text \<open>How many of a page's hits the cap lets through, and whether it was exceeded.\<close>

definition scan_take :: "nat option \<Rightarrow> nat \<Rightarrow> pyval list \<Rightarrow> pyval list \<times> bool" where
  "scan_take limit emitted hits = (case limit of None \<Rightarrow> (hits, False)
     | Some l \<Rightarrow> (take (l - emitted) hits, l < emitted + length hits))"

definition next_after :: "pyval list \<Rightarrow> pyval list res" where
  "next_after hits = (if \<not> is_mapping (last hits) then Inl (AttributeErr ''get'')
     else (case pget (last hits) ''sort'' of PList a \<Rightarrow> Inr a
       | _ \<Rightarrow> Inl (DeliveryErr ''ES_SEARCH_RESPONSE_CONTRACT'' False None)))"

text \<open>
  A \<^verbatim>\<open>for\<close> loop over the generator: \<open>body\<close> is the loop's body on one hit and its state, \<^const>\<open>False\<close> is a
  \<^verbatim>\<open>break\<close>. A break or an exception ends the scan before the next page is asked for.
\<close>

fun scan_each :: "(pyval \<Rightarrow> ('s, bool) ex) \<Rightarrow> pyval list \<Rightarrow> ('s, bool) ex" where
  "scan_each body [] s = (Inr True, s)"
| "scan_each body (hit # hits) s = (case body hit s of (Inr True, s') \<Rightarrow> scan_each body hits s' | r \<Rightarrow> r)"

partial_function (option) scan_loop :: "'w http \<Rightarrow> string \<Rightarrow> (pyval list option \<Rightarrow> pyval) \<Rightarrow> (pyval \<Rightarrow> ('s, bool) ex) \<Rightarrow> nat \<Rightarrow> nat option \<Rightarrow> nat \<Rightarrow>
  pyval list option \<Rightarrow> 's \<Rightarrow> 'w \<Rightarrow> (unit res \<times> 's \<times> 'w) option" where
  "scan_loop h index page body page_size limit emitted after s w =
     (case es_search h index (page after) w of
        (Inl e, w1) \<Rightarrow> Some (Inl e, s, w1)
      | (Inr hits, w1) \<Rightarrow>
          (case scan_take limit emitted hits of (ys, exceeded) \<Rightarrow>
          (case scan_each body ys s of
             (Inl e, s1) \<Rightarrow> Some (Inl e, s1, w1)
           | (Inr continue, s1) \<Rightarrow>
            if \<not> continue then Some (Inr (), s1, w1)
            else if exceeded then Some (Inl (ScanLimitExceeded (the limit)), s1, w1)
            else if length hits < page_size then Some (Inr (), s1, w1)
            else (case next_after hits of
                Inl e \<Rightarrow> Some (Inl e, s1, w1)
              | Inr a \<Rightarrow> scan_loop h index page body page_size limit (emitted + length hits) (Some a) s1 w1))))"

declare scan_loop.simps [code]

text \<open>How the loop ends, and the state its body has reached.\<close>

definition es_scan :: "'w http \<Rightarrow> string \<Rightarrow> pyval \<Rightarrow> pyval list \<Rightarrow> string list option \<Rightarrow> int \<Rightarrow> nat option \<Rightarrow> pyval list option \<Rightarrow>
  (pyval \<Rightarrow> ('s, bool) ex) \<Rightarrow> 's \<Rightarrow> 'w \<Rightarrow> (unit res \<times> 's \<times> 'w) option" where
  "es_scan h index query order source page_size limit after body s w =
     (if \<not> (1 \<le> page_size \<and> page_size \<le> 10000) then Some (Inl (ValueError ''page_size must be between 1 and 10000''), s, w)
      else scan_loop h index (scan_body query order source page_size) body (nat page_size) limit 0 after s w)"

section \<open>A capped scan ends\<close>

lemma scan_each_append:
  "scan_each body (xs @ ys) s = (case scan_each body xs s of (Inr True, s') \<Rightarrow> scan_each body ys s' | r \<Rightarrow> r)"
  by (induction xs arbitrary: s) (auto split: prod.splits sum.splits bool.splits)

lemma scan_loop_returns:
  assumes "0 < page_size"
  shows "l < emitted + n \<Longrightarrow> emitted \<le> l \<Longrightarrow>
    \<exists>r s' w' hits. scan_loop h index page body page_size (Some l) emitted after s w = Some (r, s', w') \<and>
      emitted + length hits \<le> l \<and> s' = snd (scan_each body hits s)"
proof (induction n arbitrary: emitted after s w)
  case 0
  then show ?case by simp
next
  case (Suc n)
  obtain x w1 where x: "es_search h index (page after) w = (x, w1)" by fastforce
  show ?case
  proof (cases x)
    case (Inl e)
    then have "scan_loop h index page body page_size (Some l) emitted after s w = Some (Inl e, snd (scan_each body [] s), w1)"
      using x by (subst scan_loop.simps) simp
    moreover have "emitted + length ([] :: pyval list) \<le> l" using Suc.prems(2) by simp
    ultimately show ?thesis by blast
  next
    case (Inr hits)
    let ?ys = "take (l - emitted) hits"
    obtain c s1 where each: "scan_each body ?ys s = (c, s1)" by fastforce
    show ?thesis
    proof (cases "c = Inr True \<and> emitted + length hits \<le> l \<and> page_size \<le> length hits \<and> (\<exists>a. next_after hits = Inr a)")
      case False
      have "\<exists>r. scan_loop h index page body page_size (Some l) emitted after s w = Some (r, s1, w1)"
        using False x Inr each by (subst scan_loop.simps) (auto simp: scan_take_def split: sum.splits)
      moreover have "s1 = snd (scan_each body ?ys s)" "emitted + length ?ys \<le> l" using each Suc.prems(2) by simp_all
      ultimately show ?thesis by blast
    next
      case True
      then obtain a where a: "next_after hits = Inr a" by blast
      have "length hits \<le> l - emitted" using True by linarith
      then have ys: "?ys = hits" by simp
      have "l < (emitted + length hits) + n" using True Suc.prems assms by linarith
      from Suc.IH [OF this, of "Some a" s1 w1] True obtain r s' w' more where
        "scan_loop h index page body page_size (Some l) (emitted + length hits) (Some a) s1 w1 = Some (r, s', w')"
        and more: "emitted + length hits + length more \<le> l" "s' = snd (scan_each body more s1)" by blast
      then have "scan_loop h index page body page_size (Some l) emitted after s w = Some (r, s', w')"
        using x Inr a each True by (subst scan_loop.simps) (simp add: scan_take_def)
      moreover have "s' = snd (scan_each body (hits @ more) s)" using each True more by (simp add: scan_each_append ys)
      moreover have "emitted + length (hits @ more) \<le> l" using more by simp
      ultimately show ?thesis by blast
    qed
  qed
qed

text \<open>
  A capped scan ends and keeps its cap. With a limit, the loop over \<^verbatim>\<open>scan\<close> returns or raises whatever
  the server answers and whatever its body does, and its body has seen at most \<^verbatim>\<open>limit\<close> documents.
\<close>

theorem capped_scan_ends:
  "\<exists>r s' w' hits. es_scan h index query order source page_size (Some limit) after body s w = Some (r, s', w') \<and>
    length hits \<le> limit \<and> s' = snd (scan_each body hits s)"
proof (cases "1 \<le> page_size \<and> page_size \<le> 10000")
  case True
  then have "0 < nat page_size" by simp
  from scan_loop_returns [OF this, of limit 0 "Suc limit" h index "scan_body query order source page_size" body after s w]
  show ?thesis using True by (simp add: es_scan_def)
next
  case False
  then have "es_scan h index query order source page_size (Some limit) after body s w
      = Some (Inl (ValueError ''page_size must be between 1 and 10000''), snd (scan_each body [] s), w)"
    by (simp add: es_scan_def)
  moreover have "length ([] :: pyval list) \<le> limit" by simp
  ultimately show ?thesis by blast
qed

text \<open>
  A rotated credential takes effect and a broken one does not. When the file changed and holds a
  single token, the next request carries it; while it cannot be read, is half-written or is gone, the
  last good value is kept, and the file is looked at again on the next request.
\<close>

theorem credential_rotation:
  assumes "fa_init f0 = Inr a"
  shows "(\<forall>stamp secret. cf_stamp f = Some stamp \<and> fa_stamp a \<noteq> Some stamp \<and> read_secret_file f = Inr secret \<longrightarrow>
      fst (fa_call f a) = elastic_authorization secret) \<and>
    (cf_stamp f = None \<or> (\<exists>e. read_secret_file f = Inl e) \<longrightarrow> fa_call f a = (fa_value a, a)) \<and>
    (\<exists>secret. read_secret_file f0 = Inr secret \<and> fa_value a = elastic_authorization secret)"
  using assms by (auto simp: fa_init_def fa_call_def fa_reload_def Let_def split: option.splits sum.splits if_splits)

theorem credential_rotation_witness:
  "fst (fa_call \<lparr>cf_stamp = Some (2, 5, 0), cf_text = Some ''key2''\<rparr> \<lparr>fa_stamp = Some (1, 5, 0), fa_value = ''ApiKey key1''\<rparr>) = ''ApiKey key2''"
proof -
  have i: "fa_init \<lparr>cf_stamp = Some (1, 5, 0), cf_text = Some ''key1''\<rparr> = Inr \<lparr>fa_stamp = Some (1, 5, 0), fa_value = ''ApiKey key1''\<rparr>"
    by code_simp
  have r: "read_secret_file \<lparr>cf_stamp = Some (2, 5, 0), cf_text = Some ''key2''\<rparr> = Inr ''key2''" by code_simp
  have e: "elastic_authorization ''key2'' = ''ApiKey key2''" by code_simp
  from conjunct1 [OF credential_rotation [OF i, of "\<lparr>cf_stamp = Some (2, 5, 0), cf_text = Some ''key2''\<rparr>"]] show ?thesis
    using r e by simp
qed

end
