(* ===== verification/Service.thy ===== *)
theory Service
  imports Runs Elastic
begin

text \<open>
  \<^verbatim>\<open>response/service/runner.py\<close> and \<^verbatim>\<open>response/service/api.py\<close>: the service that accepts signed
  commands, drives the lifecycle once per tick and exports the audit trail. Its state is the service
  object next to the orchestrator; the exporter writes through an Elasticsearch client whose network
  is part of the orchestrator's world. The clock is an argument. A store-backed orchestrator is
  assumed where audit events are exported, as in the code. FastAPI's routing and the body reader are
  the arguments of the handlers.
\<close>

section \<open>The audit exporter\<close>

record export_report =
  xr_delivered :: nat
  xr_blocked :: "string option"

definition mark_exported_op :: "string \<Rightarrow> ('w, unit) op" where
  "mark_exported_op audit_id s = (case o_persist s of
     PStore st fs \<Rightarrow> (case mark_exported audit_id st of Inl e \<Rightarrow> (Inl e, s)
       | Inr st' \<Rightarrow> (Inr (), s\<lparr>o_persist := PStore st' fs\<rparr>))
   | PLedger L \<Rightarrow> (Inl (AttributeErr ''mark_exported''), s))"

definition unexported_op :: "nat \<Rightarrow> ('w, (string \<times> audit_event) list) op" where
  "unexported_op limit s = (case o_persist s of
     PStore st fs \<Rightarrow> (exclusive st (Inr (unexported_events limit st)), s)
   | PLedger L \<Rightarrow> (Inl (AttributeErr ''unexported_events''), s))"

definition on_world_op :: "('w, 'a) ex \<Rightarrow> ('w, 'a) op" where
  "on_world_op m s = (case m (o_world s) of (r, w) \<Rightarrow> (r, s\<lparr>o_world := w\<rparr>))"

definition export_event :: "'w http \<Rightarrow> audit_event \<Rightarrow> ('w, bool) op" where
  "export_event h e = bindX (liftX (utc_of_text (ev_timestamp e))) (\<lambda>t.
     on_world_op (es_create h (''soc-response-'' @ day_suffix t) (ev_id e) (event_json e)))"

fun delivery_code :: "exn \<Rightarrow> string option" where
  "delivery_code (DeliveryErr code retryable status) = Some code"
| "delivery_code _ = None"

fun export_loop :: "'w http \<Rightarrow> (string \<times> audit_event) list \<Rightarrow> nat \<Rightarrow> ('w, export_report) op" where
  "export_loop h [] delivered s = (Inr \<lparr>xr_delivered = delivered, xr_blocked = None\<rparr>, s)"
| "export_loop h ((audit_id, e) # rest) delivered s =
     (case export_event h e s of
        (Inl x, s1) \<Rightarrow> (case delivery_code x of
            Some code \<Rightarrow> (Inr \<lparr>xr_delivered = delivered, xr_blocked = Some code\<rparr>, s1) | None \<Rightarrow> (Inl x, s1))
      | (Inr created, s1) \<Rightarrow> (case mark_exported_op audit_id s1 of
            (Inl x, s2) \<Rightarrow> (Inl x, s2)
          | (Inr _, s2) \<Rightarrow> export_loop h rest (Suc delivered) s2))"

definition export :: "'w http \<Rightarrow> nat \<Rightarrow> ('w, export_report) op" where
  "export h limit = bindX (unexported_op limit) (\<lambda>es. export_loop h es 0)"

section \<open>The service\<close>

record service =
  sv_mode :: string
  sv_recover_every :: int
  sv_ticks :: int
  sv_started :: bool
  sv_counters :: "int dict"
  sv_last_export :: export_report

type_synonym 'w svc = "service \<times> 'w orch"

definition service_init :: "string \<Rightarrow> int \<Rightarrow> service res" where
  "service_init mode recover_every =
     bindR (guardR (mode = ''observe'' \<or> mode = ''enforce'') (ValueError ''mode must be observe or enforce'')) (\<lambda>_.
     Inr \<lparr>sv_mode = mode, sv_recover_every = max 1 recover_every, sv_ticks = 0, sv_started = False,
       sv_counters = map (\<lambda>k. (k, 0)) [''accepted'', ''rejected'', ''applied'', ''verified'', ''reverted'', ''failed'', ''recovered''],
       sv_last_export = \<lparr>xr_delivered = 0, xr_blocked = None\<rparr>\<rparr>)"

definition bump :: "string \<Rightarrow> int \<Rightarrow> int dict \<Rightarrow> int dict" where
  "bump k n counters = dict_set k (the (dict_get counters k) + n) counters"

definition count_op :: "string \<Rightarrow> int \<Rightarrow> ('w svc, unit) ex" where
  "count_op k n s = (Inr (), (fst s\<lparr>sv_counters := bump k n (sv_counters (fst s))\<rparr>, snd s))"

definition on_orch :: "('w, 'a) op \<Rightarrow> ('w svc, 'a) ex" where
  "on_orch m s = (case m (snd s) of (r, o') \<Rightarrow> (r, (fst s, o')))"

definition start :: "'w env \<Rightarrow> int \<Rightarrow> ('w svc, unit) ex" where
  "start v now =
     bindX (on_orch (recover_pending v now (Some (Aware now)))) (\<lambda>recovered.
     bindX (count_op ''recovered'' (int (length recovered))) (\<lambda>_ s.
     (Inr (), (fst s\<lparr>sv_started := True\<rparr>, snd s))))"

definition summary :: "result \<Rightarrow> pyval" where
  "summary r = PDict [(''response_id'', PStr (rs_id r)), (''state'', PStr (show_state (rs_state r))),
     (''accepted'', PBool (rs_accepted r)), (''deduplicated'', PBool (rs_dedup r)), (''message'', str_or_none (rs_message r))]"

definition refusal :: "string \<Rightarrow> pyval" where
  "refusal m = PDict [(''accepted'', PBool False), (''state'', PNone), (''message'', PStr m)]"

fun rejected_text :: "exn \<Rightarrow> string option" where
  "rejected_text (CommandRejected m) = Some m"
| "rejected_text _ = None"

definition accept :: "'w env \<Rightarrow> int \<Rightarrow> pyval \<Rightarrow> ('w svc, pyval) ex" where
  "accept v now command s = (
     if sv_mode (fst s) \<noteq> ''enforce''
     then bindX (count_op ''rejected'' 1) (\<lambda>_. returnX (refusal ''service is in observe mode; no command accepted'')) s
     else if \<not> sv_started (fst s) then (Inl (RuntimeErr ''service has not completed startup recovery''), s)
     else (case on_orch (submit v now command (Some (Aware now))) s of
         (Inl e, s1) \<Rightarrow> (case rejected_text e of
             Some m \<Rightarrow> bindX (count_op ''rejected'' 1) (\<lambda>_. returnX (refusal m)) s1
           | None \<Rightarrow> (Inl e, s1))
       | (Inr r, s1) \<Rightarrow> bindX (count_op (if rs_accepted r then ''accepted'' else ''rejected'') 1) (\<lambda>_. returnX (summary r)) s1))"

definition status :: "string \<Rightarrow> ('w svc, pyval) ex" where
  "status rid = on_orch (snapshot_op rid)"

section \<open>One tick\<close>

record tick_report =
  tr_applied :: nat
  tr_verified :: nat
  tr_reverted :: nat
  tr_failed :: nat

definition empty_report :: tick_report where
  "empty_report = \<lparr>tr_applied = 0, tr_verified = 0, tr_reverted = 0, tr_failed = 0\<rparr>"

fun apply_all :: "'w env \<Rightarrow> int \<Rightarrow> string list \<Rightarrow> tick_report \<Rightarrow> ('w, tick_report) op" where
  "apply_all v now [] rep = returnX rep"
| "apply_all v now (rid # rids) rep =
     bindX (apply_op v now rid (Some (Aware now))) (\<lambda>r.
     apply_all v now rids (if rs_state r = Applied then rep\<lparr>tr_applied := Suc (tr_applied rep)\<rparr>
       else rep\<lparr>tr_failed := Suc (tr_failed rep)\<rparr>))"

fun verify_all :: "'w env \<Rightarrow> int \<Rightarrow> string list \<Rightarrow> tick_report \<Rightarrow> ('w, tick_report) op" where
  "verify_all v now [] rep = returnX rep"
| "verify_all v now (rid # rids) rep =
     bindX (verify_op v now rid (Some (Aware now))) (\<lambda>r.
     verify_all v now rids (if rs_state r = Verified then rep\<lparr>tr_verified := Suc (tr_verified rep)\<rparr>
       else if rs_state r = Rolled_back then rep\<lparr>tr_reverted := Suc (tr_reverted rep)\<rparr>
       else rep\<lparr>tr_failed := Suc (tr_failed rep)\<rparr>))"

definition count_reverts :: "result list \<Rightarrow> tick_report \<Rightarrow> tick_report" where
  "count_reverts rs rep = foldl (\<lambda>p r. if rs_accepted r then p\<lparr>tr_reverted := Suc (tr_reverted p)\<rparr>
     else p\<lparr>tr_failed := Suc (tr_failed p)\<rparr>) rep rs"

definition lifecycle_pass :: "'w env \<Rightarrow> int \<Rightarrow> ('w svc, tick_report) ex" where
  "lifecycle_pass v now =
     bindX (on_orch (bindX pending_apply (\<lambda>rids. apply_all v now rids empty_report))) (\<lambda>rep1.
     bindX (on_orch (bindX awaiting_verification (\<lambda>rids. verify_all v now rids rep1))) (\<lambda>rep2.
     bindX (on_orch (expire_due v now (Some (Aware now)))) (\<lambda>expired.
     bindX (\<lambda>s. (Inr (), (fst s\<lparr>sv_ticks := sv_ticks (fst s) + 1\<rparr>, snd s))) (\<lambda>_ s.
     (let rep3 = count_reverts expired rep2 in
      if sv_ticks (fst s) mod sv_recover_every (fst s) = 0
      then bindX (on_orch (recover_pending v now (Some (Aware now)))) (\<lambda>recovered. returnX (count_reverts recovered rep3)) s
      else (Inr rep3, s))))))"

definition add_report :: "tick_report \<Rightarrow> ('w svc, unit) ex" where
  "add_report rep =
     bindX (count_op ''applied'' (int (tr_applied rep))) (\<lambda>_.
     bindX (count_op ''verified'' (int (tr_verified rep))) (\<lambda>_.
     bindX (count_op ''reverted'' (int (tr_reverted rep))) (\<lambda>_.
     count_op ''failed'' (int (tr_failed rep)))))"

text \<open>Nothing an export does may stop the lifecycle: every exception becomes a blocked export.\<close>

definition export_pass :: "'w http option \<Rightarrow> ('w svc, unit) ex" where
  "export_pass exporter s = (case exporter of None \<Rightarrow> (Inr (), s)
     | Some h \<Rightarrow> (case on_orch (export h 200) s of (r, s1) \<Rightarrow>
         let rep = (case r of Inr x \<Rightarrow> x | Inl e \<Rightarrow> \<lparr>xr_delivered = 0, xr_blocked = Some ''EXPORT_ERROR''\<rparr>)
         in (Inr (), (fst s1\<lparr>sv_last_export := rep\<rparr>, snd s1))))"

definition tick :: "'w env \<Rightarrow> 'w http option \<Rightarrow> int \<Rightarrow> ('w svc, tick_report \<times> export_report) ex" where
  "tick v exporter now =
     bindX (\<lambda>s. (if sv_mode (fst s) = ''enforce'' then lifecycle_pass v now else returnX empty_report) s) (\<lambda>rep.
     bindX (add_report rep) (\<lambda>_.
     bindX (export_pass exporter) (\<lambda>_ s. (Inr (rep, sv_last_export (fst s)), s))))"

definition metrics :: "service \<Rightarrow> string" where
  "metrics sv = (
     let nl = [CHR 0x0A];
         counter = (\<lambda>(k, n). [''# TYPE cxyz_soc_response_'' @ k @ ''_total counter'', ''cxyz_soc_response_'' @ k @ ''_total '' @ show_int n]);
         blocked = (if truthy (xr_blocked (sv_last_export sv)) then 1 else 0 :: int)
     in join_with nl (concat (map counter (sort_key fst (sv_counters sv)))
       @ [''# TYPE cxyz_soc_response_audit_export_blocked gauge'', ''cxyz_soc_response_audit_export_blocked '' @ show_int blocked, []]))"

section \<open>The HTTP intake\<close>

definition MAX_COMMAND_BYTES :: nat where "MAX_COMMAND_BYTES = 16 * 1024"

fun is_runtime_error :: "exn \<Rightarrow> bool" where
  "is_runtime_error (RuntimeErr m) = True"
| "is_runtime_error (DeliveryErr code retryable st) = True"
| "is_runtime_error _ = False"

text \<open>\<open>Inl\<close> is an exception the handler lets escape: status 500.\<close>

definition api_submit :: "'w env \<Rightarrow> int \<Rightarrow> nat \<Rightarrow> pyval option \<Rightarrow> ('w svc, int \<times> pyval) ex" where
  "api_submit v now len json s = (
     if \<not> (0 < len \<and> len \<le> MAX_COMMAND_BYTES) then (Inr (413, PStr ''command body size is outside the permitted range''), s)
     else (case json of
         None \<Rightarrow> (Inr (400, PStr ''command must be JSON''), s)
       | Some command \<Rightarrow>
           if \<not> is_mapping command then (Inr (400, PStr ''command must be an object''), s)
           else (case accept v now command s of
               (Inl e, s1) \<Rightarrow> (if is_runtime_error e then Inr (503, PStr ''service not ready'') else Inl e, s1)
             | (Inr result, s1) \<Rightarrow> (Inr (if pget result ''accepted'' = PBool True then 202 else 422, result), s1))))"

definition api_status :: "string \<Rightarrow> ('w svc, int \<times> pyval) ex" where
  "api_status rid s = (case status rid s of
     (Inl e, s1) \<Rightarrow> (case rejected_text e of Some m \<Rightarrow> (Inr (404, PStr ''unknown response''), s1) | None \<Rightarrow> (Inl e, s1))
   | (Inr snapshot, s1) \<Rightarrow> (Inr (200, snapshot), s1))"

definition export_json :: "export_report \<Rightarrow> pyval" where
  "export_json x = PDict [(''delivered'', PInt (int (xr_delivered x))), (''blocked'', str_or_none (xr_blocked x))]"

definition api_ready :: "service \<Rightarrow> int \<times> pyval" where
  "api_ready sv = (let ok = sv_started sv \<and> \<not> truthy (xr_blocked (sv_last_export sv)) in
     (if ok then 200 else 503, PDict [(''ready'', PBool ok), (''mode'', PStr (sv_mode sv)), (''export'', export_json (sv_last_export sv))]))"

section \<open>The service only runs orchestrator operations\<close>

lemma always_snd: "always P m Q \<Longrightarrow> P s \<Longrightarrow> Q (snd (m s))"
  unfolding always_def by blast

lemma always_on_orch: "always P m P \<Longrightarrow> always (\<lambda>s. P (snd s)) (on_orch m) (\<lambda>s. P (snd s))"
  by (simp add: always_def on_orch_def split: prod.split) (metis snd_conv)

lemma always_service_field: "always (\<lambda>s. P (snd s)) (\<lambda>s. (Inr x, (f (fst s), snd s))) (\<lambda>s. P (snd s))"
  by (simp add: always_def)

lemma always_count: "always (\<lambda>s. P (snd s)) (count_op k n) (\<lambda>s. P (snd s))"
  by (simp add: always_def count_op_def)

lemma always_export:
  assumes world: "\<And>i d doc s. P s \<Longrightarrow> P (s\<lparr>o_world := snd (es_create h i d doc (o_world s))\<rparr>)"
    and mark: "\<And>s st fs i st'. P s \<Longrightarrow> o_persist s = PStore st fs \<Longrightarrow> mark_exported i st = Inr st' \<Longrightarrow> P (s\<lparr>o_persist := PStore st' fs\<rparr>)"
  shows "always P (export h limit) P"
proof -
  have e: "P (snd (export_event h ev s))" if "P s" for ev s
    using that world by (auto simp: export_event_def bindX_def on_world_op_def split: prod.split sum.split) (metis snd_conv)
  have m: "P (snd (mark_exported_op i s))" if "P s" for i s
    using that mark by (auto simp: mark_exported_op_def split: persist.split sum.split)
  have "P (snd (export_loop h es n s))" if "P s" for es n s
    using that
  proof (induction es arbitrary: n s)
    case (Cons a rest)
    obtain audit_id ev where a: "a = (audit_id, ev)" by fastforce
    obtain x s1 where x: "export_event h ev s = (x, s1)" by fastforce
    obtain y s2 where y: "mark_exported_op audit_id s1 = (y, s2)" by fastforce
    have 1: "P s1" using e [OF Cons.prems, of ev] x by simp
    have 2: "P s2" using m [OF 1, of audit_id] y by simp
    show ?case using 1 2 Cons.IH [OF 2] x y a by (auto split: sum.split option.split)
  qed simp
  then show ?thesis
    unfolding export_def
    by (intro always_bindX) (auto simp: always_def unexported_op_def split: persist.split)
qed

lemma always_apply_all:
  assumes "\<And>rid. always P (apply_op v now rid (Some (Aware now))) P"
  shows "always P (apply_all v now rids rep) P"
  by (induction rids arbitrary: rep) (simp_all add: always_bindX assms)

lemma always_verify_all:
  assumes "\<And>rid. always P (verify_op v now rid (Some (Aware now))) P"
  shows "always P (verify_all v now rids rep) P"
  by (induction rids arbitrary: rep) (simp_all add: always_bindX assms)

text \<open>
  What every orchestrator operation, every export write and every export mark keeps, the service keeps.
\<close>

lemma service_keeps:
  assumes ops: "\<And>q s. P s \<Longrightarrow> P (exec v now (Some (Aware now)) q s)"
    and world: "\<And>h i d doc s. exporter = Some h \<Longrightarrow> P s \<Longrightarrow> P (s\<lparr>o_world := snd (es_create h i d doc (o_world s))\<rparr>)"
    and mark: "\<And>s st fs i st'. P s \<Longrightarrow> o_persist s = PStore st fs \<Longrightarrow> mark_exported i st = Inr st' \<Longrightarrow> P (s\<lparr>o_persist := PStore st' fs\<rparr>)"
  shows "always (\<lambda>s. P (snd s)) (start v now) (\<lambda>s. P (snd s))"
    "always (\<lambda>s. P (snd s)) (accept v now c) (\<lambda>s. P (snd s))"
    "always (\<lambda>s. P (snd s)) (tick v exporter now) (\<lambda>s. P (snd s))"
proof -
  let ?P = "\<lambda>s. P (snd s)"
  have op: "always P (submit v now c' (Some (Aware now))) P" "always P (apply_op v now rid (Some (Aware now))) P"
    "always P (verify_op v now rid (Some (Aware now))) P" "always P (expire_due v now (Some (Aware now))) P"
    "always P (recover_pending v now (Some (Aware now))) P" "always P pending_apply P" "always P awaiting_verification P" for c' rid
    using ops [of _ "Submit c'"] ops [of _ "Apply rid"] ops [of _ "Verify rid"] ops [of _ Expire_due] ops [of _ Recover_pending]
    by (simp_all add: always_def exec_def exec_queries)
  show "always ?P (start v now) ?P"
    unfolding start_def by (intro always_bindX always_on_orch op always_count always_service_field)
  have sub: "P (snd (snd (on_orch (submit v now c (Some (Aware now))) s)))" if "P (snd s)" for s
    using always_snd [OF always_on_orch [OF op(1)]] that by blast
  have cnt: "snd (snd (bindX (count_op k n) (\<lambda>_. returnX x) s)) = snd s" for k n and x :: pyval and s :: "'a svc"
    by (simp add: bindX_def count_op_def)
  have "P (snd (snd (accept v now c s)))" if P: "P (snd s)" for s
  proof -
    obtain r s1 where r: "on_orch (submit v now c (Some (Aware now))) s = (r, s1)" by (meson surj_pair)
    have "P (snd s1)" using sub [OF P] r by simp
    then show ?thesis using P r by (auto simp: accept_def cnt split: sum.split option.split)
  qed
  then show "always ?P (accept v now c) ?P" unfolding always_def by blast
  have pass: "always ?P (lifecycle_pass v now) ?P"
    unfolding lifecycle_pass_def
    by (intro always_bindX always_on_orch always_apply_all always_verify_all op always_service_field)
      (auto simp: always_def Let_def intro!: always_bindX [unfolded always_def, rule_format, where P = ?P and Q = ?P] always_on_orch [OF op(5), unfolded always_def, rule_format])
  have ex: "always ?P (export_pass exporter) ?P"
  proof (cases exporter)
    case None
    then show ?thesis by (simp add: always_def export_pass_def)
  next
    case (Some h)
    have "always P (export h 200) P" by (rule always_export) (use world [OF Some] mark in blast)+
    then have "P (snd (snd (on_orch (export h 200) s)))" if "P (snd s)" for s
      using always_snd [OF always_on_orch] that by blast
    then show ?thesis using Some by (auto simp: always_def export_pass_def Let_def split: prod.split) (metis snd_conv)
  qed
  have "always ?P (\<lambda>s. (if sv_mode (fst s) = ''enforce'' then lifecycle_pass v now else returnX empty_report) s) ?P"
    using pass by (simp add: always_def)
  then show "always ?P (tick v exporter now) ?P"
    unfolding tick_def add_report_def
    by (intro always_bindX always_count ex) (simp_all add: always_def)
qed

section \<open>Properties\<close>


definition idle_elastic :: "'w http" where
  "idle_elastic = \<lparr>ht_origin = ''https://es'', ht_open = (\<lambda>rq w. (Unreachable, w)), ht_authorization = no_authorization\<rparr>"

definition demo_service :: service where
  "demo_service = \<lparr>sv_mode = ''enforce'', sv_recover_every = 6, sv_ticks = 0, sv_started = True, sv_counters = [],
     sv_last_export = \<lparr>xr_delivered = 0, xr_blocked = None\<rparr>\<rparr>"

lemma idle_request: "snd (request idle_elastic m p (Some doc) w) = w"
  by (auto simp: request_def idle_elastic_def no_authorization_def http_send_def bindX_def guardR_def read_reply_def)

lemma idle_create: "snd (es_create idle_elastic i d doc w) = w"
proof -
  obtain r where "request idle_elastic ''PUT'' (''/'' @ i @ ''/_create/'' @ quote d) (Some doc) w = (r, w)"
    by (metis idle_request prod.collapse)
  then show ?thesis by (auto simp: es_create_def bindX_def guardR_def split: sum.split)
qed


lemma observe_tick:
  assumes "sv_mode (fst s) \<noteq> ''enforce''"
  shows "tick v exporter now s = bindX (add_report empty_report) (\<lambda>_.
     bindX (export_pass exporter) (\<lambda>_ s. (Inr (empty_report, sv_last_export (fst s)), s))) s"
  using assms by (simp add: tick_def bindX_def)

definition same_books :: "'w orch \<Rightarrow> 'w orch \<Rightarrow> bool" where
  "same_books s s' \<longleftrightarrow> o_records s' = o_records s \<and> o_dedup s' = o_dedup s \<and> o_failed s' = o_failed s \<and>
     p_intents (o_persist s') = p_intents (o_persist s) \<and> (\<forall>rid. p_events (o_persist s') rid = p_events (o_persist s) rid)"

lemma same_books_export: "always (same_books s) (export h n) (same_books s)"
proof (rule always_export)
  show "same_books s (t\<lparr>o_world := w\<rparr>)" if "same_books s t" for t w using that by (simp add: same_books_def)
  show "same_books s (t\<lparr>o_persist := PStore st' fs\<rparr>)"
    if "same_books s t" "o_persist t = PStore st fs" "mark_exported i st = Inr st'" for t st fs i st'
    using that by (auto simp: same_books_def p_intents_def p_events_def s_events_def dest!: mark_exported_Inr)
qed

text \<open>
  Observe mode contains nothing. In observe mode a command is refused without reaching the
  orchestrator, and a tick neither depends on policies, keys and adapters nor changes a response, the
  audit trail or an apply intent: all it does is export.
\<close>

theorem observe_mode_inert:
  assumes "sv_mode (fst s) = ''observe''"
  shows "(\<exists>reply s1. accept v now c s = (Inr reply, s1) \<and> pget reply ''accepted'' = PBool False \<and> snd s1 = snd s) \<and>
    tick v exporter now s = tick v' exporter now s \<and> same_books (snd s) (snd (snd (tick v exporter now s)))"
proof -
  have m: "sv_mode (fst s) \<noteq> ''enforce''" using assms by simp
  let ?B = "\<lambda>t :: 'a svc. same_books (snd s) (snd t)"
  have "always ?B (export_pass exporter) ?B"
  proof (cases exporter)
    case (Some h)
    have "same_books (snd s) (snd (snd (on_orch (export h 200) t)))" if "same_books (snd s) (snd t)" for t
      using always_snd [OF always_on_orch [OF same_books_export]] that by blast
    then show ?thesis using Some by (auto simp: always_def export_pass_def Let_def split: prod.split) (metis snd_conv)
  qed (simp add: always_def export_pass_def)
  then have "always ?B (bindX (add_report empty_report) (\<lambda>_.
     bindX (export_pass exporter) (\<lambda>_ s. (Inr (empty_report, sv_last_export (fst s)), s)))) ?B"
    unfolding add_report_def by (intro always_bindX always_count) (simp_all add: always_def)
  then have "?B (snd (tick v exporter now s))"
    unfolding observe_tick [OF m] by (rule always_snd) (simp add: same_books_def)
  moreover have "tick v exporter now s = tick v' exporter now s" unfolding observe_tick [OF m] by (rule refl)
  ultimately show ?thesis
    using m by (simp add: accept_def bindX_def count_op_def refusal_def)
qed

theorem observe_mode_inert_witness:
  "same_books demo_boot (snd (snd (tick demo_env (Some idle_elastic) demo_now (demo_service\<lparr>sv_mode := ''observe''\<rparr>, demo_boot))))"
  using observe_mode_inert [where s = "(demo_service\<lparr>sv_mode := ''observe''\<rparr>, demo_boot)" and v = demo_env and v' = demo_env
      and exporter = "Some idle_elastic" and now = demo_now] by simp

section \<open>Export\<close>

lemma mark_exported_set:
  "mark_exported i st = Inr st' \<Longrightarrow> set (s_exported st') = insert i (set (s_exported st)) \<and> s_audit st' = s_audit st \<and> s_closed st' = s_closed st"
  by (auto simp: mark_exported_def exclusive_def split: if_splits)

lemma export_event_persist: "export_event h e s = (r, s') \<Longrightarrow> o_persist s' = o_persist s"
  by (auto simp: export_event_def bindX_def on_world_op_def split: prod.splits sum.splits)

lemma export_loop_marks:
  assumes "o_persist s = PStore st fs" "\<not> s_closed st" "export_loop h es n s = (r, s')"
  shows "\<exists>k st'. k \<le> length es \<and> o_persist s' = PStore st' fs \<and> set (s_exported st') = set (s_exported st) \<union> fst ` set (take k es) \<and>
    (\<forall>i < k. \<exists>t b t'. export_event h (snd (es ! i)) t = (Inr b, t')) \<and>
    (\<forall>rep. r = Inr rep \<longrightarrow> xr_delivered rep = n + k \<and> (xr_blocked rep = None \<longrightarrow> k = length es)) \<and>
    (\<forall>x. r = Inl x \<longrightarrow> delivery_code x = None)"
  using assms
proof (induction es arbitrary: n s st)
  case Nil
  then show ?case by auto
next
  case (Cons a es)
  obtain audit_id e where a: "a = (audit_id, e)" by fastforce
  obtain x s1 where x: "export_event h e s = (x, s1)" by fastforce
  have p1: "o_persist s1 = PStore st fs" using export_event_persist [OF x] Cons.prems(1) by simp
  show ?case
  proof (cases x)
    case (Inl ex)
    then show ?thesis
      using Cons.prems(3) a x p1 by (intro exI [of _ 0] exI [of _ st]) (auto split: option.splits)
  next
    case (Inr b)
    obtain st2 where m: "mark_exported audit_id st = Inr st2" using Cons.prems(2) by (auto simp: mark_exported_def exclusive_def)
    let ?s2 = "s1\<lparr>o_persist := PStore st2 fs\<rparr>"
    have "export_loop h es (Suc n) ?s2 = (r, s')"
      using Cons.prems(3) a x Inr p1 m by (simp add: mark_exported_op_def)
    moreover have st2: "set (s_exported st2) = insert audit_id (set (s_exported st))" "\<not> s_closed st2"
      using mark_exported_set [OF m] Cons.prems(2) by simp_all
    ultimately obtain k st' where k: "k \<le> length es" "o_persist s' = PStore st' fs"
      "set (s_exported st') = set (s_exported st2) \<union> fst ` set (take k es)"
      "\<forall>i < k. \<exists>t b t'. export_event h (snd (es ! i)) t = (Inr b, t')"
      "\<forall>rep. r = Inr rep \<longrightarrow> xr_delivered rep = Suc n + k \<and> (xr_blocked rep = None \<longrightarrow> k = length es)"
      "\<forall>x. r = Inl x \<longrightarrow> delivery_code x = None"
      using Cons.IH [of ?s2 st2 "Suc n"] by auto
    have "\<forall>i < Suc k. \<exists>t b t'. export_event h (snd ((a # es) ! i)) t = (Inr b, t')"
      using k(4) x Inr a by (auto simp: nth_Cons split: nat.split)
    moreover have "set (s_exported st') = set (s_exported st) \<union> fst ` set (take (Suc k) (a # es))" "Suc k \<le> length (a # es)"
      unfolding k(3) st2(1) a using k(1) by auto
    moreover have "\<forall>rep. r = Inr rep \<longrightarrow> xr_delivered rep = n + Suc k \<and> (xr_blocked rep = None \<longrightarrow> Suc k = length (a # es))"
    proof (intro allI impI)
      fix rep
      assume "r = Inr rep"
      then have "xr_delivered rep = Suc n + k \<and> (xr_blocked rep = None \<longrightarrow> k = length es)" using k(5) by blast
      then show "xr_delivered rep = n + Suc k \<and> (xr_blocked rep = None \<longrightarrow> Suc k = length (a # es))" by simp
    qed
    ultimately show ?thesis using k(2,6) by blast
  qed
qed

text \<open>
  Audit export is at least once and in order. An export of at most \<open>limit\<close> events marks a prefix of
  the oldest unexported ones, each of them only after Elasticsearch acknowledged a create with its own
  identifier; it reports exactly how many, and an export that is not blocked marked them all. An
  event whose delivery fails, and every later one, stays unexported.
\<close>

theorem export_in_order:
  assumes "o_persist s = PStore st fs" "\<not> s_closed st" "export h limit s = (r, s')"
  shows "\<exists>k st'. let es = unexported_events limit st in
    k \<le> length es \<and> o_persist s' = PStore st' fs \<and> set (s_exported st') = set (s_exported st) \<union> fst ` set (take k es) \<and>
    (\<forall>i < k. \<exists>t b t'. export_event h (snd (es ! i)) t = (Inr b, t')) \<and>
    (\<forall>rep. r = Inr rep \<longrightarrow> xr_delivered rep = k \<and> (xr_blocked rep = None \<longrightarrow> k = length es))"
proof -
  have "export_loop h (unexported_events limit st) 0 s = (r, s')"
    using assms by (simp add: export_def bindX_def unexported_op_def exclusive_def)
  from export_loop_marks [OF assms(1,2) this] show ?thesis by (auto simp: Let_def)
qed

theorem export_in_order_witness:
  "\<exists>r s' k st'. export idle_elastic 200 demo_boot = (r, s') \<and> k \<le> length (unexported_events 200 (empty_store\<lparr>s_claimed := True\<rparr>)) \<and>
     o_persist s' = PStore st' []"
proof -
  obtain r s' where e: "export idle_elastic 200 demo_boot = (r, s')" by fastforce
  have b: "o_persist demo_boot = PStore (empty_store\<lparr>s_claimed := True\<rparr>) []" "\<not> s_closed (empty_store\<lparr>s_claimed := True\<rparr>)"
    by (simp_all add: demo_boot_def empty_store_def)
  from export_in_order [OF b e] show ?thesis using e by (auto simp: Let_def)
qed

section \<open>A held target stops the tick\<close>

definition queued :: "resp \<Rightarrow> bool" where
  "queued r \<longleftrightarrow> r_state r = Requested \<and> r_authorized r \<and> r_reference r = None \<and> r_pending r = None"

text \<open>
  A queued command for a held target stops the whole tick. When the first queued response is
  authorized and unexpired but another response still holds its target, \<^verbatim>\<open>apply\<close> raises, and \<^verbatim>\<open>tick\<close> ends
  there: nothing is verified, no expired containment is reverted, nothing is recovered or exported,
  and the same happens on every tick until the queued command expires.
\<close>

theorem held_target_stops_tick:
  assumes "sv_mode sv = ''enforce''" "\<not> o_failed s" "o_persist s = PStore st fs" "\<not> s_closed st"
    and "filter queued (dict_values (o_records s)) = r # rest" "dict_get (o_records s) (r_id r) = Some r"
    and "now < r_expires r" "reauthorize v r now = Inr ()" "adapter_for v r = Inr a"
    and "target_available r (dict_values (o_records s)) = Inl (CommandRejected m)"
  shows "tick v exporter now (sv, s) = (Inl (CommandRejected m), (sv, s))"
proof -
  have q: "queued r" using assms(5) by (metis filter_eq_Cons_iff)
  have p: "pending_apply s = (Inr (r_id r # map r_id rest), s)"
    using assms(2-5) by (simp add: pending_apply_def serialized_def queued_def [abs_def])
  have "apply_op v now (r_id r) (Some (Aware now)) s = (Inl (CommandRejected m), s)"
    using assms(2-4,6-10) q
    by (simp add: apply_op_def serialized_def as_utc_def get_record_def bindX_def queued_def)
  then show ?thesis using assms(1) p by (simp add: tick_def lifecycle_pass_def on_orch_def bindX_def)
qed

theorem held_target_stops_tick_witness:
  "\<exists>s r0 m. r0 \<in> set (dict_values (o_records s)) \<and> due r0 demo_now \<and>
     tick demo_env None demo_now (demo_service, s) = (Inl (CommandRejected m), (demo_service, s))"
proof -
  obtain cmd where c: "validate_command demo_env cmd demo_now = Inr cmd" "target_allowed demo_env cmd = Inr ()"
    "pget cmd ''action'' = PStr ''block_ip''" "pget cmd ''ttl_seconds'' = PInt 600"
    "pget cmd ''target'' = PDict [(''type'', PStr ''ip''), (''value'', PStr ''8.8.8.8'')]"
    by (rule demo_command) blast
  let ?r = "requested demo_env cmd demo_now True"
  let ?held = "?r\<lparr>r_id := ''other'', r_state := Applied, r_reference := Some ''ref'', r_expires := demo_now\<rparr>"
  let ?s = "demo_boot\<lparr>o_records := [(''other'', ?held), (r_id ?r, ?r)]\<rparr>"
  let ?st = "empty_store\<lparr>s_claimed := True\<rparr>"
  have id: "r_id ?r \<noteq> ''other''" by (simp add: response_id_def)
  have b: "sv_mode demo_service = ''enforce''" "\<not> o_failed ?s" "o_persist ?s = PStore ?st []" "\<not> s_closed ?st"
    by (simp_all add: demo_service_def demo_boot_def empty_store_def)
  have q: "filter queued (dict_values (o_records ?s)) = ?r # []" "dict_get (o_records ?s) (r_id ?r) = Some ?r"
    using id by (simp_all add: queued_def) (simp add: requested_def)
  have t: "demo_now < r_expires ?r" using c(4) by (simp add: seconds_def ttl_of_def)
  have au: "reauthorize demo_env ?r demo_now = Inr ()" using c by (simp add: reauthorize_def)
  have ad: "adapter_for demo_env ?r = Inr (logged demo_block)" using c(3) by (simp add: adapter_for_def sget_def demo_env_def)
  have "map_option show_ip (ip_address ''8.8.8.8'') = Some ''8.8.8.8''" by code_simp
  then obtain x where ip: "ip_address ''8.8.8.8'' = Some x" by blast
  have h: "target_available ?r (dict_values (o_records ?s)) = Inl (CommandRejected ''target has an active or unresolved containment operation'')"
    using id c(5) ip by (simp add: target_identity_def sget_def)
  have "due ?held demo_now" by (simp add: due_def)
  then show ?thesis using held_target_stops_tick [OF b q t au ad h, of None] by (intro exI [of _ ?s] exI [of _ ?held]) auto
qed

end
