(* ===== verification/Enforcer.thy ===== *)
theory Enforcer
  imports Transports
begin

text \<open>
  \<^verbatim>\<open>docker/enforcer/nft_enforcer.py\<close>: the agent on a firewall node that turns three HTTP operations into
  calls of the \<^verbatim>\<open>nft\<close> program on one fixed pair of sets. The program is the field \<open>en_run\<close> of the
  enforcer: it gets an argument vector and the world and returns a finished process or raises
  (\<^verbatim>\<open>TimeoutExpired\<close>, \<^verbatim>\<open>OSError\<close>). Its standard output is represented by what \<^verbatim>\<open>json.loads\<close> makes of it.

  An exception the handler does not catch (\<open>Inl\<close> in its result) ends the connection without a reply.
  TLS, the client certificate check of the server socket and the command line are not modelled.
\<close>

section \<open>Python conversions\<close>

definition truncate :: "rat \<Rightarrow> int" where
  "truncate r = (if r < 0 then - \<lfloor>- r\<rfloor> else \<lfloor>r\<rfloor>)"

text \<open>\<^verbatim>\<open>int(s)\<close>: white space around, a sign, digits with single underscores between them.\<close>

definition int_of_text :: "string \<Rightarrow> int res" where
  "int_of_text s = (
     let t = strip s;
         negative = starts_with ''-'' t;
         body = (if negative \<or> starts_with ''+'' t then tl t else t);
         pieces = split_on (CHR ''_'') body
     in if list_all (\<lambda>p. p \<noteq> [] \<and> list_all is_digit p) pieces
        then Inr (if negative then - int (read_nat (concat pieces)) else int (read_nat (concat pieces)))
        else Inl (ValueError ''invalid literal for int() with base 10''))"

fun py_int :: "pyval \<Rightarrow> int res" where
  "py_int (PInt i) = Inr i"
| "py_int (PBool b) = Inr (if b then 1 else 0)"
| "py_int (PFloat (Fin r)) = Inr (truncate r)"
| "py_int (PFloat NaN) = Inl (ValueError ''cannot convert float NaN to integer'')"
| "py_int (PFloat _) = Inl OverflowErr"
| "py_int (PStr s) = int_of_text s"
| "py_int _ = Inl (TypeErr ''int() argument must be a string or a real number'')"

text \<open>\<^verbatim>\<open>str.isalnum\<close> on code points below 256.\<close>

definition is_alnum_char :: "char \<Rightarrow> bool" where
  "is_alnum_char c = (let n = of_char c :: nat in
     48 \<le> n \<and> n \<le> 57 \<or> 65 \<le> n \<and> n \<le> 90 \<or> 97 \<le> n \<and> n \<le> 122 \<or> n \<in> {170, 178, 179, 181, 185, 186, 188, 189, 190}
     \<or> 192 \<le> n \<and> n \<noteq> 215 \<and> n \<noteq> 247)"

definition is_alnum :: "string \<Rightarrow> bool" where
  "is_alnum s = (s \<noteq> [] \<and> list_all is_alnum_char s)"

text \<open>\<^verbatim>\<open>ipaddress.ip_address(value)\<close> of a JSON value: integers are packed addresses.\<close>

definition ip_of_value :: "pyval \<Rightarrow> ip option" where
  "ip_of_value v = (
     let packed = (\<lambda>i. if i < 0 then None else if i < 2 ^ 32 then Some (IPv4 i)
       else if i < 2 ^ 128 then Some (IPv6 i None) else None)
     in case v of PStr s \<Rightarrow> ip_address s | PInt i \<Rightarrow> packed i | PBool b \<Rightarrow> packed (if b then 1 else 0) | _ \<Rightarrow> None)"

section \<open>The enforcer\<close>

record completed =
  cp_returncode :: int
  cp_stdout :: "pyval option"
  cp_stderr :: string

record 'w enforcer =
  en_nft :: string
  en_family :: string
  en_table :: string
  en_set :: string
  en_run :: "string list \<Rightarrow> ('w, completed) ex"

definition MAX_BODY :: int where "MAX_BODY = 4096"

definition DEFAULT_LIFETIME :: int where "DEFAULT_LIFETIME = 3600"

definition MAX_LIFETIME :: int where "MAX_LIFETIME = 86400 + 600"

definition enforcer_init :: "string \<Rightarrow> string \<Rightarrow> string \<Rightarrow> string \<Rightarrow> (string list \<Rightarrow> ('w, completed) ex) \<Rightarrow> 'w enforcer res" where
  "enforcer_init nft family table set_name run =
     bindR (guardR (list_all (\<lambda>value. is_alnum (filter (\<lambda>c. c \<noteq> CHR ''_'') value)) [family, table, set_name])
       (ValueError ''family, table and set names must be alphanumeric/underscore'')) (\<lambda>_.
     Inr \<lparr>en_nft = nft, en_family = family, en_table = table, en_set = set_name, en_run = run\<rparr>)"

definition never_blocked :: "ip \<Rightarrow> bool" where
  "never_blocked ip = (is_unspecified ip \<or> is_loopback ip \<or> is_multicast ip \<or> is_link_local ip \<or> is_reserved ip)"

definition en_parse :: "pyval \<Rightarrow> ip res" where
  "en_parse address = (case address of
     PStr s \<Rightarrow> (case ip_address s of
         None \<Rightarrow> Inl (ValueError ''does not appear to be an IPv4 or IPv6 address'')
       | Some ip \<Rightarrow> if never_blocked ip then Inl (ValueError ''special-use addresses are never blocked'') else Inr ip)
   | _ \<Rightarrow> Inl (ValueError ''address must be a string''))"

fun en_set_of :: "'w enforcer \<Rightarrow> ip \<Rightarrow> string" where
  "en_set_of en (IPv4 v) = en_set en"
| "en_set_of en (IPv6 v z) = en_set en @ ''6''"

definition en_base :: "'w enforcer \<Rightarrow> string \<Rightarrow> ip \<Rightarrow> string list" where
  "en_base en verb ip = [en_nft en, verb, ''element'', en_family en, en_table en, en_set_of en ip]"

definition add_argv :: "'w enforcer \<Rightarrow> ip \<Rightarrow> int \<Rightarrow> string list" where
  "add_argv en ip secs = en_base en ''add'' ip @ [''{ '' @ show_ip ip @ '' timeout '' @ show_int secs @ ''s }'']"

definition delete_argv :: "'w enforcer \<Rightarrow> ip \<Rightarrow> string list" where
  "delete_argv en ip = en_base en ''delete'' ip @ [''{ '' @ show_ip ip @ '' }'']"

definition en_add :: "'w enforcer \<Rightarrow> pyval \<Rightarrow> pyval \<Rightarrow> ('w, unit) ex" where
  "en_add en address lifetime =
     bindX (liftX (en_parse address)) (\<lambda>ip.
     bindX (liftX (if lifetime = PNone then Inr DEFAULT_LIFETIME else py_int lifetime)) (\<lambda>secs.
     bindX (liftX (guardR (60 \<le> secs \<and> secs \<le> MAX_LIFETIME)
       (ValueError ''max_lifetime_seconds is outside the permitted range''))) (\<lambda>_.
     bindX (en_run en (add_argv en ip secs)) (\<lambda>result.
     if cp_returncode result \<noteq> 0 then raiseX (RuntimeErr ''nft add failed'') else returnX ()))))"

definition en_remove :: "'w enforcer \<Rightarrow> pyval \<Rightarrow> ('w, unit) ex" where
  "en_remove en address =
     bindX (liftX (en_parse address)) (\<lambda>ip.
     bindX (en_run en (delete_argv en ip)) (\<lambda>result.
     if cp_returncode result \<noteq> 0 \<and> \<not> contains_sub ''No such file'' (cp_stderr result)
        \<and> \<not> contains_sub ''does not exist'' (cp_stderr result)
     then raiseX (RuntimeErr ''nft delete failed'') else returnX ()))"

fun search_elements :: "ip \<Rightarrow> pyval list \<Rightarrow> bool res" where
  "search_elements ip [] = Inr False"
| "search_elements ip (element # rest) =
     bindR (if is_mapping element then bindR (json_get element ''elem'' (PDict [])) (\<lambda>e. json_get e ''val'' PNone)
       else Inr element) (\<lambda>value.
     if value \<noteq> PNone \<and> ip_of_value value = Some ip then Inr True else search_elements ip rest)"

fun search_items :: "ip \<Rightarrow> pyval list \<Rightarrow> bool res" where
  "search_items ip [] = Inr False"
| "search_items ip (item # rest) =
     bindR (json_get item ''set'' (PDict [])) (\<lambda>s. bindR (json_get s ''elem'' (PList [])) (\<lambda>elems.
     bindR (py_iter elems) (\<lambda>es. bindR (search_elements ip es) (\<lambda>found.
     if found then Inr True else search_items ip rest))))"

definition en_list :: "'w enforcer \<Rightarrow> ip \<Rightarrow> string list" where
  "en_list en ip = [en_nft en, ''-j'', ''list'', ''set'', en_family en, en_table en, en_set_of en ip]"

definition en_contains :: "'w enforcer \<Rightarrow> pyval \<Rightarrow> ('w, bool) ex" where
  "en_contains en address =
     bindX (liftX (en_parse address)) (\<lambda>ip.
     bindX (en_run en (en_list en ip)) (\<lambda>result.
     if cp_returncode result \<noteq> 0 then raiseX (RuntimeErr ''nft list failed'')
     else liftX (case cp_stdout result of None \<Rightarrow> Inl (ValueError ''Expecting value'')
       | Some doc \<Rightarrow> bindR (json_get doc ''nftables'' (PList [])) (\<lambda>v. bindR (py_iter v) (search_items ip)))))"

section \<open>The handler\<close>

record post =
  po_path :: string
  po_length :: "string option"
  po_body :: "pyval option"
  po_subject :: "(string \<times> string) list list"

definition client_name :: "(string \<times> string) list list \<Rightarrow> string option" where
  "client_name subject = map_of (concat subject) ''commonName''"

definition error_body :: "string \<Rightarrow> pyval" where
  "error_body msg = PDict [(''ok'', PBool False), (''error'', PStr msg)]"

definition ok_body :: pyval where
  "ok_body = PDict [(''ok'', PBool True)]"

definition post_body :: "post \<Rightarrow> pyval res" where
  "post_body rq = (case po_body rq of
     Some (PDict kvs) \<Rightarrow> Inr (PDict kvs) | Some v \<Rightarrow> Inl (ValueError ''body must be an object'')
   | None \<Rightarrow> Inl (ValueError ''Expecting value''))"

definition dispatch :: "'w enforcer \<Rightarrow> string \<Rightarrow> pyval \<Rightarrow> ('w, int \<times> pyval) ex" where
  "dispatch en path body = (let address = pget body ''address'' in
     if path = ''/v1/add'' then bindX (en_add en address (pget body ''max_lifetime_seconds'')) (\<lambda>_. returnX (200, ok_body))
     else if path = ''/v1/remove'' then bindX (en_remove en address) (\<lambda>_. returnX (200, ok_body))
     else if path = ''/v1/contains'' then bindX (en_contains en address) (\<lambda>b. returnX (200, PDict [(''present'', PBool b)]))
     else returnX (404, error_body ''unknown operation''))"

text \<open>The \<^verbatim>\<open>except\<close> clauses; anything else escapes.\<close>

fun caught :: "exn \<Rightarrow> (int \<times> pyval) res" where
  "caught (ValueError m) = Inr (400, error_body (take 120 m))"
| "caught (TypeErr m) = Inr (400, error_body (take 120 m))"
| "caught (RuntimeErr m) = Inr (502, error_body ''enforcement backend error'')"
| "caught TimeoutErr = Inr (502, error_body ''enforcement backend error'')"
| "caught OSErr = Inr (502, error_body ''enforcement backend error'')"
| "caught e = Inl e"

definition do_POST :: "'w enforcer \<Rightarrow> string list \<Rightarrow> post \<Rightarrow> ('w, int \<times> pyval) ex" where
  "do_POST en allowed_clients rq w = (
     if allowed_clients \<noteq> [] \<and> (case client_name (po_subject rq) of None \<Rightarrow> True | Some n \<Rightarrow> n \<notin> set allowed_clients)
     then (Inr (403, error_body ''client not permitted''), w)
     else (case bindX (liftX (int_of_text (case po_length rq of None \<Rightarrow> ''0'' | Some h \<Rightarrow> h))) (\<lambda>n.
               if \<not> (0 < n \<and> n \<le> MAX_BODY) then returnX (400, error_body ''bad length'')
               else bindX (liftX (post_body rq)) (dispatch en (po_path rq))) w of
         (Inr reply, w') \<Rightarrow> (Inr reply, w')
       | (Inl e, w') \<Rightarrow> (caught e, w')))"

definition do_GET :: "string \<Rightarrow> int \<times> pyval" where
  "do_GET path = (if path = ''/healthz'' then (200, ok_body) else (404, PDict [(''ok'', PBool False)]))"

section \<open>The surface of the agent\<close>

definition permitted :: "'w enforcer \<Rightarrow> string list \<Rightarrow> bool" where
  "permitted en argv \<longleftrightarrow> (\<exists>ip. \<not> never_blocked ip \<and> (argv = en_list en ip \<or> argv = delete_argv en ip \<or>
     (\<exists>secs. 60 \<le> secs \<and> secs \<le> MAX_LIFETIME \<and> argv = add_argv en ip secs)))"

lemma en_parse_Inr: "en_parse v = Inr ip \<longleftrightarrow> (\<exists>s. v = PStr s \<and> ip_address s = Some ip \<and> \<not> never_blocked ip)"
  by (cases v) (auto simp: en_parse_def split: option.splits)

lemma en_argv_run [simp]:
  "en_list (en\<lparr>en_run := run\<rparr>) = en_list en" "delete_argv (en\<lparr>en_run := run\<rparr>) = delete_argv en"
  "add_argv (en\<lparr>en_run := run\<rparr>) = add_argv en"
proof -
  have "en_set_of (en\<lparr>en_run := run\<rparr>) ip = en_set_of en ip" for ip by (cases ip) simp_all
  then show "en_list (en\<lparr>en_run := run\<rparr>) = en_list en" "delete_argv (en\<lparr>en_run := run\<rparr>) = delete_argv en"
    "add_argv (en\<lparr>en_run := run\<rparr>) = add_argv en"
    by (simp_all add: fun_eq_iff en_base_def en_list_def add_argv_def delete_argv_def)
qed

lemma bindX_liftX_cong: "(\<And>x. r = Inr x \<Longrightarrow> f x = g x) \<Longrightarrow> bindX (liftX r) f = bindX (liftX r) g"
  by (cases r) (simp_all add: fun_eq_iff bindX_def)

lemma operations_permitted:
  assumes "\<forall>argv. permitted en argv \<longrightarrow> run argv = en_run en argv"
  shows "en_add (en\<lparr>en_run := run\<rparr>) address lifetime = en_add en address lifetime"
    "en_remove (en\<lparr>en_run := run\<rparr>) address = en_remove en address"
    "en_contains (en\<lparr>en_run := run\<rparr>) address = en_contains en address"
proof -
  have p: "\<not> never_blocked ip \<Longrightarrow> permitted en (en_list en ip)" "\<not> never_blocked ip \<Longrightarrow> permitted en (delete_argv en ip)"
    "\<not> never_blocked ip \<Longrightarrow> 60 \<le> s \<Longrightarrow> s \<le> MAX_LIFETIME \<Longrightarrow> permitted en (add_argv en ip s)" for ip s
    by (auto simp: permitted_def)
  have r: "run argv = en_run en argv" if "permitted en argv" for argv using assms that by blast
  show "en_add (en\<lparr>en_run := run\<rparr>) address lifetime = en_add en address lifetime"
    unfolding en_add_def en_argv_run by (intro bindX_liftX_cong) (auto simp: en_parse_Inr r p)
  show "en_remove (en\<lparr>en_run := run\<rparr>) address = en_remove en address"
    unfolding en_remove_def en_argv_run by (intro bindX_liftX_cong) (auto simp: en_parse_Inr r p)
  show "en_contains (en\<lparr>en_run := run\<rparr>) address = en_contains en address"
    unfolding en_contains_def en_argv_run by (intro bindX_liftX_cong) (auto simp: en_parse_Inr r p)
qed

section \<open>From the client to the kernel\<close>

text \<open>
  The network between the client and the agent: a request may get lost before it arrives, a reply on
  its way back; \<open>bytes\<close> is the number of bytes of a document.
\<close>

datatype fate = Delivered | Request_lost | Reply_lost

definition enforcer_net :: "(http_request \<Rightarrow> 'w \<Rightarrow> fate) \<Rightarrow> (pyval \<Rightarrow> nat) \<Rightarrow> 'w enforcer \<Rightarrow> string list \<Rightarrow>
  (string \<times> string) list list \<Rightarrow> string \<Rightarrow> http_request \<Rightarrow> 'w \<Rightarrow> http_reply \<times> 'w" where
  "enforcer_net link bytes en allowed subject origin rq w =
     (if link rq w = Request_lost \<or> rq_method rq \<noteq> ''POST'' \<or> \<not> starts_with origin (rq_url rq) then (Unreachable, w)
      else (case do_POST en allowed \<lparr>po_path = drop (length origin) (rq_url rq),
          po_length = map_option (\<lambda>d. show_nat (bytes d)) (rq_json rq), po_body = rq_json rq, po_subject = subject\<rparr> w of
        (Inl e, w') \<Rightarrow> (Unreachable, w')
      | (Inr (status, body), w') \<Rightarrow>
          (if link rq w = Reply_lost then Unreachable
           else Response \<lparr>re_status = status, re_length = bytes body, re_remaining = None, re_body = Some body\<rparr>, w')))"

text \<open>What \<^verbatim>\<open>nft -j list set\<close> prints: elements with a timeout are objects, others plain text.\<close>

definition nft_element :: "ip \<times> bool \<Rightarrow> pyval" where
  "nft_element x = (if snd x then PDict [(''elem'', PDict [(''val'', PStr (show_ip (fst x))), (''timeout'', PInt 3600)])]
     else PStr (show_ip (fst x)))"

definition nft_listing :: "(ip \<times> bool) list \<Rightarrow> pyval" where
  "nft_listing xs = PDict [(''nftables'', PList [PDict [(''metainfo'', PDict [])],
     PDict [(''set'', PDict (if xs = [] then [] else [(''elem'', PList (map nft_element xs))]))]])]"

text \<open>
  The documented behaviour of \<^verbatim>\<open>nft\<close> on the sets of the agent, whose elements are \<open>mem w\<close>: a call that
  fails or times out may have had its effect or not.
\<close>

definition nft_sound :: "'w enforcer \<Rightarrow> ('w \<Rightarrow> ip set) \<Rightarrow> bool" where
  "nft_sound en mem \<longleftrightarrow>
     (\<forall>w. \<forall>x \<in> mem w. ip_address (show_ip x) = Some x) \<and>
     (\<forall>ip secs w r w'. ip_address (show_ip ip) = Some ip \<longrightarrow> 0 \<le> secs \<longrightarrow> en_run en (add_argv en ip secs) w = (r, w') \<longrightarrow>
        mem w' = insert ip (mem w) \<or> mem w' = mem w \<and> \<not> (\<exists>c. r = Inr c \<and> cp_returncode c = 0)) \<and>
     (\<forall>ip w r w'. ip_address (show_ip ip) = Some ip \<longrightarrow> en_run en (delete_argv en ip) w = (r, w') \<longrightarrow>
        mem w' = mem w - {ip} \<or> mem w' = mem w \<and> \<not> (\<exists>c. r = Inr c \<and> (cp_returncode c = 0 \<or>
          contains_sub ''No such file'' (cp_stderr c) \<or> contains_sub ''does not exist'' (cp_stderr c)))) \<and>
     (\<forall>ip w r w'. ip_address (show_ip ip) = Some ip \<longrightarrow> en_run en (en_list en ip) w = (r, w') \<longrightarrow> mem w' = mem w \<and>
        (\<forall>c. r = Inr c \<and> cp_returncode c = 0 \<longrightarrow> (\<exists>xs. cp_stdout c = Some (nft_listing xs) \<and>
           (ip \<in> fst ` set xs \<longleftrightarrow> ip \<in> mem w) \<and> (\<forall>x \<in> set xs. ip_address (show_ip (fst x)) = Some (fst x)))))"

lemma search_elements_listing:
  "(\<forall>x \<in> set xs. ip_address (show_ip (fst x)) = Some (fst x)) \<Longrightarrow>
   search_elements ip (map nft_element xs) = Inr (ip \<in> fst ` set xs)"
  by (induction xs) (auto simp: nft_element_def json_get_def ip_of_value_def)

lemma search_listing:
  assumes "\<forall>x \<in> set xs. ip_address (show_ip (fst x)) = Some (fst x)"
  shows "bindR (json_get (nft_listing xs) ''nftables'' (PList [])) (\<lambda>v. bindR (py_iter v) (search_items ip)) = Inr (ip \<in> fst ` set xs)"
  using search_elements_listing [OF assms, of ip] by (auto simp: nft_listing_def json_get_def)

text \<open>One post: what an operation did is what its reply says.\<close>

lemma do_POST_cases:
  assumes "do_POST en allowed rq w = (r, w')"
  obtains "w' = w" "\<And>b. r \<noteq> Inr (200, b)"
  | body r1 where "po_body rq = Some body" "is_mapping body" "dispatch en (po_path rq) body w = (r1, w')" "\<And>b. r = Inr (200, b) \<Longrightarrow> r1 = Inr (200, b)"
proof -
  have c: "caught e \<noteq> Inr (200, b)" for e b by (cases e) simp_all
  obtain n where n: "int_of_text (case po_length rq of None \<Rightarrow> ''0'' | Some h \<Rightarrow> h) = n" by blast
  show thesis
  proof (cases "\<exists>k body. n = Inr k \<and> 0 < k \<and> k \<le> MAX_BODY \<and> post_body rq = Inr body \<and>
      \<not> (allowed \<noteq> [] \<and> (case client_name (po_subject rq) of None \<Rightarrow> True | Some n \<Rightarrow> n \<notin> set allowed))")
    case True
    then obtain k body where k: "n = Inr k" "0 < k" "k \<le> MAX_BODY" "post_body rq = Inr body"
      "\<not> (allowed \<noteq> [] \<and> (case client_name (po_subject rq) of None \<Rightarrow> True | Some n \<Rightarrow> n \<notin> set allowed))" by blast
    obtain r1 w1 where d: "dispatch en (po_path rq) body w = (r1, w1)" by fastforce
    have "po_body rq = Some body" "is_mapping body"
      using k(4) by (auto simp: post_body_def split: option.splits pyval.splits)
    moreover have "w1 = w'" "\<And>b. r = Inr (200, b) \<Longrightarrow> r1 = Inr (200, b)"
      using assms k n d c unfolding do_POST_def by (auto simp: bindX_def split: sum.splits)
    ultimately show thesis using that(2) d by blast
  next
    case False
    then have "w' = w" "\<And>b. r \<noteq> Inr (200, b)"
      using assms n c unfolding do_POST_def
      by (auto simp: bindX_def split: sum.splits if_splits)
    then show thesis using that(1) by blast
  qed
qed

definition agent_http :: "(http_request \<Rightarrow> 'w \<Rightarrow> fate) \<Rightarrow> (pyval \<Rightarrow> nat) \<Rightarrow> 'w enforcer \<Rightarrow> string list \<Rightarrow>
  (string \<times> string) list list \<Rightarrow> string \<Rightarrow> 'w http" where
  "agent_http link bytes en allowed subject origin = \<lparr>ht_origin = origin,
     ht_open = enforcer_net link bytes en allowed subject origin, ht_authorization = no_authorization\<rparr>"

lemma agent_request:
  assumes "request (agent_http link bytes en allowed subject origin) ''POST'' path (Some doc) w = (r, w')"
    and "relative_path path" "json_finite doc"
  obtains "w' = w" "\<And>b. r \<noteq> Inr (200, b)"
  | body r1 where "body = doc" "is_mapping doc" "dispatch en path body w = (r1, w')" "\<And>b. r = Inr (200, b) \<Longrightarrow> r1 = Inr (200, b)"
proof -
  let ?rq = "\<lparr>po_path = path, po_length = Some (show_nat (bytes doc)), po_body = Some doc, po_subject = subject\<rparr>"
  let ?h = "agent_http link bytes en allowed subject origin"
  obtain hd where "http_send True ?h \<lparr>rq_method = ''POST'', rq_url = origin @ path, rq_headers = hd, rq_json = Some doc, rq_form = None\<rparr> w = (r, w')"
    using assms by (auto simp: request_def agent_http_def no_authorization_def bindX_def)
  then obtain reply where n: "enforcer_net link bytes en allowed subject origin
      \<lparr>rq_method = ''POST'', rq_url = origin @ path, rq_headers = hd, rq_json = Some doc, rq_form = None\<rparr> w = (reply, w')"
    and r: "r = read_reply True reply"
    by (auto simp: http_send_def agent_http_def split: prod.splits)
  obtain r0 w0 where p: "do_POST en allowed ?rq w = (r0, w0)" by fastforce
  show thesis
  proof (cases "reply = Unreachable \<and> w' = w")
    case True
    then show thesis using that(1) r by (simp add: read_reply_def)
  next
    case False
    then have e: "w' = w0" "\<And>b. r = Inr (200, b) \<Longrightarrow> r0 = Inr (200, b)"
      using n p r by (auto simp: enforcer_net_def read_reply_Inr read_reply_def split: if_splits sum.splits prod.splits)
    show thesis
    proof (rule do_POST_cases [OF p])
      assume "w0 = w" "\<And>b. r0 \<noteq> Inr (200, b)"
      then show thesis using that(1) e by blast
    next
      fix body r1
      assume "po_body ?rq = Some body" "is_mapping body" "dispatch en (po_path ?rq) body w = (r1, w0)" "\<And>b. r0 = Inr (200, b) \<Longrightarrow> r1 = Inr (200, b)"
      then show thesis using that(2) [of doc r1] e by simp
    qed
  qed
qed

lemma nft_sound_elem: "nft_sound en mem \<Longrightarrow> x \<in> mem w \<Longrightarrow> ip_address (show_ip x) = Some x"
  unfolding nft_sound_def by (drule conjunct1) blast

lemma nft_soundD:
  assumes "nft_sound en mem" "ip_address (show_ip ip) = Some ip"
  shows "0 \<le> secs \<Longrightarrow> en_run en (add_argv en ip secs) w = (r, w') \<Longrightarrow>
       mem w' = insert ip (mem w) \<or> mem w' = mem w \<and> \<not> (\<exists>c. r = Inr c \<and> cp_returncode c = 0)"
    "en_run en (delete_argv en ip) w = (r, w') \<Longrightarrow>
       mem w' = mem w - {ip} \<or> mem w' = mem w \<and> \<not> (\<exists>c. r = Inr c \<and> (cp_returncode c = 0 \<or>
          contains_sub ''No such file'' (cp_stderr c) \<or> contains_sub ''does not exist'' (cp_stderr c)))"
    "en_run en (en_list en ip) w = (r, w') \<Longrightarrow> mem w' = mem w"
    "en_run en (en_list en ip) w = (Inr c, w') \<Longrightarrow> cp_returncode c = 0 \<Longrightarrow>
       \<exists>xs. cp_stdout c = Some (nft_listing xs) \<and> (ip \<in> fst ` set xs \<longleftrightarrow> ip \<in> mem w) \<and>
         (\<forall>x \<in> set xs. ip_address (show_ip (fst x)) = Some (fst x))"
proof -
  note laws = assms(1) [unfolded nft_sound_def]
  show "0 \<le> secs \<Longrightarrow> en_run en (add_argv en ip secs) w = (r, w') \<Longrightarrow>
       mem w' = insert ip (mem w) \<or> mem w' = mem w \<and> \<not> (\<exists>c. r = Inr c \<and> cp_returncode c = 0)"
    using conjunct1 [OF conjunct2 [OF laws]] assms(2) by blast
  show "en_run en (delete_argv en ip) w = (r, w') \<Longrightarrow>
       mem w' = mem w - {ip} \<or> mem w' = mem w \<and> \<not> (\<exists>c. r = Inr c \<and> (cp_returncode c = 0 \<or>
          contains_sub ''No such file'' (cp_stderr c) \<or> contains_sub ''does not exist'' (cp_stderr c)))"
    using conjunct1 [OF conjunct2 [OF conjunct2 [OF laws]]] assms(2) by blast
  note lst = conjunct2 [OF conjunct2 [OF conjunct2 [OF laws]]]
  show "en_run en (en_list en ip) w = (r, w') \<Longrightarrow> mem w' = mem w" using lst assms(2) by blast
  show "en_run en (en_list en ip) w = (Inr c, w') \<Longrightarrow> cp_returncode c = 0 \<Longrightarrow>
       \<exists>xs. cp_stdout c = Some (nft_listing xs) \<and> (ip \<in> fst ` set xs \<longleftrightarrow> ip \<in> mem w) \<and>
         (\<forall>x \<in> set xs. ip_address (show_ip (fst x)) = Some (fst x))"
    using lst assms(2) by blast
qed

lemma en_add_mem:
  assumes s: "nft_sound en mem" and a: "ip_address a = Some ip" and run: "en_add en (PStr a) life w = (r, w')"
  shows "mem w' = insert ip (mem w) \<or> r \<noteq> Inr () \<and> mem w' = mem w"
proof (cases "en_parse (PStr a)")
  case (Inl e)
  then show ?thesis using run by (auto simp: en_add_def bindX_def)
next
  case (Inr ip')
  then have p: "en_parse (PStr a) = Inr ip" using a by (simp add: en_parse_Inr)
  define l where "l = (if life = PNone then Inr DEFAULT_LIFETIME else py_int life)"
  note run = run [unfolded en_add_def l_def [symmetric] p]
  show ?thesis
  proof (cases "\<exists>secs. l = Inr secs \<and> 60 \<le> secs \<and> secs \<le> MAX_LIFETIME")
    case False
    then show ?thesis using run by (cases l) (auto simp: bindX_def guardR_def split: if_splits)
  next
    case True
    then obtain secs where t: "l = Inr secs" "60 \<le> secs" "secs \<le> MAX_LIFETIME" by blast
    obtain x w1 where x: "en_run en (add_argv en ip secs) w = (x, w1)" by fastforce
    have "w' = w1" "r = Inr () \<Longrightarrow> \<exists>c. x = Inr c \<and> cp_returncode c = 0"
      using run t x by (auto simp: bindX_def split: sum.splits if_splits)
    then show ?thesis using nft_soundD(1) [OF s ip_address_show [OF a] _ x] t(2) by fastforce
  qed
qed

lemma en_remove_mem:
  assumes s: "nft_sound en mem" and a: "ip_address a = Some ip" and run: "en_remove en (PStr a) w = (r, w')"
  shows "mem w' = mem w - {ip} \<or> r \<noteq> Inr () \<and> mem w' = mem w"
proof (cases "en_parse (PStr a)")
  case (Inl e)
  then show ?thesis using run by (auto simp: en_remove_def bindX_def)
next
  case (Inr ip')
  then have "en_parse (PStr a) = Inr ip" using a by (simp add: en_parse_Inr)
  moreover obtain x w1 where x: "en_run en (delete_argv en ip) w = (x, w1)" by fastforce
  ultimately have "w' = w1" "r = Inr () \<Longrightarrow> \<exists>c. x = Inr c \<and> (cp_returncode c = 0 \<or>
      contains_sub ''No such file'' (cp_stderr c) \<or> contains_sub ''does not exist'' (cp_stderr c))"
    using run unfolding en_remove_def by (auto simp: bindX_def split: sum.splits if_splits)
  then show ?thesis using nft_soundD(2) [OF s ip_address_show [OF a] x] by blast
qed

lemma en_contains_mem:
  assumes s: "nft_sound en mem" and a: "ip_address a = Some ip" and run: "en_contains en (PStr a) w = (r, w')"
  shows "mem w' = mem w \<and> (\<forall>b. r = Inr b \<longrightarrow> b = (ip \<in> mem w))"
proof (cases "en_parse (PStr a)")
  case (Inl e)
  then show ?thesis using run by (auto simp: en_contains_def bindX_def)
next
  case (Inr ip')
  then have p: "en_parse (PStr a) = Inr ip" using a by (simp add: en_parse_Inr)
  obtain x w1 where x: "en_run en (en_list en ip) w = (x, w1)" by fastforce
  show ?thesis
  proof (cases x)
    case (Inl e)
    then show ?thesis using run p x nft_soundD(3) [OF s ip_address_show [OF a] x] by (auto simp: en_contains_def bindX_def)
  next
    case i: (Inr c)
    show ?thesis
    proof (cases "cp_returncode c = 0")
      case False
      then show ?thesis using run p x i nft_soundD(3) [OF s ip_address_show [OF a] x] by (auto simp: en_contains_def bindX_def)
    next
      case True
      then obtain xs where l: "cp_stdout c = Some (nft_listing xs)" "ip \<in> fst ` set xs \<longleftrightarrow> ip \<in> mem w"
        "\<forall>x \<in> set xs. ip_address (show_ip (fst x)) = Some (fst x)"
        using nft_soundD(4) [OF s ip_address_show [OF a] x [unfolded i]] by blast
      have "(r, w') = (Inr (ip \<in> fst ` set xs), w1)"
        using run p x i True search_listing [OF l(3), of ip] by (simp add: en_contains_def bindX_def l(1))
      then show ?thesis using nft_soundD(3) [OF s ip_address_show [OF a] x] l(2) by simp
    qed
  qed
qed

lemma canonical_mem:
  assumes "nft_sound en mem" "ip_address a = Some ip" "show_ip ip = a"
  shows "a \<in> show_ip ` mem w \<longleftrightarrow> ip \<in> mem w"
proof
  assume "a \<in> show_ip ` mem w"
  then obtain x where "x \<in> mem w" "show_ip x = a" by blast
  then have "ip_address a = Some x" using nft_sound_elem [OF assms(1)] by blast
  then show "ip \<in> mem w" using assms(2) \<open>x \<in> mem w\<close> by simp
next
  assume "ip \<in> mem w"
  then show "a \<in> show_ip ` mem w" using assms(3) by blast
qed

lemma canonical_ip: "norm a = Inr a \<Longrightarrow> \<exists>ip. ip_address a = Some ip \<and> show_ip ip = a"
  by (auto simp: norm_def split: option.splits)

lemma canonical_del:
  assumes s: "nft_sound en mem" and that: "ip_address a = Some ip" "show_ip ip = a"
  shows "show_ip ` (mem w - {ip}) = show_ip ` mem w - {a}"
proof -
  have "inj_on show_ip (insert ip (mem w))"
    using that nft_sound_elem [OF s] by (intro inj_on_inverseI [where g = "\<lambda>t. the (ip_address t)"]) auto
  then have "show_ip ` (mem w - {ip}) = show_ip ` mem w - show_ip ` {ip}"
    by (rule inj_on_image_set_diff) auto
  then show ?thesis using that by simp
qed

lemma agent_paths: "relative_path ''/v1/contains''" "relative_path ''/v1/add''" "relative_path ''/v1/remove''"
  by (simp_all add: relative_path_def starts_with_def)

lemma agent_contains:
  assumes s: "nft_sound en mem" and n: "norm a = Inr a"
    and c: "nft_contains (agent_http link bytes en allowed subject origin) a w = (r, w')"
  shows "show_ip ` mem w' = show_ip ` mem w \<and> (\<forall>b. r = Inr b \<longrightarrow> b = (a \<in> show_ip ` mem w))"
proof -
  let ?h = "agent_http link bytes en allowed subject origin"
  obtain ip where ip: "ip_address a = Some ip" "show_ip ip = a" using canonical_ip [OF n] by blast
  obtain x w1 where x: "request ?h ''POST'' ''/v1/contains'' (Some (PDict [(''address'', PStr a)])) w = (x, w1)" by fastforce
  have w: "w1 = w'" "r = Inr b \<Longrightarrow> \<exists>reply. x = Inr (200, reply) \<and> pget reply ''present'' = PBool b" for b
    using c x unfolding nft_contains_def by (auto simp: bindX_def split: sum.splits pyval.splits if_splits)
  show ?thesis
  proof (rule agent_request [OF x agent_paths(1)])
    show "json_finite (PDict [(''address'', PStr a)])" by simp
  next
    assume "w1 = w" "\<And>b. x \<noteq> Inr (200, b)"
    then show ?thesis using w by blast
  next
    fix body r1
    assume d: "body = PDict [(''address'', PStr a)]" "dispatch en ''/v1/contains'' body w = (r1, w1)"
      "\<And>b. x = Inr (200, b) \<Longrightarrow> r1 = Inr (200, b)"
    obtain y w2 where y: "en_contains en (PStr a) w = (y, w2)" by fastforce
    have e: "w2 = w'" "r1 = Inr (200, b) \<Longrightarrow> \<exists>q. y = Inr q \<and> b = PDict [(''present'', PBool q)]" for b
      using d(1,2) y w(1) by (auto simp: dispatch_def Let_def bindX_def split: sum.splits)
    have "y = Inr b" if "r = Inr b" for b using w(2) [OF that] d(3) e(2) by auto
    then show ?thesis
      using en_contains_mem [OF s ip(1) y] e(1) canonical_mem [OF s ip, of w] by auto
  qed
qed

lemma agent_effect:
  assumes req: "request (agent_http link bytes en allowed subject origin) ''POST'' path (Some doc) w = (x, w')" "relative_path path" "json_finite doc"
    and r: "r = Inr () \<Longrightarrow> \<exists>reply. x = Inr (200, reply)"
    and op: "\<And>r1. dispatch en path doc w = (r1, w') \<Longrightarrow> P (mem w') \<or> (\<forall>b. r1 \<noteq> Inr (200, b)) \<and> mem w' = mem w"
  shows "P (mem w') \<or> r \<noteq> Inr () \<and> show_ip ` mem w' = show_ip ` mem w"
  by (rule agent_request [OF req]) (use r op in blast)+

lemma agent_add:
  assumes s: "nft_sound en mem" and n: "norm a = Inr a"
    and c: "nft_add (agent_http link bytes en allowed subject origin) a life w = (r, w')"
  shows "show_ip ` mem w' = insert a (show_ip ` mem w) \<or> r \<noteq> Inr () \<and> show_ip ` mem w' = show_ip ` mem w"
proof -
  let ?h = "agent_http link bytes en allowed subject origin"
  obtain ip where ip: "ip_address a = Some ip" "show_ip ip = a" using canonical_ip [OF n] by blast
  let ?doc = "PDict ((''address'', PStr a) # (case life of None \<Rightarrow> [] | Some l \<Rightarrow> [(''max_lifetime_seconds'', PInt l)]))"
  obtain x w1 where x: "request ?h ''POST'' ''/v1/add'' (Some ?doc) w = (x, w1)" by fastforce
  have w: "w1 = w'" "r = Inr () \<Longrightarrow> \<exists>reply. x = Inr (200, reply)"
    using c x unfolding nft_add_def by (auto simp: bindX_def split: sum.splits if_splits)
  show ?thesis
  proof (rule agent_effect [OF x [unfolded w(1)] agent_paths(2) _ w(2)])
    show "json_finite ?doc" by (cases life) simp_all
    show "show_ip ` mem w' = insert a (show_ip ` mem w) \<or> (\<forall>b. r1 \<noteq> Inr (200, b)) \<and> mem w' = mem w"
      if d: "dispatch en ''/v1/add'' ?doc w = (r1, w')" for r1
    proof -
      obtain y w2 where y: "en_add en (PStr a) (pget ?doc ''max_lifetime_seconds'') w = (y, w2)" by fastforce
      have "w2 = w'" "r1 = Inr (200, b) \<Longrightarrow> y = Inr ()" for b
        using d y by (auto simp: dispatch_def Let_def bindX_def split: sum.splits)
      then show ?thesis using en_add_mem [OF s ip(1) y] ip(2) by auto
    qed
  qed
qed

lemma agent_remove:
  assumes s: "nft_sound en mem" and n: "norm a = Inr a"
    and c: "nft_remove (agent_http link bytes en allowed subject origin) a w = (r, w')"
  shows "show_ip ` mem w' = show_ip ` mem w - {a} \<or> r \<noteq> Inr () \<and> show_ip ` mem w' = show_ip ` mem w"
proof -
  let ?h = "agent_http link bytes en allowed subject origin"
  obtain ip where ip: "ip_address a = Some ip" "show_ip ip = a" using canonical_ip [OF n] by blast
  let ?doc = "PDict [(''address'', PStr a)]"
  obtain x w1 where x: "request ?h ''POST'' ''/v1/remove'' (Some ?doc) w = (x, w1)" by fastforce
  have w: "w1 = w'" "r = Inr () \<Longrightarrow> \<exists>reply. x = Inr (200, reply)"
    using c x unfolding nft_remove_def by (auto simp: bindX_def split: sum.splits if_splits)
  show ?thesis
  proof (rule agent_effect [OF x [unfolded w(1)] agent_paths(3) _ w(2)])
    show "show_ip ` mem w' = show_ip ` mem w - {a} \<or> (\<forall>b. r1 \<noteq> Inr (200, b)) \<and> mem w' = mem w"
      if d: "dispatch en ''/v1/remove'' ?doc w = (r1, w')" for r1
    proof -
      obtain y w2 where y: "en_remove en (PStr a) w = (y, w2)" by fastforce
      have "w2 = w'" "r1 = Inr (200, b) \<Longrightarrow> y = Inr ()" for b
        using d y by (auto simp: dispatch_def Let_def bindX_def split: sum.splits)
      then show ?thesis using en_remove_mem [OF s ip(1) y] canonical_del [OF s ip, of w] by auto
    qed
  qed simp
qed

lemma nft_backend_ok:
  assumes "nft_sound en mem"
  shows "raw_ok (nft_raw_set (agent_http link bytes en allowed subject origin)) (\<lambda>w. show_ip ` mem w)"
  unfolding raw_ok_def nft_raw_set_def raw_set.simps
  by (intro conjI allI impI agent_add [OF assms] agent_remove [OF assms]) (use agent_contains [OF assms] in blast)+

section \<open>A firewall\<close>

text \<open>A kernel whose sets are one list of addresses, behind an \<^verbatim>\<open>nft\<close> that reads its argument vector.\<close>

definition added_text :: "string \<Rightarrow> string" where
  "added_text t = rev (drop 9 (dropWhile is_digit (drop 3 (rev (drop 2 t)))))"

definition deleted_text :: "string \<Rightarrow> string" where
  "deleted_text t = rev (drop 2 (rev (drop 2 t)))"

definition nft_done :: "pyval option \<Rightarrow> completed" where
  "nft_done out = \<lparr>cp_returncode = 0, cp_stdout = out, cp_stderr = []\<rparr>"

definition demo_nft :: "string list \<Rightarrow> (ip list, completed) ex" where
  "demo_nft argv w = (
     if argv ! 1 = ''add'' then (Inr (nft_done None), the (ip_address (added_text (last argv))) # w)
     else if argv ! 1 = ''delete'' then (Inr (nft_done None), removeAll (the (ip_address (deleted_text (last argv)))) w)
     else (Inr (nft_done (Some (nft_listing (map (\<lambda>x. (x, True)) (filter (\<lambda>x. ip_address (show_ip x) = Some x) w))))), w))"

definition demo_mem :: "ip list \<Rightarrow> ip set" where
  "demo_mem w = {x \<in> set w. ip_address (show_ip x) = Some x}"

definition demo_enforcer :: "ip list enforcer" where
  "demo_enforcer = \<lparr>en_nft = ''/usr/sbin/nft'', en_family = ''inet'', en_table = ''filter'', en_set = ''soc_blocklist'', en_run = demo_nft\<rparr>"

lemma added_text_argv: "0 \<le> secs \<Longrightarrow> added_text (last (add_argv en ip secs)) = show_ip ip"
proof -
  assume "0 \<le> secs"
  then obtain n where n: "show_int secs = show_nat n" by (simp add: show_int_def)
  have "dropWhile is_digit (rev (show_nat n) @ CHR '' '' # rest) = CHR '' '' # rest" for rest
    using show_nat_digits [of n] by (subst dropWhile_append2) (auto simp: list_all_iff is_digit_def)
  then show ?thesis by (simp add: add_argv_def added_text_def n)
qed

lemma demo_nft_sound: "nft_sound demo_enforcer demo_mem"
proof -
  have a: "add_argv demo_enforcer ip secs ! Suc 0 = ''add''" "delete_argv demo_enforcer ip ! Suc 0 = ''delete''"
    "en_list demo_enforcer ip ! Suc 0 = ''-j''" for ip secs
    by (simp_all add: add_argv_def delete_argv_def en_list_def en_base_def)
  have d: "deleted_text (last (delete_argv demo_enforcer ip)) = show_ip ip" for ip
    by (simp add: delete_argv_def deleted_text_def)
  have run: "en_run demo_enforcer = demo_nft" by (simp add: demo_enforcer_def)
  have e: "fst ` (\<lambda>x. (x, True)) ` A = A" for A :: "ip set" by (auto simp: image_image)
  show ?thesis
    unfolding nft_sound_def run
    by (auto simp: demo_nft_def a d e added_text_argv demo_mem_def nft_done_def intro!: exI [of _ "map (\<lambda>x. (x, True)) (filter (\<lambda>x. ip_address (show_ip x) = Some x) _)"])
qed

section \<open>Properties\<close>

text \<open>
  C22. The agent has no other surface. Whatever a client posts, the only programs it runs are
  \<^verbatim>\<open>nft list set\<close>, \<^verbatim>\<open>nft delete element\<close> and \<^verbatim>\<open>nft add element\<close> on its own sets, for an address that is
  not special-use and with a timeout between a minute and a day plus ten minutes: replacing what every
  other argument vector does changes no reply and no effect. A client that is not on the list gets
  403 and causes nothing.
\<close>

theorem enforcer_surface:
  assumes "\<forall>argv. permitted en argv \<longrightarrow> run argv = en_run en argv"
  shows "do_POST (en\<lparr>en_run := run\<rparr>) allowed rq w = do_POST en allowed rq w \<and>
    (allowed \<noteq> [] \<and> (\<forall>n. client_name (po_subject rq) = Some n \<longrightarrow> n \<notin> set allowed) \<longrightarrow>
      do_POST en allowed rq w = (Inr (403, error_body ''client not permitted''), w))"
proof -
  have "dispatch (en\<lparr>en_run := run\<rparr>) p b = dispatch en p b" for p b
    unfolding dispatch_def operations_permitted [OF assms] by (rule refl)
  then have d: "dispatch (en\<lparr>en_run := run\<rparr>) = dispatch en" by (intro ext) simp
  have "do_POST (en\<lparr>en_run := run\<rparr>) allowed rq w = do_POST en allowed rq w" unfolding do_POST_def d by (rule refl)
  then show ?thesis by (simp add: do_POST_def split: option.split)
qed

theorem enforcer_surface_witness:
  "do_POST (demo_enforcer\<lparr>en_run := \<lambda>argv w. if permitted demo_enforcer argv then demo_nft argv w else (Inl OSErr, [])\<rparr>) []
     \<lparr>po_path = ''/v1/add'', po_length = Some ''24'', po_body = Some (PDict [(''address'', PStr ''9.9.9.9'')]), po_subject = []\<rparr> [] =
   do_POST demo_enforcer []
     \<lparr>po_path = ''/v1/add'', po_length = Some ''24'', po_body = Some (PDict [(''address'', PStr ''9.9.9.9'')]), po_subject = []\<rparr> []"
proof -
  have "\<forall>argv. permitted demo_enforcer argv \<longrightarrow>
      (\<lambda>argv w. if permitted demo_enforcer argv then demo_nft argv w else (Inl OSErr, [])) argv = en_run demo_enforcer argv"
    by (simp add: demo_enforcer_def fun_eq_iff)
  from conjunct1 [OF enforcer_surface [OF this]] show ?thesis .
qed





end
