(* ===== verification/Isolation.thy ===== *)
theory Isolation
  imports Enforcer
begin

text \<open>
  \<^verbatim>\<open>docker/wazuh/active-response/cxyz_endpoint_isolation.py\<close>: the Active Response script on a managed
  endpoint. The endpoint is a record of the three things the script touches, each of which may raise:
  the \<^verbatim>\<open>nft\<close> program, the marker file of an operation (directory, text and mode in one step) and its
  removal; the configuration and the request line are what reading and \<^verbatim>\<open>json.loads\<close> make of them. The log file
  is not modelled.
\<close>

section \<open>The endpoint\<close>

record 'w endpoint =
  ep_run :: "string list \<Rightarrow> string option \<Rightarrow> ('w, completed) ex"
  ep_write_marker :: "string \<Rightarrow> ('w, unit) ex"
  ep_unlink :: "string \<Rightarrow> ('w, unit) ex"
  ep_config :: "pyval res"

definition iso_table :: string where
  "iso_table = ''inet cxyz_isolation''"

definition is_op_char :: "char \<Rightarrow> bool" where
  "is_op_char c = (let n = of_char c :: nat in 65 \<le> n \<and> n \<le> 90 \<or> 97 \<le> n \<and> n \<le> 122 \<or> is_digit c \<or> c \<in> set ''._:-'')"

definition op_id_matches :: "string \<Rightarrow> bool" where
  "op_id_matches op = (list_all is_op_char op \<and> 16 \<le> length op \<and> length op \<le> 128)"

definition marker_name :: "prims \<Rightarrow> string \<Rightarrow> string" where
  "marker_name pr op = take 40 (sha256_hexdigest pr op)"

section \<open>The ruleset\<close>

definition allowed_address :: "pyval \<Rightarrow> string res" where
  "allowed_address item = (case ip_of_value item of
     None \<Rightarrow> Inl (ValueError ''does not appear to be an IPv4 or IPv6 address'') | Some ip \<Rightarrow> Inr (show_ip ip))"

definition load_allowed :: "pyval res \<Rightarrow> string list res" where
  "load_allowed config =
         bindR config (\<lambda>data.
         bindR (json_get data ''allowed_addresses'' (PList [])) (\<lambda>items.
         bindR (py_iter items) (\<lambda>vs.
         bindR (mapR allowed_address vs) (\<lambda>allowed.
         bindR (guardR (allowed \<noteq> []) (ValueError ''isolation refused: no manager/management address is configured'')) (\<lambda>_.
         Inr allowed)))))"

definition hook_rules :: "string list \<Rightarrow> string list \<Rightarrow> string \<Rightarrow> string \<Rightarrow> string list" where
  "hook_rules v4s v6s hook direction = (let add = ''add rule '' @ iso_table @ '' '' @ hook in
     [add @ (if hook = ''input'' then '' iifname lo accept'' else '' oifname lo accept''),
      add @ '' ct state established,related accept'']
     @ (if v4s \<noteq> [] then [add @ '' ip '' @ direction @ '' { '' @ join_with '', '' v4s @ '' } accept''] else [])
     @ (if v6s \<noteq> [] then [add @ '' ip6 '' @ direction @ '' { '' @ join_with '', '' v6s @ '' } accept''] else []))"

definition chain_line :: "string \<Rightarrow> string" where
  "chain_line hook = ''add chain '' @ iso_table @ '' '' @ hook @ '' { type filter hook '' @ hook @ '' priority -150; policy drop; }''"

definition ruleset :: "string list \<Rightarrow> string" where
  "ruleset allowed = (
     let v4s = filter (\<lambda>a. CHR '':'' \<notin> set a) allowed; v6s = filter (\<lambda>a. CHR '':'' \<in> set a) allowed;
         lines = [''add table '' @ iso_table, ''delete table '' @ iso_table, ''add table '' @ iso_table]
           @ map chain_line [''input'', ''output'', ''forward'']
     in join_with [CHR 0x0A] (lines @ hook_rules v4s v6s ''input'' ''saddr'' @ hook_rules v4s v6s ''output'' ''daddr'') @ [CHR 0x0A])"

section \<open>The two operations\<close>

definition isolate :: "prims \<Rightarrow> 'w endpoint \<Rightarrow> string \<Rightarrow> ('w, unit) ex" where
  "isolate pr ep op =
     bindX (liftX (guardR (op_id_matches op) (ValueError ''invalid operation id''))) (\<lambda>_.
     bindX (liftX (load_allowed (ep_config ep))) (\<lambda>allowed.
     bindX (ep_run ep [''nft'', ''-f'', ''-''] (Some (ruleset allowed))) (\<lambda>result.
     if cp_returncode result \<noteq> 0 then raiseX (RuntimeErr ''nft refused the isolation ruleset'')
     else ep_write_marker ep (marker_name pr op))))"

definition restore :: "prims \<Rightarrow> 'w endpoint \<Rightarrow> string \<Rightarrow> ('w, unit) ex" where
  "restore pr ep op =
     bindX (liftX (guardR (op_id_matches op) (ValueError ''invalid operation id''))) (\<lambda>_.
     bindX (ep_run ep [''nft'', ''delete'', ''table'', ''inet'', ''cxyz_isolation''] None) (\<lambda>result.
     if cp_returncode result \<noteq> 0 \<and> \<not> contains_sub ''No such file'' (cp_stderr result)
     then raiseX (RuntimeErr ''nft could not remove the isolation table'')
     else ep_unlink ep (marker_name pr op)))"

text \<open>\<^verbatim>\<open>len(args) != 1\<close> and \<^verbatim>\<open>str(args[0])\<close> on whatever JSON value is there.\<close>

definition sole_argument :: "prims \<Rightarrow> pyval \<Rightarrow> string res" where
  "sole_argument pr args = (let bad = Inl (ValueError ''unsupported Active Response request'') in
     case args of
       PList [v] \<Rightarrow> Inr (py_str pr v) | PList _ \<Rightarrow> bad
     | PStr [ch] \<Rightarrow> Inr [ch] | PStr _ \<Rightarrow> bad
     | PDict [kv] \<Rightarrow> Inl (KeyErr ''0'') | PDict _ \<Rightarrow> bad
     | _ \<Rightarrow> Inl (TypeErr ''object has no len()''))"

definition ar_request :: "prims \<Rightarrow> pyval res \<Rightarrow> (bool \<times> string) res" where
  "ar_request pr message =
         bindR message (\<lambda>m.
         bindR (json_get m ''command'' PNone) (\<lambda>command.
         bindR (json_get m ''parameters'' (PDict [])) (\<lambda>parameters.
         bindR (json_get parameters ''extra_args'' (PList [])) (\<lambda>args.
         if is_list command \<or> is_mapping command then Inl (TypeErr ''unhashable type'')
         else if command \<notin> {PStr ''add'', PStr ''delete''} then Inl (ValueError ''unsupported Active Response request'')
         else bindR (sole_argument pr args) (\<lambda>op. Inr (command = PStr ''add'', op))))))"

fun ar_caught :: "exn \<Rightarrow> bool" where
  "ar_caught (ValueError m) = True"
| "ar_caught (RuntimeErr m) = True"
| "ar_caught OSErr = True"
| "ar_caught _ = False"

text \<open>The exit status; \<open>Inl\<close> is an exception that escapes (a traceback and a non-zero status).\<close>

definition ar_main :: "prims \<Rightarrow> 'w endpoint \<Rightarrow> string \<Rightarrow> pyval res \<Rightarrow> ('w, int) ex" where
  "ar_main pr ep mode message s = (
     if mode \<notin> {''cxyz-isolate-endpoint'', ''cxyz-restore-endpoint''} then (Inr 2, s)
     else (case bindX (liftX (ar_request pr message)) (\<lambda>(add, op).
             if mode = ''cxyz-isolate-endpoint'' \<and> add then isolate pr ep op else restore pr ep op) s of
         (Inr _, s1) \<Rightarrow> (Inr 0, s1)
       | (Inl e, s1) \<Rightarrow> (if ar_caught e then Inr 1 else Inl e, s1)))"

section \<open>What the marker proves\<close>

text \<open>
  The documented behaviour of the endpoint: \<open>active w\<close> says that the isolation table is loaded,
  \<open>markers w\<close> which marker files exist. A call that raises or fails may have had its effect or not.
\<close>

definition endpoint_sound :: "'w endpoint \<Rightarrow> ('w \<Rightarrow> bool) \<Rightarrow> ('w \<Rightarrow> string set) \<Rightarrow> bool" where
  "endpoint_sound ep active markers \<longleftrightarrow>
     (\<forall>rules w r w'. ep_run ep [''nft'', ''-f'', ''-''] (Some rules) w = (r, w') \<longrightarrow>
        markers w' = markers w \<and> (\<forall>c. r = Inr c \<and> cp_returncode c = 0 \<longrightarrow> active w')) \<and>
     (\<forall>w r w'. ep_run ep [''nft'', ''delete'', ''table'', ''inet'', ''cxyz_isolation''] None w = (r, w') \<longrightarrow>
        markers w' = markers w \<and> (\<forall>c. r = Inr c \<and> (cp_returncode c = 0 \<or> contains_sub ''No such file'' (cp_stderr c)) \<longrightarrow> \<not> active w')) \<and>
     (\<forall>m w r w'. ep_write_marker ep m w = (r, w') \<longrightarrow> active w' = active w \<and> markers w' - {m} = markers w - {m} \<and>
        (r = Inr () \<longrightarrow> m \<in> markers w')) \<and>
     (\<forall>m w r w'. ep_unlink ep m w = (r, w') \<longrightarrow> active w' = active w \<and> markers w' - {m} = markers w - {m} \<and>
        (r = Inr () \<longrightarrow> m \<notin> markers w'))"

lemmas endpoint_law_load = endpoint_sound_def [THEN iffD1, THEN conjunct1, rule_format]
lemmas endpoint_law_delete = endpoint_sound_def [THEN iffD1, THEN conjunct2, THEN conjunct1, rule_format]
lemmas endpoint_law_write = endpoint_sound_def [THEN iffD1, THEN conjunct2, THEN conjunct2, THEN conjunct1, rule_format]
lemmas endpoint_law_unlink = endpoint_sound_def [THEN iffD1, THEN conjunct2, THEN conjunct2, THEN conjunct2, rule_format]

lemma isolate_sound:
  assumes s: "endpoint_sound ep active markers" and run: "isolate pr ep op w = (r, w')"
  shows "markers w' - {marker_name pr op} = markers w - {marker_name pr op} \<and>
    (marker_name pr op \<in> markers w - markers w' \<or> marker_name pr op \<in> markers w' - markers w \<longrightarrow> active w') \<and>
    (r = Inr () \<longrightarrow> op_id_matches op \<and> active w' \<and> marker_name pr op \<in> markers w')"
proof (cases "\<exists>allowed. op_id_matches op \<and> load_allowed (ep_config ep) = Inr allowed")
  case False
  then have "r \<noteq> Inr () \<and> w' = w"
    using run by (cases "load_allowed (ep_config ep)") (auto simp: isolate_def bindX_def guardR_def split: if_splits)
  then show ?thesis by simp
next
  case True
  then obtain allowed where a: "op_id_matches op" "load_allowed (ep_config ep) = Inr allowed" by blast
  obtain x w1 where x: "ep_run ep [''nft'', ''-f'', ''-''] (Some (ruleset allowed)) w = (x, w1)" by fastforce
  obtain y w2 where y: "ep_write_marker ep (marker_name pr op) w1 = (y, w2)" by fastforce
  have 1: "markers w1 = markers w" "\<And>c. x = Inr c \<Longrightarrow> cp_returncode c = 0 \<Longrightarrow> active w1"
    using endpoint_law_load [OF s x] by blast+
  have 2: "active w2 = active w1" "markers w2 - {marker_name pr op} = markers w1 - {marker_name pr op}"
    "y = Inr () \<Longrightarrow> marker_name pr op \<in> markers w2" using endpoint_law_write [OF s y] by blast+
  have "(r \<noteq> Inr () \<and> w' = w1) \<or> (w' = w2 \<and> r = y \<and> (\<exists>c. x = Inr c \<and> cp_returncode c = 0))"
    using run a x y by (auto simp: isolate_def bindX_def split: sum.splits if_splits)
  then show ?thesis using 1 2 a(1) by auto
qed

lemma restore_sound:
  assumes s: "endpoint_sound ep active markers" and run: "restore pr ep op w = (r, w')"
  shows "markers w' - {marker_name pr op} = markers w - {marker_name pr op} \<and>
    (marker_name pr op \<in> markers w - markers w' \<or> marker_name pr op \<in> markers w' - markers w \<longrightarrow> \<not> active w') \<and>
    (r = Inr () \<longrightarrow> op_id_matches op \<and> \<not> active w' \<and> marker_name pr op \<notin> markers w')"
proof (cases "op_id_matches op")
  case False
  then show ?thesis using run by (auto simp: restore_def bindX_def)
next
  case True
  let ?argv = "[''nft'', ''delete'', ''table'', ''inet'', ''cxyz_isolation'']"
  obtain x w1 where x: "ep_run ep ?argv None w = (x, w1)" by fastforce
  obtain y w2 where y: "ep_unlink ep (marker_name pr op) w1 = (y, w2)" by fastforce
  have 1: "markers w1 = markers w"
    "\<And>c. x = Inr c \<Longrightarrow> cp_returncode c = 0 \<or> contains_sub ''No such file'' (cp_stderr c) \<Longrightarrow> \<not> active w1"
    using endpoint_law_delete [OF s x] by blast+
  have 2: "active w2 = active w1" "markers w2 - {marker_name pr op} = markers w1 - {marker_name pr op}"
    "y = Inr () \<Longrightarrow> marker_name pr op \<notin> markers w2" using endpoint_law_unlink [OF s y] by blast+
  have "(r \<noteq> Inr () \<and> w' = w1) \<or> (w' = w2 \<and> r = y \<and> (\<exists>c. x = Inr c \<and> (cp_returncode c = 0 \<or> contains_sub ''No such file'' (cp_stderr c))))"
    using run True x y by (auto simp: restore_def bindX_def split: sum.splits if_splits)
  then show ?thesis using 1 2 True by auto
qed

lemma ar_main_cases:
  assumes "ar_main pr ep mode message w = (r, w')" "mode \<in> {''cxyz-isolate-endpoint'', ''cxyz-restore-endpoint''}"
    "ar_request pr message = Inr (add, op)"
  obtains x where "(if mode = ''cxyz-isolate-endpoint'' \<and> add then isolate pr ep op else restore pr ep op) w = (x, w')"
    "r = Inr 0 \<longrightarrow> x = Inr ()"
proof -
  obtain x w1 where x: "(if mode = ''cxyz-isolate-endpoint'' \<and> add then isolate pr ep op else restore pr ep op) w = (x, w1)"
    by (meson surj_pair)
  then have "w1 = w'" "r = Inr 0 \<longrightarrow> x = Inr ()"
    using assms by (auto simp: ar_main_def bindX_def split: sum.splits if_splits)
  then show thesis using that x by blast
qed

lemma ar_main_refuses:
  assumes "ar_main pr ep mode message w = (r, w')"
    "mode \<notin> {''cxyz-isolate-endpoint'', ''cxyz-restore-endpoint''} \<or> ar_request pr message = Inl e"
  shows "w' = w \<and> r \<noteq> Inr 0"
  using assms by (auto simp: ar_main_def bindX_def split: if_splits)

section \<open>Correctness\<close>

text \<open>
  C24. The Active Response script proves what it reports. Exit status 0 means: the request named a
  well-formed operation, the isolation table is loaded exactly when the script isolates, and so is the
  operation's marker file. And whatever the outcome, also of a failed run: a marker that appeared did so with the
  table loaded by this run, a marker that went did so with the table removed, and no marker of
  another operation is touched.
\<close>
theorem isolation_proved_by_marker:
  assumes s: "endpoint_sound ep active markers" and run: "ar_main pr ep mode message w = (r, w')"
  shows "(case ar_request pr message of
      Inl e \<Rightarrow> w' = w \<and> r \<noteq> Inr 0
    | Inr (add, op) \<Rightarrow> (let isolating = (mode = ''cxyz-isolate-endpoint'' \<and> add); m = marker_name pr op in
        (r = Inr 0 \<longrightarrow> op_id_matches op \<and> active w' = isolating \<and> (m \<in> markers w') = isolating) \<and>
        (m \<in> markers w - markers w' \<or> m \<in> markers w' - markers w \<longrightarrow> active w' = isolating) \<and>
        markers w' - {m} = markers w - {m}))"
proof (cases "ar_request pr message")
  case (Inl e)
  then show ?thesis using ar_main_refuses [OF run, of e] by simp
next
  case (Inr a)
  obtain add op where a: "a = (add, op)" by (cases a)
  show ?thesis
  proof (cases "mode \<in> {''cxyz-isolate-endpoint'', ''cxyz-restore-endpoint''}")
    case True
    from ar_main_cases [OF run True Inr [unfolded a]] obtain x where
      x: "(if mode = ''cxyz-isolate-endpoint'' \<and> add then isolate pr ep op else restore pr ep op) w = (x, w')"
      and 0: "r = Inr 0 \<longrightarrow> x = Inr ()" .
    show ?thesis
    proof (cases "mode = ''cxyz-isolate-endpoint'' \<and> add")
      case True
      then have "isolate pr ep op w = (x, w')" using x by simp
      from isolate_sound [OF s this] show ?thesis using Inr a 0 True by (simp add: Let_def)
    next
      case False
      have "restore pr ep op w = (x, w')" using x by (simp only: False if_False)
      from restore_sound [OF s this] show ?thesis using Inr a 0 False by (auto simp: Let_def)
    qed
  next
    case False
    then have "w' = w \<and> r \<noteq> Inr 0" using ar_main_refuses [OF run] by blast
    then show ?thesis using Inr a by (simp add: Let_def)
  qed
qed

text \<open>
  The table is one per endpoint, the markers are one per operation: an endpoint with two isolations
  loses the table with the first restoration, and the second marker still claims isolation.
\<close>

definition demo_endpoint :: "(bool \<times> string list) endpoint" where
  "demo_endpoint = \<lparr>
     ep_run = (\<lambda>argv input s. (Inr \<lparr>cp_returncode = 0, cp_stdout = None, cp_stderr = []\<rparr>, (input \<noteq> None, snd s))),
     ep_write_marker = (\<lambda>m s. (Inr (), (fst s, m # snd s))),
     ep_unlink = (\<lambda>m s. (Inr (), (fst s, removeAll m (snd s)))),
     ep_config = Inr (PDict [(''allowed_addresses'', PList [PStr ''192.0.2.1''])])\<rparr>"

definition demo_message :: "string \<Rightarrow> string \<Rightarrow> pyval res" where
  "demo_message command op = Inr (PDict [(''command'', PStr command),
     (''parameters'', PDict [(''extra_args'', PList [PStr op])])])"

definition reversal_prims :: prims where
  "reversal_prims = \<lparr>sha256_hexdigest = rev, float_repr = (\<lambda>r. ''0.95'')\<rparr>"

abbreviation "op_one \<equiv> ''operation-number-1''"
abbreviation "op_two \<equiv> ''operation-number-2''"

lemma demo_endpoint_sound: "endpoint_sound demo_endpoint fst (set \<circ> snd)"
  by (auto simp: endpoint_sound_def demo_endpoint_def)

lemma demo_isolates:
  "ar_main reversal_prims demo_endpoint ''cxyz-isolate-endpoint'' (demo_message ''add'' op_one) (False, []) = (Inr 0, (True, [rev op_one]))"
  by code_simp

theorem isolation_proved_by_marker_witness:
  "op_id_matches op_one \<and> marker_name reversal_prims op_one \<in> set (snd (snd (ar_main reversal_prims demo_endpoint
     ''cxyz-isolate-endpoint'' (demo_message ''add'' op_one) (False, []))))"
proof -
  have r: "ar_request reversal_prims (demo_message ''add'' op_one) = Inr (True, op_one)" by code_simp
  from conjunct1 [OF isolation_proved_by_marker [OF demo_endpoint_sound demo_isolates, unfolded r sum.case prod.case Let_def]]
  have "op_id_matches op_one \<and> marker_name reversal_prims op_one \<in> (set \<circ> snd) (True, [rev op_one])" by blast
  then show ?thesis unfolding demo_isolates by (simp only: comp_apply snd_conv)
qed

theorem shared_table_lost:
  "(let (r1, w1) = ar_main reversal_prims demo_endpoint ''cxyz-isolate-endpoint'' (demo_message ''add'' op_one) (False, []);
        (r2, w2) = ar_main reversal_prims demo_endpoint ''cxyz-isolate-endpoint'' (demo_message ''add'' op_two) w1;
        (r3, w3) = ar_main reversal_prims demo_endpoint ''cxyz-restore-endpoint'' (demo_message ''add'' op_two) w2
    in r1 = Inr 0 \<and> r2 = Inr 0 \<and> r3 = Inr 0 \<and> \<not> fst w3 \<and> marker_name reversal_prims op_one \<in> set (snd w3))"
  by code_simp

end
