(* ===== verification/Outbox.thy ===== *)
theory Outbox
  imports Http "HOL-Library.Sublist"
begin

text \<open>
  \<^verbatim>\<open>soc/workers/outbox.py\<close>: the durable queue between feature extraction, scoring and delivery. The
  tables are an association list of jobs and one of metadata; a method is one transaction, and the two
  \<^verbatim>\<open>BEFORE UPDATE\<close> triggers are the guard of \<open>update_job\<close>. The clock (\<^verbatim>\<open>time.time()\<close>) is an argument, in
  exact rational seconds. The private files and the worker lock are I/O and are not modelled.
\<close>

section \<open>Tables\<close>

datatype job_state = Pending | Scored | Sent | Deadletter

record job =
  jb_hash :: string
  jb_vector :: string
  jb_event :: "string option"
  jb_state :: job_state
  jb_attempts :: nat
  jb_next :: rat
  jb_error :: "string option"
  jb_created :: rat
  jb_updated :: rat

record outbox =
  ob_jobs :: "job dict"
  ob_meta :: "string dict"

definition empty_outbox :: outbox where
  "empty_outbox = \<lparr>ob_jobs = [], ob_meta = []\<rparr>"

definition canonical :: "prims \<Rightarrow> pyval \<Rightarrow> string res" where
  "canonical pr v = (if json_finite v then Inr (canonical_json pr v)
     else Inl (ValueError ''Out of range float values are not JSON compliant''))"

definition trigger_allows :: "job \<Rightarrow> job \<Rightarrow> unit res" where
  "trigger_allows old new =
     bindR (guardR (jb_vector new = jb_vector old \<and> jb_hash new = jb_hash old) (IntegrityErr ''outbox input is immutable'')) (\<lambda>_.
     guardR (jb_event old = None \<or> jb_event new = jb_event old) (IntegrityErr ''outbox inference result is immutable''))"

text \<open>\<^verbatim>\<open>UPDATE jobs SET ... WHERE id=? AND ...\<close>: the new table and the number of rows.\<close>

definition update_job :: "string \<Rightarrow> (job \<Rightarrow> bool) \<Rightarrow> (job \<Rightarrow> job) \<Rightarrow> outbox \<Rightarrow> (nat \<times> outbox) res" where
  "update_job i P f ob = (case dict_get (ob_jobs ob) i of
     None \<Rightarrow> Inr (0, ob)
   | Some j \<Rightarrow> if \<not> P j then Inr (0, ob)
       else bindR (trigger_allows j (f j)) (\<lambda>_. Inr (1, ob\<lparr>ob_jobs := dict_set i (f j) (ob_jobs ob)\<rparr>)))"

section \<open>Operations\<close>

definition is_sha256_hex :: "string \<Rightarrow> bool" where
  "is_sha256_hex s = (length s = 64 \<and> list_all (\<lambda>c. is_digit c \<or> c \<in> set ''abcdef'') s)"

definition job_id :: "prims \<Rightarrow> string \<Rightarrow> string \<Rightarrow> string" where
  "job_id pr metadata_hash body = sha256_hexdigest pr (metadata_hash @ [CHR 0x0A] @ body)"

definition enqueue :: "prims \<Rightarrow> rat \<Rightarrow> pyval \<Rightarrow> string \<Rightarrow> outbox \<Rightarrow> (bool \<times> outbox) res" where
  "enqueue pr now vector metadata_hash ob =
     bindR (guardR (is_sha256_hex metadata_hash) (ValueError ''approved metadata SHA-256 is required'')) (\<lambda>_.
     bindR (canonical pr vector) (\<lambda>body.
     (let i = job_id pr metadata_hash body in
      if i \<in> set (dict_keys (ob_jobs ob)) then Inr (False, ob)
      else Inr (True, ob\<lparr>ob_jobs := ob_jobs ob @ [(i, \<lparr>jb_hash = metadata_hash, jb_vector = body, jb_event = None, jb_state = Pending,
        jb_attempts = 0, jb_next = 0, jb_error = None, jb_created = now, jb_updated = now\<rparr>)]\<rparr>))))"

definition is_due :: "rat \<Rightarrow> job \<Rightarrow> bool" where
  "is_due now j = ((jb_state j = Pending \<or> jb_state j = Scored) \<and> jb_next j \<le> now)"

definition due_jobs :: "rat \<Rightarrow> nat \<Rightarrow> outbox \<Rightarrow> (string \<times> job) list" where
  "due_jobs now limit ob = take limit (sort_key (\<lambda>(i, j). (jb_created j, i)) (filter (\<lambda>(i, j). is_due now j) (ob_jobs ob)))"

definition save_event :: "prims \<Rightarrow> rat \<Rightarrow> string \<Rightarrow> pyval \<Rightarrow> outbox \<Rightarrow> outbox res" where
  "save_event pr now i event ob =
     bindR (canonical pr event) (\<lambda>body.
     bindR (update_job i (\<lambda>j. jb_state j = Pending)
       (\<lambda>j. j\<lparr>jb_event := Some body, jb_state := Scored, jb_error := None, jb_updated := now\<rparr>) ob) (\<lambda>(n, ob'). Inr ob'))"

definition sent :: "rat \<Rightarrow> string \<Rightarrow> outbox \<Rightarrow> outbox res" where
  "sent now i ob =
     bindR (update_job i (\<lambda>j. jb_state j = Scored)
       (\<lambda>j. j\<lparr>jb_state := Sent, jb_error := None, jb_updated := now\<rparr>) ob) (\<lambda>(n, ob'). Inr ob')"

definition retry_delay :: "nat \<Rightarrow> rat" where
  "retry_delay attempts = min 3600 (5 * 2 ^ min attempts 10)"

definition failed :: "rat \<Rightarrow> string \<Rightarrow> string \<Rightarrow> bool \<Rightarrow> outbox \<Rightarrow> outbox res" where
  "failed now i code retryable ob = (case dict_get (ob_jobs ob) i of
     None \<Rightarrow> Inl (TypeErr ''NoneType object is not subscriptable'')
   | Some row \<Rightarrow> (let attempts = Suc (jb_attempts row); st = (if retryable then jb_state row else Deadletter) in
       bindR (update_job i (\<lambda>j. True) (\<lambda>j. j\<lparr>jb_state := st, jb_attempts := attempts, jb_next := now + retry_delay attempts,
         jb_error := Some code, jb_updated := now\<rparr>) ob) (\<lambda>(n, ob'). Inr ob')))"

definition requeue :: "rat \<Rightarrow> string \<Rightarrow> outbox \<Rightarrow> outbox res" where
  "requeue now i ob =
     bindR (update_job i (\<lambda>j. jb_state j = Deadletter)
       (\<lambda>j. j\<lparr>jb_state := (if jb_event j = None then Pending else Scored), jb_next := 0, jb_error := None, jb_updated := now\<rparr>) ob) (\<lambda>(n, ob').
     if n \<noteq> 1 then Inl (ValueError ''unknown dead-letter job'') else Inr ob')"

definition get_meta :: "string \<Rightarrow> outbox \<Rightarrow> string option" where
  "get_meta k ob = dict_get (ob_meta ob) k"

definition set_meta :: "string \<Rightarrow> string \<Rightarrow> outbox \<Rightarrow> outbox" where
  "set_meta k v ob = ob\<lparr>ob_meta := dict_set k v (ob_meta ob)\<rparr>"

definition outbox_status :: "outbox \<Rightarrow> (job_state \<times> nat) list" where
  "outbox_status ob = map (\<lambda>st. (st, length (filter (\<lambda>(i, j). jb_state j = st) (ob_jobs ob)))) [Pending, Scored, Sent, Deadletter]"

section \<open>Sequences of operations\<close>

datatype outbox_op =
    Enqueue pyval string
  | Save_event string pyval
  | Mark_sent string
  | Mark_failed string string bool
  | Requeue string
  | Set_meta string string

text \<open>An operation that raises leaves the tables alone: its transaction is rolled back.\<close>

definition outbox_exec :: "prims \<Rightarrow> rat \<Rightarrow> outbox_op \<Rightarrow> outbox \<Rightarrow> outbox" where
  "outbox_exec pr now q ob = (case q of
     Enqueue v h \<Rightarrow> (case enqueue pr now v h ob of Inl e \<Rightarrow> ob | Inr (b, ob') \<Rightarrow> ob')
   | Save_event i e \<Rightarrow> (case save_event pr now i e ob of Inl e \<Rightarrow> ob | Inr ob' \<Rightarrow> ob')
   | Mark_sent i \<Rightarrow> (case sent now i ob of Inl e \<Rightarrow> ob | Inr ob' \<Rightarrow> ob')
   | Mark_failed i code r \<Rightarrow> (case failed now i code r ob of Inl e \<Rightarrow> ob | Inr ob' \<Rightarrow> ob')
   | Requeue i \<Rightarrow> (case requeue now i ob of Inl e \<Rightarrow> ob | Inr ob' \<Rightarrow> ob')
   | Set_meta k v \<Rightarrow> set_meta k v ob)"

definition outbox_runs :: "prims \<Rightarrow> (rat \<times> outbox_op) list \<Rightarrow> outbox \<Rightarrow> outbox" where
  "outbox_runs pr qs ob = foldl (\<lambda>ob (now, q). outbox_exec pr now q ob) ob qs"

text \<open>A job keeps its input and its result, and its state fits what it holds.\<close>

definition job_follows :: "job \<Rightarrow> job \<Rightarrow> bool" where
  "job_follows j j' \<longleftrightarrow> jb_hash j' = jb_hash j \<and> jb_vector j' = jb_vector j \<and> jb_created j' = jb_created j \<and>
     (jb_event j \<noteq> None \<longrightarrow> jb_event j' = jb_event j) \<and> jb_attempts j \<le> jb_attempts j'"

definition job_ok :: "prims \<Rightarrow> string \<Rightarrow> job \<Rightarrow> bool" where
  "job_ok pr i j \<longleftrightarrow> i = job_id pr (jb_hash j) (jb_vector j) \<and> is_sha256_hex (jb_hash j) \<and>
     (jb_state j = Pending \<longrightarrow> jb_event j = None) \<and> (jb_state j = Scored \<or> jb_state j = Sent \<longrightarrow> jb_event j \<noteq> None)"

definition outbox_ok :: "prims \<Rightarrow> outbox \<Rightarrow> bool" where
  "outbox_ok pr ob \<longleftrightarrow> distinct (dict_keys (ob_jobs ob)) \<and> (\<forall>i j. dict_get (ob_jobs ob) i = Some j \<longrightarrow> job_ok pr i j)"

definition outbox_follows :: "outbox \<Rightarrow> outbox \<Rightarrow> bool" where
  "outbox_follows ob ob' \<longleftrightarrow> (\<forall>i j. dict_get (ob_jobs ob) i = Some j \<longrightarrow> (\<exists>j'. dict_get (ob_jobs ob') i = Some j' \<and> job_follows j j'))"

lemma job_follows_refl [simp]: "job_follows j j"
  by (simp add: job_follows_def)

lemma job_follows_trans: "job_follows a b \<Longrightarrow> job_follows b c \<Longrightarrow> job_follows a c"
  by (auto simp: job_follows_def)

lemma outbox_follows_refl [simp]: "outbox_follows ob ob"
  by (simp add: outbox_follows_def)

lemma outbox_follows_trans: "outbox_follows a b \<Longrightarrow> outbox_follows b c \<Longrightarrow> outbox_follows a c"
  unfolding outbox_follows_def by (meson job_follows_trans)

lemma update_job_ok:
  assumes "update_job i P f ob = Inr (n, ob')" "outbox_ok pr ob"
    and "\<And>j. P j \<Longrightarrow> job_ok pr i j \<Longrightarrow> job_ok pr i (f j) \<and> job_follows j (f j)"
  shows "outbox_ok pr ob' \<and> outbox_follows ob ob'"
proof (cases "dict_get (ob_jobs ob) i")
  case None
  then have "ob' = ob" using assms(1) unfolding update_job_def None by simp
  then show ?thesis using assms(2) by simp
next
  case (Some j)
  show ?thesis
  proof (cases "P j")
    case False
    then show ?thesis using Some assms(1,2) by (simp add: update_job_def)
  next
    case True
    have ok: "job_ok pr i j" using Some assms(2) unfolding outbox_ok_def by blast
    have ob': "ob' = ob\<lparr>ob_jobs := dict_set i (f j) (ob_jobs ob)\<rparr>"
      using assms(1) Some True by (auto simp: update_job_def bindR_eq_Inr)
    note f = assms(3) [OF True ok]
    have "outbox_ok pr ob'"
      unfolding outbox_ok_def ob' using assms(2) f by (auto simp: outbox_ok_def distinct_dict_set)
    moreover have "outbox_follows ob ob'" unfolding outbox_follows_def ob' using Some f by auto
    ultimately show ?thesis by blast
  qed
qed

lemma new_job_ok:
  assumes "outbox_ok pr ob" "i \<notin> set (dict_keys (ob_jobs ob))" "job_ok pr i j"
  shows "outbox_ok pr (ob\<lparr>ob_jobs := ob_jobs ob @ [(i, j)]\<rparr>) \<and> outbox_follows ob (ob\<lparr>ob_jobs := ob_jobs ob @ [(i, j)]\<rparr>)"
proof -
  have "ob_jobs ob @ [(i, j)] = dict_set i j (ob_jobs ob)" using dict_set_new [OF assms(2)] by simp
  moreover have "dict_get (ob_jobs ob) i = None" using assms(2) by simp
  ultimately show ?thesis
    using assms(1,3) by (auto simp: outbox_ok_def outbox_follows_def distinct_dict_set simp del: dict_get_None_iff)
qed

lemma enqueue_cases:
  assumes "enqueue pr now v h ob = Inr (b, ob')"
  shows "ob' = ob \<or> (\<exists>i j. i \<notin> set (dict_keys (ob_jobs ob)) \<and> job_ok pr i j \<and> ob' = ob\<lparr>ob_jobs := ob_jobs ob @ [(i, j)]\<rparr>)"
proof -
  obtain body where "is_sha256_hex h" "canonical pr v = Inr body" using assms by (auto simp: enqueue_def bindR_eq_Inr)
  note b = this
  let ?j = "\<lparr>jb_hash = h, jb_vector = body, jb_event = None, jb_state = Pending, jb_attempts = 0, jb_next = 0, jb_error = None,
    jb_created = now, jb_updated = now\<rparr>"
  have "job_ok pr (job_id pr h body) ?j" using b by (simp add: job_ok_def)
  moreover have "ob' = ob \<or> job_id pr h body \<notin> set (dict_keys (ob_jobs ob)) \<and> ob' = ob\<lparr>ob_jobs := ob_jobs ob @ [(job_id pr h body, ?j)]\<rparr>"
    using assms b by (simp add: enqueue_def Let_def split: if_splits)
  ultimately show ?thesis by blast
qed

lemma outbox_exec_ok:
  assumes ok: "outbox_ok pr ob"
  shows "outbox_ok pr (outbox_exec pr now q ob) \<and> outbox_follows ob (outbox_exec pr now q ob)"
proof -
  have up: "outbox_ok pr ob' \<and> outbox_follows ob ob'"
    if "bindR (update_job i P f ob) (\<lambda>(n, ob'). g n ob') = Inr ob'" "\<And>n x. g n x = Inr ob' \<Longrightarrow> x = ob'"
      "\<And>j. P j \<Longrightarrow> job_ok pr i j \<Longrightarrow> job_ok pr i (f j) \<and> job_follows j (f j)" for i P f g ob'
  proof -
    from that(1) obtain p where p: "update_job i P f ob = Inr p" "(case p of (n, x) \<Rightarrow> g n x) = Inr ob'" by (rule bindR_InrE)
    obtain n x where x: "p = (n, x)" by fastforce
    have "x = ob'" using that(2) [of n x] p(2) x by simp
    then have "update_job i P f ob = Inr (n, ob')" using p(1) x by simp
    then show ?thesis by (rule update_job_ok [OF _ ok]) (rule that(3))
  qed
  show ?thesis
  proof (cases q)
    case (Enqueue v h)
    have "outbox_ok pr ob' \<and> outbox_follows ob ob'" if "enqueue pr now v h ob = Inr (b, ob')" for b ob'
      using enqueue_cases [OF that] new_job_ok [OF ok] ok by auto
    then show ?thesis using ok Enqueue by (simp add: outbox_exec_def split: sum.split prod.split)
  next
    case (Save_event i e)
    have "outbox_ok pr ob' \<and> outbox_follows ob ob'" if sv: "save_event pr now i e ob = Inr ob'" for ob'
    proof -
      obtain body where "bindR (update_job i (\<lambda>j. jb_state j = Pending)
          (\<lambda>j. j\<lparr>jb_event := Some body, jb_state := Scored, jb_error := None, jb_updated := now\<rparr>) ob) (\<lambda>(n, ob'). Inr ob') = Inr ob'"
        using sv unfolding save_event_def by (rule bindR_InrE)
      then show ?thesis by (rule up) (auto simp: job_ok_def job_follows_def)
    qed
    then show ?thesis using ok Save_event by (simp add: outbox_exec_def split: sum.split)
  next
    case (Mark_sent i)
    have "outbox_ok pr ob' \<and> outbox_follows ob ob'" if "sent now i ob = Inr ob'" for ob'
      using that unfolding sent_def by (rule up) (auto simp: job_ok_def job_follows_def)
    then show ?thesis using ok Mark_sent by (simp add: outbox_exec_def split: sum.split)
  next
    case (Mark_failed i code r)
    have "outbox_ok pr ob' \<and> outbox_follows ob ob'" if f: "failed now i code r ob = Inr ob'" for ob'
    proof (cases "dict_get (ob_jobs ob) i")
      case (Some row)
      have k: "job_ok pr i row" using ok Some unfolding outbox_ok_def by blast
      let ?f = "\<lambda>j. j\<lparr>jb_state := (if r then jb_state row else Deadletter), jb_attempts := Suc (jb_attempts row),
        jb_next := now + retry_delay (Suc (jb_attempts row)), jb_error := Some code, jb_updated := now\<rparr>"
      have "update_job i (\<lambda>j. True) ?f ob = update_job i (\<lambda>j. j = row) ?f ob" by (simp add: update_job_def Some)
      then have "bindR (update_job i (\<lambda>j. j = row) ?f ob) (\<lambda>(n, ob'). Inr ob') = Inr ob'"
        using f Some by (simp add: failed_def Let_def)
      then show ?thesis by (rule up) (use k in \<open>auto simp: job_ok_def job_follows_def\<close>)
    qed (use f in \<open>simp add: failed_def del: dict_get_None_iff\<close>)
    then show ?thesis using ok Mark_failed by (simp add: outbox_exec_def split: sum.split)
  next
    case (Requeue i)
    have "outbox_ok pr ob' \<and> outbox_follows ob ob'" if "requeue now i ob = Inr ob'" for ob'
      using that unfolding requeue_def by (rule up) (auto simp: job_ok_def job_follows_def split: if_splits)
    then show ?thesis using ok Requeue by (simp add: outbox_exec_def split: sum.split)
  next
    case (Set_meta k v)
    then show ?thesis using ok by (simp add: outbox_exec_def set_meta_def outbox_ok_def outbox_follows_def)
  qed
qed

lemma outbox_runs_ok:
  "outbox_ok pr ob \<Longrightarrow> outbox_ok pr (outbox_runs pr qs ob) \<and> outbox_follows ob (outbox_runs pr qs ob)"
proof (induction qs arbitrary: ob)
  case (Cons a qs)
  obtain now q where a: "a = (now, q)" by fastforce
  note e = outbox_exec_ok [OF Cons.prems, of now q]
  from Cons.IH [OF conjunct1 [OF e]] show ?case
    using outbox_follows_trans [OF conjunct2 [OF e]] a by (simp add: outbox_runs_def)
qed (simp add: outbox_runs_def)

section \<open>Properties\<close>

text \<open>
  The outbox loses and alters nothing. Through any sequence of operations at any times, every job
  stays in the queue under the digest of its approved metadata and vector, its input never changes, an
  inference result once saved never changes, a pending job has no result and a scored or sent one has.
\<close>

theorem outbox_keeps_jobs:
  "outbox_ok pr (outbox_runs pr qs empty_outbox) \<and>
   outbox_follows (outbox_runs pr qs empty_outbox) (outbox_runs pr (qs @ qs') empty_outbox)"
proof -
  have "outbox_ok pr empty_outbox" by (simp add: outbox_ok_def empty_outbox_def)
  then have "outbox_ok pr (outbox_runs pr qs empty_outbox)" using outbox_runs_ok by blast
  moreover have "outbox_runs pr (qs @ qs') empty_outbox = outbox_runs pr qs' (outbox_runs pr qs empty_outbox)"
    by (simp add: outbox_runs_def)
  ultimately show ?thesis using outbox_runs_ok by simp
qed

text \<open>
  A transient failure only delays. After a retryable failure the job keeps its state, waits at
  least ten seconds and at most an hour, and is due again from then on; the n-th delay doubles until
  the hour is reached.
\<close>

theorem transient_failure_delays:
  assumes "dict_get (ob_jobs ob) i = Some j" "jb_state j = Pending \<or> jb_state j = Scored"
  shows "\<exists>ob' j'. failed now i code True ob = Inr ob' \<and> dict_get (ob_jobs ob') i = Some j' \<and> jb_state j' = jb_state j \<and>
    10 \<le> jb_next j' - now \<and> jb_next j' - now \<le> 3600 \<and> (jb_attempts j < 9 \<longrightarrow> jb_next j' - now = 10 * 2 ^ jb_attempts j) \<and>
    (\<forall>t. now + 3600 \<le> t \<longrightarrow> is_due t j')"
proof -
  let ?n = "Suc (jb_attempts j)"
  let ?j = "j\<lparr>jb_state := jb_state j, jb_attempts := ?n, jb_next := now + retry_delay ?n, jb_error := Some code, jb_updated := now\<rparr>"
  have f: "failed now i code True ob = Inr (ob\<lparr>ob_jobs := dict_set i ?j (ob_jobs ob)\<rparr>)"
    using assms(1) by (simp add: failed_def update_job_def Let_def trigger_allows_def)
  have p: "(2 :: rat) ^ 1 \<le> 2 ^ min ?n 10" by (intro power_increasing) simp_all
  have d: "10 \<le> retry_delay ?n" "retry_delay ?n \<le> 3600" using p by (simp_all add: retry_delay_def)
  have e: "retry_delay ?n = 10 * 2 ^ jb_attempts j" if "jb_attempts j < 9"
  proof -
    have "(2 :: rat) ^ jb_attempts j \<le> 2 ^ 8" using that by (intro power_increasing) simp_all
    then show ?thesis using that by (simp add: retry_delay_def min_def)
  qed
  show ?thesis
    using f d e assms(2) by (intro exI [of _ "ob\<lparr>ob_jobs := dict_set i ?j (ob_jobs ob)\<rparr>"] exI [of _ ?j]) (auto simp: is_due_def)
qed

theorem transient_failure_delays_witness:
  "\<exists>ob' j'. failed 7 ''job-1'' ''HTTP_503'' True \<lparr>ob_jobs = [(''job-1'', \<lparr>jb_hash = ''h'', jb_vector = ''v'', jb_event = None, jb_state = Pending,
     jb_attempts = 2, jb_next = 0, jb_error = None, jb_created = 1, jb_updated = 1\<rparr>)], ob_meta = []\<rparr> = Inr ob' \<and>
     dict_get (ob_jobs ob') ''job-1'' = Some j' \<and> jb_next j' - 7 = 40"
proof -
  let ?j = "\<lparr>jb_hash = ''h'', jb_vector = ''v'', jb_event = None, jb_state = Pending,
     jb_attempts = 2, jb_next = 0, jb_error = None, jb_created = 1, jb_updated = 1\<rparr>"
  have "dict_get (ob_jobs \<lparr>ob_jobs = [(''job-1'', ?j)], ob_meta = []\<rparr>) ''job-1'' = Some ?j" "jb_state ?j = Pending \<or> jb_state ?j = Scored"
    by simp_all
  from transient_failure_delays [OF this, of 7 "''HTTP_503''"] show ?thesis by auto
qed

text \<open>
  Enqueueing is idempotent: a vector that was accepted once under an approved model is not queued
  again, however often and whenever it is offered, and the second offer changes nothing.
\<close>

theorem enqueue_idempotent:
  assumes ok: "outbox_ok pr ob" and enq: "enqueue pr t1 v h ob = Inr (b, ob1)"
  shows "enqueue pr t2 v h (outbox_runs pr qs ob1) = Inr (False, outbox_runs pr qs ob1)"
proof -
  obtain body where body: "canonical pr v = Inr body" "is_sha256_hex h"
    using enq by (auto simp: enqueue_def bindR_eq_Inr)
  let ?i = "job_id pr h body"
  have "ob1 = outbox_exec pr t1 (Enqueue v h) ob" using enq by (simp add: outbox_exec_def)
  then have ok1: "outbox_ok pr ob1" using outbox_exec_ok [OF ok] by simp
  have "?i \<in> set (dict_keys (ob_jobs ob1))"
    using enq body by (auto simp: enqueue_def Let_def split: if_splits)
  then obtain j where "dict_get (ob_jobs ob1) ?i = Some j" by (metis dict_get_None_iff not_None_eq)
  then have "dict_get (ob_jobs (outbox_runs pr qs ob1)) ?i \<noteq> None"
    using outbox_runs_ok [OF ok1, of qs] unfolding outbox_follows_def by blast
  then have "?i \<in> set (dict_keys (ob_jobs (outbox_runs pr qs ob1)))" by (metis dict_get_None_iff)
  then show "enqueue pr t2 v h (outbox_runs pr qs ob1) = Inr (False, outbox_runs pr qs ob1)"
    using body by (simp add: enqueue_def Let_def)
qed

theorem enqueue_idempotent_witness:
  "\<exists>ob1. enqueue \<lparr>sha256_hexdigest = id, float_repr = (\<lambda>r. [])\<rparr> 5 (PDict [(''x'', PInt 1)]) (replicate 64 CHR ''a'') empty_outbox = Inr (True, ob1) \<and>
     enqueue \<lparr>sha256_hexdigest = id, float_repr = (\<lambda>r. [])\<rparr> 9 (PDict [(''x'', PInt 1)]) (replicate 64 CHR ''a'') ob1 = Inr (False, ob1)"
proof -
  let ?pr = "\<lparr>sha256_hexdigest = id, float_repr = (\<lambda>r. [])\<rparr>"
  have ok: "outbox_ok ?pr empty_outbox" by (simp add: outbox_ok_def empty_outbox_def)
  have "is_sha256_hex (replicate 64 CHR ''a'')" by (simp add: is_sha256_hex_def list_all_iff)
  then obtain ob1 where e: "enqueue ?pr 5 (PDict [(''x'', PInt 1)]) (replicate 64 CHR ''a'') empty_outbox = Inr (True, ob1)"
    by (simp add: enqueue_def canonical_def empty_outbox_def Let_def)
  from enqueue_idempotent [OF ok e, of 9 "[]"] show ?thesis using e by (simp add: outbox_runs_def)
qed

end
