(* ===== verification/Config.thy ===== *)
theory Config
  imports Policy Adapters Http
begin

text \<open>
  \<^verbatim>\<open>response/service/config.py\<close>: the closed configuration documents of the two services and the
  adapter that stands in for a backend that is not configured. A document is what the YAML loader
  returns, with string keys; the environment is an association list. \<^verbatim>\<open>load_yaml\<close> (file and YAML
  errors become \<^verbatim>\<open>ConfigError\<close>) and \<^verbatim>\<open>build_adapters\<close> (it opens files and TLS contexts) are not modelled.
\<close>

section \<open>Closed documents\<close>

definition closed_doc :: "pyval \<Rightarrow> string list \<Rightarrow> string list \<Rightarrow> string \<Rightarrow> pyval res" where
  "closed_doc v required optional label = (
     if \<not> is_mapping v then Inl (ConfigErr (label @ '' must be a mapping''))
     else
       let missing = filter (\<lambda>k. \<not> has_key v k) required;
           unknown = filter (\<lambda>k. k \<notin> set required \<and> k \<notin> set optional) (map fst (entries v))
       in if missing \<noteq> [] \<or> unknown \<noteq> [] then Inl (ConfigErr (label @ '': missing or unknown keys'')) else Inr v)"

definition elastic_section :: "pyval \<Rightarrow> pyval res" where
  "elastic_section v = closed_doc v [''url'', ''ca'', ''api_key_file''] [] ''elasticsearch''"

text \<open>\<^verbatim>\<open>value not in {...}\<close> hashes the value first.\<close>

definition one_of :: "pyval \<Rightarrow> string list \<Rightarrow> string \<Rightarrow> string res" where
  "one_of v names message = (
     if is_list v \<or> is_mapping v then Inl (TypeErr ''unhashable type'')
     else case v of PStr s \<Rightarrow> (if s \<in> set names then Inr s else Inl (ConfigErr message)) | _ \<Rightarrow> Inl (ConfigErr message))"

definition effective_mode :: "pyval \<Rightarrow> (string \<times> string) list \<Rightarrow> string res" where
  "effective_mode cfg environ = (
     let override = strip (case map_of environ ''SOC_MODE'' of None \<Rightarrow> [] | Some s \<Rightarrow> s);
         mode = (if override \<noteq> [] then PStr override else pget cfg ''mode'')
     in one_of mode [''observe'', ''enforce''] ''mode must be observe or enforce'')"

definition with_mode :: "pyval \<Rightarrow> string \<Rightarrow> pyval" where
  "with_mode cfg mode = PDict (AList.update ''mode'' (PStr mode) (entries cfg))"

definition pget_default :: "pyval \<Rightarrow> string \<Rightarrow> pyval \<Rightarrow> pyval" where
  "pget_default v k d = (if has_key v k then pget v k else d)"

definition int_between :: "pyval \<Rightarrow> int \<Rightarrow> int \<Rightarrow> string \<Rightarrow> unit res" where
  "int_between v lo hi message = guardR (case v of PInt i \<Rightarrow> lo \<le> i \<and> i \<le> hi | _ \<Rightarrow> False) (ConfigErr message)"

section \<open>The response service\<close>

definition response_required :: "string list" where
  "response_required = [''schema_version'', ''mode'', ''state_dir'', ''policy_file'', ''verify_keys_dir'',
     ''elasticsearch'', ''listen'', ''firewall'']"

definition response_optional :: "string list" where
  "response_optional = [''wazuh'', ''tick_seconds'']"

definition peer_keys :: "string \<Rightarrow> string list" where
  "peer_keys backend = (if backend = ''nftables'' then [''name'', ''url'', ''ca'', ''client_cert'', ''client_key'']
     else if backend = ''vyos'' then [''name'', ''url'', ''ca'', ''api_key_file'']
     else [''name'', ''url'', ''ca'', ''credentials_file''])"

definition firewall_section :: "pyval \<Rightarrow> unit res" where
  "firewall_section v =
     bindR (closed_doc v [''backend'', ''peers''] [] ''firewall'') (\<lambda>firewall.
     bindR (one_of (pget firewall ''backend'') [''nftables'', ''vyos'', ''opnsense'']
       ''firewall backend must be nftables, vyos or opnsense'') (\<lambda>backend.
     let peers = pget firewall ''peers'' in
     bindR (guardR (is_list peers \<and> 2 \<le> length (elements peers)) (ConfigErr ''at least two firewall peers are required'')) (\<lambda>_.
     bindR (mapR (\<lambda>peer. closed_doc peer (peer_keys backend) [] ''firewall peer'') (elements peers)) (\<lambda>_. Inr ()))))"

definition parse_response_service :: "pyval \<Rightarrow> (string \<times> string) list \<Rightarrow> pyval res" where
  "parse_response_service document environ =
     bindR (closed_doc document response_required response_optional ''response service'') (\<lambda>cfg0.
     bindR (guardR (pget cfg0 ''schema_version'' = PStr ''response-service-v1'') (ConfigErr ''unsupported response service schema'')) (\<lambda>_.
     bindR (effective_mode cfg0 environ) (\<lambda>mode.
     let cfg = with_mode cfg0 mode in
     bindR (elastic_section (pget cfg ''elasticsearch'')) (\<lambda>_.
     bindR (closed_doc (pget cfg ''listen'') [''host'', ''port'', ''cert'', ''key'', ''client_ca''] [] ''listen'') (\<lambda>_.
     bindR (firewall_section (pget cfg ''firewall'')) (\<lambda>_.
     bindR (if has_key cfg ''wazuh'' then closed_doc (pget cfg ''wazuh'') [''url'', ''ca'', ''credentials_file''] [] ''wazuh''
       else Inr PNone) (\<lambda>_.
     bindR (int_between (pget_default cfg ''tick_seconds'' (PInt 10)) 2 300
       ''tick_seconds must be an integer between 2 and 300'') (\<lambda>_.
     Inr cfg))))))))"

section \<open>The decision service\<close>

definition decision_required :: "string list" where
  "decision_required = [''schema_version'', ''mode'', ''state_dir'', ''policy_file'', ''signing_key_file'',
     ''signing_key_id'', ''elasticsearch'']"

definition decision_optional :: "string list" where
  "decision_optional = [''orchestrator'', ''protected_assets'', ''threat_intel_file'', ''poll_seconds'', ''min_score'']"

definition score_ok :: "pyval \<Rightarrow> bool" where
  "score_ok v = (case as_number v of Some (Fin r) \<Rightarrow> float_0_9 \<le> r \<and> r \<le> 1 | _ \<Rightarrow> False)"

definition parse_decision_service :: "pyval \<Rightarrow> (string \<times> string) list \<Rightarrow> pyval res" where
  "parse_decision_service document environ =
     bindR (closed_doc document decision_required decision_optional ''decision service'') (\<lambda>cfg0.
     bindR (guardR (pget cfg0 ''schema_version'' = PStr ''decision-service-v1'') (ConfigErr ''unsupported decision service schema'')) (\<lambda>_.
     bindR (effective_mode cfg0 environ) (\<lambda>mode.
     let cfg = with_mode cfg0 mode in
     bindR (elastic_section (pget cfg ''elasticsearch'')) (\<lambda>_.
     bindR (if pget cfg ''mode'' = PStr ''enforce''
       then closed_doc (pget cfg ''orchestrator'') [''url'', ''ca'', ''client_cert'', ''client_key''] [] ''orchestrator''
       else Inr PNone) (\<lambda>_.
     bindR (int_between (pget_default cfg ''poll_seconds'' (PInt 15)) 5 600
       ''poll_seconds must be an integer between 5 and 600'') (\<lambda>_.
     bindR (guardR (score_ok (pget_default cfg ''min_score'' (PFloat (Fin float_0_9))))
       (ConfigErr ''min_score must be between 0.90 and 1'')) (\<lambda>_.
     Inr cfg)))))))"

section \<open>The unavailable adapter\<close>

definition unavailable_reference :: "prims \<Rightarrow> string \<Rightarrow> pyval \<Rightarrow> string res" where
  "unavailable_reference pr nm command = Inr (nm @ '':unconfigured:'' @ py_str pr (pget command ''idempotency_key''))"

definition unavailable_fail :: "string \<Rightarrow> ('w, adapter_reply) ex" where
  "unavailable_fail action = returnX (Outcome (outcome_failure ''BACKEND_NOT_CONFIGURED''
     (action @ '' has no configured backend'') []))"

definition unavailable_adapter :: "prims \<Rightarrow> string \<Rightarrow> string \<Rightarrow> 'w adapter" where
  "unavailable_adapter pr nm action = \<lparr>ad_name = nm, ad_action = action,
     ad_recovery_reference = unavailable_reference pr nm,
     ad_apply = (\<lambda>command. unavailable_fail action),
     ad_verify = (\<lambda>command reference. unavailable_fail action),
     ad_revert = (\<lambda>command reference. returnX (Outcome (outcome_success reference [''unconfigured:noop''])))\<rparr>"

interpretation unavailable: containment_adapter "unavailable_reference pr nm" "\<lambda>command. unavailable_fail action"
    "\<lambda>command reference. unavailable_fail action"
    "\<lambda>command reference. returnX (Outcome (outcome_success reference [''unconfigured:noop'']))" for pr nm action
  by unfold_locales (auto simp: unavailable_reference_def unavailable_fail_def)

section \<open>Lemmas\<close>

lemma closed_doc_Inr:
  "closed_doc v required optional label = Inr w \<longleftrightarrow>
     w = v \<and> is_mapping v \<and> set required \<subseteq> pkeys v \<and> pkeys v \<subseteq> set required \<union> set optional"
  unfolding closed_doc_def by (auto simp: Let_def has_key_def pkeys_def filter_empty_conv)

lemma closed_doc_exact: "closed_doc v required [] label = Inr w \<longleftrightarrow> w = v \<and> is_mapping v \<and> pkeys v = set required"
  by (auto simp: closed_doc_Inr)

lemma one_of_Inr: "one_of v names message = Inr s \<longleftrightarrow> v = PStr s \<and> s \<in> set names"
  by (cases v) (auto simp: one_of_def)

lemma with_mode_simps [simp]:
  "pget (with_mode cfg m) k = (if k = ''mode'' then PStr m else pget cfg k)"
  "is_mapping (with_mode cfg m)"
  by (auto simp: with_mode_def update_conv' pget_def)

lemma pkeys_with_mode [simp]: "pkeys (with_mode cfg m) = insert ''mode'' (pkeys cfg)"
  by (simp add: with_mode_def pkeys_def dom_update)

lemma int_between_Inr: "int_between v lo hi message = Inr u \<longleftrightarrow> (\<exists>i. v = PInt i \<and> lo \<le> i \<and> i \<le> hi)"
  by (cases v) (auto simp: int_between_def)

lemma mapR_closed: "mapR (\<lambda>p. closed_doc p ks [] label) ps = Inr qs \<longleftrightarrow> qs = ps \<and> (\<forall>p \<in> set ps. is_mapping p \<and> pkeys p = set ks)"
  by (induction ps arbitrary: qs) (auto simp: closed_doc_exact bindR_eq_Inr)

abbreviation config_exns :: "exn set" where
  "config_exns \<equiv> insert (TypeErr ''unhashable type'') (range ConfigErr)"

lemma closed_doc_raises: "raises_only config_exns (closed_doc v required optional label)"
  by (simp add: closed_doc_def raises_only_def Let_def)

lemma one_of_raises: "raises_only config_exns (one_of v names message)"
  by (cases v) (simp_all add: one_of_def raises_only_def)

lemma mapR_raises: "(\<And>x. raises_only E (f x)) \<Longrightarrow> raises_only E (mapR f xs)"
  by (induction xs) (auto intro!: raises_only_intros)

lemma int_between_raises: "raises_only config_exns (int_between v lo hi message)"
  by (simp add: int_between_def raises_only_intros)

lemmas config_raises = raises_only_intros closed_doc_raises one_of_raises int_between_raises mapR_raises

lemma firewall_section_raises: "raises_only config_exns (firewall_section v)"
  unfolding firewall_section_def Let_def by (intro config_raises) simp

lemma if_raises: "raises_only E a \<Longrightarrow> raises_only E b \<Longrightarrow> raises_only E (if c then a else b)"
  by simp

lemma parse_response_raises: "raises_only config_exns (parse_response_service document environ)"
  unfolding parse_response_service_def elastic_section_def effective_mode_def Let_def
  by (intro config_raises firewall_section_raises if_raises) simp_all

lemma parse_decision_raises: "raises_only config_exns (parse_decision_service document environ)"
  unfolding parse_decision_service_def elastic_section_def effective_mode_def Let_def
  by (intro config_raises if_raises) simp_all

section \<open>Correctness\<close>

text \<open>The shape the services rely on after parsing.\<close>

definition section_ok :: "pyval \<Rightarrow> string list \<Rightarrow> bool" where
  "section_ok v ks \<longleftrightarrow> is_mapping v \<and> pkeys v = set ks"

definition firewall_ok :: "pyval \<Rightarrow> bool" where
  "firewall_ok v \<longleftrightarrow> section_ok v [''backend'', ''peers''] \<and>
     sget v ''backend'' \<in> {''nftables'', ''vyos'', ''opnsense''} \<and> is_list (pget v ''peers'') \<and>
     2 \<le> length (elements (pget v ''peers'')) \<and>
     list_all (\<lambda>p. section_ok p (peer_keys (sget v ''backend''))) (elements (pget v ''peers''))"

definition override_ok :: "pyval \<Rightarrow> (string \<times> string) list \<Rightarrow> pyval \<Rightarrow> bool" where
  "override_ok doc environ cfg \<longleftrightarrow>
     pkeys cfg = pkeys doc \<and> (\<forall>k. k \<noteq> ''mode'' \<longrightarrow> pget cfg k = pget doc k) \<and>
     pget cfg ''mode'' \<in> {PStr ''observe'', PStr ''enforce''} \<and>
     pget cfg ''mode'' = (case map_of environ ''SOC_MODE'' of
        Some m \<Rightarrow> (if strip m = [] then pget doc ''mode'' else PStr (strip m)) | None \<Rightarrow> pget doc ''mode'')"

lemma effective_mode_ok:
  assumes "effective_mode doc environ = Inr m" "''mode'' \<in> pkeys doc"
  shows "override_ok doc environ (with_mode doc m)"
proof -
  let ?v = "case map_of environ ''SOC_MODE'' of Some m \<Rightarrow> (if strip m = [] then pget doc ''mode'' else PStr (strip m)) | None \<Rightarrow> pget doc ''mode''"
  have "effective_mode doc environ = one_of ?v [''observe'', ''enforce''] ''mode must be observe or enforce''"
    unfolding effective_mode_def Let_def by (cases "map_of environ ''SOC_MODE''") (simp_all add: strip_def del: dict_get_None_iff)
  from this [symmetric] assms(1) have "one_of ?v [''observe'', ''enforce''] ''mode must be observe or enforce'' = Inr m" by (rule trans)
  then have m: "?v = PStr m" "m \<in> {''observe'', ''enforce''}" by (simp_all only: one_of_Inr list.set)
  show ?thesis unfolding override_ok_def m(1) using m(2) assms(2) by auto
qed

lemma firewall_section_ok:
  assumes "firewall_section v = Inr u"
  shows "firewall_ok v"
proof -
  from assms obtain b where "is_mapping v" "pkeys v = set [''backend'', ''peers'']" and b: "pget v ''backend'' = PStr b"
    "b \<in> set [''nftables'', ''vyos'', ''opnsense'']" and p: "is_list (pget v ''peers'')" "2 \<le> length (elements (pget v ''peers''))"
    "\<forall>p \<in> set (elements (pget v ''peers'')). is_mapping p \<and> pkeys p = set (peer_keys b)"
    unfolding firewall_section_def Let_def
    by (elim bindR_InrE bind_guardR_InrE) (auto simp only: closed_doc_exact one_of_Inr mapR_closed)
  then show ?thesis unfolding firewall_ok_def section_ok_def sget_PStr [OF b(1)] list_all_iff by simp
qed

lemma optional_int:
  assumes "int_between (pget_default cfg k d) lo hi message = Inr u"
  shows "if has_key cfg k then pget cfg k \<in> PInt ` {lo..hi} else True"
  using assms by (auto simp: int_between_Inr pget_default_def)

lemma elastic_section_ok: "elastic_section v = Inr u \<Longrightarrow> section_ok v [''url'', ''ca'', ''api_key_file'']"
  by (simp only: elastic_section_def closed_doc_exact section_ok_def)

lemma closed_section: "closed_doc v ks [] label = Inr u \<Longrightarrow> section_ok v ks"
  by (simp only: closed_doc_exact section_ok_def)

lemma optional_section:
  assumes "(if b then closed_doc v ks [] label else Inr PNone) = Inr u"
  shows "if b then section_ok v ks else True"
  using assms by (cases b) (simp_all add: closed_section)

lemma optional_score:
  assumes "score_ok (pget_default cfg k d)"
  shows "if has_key cfg k then score_ok (pget cfg k) else True"
  using assms by (cases "has_key cfg k") (simp_all add: pget_default_def)

lemma top_level:
  assumes "closed_doc doc req opt label = Inr x" "effective_mode x environ = Inr m" "''mode'' \<in> set req"
  shows "override_ok doc environ (with_mode x m) \<and> set req \<subseteq> pkeys (with_mode x m) \<and> pkeys (with_mode x m) \<subseteq> set req \<union> set opt"
proof -
  have x: "x = doc" "set req \<subseteq> pkeys doc" "pkeys doc \<subseteq> set req \<union> set opt"
    using assms(1) unfolding closed_doc_Inr by blast+
  have "''mode'' \<in> pkeys doc" using x(2) assms(3) by blast
  from effective_mode_ok [OF assms(2) [unfolded x(1)] this] have o: "override_ok doc environ (with_mode doc m)" .
  then have "pkeys (with_mode doc m) = pkeys doc" unfolding override_ok_def by (rule conjunct1)
  with o x show ?thesis by (simp only: simp_thms)
qed

text \<open>
  Accepted configurations are closed. A document the response service accepts has exactly the known
  keys at every level, at least two fully specified peers of one supported backend and a tick between
  2 and 300 seconds; one the decision service accepts names an orchestrator whenever it enforces,
  polls between 5 and 600 seconds and has a score floor between 0.9 and 1. The mode is \<^verbatim>\<open>observe\<close> or
  \<^verbatim>\<open>enforce\<close>, taken from \<^verbatim>\<open>SOC_MODE\<close> when that is set and not blank, and nothing else of the document
  changes. Every other document raises \<^verbatim>\<open>ConfigError\<close>, or \<^verbatim>\<open>TypeError\<close> when a mode or backend is a
  list or a mapping.
\<close>

theorem accepted_config_shape:
  "(case parse_response_service doc environ of
      Inl e \<Rightarrow> e \<in> range ConfigErr \<or> e = TypeErr ''unhashable type''
    | Inr cfg \<Rightarrow> override_ok doc environ cfg \<and> set response_required \<subseteq> pkeys cfg \<and>
        pkeys cfg \<subseteq> set response_required \<union> set response_optional \<and>
        section_ok (pget cfg ''elasticsearch'') [''url'', ''ca'', ''api_key_file''] \<and>
        section_ok (pget cfg ''listen'') [''host'', ''port'', ''cert'', ''key'', ''client_ca''] \<and> firewall_ok (pget cfg ''firewall'') \<and>
        (if has_key cfg ''wazuh'' then section_ok (pget cfg ''wazuh'') [''url'', ''ca'', ''credentials_file''] else True) \<and>
        (if has_key cfg ''tick_seconds'' then pget cfg ''tick_seconds'' \<in> PInt ` {2..300} else True)) \<and>
   (case parse_decision_service doc environ of
      Inl e \<Rightarrow> e \<in> range ConfigErr \<or> e = TypeErr ''unhashable type''
    | Inr cfg \<Rightarrow> override_ok doc environ cfg \<and> set decision_required \<subseteq> pkeys cfg \<and>
        pkeys cfg \<subseteq> set decision_required \<union> set decision_optional \<and>
        section_ok (pget cfg ''elasticsearch'') [''url'', ''ca'', ''api_key_file''] \<and>
        (if pget cfg ''mode'' = PStr ''enforce'' then section_ok (pget cfg ''orchestrator'') [''url'', ''ca'', ''client_cert'', ''client_key'']
          else True) \<and>
        (if has_key cfg ''poll_seconds'' then pget cfg ''poll_seconds'' \<in> PInt ` {5..600} else True) \<and>
        (if has_key cfg ''min_score'' then score_ok (pget cfg ''min_score'') else True))"
proof (intro conjI, goal_cases)
  case 1
  show ?case
  proof (cases "parse_response_service doc environ")
    case (Inl e)
    then show ?thesis using parse_response_raises [of doc environ] by (auto simp: raises_only_def)
  next
    case (Inr cfg)
    then obtain x m u1 u2 u3 u4 u5 where
      top: "closed_doc doc response_required response_optional ''response service'' = Inr x" "effective_mode x environ = Inr m"
      and cfg: "(Inr (with_mode x m) :: pyval res) = Inr cfg"
      and parts: "elastic_section (pget (with_mode x m) ''elasticsearch'') = Inr u1"
        "closed_doc (pget (with_mode x m) ''listen'') [''host'', ''port'', ''cert'', ''key'', ''client_ca''] [] ''listen'' = Inr u2"
        "firewall_section (pget (with_mode x m) ''firewall'') = Inr u3"
        "(if has_key (with_mode x m) ''wazuh'' then closed_doc (pget (with_mode x m) ''wazuh'') [''url'', ''ca'', ''credentials_file''] [] ''wazuh''
          else Inr PNone) = Inr u4"
        "int_between (pget_default (with_mode x m) ''tick_seconds'' (PInt 10)) 2 300
          ''tick_seconds must be an integer between 2 and 300'' = Inr u5"
      unfolding parse_response_service_def Let_def by (elim bindR_InrE bind_guardR_InrE) (rule that)
    have "''mode'' \<in> set response_required" by (simp add: response_required_def)
    from top_level [OF top this] elastic_section_ok [OF parts(1)] closed_section [OF parts(2)]
      firewall_section_ok [OF parts(3)] optional_section [OF parts(4)] optional_int [OF parts(5)]
    show ?thesis using cfg unfolding Inr sum.case sum.inject by metis
  qed
next
  case 2
  show ?case
  proof (cases "parse_decision_service doc environ")
    case (Inl e)
    then show ?thesis using parse_decision_raises [of doc environ] by (auto simp: raises_only_def)
  next
    case (Inr cfg)
    then obtain x m u1 u2 u3 where
      top: "closed_doc doc decision_required decision_optional ''decision service'' = Inr x" "effective_mode x environ = Inr m"
      and cfg: "(Inr (with_mode x m) :: pyval res) = Inr cfg"
      and parts: "elastic_section (pget (with_mode x m) ''elasticsearch'') = Inr u1"
        "(if pget (with_mode x m) ''mode'' = PStr ''enforce''
          then closed_doc (pget (with_mode x m) ''orchestrator'') [''url'', ''ca'', ''client_cert'', ''client_key''] [] ''orchestrator''
          else Inr PNone) = Inr u2"
        "int_between (pget_default (with_mode x m) ''poll_seconds'' (PInt 15)) 5 600
          ''poll_seconds must be an integer between 5 and 600'' = Inr u3"
        "score_ok (pget_default (with_mode x m) ''min_score'' (PFloat (Fin float_0_9)))"
      unfolding parse_decision_service_def Let_def by (elim bindR_InrE bind_guardR_InrE) (rule that)
    have "''mode'' \<in> set decision_required" by (simp add: decision_required_def)
    from top_level [OF top this] elastic_section_ok [OF parts(1)] optional_section [OF parts(2)]
      optional_int [OF parts(3)] optional_score [OF parts(4)]
    show ?thesis using cfg unfolding Inr sum.case sum.inject by metis
  qed
qed

text \<open>The two documents of a small deployment, accepted with the mode raised by the environment.\<close>

definition demo_section :: "string list \<Rightarrow> pyval" where
  "demo_section ks = PDict (map (\<lambda>k. (k, PStr ''x'')) ks)"

definition demo_response_doc :: "string \<Rightarrow> pyval" where
  "demo_response_doc mode = PDict [(''schema_version'', PStr ''response-service-v1''), (''mode'', PStr mode), (''state_dir'', PStr ''s''),
     (''policy_file'', PStr ''p''), (''verify_keys_dir'', PStr ''k''),
     (''elasticsearch'', demo_section [''url'', ''ca'', ''api_key_file'']),
     (''listen'', demo_section [''host'', ''port'', ''cert'', ''key'', ''client_ca'']),
     (''firewall'', PDict [(''backend'', PStr ''vyos''),
        (''peers'', PList [demo_section (peer_keys ''vyos''), demo_section (peer_keys ''vyos'')])]),
     (''tick_seconds'', PInt 30)]"

definition demo_decision_doc :: "string \<Rightarrow> pyval" where
  "demo_decision_doc mode = PDict [(''schema_version'', PStr ''decision-service-v1''), (''mode'', PStr mode), (''state_dir'', PStr ''s''),
     (''policy_file'', PStr ''p''), (''signing_key_file'', PStr ''k''), (''signing_key_id'', PStr ''i''),
     (''elasticsearch'', demo_section [''url'', ''ca'', ''api_key_file'']),
     (''orchestrator'', demo_section [''url'', ''ca'', ''client_cert'', ''client_key''])]"

lemma demo_documents_accepted:
  "parse_response_service (demo_response_doc ''observe'') [(''SOC_MODE'', '' enforce'')] = Inr (demo_response_doc ''enforce'')"
  "parse_decision_service (demo_decision_doc ''enforce'') [] = Inr (demo_decision_doc ''enforce'')"
  "parse_response_service (demo_response_doc ''Observe'') [] = Inl (ConfigErr ''mode must be observe or enforce'')"
  by code_simp+

end
