(* ===== verification/Decision_Runner.thy ===== *)
theory Decision_Runner
  imports Elastic Enforcer Decision_Correctness
begin

text \<open>
  \<^verbatim>\<open>response/service/decision_runner.py\<close>: the loop that reads scored anomalies, gathers the
  independent evidence for each, asks the decision engine and, in \<^verbatim>\<open>enforce\<close> mode, sends the signed
  command. The state is the world (Elasticsearch and the orchestrator behind their networks) next to
  the runner's durable cursor and ledger of outcomes; the clock is an argument. The JSON round trip of the stored
  cursor is the identity.
\<close>

section \<open>Durable state\<close>

record decision_row =
  dr_outcome :: string
  dr_event_id :: "string option"
  dr_detail :: string
  dr_updated_at :: string

record decision_state =
  ds_cursor :: "pyval option"
  ds_decisions :: "decision_row dict"

definition set_cursor :: "pyval \<Rightarrow> decision_state \<Rightarrow> decision_state" where
  "set_cursor v d = d\<lparr>ds_cursor := Some v\<rparr>"

definition record_outcome :: "int \<Rightarrow> string \<Rightarrow> string \<Rightarrow> string option \<Rightarrow> string \<Rightarrow> decision_state \<Rightarrow> decision_state" where
  "record_outcome now anomaly_id outcome eid detail d = d\<lparr>ds_decisions := dict_set anomaly_id
     \<lparr>dr_outcome = outcome, dr_event_id = eid, dr_detail = take 500 detail, dr_updated_at = utc_text now\<rparr> (ds_decisions d)\<rparr>"

definition outcome_counts :: "decision_state \<Rightarrow> nat dict" where
  "outcome_counts d = (let os = map (dr_outcome \<circ> snd) (ds_decisions d) in map (\<lambda>k. (k, count_list os k)) (sort (remdups os)))"

section \<open>The runner\<close>

record 'w runner =
  ru_http :: "'w http"
  ru_engine :: engine
  ru_mode :: string
  ru_send :: "pyval \<Rightarrow> ('w, unit) ex"
  ru_min_score :: rat
  ru_assets :: "string list"
  ru_intel :: "string list"
  ru_policies :: "string dict"
  ru_intel_hash :: string

type_synonym 'w drs = "'w \<times> decision_state"

definition digest :: "prims \<Rightarrow> string list \<Rightarrow> string" where
  "digest pr parts = take 24 (sha256_hexdigest pr (join_with [CHR 0x0A] (sort parts)))"

definition POLICY_BY_TARGET :: "string dict" where
  "POLICY_BY_TARGET = [(''ip'', ''COR-001''), (''host'', ''COR-002'')]"

text \<open>The frozen sets are lists without repetition; a missing sender raises when it is called.\<close>

definition runner_init :: "'w http \<Rightarrow> engine \<Rightarrow> string \<Rightarrow> (pyval \<Rightarrow> ('w, unit) ex) option \<Rightarrow> rat \<Rightarrow> string list \<Rightarrow> string list \<Rightarrow>
  string dict \<Rightarrow> 'w runner res" where
  "runner_init h e mode send min_score assets intel policies =
     bindR (guardR (mode = ''observe'' \<or> mode = ''enforce'') (ValueError ''mode must be observe or enforce'')) (\<lambda>_.
     bindR (guardR (\<not> (mode = ''enforce'' \<and> send = None)) (ValueError ''enforce mode needs an orchestrator sender'')) (\<lambda>_.
     Inr \<lparr>ru_http = h, ru_engine = e, ru_mode = mode,
       ru_send = (case send of Some f \<Rightarrow> f | None \<Rightarrow> \<lambda>c. raiseX (TypeErr ''NoneType object is not callable'')),
       ru_min_score = min_score, ru_assets = sort (remdups assets), ru_intel = remdups intel, ru_policies = policies,
       ru_intel_hash = (if intel \<noteq> [] then digest (e_prims e) (remdups intel) else [])\<rparr>))"

section \<open>Reading documents\<close>

text \<open>\<^verbatim>\<open>v[k]\<close> for a string key, the truth value, and \<^verbatim>\<open>_dig\<close>.\<close>

definition py_item :: "pyval \<Rightarrow> string \<Rightarrow> pyval res" where
  "py_item v k = (if \<not> is_mapping v then Inl (TypeErr ''not subscriptable by a string'')
     else if has_key v k then Inr (pget v k) else Inl (KeyErr k))"

definition py_truth :: "pyval \<Rightarrow> bool" where
  "py_truth v = (v \<notin> {PNone, PBool False, PInt 0, PFloat (Fin 0), PStr [], PList [], PDict []})"

definition or_zero :: "pyval \<Rightarrow> pyval" where
  "or_zero v = (if py_truth v then v else PInt 0)"

fun dig_path :: "pyval \<Rightarrow> string list \<Rightarrow> pyval" where
  "dig_path v [] = v"
| "dig_path v (part # parts) = (if \<not> is_mapping v \<or> \<not> has_key v part then PNone else dig_path (pget v part) parts)"

definition dig :: "pyval \<Rightarrow> string \<Rightarrow> pyval" where
  "dig document dotted = dig_path document (split_on (CHR ''.'') dotted)"

definition alert_severity :: "pyval \<Rightarrow> int res" where
  "alert_severity v = bindR (py_int v) (\<lambda>i. Inr (max 0 (4 - i)))"

text \<open>\<^verbatim>\<open>sorted(xs, key=...)\<close>: every key is computed first, and the sort is stable.\<close>

definition sorted_by :: "('a \<Rightarrow> int res) \<Rightarrow> 'a list \<Rightarrow> 'a list res" where
  "sorted_by key xs = bindR (mapR key xs) (\<lambda>ks. Inr (map snd (sort_key fst (zip ks xs))))"

section \<open>Queries\<close>

definition term_q :: "string \<Rightarrow> pyval \<Rightarrow> pyval" where
  "term_q field v = PDict [(''term'', PDict [(field, v)])]"

definition range_q :: "int \<Rightarrow> int \<Rightarrow> pyval" where
  "range_q start stop = PDict [(''range'', PDict [(''@timestamp'', PDict [(''gte'', PStr (utc_text start)), (''lt'', PStr (utc_text stop))])])]"

definition evidence_query :: "int \<Rightarrow> pyval list \<Rightarrow> string list \<Rightarrow> pyval" where
  "evidence_query n filters source = PDict [(''size'', PInt n), (''sort'', PList [PDict [(''@timestamp'', PStr ''asc'')]]),
     (''query'', PDict [(''bool'', PDict [(''filter'', PList filters)])]), (''_source'', PList (map PStr source))]"

definition alert_source :: "pyval \<Rightarrow> pyval list res" where
  "alert_source hit = bindR (json_get hit ''_source'' PNone) (\<lambda>src. Inr (if is_mapping src then [src] else []))"

definition alerts :: "'w http \<Rightarrow> string \<Rightarrow> string \<Rightarrow> string \<Rightarrow> int \<Rightarrow> int \<Rightarrow> ('w, pyval list) ex" where
  "alerts h dataset field v start stop =
     bindX (es_search h ''soc-alerts-*'' (evidence_query 50
       [term_q ''event.dataset'' (PStr dataset), term_q field (PStr v), range_q start stop]
       [''@timestamp'', ''event.id'', ''event.severity'', ''alert.severity'', ''host.name'', ''source.ip''])) (\<lambda>hits.
     liftX (bindR (mapR alert_source hits) (\<lambda>srcs. Inr (concat srcs))))"

section \<open>Signals\<close>

record evidence_target =
  et_type :: string
  et_value :: string

definition target_doc :: "evidence_target \<Rightarrow> pyval" where
  "target_doc t = PDict [(''type'', PStr (et_type t)), (''value'', PStr (et_value t))]"

definition signal_doc :: "evidence_target \<Rightarrow> string \<Rightarrow> string \<Rightarrow> string \<Rightarrow> (string \<times> pyval) list \<Rightarrow> pyval" where
  "signal_doc t kind reference observed extra = PDict ([(''type'', PStr kind), (''reference'', PStr reference),
     (''observed_at'', PStr observed), (''target'', target_doc t)] @ extra)"

definition suricata_signal :: "prims \<Rightarrow> evidence_target \<Rightarrow> pyval \<Rightarrow> pyval res" where
  "suricata_signal pr t alert =
     bindR (py_item alert ''@timestamp'') (\<lambda>observed.
     bindR (alert_severity (dig alert ''alert.severity'')) (\<lambda>severity.
     Inr (signal_doc t ''suricata'' (py_str pr (dig alert ''event.id'')) (py_str pr observed) [(''severity'', PInt severity)])))"

definition suricata_signals :: "prims \<Rightarrow> evidence_target \<Rightarrow> pyval list \<Rightarrow> pyval list res" where
  "suricata_signals pr t found =
     bindR (sorted_by (\<lambda>a. py_int (dig a ''alert.severity'')) (filter (\<lambda>a. dig a ''alert.severity'' \<noteq> PNone) found)) (\<lambda>ranked.
     mapR (suricata_signal pr t) (take 3 ranked))"

definition honeypot_signals :: "prims \<Rightarrow> evidence_target \<Rightarrow> pyval list \<Rightarrow> pyval list res" where
  "honeypot_signals pr t found = (if found = [] then Inr []
     else (let ids = map (\<lambda>hit. py_str pr (dig hit ''event.id'')) found in
       bindR (mapR (\<lambda>hit. py_int (or_zero (dig hit ''event.severity''))) found) (\<lambda>severities.
       bindR (mapR (\<lambda>hit. py_item hit ''@timestamp'') found) (\<lambda>times.
       Inr [signal_doc t ''honeypot'' (''honeypot:'' @ digest pr ids) (Max (set (map (py_str pr) times)))
         [(''severity'', PInt (Max (set severities))), (''count'', PInt (int (length ids)))]]))))"

definition wazuh_signal :: "prims \<Rightarrow> evidence_target \<Rightarrow> pyval \<Rightarrow> pyval list res" where
  "wazuh_signal pr t alert = (if dig alert ''event.severity'' = PNone then Inr []
     else bindR (py_item alert ''@timestamp'') (\<lambda>observed.
       bindR (py_int (dig alert ''event.severity'')) (\<lambda>severity.
       Inr [signal_doc t ''wazuh'' (py_str pr (dig alert ''event.id'')) (py_str pr observed) [(''severity'', PInt severity)]])))"

definition wazuh_signals :: "prims \<Rightarrow> evidence_target \<Rightarrow> pyval list \<Rightarrow> pyval list res" where
  "wazuh_signals pr t found =
     bindR (sorted_by (\<lambda>a. bindR (py_int (or_zero (dig a ''event.severity''))) (\<lambda>i. Inr (- i))) found) (\<lambda>ranked.
     bindR (mapR (wazuh_signal pr t) (take 3 ranked)) (\<lambda>ss. Inr (concat ss)))"

definition auth_signals :: "prims \<Rightarrow> evidence_target \<Rightarrow> pyval list \<Rightarrow> pyval list res" where
  "auth_signals pr t failures = (if failures = [] then Inr []
     else bindR (mapR (\<lambda>hit. py_item hit ''_source'') failures) (\<lambda>srcs.
       bindR (mapR (\<lambda>src. py_item src ''@timestamp'') srcs) (\<lambda>times.
       let ids = map (\<lambda>src. py_str pr (dig src ''event.id'')) srcs in
       Inr [signal_doc t ''authentication'' (''auth-failures:'' @ digest pr ids) (Max (set (map (py_str pr) times)))
         [(''count'', PInt (int (length ids)))]])))"

definition asset_signals :: "prims \<Rightarrow> evidence_target \<Rightarrow> int \<Rightarrow> pyval list \<Rightarrow> pyval list res" where
  "asset_signals pr t window_end flows = (case flows of [] \<Rightarrow> Inr []
     | flow # rest \<Rightarrow> bindR (py_item flow ''_source'') (\<lambda>src.
         Inr [signal_doc t ''protected_asset''
           (''asset:'' @ py_str pr (dig src ''destination.ip'') @ '':'' @ utc_text window_end) (utc_text window_end) []]))"

definition shifted :: "int \<Rightarrow> int \<Rightarrow> int res" where
  "shifted t d = (if in_range (t + d) then Inr (t + d) else Inl OverflowErr)"

definition SIGNAL_SLACK :: int where
  "SIGNAL_SLACK = 5 * 60 * 1000000"

definition alert_evidence :: "'w runner \<Rightarrow> evidence_target \<Rightarrow> int \<Rightarrow> int \<Rightarrow> ('w, pyval list \<times> pyval list) ex" where
  "alert_evidence ru t start stop = (let h = ru_http ru; pr = e_prims (ru_engine ru); entity = et_value t in
     if et_type t = ''ip'' then
       bindX (alerts h ''suricata.eve'' ''source.ip'' entity start stop) (\<lambda>suricata.
       bindX (liftX (suricata_signals pr t suricata)) (\<lambda>ss.
       bindX (alerts h ''wazuh.alerts'' ''source.ip'' entity start stop) (\<lambda>wazuh.
       bindX (alerts h ''cowrie.honeypot'' ''source.ip'' entity start stop) (\<lambda>honeypot.
       bindX (liftX (honeypot_signals pr t honeypot)) (\<lambda>hs. returnX (ss @ hs, wazuh))))))
     else bindX (alerts h ''wazuh.alerts'' ''host.name'' entity start stop) (\<lambda>wazuh. returnX ([], wazuh)))"

definition auth_query :: "evidence_target \<Rightarrow> int \<Rightarrow> int \<Rightarrow> pyval" where
  "auth_query t start stop = evidence_query 500
     ((if et_type t = ''ip'' then [term_q ''source.ip'' (PStr (et_value t))]
       else [term_q ''host.name'' (PStr (et_value t)), term_q ''event.category'' (PStr ''authentication'')])
      @ [term_q ''event.outcome'' (PStr ''failure''), range_q start stop])
     [''@timestamp'', ''event.id'']"

definition intel_signals :: "'w runner \<Rightarrow> evidence_target \<Rightarrow> int \<Rightarrow> pyval list" where
  "intel_signals ru t window_end = (if et_value t \<in> set (ru_intel ru)
     then [signal_doc t ''threat_intel'' (''intel:'' @ take 12 (ru_intel_hash ru) @ '':'' @ et_value t) (utc_text window_end) []] else [])"

definition asset_evidence :: "'w runner \<Rightarrow> evidence_target \<Rightarrow> int \<Rightarrow> int \<Rightarrow> ('w, pyval list) ex" where
  "asset_evidence ru t window_start window_end = (if et_type t = ''ip'' \<and> ru_assets ru \<noteq> [] then
       bindX (es_search (ru_http ru) ''soc-network-*'' (evidence_query 50
         [term_q ''source.ip'' (PStr (et_value t)),
          PDict [(''terms'', PDict [(''destination.ip'', PList (map PStr (ru_assets ru)))])],
          range_q window_start window_end] [''destination.ip'', ''@timestamp''])) (\<lambda>flows.
       liftX (asset_signals (e_prims (ru_engine ru)) t window_end flows))
     else returnX [])"

definition signals :: "'w runner \<Rightarrow> evidence_target \<Rightarrow> int \<Rightarrow> int \<Rightarrow> ('w, pyval list) ex" where
  "signals ru t window_start window_end = (let pr = e_prims (ru_engine ru) in
     bindX (liftX (shifted window_start (- SIGNAL_SLACK))) (\<lambda>start.
     bindX (liftX (shifted window_end SIGNAL_SLACK)) (\<lambda>stop.
     bindX (alert_evidence ru t start stop) (\<lambda>(alerted, wazuh).
     bindX (liftX (wazuh_signals pr t wazuh)) (\<lambda>ws.
     bindX (es_search (ru_http ru) (if et_type t = ''ip'' then ''soc-auth-*'' else ''soc-endpoint-*'') (auth_query t start stop)) (\<lambda>failures.
     bindX (liftX (auth_signals pr t failures)) (\<lambda>fs.
     bindX (asset_evidence ru t window_start window_end) (\<lambda>assets.
     returnX (alerted @ ws @ fs @ intel_signals ru t window_end @ assets)))))))))"

section \<open>One anomaly\<close>

definition anomaly_target :: "prims \<Rightarrow> pyval \<Rightarrow> evidence_target option res" where
  "anomaly_target pr vector =
     bindR (json_get vector ''entity_type'' PNone) (\<lambda>et.
     let kind = map_of [(''src_ip'', ''ip''), (''host'', ''host'')] (py_str pr et) in
     Inr (case (kind, pget vector ''entity'') of
         (Some k, PStr e) \<Rightarrow> (if e \<noteq> [] then Some \<lparr>et_type = k, et_value = e\<rparr> else None)
       | _ \<Rightarrow> None))"

definition observe_event :: "pyval \<Rightarrow> pyval" where
  "observe_event event = (
     let decision = entries (pget event ''decision'');
         updated = dict_set ''reason'' (PStr ''observe mode: eligible for automatic response, which is disabled'')
           (dict_set ''automatic_response_eligible'' (PBool False) (dict_set ''action'' (PStr ''none'')
           (dict_set ''outcome'' (PStr ''alert'') decision)))
     in PDict (dict_set ''decision'' (PDict (AList.delete ''response_request_id'' updated)) (entries event)))"

definition write_decision :: "'w http \<Rightarrow> pyval \<Rightarrow> ('w, bool) ex" where
  "write_decision h event =
     bindX (liftX (utc_of_text (sget event ''@timestamp''))) (\<lambda>t.
     es_create h (''soc-response-'' @ day_suffix t) (sget (pget event ''event'') ''id'') event)"

definition on_w :: "('w, 'a) ex \<Rightarrow> ('w drs, 'a) ex" where
  "on_w m s = (case m (fst s) of (r, w) \<Rightarrow> (r, (w, snd s)))"

definition on_d :: "(decision_state \<Rightarrow> decision_state) \<Rightarrow> ('w drs, unit) ex" where
  "on_d f s = (Inr (), (fst s, f (snd s)))"

text \<open>The event the ledger of decisions gets, and the writing half of \<^verbatim>\<open>handle\<close>.\<close>

definition published_event :: "'w runner \<Rightarrow> decision_result \<Rightarrow> pyval \<Rightarrow> pyval" where
  "published_event ru result event = (if d_eligible result \<and> ru_mode ru \<noteq> ''enforce'' then observe_event event else event)"

definition deliver :: "'w runner \<Rightarrow> int \<Rightarrow> string \<Rightarrow> decision_result \<Rightarrow> pyval \<Rightarrow> ('w drs, unit) ex" where
  "deliver ru now anomaly_id result event0 = (let event = published_event ru result event0; eid = sget (pget event ''event'') ''id'' in
     bindX (on_w (write_decision (ru_http ru) event)) (\<lambda>_.
     if d_eligible result \<and> ru_mode ru = ''enforce''
     then bindX (on_w (ru_send ru (case d_command result of Some c \<Rightarrow> c | None \<Rightarrow> PNone))) (\<lambda>_.
       on_d (record_outcome now anomaly_id ''response_requested'' (Some eid) []))
     else on_d (record_outcome now anomaly_id (sget (pget event ''decision'') ''outcome'') (Some eid) (d_reason result))))"

fun rejection_text :: "exn \<Rightarrow> string option" where
  "rejection_text (CorrelationRejected m) = Some m"
| "rejection_text (PolicyError m) = Some m"
| "rejection_text _ = None"

definition anomaly_doc :: "string \<Rightarrow> pyval \<Rightarrow> evidence_target \<Rightarrow> int \<Rightarrow> pyval" where
  "anomaly_doc anomaly_id ai t window_end = PDict [(''event_id'', PStr anomaly_id), (''model_id'', pget ai ''model_id''),
     (''score'', pget ai ''score''), (''threshold'', pget ai ''threshold''), (''is_anomaly'', pget ai ''is_anomaly''),
     (''observed_at'', PStr (utc_text window_end)), (''target'', target_doc t)]"

definition decide :: "'w runner \<Rightarrow> int \<Rightarrow> string \<Rightarrow> string \<Rightarrow> pyval \<Rightarrow> evidence_target \<Rightarrow> int \<Rightarrow> int \<Rightarrow> ('w, decision_result) ex" where
  "decide ru now anomaly_id policy_id ai t window_start window_end =
     bindX (signals ru t window_start window_end) (\<lambda>ss.
     liftX (evaluate (ru_engine ru) policy_id (anomaly_doc anomaly_id ai t window_end) (PList ss) (target_doc t)
       now (Some (Aware now)) PNone))"

text \<open>\<^verbatim>\<open>parse_rfc3339(vector[k])\<close>; the value must be a string.\<close>

definition window_bound :: "pyval \<Rightarrow> string \<Rightarrow> int res" where
  "window_bound vector k = bindR (py_item vector k) (\<lambda>v. case v of
     PStr s \<Rightarrow> utc_of_text s | _ \<Rightarrow> Inl (AttributeErr ''replace''))"

text \<open>\<^verbatim>\<open>try\<close>: the continuation sees the value or the exception.\<close>

definition tryX :: "('s, 'a) ex \<Rightarrow> ('a res \<Rightarrow> ('s, 'b) ex) \<Rightarrow> ('s, 'b) ex" where
  "tryX m f s = (case m s of (r, s1) \<Rightarrow> f r s1)"

definition note_outcome :: "int \<Rightarrow> string \<Rightarrow> string \<Rightarrow> string \<Rightarrow> ('w drs, bool) ex" where
  "note_outcome now anomaly_id outcome detail =
     bindX (on_d (record_outcome now anomaly_id outcome None detail)) (\<lambda>_. returnX True)"

definition after_delivery :: "int \<Rightarrow> string \<Rightarrow> unit res \<Rightarrow> ('w drs, bool) ex" where
  "after_delivery now anomaly_id r = (case r of Inr _ \<Rightarrow> returnX True
     | Inl e \<Rightarrow> (case e of
         DeliveryErr code retryable st \<Rightarrow> (if retryable then returnX False else note_outcome now anomaly_id ''delivery_failed'' code)
       | _ \<Rightarrow> raiseX e))"

definition settle :: "'w runner \<Rightarrow> int \<Rightarrow> string \<Rightarrow> decision_result \<Rightarrow> ('w drs, bool) ex" where
  "settle ru now anomaly_id result = (case d_event result of
     None \<Rightarrow> note_outcome now anomaly_id ''anomaly_only'' (d_reason result)
   | Some event \<Rightarrow> tryX (deliver ru now anomaly_id result event) (after_delivery now anomaly_id))"

definition conclude :: "'w runner \<Rightarrow> int \<Rightarrow> string \<Rightarrow> decision_result res \<Rightarrow> ('w drs, bool) ex" where
  "conclude ru now anomaly_id r = (case r of Inr result \<Rightarrow> settle ru now anomaly_id result
     | Inl e \<Rightarrow> (case e of
         DeliveryErr code retryable st \<Rightarrow> (if retryable then returnX False else note_outcome now anomaly_id ''evidence_error'' code)
       | _ \<Rightarrow> (case rejection_text e of Some m \<Rightarrow> note_outcome now anomaly_id ''rejected'' m | None \<Rightarrow> raiseX e)))"

definition handle_target :: "'w runner \<Rightarrow> int \<Rightarrow> string \<Rightarrow> pyval \<Rightarrow> pyval \<Rightarrow> evidence_target \<Rightarrow> string \<Rightarrow> ('w drs, bool) ex" where
  "handle_target ru now anomaly_id vector ai t policy_id =
     bindX (liftX (window_bound vector ''window_start'')) (\<lambda>window_start.
     bindX (liftX (window_bound vector ''window_end'')) (\<lambda>window_end.
     bindX (liftX (guardR (is_mapping ai) (AttributeErr ''get''))) (\<lambda>_.
     tryX (on_w (decide ru now anomaly_id policy_id ai t window_start window_end)) (conclude ru now anomaly_id))))"

definition anomaly_key :: "prims \<Rightarrow> pyval \<Rightarrow> string" where
  "anomaly_key pr doc = py_str pr (dig doc ''event.id'')"

definition or_empty :: "pyval \<Rightarrow> pyval" where
  "or_empty v = (if py_truth v then v else PDict [])"

definition handle :: "'w runner \<Rightarrow> int \<Rightarrow> pyval \<Rightarrow> ('w drs, bool) ex" where
  "handle ru now doc = (let pr = e_prims (ru_engine ru); anomaly_id = anomaly_key pr doc in
     bindX (liftX (json_get doc ''feature_vector'' PNone)) (\<lambda>vector0.
     let vector = or_empty vector0; ai = or_empty (pget doc ''ai'') in
     bindX (liftX (anomaly_target pr vector)) (\<lambda>target.
     case target of
       None \<Rightarrow> note_outcome now anomaly_id ''unsupported_entity'' []
     | Some t \<Rightarrow> (case dict_get (ru_policies ru) (et_type t) of
           None \<Rightarrow> note_outcome now anomaly_id ''no_policy'' []
         | Some policy_id \<Rightarrow> handle_target ru now anomaly_id vector ai t policy_id))))"

section \<open>One pass\<close>

record pass_report =
  pr_processed :: nat
  pr_retry_pending :: nat

fun run_hits :: "'w runner \<Rightarrow> int \<Rightarrow> pyval list \<Rightarrow> nat \<Rightarrow> ('w drs, pass_report) ex" where
  "run_hits ru now [] processed = returnX \<lparr>pr_processed = processed, pr_retry_pending = 0\<rparr>"
| "run_hits ru now (hit # hits) processed =
     bindX (liftX (py_item hit ''_source'')) (\<lambda>doc.
     bindX (handle ru now doc) (\<lambda>ok.
     if \<not> ok then returnX \<lparr>pr_processed = processed, pr_retry_pending = 1\<rparr>
     else bindX (liftX (py_item hit ''sort'')) (\<lambda>position.
       bindX (on_d (set_cursor position)) (\<lambda>_. run_hits ru now hits (Suc processed)))))"

definition pass_query :: "rat \<Rightarrow> int \<Rightarrow> pyval option \<Rightarrow> pyval" where
  "pass_query min_score limit cursor = PDict ([(''size'', PInt limit),
     (''sort'', PList [PDict [(''@timestamp'', PStr ''asc'')], PDict [(''event.id'', PStr ''asc'')]]),
     (''query'', PDict [(''bool'', PDict [(''filter'', PList [term_q ''ai.is_anomaly'' (PBool True),
        PDict [(''range'', PDict [(''ai.score'', PDict [(''gte'', PFloat (Fin min_score))])])]])])])]
     @ (case cursor of Some c \<Rightarrow> (if py_truth c then [(''search_after'', c)] else []) | None \<Rightarrow> []))"

definition run_once :: "'w runner \<Rightarrow> int \<Rightarrow> int \<Rightarrow> ('w drs, pass_report) ex" where
  "run_once ru limit now s =
     bindX (on_w (es_search (ru_http ru) ''soc-ai-*'' (pass_query (ru_min_score ru) limit (ds_cursor (snd s))))) (\<lambda>hits.
     run_hits ru now hits 0) s"

section \<open>Bounded evidence\<close>

definition batch :: "evidence_target \<Rightarrow> string \<Rightarrow> nat \<Rightarrow> pyval list \<Rightarrow> bool" where
  "batch t kind n ss \<longleftrightarrow> length ss \<le> n \<and> (\<forall>s \<in> set ss. pget s ''type'' = PStr kind \<and> pget s ''target'' = target_doc t)"

lemma signal_doc_simps [simp]:
  "pget (signal_doc t kind reference observed extra) ''type'' = PStr kind"
  "pget (signal_doc t kind reference observed extra) ''target'' = target_doc t"
  by (simp_all add: signal_doc_def)

lemma suricata_batch:
  assumes "suricata_signals pr t found = Inr ss"
  shows "batch t ''suricata'' 3 ss"
proof -
  from assms obtain ranked where m: "mapR (suricata_signal pr t) (take 3 ranked) = Inr ss"
    unfolding suricata_signals_def bindR_eq_Inr by auto
  have "pget s ''type'' = PStr ''suricata'' \<and> pget s ''target'' = target_doc t" if "s \<in> set ss" for s
    using mapR_member [OF m that] by (auto simp: suricata_signal_def bindR_eq_Inr)
  then show ?thesis using mapR_length [OF m] by (simp add: batch_def)
qed

lemma honeypot_batch: "honeypot_signals pr t found = Inr ss \<Longrightarrow> batch t ''honeypot'' 1 ss"
  unfolding honeypot_signals_def batch_def by (auto simp: bindR_eq_Inr Let_def split: if_splits)

lemma wazuh_signal_batch: "wazuh_signal pr t a = Inr ss \<Longrightarrow> batch t ''wazuh'' 1 ss"
  unfolding wazuh_signal_def batch_def by (auto simp: bindR_eq_Inr split: if_splits)

lemma batch_concat: "\<forall>ss \<in> set sss. batch t kind 1 ss \<Longrightarrow> batch t kind (length sss) (concat sss)"
  by (induction sss) (fastforce simp: batch_def)+

lemma batch_mono: "batch t kind m ss \<Longrightarrow> m \<le> n \<Longrightarrow> batch t kind n ss"
  by (simp add: batch_def)

lemma wazuh_batch:
  assumes "wazuh_signals pr t found = Inr ss"
  shows "batch t ''wazuh'' 3 ss"
proof -
  from assms obtain ranked sss where m: "mapR (wazuh_signal pr t) (take 3 ranked) = Inr sss" and ss: "ss = concat sss"
    unfolding wazuh_signals_def bindR_eq_Inr by auto
  have "\<forall>x \<in> set sss. batch t ''wazuh'' 1 x" using mapR_member [OF m] wazuh_signal_batch by blast
  then have "batch t ''wazuh'' (length sss) ss" unfolding ss by (rule batch_concat)
  moreover have "length sss \<le> 3" using mapR_length [OF m] by simp
  ultimately show ?thesis by (rule batch_mono)
qed

lemma auth_batch: "auth_signals pr t failures = Inr ss \<Longrightarrow> batch t ''authentication'' 1 ss"
  unfolding auth_signals_def batch_def by (auto simp: bindR_eq_Inr Let_def split: if_splits)

lemma asset_batch: "asset_signals pr t we flows = Inr ss \<Longrightarrow> batch t ''protected_asset'' 1 ss"
  unfolding asset_signals_def batch_def by (auto simp: bindR_eq_Inr split: list.splits)

lemma batch_Nil [simp]: "batch t kind n []"
  by (simp add: batch_def)

lemma bindX_InrE:
  assumes "bindX m f s = (Inr y, s')"
  obtains x s1 where "m s = (Inr x, s1)" "f x s1 = (Inr y, s')"
  using assms by (auto simp: bindX_def split: prod.splits sum.splits)

lemma liftX_InrE: "liftX r s = (Inr y, s') \<Longrightarrow> (r = Inr y \<Longrightarrow> s' = s \<Longrightarrow> P) \<Longrightarrow> P"
  by simp

lemma alert_evidence_batch:
  assumes "alert_evidence ru t start stop w = (Inr (ss, wz), w')"
  obtains a b where "ss = a @ b" "batch t ''suricata'' 3 a" "batch t ''honeypot'' 1 b" "et_type t \<noteq> ''ip'' \<longrightarrow> ss = []"
proof (cases "et_type t = ''ip''")
  case True
  from assms [unfolded alert_evidence_def Let_def if_P [OF True]] show thesis
    by (elim bindX_InrE liftX_InrE) (use that True suricata_batch honeypot_batch in fastforce)
next
  case False
  from assms [unfolded alert_evidence_def Let_def if_not_P [OF False]] show thesis
    by (elim bindX_InrE) (use that [of "[]" "[]"] in simp)
qed

lemma asset_evidence_batch:
  assumes "asset_evidence ru t ws we w = (Inr ss, w')"
  shows "batch t ''protected_asset'' 1 ss \<and> (et_type t \<noteq> ''ip'' \<longrightarrow> ss = [])"
proof (cases "et_type t = ''ip'' \<and> ru_assets ru \<noteq> []")
  case True
  from assms [unfolded asset_evidence_def if_P [OF True]] show ?thesis
    using True by (elim bindX_InrE liftX_InrE) (blast dest: asset_batch)
next
  case False
  from assms [unfolded asset_evidence_def if_not_P [OF False]] show ?thesis by simp
qed

lemma intel_batch: "batch t ''threat_intel'' 1 (intel_signals ru t we)"
  by (simp add: intel_signals_def batch_def)

lemma signals_parts:
  assumes "signals ru t ws we w = (Inr ss, w')"
  obtains a b c d e f where "ss = (a @ b) @ c @ d @ e @ f" "batch t ''suricata'' 3 a" "batch t ''honeypot'' 1 b"
    "batch t ''wazuh'' 3 c" "batch t ''authentication'' 1 d" "batch t ''threat_intel'' 1 e" "batch t ''protected_asset'' 1 f"
    "et_type t \<noteq> ''ip'' \<longrightarrow> a @ b = [] \<and> f = []"
proof -
  let ?pr = "e_prims (ru_engine ru)"
  from assms obtain start stop alerted wz w1 w2 c fl d f w3 w4 where
    x: "alert_evidence ru t start stop w1 = (Inr (alerted, wz), w2)" "wazuh_signals ?pr t wz = Inr c" "auth_signals ?pr t fl = Inr d"
    "asset_evidence ru t ws we w3 = (Inr f, w4)" and ss: "ss = alerted @ c @ d @ intel_signals ru t we @ f"
    unfolding signals_def Let_def by (elim bindX_InrE liftX_InrE) (auto elim!: bindX_InrE split: prod.splits)
  from alert_evidence_batch [OF x(1)] obtain a b where ab: "alerted = a @ b" "batch t ''suricata'' 3 a" "batch t ''honeypot'' 1 b"
    "et_type t \<noteq> ''ip'' \<longrightarrow> alerted = []" .
  show thesis
    by (rule that [OF _ ab(2,3) wazuh_batch [OF x(2)] auth_batch [OF x(3)] intel_batch])
      (use ss ab asset_evidence_batch [OF x(4)] in auto)
qed

lemma batch_kind_count:
  assumes "batch t kind n ss"
  shows "length (filter (\<lambda>s. sget s ''type'' = k) ss) \<le> (if k = kind then n else 0)"
proof -
  have "sget s ''type'' = kind" if "s \<in> set ss" for s using assms that by (simp add: batch_def sget_def)
  then have "filter (\<lambda>s. sget s ''type'' = k) ss = (if k = kind then ss else [])" by (auto simp: filter_id_conv filter_empty_conv)
  then show ?thesis using assms by (simp add: batch_def)
qed

text \<open>
  Evidence is bounded and bound to its target. However many alerts and log lines the queries
  return, at most three Suricata and three Wazuh signals and one signal of each other kind come out,
  all on the anomaly's own target; repeated honeypot contacts and failed logins collapse into one
  signal each. A host target never gets network evidence.
\<close>

theorem signals_bounded:
  assumes "signals ru t window_start window_end w = (Inr ss, w')"
  shows "(\<forall>k. length (filter (\<lambda>s. sget s ''type'' = k) ss) \<le>
      (if k \<in> {''suricata'', ''wazuh''} then 3 else if k \<in> {''honeypot'', ''authentication'', ''threat_intel'', ''protected_asset''} then 1 else 0)) \<and>
    (\<forall>s \<in> set ss. pget s ''target'' = target_doc t) \<and>
    (et_type t \<noteq> ''ip'' \<longrightarrow> (\<forall>s \<in> set ss. sget s ''type'' \<in> {''wazuh'', ''authentication'', ''threat_intel''}))"
proof -
  from signals_parts [OF assms] obtain a b c d e f where ss: "ss = (a @ b) @ c @ d @ e @ f"
    and p: "batch t ''suricata'' 3 a" "batch t ''honeypot'' 1 b" "batch t ''wazuh'' 3 c" "batch t ''authentication'' 1 d"
      "batch t ''threat_intel'' 1 e" "batch t ''protected_asset'' 1 f"
    and h: "et_type t \<noteq> ''ip'' \<longrightarrow> a @ b = [] \<and> f = []" .
  have n: "length (filter (\<lambda>s. sget s ''type'' = k) ss) \<le>
      (if k = ''suricata'' then 3 else 0) + (if k = ''honeypot'' then 1 else 0) + (if k = ''wazuh'' then 3 else 0)
      + (if k = ''authentication'' then 1 else 0) + (if k = ''threat_intel'' then 1 else 0) + (if k = ''protected_asset'' then 1 else 0)" for k
    unfolding ss filter_append length_append using p [THEN batch_kind_count, of k] by linarith
  have k: "length (filter (\<lambda>s. sget s ''type'' = k) ss) \<le>
      (if k \<in> {''suricata'', ''wazuh''} then 3 else if k \<in> {''honeypot'', ''authentication'', ''threat_intel'', ''protected_asset''} then 1 else 0)" for k
    by (rule order.trans [OF n]) auto
  have t: "\<forall>s \<in> set ss. pget s ''target'' = target_doc t" using p unfolding ss batch_def by auto
  have "sget s ''type'' \<in> {''wazuh'', ''authentication'', ''threat_intel''}" if "et_type t \<noteq> ''ip''" "s \<in> set ss" for s
  proof -
    have "s \<in> set c \<or> s \<in> set d \<or> s \<in> set e" using that h ss by auto
    then have "pget s ''type'' \<in> {PStr ''wazuh'', PStr ''authentication'', PStr ''threat_intel''}" using p unfolding batch_def by blast
    then show ?thesis by (auto simp: sget_def)
  qed
  with k t show ?thesis by blast
qed

section \<open>What the runner sends\<close>

definition net_keeps :: "('w \<Rightarrow> bool) \<Rightarrow> 'w http \<Rightarrow> bool" where
  "net_keeps J h \<longleftrightarrow> (\<forall>rq w. J w \<longrightarrow> J (snd (ht_open h rq w))) \<and> always J (ht_authorization h) J"

definition issued :: "'w runner \<Rightarrow> pyval \<Rightarrow> bool" where
  "issued ru c \<longleftrightarrow> (\<exists>pid anomaly ss target now r. evaluate (ru_engine ru) pid anomaly (PList ss) target now (Some (Aware now)) PNone = Inr r
     \<and> d_eligible r \<and> d_command r = Some c)"

lemma http_send_keeps: "net_keeps J h \<Longrightarrow> always J (http_send b h rq) J"
  by (auto simp: always_def http_send_def net_keeps_def split: prod.split) (metis snd_conv)

lemma request_keeps: "net_keeps J h \<Longrightarrow> always J (request h method path payload) J"
  unfolding request_def by (intro always_bindX always_pure http_send_keeps) (simp_all add: net_keeps_def)

lemma es_search_keeps: "net_keeps J h \<Longrightarrow> always J (es_search h index body) J"
  unfolding es_search_def
  by (intro always_bindX always_pure request_keeps) (auto intro!: always_pure split: prod.split)

lemma es_create_keeps:
  assumes "net_keeps J h"
  shows "always J (es_create h index i document) J"
proof -
  have "always J (\<lambda>w. case request h ''PUT'' path (Some document) w of
       (Inl e, w') \<Rightarrow> if is_conflict e then (Inr False, w') else (Inl e, w')
     | (Inr (status, reply), w') \<Rightarrow>
         if status \<noteq> 201 \<or> pget reply ''result'' \<noteq> PStr ''created''
         then (Inl (DeliveryErr ''ES_CREATE_NOT_ACKNOWLEDGED'' True None), w') else (Inr True, w')) J" for path
    using request_keeps [OF assms, of "''PUT''" path "Some document"]
    by (auto simp: always_def split: prod.splits sum.splits)
  then show ?thesis unfolding es_create_def by (intro always_bindX always_pure)
qed

lemma alerts_keeps: "net_keeps J h \<Longrightarrow> always J (alerts h dataset field v start stop) J"
  unfolding alerts_def by (intro always_bindX always_pure es_search_keeps)

lemma signals_keeps:
  assumes "net_keeps J (ru_http ru)"
  shows "always J (signals ru t ws we) J"
proof -
  have a: "always J (alert_evidence ru t start stop) J" for start stop
    unfolding alert_evidence_def Let_def
    by (cases "et_type t = ''ip''") (auto intro!: always_bindX alerts_keeps assms)
  have b: "always J (asset_evidence ru t ws we) J"
    unfolding asset_evidence_def by (auto intro!: always_bindX es_search_keeps assms)
  show ?thesis unfolding signals_def Let_def
    by (intro always_bindX always_pure a) (auto intro!: always_bindX es_search_keeps assms b)
qed

abbreviation world_ok :: "('w \<Rightarrow> bool) \<Rightarrow> 'w drs \<Rightarrow> bool" where
  "world_ok J s \<equiv> J (fst s)"

lemma on_w_keeps: "always J m J \<Longrightarrow> always (world_ok J) (on_w m) (world_ok J)"
  by (auto simp: always_def on_w_def split: prod.split)

lemma on_d_keeps: "always (world_ok J) (on_d f) (world_ok J)"
  by (simp add: always_def on_d_def)

lemmas keeps_rules = always_bindX always_pure on_w_keeps on_d_keeps

lemma decide_result:
  assumes "decide ru now aid pid ai t ws we w = (Inr result, w')"
  shows "\<exists>ss. evaluate (ru_engine ru) pid (anomaly_doc aid ai t we) (PList ss) (target_doc t) now (Some (Aware now)) PNone = Inr result"
  using assms unfolding decide_def by (elim bindX_InrE liftX_InrE) blast

lemma decide_keeps: "net_keeps J (ru_http ru) \<Longrightarrow> always J (decide ru now aid pid ai t ws we) J"
  unfolding decide_def by (intro keeps_rules signals_keeps)

definition send_keeps :: "('w \<Rightarrow> bool) \<Rightarrow> 'w runner \<Rightarrow> bool" where
  "send_keeps J ru \<longleftrightarrow> net_keeps J (ru_http ru) \<and>
     (ru_mode ru = ''enforce'' \<longrightarrow> (\<forall>c. issued ru c \<longrightarrow> always J (ru_send ru c) J))"

lemma deliver_keeps:
  assumes j: "send_keeps J ru"
    and e: "evaluate (ru_engine ru) pid anomaly (PList ss) target now (Some (Aware now)) PNone = Inr result"
  shows "always (world_ok J) (deliver ru now aid result event) (world_ok J)"
proof -
  have net: "net_keeps J (ru_http ru)" using j by (simp add: send_keeps_def)
  have w: "always J (write_decision (ru_http ru) ev) J" for ev
    unfolding write_decision_def by (intro keeps_rules es_create_keeps net)
  have s: "always J (ru_send ru (case d_command result of Some c \<Rightarrow> c | None \<Rightarrow> PNone)) J" if el: "d_eligible result \<and> ru_mode ru = ''enforce''"
  proof -
    obtain c where c: "d_command result = Some c" using evaluate_complete [OF e] el by auto
    have "issued ru c" unfolding issued_def using e el c by blast
    then show ?thesis using j el c by (simp add: send_keeps_def)
  qed
  show ?thesis unfolding deliver_def Let_def
    by (cases "d_eligible result \<and> ru_mode ru = ''enforce''")
      (use s in \<open>auto intro!: keeps_rules w simp del: always_pure\<close>)
qed

lemma note_outcome_keeps: "always (world_ok J) (note_outcome now aid outcome detail) (world_ok J)"
  unfolding note_outcome_def by (intro keeps_rules)

lemma tryX_keeps:
  assumes "always P m P" "\<And>s r s1. m s = (r, s1) \<Longrightarrow> always P (f r) P"
  shows "always P (tryX m f) P"
  unfolding always_def tryX_def
proof (intro allI impI)
  fix s
  assume s: "P s"
  obtain r s1 where r: "m s = (r, s1)" by (meson surj_pair)
  from assms(2) [OF r] alwaysD [OF assms(1) s r] show "P (snd (case m s of (r, s1) \<Rightarrow> f r s1))" by (simp add: r always_def)
qed

lemma settle_keeps:
  assumes "send_keeps J ru"
    and "evaluate (ru_engine ru) pid anomaly (PList ss) target now (Some (Aware now)) PNone = Inr result"
  shows "always (world_ok J) (settle ru now aid result) (world_ok J)"
proof -
  have "always (world_ok J) (after_delivery now aid r) (world_ok J)" for r
    unfolding after_delivery_def by (auto intro!: note_outcome_keeps split: sum.split exn.split)
  then show ?thesis unfolding settle_def
    by (cases "d_event result") (auto intro!: note_outcome_keeps tryX_keeps deliver_keeps [OF assms])
qed

lemma handle_target_keeps:
  assumes "send_keeps J ru"
  shows "always (world_ok J) (handle_target ru now aid vector ai t pid) (world_ok J)"
proof -
  have net: "net_keeps J (ru_http ru)" using assms by (simp add: send_keeps_def)
  have c: "always (world_ok J) (conclude ru now aid r) (world_ok J)" if "on_w (decide ru now aid pid ai t ws we) s = (r, s1)" for ws we s r s1
  proof (cases r)
    case (Inl e)
    then show ?thesis by (auto simp: conclude_def intro!: note_outcome_keeps split: exn.split option.split)
  next
    case (Inr result)
    from that Inr obtain w' where "decide ru now aid pid ai t ws we (fst s) = (Inr result, w')"
      by (auto simp: on_w_def split: prod.splits)
    from decide_result [OF this] settle_keeps [OF assms] show ?thesis using Inr by (auto simp: conclude_def)
  qed
  show ?thesis unfolding handle_target_def
    by (intro always_bindX always_pure tryX_keeps on_w_keeps decide_keeps net) (rule c)
qed

lemma handle_keeps: "send_keeps J ru \<Longrightarrow> always (world_ok J) (handle ru now doc) (world_ok J)"
  unfolding handle_def Let_def
  by (intro keeps_rules) (auto intro!: note_outcome_keeps handle_target_keeps split: option.split)

lemma run_hits_keeps: "send_keeps J ru \<Longrightarrow> always (world_ok J) (run_hits ru now hits n) (world_ok J)"
proof (induction hits arbitrary: n)
  case (Cons hit hits)
  show ?case unfolding run_hits.simps
    by (intro always_bindX always_pure handle_keeps Cons.prems)
      (auto intro!: always_bindX on_d_keeps Cons)
qed simp

text \<open>
  C17. The runner sends only what the decision engine issued, and nothing in observe mode. Take any
  fact \<open>J\<close> about the world that the searches and the creation of documents keep, and that in \<^verbatim>\<open>enforce\<close>
  mode sending an eligible command of the engine keeps: a whole pass keeps it. So no other command
  reaches the orchestrator, and an observing runner never calls its sender at all.
\<close>

theorem runner_sends_only_issued:
  assumes "net_keeps J (ru_http ru)" "J w"
    "ru_mode ru = ''enforce'' \<longrightarrow> (\<forall>c v. issued ru c \<and> J v \<longrightarrow> J (snd (ru_send ru c v)))"
  shows "J (fst (snd (run_once ru limit now (w, d))))"
proof -
  have k: "send_keeps J ru" using assms unfolding send_keeps_def always_def by blast
  have "always (world_ok J) (bindX (on_w (es_search (ru_http ru) ''soc-ai-*'' q)) (\<lambda>hits. run_hits ru now hits 0)) (world_ok J)" for q
    by (intro keeps_rules es_search_keeps assms run_hits_keeps k)
  then show ?thesis using assms(2) unfolding run_once_def always_def by (metis fst_conv)
qed

section \<open>Progress of the cursor\<close>

definition recorded :: "decision_state \<Rightarrow> string set" where
  "recorded d = set (map fst (ds_decisions d))"

lemma recorded_outcome [simp]:
  "recorded (record_outcome now aid outcome eid detail d) = insert aid (recorded d)"
  "ds_cursor (record_outcome now aid outcome eid detail d) = ds_cursor d"
  by (simp_all add: recorded_def record_outcome_def dom_update)

text \<open>A computation about the anomaly \<open>aid\<close>: the cursor stays, a ledger row appears at most for it, and
  when it returns a value in \<open>R\<close> the row is there.\<close>

definition about :: "string \<Rightarrow> 'a set \<Rightarrow> ('w drs, 'a) ex \<Rightarrow> bool" where
  "about aid R m \<longleftrightarrow> (\<forall>s r s'. m s = (r, s') \<longrightarrow> ds_cursor (snd s') = ds_cursor (snd s) \<and>
     recorded (snd s) \<subseteq> recorded (snd s') \<and> recorded (snd s') \<subseteq> insert aid (recorded (snd s)) \<and>
     (\<forall>x. r = Inr x \<and> x \<in> R \<longrightarrow> aid \<in> recorded (snd s')))"

lemma aboutD:
  assumes "about aid R m" "m s = (r, s')"
  shows "ds_cursor (snd s') = ds_cursor (snd s)" "recorded (snd s) \<subseteq> recorded (snd s')"
    "recorded (snd s') \<subseteq> insert aid (recorded (snd s))" "r = Inr x \<Longrightarrow> x \<in> R \<Longrightarrow> aid \<in> recorded (snd s')"
  using assms unfolding about_def by blast+

lemma on_w_state: "on_w m s = (r, s') \<Longrightarrow> snd s' = snd s"
  by (auto simp: on_w_def split: prod.splits)

lemma about_pure: "(\<And>x. about aid R (f x)) \<Longrightarrow> about aid R (bindX (liftX r) f)"
  unfolding about_def by (cases r) (auto simp: bindX_def)

lemma about_value: "y \<notin> R \<Longrightarrow> about aid R (returnX y)" "about aid R (raiseX e)"
  unfolding about_def by auto

lemma about_on_w: "(\<And>x. about aid R (f x)) \<Longrightarrow> about aid R (bindX (on_w m) f)"
  unfolding about_def bindX_def by (fastforce dest: on_w_state split: prod.splits sum.splits)

lemma about_on_d: "about aid R (on_d (record_outcome now aid outcome eid detail))"
  unfolding about_def by (auto simp: on_d_def)

lemma about_note: "about aid R (note_outcome now aid outcome detail)"
  unfolding about_def by (auto simp: note_outcome_def bindX_def on_d_def)

lemma about_try_w: "(\<And>r. about aid R (f r)) \<Longrightarrow> about aid R (tryX (on_w m) f)"
  unfolding about_def tryX_def by (fastforce dest: on_w_state split: prod.splits)

lemma about_try:
  assumes "about aid UNIV m" "\<And>e. about aid R (f (Inl e))" "\<And>x s. snd (f (Inr x) s) = s"
  shows "about aid R (tryX m f)"
  unfolding about_def
proof (intro allI impI)
  fix s r s'
  assume run: "tryX m f s = (r, s')"
  obtain x s1 where x: "m s = (x, s1)" by (meson surj_pair)
  note d = aboutD [OF assms(1) x]
  from run x have run': "f x s1 = (r, s')" by (simp add: tryX_def)
  show "ds_cursor (snd s') = ds_cursor (snd s) \<and> recorded (snd s) \<subseteq> recorded (snd s') \<and>
    recorded (snd s') \<subseteq> insert aid (recorded (snd s)) \<and> (\<forall>y. r = Inr y \<and> y \<in> R \<longrightarrow> aid \<in> recorded (snd s'))"
  proof (cases x)
    case (Inl e)
    note g = aboutD [OF assms(2) run' [unfolded Inl]]
    show ?thesis by (intro conjI allI impI) (use d(1-3) g in auto)
  next
    case (Inr y)
    then have "s' = s1" using assms(3) [of y s1] run' by simp
    then show ?thesis using d Inr by blast
  qed
qed

lemma deliver_about: "about aid UNIV (deliver ru now aid result event)"
  unfolding deliver_def Let_def by (auto intro!: about_on_w about_on_d)

lemma settle_about: "about aid {True} (settle ru now aid result)"
proof (cases "d_event result")
  case None
  then show ?thesis by (simp add: settle_def about_note)
next
  case (Some event)
  have f: "about aid {True} (after_delivery now aid (Inl e))" for e
    by (auto simp: after_delivery_def intro!: about_note about_value split: exn.split)
  have "about aid {True} (tryX (deliver ru now aid result event) (after_delivery now aid))"
    by (rule about_try, rule deliver_about, rule f) (simp add: after_delivery_def)
  then show ?thesis by (simp add: settle_def Some)
qed

lemma handle_target_about: "about aid {True} (handle_target ru now aid vector ai t pid)"
proof -
  have "about aid {True} (conclude ru now aid r)" for r
    by (auto simp: conclude_def intro!: settle_about about_note about_value split: sum.split exn.split option.split)
  then show ?thesis unfolding handle_target_def by (intro about_pure about_try_w)
qed

lemma handle_about: "about (anomaly_key (e_prims (ru_engine ru)) doc) {True} (handle ru now doc)"
  unfolding handle_def Let_def
  by (intro about_pure) (auto intro!: about_note handle_target_about split: option.split)

lemma py_item_Inr: "py_item v k = Inr x \<longleftrightarrow> is_mapping v \<and> has_key v k \<and> x = pget v k"
  by (auto simp: py_item_def)

definition advanced :: "prims \<Rightarrow> pyval list \<Rightarrow> nat \<Rightarrow> decision_state \<Rightarrow> decision_state \<Rightarrow> bool" where
  "advanced pr hits n d d' \<longleftrightarrow> n \<le> length hits \<and> recorded d \<subseteq> recorded d' \<and>
     ds_cursor d' = (if n = 0 then ds_cursor d else Some (pget (hits ! (n - 1)) ''sort'')) \<and>
     (\<forall>i < n. anomaly_key pr (pget (hits ! i) ''_source'') \<in> recorded d')"

lemma advanced_Cons:
  assumes "advanced pr hits n (set_cursor (pget hit ''sort'') d) d'" "anomaly_key pr (pget hit ''_source'') \<in> recorded d" "recorded d0 \<subseteq> recorded d"
  shows "advanced pr (hit # hits) (Suc n) d0 d'"
  using assms unfolding advanced_def
  by (auto simp: set_cursor_def recorded_def nth_Cons less_Suc_eq_0_disj split: nat.splits)

lemma run_hits_advances:
  "run_hits ru now hits p s = (r, s') \<Longrightarrow> \<exists>n. advanced (e_prims (ru_engine ru)) hits n (snd s) (snd s') \<and>
     (\<forall>rep. r = Inr rep \<longrightarrow> pr_processed rep = p + n \<and> pr_retry_pending rep = (if n < length hits then 1 else 0))"
proof (induction hits arbitrary: p s)
  case Nil
  then show ?case by (auto simp: advanced_def)
next
  case (Cons hit hits)
  let ?pr = "e_prims (ru_engine ru)"
  have stay: "\<exists>n. advanced ?pr (hit # hits) n (snd s) (snd t) \<and> (\<forall>rep. x = Inr rep \<longrightarrow>
      pr_processed rep = p + n \<and> pr_retry_pending rep = (if n < length (hit # hits) then 1 else 0))"
    if "ds_cursor (snd t) = ds_cursor (snd s)" "recorded (snd s) \<subseteq> recorded (snd t)"
      "\<forall>rep. x = Inr rep \<longrightarrow> rep = \<lparr>pr_processed = p, pr_retry_pending = 1\<rparr>" for t and x :: "pass_report res"
    by (rule exI [of _ 0]) (use that in \<open>auto simp: advanced_def\<close>)
  show ?case
  proof (cases "py_item hit ''_source''")
    case (Inl e)
    then have "r = Inl e" "s' = s" using Cons.prems by (simp_all add: bindX_def)
    then show ?thesis using stay [of s r] by simp
  next
    case (Inr doc)
    obtain x s1 where h: "handle ru now doc s = (x, s1)" by (meson surj_pair)
    note a = aboutD [OF handle_about h]
    show ?thesis
    proof (cases "x = Inr True")
      case False
      then have "s' = s1" "\<forall>rep. r = Inr rep \<longrightarrow> rep = \<lparr>pr_processed = p, pr_retry_pending = 1\<rparr>"
        using Cons.prems Inr h by (auto simp: bindX_def split: sum.splits if_splits)
      then show ?thesis using stay [of s1 r] a by simp
    next
      case True
      have k: "anomaly_key ?pr doc \<in> recorded (snd s1)" using a(4) [OF True] by simp
      show ?thesis
      proof (cases "py_item hit ''sort''")
        case (Inl e)
        then have "s' = s1" "r = Inl e" using Cons.prems Inr h True by (simp_all add: bindX_def)
        then show ?thesis using stay [of s1 r] a by simp
      next
        case (Inr pos)
        have p: "pos = pget hit ''sort''" "doc = pget hit ''_source''"
          using Inr \<open>py_item hit ''_source'' = Inr doc\<close> by (simp_all add: py_item_Inr)
        have "run_hits ru now hits (Suc p) (fst s1, set_cursor pos (snd s1)) = (r, s')"
          using Cons.prems Inr \<open>py_item hit ''_source'' = Inr doc\<close> h True by (simp add: bindX_def on_d_def)
        from Cons.IH [OF this] obtain n where
          n: "advanced ?pr hits n (set_cursor pos (snd s1)) (snd s')" "\<forall>rep. r = Inr rep \<longrightarrow>
            pr_processed rep = Suc p + n \<and> pr_retry_pending rep = (if n < length hits then 1 else 0)" by auto
        have "advanced ?pr (hit # hits) (Suc n) (snd s) (snd s')"
          by (rule advanced_Cons [OF n(1) [unfolded p(1)] k [unfolded p(2)] a(2)])
        then show ?thesis using n(2) by (intro exI [of _ "Suc n"]) simp
      qed
    qed
  qed
qed

text \<open>
  C18. Nothing is skipped. Whatever a pass does, also when it stops at a retryable failure or raises,
  the anomalies it moved past form a prefix of the page, each of them has an outcome in the ledger,
  and the stored cursor is the position of the last of them, or unchanged when there is none; a
  failed search changes nothing. A pass that returns reports exactly how many it moved past and
  whether it stopped early.
\<close>

theorem cursor_never_skips:
  assumes "run_once ru limit now (w, d) = (r, (w', d'))"
  shows "case es_search (ru_http ru) ''soc-ai-*'' (pass_query (ru_min_score ru) limit (ds_cursor d)) w of
      (Inl e, w1) \<Rightarrow> r = Inl e \<and> d' = d
    | (Inr hits, w1) \<Rightarrow> (\<exists>n \<le> length hits.
        ds_cursor d' = (if n = 0 then ds_cursor d else Some (pget (hits ! (n - 1)) ''sort'')) \<and>
        (\<forall>i < n. dict_get (ds_decisions d') (anomaly_key (e_prims (ru_engine ru)) (pget (hits ! i) ''_source'')) \<noteq> None) \<and>
        (\<forall>rep. r = Inr rep \<longrightarrow> pr_processed rep = n \<and> pr_retry_pending rep = (if n < length hits then 1 else 0)))"
proof -
  obtain x w1 where x: "es_search (ru_http ru) ''soc-ai-*'' (pass_query (ru_min_score ru) limit (ds_cursor d)) w = (x, w1)"
    by (meson surj_pair)
  show ?thesis
  proof (cases x)
    case (Inl e)
    then show ?thesis using assms x by (simp add: run_once_def bindX_def on_w_def)
  next
    case (Inr hits)
    then have "run_hits ru now hits 0 (w1, d) = (r, (w', d'))" using assms x by (simp add: run_once_def bindX_def on_w_def)
    from run_hits_advances [OF this] obtain n where "advanced (e_prims (ru_engine ru)) hits n d d'"
      "\<forall>rep. r = Inr rep \<longrightarrow> pr_processed rep = n \<and> pr_retry_pending rep = (if n < length hits then 1 else 0)" by auto
    then show ?thesis using x Inr unfolding advanced_def recorded_def by (auto simp: map_of_eq_None_iff intro!: exI [of _ n])
  qed
qed

section \<open>A small deployment\<close>

text \<open>The world is the list of commands the orchestrator received; the index answers the two
  searches for anomalies and alerts, and everything else is out of reach.\<close>

definition page :: "pyval list \<Rightarrow> http_reply" where
  "page hits = Response \<lparr>re_status = 200, re_length = 64, re_remaining = None,
     re_body = Some (PDict [(''hits'', PDict [(''hits'', PList hits)])])\<rparr>"

definition demo_hits :: "pyval list" where
  "demo_hits =
     [PDict [(''_source'', PDict [(''event'', PDict [(''id'', PStr ''ai-1'')]), (''feature_vector'', PDict [(''entity_type'', PStr ''user'')])]),
        (''sort'', PList [PInt 1])],
      PDict [(''_source'', PDict [(''event'', PDict [(''id'', PStr ''ai-2'')]), (''feature_vector'', PDict [(''entity_type'', PStr ''host''),
          (''entity'', PStr ''web''), (''window_start'', PStr ''2023-11-14T22:10:00Z''), (''window_end'', PStr ''2023-11-14T22:15:00Z'')])]),
        (''sort'', PList [PInt 2])]]"

definition demo_alert :: "string \<Rightarrow> pyval" where
  "demo_alert i = PDict [(''_source'', PDict [(''@timestamp'', PStr ''2023-11-14T22:13:12Z''),
     (''event'', PDict [(''id'', PStr i), (''severity'', PInt 7)]), (''alert'', PDict [(''severity'', PInt 1)])])]"

definition demo_index :: "bool \<Rightarrow> http_request \<Rightarrow> pyval list \<Rightarrow> http_reply \<times> pyval list" where
  "demo_index up rq w = (
     if starts_with ''https://es/soc-ai-'' (rq_url rq) then page demo_hits
     else if starts_with ''https://es/soc-alerts-'' (rq_url rq) \<and> up then page (map demo_alert [''a'', ''b'', ''c'', ''d''])
     else if up then page [] else Unreachable, w)"

definition demo_runner :: "bool \<Rightarrow> pyval list runner" where
  "demo_runner up = \<lparr>ru_http = \<lparr>ht_origin = ''https://es'', ht_open = demo_index up, ht_authorization = no_authorization\<rparr>,
     ru_engine = demo_engine, ru_mode = ''enforce'', ru_send = (\<lambda>c w. (Inr (), c # w)), ru_min_score = float_0_9,
     ru_assets = [], ru_intel = [], ru_policies = POLICY_BY_TARGET, ru_intel_hash = []\<rparr>"

definition demo_ip :: evidence_target where
  "demo_ip = \<lparr>et_type = ''ip'', et_value = ''8.8.8.8''\<rparr>"

definition demo_state :: decision_state where
  "demo_state = \<lparr>ds_cursor = None, ds_decisions = []\<rparr>"

lemma demo_indices:
  "elastic_index ''soc-alerts-*'' = Inr ''soc-alerts-*''" "elastic_index ''soc-auth-*'' = Inr ''soc-auth-*''"
  by code_simp+

lemma demo_http_simps:
  "ht_origin (ru_http (demo_runner up)) = ''https://es''" "ht_open (ru_http (demo_runner up)) = demo_index up"
  "ht_authorization (ru_http (demo_runner up)) = returnX None" "ru_engine (demo_runner up) = demo_engine"
  "ru_intel (demo_runner up) = []" "ru_assets (demo_runner up) = []" "ru_send (demo_runner up) = (\<lambda>c w. (Inr (), c # w))"
  by (simp_all add: demo_runner_def no_authorization_def)

lemma read_page: "read_reply True (page hits) = Inr (200, PDict [(''hits'', PDict [(''hits'', PList hits)])])"
  by (simp add: read_reply_def page_def MAX_REPLY_def)

lemma evidence_query_finite: "json_finite (evidence_query n [term_q a (PStr b), term_q c (PStr d), range_q x y] fs)"
  by (simp add: evidence_query_def term_q_def range_q_def list_all_iff)

definition demo_sources :: "pyval list" where
  "demo_sources = map (\<lambda>i. pget (demo_alert i) ''_source'') [''a'', ''b'', ''c'', ''d'']"

lemma demo_alerts:
  "alerts (ru_http (demo_runner True)) dataset field v start stop w =
(Inr demo_sources, w)"
proof -
  have "es_search (ru_http (demo_runner True)) ''soc-alerts-*'' (evidence_query 50
       [term_q ''event.dataset'' (PStr dataset), term_q field (PStr v), range_q start stop] fs) w = (Inr (map demo_alert [''a'', ''b'', ''c'', ''d'']), w)" for fs
    unfolding es_search_def request_def http_send_def demo_indices
    by (simp add: bindX_def evidence_query_finite demo_http_simps demo_index_def read_page relative_path_def starts_with_def json_get_def)
  then show ?thesis by (simp add: alerts_def bindX_def alert_source_def demo_sources_def demo_alert_def json_get_def)
qed

lemma demo_auth_search: "es_search (ru_http (demo_runner True)) ''soc-auth-*'' (auth_query demo_ip start stop) w = (Inr [], w)"
proof -
  have "json_finite (auth_query demo_ip start stop)"
    by (simp add: auth_query_def evidence_query_finite demo_ip_def evidence_query_def term_q_def range_q_def list_all_iff)
  then show ?thesis unfolding es_search_def request_def http_send_def demo_indices
    by (simp add: bindX_def demo_http_simps demo_index_def read_page relative_path_def starts_with_def json_get_def)
qed

lemma demo_evidence:
  "suricata_signals demo_prims demo_ip demo_sources =
     Inr (map (\<lambda>i. signal_doc demo_ip ''suricata'' i ''2023-11-14T22:13:12Z'' [(''severity'', PInt 3)]) [''a'', ''b'', ''c''])"
  "honeypot_signals demo_prims demo_ip demo_sources =
     Inr [signal_doc demo_ip ''honeypot'' (''honeypot:'' @ digest demo_prims [''a'', ''b'', ''c'', ''d'']) ''2023-11-14T22:13:12Z''
       [(''severity'', PInt 7), (''count'', PInt 4)]]"
  "wazuh_signals demo_prims demo_ip demo_sources =
     Inr (map (\<lambda>i. signal_doc demo_ip ''wazuh'' i ''2023-11-14T22:13:12Z'' [(''severity'', PInt 7)]) [''a'', ''b'', ''c''])"
  "shifted demo_now (- SIGNAL_SLACK) = Inr (demo_now - 300000000)" "shifted (demo_now + 300000000) SIGNAL_SLACK = Inr (demo_now + 600000000)"
  by code_simp+

lemma demo_collects:
  "signals (demo_runner True) demo_ip demo_now (demo_now + 300000000) w = (Inr (
     map (\<lambda>i. signal_doc demo_ip ''suricata'' i ''2023-11-14T22:13:12Z'' [(''severity'', PInt 3)]) [''a'', ''b'', ''c'']
     @ [signal_doc demo_ip ''honeypot'' (''honeypot:'' @ digest demo_prims [''a'', ''b'', ''c'', ''d'']) ''2023-11-14T22:13:12Z''
       [(''severity'', PInt 7), (''count'', PInt 4)]]
     @ map (\<lambda>i. signal_doc demo_ip ''wazuh'' i ''2023-11-14T22:13:12Z'' [(''severity'', PInt 7)]) [''a'', ''b'', ''c'']), w)"
proof -
  have p: "e_prims (ru_engine (demo_runner True)) = demo_prims" by (simp add: demo_http_simps demo_engine_def)
  have t: "et_type demo_ip = ''ip''" by (simp add: demo_ip_def)
  have a: "auth_signals demo_prims demo_ip [] = Inr []" by (simp add: auth_signals_def)
  have e: "alert_evidence (demo_runner True) demo_ip start stop w = (Inr (
     map (\<lambda>i. signal_doc demo_ip ''suricata'' i ''2023-11-14T22:13:12Z'' [(''severity'', PInt 3)]) [''a'', ''b'', ''c'']
     @ [signal_doc demo_ip ''honeypot'' (''honeypot:'' @ digest demo_prims [''a'', ''b'', ''c'', ''d'']) ''2023-11-14T22:13:12Z''
       [(''severity'', PInt 7), (''count'', PInt 4)]], demo_sources), w)" for start stop
    unfolding alert_evidence_def Let_def p if_P [OF t] by (simp add: bindX_apply demo_alerts demo_evidence)
  have g: "asset_evidence (demo_runner True) demo_ip ws we w = (Inr [], w)" for ws we
    by (simp add: asset_evidence_def demo_http_simps)
  show ?thesis
    unfolding signals_def Let_def p if_P [OF t]
    by (simp add: bindX_apply e demo_evidence demo_auth_search a g intel_signals_def demo_http_simps)
qed

theorem signals_bounded_witness:
  "\<exists>ss. fst (signals (demo_runner True) demo_ip demo_now (demo_now + 300000000) []) = Inr ss \<and> length ss = 7 \<and>
     length (filter (\<lambda>s. sget s ''type'' = ''honeypot'') ss) \<le> 1"
proof -
  obtain ss where ss: "signals (demo_runner True) demo_ip demo_now (demo_now + 300000000) [] = (Inr ss, [])" "length ss = 7"
    using demo_collects [of "[]"] by fastforce
  have "length (filter (\<lambda>s. sget s ''type'' = ''honeypot'') ss) \<le> 1"
    using spec [OF conjunct1 [OF signals_bounded [OF ss(1)]], of "''honeypot''"] by simp
  then show ?thesis using ss by simp
qed

definition demo_received :: "bool \<Rightarrow> pyval list \<Rightarrow> bool" where
  "demo_received up w \<longleftrightarrow> (\<forall>c \<in> set w. issued (demo_runner up) c)"

theorem runner_sends_only_issued_witness:
  "list_all (issued (demo_runner True)) (fst (snd (run_once (demo_runner True) 200 demo_now ([], demo_state))))"
proof -
  have "net_keeps (demo_received True) (ru_http (demo_runner True))"
    by (simp add: net_keeps_def demo_http_simps demo_index_def)
  then have "demo_received True (fst (snd (run_once (demo_runner True) 200 demo_now ([], demo_state))))"
    by (rule runner_sends_only_issued) (simp_all add: demo_received_def demo_http_simps)
  then show ?thesis by (simp only: demo_received_def list_all_iff)
qed

theorem cursor_never_skips_witness:
  "\<exists>r w' d'. run_once (demo_runner False) 200 demo_now ([], demo_state) = (r, (w', d')) \<and>
     (\<exists>n \<le> 2. ds_cursor d' = (if n = 0 then None else Some (PList [PInt (int n)])))"
proof -
  obtain r w' d' where run: "run_once (demo_runner False) 200 demo_now ([], demo_state) = (r, (w', d'))" by (metis surj_pair)
  have i: "elastic_index ''soc-ai-*'' = Inr ''soc-ai-*''" by code_simp
  have s: "es_search (ru_http (demo_runner False)) ''soc-ai-*'' (pass_query q 200 None) [] = (Inr demo_hits, [])" for q
    unfolding es_search_def request_def http_send_def i
    by (simp add: bindX_def pass_query_def term_q_def demo_http_simps demo_index_def read_page relative_path_def starts_with_def json_get_def)
  have "\<exists>n \<le> length demo_hits. ds_cursor d' = (if n = 0 then None else Some (pget (demo_hits ! (n - 1)) ''sort''))"
    using cursor_never_skips [OF run] by (auto simp: s demo_state_def)
  moreover have "pget (demo_hits ! (n - 1)) ''sort'' = PList [PInt (int n)]" if "n \<noteq> 0" "n \<le> 2" for n
    using that by (cases "n = 1") (auto simp: demo_hits_def nth_Cons')
  moreover have "length demo_hits = 2" by (simp add: demo_hits_def)
  ultimately show ?thesis using run by (metis (no_types))
qed

end
