(* ===== verification/Utc_Text.thy ===== *)
theory Utc_Text
  imports Elastic
begin

text \<open>
  \<^verbatim>\<open>rfc3339\<close> and \<^verbatim>\<open>parse_rfc3339\<close> of \<^verbatim>\<open>soc/workers/common.py\<close> are inverse to the microsecond, with and
  without a fraction. The workers and the feature engine exchange instants in this text.
\<close>

lemma read_show3: "0 \<le> n \<Longrightarrow> n < 1000 \<Longrightarrow> read_nat (show3 n) = nat n"
  using read_shows(2) [of n] decimal3 [of n] by linarith

lemma read_nat_append3: "length b = 3 \<Longrightarrow> read_nat (a @ b) = read_nat a * 1000 + read_nat b"
  by (auto simp: read_nat_def numeral_3_eq_3 length_Suc_conv algebra_simps)

lemma fraction_show6:
  assumes "0 \<le> n" "n < 1000000"
  shows "parse_fraction (show6 n) = Some n"
proof -
  have m: "0 \<le> n div 1000" "n div 1000 < 1000" "0 \<le> n mod 1000" "n mod 1000 < 1000" using assms by auto
  have "take 6 (show6 n @ ''00000'') = show6 n" by (simp add: show6_def)
  then have "int (read_nat (take 6 (show6 n @ ''00000''))) = n div 1000 * 1000 + n mod 1000"
    using m by (simp add: show6_def read_nat_append3 read_show3)
  moreover have "show6 n \<noteq> []" "list_all is_digit (show6 n)" by (simp_all add: show6_def show3_def)
  ultimately show ?thesis unfolding parse_fraction_def by simp
qed

lemma parse_hms_fraction:
  assumes "0 \<le> h" "h < 24" "0 \<le> m" "m < 60" "0 \<le> c" "c < 60" "0 \<le> f" "f < 1000000"
  shows "parse_hms (show2 h @ '':'' @ show2 m @ '':'' @ show2 c @ ''.'' @ show6 f) = Some (h, m, c, f)"
    and "parse_hms (show2 h @ '':'' @ show2 m @ '':'' @ show2 c) = Some (h, m, c, 0)"
  using assms by (simp_all add: parse_hms_def char_at_def digits_show2 fraction_show6)

lemma parse_iso_time_utc:
  assumes "parse_hms b = Some p" "CHR ''-'' \<notin> set b" "CHR ''+'' \<notin> set b"
  shows "parse_iso_time (b @ ''+00:00'') = Some (p, Some 0)"
proof -
  have tw: "takeWhile (\<lambda>x. x \<noteq> CHR ''+'') (b @ ''+00:00'') = b"
    using assms(3) by (subst takeWhile_append2) auto
  have "tz_position (b @ ''+00:00'') = Some (length b)"
    unfolding tz_position_def Let_def tw using assms by auto
  moreover have "take (length b) (b @ ''+00:00'') = b" and "drop (Suc (length b)) (b @ ''+00:00'') = ''00:00''"
    by simp_all
  moreover have "(b @ ''+00:00'') ! length b = CHR ''+''" by (rule nth_append_length)
  ultimately show ?thesis
    unfolding parse_iso_time_def using assms(1) parse_hms_utc by (simp add: Let_def time_of_parts_def us_per_day_def)
qed

lemma fromisoformat_utc_text:
  assumes "in_range t"
  shows "fromisoformat (replace_Z (utc_text t)) = Some (Aware t)"
proof -
  define n where "n = t div us_per_day + epoch_ordinal"
  define s where "s = t mod us_per_day div 1000000"
  define F where "F = (if t mod 1000000 = 0 then [] else ''.'' @ show6 (t mod 1000000))"
  obtain y m d where ymd: "ord2ymd n = (y, m, d)" by (cases "ord2ymd n") auto
  let ?D = "show4 y @ ''-'' @ show2 m @ ''-'' @ show2 d"
  let ?B = "show2 (s div 3600) @ '':'' @ show2 (s div 60 mod 60) @ '':'' @ show2 (s mod 60) @ F"
  let ?p = "(s div 3600, s div 60 mod 60, s mod 60, t mod 1000000)"
  have "1 \<le> n" "n \<le> max_ordinal"
    using assms unfolding in_range_def min_instant_def max_instant_def n_def us_per_day_def
    by (auto simp: epoch_ordinal_def max_ordinal_def)
  then have valid: "valid_date y m d" and ord: "ymd2ord y m d = n"
    using ymd ord2ymd_valid ord2ymd_correct by blast+
  have s: "0 \<le> s" "s < 86400" by (auto simp: s_def us_per_day_def)
  have F: "CHR ''Z'' \<notin> set F" "CHR ''-'' \<notin> set F" "CHR ''+'' \<notin> set F" by (simp_all add: F_def show6_def)
  have "utc_text t = ?D @ ''T'' @ ?B @ ''Z''"
    by (simp add: utc_text_def iso_seconds_def n_def [symmetric] s_def [symmetric] ymd Let_def F_def)
  then have written: "replace_Z (utc_text t) = ?D @ ''T'' @ (?B @ ''+00:00'')"
    by (simp only: append_assoc replace_Z_append replace_Z_literals replace_Z_id [OF show_chars(3)]
        replace_Z_id [OF F(1)] replace_Z_id [OF show_chars(7)])
  have len: "length ?D = 10" by simp
  have b: "0 \<le> s div 3600" "s div 3600 < 24" "0 \<le> s div 60 mod 60" "s div 60 mod 60 < 60" "0 \<le> s mod 60" "s mod 60 < 60"
    "0 \<le> t mod 1000000" "t mod 1000000 < 1000000" using s by auto
  have "parse_hms ?B = Some ?p"
    using parse_hms_fraction [OF b] by (cases "t mod 1000000 = 0") (simp_all add: F_def)
  then have time: "parse_iso_time (?B @ ''+00:00'') = Some (?p, Some 0)"
    by (rule parse_iso_time_utc) (use F in simp_all)
  have vt: "valid_time ?p" using b by (simp add: valid_time_def)
  have "s div 3600 = s div 60 div 60" using zdiv_zmult2_eq [of 60 s 60] by simp
  then have tod: "time_of_parts ?p = s * 1000000 + t mod 1000000"
    by (simp only: time_of_parts_def prod.case div_mult_mod_eq)
  have "t mod us_per_day mod 1000000 = t mod 1000000" by (rule mod_mod_cancel) (simp add: us_per_day_def)
  then have day: "s * 1000000 + t mod 1000000 = t mod us_per_day"
    using div_mult_mod_eq [of "t mod us_per_day" 1000000] unfolding s_def by (simp only:)
  have t: "(n - epoch_ordinal) * us_per_day + (s * 1000000 + t mod 1000000) = t"
    unfolding day n_def by (simp only: add_diff_cancel_right' div_mult_mod_eq)
  have "fromisoformat (replace_Z (utc_text t))
      = Some (Aware ((n - epoch_ordinal) * us_per_day + (s * 1000000 + t mod 1000000) - 0))"
    unfolding written fromisoformat_def
    using find_separator_show [of y m d "?B @ ''+00:00''"] parse_iso_date_show [OF valid] time vt valid ord
    by (simp add: len Let_def tod)
  then show ?thesis by (simp only: t diff_0_right)
qed

lemma utc_of_text_utc_text [simp]: "in_range t \<Longrightarrow> utc_of_text (utc_text t) = Inr t"
  by (simp add: utc_of_text_def fromisoformat_utc_text)

lemma utc_text_inject: "in_range a \<Longrightarrow> in_range b \<Longrightarrow> utc_text a = utc_text b \<longleftrightarrow> a = b"
  by (metis utc_of_text_utc_text sum.inject(2))

end
