(* ===== verification/Features.thy ===== *)
theory Features
  imports Utc_Text Enforcer
begin

text \<open>
  \<^verbatim>\<open>ai/features/engine.py\<close> and \<^verbatim>\<open>ai/features/contracts.py\<close>: the pure extraction of feature vectors from
  normalized events, and the contract every vector must meet. Events are JSON values. The digest of
  a schema file and the third-party JSON-schema validator are parameters. \<^verbatim>\<open>FeatureContractError\<close> and
  \<^verbatim>\<open>FeatureSchemaError\<close> are \<open>FeatureContract\<close> and \<open>FeatureSchema\<close>.
\<close>

section \<open>Division of integers\<close>

text \<open>
  \<^verbatim>\<open>a / b\<close> for \<open>0 \<le> a \<le> b\<close>: the quotient rounded to a double, to nearest with ties to even. The
  significand has 53 bits; \<open>k\<close> is the scale at which the quotient has an integral significand, and
  below the smallest scale it is subnormal.
\<close>

definition round_even :: "rat \<Rightarrow> int" where
  "round_even x = (let f = \<lfloor>x\<rfloor>; d = x - of_int f in
     if d < 1 / 2 \<or> d = 1 / 2 \<and> even f then f else f + 1)"

definition double_scale :: "rat \<Rightarrow> nat" where
  "double_scale q = (case List.find (\<lambda>k. 2 ^ 52 \<le> q * 2 ^ k) [0..<1075] of Some k \<Rightarrow> k | None \<Rightarrow> 1074)"

definition true_div :: "nat \<Rightarrow> nat \<Rightarrow> rat" where
  "true_div a b = (let q = of_nat a / of_nat b; k = double_scale q in of_int (round_even (q * 2 ^ k)) / 2 ^ k)"

section \<open>Reading events\<close>

fun nested :: "pyval \<Rightarrow> string list \<Rightarrow> pyval" where
  "nested v [] = v"
| "nested v (k # ks) = (if \<not> is_mapping v then PNone else nested (pget v k) ks)"

datatype moment = Text string | Moment datetime

definition moment_utc :: "moment \<Rightarrow> int res" where
  "moment_utc m = bindR (case m of
       Moment d \<Rightarrow> Inr d
     | Text s \<Rightarrow> (case fromisoformat (replace_Z s) of None \<Rightarrow> Inl (ValueError ''Invalid isoformat string'') | Some d \<Rightarrow> Inr d)) (\<lambda>parsed.
     case parsed of
       Naive t \<Rightarrow> Inl (FeatureContract ''timestamps must include an explicit UTC offset'')
     | Aware t \<Rightarrow> if in_range t then Inr t else Inl OverflowErr)"

definition numeric :: "pyval \<Rightarrow> int res" where
  "numeric v = (case v of PNone \<Rightarrow> Inr 0 | PBool b \<Rightarrow> Inr 0
     | _ \<Rightarrow> (case py_int v of
         Inr i \<Rightarrow> Inr (max 0 i)
       | Inl (TypeErr m) \<Rightarrow> Inl (FeatureContract ''telemetry byte/count field is not numeric'')
       | Inl (ValueError m) \<Rightarrow> Inl (FeatureContract ''telemetry byte/count field is not numeric'')
       | Inl e \<Rightarrow> Inl e))"

definition categories :: "prims \<Rightarrow> pyval \<Rightarrow> string list" where
  "categories pr event = (case nested event [''event'', ''category''] of
     PStr s \<Rightarrow> [s] | PList vs \<Rightarrow> map (py_str pr) vs | _ \<Rightarrow> [])"

definition fv_event_id :: "pyval \<Rightarrow> string res" where
  "fv_event_id event = (case nested event [''event'', ''id''] of
     PStr s \<Rightarrow> (if s = [] then Inl (FeatureContract ''normalized event is missing event.id'') else Inr s)
   | _ \<Rightarrow> Inl (FeatureContract ''normalized event is missing event.id''))"

definition event_timestamp :: "pyval \<Rightarrow> int res" where
  "event_timestamp event = (case pget event ''@timestamp'' of
     PStr s \<Rightarrow> moment_utc (Text s)
   | _ \<Rightarrow> bindR (fv_event_id event) (\<lambda>i. Inl (FeatureContract ''event is missing @timestamp'')))"

section \<open>Selecting the window\<close>

definition select_event :: "prims \<Rightarrow> int \<Rightarrow> int \<Rightarrow> pyval \<Rightarrow> (pyval \<times> string) dict \<Rightarrow> (pyval \<times> string) dict res" where
  "select_event pr window_start window_end event selected =
     bindR (guardR (is_mapping event) (FeatureContract ''feature input must contain JSON objects'')) (\<lambda>_.
     bindR (guardR (nested event [''cxyz'', ''schema_version''] = PStr ''soc-event-v1'')
       (FeatureContract ''feature input must be normalized soc-event-v1 telemetry'')) (\<lambda>_.
     bindR (event_timestamp event) (\<lambda>timestamp.
     if \<not> (window_start \<le> timestamp \<and> timestamp < window_end) then Inr selected
     else bindR (fv_event_id event) (\<lambda>i.
       let fingerprint = canonical_json pr event in
       bindR (guardR (case dict_get selected i of None \<Rightarrow> True | Some (e, previous) \<Rightarrow> previous = fingerprint)
         (FeatureContract ''event.id resolves to conflicting normalized telemetry'')) (\<lambda>_.
       Inr (dict_set i (event, fingerprint) selected))))))"

fun select_all :: "prims \<Rightarrow> int \<Rightarrow> int \<Rightarrow> pyval list \<Rightarrow> (pyval \<times> string) dict \<Rightarrow> (pyval \<times> string) dict res" where
  "select_all pr window_start window_end [] selected = Inr selected"
| "select_all pr window_start window_end (event # events) selected =
     bindR (select_event pr window_start window_end event selected) (select_all pr window_start window_end events)"

definition validate_and_select :: "prims \<Rightarrow> pyval list \<Rightarrow> int \<Rightarrow> int \<Rightarrow> pyval list res" where
  "validate_and_select pr events window_start window_end =
     bindR (select_all pr window_start window_end events []) (\<lambda>selected.
     Inr (map (\<lambda>i. fst (the (dict_get selected i))) (sort (dict_keys selected))))"

section \<open>Identifiers\<close>

definition source_event_set_sha256 :: "prims \<Rightarrow> pyval list \<Rightarrow> string res" where
  "source_event_set_sha256 pr events =
     bindR (mapR fv_event_id events) (\<lambda>ids.
     bindR (guardR (ids \<noteq> []) (FeatureContract ''cannot create an empty feature vector'')) (\<lambda>_.
     Inr (sha256_hexdigest pr (join_with [CHR 0x0A] (sort ids)))))"

definition vector_id :: "prims \<Rightarrow> string \<Rightarrow> string \<Rightarrow> string \<Rightarrow> int \<Rightarrow> int \<Rightarrow> string \<Rightarrow> string" where
  "vector_id pr feature_schema entity_type entity window_start window_end event_hash =
     feature_schema @ '':'' @ take 40 (sha256_hexdigest pr (join_with ''|''
       [feature_schema, entity_type, entity, utc_text window_start, utc_text window_end, event_hash]))"

definition FIVE_MINUTES :: int where
  "FIVE_MINUTES = 5 * 60 * 1000000"

definition window_bounds :: "moment \<Rightarrow> moment \<Rightarrow> (int \<times> int) res" where
  "window_bounds window_start window_end =
     bindR (moment_utc window_start) (\<lambda>start.
     bindR (moment_utc window_end) (\<lambda>stop.
     bindR (guardR (start < stop) (FeatureContract ''window_end must be after window_start'')) (\<lambda>_.
     bindR (guardR (stop - start = FIVE_MINUTES) (FeatureContract ''v1 feature contracts permit exactly one five-minute window'')) (\<lambda>_.
     Inr (start, stop)))))"

section \<open>Network features\<close>

definition dataset :: "pyval \<Rightarrow> string" where
  "dataset event = (case nested event [''event'', ''dataset''] of PStr s \<Rightarrow> s | _ \<Rightarrow> [])"

definition blocked :: "pyval \<Rightarrow> bool" where
  "blocked event = (case nested event [''event'', ''action''] of
     PStr s \<Rightarrow> lower s \<in> {''block'', ''blocked'', ''deny'', ''denied'', ''drop'', ''reject''} | _ \<Rightarrow> False)"

definition suricata_type :: "pyval \<Rightarrow> string" where
  "suricata_type event = (case pget event ''event_type'' of PStr s \<Rightarrow> lower s | _ \<Rightarrow> [])"

definition is_connection_record :: "pyval \<Rightarrow> bool" where
  "is_connection_record event = (dataset event = ''firewall.syslog'' \<or> dataset event = ''suricata.eve'' \<and> suricata_type event = ''flow'')"

definition event_bytes :: "pyval \<Rightarrow> (int \<times> int) res" where
  "event_bytes event = (
     if dataset event = ''suricata.eve'' then
       if suricata_type event \<noteq> ''flow'' then Inr (0, 0)
       else bindR (numeric (nested event [''flow'', ''bytes_toserver''])) (\<lambda>outbound.
         bindR (numeric (nested event [''flow'', ''bytes_toclient''])) (\<lambda>inbound. Inr (outbound, inbound)))
     else bindR (numeric (nested event [''network'', ''bytes''])) (\<lambda>outbound. Inr (outbound, 0)))"

fun first_domain :: "pyval \<Rightarrow> string list list \<Rightarrow> string option" where
  "first_domain event [] = None"
| "first_domain event (path # paths) = (case nested event path of
     PStr s \<Rightarrow> (if s \<noteq> [] then Some (rev (dropWhile (\<lambda>c. c = CHR ''.'') (rev (lower s)))) else first_domain event paths)
   | _ \<Rightarrow> first_domain event paths)"

definition domain :: "pyval \<Rightarrow> string option" where
  "domain event = first_domain event [[''dns'', ''question'', ''name''], [''dns'', ''rrname''], [''dns'', ''query'']]"

definition is_dns_query :: "pyval \<Rightarrow> bool" where
  "is_dns_query event = (dataset event = ''suricata.eve'' \<and> suricata_type event = ''dns'' \<and>
     (case nested event [''dns'', ''type''] of PNone \<Rightarrow> True | PStr s \<Rightarrow> lower s \<in> {''query'', ''request''} | _ \<Rightarrow> False))"

text \<open>\<^verbatim>\<open>str(value).isdigit()\<close>, which superscript digits satisfy too.\<close>

definition isdigit :: "string \<Rightarrow> bool" where
  "isdigit s = (s \<noteq> [] \<and> list_all (\<lambda>c. is_digit c \<or> (of_char c :: nat) \<in> {178, 179, 185}) s)"

definition is_scalar :: "pyval \<Rightarrow> bool" where
  "is_scalar v = (case v of PInt i \<Rightarrow> True | PBool b \<Rightarrow> True | PFloat f \<Rightarrow> True | PStr s \<Rightarrow> True | _ \<Rightarrow> False)"

definition destination_ports :: "prims \<Rightarrow> pyval list \<Rightarrow> int list res" where
  "destination_ports pr connections =
     mapR py_int (filter (\<lambda>v. is_scalar v \<and> isdigit (py_str pr v)) (map (\<lambda>e. nested e [''destination'', ''port'']) connections))"

definition destinations :: "pyval list \<Rightarrow> pyval list" where
  "destinations connections = filter nonempty_str (map (\<lambda>e. nested e [''destination'', ''ip'']) connections)"

definition domains :: "pyval list \<Rightarrow> string list" where
  "domains queries = filter (\<lambda>d. d \<noteq> []) (List.map_filter domain queries)"

definition failed_auth :: "prims \<Rightarrow> pyval \<Rightarrow> bool" where
  "failed_auth pr event = (''authentication'' \<in> set (categories pr event) \<and>
     lower (py_str pr (nested event [''event'', ''outcome''])) = ''failure'')"

definition suricata_alert :: "pyval \<Rightarrow> bool" where
  "suricata_alert event = (dataset event = ''suricata.eve'' \<and> (suricata_type event = ''alert'' \<or> is_mapping (pget event ''alert'')))"

definition pcount :: "('a \<Rightarrow> bool) \<Rightarrow> 'a list \<Rightarrow> pyval" where
  "pcount P xs = PInt (int (length (filter P xs)))"

definition punique :: "'a list \<Rightarrow> pyval" where
  "punique xs = PInt (int (length (remdups xs)))"

definition network_features :: "prims \<Rightarrow> pyval list \<Rightarrow> pyval res" where
  "network_features pr events = (
     let connections = filter is_connection_record events; queries = filter is_dns_query events; n = length connections in
     bindR (destination_ports pr connections) (\<lambda>ports.
     bindR (mapR event_bytes connections) (\<lambda>bytes.
     Inr (PDict [
       (''connection_count'', PInt (int n)),
       (''unique_dst_ip'', punique (destinations connections)),
       (''unique_dst_port'', punique ports),
       (''bytes_out'', PInt (sum_list (map fst bytes))),
       (''bytes_in'', PInt (sum_list (map snd bytes))),
       (''blocked_ratio'', PFloat (Fin (if n \<noteq> 0 then true_div (length (filter blocked connections)) n else 0))),
       (''dns_query_count'', PInt (int (length queries))),
       (''unique_domain_count'', punique (domains queries)),
       (''tls_count'', pcount (\<lambda>e. dataset e = ''suricata.eve'' \<and> suricata_type e = ''tls'') events),
       (''suricata_alert_count'', pcount suricata_alert events),
       (''failed_auth_count'', pcount (failed_auth pr) events)]))))"

section \<open>Endpoint features\<close>

definition event_action_text :: "prims \<Rightarrow> pyval \<Rightarrow> string" where
  "event_action_text pr event = join_with '' '' (map (\<lambda>v. lower (py_str pr v)) (filter (\<lambda>v. v \<noteq> PNone)
     [nested event [''event'', ''action''], nested event [''process'', ''name''],
      nested event [''process'', ''command_line''], nested event [''rule'', ''description'']]))"

definition mentions :: "prims \<Rightarrow> string list \<Rightarrow> pyval \<Rightarrow> bool" where
  "mentions pr tokens event = list_ex (\<lambda>token. contains_sub token (event_action_text pr event)) tokens"

definition rare_process :: "string list \<Rightarrow> string list option \<Rightarrow> pyval \<Rightarrow> bool" where
  "rare_process rare_processes baseline event = (
     let nm = (case nested event [''process'', ''name''] of PStr s \<Rightarrow> lower s | _ \<Rightarrow> []) in
     nm \<noteq> [] \<and> (nm \<in> set rare_processes \<or> (case baseline of Some b \<Rightarrow> nm \<notin> set b | None \<Rightarrow> False)))"

definition endpoint_features :: "prims \<Rightarrow> string list \<Rightarrow> string list option \<Rightarrow> pyval list \<Rightarrow> pyval" where
  "endpoint_features pr rare_processes baseline events = (
     let process_events = filter (\<lambda>e. ''process'' \<in> set (categories pr e)) events in
     PDict [
       (''process_count'', PInt (int (length process_events))),
       (''rare_process_count'', pcount (rare_process rare_processes baseline) process_events),
       (''powershell_count'', pcount (mentions pr [''powershell'', ''pwsh'']) process_events),
       (''failed_login_count'', pcount (failed_auth pr) events),
       (''fim_change_count'', pcount (\<lambda>e. ''file'' \<in> set (categories pr e)) events),
       (''account_change_count'', pcount (mentions pr [''account'', ''useradd'', ''usermod'', ''userdel'']) events),
       (''privilege_change_count'', pcount (mentions pr [''privilege'', ''sudo'', ''setuid'', ''capability'']) events)])"

section \<open>Vectors\<close>

text \<open>\<^verbatim>\<open>grouped[entity].append(event)\<close> on a \<^verbatim>\<open>defaultdict(list)\<close>.\<close>

definition group_append :: "string \<Rightarrow> pyval \<Rightarrow> pyval list dict \<Rightarrow> pyval list dict" where
  "group_append entity event grouped = dict_set entity ((case dict_get grouped entity of Some es \<Rightarrow> es | None \<Rightarrow> []) @ [event]) grouped"

fun group_by_ip :: "pyval list \<Rightarrow> pyval list dict \<Rightarrow> pyval list dict res" where
  "group_by_ip [] grouped = Inr grouped"
| "group_by_ip (event # events) grouped = (case nested event [''source'', ''ip''] of
     PStr s \<Rightarrow> (if s = [] then group_by_ip events grouped
       else if ip_address s = None then Inl (FeatureContract ''source.ip is not an IP address'')
       else group_by_ip events (group_append s event grouped))
   | _ \<Rightarrow> group_by_ip events grouped)"

fun group_by_host :: "pyval list \<Rightarrow> pyval list dict \<Rightarrow> pyval list dict" where
  "group_by_host [] grouped = grouped"
| "group_by_host (event # events) grouped = (case nested event [''host'', ''name''] of
     PStr s \<Rightarrow> (if s = [] then group_by_host events grouped else group_by_host events (group_append s event grouped))
   | _ \<Rightarrow> group_by_host events grouped)"

definition ip_version :: "string \<Rightarrow> nat" where
  "ip_version s = (case ip_address s of Some (IPv4 v) \<Rightarrow> 4 | _ \<Rightarrow> 6)"

record vector_frame =
  vf_schema :: string
  vf_hash :: string
  vf_type :: string
  vf_start :: int
  vf_end :: int
  vf_emitted :: int
  vf_git :: string

definition vector_doc :: "prims \<Rightarrow> vector_frame \<Rightarrow> string \<Rightarrow> pyval list \<Rightarrow> pyval res \<Rightarrow> pyval res" where
  "vector_doc pr vf entity events features =
     bindR (source_event_set_sha256 pr events) (\<lambda>event_hash.
     bindR features (\<lambda>fs.
     Inr (PDict [
       (''schema_version'', PStr (vf_schema vf)), (''feature_schema'', PStr (vf_schema vf)),
       (''feature_schema_sha256'', PStr (vf_hash vf)),
       (''vector_id'', PStr (vector_id pr (vf_schema vf) (vf_type vf) entity (vf_start vf) (vf_end vf) event_hash)),
       (''entity_type'', PStr (vf_type vf)), (''entity'', PStr entity),
       (''window_start'', PStr (utc_text (vf_start vf))), (''window_end'', PStr (utc_text (vf_end vf))),
       (''window_duration'', PStr ''5m''), (''source_event_count'', PInt (int (length events))),
       (''source_event_set_sha256'', PStr event_hash), (''generator_git_sha'', PStr (vf_git vf)),
       (''generated_at'', PStr (utc_text (vf_emitted vf))), (''features'', fs)])))"

definition emitted_at :: "moment option \<Rightarrow> int \<Rightarrow> int res" where
  "emitted_at generated_at stop = (case generated_at of None \<Rightarrow> Inr stop | Some m \<Rightarrow> moment_utc m)"

text \<open>\<^verbatim>\<open>feature_schema_sha256\<close> reads the schema file: its result is an argument.\<close>

definition build_network_vectors :: "prims \<Rightarrow> string res \<Rightarrow> pyval list \<Rightarrow> moment \<Rightarrow> moment \<Rightarrow> string \<Rightarrow> moment option \<Rightarrow> pyval list res" where
  "build_network_vectors pr schema_sha256 events window_start window_end git_sha generated_at =
     bindR (window_bounds window_start window_end) (\<lambda>(start, stop).
     bindR (validate_and_select pr events start stop) (\<lambda>selected.
     bindR (group_by_ip selected []) (\<lambda>grouped.
     bindR (emitted_at generated_at stop) (\<lambda>emitted.
     bindR schema_sha256 (\<lambda>schema_hash.
     let vf = \<lparr>vf_schema = ''network-window-v1'', vf_hash = schema_hash, vf_type = ''src_ip'', vf_start = start, vf_end = stop,
       vf_emitted = emitted, vf_git = git_sha\<rparr> in
     mapR (\<lambda>entity. let es = the (dict_get grouped entity) in vector_doc pr vf entity es (network_features pr es))
       (sort_key (\<lambda>v. (ip_version v, v)) (dict_keys grouped)))))))"

definition process_names :: "string list \<Rightarrow> string list" where
  "process_names processes = map lower (filter (\<lambda>p. p \<noteq> []) processes)"

definition build_endpoint_vectors :: "prims \<Rightarrow> string res \<Rightarrow> pyval list \<Rightarrow> moment \<Rightarrow> moment \<Rightarrow> string \<Rightarrow> string list \<Rightarrow> string list option \<Rightarrow>
  moment option \<Rightarrow> pyval list res" where
  "build_endpoint_vectors pr schema_sha256 events window_start window_end git_sha rare_processes process_baseline generated_at =
     bindR (window_bounds window_start window_end) (\<lambda>(start, stop).
     bindR (validate_and_select pr events start stop) (\<lambda>selected.
     let grouped = group_by_host selected [] in
     bindR (emitted_at generated_at stop) (\<lambda>emitted.
     bindR schema_sha256 (\<lambda>schema_hash.
     let vf = \<lparr>vf_schema = ''endpoint-window-v1'', vf_hash = schema_hash, vf_type = ''host'', vf_start = start, vf_end = stop,
         vf_emitted = emitted, vf_git = git_sha\<rparr> in
     mapR (\<lambda>entity. let es = the (dict_get grouped entity) in
         vector_doc pr vf entity es (Inr (endpoint_features pr (process_names rare_processes) (map_option process_names process_baseline) es)))
       (sort (dict_keys grouped))))))"

section \<open>The contract of a vector\<close>

definition NETWORK_FEATURES :: "string list" where
  "NETWORK_FEATURES = [''connection_count'', ''unique_dst_ip'', ''unique_dst_port'', ''bytes_out'', ''bytes_in'', ''blocked_ratio'',
     ''dns_query_count'', ''unique_domain_count'', ''tls_count'', ''suricata_alert_count'', ''failed_auth_count'']"

definition ENDPOINT_FEATURES :: "string list" where
  "ENDPOINT_FEATURES = [''process_count'', ''rare_process_count'', ''powershell_count'', ''failed_login_count'', ''fim_change_count'',
     ''account_change_count'', ''privilege_change_count'']"

definition expected_feature_names :: "string \<Rightarrow> string list res" where
  "expected_feature_names feature_schema = (
     if feature_schema = ''network-window-v1'' then Inr NETWORK_FEATURES
     else if feature_schema = ''endpoint-window-v1'' then Inr ENDPOINT_FEATURES
     else Inl (FeatureSchema ''unsupported feature schema''))"

text \<open>One value; \<^verbatim>\<open>math.isfinite\<close> of an \<^verbatim>\<open>int\<close> that is too large overflows and counts as not finite.\<close>

definition require_feature :: "string \<Rightarrow> pyval \<Rightarrow> unit res" where
  "require_feature nm v = (case as_number v of
     None \<Rightarrow> Inl (FeatureSchema ''feature must be numeric'')
   | Some f \<Rightarrow>
       (case f of
         Fin r \<Rightarrow>
           bindR (guardR (case v of PInt i \<Rightarrow> \<not> float_overflows i | _ \<Rightarrow> True) (FeatureSchema ''feature must be finite'')) (\<lambda>_.
           bindR (guardR (0 \<le> r) (FeatureSchema ''feature must be non-negative'')) (\<lambda>_.
           if nm = ''blocked_ratio'' then guardR (r \<le> 1) (FeatureSchema ''blocked_ratio must be in [0, 1]'')
           else guardR (r = of_int \<lfloor>r\<rfloor>) (FeatureSchema ''feature must be an integer count'')))
       | _ \<Rightarrow> Inl (FeatureSchema ''feature must be finite'')))"

definition require_exact_features :: "string \<Rightarrow> pyval \<Rightarrow> unit res" where
  "require_exact_features feature_schema features =
     bindR (guardR (is_mapping features) (FeatureSchema ''features must be an object'')) (\<lambda>_.
     bindR (expected_feature_names feature_schema) (\<lambda>names.
     bindR (guardR (exact_keys features names) (FeatureSchema ''feature keys do not match'')) (\<lambda>_.
     bindR (mapR (\<lambda>nm. require_feature nm (pget features nm)) names) (\<lambda>_. Inr ()))))"

text \<open>\<^verbatim>\<open>end - start\<close> of two parsed texts; an aware and a naive instant have no difference.\<close>

definition window_span :: "prims \<Rightarrow> pyval \<Rightarrow> pyval \<Rightarrow> int option" where
  "window_span pr start stop = (case (fromisoformat (replace_Z (py_str pr start)), fromisoformat (replace_Z (py_str pr stop))) of
     (Some (Aware s), Some (Aware e)) \<Rightarrow> Some (e - s)
   | (Some (Naive s), Some (Naive e)) \<Rightarrow> Some (e - s)
   | _ \<Rightarrow> None)"

text \<open>
  \<open>schema_ok\<close> is the JSON-schema validator on the schema's document, \<open>schema_sha256\<close> the digest of the
  file, \<^const>\<open>None\<close> when it cannot be read. Everything that goes wrong is a \<^verbatim>\<open>FeatureSchemaError\<close>.
\<close>

definition validate_vector :: "prims \<Rightarrow> (string \<Rightarrow> pyval \<Rightarrow> bool) \<Rightarrow> (string \<Rightarrow> string option) \<Rightarrow> pyval \<Rightarrow> unit res" where
  "validate_vector pr schema_ok schema_sha256 vector = (
     let broken = FeatureSchema ''vector violates the versioned feature contract''; at_key = pget vector in
     bindR (guardR (is_mapping vector) (FeatureSchema ''vector must be an object'')) (\<lambda>_.
     case at_key ''feature_schema'' of
       PStr schema_id \<Rightarrow>
         bindR (expected_feature_names schema_id) (\<lambda>_.
         bindR (guardR (schema_ok schema_id vector \<and> has_key vector ''features'') broken) (\<lambda>_.
         bindR (require_exact_features schema_id (at_key ''features'')) (\<lambda>_.
         bindR (guardR (has_key vector ''window_start'' \<and> has_key vector ''window_end'') broken) (\<lambda>_.
         case window_span pr (at_key ''window_start'') (at_key ''window_end'') of
           None \<Rightarrow> Inl broken
         | Some width \<Rightarrow>
             bindR (guardR (width = FIVE_MINUTES) (FeatureSchema ''feature window must span exactly five minutes'')) (\<lambda>_.
             bindR (guardR (has_key vector ''feature_schema_sha256'' \<and> schema_sha256 schema_id \<noteq> None) broken) (\<lambda>_.
             guardR (Some (at_key ''feature_schema_sha256'') = map_option PStr (schema_sha256 schema_id))
               (FeatureSchema ''feature schema hash differs from the local contract'')))))))
     | _ \<Rightarrow> Inl (FeatureSchema ''vector lacks feature_schema'')))"

section \<open>The ratio stays in bounds\<close>

lemma round_even_le: "x \<le> of_int n \<Longrightarrow> round_even x \<le> n"
proof (cases "x = of_int n")
  case False
  assume "x \<le> of_int n"
  then have "x < of_int n" using False by simp
  then have "\<lfloor>x\<rfloor> < n" by (simp add: floor_less_iff)
  then show ?thesis by (simp add: round_even_def Let_def)
qed (simp add: round_even_def)

lemma round_even_nonneg: "0 \<le> x \<Longrightarrow> 0 \<le> round_even x"
  by (simp add: round_even_def Let_def)

lemma true_div_bounds:
  assumes "a \<le> b" "0 < b"
  shows "0 \<le> true_div a b" "true_div a b \<le> 1"
proof -
  define q :: rat where "q = of_nat a / of_nat b"
  define k where "k = double_scale q"
  have q: "0 \<le> q" "q \<le> 1" using assms by (simp_all add: q_def)
  have t: "true_div a b = of_int (round_even (q * 2 ^ k)) / 2 ^ k" by (simp add: true_div_def q_def k_def Let_def)
  have "0 \<le> round_even (q * 2 ^ k)" using q by (simp add: round_even_nonneg)
  then show "0 \<le> true_div a b" by (simp add: t)
  have "q * 2 ^ k \<le> of_int (2 ^ k)" using q(2) by simp
  then have "round_even (q * 2 ^ k) \<le> 2 ^ k" by (rule round_even_le)
  then have "(of_int (round_even (q * 2 ^ k)) :: rat) \<le> of_int (2 ^ k)" by (simp only: of_int_le_iff)
  then show "true_div a b \<le> 1" by (simp add: t)
qed

section \<open>Built vectors meet the contract\<close>

definition counters_small :: "pyval \<Rightarrow> bool" where
  "counters_small fs \<longleftrightarrow> list_all (\<lambda>(k, v). case v of PInt i \<Rightarrow> \<not> float_overflows i | _ \<Rightarrow> True) (entries fs)"

lemma require_count: "nm \<noteq> ''blocked_ratio'' \<Longrightarrow> 0 \<le> i \<Longrightarrow> \<not> float_overflows i \<Longrightarrow> require_feature nm (PInt i) = Inr ()"
  by (simp add: require_feature_def)

lemma require_ratio: "0 \<le> r \<Longrightarrow> r \<le> 1 \<Longrightarrow> require_feature ''blocked_ratio'' (PFloat (Fin r)) = Inr ()"
  by (simp add: require_feature_def)

lemma numeric_nonneg: "numeric v = Inr i \<Longrightarrow> 0 \<le> i"
  by (auto simp: numeric_def split: pyval.splits sum.splits exn.splits)

lemma event_bytes_nonneg: "event_bytes e = Inr (a, b) \<Longrightarrow> 0 \<le> a \<and> 0 \<le> b"
  by (auto simp: event_bytes_def bindR_eq_Inr dest: numeric_nonneg split: if_splits)

lemma bytes_nonneg:
  assumes "mapR event_bytes es = Inr bs"
  shows "0 \<le> sum_list (map fst bs) \<and> 0 \<le> sum_list (map snd bs)"
proof -
  have "\<forall>x \<in> set bs. 0 \<le> fst x \<and> 0 \<le> snd x"
    using mapR_member [OF assms] event_bytes_nonneg by (metis prod.collapse)
  then show ?thesis by (auto intro!: sum_list_nonneg)
qed

lemma count_values: "\<exists>i. pcount P xs = PInt i \<and> 0 \<le> i" "\<exists>i. punique ys = PInt i \<and> 0 \<le> i"
  by (simp_all add: pcount_def punique_def)

lemma exact_features:
  assumes "map fst kvs = names" "distinct names" "expected_feature_names sch = Inr names"
    "list_all (\<lambda>(k, v). require_feature k v = Inr ()) kvs"
  shows "require_exact_features sch (PDict kvs) = Inr ()"
proof -
  have "mapR (\<lambda>nm. require_feature nm (pget (PDict kvs) nm)) names = Inr (map (\<lambda>_. ()) names)"
    unfolding mapR_iff_map map_map
  proof (rule map_cong)
    fix nm
    assume "nm \<in> set names"
    then obtain v where v: "(nm, v) \<in> set kvs" using assms(1) by auto
    then have "map_of kvs nm = Some v" using assms(1,2) by (simp add: map_of_is_SomeI)
    then show "require_feature nm (pget (PDict kvs) nm) = (Inr \<circ> (\<lambda>_. ())) nm" using v assms(4) by (auto simp: list_all_iff)
  qed simp
  moreover have "exact_keys (PDict kvs) names" using assms(1) by (simp add: exact_keys_iff flip: assms(1))
  ultimately show ?thesis using assms(3) by (simp add: require_exact_features_def)
qed

lemma network_features_exact:
  assumes "network_features pr es = Inr fs" "counters_small fs"
  shows "require_exact_features ''network-window-v1'' fs = Inr ()"
proof -
  from assms(1) obtain ports bs where ports: "destination_ports pr (filter is_connection_record es) = Inr ports"
    and bs: "mapR event_bytes (filter is_connection_record es) = Inr bs"
    and fs: "PDict [
       (''connection_count'', PInt (int (length (filter is_connection_record es)))),
       (''unique_dst_ip'', punique (destinations (filter is_connection_record es))),
       (''unique_dst_port'', punique ports),
       (''bytes_out'', PInt (sum_list (map fst bs))),
       (''bytes_in'', PInt (sum_list (map snd bs))),
       (''blocked_ratio'', PFloat (Fin (if length (filter is_connection_record es) \<noteq> 0
          then true_div (length (filter blocked (filter is_connection_record es))) (length (filter is_connection_record es)) else 0))),
       (''dns_query_count'', PInt (int (length (filter is_dns_query es)))),
       (''unique_domain_count'', punique (domains (filter is_dns_query es))),
       (''tls_count'', pcount (\<lambda>e. dataset e = ''suricata.eve'' \<and> suricata_type e = ''tls'') es),
       (''suricata_alert_count'', pcount suricata_alert es),
       (''failed_auth_count'', pcount (failed_auth pr) es)] = fs"
    unfolding network_features_def Let_def by (elim bindR_InrE) (rule that, assumption, assumption, simp only: sum.inject)
  let ?r = "if length (filter is_connection_record es) \<noteq> 0
          then true_div (length (filter blocked (filter is_connection_record es))) (length (filter is_connection_record es)) else 0"
  have r: "0 \<le> ?r" "?r \<le> 1"
    using true_div_bounds [of "length (filter blocked (filter is_connection_record es))" "length (filter is_connection_record es)"]
    by (simp_all only: length_filter_le length_greater_0_conv split: if_split) auto
  show ?thesis unfolding fs [symmetric]
  proof (rule exact_features)
    show "expected_feature_names ''network-window-v1'' = Inr NETWORK_FEATURES" by (simp add: expected_feature_names_def)
    show "distinct NETWORK_FEATURES" by (simp add: NETWORK_FEATURES_def)
  qed (use assms(2) bytes_nonneg [OF bs] require_ratio [OF r] in
      \<open>simp_all add: NETWORK_FEATURES_def fs [symmetric] counters_small_def punique_def pcount_def require_count\<close>)
qed

lemma endpoint_features_exact:
  assumes "counters_small (endpoint_features pr rare baseline es)"
  shows "require_exact_features ''endpoint-window-v1'' (endpoint_features pr rare baseline es) = Inr ()"
  unfolding endpoint_features_def Let_def
proof (rule exact_features)
  show "expected_feature_names ''endpoint-window-v1'' = Inr ENDPOINT_FEATURES" by (simp add: expected_feature_names_def)
  show "distinct ENDPOINT_FEATURES" by (simp add: ENDPOINT_FEATURES_def)
qed (use assms in \<open>simp_all add: ENDPOINT_FEATURES_def endpoint_features_def counters_small_def pcount_def require_count\<close>)

end
