(* ===== verification/Feature_Vectors.thy ===== *)
theory Feature_Vectors
  imports Features Scenario
begin

text \<open>
  What the feature engine promises: a window is a function of the set of its events, every vector meets
  the contract that serving checks, and the vectors of a window partition its events by entity.
\<close>

section \<open>A declarative window\<close>

definition in_window :: "int \<Rightarrow> int \<Rightarrow> pyval \<Rightarrow> bool" where
  "in_window s e ev \<longleftrightarrow> (\<exists>t. event_timestamp ev = Inr t \<and> s \<le> t \<and> t < e)"

definition readable :: "int \<Rightarrow> int \<Rightarrow> pyval \<Rightarrow> bool" where
  "readable s e ev \<longleftrightarrow> is_mapping ev \<and> nested ev [''cxyz'', ''schema_version''] = PStr ''soc-event-v1'' \<and>
     (\<exists>t. event_timestamp ev = Inr t) \<and> (in_window s e ev \<longrightarrow> (\<exists>i. fv_event_id ev = Inr i))"

definition unambiguous :: "prims \<Rightarrow> int \<Rightarrow> int \<Rightarrow> pyval set \<Rightarrow> bool" where
  "unambiguous pr s e E \<longleftrightarrow> (\<forall>a \<in> E. \<forall>b \<in> E. in_window s e a \<longrightarrow> in_window s e b \<longrightarrow> fv_event_id a = fv_event_id b \<longrightarrow>
     canonical_json pr a = canonical_json pr b)"

definition admissible :: "prims \<Rightarrow> int \<Rightarrow> int \<Rightarrow> pyval set \<Rightarrow> bool" where
  "admissible pr s e E \<longleftrightarrow> (\<forall>ev \<in> E. readable s e ev) \<and> unambiguous pr s e E"

definition selection :: "prims \<Rightarrow> int \<Rightarrow> int \<Rightarrow> pyval set \<Rightarrow> (pyval \<times> string) dict \<Rightarrow> bool" where
  "selection pr s e E sel \<longleftrightarrow> distinct (dict_keys sel) \<and>
     (\<forall>i ev fp. dict_get sel i = Some (ev, fp) \<longrightarrow> ev \<in> E \<and> in_window s e ev \<and> fv_event_id ev = Inr i \<and> fp = canonical_json pr ev) \<and>
     (\<forall>ev \<in> E. \<forall>i. in_window s e ev \<longrightarrow> fv_event_id ev = Inr i \<longrightarrow> (\<exists>ev'. dict_get sel i = Some (ev', canonical_json pr ev)))"

lemma select_event_outside:
  "readable s e ev \<Longrightarrow> \<not> in_window s e ev \<Longrightarrow> select_event pr s e ev sel = Inr sel"
  by (auto simp: readable_def in_window_def select_event_def simp del: nested.simps)

lemma select_event_inside:
  assumes "readable s e ev" "in_window s e ev" "fv_event_id ev = Inr i"
  shows "select_event pr s e ev sel =
    (if \<forall>x. dict_get sel i = Some x \<longrightarrow> snd x = canonical_json pr ev then Inr (dict_set i (ev, canonical_json pr ev) sel)
     else Inl (FeatureContract ''event.id resolves to conflicting normalized telemetry''))"
  using assms by (auto simp: readable_def in_window_def select_event_def Let_def guardR_def simp del: nested.simps split: option.splits)

lemma select_event_readable: "select_event pr s e ev sel = Inr sel' \<Longrightarrow> readable s e ev"
  by (auto simp: readable_def in_window_def select_event_def res_success Let_def simp del: nested.simps split: if_splits)

lemma select_event_selection:
  assumes "select_event pr s e ev sel = Inr sel'" "selection pr s e E sel"
  shows "selection pr s e (insert ev E) sel'"
proof (cases "in_window s e ev")
  case False
  then have "sel' = sel" using assms(1) select_event_outside [OF select_event_readable [OF assms(1)], of pr sel] by simp
  then show ?thesis using assms(2) False by (auto simp: selection_def)
next
  case True
  have r: "readable s e ev" using select_event_readable [OF assms(1)] .
  then obtain i where i: "fv_event_id ev = Inr i" using True by (auto simp: readable_def)
  have same: "\<forall>x. dict_get sel i = Some x \<longrightarrow> snd x = canonical_json pr ev"
    and sel': "sel' = dict_set i (ev, canonical_json pr ev) sel"
    using assms(1) select_event_inside [OF r True i, of pr sel] by (simp_all split: if_splits)
  show ?thesis unfolding selection_def sel'
  proof (intro conjI allI ballI impI)
    show "distinct (dict_keys (dict_set i (ev, canonical_json pr ev) sel))"
      using assms(2) by (simp add: selection_def distinct_dict_set)
  qed (use assms(2) True i same in \<open>fastforce simp: selection_def split: if_splits\<close>)+
qed

lemma select_all_selection:
  assumes "select_all pr s e evs sel = Inr sel'" "selection pr s e E sel" "\<forall>ev \<in> E. readable s e ev"
  shows "selection pr s e (E \<union> set evs) sel' \<and> (\<forall>ev \<in> E \<union> set evs. readable s e ev)"
  using assms
proof (induction evs arbitrary: sel E)
  case (Cons ev evs)
  then obtain sel1 where 1: "select_event pr s e ev sel = Inr sel1" and 2: "select_all pr s e evs sel1 = Inr sel'"
    by (auto simp: bindR_eq_Inr)
  have "selection pr s e (insert ev E) sel1" using select_event_selection [OF 1 Cons.prems(2)] .
  moreover have "\<forall>a \<in> insert ev E. readable s e a" using Cons.prems(3) select_event_readable [OF 1] by simp
  ultimately have "selection pr s e (insert ev E \<union> set evs) sel' \<and> (\<forall>a \<in> insert ev E \<union> set evs. readable s e a)"
    by (rule Cons.IH [OF 2])
  then show ?case unfolding list.set Un_insert_left Un_insert_right .
qed simp

lemma selection_unambiguous:
  assumes "selection pr s e E sel" "\<forall>ev \<in> E. readable s e ev"
  shows "unambiguous pr s e E"
  unfolding unambiguous_def
proof (intro ballI impI)
  fix a b
  assume ab: "a \<in> E" "b \<in> E" "in_window s e a" "in_window s e b" "fv_event_id a = fv_event_id b"
  then obtain i where i: "fv_event_id a = Inr i" using assms(2) unfolding readable_def by blast
  have known: "\<exists>ev'. dict_get sel i = Some (ev', canonical_json pr c)" if "c \<in> E" "in_window s e c" "fv_event_id c = Inr i" for c
    using assms(1) that unfolding selection_def by blast
  show "canonical_json pr a = canonical_json pr b" using known [of a] known [of b] ab i by auto
qed

lemma select_event_succeeds:
  assumes "selection pr s e E sel" "admissible pr s e (insert ev E)"
  shows "\<exists>sel'. select_event pr s e ev sel = Inr sel'"
proof (cases "in_window s e ev")
  case True
  have r: "readable s e ev" using assms(2) by (simp add: admissible_def)
  then obtain i where i: "fv_event_id ev = Inr i" using True by (auto simp: readable_def)
  have "snd x = canonical_json pr ev" if "dict_get sel i = Some x" for x
  proof -
    obtain a fp where x: "x = (a, fp)" by fastforce
    then have "a \<in> E" "in_window s e a" "fv_event_id a = Inr i" "fp = canonical_json pr a"
      using that assms(1) by (simp_all add: selection_def)
    then show ?thesis using assms(2) True i unfolding x admissible_def unambiguous_def by (metis insertI1 insertI2 snd_conv)
  qed
  then show ?thesis using select_event_inside [OF r True i, of pr sel] by simp
next
  case False
  have "readable s e ev" using assms(2) by (simp add: admissible_def)
  then show ?thesis using select_event_outside [OF _ False, of pr sel] by blast
qed

lemma select_all_succeeds:
  assumes "selection pr s e E sel" "admissible pr s e (E \<union> set evs)"
  shows "\<exists>sel'. select_all pr s e evs sel = Inr sel'"
  using assms
proof (induction evs arbitrary: sel E)
  case (Cons ev evs)
  have "admissible pr s e (insert ev E)" using Cons.prems(2) by (auto simp: admissible_def unambiguous_def)
  then obtain sel1 where 1: "select_event pr s e ev sel = Inr sel1"
    using select_event_succeeds [OF Cons.prems(1)] by blast
  have "selection pr s e (insert ev E) sel1" using select_event_selection [OF 1 Cons.prems(1)] .
  then show ?case using Cons.IH [of "insert ev E" sel1] Cons.prems(2) 1 by simp
qed simp

lemma selection_Nil: "selection pr s e {} []"
  by (simp add: selection_def)

section \<open>A window is a function of the set of its events\<close>

lemma selection_unique:
  assumes "selection pr s e E sel" "selection pr s e E sel'" "inj_on (canonical_json pr) E"
  shows "map_of sel = map_of sel'"
proof -
  have half: "dict_get b i = Some x" if "dict_get a i = Some x" and a: "selection pr s e E a" and b: "selection pr s e E b" for a b i x
  proof -
    obtain ev fp where x: "x = (ev, fp)" by fastforce
    have ev: "ev \<in> E" "in_window s e ev" "fv_event_id ev = Inr i" "fp = canonical_json pr ev"
      using that(1) a by (simp_all add: selection_def x)
    then obtain ev' where b': "dict_get b i = Some (ev', canonical_json pr ev)" using b unfolding selection_def by blast
    then have "ev' \<in> E" "canonical_json pr ev = canonical_json pr ev'" using b unfolding selection_def by blast+
    then have "ev' = ev" using assms(3) ev(1) by (metis inj_onD)
    then show ?thesis using b' ev(4) x by simp
  qed
  show ?thesis
  proof
    fix i
    show "map_of sel i = map_of sel' i" using half assms(1,2) by (metis option.exhaust)
  qed
qed

lemma selection_list:
  assumes "map_of sel = map_of sel'" "distinct (dict_keys sel)" "distinct (dict_keys sel')"
  shows "map (\<lambda>i. fst (the (dict_get sel i))) (sort (dict_keys sel)) = map (\<lambda>i. fst (the (dict_get sel' i))) (sort (dict_keys sel'))"
proof -
  have "set (dict_keys sel) = set (dict_keys sel')" using arg_cong [OF assms(1), of dom] by (simp add: dom_map_of_conv_image_fst)
  then have "sort (dict_keys sel) = sort (dict_keys sel')"
    using assms(2,3) by (intro sorted_distinct_set_unique) simp_all
  then show ?thesis by (simp add: assms(1))
qed

lemma validate_and_select_set:
  assumes "validate_and_select pr evs s e = Inr chosen" "set evs = set evs'" "inj_on (canonical_json pr) (set evs)"
  shows "validate_and_select pr evs' s e = Inr chosen"
proof -
  obtain sel where sel: "select_all pr s e evs [] = Inr sel"
    and chosen: "chosen = map (\<lambda>i. fst (the (dict_get sel i))) (sort (dict_keys sel))"
    using assms(1) by (auto simp: validate_and_select_def bindR_eq_Inr)
  have 1: "selection pr s e (set evs) sel" "\<forall>ev \<in> set evs. readable s e ev"
    using select_all_selection [OF sel selection_Nil] by simp_all
  then have adm: "admissible pr s e (set evs)" by (simp add: admissible_def selection_unambiguous)
  obtain sel' where sel': "select_all pr s e evs' [] = Inr sel'"
    using select_all_succeeds [OF selection_Nil] adm assms(2) by (metis Un_empty_left)
  have 2: "selection pr s e (set evs) sel'" using select_all_selection [OF sel' selection_Nil] assms(2) by simp
  have "map_of sel = map_of sel'" using selection_unique [OF 1(1) 2 assms(3)] .
  then show ?thesis using selection_list [of sel sel'] 1(1) 2 sel' chosen by (simp add: validate_and_select_def selection_def)
qed

lemma validate_and_select_cong:
  assumes "set evs = set evs'" "inj_on (canonical_json pr) (set evs)"
  shows "validate_and_select pr evs s e = Inr chosen \<longleftrightarrow> validate_and_select pr evs' s e = Inr chosen"
  using validate_and_select_set assms by metis

text \<open>
  C26. The vectors of a window are a function of the set of its events: neither the order in which the
  events arrive nor duplicated deliveries change what is built, provided no two of the events are the
  same JSON document with its keys in another order.
\<close>

theorem vectors_reproducible:
  assumes "set evs = set evs'" "inj_on (canonical_json pr) (set evs)"
  shows "(build_network_vectors pr sha evs ws we git at_time = Inr vs \<longleftrightarrow> build_network_vectors pr sha evs' ws we git at_time = Inr vs) \<and>
    (build_endpoint_vectors pr sha evs ws we git rare baseline at_time = Inr vs \<longleftrightarrow>
     build_endpoint_vectors pr sha evs' ws we git rare baseline at_time = Inr vs)"
  using validate_and_select_cong [OF assms]
  by (simp add: build_network_vectors_def build_endpoint_vectors_def bindR_eq_Inr Let_def split_beta)

section \<open>The vectors partition the window\<close>

definition entity_of :: "string list \<Rightarrow> pyval \<Rightarrow> string option" where
  "entity_of path event = (case nested event path of PStr t \<Rightarrow> (if t = [] then None else Some t) | _ \<Rightarrow> None)"

definition events_of :: "string list \<Rightarrow> string \<Rightarrow> pyval list \<Rightarrow> pyval list" where
  "events_of path entity = filter (\<lambda>ev. entity_of path ev = Some entity)"

text \<open>The specification of the grouping loop, as an invariant of the dictionary it fills.\<close>

definition groups :: "string list \<Rightarrow> pyval list \<Rightarrow> pyval list dict \<Rightarrow> bool" where
  "groups path evs g \<longleftrightarrow> distinct (dict_keys g) \<and>
     (\<forall>k. dict_get g k = (if events_of path k evs = [] then None else Some (events_of path k evs)))"

lemma groups_Nil: "groups path [] []"
  by (simp add: groups_def events_of_def)

lemma groups_skip: "groups path seen g \<Longrightarrow> entity_of path ev = None \<Longrightarrow> groups path (seen @ [ev]) g"
  by (simp add: groups_def events_of_def)

lemma groups_append:
  assumes "groups path seen g" "entity_of path ev = Some k"
  shows "groups path (seen @ [ev]) (group_append k ev g)"
  using assms by (simp add: groups_def group_append_def distinct_dict_set events_of_def del: dict_get_None_iff)

lemma group_by_host_groups: "groups [''host'', ''name''] seen g \<Longrightarrow> groups [''host'', ''name''] (seen @ evs) (group_by_host evs g)"
proof (induction evs arbitrary: seen g)
  case (Cons ev evs)
  have "groups [''host'', ''name''] ((seen @ [ev]) @ evs) (group_by_host (ev # evs) g)"
    using Cons.IH groups_skip [OF Cons.prems, of ev] groups_append [OF Cons.prems, of ev]
    by (simp add: entity_of_def del: nested.simps append_assoc split: pyval.splits)
  then show ?case by simp
qed simp

lemma group_by_ip_groups:
  "group_by_ip evs g = Inr g' \<Longrightarrow> groups [''source'', ''ip''] seen g \<Longrightarrow> groups [''source'', ''ip''] (seen @ evs) g'"
proof (induction evs arbitrary: seen g)
  case (Cons ev evs)
  have "groups [''source'', ''ip''] ((seen @ [ev]) @ evs) g'"
    using Cons.prems(1) Cons.IH groups_skip [OF Cons.prems(2), of ev] groups_append [OF Cons.prems(2), of ev]
    by (simp add: entity_of_def del: nested.simps append_assoc split: pyval.splits if_splits)
  then show ?case by simp
qed simp

lemma groups_keys: "groups path evs g \<Longrightarrow> set (dict_keys g) = {k. events_of path k evs \<noteq> []}"
  by (auto simp: groups_def dom_map_of_conv_image_fst [symmetric] dom_def split: if_splits)

text \<open>The fields of a built vector.\<close>

lemma vector_doc_fields:
  assumes "vector_doc pr vf entity evs features = Inr v"
  shows "\<exists>fs ids. features = Inr fs \<and> evs \<noteq> [] \<and> mapR fv_event_id evs = Inr ids \<and>
    pget v ''entity'' = PStr entity \<and> pget v ''source_event_count'' = PInt (int (length evs)) \<and>
    pget v ''source_event_set_sha256'' = PStr (sha256_hexdigest pr (join_with [CHR 0x0A] (sort ids))) \<and>
    pget v ''features'' = fs \<and> pget v ''window_start'' = PStr (utc_text (vf_start vf)) \<and> pget v ''window_end'' = PStr (utc_text (vf_end vf)) \<and>
    pget v ''feature_schema'' = PStr (vf_schema vf) \<and> pget v ''feature_schema_sha256'' = PStr (vf_hash vf) \<and> is_mapping v \<and>
    has_key v ''features'' \<and> has_key v ''window_start'' \<and> has_key v ''window_end'' \<and> has_key v ''feature_schema_sha256''"
  using assms by (auto simp: vector_doc_def source_event_set_sha256_def has_key_def res_success)

lemma mapR_inverse:
  assumes "mapR f xs = Inr ys" "\<And>x y. f x = Inr y \<Longrightarrow> g y = h x"
  shows "map g ys = map h xs"
  using assms by (induction xs arbitrary: ys) (auto simp: bindR_eq_Inr)

lemma int_sum_list: "int (sum_list xs) = sum_list (map int xs)"
  by (induction xs) simp_all

definition count_of :: "pyval \<Rightarrow> int" where
  "count_of v = (case pget v ''source_event_count'' of PInt i \<Rightarrow> i | _ \<Rightarrow> 0)"

lemma groups_total:
  assumes "groups path evs g" "distinct ks" "set ks = set (dict_keys g)"
  shows "(\<Sum>k \<leftarrow> ks. length (the (dict_get g k))) = length (filter (\<lambda>ev. entity_of path ev \<noteq> None) evs)"
proof -
  have "(\<Sum>k \<leftarrow> ks. length (the (dict_get g k))) = (\<Sum>k \<in> set ks. length (events_of path k evs))"
    unfolding sum.distinct_set_conv_list [OF assms(2), symmetric]
  proof (rule sum.cong [OF refl])
    fix k
    assume "k \<in> set ks"
    then have "events_of path k evs \<noteq> []" using assms(1,3) groups_keys by blast
    then show "length (the (dict_get g k)) = length (events_of path k evs)" using assms(1) by (simp add: groups_def)
  qed
  also have "\<dots> = length (filter (\<lambda>ev. entity_of path ev \<noteq> None) evs)"
  proof -
    have fin: "finite (set ks)" by simp
    have all: "\<forall>ev \<in> set evs. \<forall>k. entity_of path ev = Some k \<longrightarrow> k \<in> set ks"
      unfolding assms(3) groups_keys [OF assms(1)] by (auto simp: events_of_def filter_empty_conv)
    then show ?thesis
    proof (induction evs)
      case (Cons ev evs)
      have "(\<Sum>k \<in> set ks. length (events_of path k (ev # evs)))
          = (\<Sum>k \<in> set ks. (if entity_of path ev = Some k then 1 else 0) + length (events_of path k evs))"
        by (intro sum.cong) (simp_all add: events_of_def)
      also have "\<dots> = (if entity_of path ev = None then 0 else 1) + (\<Sum>k \<in> set ks. length (events_of path k evs))"
        using Cons.prems by (cases "entity_of path ev") (simp_all add: sum.distrib)
      finally show ?case using Cons by simp
    qed (simp add: events_of_def)
  qed
  finally show ?thesis .
qed

text \<open>
  \<open>partition\<close> states that \<open>vs\<close> is one vector per entity of the chosen events, each computed by \<open>F\<close> from
  the events of its entity alone.
\<close>

definition partition_by :: "string list \<Rightarrow> (pyval list \<Rightarrow> pyval res) \<Rightarrow> pyval list \<Rightarrow> pyval list \<Rightarrow> bool" where
  "partition_by path F chosen vs \<longleftrightarrow> distinct (map (\<lambda>v. pget v ''entity'') vs) \<and>
     sum_list (map count_of vs) = int (length (filter (\<lambda>ev. entity_of path ev \<noteq> None) chosen)) \<and>
     (\<forall>v \<in> set vs. \<exists>k. pget v ''entity'' = PStr k \<and> events_of path k chosen \<noteq> [] \<and>
       count_of v = int (length (events_of path k chosen)) \<and> F (events_of path k chosen) = Inr (pget v ''features'')) \<and>
     (\<forall>ev \<in> set chosen. \<forall>k. entity_of path ev = Some k \<longrightarrow> (\<exists>v \<in> set vs. pget v ''entity'' = PStr k))"

lemma vectors_partition_by:
  assumes "mapR (\<lambda>k. vector_doc pr vf k (the (dict_get g k)) (F (the (dict_get g k)))) ks = Inr vs"
    "groups path chosen g" "distinct ks" "set ks = set (dict_keys g)"
  shows "partition_by path F chosen vs"
proof -
  let ?doc = "\<lambda>k. vector_doc pr vf k (the (dict_get g k)) (F (the (dict_get g k)))"
  have entity: "pget v ''entity'' = PStr k" if "?doc k = Inr v" for k v using vector_doc_fields [OF that] by blast
  have counted: "count_of v = int (length (the (dict_get g k)))" if "?doc k = Inr v" for k v
    using vector_doc_fields [OF that] by (auto simp: count_of_def)
  have entities: "map (\<lambda>v. pget v ''entity'') vs = map PStr ks" by (rule mapR_inverse [OF assms(1) entity])
  have "map count_of vs = map (\<lambda>k. int (length (the (dict_get g k)))) ks" by (rule mapR_inverse [OF assms(1) counted])
  then have total: "sum_list (map count_of vs) = int (length (filter (\<lambda>ev. entity_of path ev \<noteq> None) chosen))"
    unfolding groups_total [OF assms(2-4), symmetric] by (simp add: int_sum_list comp_def)
  have group: "dict_get g k = Some (events_of path k chosen)" "events_of path k chosen \<noteq> []" if "k \<in> set ks" for k
  proof -
    show "events_of path k chosen \<noteq> []" using that assms(4) groups_keys [OF assms(2)] by blast
    then show "dict_get g k = Some (events_of path k chosen)" using assms(2) by (simp add: groups_def)
  qed
  have each: "\<exists>k. pget v ''entity'' = PStr k \<and> events_of path k chosen \<noteq> [] \<and>
      count_of v = int (length (events_of path k chosen)) \<and> F (events_of path k chosen) = Inr (pget v ''features'')" if v: "v \<in> set vs" for v
  proof -
    obtain k where k: "k \<in> set ks" "?doc k = Inr v" using mapR_member [OF assms(1) v] by blast
    then have "F (the (dict_get g k)) = Inr (pget v ''features'')" using vector_doc_fields [OF k(2)] by auto
    then show ?thesis using entity [OF k(2)] counted [OF k(2)] group [OF k(1)] by auto
  qed
  have covered: "\<exists>v \<in> set vs. pget v ''entity'' = PStr k" if "ev \<in> set chosen" "entity_of path ev = Some k" for ev k
  proof -
    have "events_of path k chosen \<noteq> []" using that by (auto simp: events_of_def filter_empty_conv)
    then have "k \<in> set ks" using assms(4) groups_keys [OF assms(2)] by blast
    then show ?thesis using mapR_image [OF assms(1)] entity by blast
  qed
  have "distinct (map (\<lambda>v. pget v ''entity'') vs)" using assms(3) by (simp add: entities distinct_map inj_on_def)
  then show ?thesis unfolding partition_by_def using total each covered by blast
qed

text \<open>The chosen events: one per event identifier of the window, in the order of the identifiers.\<close>

definition window_of :: "int \<Rightarrow> int \<Rightarrow> pyval list \<Rightarrow> pyval list \<Rightarrow> bool" where
  "window_of s e evs chosen \<longleftrightarrow> (\<exists>ids. mapR fv_event_id chosen = Inr ids \<and> sorted ids \<and> distinct ids \<and>
     set ids = {i. \<exists>ev \<in> set evs. in_window s e ev \<and> fv_event_id ev = Inr i} \<and> set chosen \<subseteq> set evs)"

lemma validate_and_select_window:
  assumes "validate_and_select pr evs s e = Inr chosen"
  shows "window_of s e evs chosen"
proof -
  obtain sel where sel: "select_all pr s e evs [] = Inr sel"
    and chosen: "chosen = map (\<lambda>i. fst (the (dict_get sel i))) (sort (dict_keys sel))"
    using assms by (auto simp: validate_and_select_def bindR_eq_Inr)
  have selection: "selection pr s e (set evs) sel" using select_all_selection [OF sel selection_Nil] by simp
  have member: "\<exists>ev. fst (the (dict_get sel i)) = ev \<and> ev \<in> set evs \<and> in_window s e ev \<and> fv_event_id ev = Inr i"
    if known: "i \<in> set (dict_keys sel)" for i
  proof -
    obtain x where "dict_get sel i = Some x" using known by (metis dict_get_None_iff option.exhaust)
    then show ?thesis using selection by (cases x) (simp add: selection_def)
  qed
  have "mapR fv_event_id chosen = Inr (sort (dict_keys sel))"
    unfolding mapR_iff_map chosen using member by auto
  moreover have "set (sort (dict_keys sel)) = {i. \<exists>ev \<in> set evs. in_window s e ev \<and> fv_event_id ev = Inr i}"
  proof (intro set_eqI iffI)
    fix i
    assume "i \<in> {i. \<exists>ev \<in> set evs. in_window s e ev \<and> fv_event_id ev = Inr i}"
    then obtain x where "dict_get sel i = Some x" using selection unfolding selection_def by blast
    then show "i \<in> set (sort (dict_keys sel))" using dict_get_None_iff [of sel i] by auto
  qed (use member in auto)
  moreover have "set chosen \<subseteq> set evs" using member by (auto simp: chosen)
  moreover have "distinct (sort (dict_keys sel))" using selection by (simp add: selection_def)
  ultimately show ?thesis unfolding window_of_def using sorted_sort by blast
qed

lemma network_vectors_cases:
  assumes "build_network_vectors pr sha evs ws we git at_time = Inr vs"
  obtains s e chosen g emitted h where "window_bounds ws we = Inr (s, e)" "validate_and_select pr evs s e = Inr chosen"
    "groups [''source'', ''ip''] chosen g" "sha = Inr h"
    "mapR (\<lambda>k. vector_doc pr \<lparr>vf_schema = ''network-window-v1'', vf_hash = h, vf_type = ''src_ip'', vf_start = s, vf_end = e,
       vf_emitted = emitted, vf_git = git\<rparr> k (the (dict_get g k)) (network_features pr (the (dict_get g k))))
       (sort_key (\<lambda>v. (ip_version v, v)) (dict_keys g)) = Inr vs"
proof -
  from assms obtain s e chosen g emitted h where 1: "window_bounds ws we = Inr (s, e)" "validate_and_select pr evs s e = Inr chosen"
    and g: "group_by_ip chosen [] = Inr g" and 2: "sha = Inr h"
    "mapR (\<lambda>k. vector_doc pr \<lparr>vf_schema = ''network-window-v1'', vf_hash = h, vf_type = ''src_ip'', vf_start = s, vf_end = e,
       vf_emitted = emitted, vf_git = git\<rparr> k (the (dict_get g k)) (network_features pr (the (dict_get g k))))
       (sort_key (\<lambda>v. (ip_version v, v)) (dict_keys g)) = Inr vs"
    by (auto simp: build_network_vectors_def bindR_eq_Inr Let_def)
  show thesis using that [OF 1 _ 2] group_by_ip_groups [OF g groups_Nil] by simp
qed

lemma endpoint_vectors_cases:
  assumes "build_endpoint_vectors pr sha evs ws we git rare baseline at_time = Inr vs"
  obtains s e chosen g emitted h where "window_bounds ws we = Inr (s, e)" "validate_and_select pr evs s e = Inr chosen"
    "groups [''host'', ''name''] chosen g" "sha = Inr h"
    "mapR (\<lambda>k. vector_doc pr \<lparr>vf_schema = ''endpoint-window-v1'', vf_hash = h, vf_type = ''host'', vf_start = s, vf_end = e,
       vf_emitted = emitted, vf_git = git\<rparr> k (the (dict_get g k)) (Inr (endpoint_features pr (process_names rare) (map_option process_names baseline) (the (dict_get g k)))))
       (sort (dict_keys g)) = Inr vs"
proof -
  from assms obtain s e chosen emitted h where 1: "window_bounds ws we = Inr (s, e)" "validate_and_select pr evs s e = Inr chosen"
    and 2: "sha = Inr h"
    "mapR (\<lambda>k. vector_doc pr \<lparr>vf_schema = ''endpoint-window-v1'', vf_hash = h, vf_type = ''host'', vf_start = s, vf_end = e,
       vf_emitted = emitted, vf_git = git\<rparr> k (the (dict_get (group_by_host chosen []) k))
       (Inr (endpoint_features pr (process_names rare) (map_option process_names baseline)
         (the (dict_get (group_by_host chosen []) k)))))
       (sort (dict_keys (group_by_host chosen []))) = Inr vs"
    by (auto simp: build_endpoint_vectors_def bindR_eq_Inr Let_def)
  show thesis using that [OF 1 _ 2] group_by_host_groups [OF groups_Nil, of chosen] by simp
qed

text \<open>
  C27. The vectors of a window partition its events: of the event identifiers in the window each is taken
  once, there is one vector per entity, its counts and features are those of the events of that entity
  alone, no event with an entity is left out, and the event counts add up.
\<close>

theorem vectors_partition_window:
  shows "(build_network_vectors pr sha evs ws we git at_time = Inr vs \<longrightarrow>
      (\<exists>s e chosen. window_bounds ws we = Inr (s, e) \<and> window_of s e evs chosen \<and>
        partition_by [''source'', ''ip''] (network_features pr) chosen vs)) \<and>
    (build_endpoint_vectors pr sha evs ws we git rare baseline at_time = Inr vs \<longrightarrow>
      (\<exists>s e chosen. window_bounds ws we = Inr (s, e) \<and> window_of s e evs chosen \<and>
        partition_by [''host'', ''name''] (\<lambda>es. Inr (endpoint_features pr (process_names rare) (map_option process_names baseline) es)) chosen vs))"
proof (intro conjI impI)
  assume "build_network_vectors pr sha evs ws we git at_time = Inr vs"
  then show "\<exists>s e chosen. window_bounds ws we = Inr (s, e) \<and> window_of s e evs chosen \<and>
        partition_by [''source'', ''ip''] (network_features pr) chosen vs"
  proof (cases rule: network_vectors_cases)
    case (1 s e chosen g emitted h)
    have "partition_by [''source'', ''ip''] (network_features pr) chosen vs"
      by (rule vectors_partition_by [OF 1(5,3)]) (use 1(3) in \<open>simp_all add: groups_def\<close>)
    then show ?thesis using 1(1) validate_and_select_window [OF 1(2)] by blast
  qed
next
  assume "build_endpoint_vectors pr sha evs ws we git rare baseline at_time = Inr vs"
  then show "\<exists>s e chosen. window_bounds ws we = Inr (s, e) \<and> window_of s e evs chosen \<and>
        partition_by [''host'', ''name''] (\<lambda>es. Inr (endpoint_features pr (process_names rare) (map_option process_names baseline) es)) chosen vs"
  proof (cases rule: endpoint_vectors_cases)
    case (1 s e chosen g emitted h)
    have "partition_by [''host'', ''name''] (\<lambda>es. Inr (endpoint_features pr (process_names rare) (map_option process_names baseline) es)) chosen vs"
      by (rule vectors_partition_by [OF 1(5,3)]) (use 1(3) in \<open>simp_all add: groups_def\<close>)
    then show ?thesis using 1(1) validate_and_select_window [OF 1(2)] by blast
  qed
qed

section \<open>Every vector meets the contract\<close>

lemma moment_in_range: "moment_utc m = Inr t \<Longrightarrow> in_range t"
  unfolding moment_utc_def by (elim bindR_InrE) (simp split: datetime.splits if_splits)

lemma window_bounds_facts: "window_bounds ws we = Inr (s, e) \<Longrightarrow> in_range s \<and> in_range e \<and> e - s = FIVE_MINUTES"
  by (auto simp: window_bounds_def res_success dest: moment_in_range)

lemma vector_doc_valid:
  assumes "vector_doc pr vf k es feats = Inr v" "window_bounds ws we = Inr (vf_start vf, vf_end vf)"
    "expected_feature_names (vf_schema vf) = Inr names" "require_exact_features (vf_schema vf) (pget v ''features'') = Inr ()"
    "schema_ok (vf_schema vf) v" "schema_sha256 (vf_schema vf) = Some (vf_hash vf)"
  shows "validate_vector pr schema_ok schema_sha256 v = Inr ()"
proof -
  have fields: "pget v ''window_start'' = PStr (utc_text (vf_start vf))" "pget v ''window_end'' = PStr (utc_text (vf_end vf))"
    "pget v ''feature_schema'' = PStr (vf_schema vf)" "pget v ''feature_schema_sha256'' = PStr (vf_hash vf)" "is_mapping v"
    "has_key v ''features''" "has_key v ''window_start''" "has_key v ''window_end''" "has_key v ''feature_schema_sha256''"
    using vector_doc_fields [OF assms(1)] by blast+
  have "window_span pr (pget v ''window_start'') (pget v ''window_end'') = Some FIVE_MINUTES"
    using window_bounds_facts [OF assms(2)] by (simp add: window_span_def fields fromisoformat_utc_text py_str_def)
  then show ?thesis using assms(3-6) by (simp add: validate_vector_def fields)
qed


section \<open>A concrete window\<close>

definition tele_event :: "string \<Rightarrow> string \<Rightarrow> string \<Rightarrow> pyval" where
  "tele_event i host category = PDict [(''@timestamp'', PStr (utc_text demo_now)), (''cxyz'', PDict [(''schema_version'', PStr ''soc-event-v1'')]),
     (''event'', PDict [(''id'', PStr i), (''category'', PStr category)]), (''host'', PDict [(''name'', PStr host)]),
     (''source'', PDict [(''ip'', PStr ''8.8.8.8'')])]"

definition tele_events :: "pyval list" where
  "tele_events = [tele_event ''e2'' ''web'' ''file'', tele_event ''e1'' ''db'' ''process'', tele_event ''e2'' ''web'' ''file'']"

definition tele_vector :: "string \<Rightarrow> pyval list \<Rightarrow> pyval" where
  "tele_vector host es = (let h = rev (join_with [CHR 0x0A] (map (\<lambda>ev. sget (pget ev ''event'') ''id'') es)) in PDict [
       (''schema_version'', PStr ''endpoint-window-v1''), (''feature_schema'', PStr ''endpoint-window-v1''),
       (''feature_schema_sha256'', PStr ''h''),
       (''vector_id'', PStr (vector_id demo_prims ''endpoint-window-v1'' ''host'' host demo_now (demo_now + FIVE_MINUTES) h)),
       (''entity_type'', PStr ''host''), (''entity'', PStr host),
       (''window_start'', PStr (utc_text demo_now)), (''window_end'', PStr (utc_text (demo_now + FIVE_MINUTES))),
       (''window_duration'', PStr ''5m''), (''source_event_count'', PInt (int (length es))),
       (''source_event_set_sha256'', PStr h), (''generator_git_sha'', PStr ''abcdef0''),
       (''generated_at'', PStr (utc_text (demo_now + FIVE_MINUTES))),
       (''features'', endpoint_features demo_prims [] None es)])"

lemma demo_range: "in_range demo_now" "in_range (demo_now + FIVE_MINUTES)"
  by code_simp+

lemma tele_time: "event_timestamp (tele_event i host c) = Inr demo_now"
  using demo_range by (simp add: event_timestamp_def tele_event_def moment_utc_def fromisoformat_utc_text)

lemma tele_id: "i \<noteq> [] \<Longrightarrow> fv_event_id (tele_event i host c) = Inr i"
  by (simp add: fv_event_id_def tele_event_def)

lemma tele_host: "nested (tele_event i host c) [''host'', ''name''] = PStr host"
  by (simp add: tele_event_def)

lemma tele_window: "window_bounds (Moment (Aware demo_now)) (Moment (Aware (demo_now + FIVE_MINUTES))) = Inr (demo_now, demo_now + FIVE_MINUTES)"
  using demo_range by (simp add: window_bounds_def moment_utc_def FIVE_MINUTES_def)

lemma tele_select_event:
  "i \<noteq> [] \<Longrightarrow> \<forall>x. dict_get sel i = Some x \<longrightarrow> snd x = canonical_json pr (tele_event i host c) \<Longrightarrow>
   select_event pr demo_now (demo_now + FIVE_MINUTES) (tele_event i host c) sel
     = Inr (dict_set i (tele_event i host c, canonical_json pr (tele_event i host c)) sel)"
  by (subst select_event_inside [of _ _ _ i])
    (simp_all add: readable_def in_window_def tele_time tele_id FIVE_MINUTES_def, simp add: tele_event_def)

lemma tele_selected: "validate_and_select demo_prims tele_events demo_now (demo_now + FIVE_MINUTES)
    = Inr [tele_event ''e1'' ''db'' ''process'', tele_event ''e2'' ''web'' ''file'']"
  by (simp add: validate_and_select_def tele_events_def tele_select_event)

lemma tele_grouped: "group_by_host [tele_event ''e1'' ''db'' ''process'', tele_event ''e2'' ''web'' ''file''] []
    = [(''db'', [tele_event ''e1'' ''db'' ''process'']), (''web'', [tele_event ''e2'' ''web'' ''file''])]"
  by (simp add: tele_host group_append_def del: nested.simps)

lemma tele_event_name: "sget (pget (tele_event i host c) ''event'') ''id'' = i"
  by (simp add: tele_event_def sget_def)

lemma demo_sha256: "sha256_hexdigest demo_prims = rev"
  by (simp add: demo_prims_def)

lemma tele_built: "build_endpoint_vectors demo_prims (Inr ''h'') tele_events (Moment (Aware demo_now)) (Moment (Aware (demo_now + FIVE_MINUTES)))
    ''abcdef0'' [] None None
    = Inr [tele_vector ''db'' [tele_event ''e1'' ''db'' ''process''], tele_vector ''web'' [tele_event ''e2'' ''web'' ''file'']]"
  by (simp add: build_endpoint_vectors_def tele_window tele_selected emitted_at_def tele_grouped process_names_def vector_doc_def
      source_event_set_sha256_def tele_id tele_vector_def tele_event_name demo_sha256 Let_def del: nested.simps group_by_host.simps)

lemma tele_features: "endpoint_features demo_prims [] None [tele_event ''e1'' ''db'' ''process''] = PDict [
    (''process_count'', PInt 1), (''rare_process_count'', PInt 0), (''powershell_count'', PInt 0), (''failed_login_count'', PInt 0),
    (''fim_change_count'', PInt 0), (''account_change_count'', PInt 0), (''privilege_change_count'', PInt 0)]"
  by (simp add: endpoint_features_def tele_event_def categories_def pcount_def rare_process_def failed_auth_def mentions_def
      event_action_text_def Let_def)

theorem vectors_reproducible_witness:
  "build_endpoint_vectors demo_prims (Inr ''h'') (rev (remdups tele_events)) (Moment (Aware demo_now)) (Moment (Aware (demo_now + FIVE_MINUTES)))
    ''abcdef0'' [] None None
    = Inr [tele_vector ''db'' [tele_event ''e1'' ''db'' ''process''], tele_vector ''web'' [tele_event ''e2'' ''web'' ''file'']]"
proof -
  have "inj_on (canonical_json demo_prims) (set tele_events)"
    by (simp add: inj_on_def tele_events_def) (simp add: tele_event_def json_string_def escape_char_def)
  then show ?thesis using vectors_reproducible [of tele_events "rev (remdups tele_events)" demo_prims] tele_built by simp
qed

theorem vectors_partition_window_witness:
  "\<exists>s e chosen. window_bounds (Moment (Aware demo_now)) (Moment (Aware (demo_now + FIVE_MINUTES))) = Inr (s, e) \<and>
    window_of s e tele_events chosen \<and>
    partition_by [''host'', ''name''] (\<lambda>es. Inr (endpoint_features demo_prims (process_names []) (map_option process_names None) es)) chosen
      [tele_vector ''db'' [tele_event ''e1'' ''db'' ''process''], tele_vector ''web'' [tele_event ''e2'' ''web'' ''file'']]"
  by (rule vectors_partition_window [THEN conjunct2, rule_format, OF tele_built])


end
