(* ===== verification/Utc_Order.thy ===== *)
theory Utc_Order
  imports Utc_Text
begin

text \<open>
  The order of printed instants: SQLite compares the texts of \<^verbatim>\<open>rfc3339\<close> (\<^verbatim>\<open>soc/workers/common.py\<close>) with
  \<^verbatim>\<open>MAX\<close> and \<^verbatim>\<open>ORDER BY\<close>, and on whole seconds that is the order of time.
\<close>

lemma append_less_iff:
  fixes xs xs' ys ys' :: "'a :: linorder list"
  assumes "length xs = length xs'"
  shows "xs @ ys < xs' @ ys' \<longleftrightarrow> xs < xs' \<or> xs = xs' \<and> ys < ys'"
  using assms by (induction xs xs' rule: list_induct2) auto

lemma digit_char_less: "a < b \<Longrightarrow> b < 10 \<Longrightarrow> digit_char a < digit_char b"
  by (simp add: less_char_def of_char_digit_char)

lemma digit_less: "a < b \<Longrightarrow> 0 \<le> a \<Longrightarrow> b < (10 :: int) \<Longrightarrow> digit_char (nat a) < digit_char (nat b)"
  by (rule digit_char_less) auto

lemma show2_less:
  assumes "0 \<le> a" "a < b" "b < 100"
  shows "show2 a < show2 b"
proof (cases "a div 10 = b div 10")
  case True
  then have "a mod 10 < b mod 10" using assms(2) div_mult_mod_eq [of a 10] div_mult_mod_eq [of b 10] by linarith
  then show ?thesis using True digit_less [of "a mod 10" "b mod 10"] by (simp add: show2_def)
next
  case False
  then have "a div 10 < b div 10" using zdiv_mono1 [of a b 10] assms by linarith
  moreover have "0 \<le> a div 10" "b div 10 < 10" using assms by auto
  ultimately show ?thesis using digit_less [of "a div 10" "b div 10"] by (simp add: show2_def)
qed

lemma show4_split: "show4 a = show2 (a div 100) @ show2 (a mod 100)"
proof -
  have 1: "a mod 100 mod 10 = a mod 10" by (rule mod_mod_cancel) simp
  have "a mod 100 = 10 * (a div 10 mod 10) + a mod 10" using zmod_zmult2_eq [of 10 a 10] by simp
  then have 2: "a mod 100 div 10 mod 10 = a div 10 mod 10" by simp
  show ?thesis by (simp only: show4_def show3_def show2_def append.simps 1 2 div_div_10(2))
qed

text \<open>Comparing quotient first and remainder second.\<close>

lemma div_mod_less:
  assumes "a < b" "0 < (k :: int)"
  shows "a div k < b div k \<or> a div k = b div k \<and> a mod k < b mod k"
proof (cases "a div k = b div k")
  case True
  then have "b div k * k + a mod k < b div k * k + b mod k" using assms(1) div_mult_mod_eq [of a k] div_mult_mod_eq [of b k] by (simp only:)
  then show ?thesis using True by (simp only: add_less_cancel_left simp_thms)
next
  case False
  then show ?thesis using zdiv_mono1 [of a b k] assms by linarith
qed

lemma show4_less:
  assumes "0 \<le> a" "a < b" "b < 10000"
  shows "show4 a < show4 b"
proof -
  have "a div 100 < b div 100 \<or> a div 100 = b div 100 \<and> a mod 100 < b mod 100" using div_mod_less assms(2) by simp
  moreover have "0 \<le> a div 100" "b div 100 < 100" "0 \<le> a mod 100" "b mod 100 < 100" using assms by auto
  ultimately show ?thesis using assms show2_less [of "a div 100" "b div 100"] show2_less [of "a mod 100" "b mod 100"]
    by (auto simp: show4_split append_less_iff)
qed

lemma div_step:
  assumes "0 < (k :: int)"
  shows "y div k = (y - 1) div k + (if y mod k = 0 then 1 else 0)"
proof (cases "y mod k = 0")
  case True
  then have "y - 1 = k * (y div k - 1) + (k - 1)" using mult_div_mod_eq [of k y] by (simp add: algebra_simps)
  then have "(y - 1) div k = y div k - 1" by (rule int_div_pos_eq) (use assms in simp_all)
  then show ?thesis using True by simp
next
  case False
  have "0 \<le> y mod k" "y mod k < k" using assms by simp_all
  then have "0 \<le> y mod k - 1" "y mod k - 1 < k" using False by linarith+
  moreover have "y - 1 = k * (y div k) + (y mod k - 1)" using mult_div_mod_eq [of k y] by linarith
  ultimately have "(y - 1) div k = y div k" using int_div_pos_eq by blast
  then show ?thesis using False by simp
qed

lemma leap_count:
  assumes "r \<Longrightarrow> q" "q \<Longrightarrow> p"
  shows "(if p \<and> (\<not> q \<or> r) then 1 else (0 :: int)) = (if p then 1 else 0) - (if q then 1 else 0) + (if r then 1 else 0)"
proof -
  consider "p" "q" "r" | "p" "q" "\<not> r" | "p" "\<not> q" "\<not> r" | "\<not> p" "\<not> q" "\<not> r" using assms by blast
  then show ?thesis by cases simp_all
qed

lemma days_before_year_Suc: "days_before_year (y + 1) = days_before_year y + 365 + (if is_leap y then 1 else 0)"
proof -
  let ?i = "\<lambda>b. if b then 1 else (0 :: int)"
  have "y mod 400 = 0 \<Longrightarrow> y mod 100 = 0" "y mod 100 = 0 \<Longrightarrow> y mod 4 = 0"
    unfolding mod_eq_0_iff_dvd by (erule dvd_trans [rotated], simp)+
  then have "?i (is_leap y) = ?i (y mod 4 = 0) - ?i (y mod 100 = 0) + ?i (y mod 400 = 0)"
    unfolding is_leap_def by (rule leap_count)
  moreover have "days_before_year (y + 1) = y * 365 + y div 4 - y div 100 + y div 400" by (simp add: days_before_year_def)
  moreover have "A' = A + p \<Longrightarrow> B' = B + q \<Longrightarrow> C' = C + r \<Longrightarrow> l = p - q + r \<Longrightarrow>
      y * 365 + A' - B' + C' = (y - 1) * 365 + A - B + C + 365 + l" for A A' B B' C C' p q r l :: int by simp
  ultimately show ?thesis using div_step [of 4 y] div_step [of 100 y] div_step [of 400 y] zero_less_numeral
    unfolding days_before_year_def [of y] by (simp only:)
qed

lemma days_before_year_mono: "y \<le> y' \<Longrightarrow> days_before_year y \<le> days_before_year y'"
proof (induction rule: int_ge_induct)
  case (step i)
  then show ?case using days_before_year_Suc [of i] by (simp split: if_splits)
qed simp

lemma month_next:
  assumes "1 \<le> m" "m < 12"
  shows "days_before_month y m + days_in_month y m = days_before_month y (m + 1)"
proof -
  have "m = 1 \<or> m = 2 \<or> m = 3 \<or> m = 4 \<or> m = 5 \<or> m = 6 \<or> m = 7 \<or> m = 8 \<or> m = 9 \<or> m = 10 \<or> m = 11"
    using assms by presburger
  then show ?thesis by (elim disjE) (simp_all add: calendar_defs)
qed

lemma month_mono: "1 \<le> m \<Longrightarrow> m \<le> m' \<Longrightarrow> m' \<le> 12 \<Longrightarrow> days_before_month y m \<le> days_before_month y m'"
proof (rotate_tac, induction m' rule: int_ge_induct)
  case (step i)
  have "0 \<le> days_in_month y i" by (simp add: days_in_month_def)
  then show ?case using step month_next [of i y] by linarith
qed simp

lemma month_step:
  assumes "1 \<le> m" "m < m'" "m' \<le> 12" "d \<le> days_in_month y m"
  shows "days_before_month y m + d \<le> days_before_month y m'"
  using month_next [of m y] month_mono [of "m + 1" m' y] assms by linarith

lemma year_fits:
  assumes "1 \<le> m" "m \<le> 12" "d \<le> days_in_month y m"
  shows "days_before_month y m + d \<le> 365 + (if is_leap y then 1 else 0)"
proof -
  have "m = 1 \<or> m = 2 \<or> m = 3 \<or> m = 4 \<or> m = 5 \<or> m = 6 \<or> m = 7 \<or> m = 8 \<or> m = 9 \<or> m = 10 \<or> m = 11 \<or> m = 12"
    using assms(1,2) by presburger
  then show ?thesis using assms(3) by (elim disjE) (simp_all add: calendar_defs split: if_splits)
qed

definition date_less :: "int \<times> int \<times> int \<Rightarrow> int \<times> int \<times> int \<Rightarrow> bool" where
  "date_less p q = (case (p, q) of ((y, m, d), (y', m', d')) \<Rightarrow> y < y' \<or> y = y' \<and> (m < m' \<or> m = m' \<and> d < d'))"

lemma ymd2ord_less:
  assumes "valid_date y m d" "valid_date y' m' d'" "date_less (y, m, d) (y', m', d')"
  shows "ymd2ord y m d < ymd2ord y' m' d'"
proof -
  have v: "1 \<le> m" "m \<le> 12" "d \<le> days_in_month y m" "1 \<le> m'" "m' \<le> 12" "1 \<le> d'" using assms(1,2) by (simp_all add: valid_date_def)
  have nn: "0 \<le> days_before_month y' m'" by (simp add: days_before_month_def month_offset_def)
  consider "y < y'" | "y = y'" "m < m'" | "y = y'" "m = m'" "d < d'" using assms(3) by (auto simp: date_less_def)
  then show ?thesis
  proof cases
    case 1
    then have "days_before_year (y + 1) \<le> days_before_year y'" by (intro days_before_year_mono) simp
    then show ?thesis using year_fits [OF v(1-3)] days_before_year_Suc [of y] nn v(6) by (simp add: ymd2ord_def)
  next
    case 2
    then show ?thesis using month_step [OF v(1) 2(2) v(5,3)] v(6) by (simp add: ymd2ord_def)
  qed (simp add: ymd2ord_def)
qed

lemma ord2ymd_less:
  assumes "1 \<le> n" "n < n'" "n' \<le> max_ordinal" "ord2ymd n = (y, m, d)" "ord2ymd n' = (y', m', d')"
  shows "date_less (y, m, d) (y', m', d')"
proof -
  have v: "valid_date y m d" "valid_date y' m' d'" "ymd2ord y m d = n" "ymd2ord y' m' d' = n'"
    using ord2ymd_valid [OF _ _ assms(4)] ord2ymd_valid [OF _ _ assms(5)] ord2ymd_correct [OF assms(4)] ord2ymd_correct [OF assms(5)] assms(1-3)
    by simp_all
  show ?thesis
  proof (rule ccontr)
    assume "\<not> ?thesis"
    then have "date_less (y', m', d') (y, m, d) \<or> (y', m', d') = (y, m, d)" by (auto simp: date_less_def)
    then show False using ymd2ord_less [OF v(2,1)] v(3,4) assms(2) by auto
  qed
qed

lemma date_text_less:
  assumes "valid_date y m d" "valid_date y' m' d'" "date_less (y, m, d) (y', m', d')"
  shows "show4 y @ ''-'' @ show2 m @ ''-'' @ show2 d < show4 y' @ ''-'' @ show2 m' @ ''-'' @ show2 d'"
proof -
  have "days_in_month y m \<le> 31" "days_in_month y' m' \<le> 31" by (simp_all add: days_in_month_def)
  then show ?thesis
    using assms show4_less [of y y'] show2_less [of m m'] show2_less [of d d']
    by (auto simp: date_less_def valid_date_def append_less_iff)
qed

lemma time_text_less:
  assumes "0 \<le> a" "a < b" "b < 86400"
  shows "show2 (a div 3600) @ '':'' @ show2 (a div 60 mod 60) @ '':'' @ show2 (a mod 60) @ z
    < show2 (b div 3600) @ '':'' @ show2 (b div 60 mod 60) @ '':'' @ show2 (b mod 60) @ z"
proof -
  have h: "x div 3600 = x div 60 div 60" for x :: int using zdiv_zmult2_eq [of 60 x 60] by simp
  have m: "x mod 60 < 100" for x :: int using pos_mod_bound [of 60 x] by simp
  have r: "0 \<le> a div 3600" "b div 3600 < 100" "0 \<le> a div 60 mod 60" "b div 60 mod 60 < 100" "0 \<le> a mod 60" "b mod 60 < 100"
    using assms m by auto
  consider "a div 3600 < b div 3600" | "a div 3600 = b div 3600" "a div 60 mod 60 < b div 60 mod 60"
    | "a div 3600 = b div 3600" "a div 60 mod 60 = b div 60 mod 60" "a mod 60 < b mod 60"
    using div_mod_less [OF assms(2), of 60] div_mod_less [of "a div 60" "b div 60" 60] zero_less_numeral unfolding h by metis
  then show ?thesis
  proof cases
    case 1
    from show2_less [OF r(1) this r(2)] show ?thesis by (simp only: append_less_iff length_shows simp_thms)
  next
    case 2
    from show2_less [OF r(3) this(2) r(4)] this(1) show ?thesis by (simp only: append_less_iff length_shows simp_thms)
  next
    case 3
    from show2_less [OF r(5) this(3) r(6)] this(1,2) show ?thesis by (simp only: append_less_iff length_shows simp_thms)
  qed
qed

lemma utc_text_less:
  assumes "in_range a" "in_range b" "a mod 1000000 = 0" "b mod 1000000 = 0" "a < b"
  shows "utc_text a < utc_text b"
proof -
  define n n' where "n = a div us_per_day + epoch_ordinal" and "n' = b div us_per_day + epoch_ordinal"
  obtain y m d y' m' d' where ymd: "ord2ymd n = (y, m, d)" "ord2ymd n' = (y', m', d')" by (metis prod_cases3)
  have n: "1 \<le> n" "n \<le> max_ordinal" "1 \<le> n'" "n' \<le> max_ordinal"
    using assms(1,2) by (auto simp: n_def n'_def in_range_def min_instant_def max_instant_def us_per_day_def epoch_ordinal_def max_ordinal_def)
  have v: "valid_date y m d" "valid_date y' m' d'" using ord2ymd_valid n ymd by simp_all
  let ?s = "\<lambda>t. t mod us_per_day div 1000000"
  have s: "0 \<le> ?s a" "?s b < 86400" by (auto simp: us_per_day_def)
  have printed: "utc_text a = (show4 y @ ''-'' @ show2 m @ ''-'' @ show2 d) @ ''T'' @
      show2 (?s a div 3600) @ '':'' @ show2 (?s a div 60 mod 60) @ '':'' @ show2 (?s a mod 60) @ ''Z''"
    "utc_text b = (show4 y' @ ''-'' @ show2 m' @ ''-'' @ show2 d') @ ''T'' @
      show2 (?s b div 3600) @ '':'' @ show2 (?s b div 60 mod 60) @ '':'' @ show2 (?s b mod 60) @ ''Z''"
    using assms(3,4) ymd by (simp_all add: utc_text_def iso_seconds_def n_def n'_def Let_def)
  show ?thesis
  proof (cases "n = n'")
    case True
    have "a mod us_per_day < b mod us_per_day"
      using True div_mod_less [OF assms(5), of us_per_day] by (simp add: n_def n'_def us_per_day_def)
    moreover have "a mod us_per_day mod 1000000 = 0" "b mod us_per_day mod 1000000 = 0"
      using assms(3,4) mod_mod_cancel [of 1000000 us_per_day] by (simp_all add: us_per_day_def)
    ultimately have "?s a < ?s b" using div_mult_mod_eq [of "a mod us_per_day" 1000000] div_mult_mod_eq [of "b mod us_per_day" 1000000] by linarith
    then show ?thesis using time_text_less [OF s(1) _ s(2)] True ymd unfolding printed by (simp add: append_less_iff)
  next
    case False
    moreover have "a div us_per_day \<le> b div us_per_day" using assms(5) by (intro zdiv_mono1) (simp_all add: us_per_day_def)
    ultimately have "n < n'" by (simp add: n_def n'_def)
    then have "date_less (y, m, d) (y', m', d')" using ord2ymd_less [OF n(1) _ n(4) ymd] by blast
    from date_text_less [OF v this] show ?thesis
      unfolding printed by (rule append_less_iff [THEN iffD2, OF _ disjI1, rotated]) simp
  qed
qed

lemma utc_text_less_iff:
  assumes "in_range a" "in_range b" "a mod 1000000 = 0" "b mod 1000000 = 0"
  shows "utc_text a < utc_text b \<longleftrightarrow> a < b"
  using utc_text_less [OF assms] utc_text_less [OF assms(2,1,4,3)] by (metis linorder_less_linear order_less_asym)

end
