(* ===== verification/Feature_Worker.thy ===== *)
theory Feature_Worker
  imports Utc_Order Feature_Vectors Decision_Runner
begin

text \<open>
  \<^verbatim>\<open>soc/workers/features.py\<close>: the worker that turns the normalized events of closed five-minute windows into
  stored vectors, and its ledger of window outcomes. The JSON-schema validator, the digests of the
  schema files, the text of an exception and the clock (read from the world) are parameters. A pass
  is \<open>'w \<times> window_table\<close> state with exceptions, under \<open>option\<close> because it scans an index.
\<close>

section \<open>Windows\<close>

definition floor_window :: "int \<Rightarrow> int" where
  "floor_window t = (let minute_us = 60 * 1000000; hour_us = 60 * minute_us in
     t div hour_us * hour_us + t mod hour_us div minute_us div 5 * 5 * minute_us)"

text \<open>\<^verbatim>\<open>start + WINDOW\<close> is evaluated before the length is tested.\<close>

fun windows_from :: "int \<Rightarrow> nat \<Rightarrow> int \<Rightarrow> int list res" where
  "windows_from latest_end 0 start = bindR (shifted start FIVE_MINUTES) (\<lambda>_. Inr [])"
| "windows_from latest_end (Suc n) start = bindR (shifted start FIVE_MINUTES) (\<lambda>stop.
     if stop \<le> latest_end then bindR (windows_from latest_end n stop) (\<lambda>ws. Inr (start # ws)) else Inr [])"

definition closed_windows :: "int \<Rightarrow> int \<Rightarrow> int \<Rightarrow> int \<Rightarrow> int list res" where
  "closed_windows now lag since max_windows =
     bindR (shifted now (- lag)) (\<lambda>edge. windows_from (floor_window edge) (nat max_windows) (floor_window since))"

section \<open>The ledger of windows\<close>

record window_row =
  wr_status :: string
  wr_events :: nat
  wr_vectors :: nat
  wr_error :: "string option"
  wr_updated :: string

type_synonym window_table = "((string \<times> string) \<times> window_row) list"

definition record_window :: "int \<Rightarrow> string \<Rightarrow> int \<Rightarrow> string \<Rightarrow> nat \<Rightarrow> nat \<Rightarrow> string option \<Rightarrow> window_table \<Rightarrow> window_table" where
  "record_window now schema start status events vectors error = AList.update (schema, utc_text start)
     \<lparr>wr_status = status, wr_events = events, wr_vectors = vectors, wr_error = error, wr_updated = utc_text now\<rparr>"

text \<open>\<^verbatim>\<open>window_start\<close> of the rows of a schema that a condition on the status selects.\<close>

definition starts_of :: "(string \<Rightarrow> bool) \<Rightarrow> string \<Rightarrow> window_table \<Rightarrow> string list" where
  "starts_of P schema tb = map (\<lambda>((s, start), r). start) (filter (\<lambda>((s, start), r). s = schema \<and> P (wr_status r)) tb)"

abbreviation is_settled :: "string \<Rightarrow> bool" where
  "is_settled status \<equiv> status \<noteq> ''failed''"

definition last_done :: "string \<Rightarrow> window_table \<Rightarrow> int option res" where
  "last_done schema tb = (case starts_of is_settled schema tb of
     [] \<Rightarrow> Inr None
   | t # ts \<Rightarrow> (let value = fold max ts t in if value = [] then Inr None else bindR (utc_of_text value) (\<lambda>d. Inr (Some d))))"

definition pending_windows :: "string \<Rightarrow> int list \<Rightarrow> window_table \<Rightarrow> int list" where
  "pending_windows schema candidates tb = filter (\<lambda>w. utc_text w \<notin> set (starts_of is_settled schema tb)) candidates"

definition window_counts :: "window_table \<Rightarrow> ((string \<times> string) \<times> nat) list" where
  "window_counts tb = (let ks = map (\<lambda>((s, start), r). (s, wr_status r)) tb in map (\<lambda>k. (k, count_list ks k)) (remdups ks))"

section \<open>Reading events\<close>

definition NETWORK_INDICES :: string where
  "NETWORK_INDICES = ''soc-network-*,soc-alerts-*,soc-auth-*''"

definition ENDPOINT_INDICES :: string where
  "ENDPOINT_INDICES = ''soc-endpoint-*''"

definition NETWORK_DATASETS :: "string list" where
  "NETWORK_DATASETS = [''suricata.eve'', ''firewall.syslog'', ''freeradius.auth'']"

definition EVENT_FIELDS :: "string list" where
  "EVENT_FIELDS = [''@timestamp'', ''event.id'', ''event.dataset'', ''event.category'', ''event.action'', ''event.outcome'', ''event.severity'',
     ''event_type'', ''source.ip'', ''destination.ip'', ''destination.port'', ''network.bytes'', ''network.protocol'', ''network.transport'',
     ''flow.bytes_toserver'', ''flow.bytes_toclient'', ''dns.type'', ''dns.rrname'', ''dns.question.name'', ''alert.severity'',
     ''alert.signature_id'', ''host.name'', ''process.name'', ''process.command_line'', ''rule.description'', ''cxyz.schema_version'']"

definition exists_q :: "string \<Rightarrow> pyval" where
  "exists_q field = PDict [(''exists'', PDict [(''field'', PStr field)])]"

definition window_query :: "int \<Rightarrow> int \<Rightarrow> string \<Rightarrow> pyval" where
  "window_query start stop schema = PDict [(''bool'', PDict [(''filter'', PList (range_q start stop #
     (if schema = ''network-window-v1''
      then [PDict [(''terms'', PDict [(''event.dataset'', PList (map PStr NETWORK_DATASETS))])], exists_q ''source.ip'']
      else [exists_q ''host.name''])))])]"

text \<open>\<^verbatim>\<open>_expand\<close>: a dotted key becomes a path; \<^verbatim>\<open>setdefault\<close> on or assignment into a value that is no object raises.\<close>

fun put_path :: "string list \<Rightarrow> string \<Rightarrow> pyval \<Rightarrow> pyval \<Rightarrow> pyval res" where
  "put_path [] leaf v node = (case node of PDict kvs \<Rightarrow> Inr (PDict (dict_set leaf v kvs)) | _ \<Rightarrow> Inl (TypeErr ''item assignment''))"
| "put_path (part # parents) leaf v node = (case node of
     PDict kvs \<Rightarrow> bindR (put_path parents leaf v (case dict_get kvs part of Some c \<Rightarrow> c | None \<Rightarrow> PDict []))
       (\<lambda>c. Inr (PDict (dict_set part c kvs)))
   | _ \<Rightarrow> Inl (AttributeErr ''setdefault''))"

definition dict_update :: "pyval dict \<Rightarrow> pyval dict \<Rightarrow> pyval dict" where
  "dict_update d upd = fold (\<lambda>(k, v). dict_set k v) upd d"

definition expand_key :: "string \<Rightarrow> pyval \<Rightarrow> pyval dict \<Rightarrow> pyval dict res" where
  "expand_key key v expanded = (
     if CHR ''.'' \<in> set key
     then (let parts = split_on (CHR ''.'') key in
       bindR (put_path (butlast parts) (last parts) v (PDict expanded)) (\<lambda>e. Inr (entries e)))
     else (case (dict_get expanded key, v) of
         (Some (PDict existing), PDict new) \<Rightarrow> Inr (dict_set key (PDict (dict_update existing new)) expanded)
       | _ \<Rightarrow> Inr (dict_set key v expanded)))"

fun expand_keys :: "pyval dict \<Rightarrow> pyval dict \<Rightarrow> pyval dict res" where
  "expand_keys [] expanded = Inr expanded"
| "expand_keys ((key, v) # items) expanded = bindR (expand_key key v expanded) (expand_keys items)"

definition expand :: "pyval \<Rightarrow> pyval res" where
  "expand source = bindR (expand_keys (entries source) []) (\<lambda>e. Inr (PDict e))"

definition collect_event :: "pyval \<Rightarrow> (pyval list, bool) ex" where
  "collect_event hit events = (case json_get hit ''_source'' PNone of
     Inl e \<Rightarrow> (Inl e, events)
   | Inr source \<Rightarrow> if \<not> is_mapping source then (Inr True, events)
       else (case expand source of Inl e \<Rightarrow> (Inl e, events) | Inr ev \<Rightarrow> (Inr True, events @ [ev])))"

definition fetch_window_events :: "'w http \<Rightarrow> string \<Rightarrow> int \<Rightarrow> nat \<Rightarrow> int \<Rightarrow> 'w \<Rightarrow> (pyval list res \<times> 'w) option" where
  "fetch_window_events h schema start max_events page_size w = (case shifted start FIVE_MINUTES of
     Inl e \<Rightarrow> Some (Inl e, w)
   | Inr stop \<Rightarrow> map_option (\<lambda>(r, events, w'). (bindR r (\<lambda>_. Inr events), w'))
       (es_scan h (if schema = ''network-window-v1'' then NETWORK_INDICES else ENDPOINT_INDICES) (window_query start stop schema)
         [PDict [(''@timestamp'', PStr ''asc'')], PDict [(''cxyz.ingestion_id'', PStr ''asc'')]]
         (Some EVENT_FIELDS) page_size (Some max_events) None collect_event [] w))"

definition load_process_baseline :: "pyval option \<Rightarrow> string list option res" where
  "load_process_baseline payload = (case payload of None \<Rightarrow> Inr None
     | Some (PList vs) \<Rightarrow> (if list_all (\<lambda>v. as_str v \<noteq> None) vs then Inr (Some (map (the \<circ> as_str) vs))
         else Inl (ValueError ''process baseline must be a JSON list of process names''))
     | _ \<Rightarrow> Inl (ValueError ''process baseline must be a JSON list of process names''))"

section \<open>One window\<close>

record 'w feature_worker =
  fw_http :: "'w http"
  fw_prims :: prims
  fw_schema_ok :: "string \<Rightarrow> pyval \<Rightarrow> bool"
  fw_schema_sha256 :: "string \<Rightarrow> string option"
  fw_describe :: "exn \<Rightarrow> string"
  fw_clock :: "'w \<Rightarrow> int"
  fw_git_sha :: string
  fw_max_events :: nat
  fw_baseline :: "string list option"

definition feature_schema_sha256 :: "'w feature_worker \<Rightarrow> string \<Rightarrow> string res" where
  "feature_schema_sha256 fw schema = bindR (expected_feature_names schema) (\<lambda>_. case fw_schema_sha256 fw schema of
     None \<Rightarrow> Inl (FeatureSchema ''feature schema is missing'') | Some h \<Rightarrow> Inr h)"

definition build_window :: "'w feature_worker \<Rightarrow> string \<Rightarrow> int \<Rightarrow> pyval list \<Rightarrow> pyval list res" where
  "build_window fw schema start events =
     bindR (shifted start FIVE_MINUTES) (\<lambda>stop.
     let pr = fw_prims fw; ws = Moment (Aware start); we = Moment (Aware stop); git = fw_git_sha fw in
     bindR (if schema = ''network-window-v1''
         then build_network_vectors pr (feature_schema_sha256 fw ''network-window-v1'') events ws we git None
         else build_endpoint_vectors pr (feature_schema_sha256 fw ''endpoint-window-v1'') events ws we git []
           (if schema = ''endpoint-window-v1'' then fw_baseline fw else None) None) (\<lambda>vectors.
     bindR (mapR (validate_vector pr (fw_schema_ok fw) (fw_schema_sha256 fw)) vectors) (\<lambda>_. Inr vectors)))"

fun create_all :: "'w http \<Rightarrow> string \<Rightarrow> pyval list \<Rightarrow> ('w, unit) ex" where
  "create_all h index [] = returnX ()"
| "create_all h index (vector # vectors) = bindX (es_create h index (sget vector ''vector_id'') vector) (\<lambda>_. create_all h index vectors)"

definition settle_window :: "'w feature_worker \<Rightarrow> string \<Rightarrow> int \<Rightarrow> string \<Rightarrow> nat \<Rightarrow> nat \<Rightarrow> string option \<Rightarrow> 'w \<Rightarrow> window_table \<Rightarrow>
  string res \<times> 'w \<times> window_table" where
  "settle_window fw schema start status events vectors error w tb =
     (Inr status, w, record_window (fw_clock fw w) schema start status events vectors error tb)"

definition limit_text :: "nat \<Rightarrow> string" where
  "limit_text l = ''scan exceeded the configured limit of '' @ show_nat l @ '' documents''"

fun delivery_code :: "exn \<Rightarrow> string option" where
  "delivery_code (DeliveryErr code retryable status) = Some code"
| "delivery_code _ = None"

fun scan_limit :: "exn \<Rightarrow> nat option" where
  "scan_limit (ScanLimitExceeded l) = Some l"
| "scan_limit _ = None"

definition deliver_window :: "'w feature_worker \<Rightarrow> string \<Rightarrow> int \<Rightarrow> pyval list \<Rightarrow> 'w \<Rightarrow> window_table \<Rightarrow> string res \<times> 'w \<times> window_table" where
  "deliver_window fw schema start events w tb = (case build_window fw schema start events of
     Inl e \<Rightarrow> settle_window fw schema start ''failed'' (length events) 0 (Some (fw_describe fw e)) w tb
   | Inr vectors \<Rightarrow>
       (case shifted start FIVE_MINUTES of Inl e \<Rightarrow> (Inl e, w, tb) | Inr stop \<Rightarrow>
       (case create_all (fw_http fw) (''soc-features-'' @ day_suffix stop) vectors w of
          (Inl e, w') \<Rightarrow> (case delivery_code e of
              Some code \<Rightarrow> settle_window fw schema start ''failed'' (length events) 0 (Some code) w' tb
            | None \<Rightarrow> (Inl e, w', tb))
        | (Inr u, w') \<Rightarrow> settle_window fw schema start ''done'' (length events) (length vectors) None w' tb)))"

definition process_window :: "'w feature_worker \<Rightarrow> string \<Rightarrow> int \<Rightarrow> 'w \<times> window_table \<Rightarrow> (string res \<times> 'w \<times> window_table) option" where
  "process_window fw schema start s = (case s of (w, tb) \<Rightarrow>
     (case fetch_window_events (fw_http fw) schema start (fw_max_events fw) 2000 w of
        None \<Rightarrow> None
      | Some (Inl e, w1) \<Rightarrow> Some (case scan_limit e of
            Some l \<Rightarrow> settle_window fw schema start ''oversized'' l 0 (Some (limit_text l)) w1 tb
          | None \<Rightarrow> (Inl e, w1, tb))
      | Some (Inr events, w1) \<Rightarrow> Some (if events = [] then settle_window fw schema start ''empty'' 0 0 None w1 tb
          else deliver_window fw schema start events w1 tb)))"

section \<open>One pass\<close>

fun process_all :: "'w feature_worker \<Rightarrow> string \<Rightarrow> int list \<Rightarrow> nat dict \<Rightarrow> 'w \<times> window_table \<Rightarrow> (nat dict res \<times> 'w \<times> window_table) option" where
  "process_all fw schema [] outcomes s = Some (Inr outcomes, s)"
| "process_all fw schema (start # starts) outcomes s = (case process_window fw schema start s of
     None \<Rightarrow> None
   | Some (Inl e, s') \<Rightarrow> Some (Inl e, s')
   | Some (Inr outcome, s') \<Rightarrow> process_all fw schema starts
       (dict_set outcome (Suc (case dict_get outcomes outcome of Some n \<Rightarrow> n | None \<Rightarrow> 0)) outcomes) s')"

text \<open>\<^verbatim>\<open>dict.fromkeys(xs)\<close>: the first occurrences, in order.\<close>

definition dict_fromkeys :: "'a list \<Rightarrow> 'a list" where
  "dict_fromkeys xs = rev (remdups (rev xs))"

definition failed_windows :: "string \<Rightarrow> int \<Rightarrow> window_table \<Rightarrow> int list res" where
  "failed_windows schema max_windows tb =
     bindR (mapR utc_of_text (sort (starts_of (\<lambda>st. st = ''failed'') schema tb))) (\<lambda>fs.
     Inr (take (nat (max 1 (max_windows div 4))) fs))"

definition since_of :: "string \<Rightarrow> int \<Rightarrow> int \<Rightarrow> window_table \<Rightarrow> int res" where
  "since_of schema now lookback tb = bindR (last_done schema tb) (\<lambda>last. case last of
     Some d \<Rightarrow> shifted d FIVE_MINUTES
   | None \<Rightarrow> bindR (shifted now (- lookback)) (\<lambda>t. Inr (floor_window t)))"

definition work_list :: "string \<Rightarrow> int \<Rightarrow> int \<Rightarrow> int \<Rightarrow> int \<Rightarrow> window_table \<Rightarrow> int list res" where
  "work_list schema now lag lookback max_windows tb =
     bindR (since_of schema now lookback tb) (\<lambda>since.
     bindR (closed_windows now lag since max_windows) (\<lambda>candidates.
     bindR (failed_windows schema max_windows tb) (\<lambda>fs.
     Inr (dict_fromkeys (fs @ pending_windows schema candidates tb)))))"

definition run_schema :: "'w feature_worker \<Rightarrow> string \<Rightarrow> int \<Rightarrow> int \<Rightarrow> int \<Rightarrow> int \<Rightarrow> 'w \<times> window_table \<Rightarrow> (nat dict res \<times> 'w \<times> window_table) option" where
  "run_schema fw schema now lag lookback max_windows s = (case work_list schema now lag lookback max_windows (snd s) of
     Inl e \<Rightarrow> Some (Inl e, s)
   | Inr starts \<Rightarrow> process_all fw schema starts [] s)"

fun feature_pass :: "'w feature_worker \<Rightarrow> string list \<Rightarrow> int \<Rightarrow> int \<Rightarrow> int \<Rightarrow> int \<Rightarrow> nat dict dict \<Rightarrow> 'w \<times> window_table \<Rightarrow>
  (nat dict dict res \<times> 'w \<times> window_table) option" where
  "feature_pass fw [] now lag lookback max_windows summary s = Some (Inr summary, s)"
| "feature_pass fw (schema # schemas) now lag lookback max_windows summary s =
     (case run_schema fw schema now lag lookback max_windows s of
        None \<Rightarrow> None
      | Some (Inl e, s') \<Rightarrow> Some (Inl e, s')
      | Some (Inr outcomes, s') \<Rightarrow> feature_pass fw schemas now lag lookback max_windows (dict_set schema outcomes summary) s')"

section \<open>Closed windows\<close>

lemma FIVE_MINUTES_pos: "0 < FIVE_MINUTES"
  by (simp add: FIVE_MINUTES_def)

lemma floor_window_eq: "floor_window t = t - t mod FIVE_MINUTES"
proof -
  define r where "r = t mod 3600000000"
  have 1: "t mod 300000000 = r mod 300000000" unfolding r_def by (rule mod_mod_cancel [symmetric]) simp
  have 2: "r div 60000000 div 5 = r div 300000000" using zdiv_zmult2_eq [of 5 r 60000000] by simp
  have 3: "r div 300000000 * 300000000 + r mod 300000000 = r" by (rule div_mult_mod_eq)
  have 4: "t div 3600000000 * 3600000000 + r = t" unfolding r_def by (rule div_mult_mod_eq)
  have "floor_window t = t div 3600000000 * 3600000000 + r div 60000000 div 5 * 5 * 60000000"
    by (simp add: floor_window_def r_def Let_def)
  then have 5: "floor_window t = t div 3600000000 * 3600000000 + r div 300000000 * 300000000" by (simp add: 2)
  have 6: "FIVE_MINUTES = 300000000" by (simp add: FIVE_MINUTES_def)
  have "A + B = t - C" if "A + r = t" "B + C = r" for A B C using that by simp
  from this [OF 4 3] show ?thesis unfolding 5 6 1 .
qed

lemma floor_window_aligned [simp]: "floor_window t mod FIVE_MINUTES = 0"
  by (simp add: floor_window_eq)

lemma floor_window_le: "floor_window t \<le> t"
  using FIVE_MINUTES_pos by (simp add: floor_window_eq)

lemma shifted_Inr: "shifted t d = Inr u \<longleftrightarrow> u = t + d \<and> in_range (t + d)"
  by (auto simp: shifted_def)

lemma windows_from_exact:
  "windows_from latest n start = Inr ws \<Longrightarrow>
   \<exists>k \<le> n. ws = map (\<lambda>i. start + int i * FIVE_MINUTES) [0..<k] \<and>
     (\<forall>w \<in> set ws. w + FIVE_MINUTES \<le> latest \<and> in_range (w + FIVE_MINUTES)) \<and>
     (k = n \<or> latest < start + int k * FIVE_MINUTES + FIVE_MINUTES)"
proof (induction n arbitrary: start ws)
  case (Suc n)
  show ?case
  proof (cases "start + FIVE_MINUTES \<le> latest")
    case True
    then obtain us where rng: "in_range (start + FIVE_MINUTES)" and us: "windows_from latest n (start + FIVE_MINUTES) = Inr us" "ws = start # us"
      using Suc.prems by (auto simp: bindR_eq_Inr shifted_Inr)
    from Suc.IH [OF us(1)] obtain k where k: "k \<le> n" "us = map (\<lambda>i. start + FIVE_MINUTES + int i * FIVE_MINUTES) [0..<k]"
      "\<forall>w \<in> set us. w + FIVE_MINUTES \<le> latest \<and> in_range (w + FIVE_MINUTES)"
      "k = n \<or> latest < start + FIVE_MINUTES + int k * FIVE_MINUTES + FIVE_MINUTES" by blast
    have "ws = map (\<lambda>i. start + int i * FIVE_MINUTES) [0..<Suc k]"
      unfolding us(2) k(2) map_upt_Suc by (simp add: algebra_simps)
    moreover have "\<forall>w \<in> set ws. w + FIVE_MINUTES \<le> latest \<and> in_range (w + FIVE_MINUTES)" using k(3) True rng us(2) by simp
    moreover have "Suc k = Suc n \<or> latest < start + int (Suc k) * FIVE_MINUTES + FIVE_MINUTES" using k(4) by (simp add: algebra_simps)
    ultimately show ?thesis using k(1) by (metis Suc_le_mono)
  next
    case False
    then have "ws = []" using Suc.prems by (auto simp: bindR_eq_Inr shifted_Inr)
    then show ?thesis using False by (intro exI [of _ 0]) simp
  qed
qed (simp add: bindR_eq_Inr)

lemma floor_window_next: "floor_window t < y \<Longrightarrow> y mod FIVE_MINUTES = 0 \<Longrightarrow> t < y"
proof -
  assume y: "floor_window t < y" "y mod FIVE_MINUTES = 0"
  have "t < floor_window t + FIVE_MINUTES" using pos_mod_bound [OF FIVE_MINUTES_pos, of t] by (simp add: floor_window_eq)
  moreover have "floor_window t + FIVE_MINUTES \<le> y"
  proof -
    have "(y - floor_window t) mod FIVE_MINUTES = 0" using y(2) by (simp add: mod_diff_eq [symmetric])
    then have "FIVE_MINUTES \<le> y - floor_window t" using y(1) by (intro zdvd_imp_le) (auto simp: mod_eq_0_iff_dvd)
    then show ?thesis by simp
  qed
  ultimately show ?thesis by simp
qed

lemma grid_mod: "start mod FIVE_MINUTES = 0 \<Longrightarrow> (start + int i * FIVE_MINUTES) mod FIVE_MINUTES = 0"
  by simp

text \<open>
  The windows a pass takes up are exactly the next closed ones: consecutive five-minute windows
  aligned to the clock, oldest first from the given instant, each ended at least the lag ago, at most
  \<^verbatim>\<open>max_windows\<close> of them, and none that is due is left out unless that bound is reached.
\<close>

theorem closed_windows_exact:
  assumes "closed_windows now lag since max_windows = Inr ws"
  shows "\<exists>k \<le> nat max_windows. ws = map (\<lambda>i. floor_window since + int i * FIVE_MINUTES) [0..<k] \<and>
    (\<forall>w \<in> set ws. w mod FIVE_MINUTES = 0 \<and> w + FIVE_MINUTES \<le> now - lag) \<and>
    (k = nat max_windows \<or> now - lag < floor_window since + int k * FIVE_MINUTES + FIVE_MINUTES)"
proof -
  have "windows_from (floor_window (now - lag)) (nat max_windows) (floor_window since) = Inr ws"
    using assms by (simp add: closed_windows_def bindR_eq_Inr shifted_Inr)
  from windows_from_exact [OF this] obtain k where k: "k \<le> nat max_windows"
    "ws = map (\<lambda>i. floor_window since + int i * FIVE_MINUTES) [0..<k]"
    "\<forall>w \<in> set ws. w + FIVE_MINUTES \<le> floor_window (now - lag) \<and> in_range (w + FIVE_MINUTES)"
    "k = nat max_windows \<or> floor_window (now - lag) < floor_window since + int k * FIVE_MINUTES + FIVE_MINUTES" by blast
  have "\<forall>w \<in> set ws. w mod FIVE_MINUTES = 0 \<and> w + FIVE_MINUTES \<le> now - lag"
    using k(3) floor_window_le [of "now - lag"] by (auto simp: k(2) intro: order_trans)
  moreover have "now - lag < floor_window since + int k * FIVE_MINUTES + FIVE_MINUTES" if other: "k \<noteq> nat max_windows"
  proof (rule floor_window_next)
    show "floor_window (now - lag) < floor_window since + int k * FIVE_MINUTES + FIVE_MINUTES" using k(4) other by blast
    show "(floor_window since + int k * FIVE_MINUTES + FIVE_MINUTES) mod FIVE_MINUTES = 0"
      unfolding mod_add_self2 by (rule grid_mod) (rule floor_window_aligned)
  qed
  ultimately show ?thesis using k(1,2) by auto
qed

section \<open>Every pass ends\<close>

lemma fetch_returns: "\<exists>r w'. fetch_window_events h schema start n page_size w = Some (r, w')"
proof (cases "shifted start FIVE_MINUTES")
  case (Inr stop)
  show ?thesis unfolding fetch_window_events_def Inr
    using capped_scan_ends [of h _ "window_query start stop schema"
        "[PDict [(''@timestamp'', PStr ''asc'')], PDict [(''cxyz.ingestion_id'', PStr ''asc'')]]" "Some EVENT_FIELDS" page_size n None collect_event "[]" w]
    by fastforce
qed (simp add: fetch_window_events_def)

lemma process_window_returns: "\<exists>r s'. process_window fw schema start s = Some (r, s')"
proof -
  obtain w tb where s: "s = (w, tb)" by fastforce
  obtain r w' where f: "fetch_window_events (fw_http fw) schema start (fw_max_events fw) 2000 w = Some (r, w')"
    using fetch_returns [of "fw_http fw" schema start "fw_max_events fw" 2000 w] by blast
  then have "\<exists>x. process_window fw schema start s = Some x" by (cases r) (simp_all add: process_window_def s del: split_paired_Ex)
  then show ?thesis by fastforce
qed

lemma process_all_returns: "\<exists>r s'. process_all fw schema starts outcomes s = Some (r, s')"
proof (induction starts arbitrary: outcomes s)
  case (Cons start starts)
  obtain r s' where "process_window fw schema start s = Some (r, s')" using process_window_returns by blast
  then show ?case using Cons.IH by (cases r) simp_all
qed simp

lemma run_schema_returns: "\<exists>r s'. run_schema fw schema now lag lookback max_windows s = Some (r, s')"
  using process_all_returns by (cases "work_list schema now lag lookback max_windows (snd s)") (simp_all add: run_schema_def, blast)

text \<open>
  A pass of the feature worker ends, whatever the index answers and however many windows, events and
  pages there are: scans are capped, and the windows of a pass are fixed before the first is processed.
\<close>

theorem feature_pass_ends:
  "\<exists>r s'. feature_pass fw schemas now lag lookback max_windows summary s = Some (r, s')"
proof (induction schemas arbitrary: summary s)
  case (Cons schema schemas)
  obtain r s' where "run_schema fw schema now lag lookback max_windows s = Some (r, s')" using run_schema_returns by blast
  then show ?case using Cons.IH by (cases r) simp_all
qed simp

section \<open>Tables of windows\<close>

definition slot :: "int \<Rightarrow> bool" where
  "slot w \<longleftrightarrow> w mod FIVE_MINUTES = 0 \<and> in_range w"

definition table_ok :: "window_table \<Rightarrow> bool" where
  "table_ok tb \<longleftrightarrow> distinct (map fst tb) \<and> (\<forall>((s, t), r) \<in> set tb. \<exists>w. slot w \<and> t = utc_text w)"

definition recorded_at :: "string \<Rightarrow> window_table \<Rightarrow> int set" where
  "recorded_at schema tb = {w. slot w \<and> (schema, utc_text w) \<in> fst ` set tb}"

definition settled_at :: "string \<Rightarrow> window_table \<Rightarrow> int set" where
  "settled_at schema tb = {w. slot w \<and> (\<exists>r. map_of tb (schema, utc_text w) = Some r \<and> is_settled (wr_status r))}"

lemma slot_whole: "slot w \<Longrightarrow> w mod 1000000 = 0"
proof -
  assume "slot w"
  then have "FIVE_MINUTES dvd w" by (auto simp: slot_def mod_eq_0_iff_dvd)
  then have "1000000 dvd w" by (rule dvd_trans [rotated]) (simp add: FIVE_MINUTES_def)
  then show ?thesis by (simp add: mod_eq_0_iff_dvd)
qed

lemma slot_text_less: "slot a \<Longrightarrow> slot b \<Longrightarrow> utc_text a < utc_text b \<longleftrightarrow> a < b"
  using utc_text_less_iff slot_whole by (simp add: slot_def)

lemma slot_text_eq: "slot a \<Longrightarrow> slot b \<Longrightarrow> utc_text a = utc_text b \<longleftrightarrow> a = b"
  using utc_text_inject by (simp add: slot_def)

lemma starts_of_set:
  assumes "table_ok tb"
  shows "set (starts_of P schema tb) = {t. \<exists>r. map_of tb (schema, t) = Some r \<and> P (wr_status r)}"
  using assms by (force simp: starts_of_def table_ok_def)

lemma settled_starts:
  assumes "table_ok tb"
  shows "set (starts_of is_settled schema tb) = utc_text ` settled_at schema tb"
proof -
  have "\<exists>w. slot w \<and> t = utc_text w" if "map_of tb (schema, t) = Some r" for t r
    using assms map_of_SomeD [OF that] unfolding table_ok_def by fastforce
  then show ?thesis unfolding starts_of_set [OF assms] settled_at_def by blast
qed

lemma settled_recorded: "settled_at schema tb \<subseteq> recorded_at schema tb"
  by (force simp: settled_at_def recorded_at_def dest: map_of_SomeD)

lemma fold_max_member: "fold max ts t \<in> set (t # ts) \<and> (\<forall>u \<in> set (t # ts). u \<le> fold max ts (t :: 'a :: linorder))"
proof (induction ts arbitrary: t)
  case (Cons a ts)
  show ?case using Cons.IH [of "max a t"] by (auto simp: max_def split: if_splits)
qed simp

lemma last_done_max:
  assumes "table_ok tb" "settled_at schema tb \<noteq> {}"
  shows "\<exists>m \<in> settled_at schema tb. last_done schema tb = Inr (Some m) \<and> (\<forall>w \<in> settled_at schema tb. w \<le> m)"
proof -
  have st: "set (starts_of is_settled schema tb) = utc_text ` settled_at schema tb" by (rule settled_starts [OF assms(1)])
  then obtain t ts where ts: "starts_of is_settled schema tb = t # ts" using assms(2) by (cases "starts_of is_settled schema tb") auto
  define v where "v = fold max ts t"
  have v: "v \<in> utc_text ` settled_at schema tb" "\<forall>u \<in> utc_text ` settled_at schema tb. u \<le> v"
    using fold_max_member [of ts t] unfolding st [symmetric] ts v_def by blast+
  obtain m where m: "m \<in> settled_at schema tb" "v = utc_text m" using v(1) by blast
  have sl: "slot w" if "w \<in> settled_at schema tb" for w using that by (simp add: settled_at_def)
  have "w \<le> m" if "w \<in> settled_at schema tb" for w
  proof -
    have "\<not> utc_text m < utc_text w" using v(2) that m(2) by (simp add: not_less)
    then show ?thesis using slot_text_less [OF sl [OF m(1)] sl [OF that]] by simp
  qed
  moreover have "v \<noteq> []" by (simp add: m(2) utc_text_def)
  then have "last_done schema tb = Inr (Some m)"
    using sl [OF m(1)] by (simp add: last_done_def ts v_def [symmetric] m(2) slot_def Let_def)
  ultimately show ?thesis using m(1) by blast
qed

lemma last_done_none:
  assumes "table_ok tb" "settled_at schema tb = {}"
  shows "last_done schema tb = Inr None"
proof -
  have "starts_of is_settled schema tb = []" using settled_starts [OF assms(1), of schema] assms(2) by simp
  then show ?thesis by (simp add: last_done_def)
qed

lemma floor_in_range: "in_range t \<Longrightarrow> in_range (floor_window t)"
proof -
  assume t: "in_range t"
  have "min_instant mod FIVE_MINUTES = 0" by code_simp
  then have "\<not> floor_window t < min_instant" using floor_window_next [of t min_instant] t by (auto simp: in_range_def)
  then show ?thesis using t floor_window_le [of t] by (simp add: in_range_def)
qed

lemma floor_slot: "slot w \<Longrightarrow> floor_window w = w"
  by (simp add: slot_def floor_window_eq)

section \<open>What a pass writes\<close>

lemma deliver_window_table:
  "deliver_window fw schema start events w tb = (r, w', tb') \<Longrightarrow>
   tb' = tb \<and> (\<exists>e. r = Inl e) \<or> (\<exists>row. tb' = AList.update (schema, utc_text start) row tb \<and> r = Inr (wr_status row))"
  unfolding deliver_window_def settle_window_def record_window_def
  by (simp split: sum.splits prod.splits option.splits) (metis window_row.select_convs(1))+

lemma process_window_table:
  assumes "process_window fw schema start (w, tb) = Some (r, w', tb')"
  shows "tb' = tb \<and> (\<exists>e. r = Inl e) \<or> (\<exists>row. tb' = AList.update (schema, utc_text start) row tb \<and> r = Inr (wr_status row))"
proof -
  obtain x w1 where f: "fetch_window_events (fw_http fw) schema start (fw_max_events fw) 2000 w = Some (x, w1)"
    using fetch_returns [of "fw_http fw" schema start "fw_max_events fw" 2000 w] by blast
  show ?thesis
  proof (cases x)
    case (Inl e)
    then show ?thesis using assms f
      by (cases "scan_limit e") (auto simp: process_window_def settle_window_def record_window_def intro!: exI)
  next
    case (Inr events)
    then show ?thesis using assms f deliver_window_table [of fw schema start events w1 tb r w' tb']
      by (cases "events = []") (auto simp: process_window_def settle_window_def record_window_def intro!: exI)
  qed
qed

lemma update_tables:
  assumes "table_ok tb" "slot start"
  shows "table_ok (AList.update (schema, utc_text start) row tb)"
    "recorded_at schema (AList.update (schema, utc_text start) row tb) = insert start (recorded_at schema tb)"
    "other \<noteq> schema \<Longrightarrow> recorded_at other (AList.update (schema, utc_text start) row tb) = recorded_at other tb \<and>
       settled_at other (AList.update (schema, utc_text start) row tb) = settled_at other tb"
    "start \<notin> settled_at schema tb \<Longrightarrow> settled_at schema tb \<subseteq> settled_at schema (AList.update (schema, utc_text start) row tb)"
proof -
  have keys: "fst ` set (AList.update k row tb) = insert k (fst ` set tb)" for k
    using dom_update [of k row tb] by (simp add: dom_map_of_conv_image_fst)
  show "recorded_at schema (AList.update (schema, utc_text start) row tb) = insert start (recorded_at schema tb)"
    using assms(2) slot_text_eq by (auto simp: recorded_at_def keys)
  show "other \<noteq> schema \<Longrightarrow> recorded_at other (AList.update (schema, utc_text start) row tb) = recorded_at other tb \<and>
       settled_at other (AList.update (schema, utc_text start) row tb) = settled_at other tb"
    by (auto simp: recorded_at_def settled_at_def keys update_conv')
  show "start \<notin> settled_at schema tb \<Longrightarrow> settled_at schema tb \<subseteq> settled_at schema (AList.update (schema, utc_text start) row tb)"
    using assms(2) slot_text_eq by (auto simp: settled_at_def update_conv')
  have "\<exists>w. slot w \<and> t = utc_text w" if "((s, t), r) \<in> set (AList.update (schema, utc_text start) row tb)" for s t r
  proof -
    have "(s, t) = (schema, utc_text start) \<or> (s, t) \<in> fst ` set tb" using that keys by (metis fst_conv image_eqI insertE)
    then show ?thesis using assms unfolding table_ok_def by fastforce
  qed
  then show "table_ok (AList.update (schema, utc_text start) row tb)"
    using assms(1) by (auto simp: table_ok_def distinct_update)
qed

text \<open>\<open>wrote\<close>: the tables before and after the windows \<open>ws\<close> of one schema have been recorded.\<close>

definition wrote :: "string \<Rightarrow> int set \<Rightarrow> window_table \<Rightarrow> window_table \<Rightarrow> bool" where
  "wrote schema ws tb tb' \<longleftrightarrow> table_ok tb' \<and> recorded_at schema tb' = recorded_at schema tb \<union> ws \<and>
     (ws \<inter> settled_at schema tb = {} \<longrightarrow> settled_at schema tb \<subseteq> settled_at schema tb') \<and>
     (\<forall>other. other \<noteq> schema \<longrightarrow> recorded_at other tb' = recorded_at other tb \<and> settled_at other tb' = settled_at other tb)"

lemma wrote_refl: "table_ok tb \<Longrightarrow> wrote schema {} tb tb"
  by (simp add: wrote_def)

lemma process_all_wrote:
  "process_all fw schema starts outcomes (w, tb) = Some (r, w', tb') \<Longrightarrow> table_ok tb \<Longrightarrow> \<forall>s \<in> set starts. slot s \<Longrightarrow> distinct starts \<Longrightarrow>
   set starts \<inter> settled_at schema tb = {} \<Longrightarrow>
   \<exists>k \<le> length starts. wrote schema (set (take k starts)) tb tb' \<and> ((\<exists>os. r = Inr os) \<longrightarrow> k = length starts)"
proof (induction starts arbitrary: outcomes w tb)
  case (Cons start starts)
  obtain x w1 tb1 where p: "process_window fw schema start (w, tb) = Some (x, w1, tb1)"
    using process_window_returns [of fw schema start "(w, tb)"] by auto
  have slot: "slot start" using Cons.prems(3) by simp
  from process_window_table [OF p] consider e where "tb1 = tb" "x = Inl e"
    | row where "tb1 = AList.update (schema, utc_text start) row tb" "x = Inr (wr_status row)" by blast
  then show ?case
  proof cases
    case 1
    then show ?thesis using Cons.prems(1,2) p wrote_refl by (intro exI [of _ 0]) auto
  next
    case 2
    obtain o1 where rest: "process_all fw schema starts o1 (w1, tb1) = Some (r, w', tb')" using Cons.prems(1) p 2 by auto
    have u: "table_ok tb1" "recorded_at schema tb1 = insert start (recorded_at schema tb)"
      "\<forall>other. other \<noteq> schema \<longrightarrow> recorded_at other tb1 = recorded_at other tb \<and> settled_at other tb1 = settled_at other tb"
      "start \<notin> settled_at schema tb \<Longrightarrow> settled_at schema tb \<subseteq> settled_at schema tb1"
      using update_tables [OF Cons.prems(2) slot] unfolding 2(1) by blast+
    have new: "settled_at schema tb1 \<subseteq> insert start (settled_at schema tb)"
      using slot slot_text_eq by (auto simp: settled_at_def 2(1) update_conv' split: if_splits)
    have fresh: "start \<notin> settled_at schema tb" using Cons.prems(5) by simp
    from Cons.IH [OF rest u(1)] obtain k where k: "k \<le> length starts" "wrote schema (set (take k starts)) tb1 tb'"
      "(\<exists>os. r = Inr os) \<longrightarrow> k = length starts" using Cons.prems(3-5) new by auto
    have "set (take k starts) \<inter> settled_at schema tb1 = {}" using Cons.prems(4,5) new in_set_takeD by fastforce
    then have "wrote schema (set (take (Suc k) (start # starts))) tb tb'"
      using k(2) u(2,4) u(3) fresh unfolding wrote_def by auto
    then show ?thesis using k by (intro exI [of _ "Suc k"]) auto
  qed
qed (auto intro: wrote_refl)

section \<open>No window is skipped\<close>

definition gapless :: "int set \<Rightarrow> bool" where
  "gapless R \<longleftrightarrow> (\<forall>a \<in> R. \<forall>b \<in> R. \<forall>w. a \<le> w \<and> w \<le> b \<and> w mod FIVE_MINUTES = 0 \<longrightarrow> w \<in> R)"

definition grid :: "int \<Rightarrow> nat \<Rightarrow> int list" where
  "grid s n = map (\<lambda>i. s + int i * FIVE_MINUTES) [0..<n]"

lemma grid_member:
  assumes "s mod FIVE_MINUTES = 0"
  shows "w \<in> set (grid s n) \<longleftrightarrow> w mod FIVE_MINUTES = 0 \<and> s \<le> w \<and> w < s + int n * FIVE_MINUTES"
proof
  assume "w \<in> set (grid s n)"
  then obtain i where i: "i < n" "w = s + int i * FIVE_MINUTES" by (auto simp: grid_def)
  have "int i * FIVE_MINUTES < int n * FIVE_MINUTES" using i(1) FIVE_MINUTES_pos by simp
  then show "w mod FIVE_MINUTES = 0 \<and> s \<le> w \<and> w < s + int n * FIVE_MINUTES"
    using i(2) grid_mod [OF assms] FIVE_MINUTES_pos by simp
next
  assume w: "w mod FIVE_MINUTES = 0 \<and> s \<le> w \<and> w < s + int n * FIVE_MINUTES"
  define i where "i = nat ((w - s) div FIVE_MINUTES)"
  have "(w - s) mod FIVE_MINUTES = 0" using w assms by (simp add: mod_diff_eq [symmetric])
  then have d: "(w - s) div FIVE_MINUTES * FIVE_MINUTES = w - s" using div_mult_mod_eq [of "w - s" FIVE_MINUTES] by simp
  have nn: "0 \<le> (w - s) div FIVE_MINUTES" using w FIVE_MINUTES_pos by (simp add: pos_imp_zdiv_nonneg_iff)
  then have i: "int i * FIVE_MINUTES = w - s" using d by (simp add: i_def)
  then have "int i * FIVE_MINUTES < int n * FIVE_MINUTES" using w by linarith
  then have "i < n" using FIVE_MINUTES_pos by simp
  then show "w \<in> set (grid s n)" using i by (auto simp: grid_def image_iff intro!: bexI [of _ i])
qed

lemma take_grid: "take j (grid s n) = grid s (min j n)"
  by (simp add: grid_def take_map take_upt min_def)

lemma gapless_extend:
  assumes "gapless R" "s mod FIVE_MINUTES = 0" "R = {} \<or> s - FIVE_MINUTES \<in> R" "\<forall>w \<in> R. w mod FIVE_MINUTES = 0"
  shows "gapless (R \<union> set (grid s n))"
  unfolding gapless_def
proof (intro ballI allI impI)
  fix a b w
  assume a: "a \<in> R \<union> set (grid s n)" and b: "b \<in> R \<union> set (grid s n)" and w: "a \<le> w \<and> w \<le> b \<and> w mod FIVE_MINUTES = 0"
  note mem = grid_member [OF assms(2), of _ n]
  have before: "w \<le> s - FIVE_MINUTES" if "w < s"
  proof -
    have "(s - w) mod FIVE_MINUTES = 0" using w assms(2) by (simp add: mod_diff_eq [symmetric])
    then have "FIVE_MINUTES \<le> s - w" using that by (intro zdvd_imp_le) (auto simp: mod_eq_0_iff_dvd)
    then show ?thesis by simp
  qed
  have R: "w \<in> R" if "x \<in> R" "y \<in> R" "x \<le> w" "w \<le> y" for x y
    by (rule assms(1) [unfolded gapless_def, rule_format, OF that(1,2)]) (use that(3,4) w in blast)
  show "w \<in> R \<union> set (grid s n)"
  proof (cases "w < s")
    case True
    then have "a \<in> R" using a w mem by auto
    then show ?thesis using R [of a "s - FIVE_MINUTES"] assms(3) w before [OF True] by auto
  next
    case False
    show ?thesis
    proof (cases "b \<in> R")
      case True
      then show ?thesis using R [of "s - FIVE_MINUTES" b] assms(3) w False FIVE_MINUTES_pos by auto
    next
      case outside: False
      then show ?thesis using b w False mem by auto
    qed
  qed
qed

lemma take_filter_cover:
  assumes "\<forall>c \<in> set cs. Q c \<or> c \<in> R"
  shows "\<exists>j \<le> length cs. R \<union> set (take k (filter Q cs)) = R \<union> set (take j cs)"
  using assms
proof (induction cs arbitrary: k)
  case (Cons c cs)
  show ?case
  proof (cases "Q c")
    case True
    then show ?thesis
    proof (cases k)
      case (Suc k')
      from Cons.IH [of k'] Cons.prems obtain j where "j \<le> length cs" "R \<union> set (take k' (filter Q cs)) = R \<union> set (take j cs)" by auto
      then show ?thesis using True Suc by (intro exI [of _ "Suc j"]) auto
    qed auto
  next
    case False
    then have "c \<in> R" using Cons.prems by simp
    moreover from Cons.IH [of k] Cons.prems obtain j where "j \<le> length cs" "R \<union> set (take k (filter Q cs)) = R \<union> set (take j cs)" by auto
    ultimately show ?thesis using False by (intro exI [of _ "Suc j"]) auto
  qed
qed simp

lemma dict_fromkeys_append: "distinct ys \<Longrightarrow> dict_fromkeys (xs @ ys) = dict_fromkeys xs @ filter (\<lambda>y. y \<notin> set xs) ys"
proof (induction ys rule: rev_induct)
  case (snoc y ys)
  then show ?case by (simp add: dict_fromkeys_def append_assoc [symmetric] del: append_assoc)
qed (simp add: dict_fromkeys_def)

lemma dict_fromkeys_props: "distinct (dict_fromkeys xs)" "set (dict_fromkeys xs) = set xs"
  by (simp_all add: dict_fromkeys_def)

lemma failed_windows_recorded:
  assumes "table_ok tb" "failed_windows schema n tb = Inr fs"
  shows "set fs \<subseteq> recorded_at schema tb - settled_at schema tb"
proof
  fix f
  assume f: "f \<in> set fs"
  obtain us where us: "mapR utc_of_text (sort (starts_of (\<lambda>st. st = ''failed'') schema tb)) = Inr us" "set fs \<subseteq> set us"
    using assms(2) by (auto simp: failed_windows_def bindR_eq_Inr dest: in_set_takeD)
  then obtain t where t: "t \<in> set (starts_of (\<lambda>st. st = ''failed'') schema tb)" "utc_of_text t = Inr f"
    using mapR_member [OF us(1), of f] f by auto
  then obtain r where r: "map_of tb (schema, t) = Some r" "wr_status r = ''failed''" unfolding starts_of_set [OF assms(1)] by blast
  obtain w where w: "slot w" "t = utc_text w" using assms(1) map_of_SomeD [OF r(1)] unfolding table_ok_def by fastforce
  then have "f = w" using t(2) by (simp add: slot_def)
  then show "f \<in> recorded_at schema tb - settled_at schema tb"
    using w r map_of_SomeD [OF r(1)] by (force simp: recorded_at_def settled_at_def)
qed

lemma since_slot:
  assumes "table_ok tb" "since_of schema now lookback tb = Inr since"
  shows "slot since \<and> (settled_at schema tb \<noteq> {} \<longrightarrow> since - FIVE_MINUTES \<in> settled_at schema tb \<and> (\<forall>w \<in> settled_at schema tb. w < since))"
proof (cases "settled_at schema tb = {}")
  case True
  then show ?thesis using assms(2) last_done_none [OF assms(1) True]
    by (auto simp: since_of_def bindR_eq_Inr shifted_Inr slot_def floor_in_range)
next
  case False
  from last_done_max [OF assms(1) False] obtain m where m: "m \<in> settled_at schema tb" "last_done schema tb = Inr (Some m)"
    "\<forall>w \<in> settled_at schema tb. w \<le> m" by blast
  then have since: "since = m + FIVE_MINUTES" "in_range (m + FIVE_MINUTES)" using assms(2) by (auto simp: since_of_def shifted_Inr)
  have "slot m" using m(1) by (simp add: settled_at_def)
  then have "slot since" using since by (simp add: slot_def)
  then show ?thesis using m(1,3) since(1) FIVE_MINUTES_pos by fastforce
qed

lemma closed_windows_grid:
  assumes "closed_windows now lag since max_windows = Inr ws" "slot since"
  shows "\<exists>n. ws = grid since n \<and> (\<forall>w \<in> set ws. slot w)"
proof -
  have "windows_from (floor_window (now - lag)) (nat max_windows) since = Inr ws"
    using assms by (simp add: closed_windows_def bindR_eq_Inr shifted_Inr floor_slot)
  from windows_from_exact [OF this] obtain n where n: "ws = grid since n" "\<forall>w \<in> set ws. in_range (w + FIVE_MINUTES)"
    unfolding grid_def by blast
  have "slot w" if "w \<in> set ws" for w
  proof -
    have "w mod FIVE_MINUTES = 0" "since \<le> w" using that assms(2) grid_member [of since w n] by (simp_all add: n(1) slot_def)
    moreover have "in_range (w + FIVE_MINUTES)" using n(2) that by blast
    ultimately show ?thesis using assms(2) FIVE_MINUTES_pos by (simp add: slot_def in_range_def)
  qed
  then show ?thesis using n(1) by blast
qed

lemma distinct_grid: "distinct (grid s n)"
  using FIVE_MINUTES_pos by (simp add: grid_def distinct_map inj_on_def)

text \<open>
  The windows of a pass: those still failed and those not yet settled, none of which is settled.
  Whatever prefix of them gets recorded, the recorded windows are a stretch of the candidates added to
  the ones before.
\<close>

lemma work_list_windows:
  assumes "table_ok tb" "work_list schema now lag lookback max_windows tb = Inr starts"
  obtains since n where "since_of schema now lookback tb = Inr since" "closed_windows now lag since max_windows = Inr (grid since n)"
    "distinct starts" "\<forall>s \<in> set starts. slot s" "set starts \<inter> settled_at schema tb = {}"
    "set (grid since n) \<subseteq> recorded_at schema tb \<union> set starts"
    "\<forall>k. \<exists>j. recorded_at schema tb \<union> set (take k starts) = recorded_at schema tb \<union> set (grid since j)"
proof -
  obtain since cs fs where since: "since_of schema now lookback tb = Inr since" and cs: "closed_windows now lag since max_windows = Inr cs"
    and fs: "failed_windows schema max_windows tb = Inr fs" and starts: "starts = dict_fromkeys (fs @ pending_windows schema cs tb)"
    using assms(2) by (auto simp: work_list_def bindR_eq_Inr)
  have slot: "slot since" using since_slot [OF assms(1) since] by blast
  from closed_windows_grid [OF cs slot] obtain n where n: "cs = grid since n" "\<forall>w \<in> set cs. slot w" by blast
  define Q where "Q = (\<lambda>c. utc_text c \<notin> set (starts_of is_settled schema tb) \<and> c \<notin> set fs)"
  have open_iff: "utc_text c \<notin> set (starts_of is_settled schema tb) \<longleftrightarrow> c \<notin> settled_at schema tb" if "slot c" for c
    unfolding settled_starts [OF assms(1)] using that slot_text_eq by (auto simp: settled_at_def)
  have "distinct (pending_windows schema cs tb)" using distinct_grid by (simp add: pending_windows_def n(1))
  then have st: "starts = dict_fromkeys fs @ filter Q cs"
    unfolding starts by (subst dict_fromkeys_append) (simp_all add: pending_windows_def Q_def)
  have F: "set (dict_fromkeys fs) \<subseteq> recorded_at schema tb - settled_at schema tb"
    using failed_windows_recorded [OF assms(1) fs] by (simp add: dict_fromkeys_props)
  have cover: "\<forall>c \<in> set cs. Q c \<or> c \<in> recorded_at schema tb"
    using F n(2) open_iff settled_recorded by (fastforce simp: Q_def dict_fromkeys_props)
  have 1: "distinct starts" by (simp add: starts dict_fromkeys_props)
  have 2: "\<forall>s \<in> set starts. slot s" using F n(2) by (auto simp: st recorded_at_def)
  have 3: "set starts \<inter> settled_at schema tb = {}" using F n(2) open_iff by (auto simp: st Q_def)
  have 4: "set (grid since n) \<subseteq> recorded_at schema tb \<union> set starts" using cover by (auto simp: st n(1))
  have 5: "\<exists>j. recorded_at schema tb \<union> set (take k starts) = recorded_at schema tb \<union> set (grid since j)" for k
  proof -
    have "set (take k (dict_fromkeys fs)) \<subseteq> recorded_at schema tb" using F set_take_subset by fastforce
    then have "recorded_at schema tb \<union> set (take k starts) = recorded_at schema tb \<union> set (take (k - length (dict_fromkeys fs)) (filter Q cs))"
      by (auto simp: st)
    moreover obtain j where "recorded_at schema tb \<union> set (take (k - length (dict_fromkeys fs)) (filter Q cs)) = recorded_at schema tb \<union> set (take j cs)"
      using take_filter_cover [OF cover] by blast
    ultimately show ?thesis unfolding n(1) take_grid by blast
  qed
  show thesis using that [OF since cs [unfolded n(1)] 1 2 3 4] 5 by blast
qed


text \<open>
  Two limits of the retry policy. Only the oldest failed windows are retried, so a failed window behind
  that many windows that keep failing is not taken up again once a later window is settled. And failed
  windows alone do not fix where a pass resumes: it starts at the lookback, past windows never taken up.
\<close>

lemma failed_window_starves:
  assumes "table_ok tb" "work_list schema now lag lookback max_windows tb = Inr starts" "failed_windows schema max_windows tb = Inr fs"
    "since_of schema now lookback tb = Inr since" "f < since" "f \<notin> set fs"
  shows "f \<notin> set starts"
proof -
  have slot: "slot since" using since_slot [OF assms(1,4)] by blast
  obtain cs where cs: "closed_windows now lag since max_windows = Inr cs" and starts: "starts = dict_fromkeys (fs @ pending_windows schema cs tb)"
    using assms(2-4) by (auto simp: work_list_def bindR_eq_Inr)
  obtain n where "cs = grid since n" using closed_windows_grid [OF cs slot] by blast
  then have "f \<notin> set cs" using grid_member [of since f n] slot assms(5) by (simp add: slot_def)
  then show ?thesis using assms(6) by (simp add: starts dict_fromkeys_props pending_windows_def)
qed

lemma failed_only_resumes_at_lookback:
  "table_ok tb \<Longrightarrow> settled_at schema tb = {} \<Longrightarrow>
   since_of schema now lookback tb = bindR (shifted now (- lookback)) (\<lambda>t. Inr (floor_window t))"
  by (simp add: since_of_def last_done_none)

section \<open>A small deployment\<close>

definition quiet_http :: "unit http" where
  "quiet_http = \<lparr>ht_origin = ''https://es'', ht_open = (\<lambda>rq w. (page [], w)), ht_authorization = no_authorization\<rparr>"

definition quiet_worker :: "unit feature_worker" where
  "quiet_worker = \<lparr>fw_http = quiet_http, fw_prims = demo_prims, fw_schema_ok = (\<lambda>s v. True), fw_schema_sha256 = (\<lambda>s. Some ''h''),
     fw_describe = (\<lambda>e. []), fw_clock = (\<lambda>w. demo_now), fw_git_sha = ''abcdef0'', fw_max_events = 1000, fw_baseline = None\<rparr>"

lemma quiet_search: "json_finite q \<Longrightarrow> es_search quiet_http ''soc-endpoint-*'' q w = (Inr [], w)"
proof -
  assume q: "json_finite q"
  have i: "elastic_index ''soc-endpoint-*'' = Inr ''soc-endpoint-*''" by code_simp
  show ?thesis unfolding es_search_def request_def http_send_def i
    by (simp add: bindX_def q quiet_http_def no_authorization_def read_page relative_path_def starts_with_def json_get_def)
qed

lemma quiet_fetch:
  assumes "in_range (start + FIVE_MINUTES)"
  shows "fetch_window_events quiet_http ''endpoint-window-v1'' start n 2000 w = Some (Inr [], w)"
proof -
  have j: "json_finite (scan_body (window_query start (start + FIVE_MINUTES) ''endpoint-window-v1'')
      [PDict [(''@timestamp'', PStr ''asc'')], PDict [(''cxyz.ingestion_id'', PStr ''asc'')]] (Some EVENT_FIELDS) 2000 None)"
    by (simp add: scan_body_def window_query_def range_q_def exists_q_def list_all_iff)
  show ?thesis using assms quiet_search [OF j, of w]
    by (simp add: fetch_window_events_def shifted_def es_scan_def ENDPOINT_INDICES_def, subst scan_loop.simps) (simp add: scan_take_def)
qed

lemma quiet_window:
  assumes "in_range (start + FIVE_MINUTES)"
  shows "process_window quiet_worker ''endpoint-window-v1'' start (w, tb)
    = Some (Inr ''empty'', w, record_window demo_now ''endpoint-window-v1'' start ''empty'' 0 0 None tb)"
  using quiet_fetch [OF assms] by (simp add: process_window_def quiet_worker_def settle_window_def)

lemma quiet_plan: "work_list ''endpoint-window-v1'' demo_now (seconds 180) (seconds 600) 2 [] = Inr [floor_window demo_now - 2 * FIVE_MINUTES, floor_window demo_now - FIVE_MINUTES]"
  "in_range (floor_window demo_now - FIVE_MINUTES)" "in_range (floor_window demo_now)"
  "closed_windows demo_now (seconds 180) (demo_now - seconds 600) 2 = Inr [floor_window demo_now - 2 * FIVE_MINUTES, floor_window demo_now - FIVE_MINUTES]"
  by code_simp+

lemma quiet_run:
  "\<exists>tb'. run_schema quiet_worker ''endpoint-window-v1'' demo_now (seconds 180) (seconds 600) 2 ((), []) = Some (Inr [(''empty'', 2)], (), tb')"
proof -
  let ?a = "floor_window demo_now - 2 * FIVE_MINUTES" and ?b = "floor_window demo_now - FIVE_MINUTES"
  have "in_range (?a + FIVE_MINUTES)" "in_range (?b + FIVE_MINUTES)" using quiet_plan(2,3) by simp_all
  then show ?thesis unfolding run_schema_def using quiet_plan(1) by (simp add: quiet_window)
qed

theorem closed_windows_exact_witness:
  "closed_windows demo_now (seconds 180) (demo_now - seconds 600) 2 = Inr [floor_window demo_now - 2 * FIVE_MINUTES, floor_window demo_now - FIVE_MINUTES] \<and>
   list_all (\<lambda>w. w mod FIVE_MINUTES = 0 \<and> w + FIVE_MINUTES \<le> demo_now - seconds 180)
     [floor_window demo_now - 2 * FIVE_MINUTES, floor_window demo_now - FIVE_MINUTES]"
proof -
  have "\<forall>w \<in> set [floor_window demo_now - 2 * FIVE_MINUTES, floor_window demo_now - FIVE_MINUTES].
      w mod FIVE_MINUTES = 0 \<and> w + FIVE_MINUTES \<le> demo_now - seconds 180"
    using closed_windows_exact [OF quiet_plan(4)] by blast
  then show ?thesis using quiet_plan(4) by (simp only: list_all_iff simp_thms)
qed


end
