(* ===== verification/Json.thy ===== *)
theory Json
  imports Http
begin

text \<open>
  \<^verbatim>\<open>json.loads\<close> on the texts the workers store: a recursive-descent reader that follows Python's scanner,
  over code points below 256. Reading a number with a fraction or an exponent (\<^verbatim>\<open>float(text)\<close>) is the
  parameter \<open>fl\<close>. The reader has fuel, and the length of the text is always enough.
\<close>

section \<open>The reader\<close>

definition json_space :: "char \<Rightarrow> bool" where
  "json_space c = ((of_char c :: nat) \<in> {9, 10, 13, 32})"

definition skip_space :: "string \<Rightarrow> string" where
  "skip_space = dropWhile json_space"

definition hex_nibble :: "char \<Rightarrow> nat option" where
  "hex_nibble c = (let n = of_char c :: nat in
     if is_digit c then Some (n - 48) else if 97 \<le> n \<and> n \<le> 102 then Some (n - 87) else if 65 \<le> n \<and> n \<le> 70 then Some (n - 55) else None)"

definition hex4 :: "char \<Rightarrow> char \<Rightarrow> char \<Rightarrow> char \<Rightarrow> nat option" where
  "hex4 a b c d = (case (hex_nibble a, hex_nibble b, hex_nibble c, hex_nibble d) of
     (Some w, Some x, Some y, Some z) \<Rightarrow> Some (((w * 16 + x) * 16 + y) * 16 + z) | _ \<Rightarrow> None)"

definition plain_escape :: "char \<Rightarrow> char option" where
  "plain_escape c = map_of [(CHR 0x22, CHR 0x22), (CHR 0x5C, CHR 0x5C), (CHR ''/'', CHR ''/''), (CHR ''b'', CHR 0x08), (CHR ''f'', CHR 0x0C),
     (CHR ''n'', CHR 0x0A), (CHR ''r'', CHR 0x0D), (CHR ''t'', CHR 0x09)] c"

text \<open>The characters of a string up to its closing quote, and what follows.\<close>

fun json_chars :: "string \<Rightarrow> (string \<times> string) option" where
  "json_chars [] = None"
| "json_chars (c # cs) = (
     if c = CHR 0x22 then Some ([], cs)
     else if c = CHR 0x5C then (case cs of
         [] \<Rightarrow> None
       | e # ds \<Rightarrow>
           if e = CHR ''u'' then (case ds of
               w # x # y # z # rest \<Rightarrow> (case hex4 w x y z of
                   Some n \<Rightarrow> if n < 256 then map_option (apfst ((#) (char_of n))) (json_chars rest) else None
                 | None \<Rightarrow> None)
             | _ \<Rightarrow> None)
           else (case plain_escape e of Some x \<Rightarrow> map_option (apfst ((#) x)) (json_chars ds) | None \<Rightarrow> None))
     else if (of_char c :: nat) < 32 then None
     else map_option (apfst ((#) c)) (json_chars cs))"

text \<open>\<^verbatim>\<open>NUMBER_RE\<close>: the text of a number, whether it has a fraction or an exponent, and what follows.\<close>

definition lex_sign :: "string \<Rightarrow> string \<times> string" where
  "lex_sign s = (if s \<noteq> [] \<and> hd s = CHR ''-'' then (''-'', tl s) else ([], s))"

definition lex_int :: "string \<Rightarrow> string \<times> string" where
  "lex_int s = (if s \<noteq> [] \<and> hd s = CHR ''0'' then (''0'', tl s) else (takeWhile is_digit s, dropWhile is_digit s))"

definition lex_fraction :: "string \<Rightarrow> string \<times> string" where
  "lex_fraction s = (if s \<noteq> [] \<and> hd s = CHR ''.'' \<and> takeWhile is_digit (tl s) \<noteq> []
     then (''.'' @ takeWhile is_digit (tl s), dropWhile is_digit (tl s)) else ([], s))"

definition lex_exponent :: "string \<Rightarrow> string \<times> string" where
  "lex_exponent s = (if s \<noteq> [] \<and> hd s \<in> {CHR ''e'', CHR ''E''} then
     (let signed = (tl s \<noteq> [] \<and> hd (tl s) \<in> {CHR ''+'', CHR ''-''}); ds = (if signed then tl (tl s) else tl s) in
      if takeWhile is_digit ds \<noteq> [] then ((hd s # (if signed then [hd (tl s)] else [])) @ takeWhile is_digit ds, dropWhile is_digit ds)
      else ([], s)) else ([], s))"

definition lex_number :: "string \<Rightarrow> (string \<times> bool \<times> string) option" where
  "lex_number s = (case lex_sign s of (sg, s1) \<Rightarrow> case lex_int s1 of (i, s2) \<Rightarrow>
     if i = [] then None
     else (case lex_fraction s2 of (f, s3) \<Rightarrow> case lex_exponent s3 of (e, s4) \<Rightarrow> Some (sg @ i @ f @ e, f \<noteq> [] \<or> e \<noteq> [], s4)))"

definition read_int :: "string \<Rightarrow> int" where
  "read_int s = (if s \<noteq> [] \<and> hd s = CHR ''-'' then - int (read_nat (tl s)) else int (read_nat s))"

definition json_number :: "(string \<Rightarrow> pyfloat) \<Rightarrow> string \<Rightarrow> (pyval \<times> string) option" where
  "json_number fl s = (case lex_number s of None \<Rightarrow> None
     | Some (t, is_float, r) \<Rightarrow> Some (if is_float then PFloat (fl t) else PInt (read_int t), r))"

definition json_constants :: "(string \<times> pyval) list" where
  "json_constants = [(''null'', PNone), (''true'', PBool True), (''false'', PBool False), (''NaN'', PFloat NaN), (''Infinity'', PFloat PosInf),
     (''-Infinity'', PFloat NegInf)]"

definition json_literal :: "string \<Rightarrow> (pyval \<times> string) option" where
  "json_literal s = map_option (\<lambda>(t, v). (v, drop (length t) s)) (List.find (\<lambda>(t, v). starts_with t s) json_constants)"

text \<open>The elements of an array and the members of an object, after the opening bracket.\<close>

fun json_items :: "(string \<Rightarrow> (pyval \<times> string) option) \<Rightarrow> nat \<Rightarrow> string \<Rightarrow> (pyval list \<times> string) option" where
  "json_items p 0 s = None"
| "json_items p (Suc n) s = (case p s of None \<Rightarrow> None | Some (v, r) \<Rightarrow>
     (case skip_space r of
        [] \<Rightarrow> None
      | c # r' \<Rightarrow>
          if c = CHR '']'' then Some ([v], r')
          else if c = CHR '','' then map_option (apfst ((#) v)) (json_items p n (skip_space r'))
          else None))"

definition json_member :: "(string \<Rightarrow> (pyval \<times> string) option) \<Rightarrow> string \<Rightarrow> ((string \<times> pyval) \<times> string) option" where
  "json_member p s = (case s of [] \<Rightarrow> None | c # cs \<Rightarrow>
     if c \<noteq> CHR 0x22 then None
     else (case json_chars cs of None \<Rightarrow> None | Some (k, r) \<Rightarrow>
       (case skip_space r of [] \<Rightarrow> None | d # r' \<Rightarrow>
         if d \<noteq> CHR '':'' then None
         else (case p (skip_space r') of None \<Rightarrow> None | Some (v, r'') \<Rightarrow> Some ((k, v), r'')))))"

fun json_members :: "(string \<Rightarrow> (pyval \<times> string) option) \<Rightarrow> nat \<Rightarrow> string \<Rightarrow> (pyval dict \<times> string) option" where
  "json_members p 0 s = None"
| "json_members p (Suc n) s = (case json_member p s of None \<Rightarrow> None | Some (kv, r) \<Rightarrow>
     (case skip_space r of
        [] \<Rightarrow> None
      | c # r' \<Rightarrow>
          if c = CHR ''}'' then Some ([kv], r')
          else if c = CHR '','' then map_option (apfst ((#) kv)) (json_members p n (skip_space r'))
          else None))"

text \<open>\<^verbatim>\<open>dict(pairs)\<close>: the last value of a key counts.\<close>

definition dict_of_pairs :: "pyval dict \<Rightarrow> pyval dict" where
  "dict_of_pairs kvs = foldl (\<lambda>d (k, v). dict_set k v d) [] kvs"

definition json_step :: "(string \<Rightarrow> pyfloat) \<Rightarrow> nat \<Rightarrow> (string \<Rightarrow> (pyval \<times> string) option) \<Rightarrow> string \<Rightarrow> (pyval \<times> string) option" where
  "json_step fl n p s = (case s of
     [] \<Rightarrow> None
   | c # cs \<Rightarrow>
       if c = CHR 0x22 then map_option (apfst PStr) (json_chars cs)
       else if c = CHR ''{'' then
         (case skip_space cs of
            [] \<Rightarrow> None
          | d # ds \<Rightarrow> if d = CHR ''}'' then Some (PDict [], ds) else map_option (apfst (PDict \<circ> dict_of_pairs)) (json_members p n (d # ds)))
       else if c = CHR ''['' then
         (case skip_space cs of
            [] \<Rightarrow> None
          | d # ds \<Rightarrow> if d = CHR '']'' then Some (PList [], ds) else map_option (apfst PList) (json_items p n (d # ds)))
       else (case json_number fl s of Some x \<Rightarrow> Some x | None \<Rightarrow> json_literal s))"

primrec json_value :: "(string \<Rightarrow> pyfloat) \<Rightarrow> nat \<Rightarrow> string \<Rightarrow> (pyval \<times> string) option" where
  "json_value fl 0 = (\<lambda>s. None)"
| "json_value fl (Suc n) = json_step fl n (json_value fl n)"

definition json_loads :: "(string \<Rightarrow> pyfloat) \<Rightarrow> string \<Rightarrow> pyval res" where
  "json_loads fl s = (case json_value fl (Suc (length s)) (skip_space s) of
     Some (v, r) \<Rightarrow> (if skip_space r = [] then Inr v else Inl (ValueError ''Extra data''))
   | None \<Rightarrow> Inl (ValueError ''Expecting value''))"

section \<open>Strings\<close>

lemma hex_nibble_digit: "d < 16 \<Longrightarrow> hex_nibble (hex_digit d) = Some d"
  by (auto simp: hex_nibble_def hex_digit_def is_digit_def Let_def)

lemma hex4_byte: "n < 256 \<Longrightarrow> hex4 (CHR ''0'') (CHR ''0'') (hex_digit (n div 16)) (hex_digit (n mod 16)) = Some n"
proof -
  assume "n < 256"
  then have "n div 16 < 16" by (simp add: less_mult_imp_div_less)
  moreover have "hex_nibble (CHR ''0'') = Some 0" by code_simp
  ultimately show ?thesis by (simp add: hex4_def hex_nibble_digit div_mult_mod_eq)
qed

lemma escaped_chars: "(char_of (92 :: nat) :: char) = CHR 0x5C" "(char_of (34 :: nat) :: char) = CHR 0x22"
  "(char_of (10 :: nat) :: char) = CHR 0x0A" "(char_of (13 :: nat) :: char) = CHR 0x0D" "(char_of (9 :: nat) :: char) = CHR 0x09"
  "(char_of (8 :: nat) :: char) = CHR 0x08" "(char_of (12 :: nat) :: char) = CHR 0x0C"
  by code_simp+

lemma json_chars_escape: "json_chars (escape_char c @ t) = map_option (apfst ((#) c)) (json_chars t)"
proof -
  define n where "n = (of_char c :: nat)"
  have c: "c = char_of n" "n < 256" by (simp_all add: n_def)
  consider "n = 34" | "n = 92" | "n = 10" | "n = 13" | "n = 9" | "n = 8" | "n = 12"
    | "32 \<le> n \<and> n \<le> 126 \<and> n \<noteq> 34 \<and> n \<noteq> 92" | "n \<notin> {34, 92, 10, 13, 9, 8, 12} \<and> \<not> (32 \<le> n \<and> n \<le> 126)" by auto
  then show ?thesis
  proof cases
    case 8
    then have "c \<noteq> CHR 0x22" "c \<noteq> CHR 0x5C" by (auto simp: n_def)
    then show ?thesis using 8 by (simp add: escape_char_def n_def [symmetric] Let_def)
  next
    case 9
    have "escape_char c = [CHR 0x5C, CHR ''u'', CHR ''0'', CHR ''0'', hex_digit (n div 16), hex_digit (n mod 16)]"
      using 9 by (simp add: escape_char_def n_def [symmetric] Let_def escaped_chars)
    then show ?thesis using hex4_byte [OF c(2)] c by simp
  qed (simp_all add: escape_char_def n_def [symmetric] Let_def plain_escape_def c escaped_chars)
qed

lemma json_chars_string: "json_chars (concat (map escape_char s) @ CHR 0x22 # r) = Some (s, r)"
  by (induction s) (simp_all add: json_chars_escape del: json_chars.simps(2), simp)

section \<open>Numbers\<close>

text \<open>What may follow a number in a text that is well formed.\<close>

definition ends_number :: "string \<Rightarrow> bool" where
  "ends_number r = (r = [] \<or> hd r \<in> {CHR '','', CHR '']'', CHR ''}'', CHR 0x0A})"

lemma ends_number_digit: "ends_number r \<Longrightarrow> r = [] \<or> \<not> is_digit (hd r)"
  by (auto simp: ends_number_def is_digit_def)

lemma digits_end: "ends_number r \<Longrightarrow> takeWhile is_digit r = [] \<and> dropWhile is_digit r = r"
  using ends_number_digit [of r] by (cases r) auto

lemma digits_append:
  assumes "ends_number r"
  shows "takeWhile is_digit (s @ r) = takeWhile is_digit s" "dropWhile is_digit (s @ r) = dropWhile is_digit s @ r"
  using digits_end [OF assms] by (induction s) auto

lemma ends_number_cases: "ends_number r \<Longrightarrow> r = [] \<or> (\<exists>c t. r = c # t \<and> c \<in> {CHR '','', CHR '']'', CHR ''}'', CHR 0x0A})"
  by (cases r) (auto simp: ends_number_def)

lemma lex_fraction_append: "ends_number r \<Longrightarrow> lex_fraction s = (f, s') \<Longrightarrow> lex_fraction (s @ r) = (f, s' @ r)"
  using digits_end [of r] digits_append [of r "tl s"] ends_number_cases [of r]
  by (cases s) (auto simp: lex_fraction_def split: if_splits)

lemma lex_exponent_append:
  assumes r: "ends_number r" and "lex_exponent s = (e, s')"
  shows "lex_exponent (s @ r) = (e, s' @ r)"
proof (cases s)
  case Nil
  then show ?thesis using assms(2) ends_number_cases [OF r] by (auto simp: lex_exponent_def)
next
  case (Cons c t)
  show ?thesis
  proof (cases t)
    case Nil
    then show ?thesis using assms(2) ends_number_cases [OF r] digits_end [OF r] Cons by (auto simp: lex_exponent_def split: if_splits)
  next
    case (Cons d u)
    then show ?thesis using assms(2) \<open>s = c # t\<close> digits_append [OF r, of u] digits_append [OF r, of "d # u"]
      by (auto simp: lex_exponent_def Let_def split: if_splits)
  qed
qed

lemma lex_number_append:
  assumes "lex_number s = Some (t, b, s')" "ends_number r"
  shows "lex_number (s @ r) = Some (t, b, s' @ r)"
proof -
  obtain sg s1 i s2 f s3 e s4 where l: "lex_sign s = (sg, s1)" "lex_int s1 = (i, s2)" "lex_fraction s2 = (f, s3)" "lex_exponent s3 = (e, s4)"
    by (metis surj_pair)
  then have i: "i \<noteq> []" and t: "t = sg @ i @ f @ e" "b = (f \<noteq> [] \<or> e \<noteq> [])" "s' = s4"
    using assms(1) by (auto simp: lex_number_def split: if_splits)
  have "s1 \<noteq> []" using l(2) i by (auto simp: lex_int_def)
  then have "lex_sign (s @ r) = (sg, s1 @ r)" using l(1) by (cases s) (auto simp: lex_sign_def split: if_splits)
  moreover have "lex_int (s1 @ r) = (i, s2 @ r)"
    using l(2) \<open>s1 \<noteq> []\<close> digits_append [OF assms(2), of s1] by (auto simp: lex_int_def split: if_splits)
  ultimately show ?thesis
    using i t lex_fraction_append [OF assms(2) l(3)] lex_exponent_append [OF assms(2) l(4)] by (simp add: lex_number_def)
qed

lemma show_nat_head: "n \<noteq> 0 \<Longrightarrow> hd (show_nat n) \<noteq> CHR ''0''"
proof (induction n rule: show_nat.induct)
  case (1 n)
  show ?case
  proof (cases "n < 10")
    case True
    then have "(of_char (digit_char n) :: nat) \<noteq> of_char (CHR ''0'')" using 1(2) by (simp add: of_char_digit_char)
    then show ?thesis using True by (subst show_nat.simps) auto
  next
    case False
    then have "n div 10 \<noteq> 0" by simp
    then show ?thesis using False 1(1) by (subst show_nat.simps) simp
  qed
qed

lemma show_nat_zero: "show_nat 0 = ''0''"
  by code_simp

lemma lex_int_show: "lex_int (show_nat n) = (show_nat n, [])"
proof (cases "n = 0")
  case False
  have "takeWhile is_digit (show_nat n) = show_nat n" "dropWhile is_digit (show_nat n) = []"
    using show_nat_digits [of n] by (simp_all add: list_all_iff takeWhile_eq_all_conv)
  then show ?thesis using show_nat_head [OF False] by (simp add: lex_int_def)
qed (simp add: lex_int_def show_nat_zero)

lemma show_nat_sign: "hd (show_nat n) \<noteq> CHR ''-''"
proof -
  have "is_digit (hd (show_nat n))" using show_nat_digits [of n] by (cases "show_nat n") auto
  then show ?thesis by (auto simp: is_digit_def)
qed

lemma lex_show_int: "lex_number (show_int i) = Some (show_int i, False, [])"
  using lex_int_show show_nat_sign by (simp add: lex_number_def lex_sign_def show_int_def lex_fraction_def lex_exponent_def)

lemma read_show_int: "read_int (show_int i) = i"
  using show_nat_sign by (simp add: read_int_def show_int_def)

definition float_text :: "string \<Rightarrow> bool" where
  "float_text s = (case lex_number s of Some (t, b, r) \<Rightarrow> t = s \<and> b \<and> r = [] | None \<Rightarrow> False)"

lemma json_number_int: "ends_number r \<Longrightarrow> json_number fl (show_int i @ r) = Some (PInt i, r)"
  using lex_number_append [OF lex_show_int] by (simp add: json_number_def read_show_int)

lemma json_number_float: "float_text s \<Longrightarrow> ends_number r \<Longrightarrow> json_number fl (s @ r) = Some (PFloat (fl s), r)"
  using lex_number_append [of s s True "[]" r] by (auto simp: float_text_def json_number_def split: option.splits)

section \<open>Reading back canonical text\<close>

text \<open>The values whose text can be read back: no key twice, and every float finite with a text that reads as itself.\<close>

primrec json_ok :: "prims \<Rightarrow> (string \<Rightarrow> pyfloat) \<Rightarrow> pyval \<Rightarrow> bool" where
  "json_ok pr fl PNone = True"
| "json_ok pr fl (PBool b) = True"
| "json_ok pr fl (PInt i) = True"
| "json_ok pr fl (PFloat f) = (case f of Fin r \<Rightarrow> float_text (float_repr pr r) \<and> fl (float_repr pr r) = Fin r | _ \<Rightarrow> False)"
| "json_ok pr fl (PStr s) = True"
| "json_ok pr fl (PList vs) = list_all id (map (json_ok pr fl) vs)"
| "json_ok pr fl (PDict kvs) = (distinct (map fst kvs) \<and> list_all snd (map (map_prod id (json_ok pr fl)) kvs))"

text \<open>
  \<^verbatim>\<open>json.dumps\<close> with or without \<^verbatim>\<open>sort_keys\<close>, and the space that follows its separators: \<^verbatim>\<open>(", ", ": ")\<close> is the
  default, none is the canonical text.
\<close>

definition key_order :: "bool \<Rightarrow> (string \<times> 'v) list \<Rightarrow> (string \<times> 'v) list" where
  "key_order srt kvs = (if srt then sort_key fst kvs else kvs)"

primrec json_print :: "bool \<Rightarrow> string \<Rightarrow> prims \<Rightarrow> pyval \<Rightarrow> string" where
  "json_print srt sp pr PNone = ''null''"
| "json_print srt sp pr (PBool b) = (if b then ''true'' else ''false'')"
| "json_print srt sp pr (PInt i) = show_int i"
| "json_print srt sp pr (PFloat f) = show_float pr f"
| "json_print srt sp pr (PStr s) = json_string s"
| "json_print srt sp pr (PList vs) = ''['' @ join_with (CHR '','' # sp) (map (json_print srt sp pr) vs) @ '']''"
| "json_print srt sp pr (PDict kvs) = ''{'' @ join_with (CHR '','' # sp)
     (map (\<lambda>(k, t). json_string k @ '':'' @ sp @ t) (key_order srt (map (map_prod id (json_print srt sp pr)) kvs))) @ ''}''"

lemma canonical_json_print: "canonical_json pr v = json_print True [] pr v"
proof (induction v)
  case (PDict kvs)
  then have "map (map_prod id (canonical_json pr)) kvs = map (map_prod id (json_print True [] pr)) kvs" by force
  then show ?case unfolding canonical_json.simps json_print.simps key_order_def if_True by (simp only: append_Nil)
qed (simp_all cong: map_cong)

text \<open>The value as it is printed: with \<^verbatim>\<open>sort_keys\<close> the keys of every object are in order.\<close>

primrec arranged :: "bool \<Rightarrow> pyval \<Rightarrow> pyval" where
  "arranged srt PNone = PNone"
| "arranged srt (PBool b) = PBool b"
| "arranged srt (PInt i) = PInt i"
| "arranged srt (PFloat f) = PFloat f"
| "arranged srt (PStr s) = PStr s"
| "arranged srt (PList vs) = PList (map (arranged srt) vs)"
| "arranged srt (PDict kvs) = PDict (key_order srt (map (map_prod id (arranged srt)) kvs))"

lemma arranged_False [simp]: "arranged False v = v"
proof (induction v)
  case (PDict kvs)
  then have "map (map_prod id (arranged False)) kvs = kvs" by (intro map_idI) force
  then show ?case by (simp add: key_order_def)
qed (simp_all add: map_idI)

abbreviation sorted_keys :: "pyval \<Rightarrow> pyval" where
  "sorted_keys \<equiv> arranged True"

abbreviation json_dumps :: "prims \<Rightarrow> pyval \<Rightarrow> string" where
  "json_dumps \<equiv> json_print False '' ''"

lemma insort_key_map_prod: "insort_key fst (map_prod id f x) (map (map_prod id f) xs) = map (map_prod id f) (insort_key fst x xs)"
  by (induction xs) auto

lemma sort_key_map_prod: "sort_key fst (map (map_prod id f) kvs) = map (map_prod id f) (sort_key fst kvs)"
  by (induction kvs) (simp_all only: list.map sort_key_simps insort_key_map_prod)

lemma key_order_map: "key_order srt (map (map_prod id f) kvs) = map (map_prod id f) (key_order srt kvs)"
  by (cases srt) (simp_all only: key_order_def sort_key_map_prod if_True if_False)

lemma key_order_simps: "length (key_order srt kvs) = length kvs" "set (key_order srt kvs) = set kvs"
  "distinct (map fst (key_order srt kvs)) \<longleftrightarrow> distinct (map fst kvs)"
  by (simp_all add: key_order_def mset_eq_imp_distinct_iff [of "map fst (sort_key fst kvs)" "map fst kvs"])

lemma dict_of_pairs_distinct:
  assumes "distinct (map fst kvs)"
  shows "dict_of_pairs kvs = kvs"
proof -
  have "foldl (\<lambda>d (k, v). dict_set k v d) d kvs = d @ kvs" if "distinct (map fst (d @ kvs))" for d
    using that
  proof (induction kvs arbitrary: d)
    case (Cons kv kvs)
    obtain k v where kv: "kv = (k, v)" by fastforce
    have "dict_set k v d = d @ [(k, v)]" using Cons.prems kv by (intro dict_set_new) auto
    then show ?case using Cons.IH [of "d @ [(k, v)]"] Cons.prems kv by simp
  qed simp
  from this [of "[]"] show ?thesis using assms by (simp add: dict_of_pairs_def)
qed

definition starts_value :: "string \<Rightarrow> bool" where
  "starts_value s = (s \<noteq> [] \<and> \<not> json_space (hd s) \<and> hd s \<notin> {CHR '']'', CHR ''}''})"

lemma skip_space_Cons: "skip_space (c # cs) = (if json_space c then skip_space cs else c # cs)"
  by (simp add: skip_space_def)

lemma delimiters: "\<not> json_space (CHR '','')" "\<not> json_space (CHR '':'')" "\<not> json_space (CHR '']'')" "\<not> json_space (CHR ''}'')"
  by (simp_all add: json_space_def)

lemma skip_blank: "list_all json_space sp \<Longrightarrow> skip_space (sp @ t) = skip_space t"
  by (induction sp) (auto simp: skip_space_def)

lemma starts_value_skip: "starts_value s \<Longrightarrow> skip_space (s @ r) = s @ r"
  by (cases s) (auto simp: starts_value_def skip_space_def)

lemma lex_number_head:
  assumes "lex_number s = Some (t, b, r)"
  shows "s \<noteq> [] \<and> (hd s = CHR ''-'' \<or> is_digit (hd s))"
proof (rule ccontr)
  assume no: "\<not> ?thesis"
  then have "lex_sign s = ([], s)" by (auto simp: lex_sign_def)
  moreover have "is_digit (CHR ''0'')" by code_simp
  then have "fst (lex_int s) = []" using no by (cases s) (auto simp: lex_int_def)
  ultimately show False using assms by (cases "lex_int s") (simp add: lex_number_def)
qed

lemma number_starts: "lex_number s = Some x \<Longrightarrow> starts_value s \<and> hd s \<notin> {CHR 0x22, CHR ''{'', CHR ''[''}"
  using lex_number_head [of s] by (cases x) (auto simp: starts_value_def json_space_def is_digit_def)

lemma canonical_starts: "json_ok pr fl v \<Longrightarrow> starts_value (json_print srt sp pr v)"
  using number_starts lex_show_int
  by (cases v) (auto simp: starts_value_def json_space_def json_string_def show_float_def float_text_def split: pyfloat.splits option.splits)

text \<open>The blank before a closing bracket: none, or one that starts a new line.\<close>

definition closing_blank :: "string \<Rightarrow> bool" where
  "closing_blank cl \<longleftrightarrow> list_all json_space cl \<and> (cl = [] \<or> hd cl = CHR 0x0A)"

lemma closing_blank_ends: "closing_blank cl \<Longrightarrow> c \<in> {CHR '']'', CHR ''}''} \<Longrightarrow> ends_number (cl @ c # r)"
  by (cases cl) (auto simp: closing_blank_def ends_number_def)

lemma closing_blank_skip: "closing_blank cl \<Longrightarrow> c \<in> {CHR '']'', CHR ''}''} \<Longrightarrow> skip_space (cl @ c # r) = c # r"
  using delimiters by (auto simp: closing_blank_def skip_blank skip_space_Cons)

lemma json_items_join:
  assumes sp: "list_all json_space sp" and cl: "closing_blank cl"
  assumes "ts \<noteq> []" "length ts \<le> n" "length ws = length ts"
    "\<And>i r. i < length ts \<Longrightarrow> ends_number r \<Longrightarrow> p (ts ! i @ r) = Some (ws ! i, r)" "\<forall>t \<in> set ts. starts_value t"
  shows "json_items p n (join_with (CHR '','' # sp) ts @ cl @ '']'' @ r) = Some (ws, r)"
  using assms(3-)
proof (induction ts arbitrary: n ws)
  case (Cons t ts)
  obtain m where m: "n = Suc m" using Cons.prems(2) by (cases n) auto
  obtain w us where w: "ws = w # us" using Cons.prems(3) by (cases ws) auto
  show ?case
  proof (cases "ts = []")
    case True
    have "p (t @ cl @ CHR '']'' # r) = Some (w, cl @ CHR '']'' # r)"
      using Cons.prems(4) [of 0 "cl @ CHR '']'' # r"] w closing_blank_ends [OF cl] by simp
    then show ?thesis using True m w Cons.prems(3) closing_blank_skip [OF cl] by simp
  next
    case False
    then have j: "join_with (CHR '','' # sp) (t # ts) = t @ (CHR '','' # sp) @ join_with (CHR '','' # sp) ts" by (cases ts) simp_all
    have "p (t @ CHR '','' # r') = Some (w, CHR '','' # r')" for r' using Cons.prems(4) [of 0 "CHR '','' # r'"] w by (simp add: ends_number_def)
    moreover have "json_items p m (join_with (CHR '','' # sp) ts @ cl @ '']'' @ r) = Some (us, r)"
    proof (rule Cons.IH [OF False])
      show "\<And>i r. i < length ts \<Longrightarrow> ends_number r \<Longrightarrow> p (ts ! i @ r) = Some (us ! i, r)"
        using Cons.prems(4) [of "Suc _"] w by simp
    qed (use Cons.prems m w in auto)
    moreover have "skip_space (join_with (CHR '','' # sp) ts @ cl @ CHR '']'' # r) = join_with (CHR '','' # sp) ts @ cl @ CHR '']'' # r"
    proof -
      have "starts_value (join_with (CHR '','' # sp) ts)" using False Cons.prems(5) by (cases ts; cases "tl ts") (auto simp: starts_value_def)
      from starts_value_skip [OF this] show ?thesis by simp
    qed
    ultimately show ?thesis using m w by (simp add: j skip_space_Cons delimiters skip_blank [OF sp])
  qed
qed simp

definition member_text :: "string \<Rightarrow> string \<times> string \<Rightarrow> string" where
  "member_text sp = (\<lambda>(k, t). json_string k @ '':'' @ sp @ t)"

lemma json_member_text:
  assumes sp: "list_all json_space sp"
  assumes "p (t @ r) = Some (w, r)" "starts_value t"
  shows "json_member p (member_text sp (k, t) @ r) = Some ((k, w), r)"
proof -
  have m: "member_text sp (k, t) @ r = CHR 0x22 # concat (map escape_char k) @ CHR 0x22 # CHR '':'' # sp @ t @ r"
    by (simp add: member_text_def json_string_def)
  show ?thesis unfolding m json_member_def
    using assms(2) starts_value_skip [OF assms(3), of r] by (simp add: json_chars_string skip_space_Cons delimiters skip_blank [OF sp])
qed

lemma member_starts: "starts_value (member_text sp kt)"
  by (cases kt) (simp add: member_text_def json_string_def starts_value_def json_space_def)

lemma join_starts: "ts \<noteq> [] \<Longrightarrow> \<forall>t \<in> set ts. starts_value t \<Longrightarrow> starts_value (join_with (CHR '','' # sp) ts)"
  by (cases ts; cases "tl ts") (auto simp: starts_value_def)

lemma json_members_join:
  assumes sp: "list_all json_space sp" and ks: "list_all json_space ks" and cl: "closing_blank cl"
  assumes "kts \<noteq> []" "length kts \<le> n" "length ws = length kts" "\<forall>kt \<in> set kts. starts_value (snd kt)"
    "\<And>i r. i < length kts \<Longrightarrow> ends_number r \<Longrightarrow> p (snd (kts ! i) @ r) = Some (ws ! i, r)"
  shows "json_members p n (join_with (CHR '','' # sp) (map (member_text ks) kts) @ cl @ ''}'' @ r) = Some (zip (map fst kts) ws, r)"
  using assms(4-)
proof (induction kts arbitrary: n ws)
  case (Cons kt kts)
  obtain m where m: "n = Suc m" using Cons.prems(2) by (cases n) auto
  obtain w us where w: "ws = w # us" using Cons.prems(3) by (cases ws) auto
  obtain k t where kt: "kt = (k, t)" by fastforce
  have one: "json_member p (member_text ks kt @ r) = Some ((k, w), r)" if "ends_number r" for r
    unfolding kt by (rule json_member_text [OF ks]) (use Cons.prems(4) Cons.prems(5) [of 0 r] that kt w in simp_all)
  show ?case
  proof (cases "kts = []")
    case True
    have "ends_number (cl @ CHR ''}'' # r)" by (rule closing_blank_ends [OF cl]) simp
    from one [OF this] show ?thesis using True m w kt Cons.prems(3) closing_blank_skip [OF cl] by simp
  next
    case False
    then have j: "join_with (CHR '','' # sp) (map (member_text ks) (kt # kts)) = member_text ks kt @ (CHR '','' # sp) @ join_with (CHR '','' # sp) (map (member_text ks) kts)"
      by (cases kts) simp_all
    have "json_member p (member_text ks kt @ CHR '','' # r') = Some ((k, w), CHR '','' # r')" for r' using one [of "CHR '','' # r'"] by (simp add: ends_number_def)
    moreover have "json_members p m (join_with (CHR '','' # sp) (map (member_text ks) kts) @ cl @ ''}'' @ r) = Some (zip (map fst kts) us, r)"
    proof (rule Cons.IH [OF False])
      show "\<And>i r. i < length kts \<Longrightarrow> ends_number r \<Longrightarrow> p (snd (kts ! i) @ r) = Some (us ! i, r)"
        using Cons.prems(5) [of "Suc _"] w by simp
    qed (use Cons.prems m w in auto)
    moreover have "skip_space (join_with (CHR '','' # sp) (map (member_text ks) kts) @ cl @ CHR ''}'' # r) = join_with (CHR '','' # sp) (map (member_text ks) kts) @ cl @ CHR ''}'' # r"
      using starts_value_skip [OF join_starts] False member_starts by simp
    ultimately show ?thesis unfolding j m w by (simp add: kt skip_space_Cons delimiters skip_blank [OF sp])
  qed
qed simp

lemma length_join: "t \<in> set ts \<Longrightarrow> length t \<le> length (join_with sep ts)"
  by (induction sep ts rule: join_with.induct) auto

lemma length_join_count: "\<forall>t \<in> set ts. t \<noteq> [] \<Longrightarrow> length ts \<le> length (join_with sep ts)"
proof (induction sep ts rule: join_with.induct)
  case (2 sep w)
  then show ?case by (cases w) auto
next
  case (3 sep w v ws)
  then show ?case by (cases w) auto
qed simp

lemma json_step_list:
  assumes sp: "list_all json_space sp"
  assumes "\<And>v r. v \<in> set vs \<Longrightarrow> ends_number r \<Longrightarrow> p (json_print srt sp pr v @ r) = Some (arranged srt v, r)"
    "\<forall>v \<in> set vs. json_ok pr fl v" "length vs \<le> n"
  shows "json_step fl n p (json_print srt sp pr (PList vs) @ r) = Some (arranged srt (PList vs), r)"
proof (cases "vs = []")
  case True
  then show ?thesis by (simp add: json_step_def skip_space_def json_space_def)
next
  case False
  let ?ts = "map (json_print srt sp pr) vs"
  have st: "\<forall>t \<in> set ?ts. starts_value t" using assms(3) canonical_starts by auto
  have items: "json_items p n (join_with (CHR '','' # sp) ?ts @ '']'' @ r) = Some (map (arranged srt) vs, r)"
    using json_items_join [OF sp, of "[]" ?ts n "map (arranged srt) vs" p r] False assms(2-) st by (simp add: closing_blank_def)
  have sv: "starts_value (join_with (CHR '','' # sp) ?ts)" using False st by (intro join_starts) simp_all
  then obtain c cs where c: "join_with (CHR '','' # sp) ?ts = c # cs" "\<not> json_space c" "c \<noteq> CHR '']''" by (cases "join_with (CHR '','' # sp) ?ts") (auto simp: starts_value_def)
  then show ?thesis using items by (simp add: json_step_def skip_space_def)
qed

lemma json_step_dict:
  assumes sp: "list_all json_space sp"
  assumes "\<And>k v r. (k, v) \<in> set kvs \<Longrightarrow> ends_number r \<Longrightarrow> p (json_print srt sp pr v @ r) = Some (arranged srt v, r)"
    "\<forall>(k, v) \<in> set kvs. json_ok pr fl v" "distinct (map fst kvs)" "length kvs \<le> n"
  shows "json_step fl n p (json_print srt sp pr (PDict kvs) @ r) = Some (arranged srt (PDict kvs), r)"
proof (cases "kvs = []")
  case True
  then show ?thesis by (simp add: json_step_def skip_space_Cons delimiters key_order_def)
next
  case False
  let ?s = "key_order srt kvs"
  let ?kts = "map (map_prod id (json_print srt sp pr)) ?s"
  have printed: "json_print srt sp pr (PDict kvs) = ''{'' @ join_with (CHR '','' # sp) (map (member_text sp) ?kts) @ ''}''"
    by (simp only: json_print.simps key_order_map member_text_def)
  have ne: "?kts \<noteq> []" using False by (metis length_0_conv length_map key_order_simps(1))
  have st: "\<forall>kt \<in> set ?kts. starts_value (snd kt)" using assms(3) canonical_starts by (fastforce simp: key_order_simps)
  have mem: "(fst (?s ! i), snd (?s ! i)) \<in> set kvs" if "i < length ?s" for i using nth_mem [OF that] by (simp add: key_order_simps)
  have "json_members p n (join_with (CHR '','' # sp) (map (member_text sp) ?kts) @ ''}'' @ r) = Some (zip (map fst ?kts) (map (arranged srt \<circ> snd) ?s), r)"
  proof (rule json_members_join [OF sp sp _ ne, of "[]", simplified append_Nil])
    fix i r
    assume "i < length ?kts" "ends_number r"
    then show "p (snd (?kts ! i) @ r) = Some (map (arranged srt \<circ> snd) ?s ! i, r)" using assms(2) [OF mem] by simp
  qed (use assms(5) st in \<open>simp_all add: key_order_simps closing_blank_def\<close>)
  moreover have z: "zip (map fst ?kts) (map (arranged srt \<circ> snd) ?s) = map (map_prod id (arranged srt)) ?s"
    by (simp add: zip_map_map zip_same_conv_map comp_def) (simp add: map_prod_def split_beta)
  moreover have "distinct (map fst (map (map_prod id (arranged srt)) ?s))" using assms(4) by (simp add: comp_def key_order_simps)
  ultimately have members: "json_members p n (join_with (CHR '','' # sp) (map (member_text sp) ?kts) @ ''}'' @ r) = Some (map (map_prod id (arranged srt)) ?s, r)"
    and same: "dict_of_pairs (map (map_prod id (arranged srt)) ?s) = map (map_prod id (arranged srt)) ?s" by (simp_all only: dict_of_pairs_distinct)
  have "starts_value (join_with (CHR '','' # sp) (map (member_text sp) ?kts))" using ne member_starts by (intro join_starts) simp_all
  then obtain c cs where c: "join_with (CHR '','' # sp) (map (member_text sp) ?kts) = c # cs" "\<not> json_space c" "c \<noteq> CHR ''}''"
    by (cases "join_with (CHR '','' # sp) (map (member_text sp) ?kts)") (auto simp: starts_value_def)
  then show ?thesis using members same unfolding printed by (simp add: json_step_def skip_space_Cons key_order_map)
qed

lemma canonical_length:
  assumes "json_ok pr fl v"
  shows "v = PList vs \<Longrightarrow> u \<in> set vs \<Longrightarrow> length (json_print srt sp pr u) < length (json_print srt sp pr v)"
    "v = PList vs \<Longrightarrow> length vs < length (json_print srt sp pr v)"
    "v = PDict kvs \<Longrightarrow> (k, u) \<in> set kvs \<Longrightarrow> length (json_print srt sp pr u) < length (json_print srt sp pr v)"
    "v = PDict kvs \<Longrightarrow> length kvs < length (json_print srt sp pr v)"
proof -
  assume v: "v = PList vs"
  have "\<forall>t \<in> set (map (json_print srt sp pr) vs). t \<noteq> []" using assms canonical_starts unfolding v by (auto simp: list_all_iff starts_value_def)
  from length_join_count [OF this, of "CHR '','' # sp"] show "length vs < length (json_print srt sp pr v)" unfolding v by simp
  show "u \<in> set vs \<Longrightarrow> length (json_print srt sp pr u) < length (json_print srt sp pr v)"
    using length_join [of "json_print srt sp pr u" "map (json_print srt sp pr) vs" "CHR '','' # sp"] unfolding v by simp
next
  assume v: "v = PDict kvs"
  let ?ms = "map (member_text sp) (map (map_prod id (json_print srt sp pr)) (key_order srt kvs))"
  have printed: "json_print srt sp pr v = ''{'' @ join_with (CHR '','' # sp) ?ms @ ''}''" unfolding v by (simp only: json_print.simps key_order_map member_text_def)
  have "\<forall>t \<in> set ?ms. t \<noteq> []" using member_starts by (auto simp: starts_value_def)
  from length_join_count [OF this, of "CHR '','' # sp"] show "length kvs < length (json_print srt sp pr v)" unfolding printed by (simp add: key_order_simps)
  assume "(k, u) \<in> set kvs"
  then have "member_text sp (k, json_print srt sp pr u) \<in> set ?ms" by (force simp: image_iff key_order_simps)
  from length_join [OF this, of "CHR '','' # sp"] show "length (json_print srt sp pr u) < length (json_print srt sp pr v)"
    unfolding printed by (simp add: member_text_def)
qed

lemma json_value_printed:
  assumes sp: "list_all json_space sp"
  shows "json_ok pr fl v \<Longrightarrow> ends_number r \<Longrightarrow> length (json_print srt sp pr v) \<le> n \<Longrightarrow>
   json_value fl n (json_print srt sp pr v @ r) = Some (arranged srt v, r)"
proof (induction v arbitrary: n r)
  case (PList vs)
  obtain m where m: "n = Suc m" using PList.prems(3) by (cases n) simp_all
  have len: "length vs \<le> m" using canonical_length(2) [where srt = srt and sp = sp, OF PList.prems(1) refl] PList.prems(3) m by linarith
  show ?case unfolding m json_value.simps
  proof (rule json_step_list [OF sp])
    fix v and r :: string
    assume v: "v \<in> set vs" and r: "ends_number r"
    have "length (json_print srt sp pr v) \<le> m" using canonical_length(1) [where srt = srt and sp = sp, OF PList.prems(1) refl v] PList.prems(3) m by linarith
    moreover have "json_ok pr fl v" using PList.prems(1) v by (simp add: list_all_iff)
    ultimately show "json_value fl m (json_print srt sp pr v @ r) = Some (arranged srt v, r)" using PList.IH v r by blast
  qed (use PList.prems(1) len in \<open>simp_all add: list_all_iff\<close>)
next
  case (PDict kvs)
  obtain m where m: "n = Suc m" using PDict.prems(3) by (cases n) simp_all
  have len: "length kvs \<le> m" using canonical_length(4) [where srt = srt and sp = sp, OF PDict.prems(1) refl] PDict.prems(3) m by linarith
  show ?case unfolding m json_value.simps
  proof (rule json_step_dict [OF sp])
    fix k v and r :: string
    assume v: "(k, v) \<in> set kvs" and r: "ends_number r"
    have "length (json_print srt sp pr v) \<le> m" using canonical_length(3) [where srt = srt and sp = sp, OF PDict.prems(1) refl v] PDict.prems(3) m by linarith
    moreover have "json_ok pr fl v" using PDict.prems(1) v by (force simp: list_all_iff)
    moreover have "v \<in> Basic_BNFs.snds (k, v)" by simp
    ultimately show "json_value fl m (json_print srt sp pr v @ r) = Some (arranged srt v, r)" using PDict.IH v r by blast
  qed (use PDict.prems(1) len in \<open>force simp: list_all_iff\<close>)+
next
  case (PInt i)
  then obtain m where m: "n = Suc m" by (cases n) (auto simp: show_int_def split: if_splits)
  have h: "hd (show_int i) \<notin> {CHR 0x22, CHR ''{'', CHR ''[''}" "show_int i \<noteq> []" using number_starts [OF lex_show_int] by (auto simp: starts_value_def)
  then show ?case using json_number_int [OF PInt.prems(2), of fl i] m by (cases "show_int i") (simp_all add: json_step_def)
next
  case (PFloat f)
  then obtain q where f: "f = Fin q" "float_text (float_repr pr q)" "fl (float_repr pr q) = Fin q" by (cases f) simp_all
  obtain x where x: "lex_number (float_repr pr q) = Some x" using f(2) by (auto simp: float_text_def split: option.splits)
  have h: "hd (float_repr pr q) \<notin> {CHR 0x22, CHR ''{'', CHR ''[''}" "float_repr pr q \<noteq> []" using number_starts [OF x] by (auto simp: starts_value_def)
  obtain m where m: "n = Suc m" using PFloat.prems(3) h(2) f(1) by (cases n) (simp_all add: show_float_def)
  show ?case using json_number_float [OF f(2) PFloat.prems(2), of fl] f m h by (cases "float_repr pr q") (simp_all add: json_step_def show_float_def)
next
  case (PStr s)
  then obtain m where m: "n = Suc m" by (cases n) (simp_all add: json_string_def)
  then show ?case by (simp add: json_step_def json_string_def json_chars_string)
next
  case PNone
  then obtain m where m: "n = Suc m" by (cases n) simp_all
  have "json_number fl (''null'' @ r) = None" by (simp add: json_number_def lex_number_def lex_sign_def lex_int_def is_digit_def)
  then show ?case using m by (simp add: json_step_def json_literal_def json_constants_def starts_with_def)
next
  case (PBool b)
  then obtain m where m: "n = Suc m" by (cases n) (simp_all split: if_splits)
  have "json_number fl (''true'' @ r) = None" "json_number fl (''false'' @ r) = None"
    by (simp_all add: json_number_def lex_number_def lex_sign_def lex_int_def is_digit_def)
  then show ?case using m by (simp add: json_step_def json_literal_def json_constants_def starts_with_def)
qed

section \<open>The fuel is enough\<close>

lemma json_chars_shorter: "json_chars s = Some (t, r) \<Longrightarrow> length r < length s"
proof (induction s arbitrary: t rule: json_chars.induct)
  case (2 c cs)
  show ?case
  proof (cases "c = CHR 0x22 \<or> c \<noteq> CHR 0x5C")
    case True
    then show ?thesis using 2 by (auto simp: less_Suc_eq split: if_splits)
  next
    case False
    then show ?thesis using 2 by (fastforce simp: less_Suc_eq split: if_splits list.splits option.splits)
  qed
qed simp

lemma skip_space_length: "length (skip_space s) \<le> length s"
  by (simp add: skip_space_def length_dropWhile_le)

definition consumes :: "(string \<Rightarrow> ('a \<times> string) option) \<Rightarrow> bool" where
  "consumes p \<longleftrightarrow> (\<forall>s v r. p s = Some (v, r) \<longrightarrow> length r < length s)"

lemma lex_int_length: "lex_int s = (i, r) \<Longrightarrow> i \<noteq> [] \<Longrightarrow> length r < length s"
proof -
  assume l: "lex_int s = (i, r)" "i \<noteq> []"
  have "length (takeWhile is_digit s) + length (dropWhile is_digit s) = length s" by (metis length_append takeWhile_dropWhile_id)
  then show ?thesis using l by (cases s) (auto simp: lex_int_def split: if_splits)
qed

lemma json_number_consumes: "consumes (json_number fl)"
proof -
  have f: "length (snd (lex_fraction s)) \<le> length s" for s
    using length_dropWhile_le [of is_digit "tl s"] by (cases s) (auto simp: lex_fraction_def)
  have e: "length (snd (lex_exponent s)) \<le> length s" for s
  proof -
    have "length (tl s) \<le> length s" "length (tl (tl s)) \<le> length s" by simp_all
    then have "length (dropWhile is_digit (tl s)) \<le> length s" "length (dropWhile is_digit (tl (tl s))) \<le> length s"
      using length_dropWhile_le order_trans by blast+
    then show ?thesis by (simp add: lex_exponent_def Let_def)
  qed
  have g: "length (snd (lex_sign s)) \<le> length s" for s by (simp add: lex_sign_def)
  show ?thesis unfolding consumes_def
  proof (intro allI impI)
    fix s v r
    assume "json_number fl s = Some (v, r)"
    then obtain t b where l: "lex_number s = Some (t, b, r)" by (auto simp: json_number_def split: option.splits)
    obtain sg s1 i s2 f3 s3 e4 s4 where p: "lex_sign s = (sg, s1)" "lex_int s1 = (i, s2)" "lex_fraction s2 = (f3, s3)" "lex_exponent s3 = (e4, s4)"
      by (metis surj_pair)
    then have "i \<noteq> []" "r = s4" using l by (auto simp: lex_number_def split: if_splits)
    then show "length r < length s" using lex_int_length [OF p(2)] g [of s] f [of s2] e [of s3] p by simp
  qed
qed

lemma json_literal_consumes: "consumes json_literal"
  unfolding consumes_def json_literal_def
proof (intro allI impI)
  fix s v r
  assume "map_option (\<lambda>(t, v). (v, drop (length t) s)) (List.find (\<lambda>(t, v). starts_with t s) json_constants) = Some (v, r)"
  then obtain t where t: "List.find (\<lambda>(t, v). starts_with t s) json_constants = Some (t, v)" "r = drop (length t) s" by auto
  then obtain i where "i < length json_constants" "json_constants ! i = (t, v)" "starts_with t s" by (auto simp: find_Some_iff)
  then have "(t, v) \<in> set json_constants" "starts_with t s" by (metis nth_mem)+
  then have "t \<noteq> []" "take (length t) s = t" by (auto simp: json_constants_def starts_with_def)
  then show "length r < length s" using t(2) by (metis diff_less length_0_conv length_drop length_greater_0_conv take_eq_Nil)
qed

lemma json_items_consumes: "consumes p \<Longrightarrow> consumes (json_items p n)"
  unfolding consumes_def
proof (induction n)
  case (Suc n)
  show ?case
  proof (intro allI impI)
    fix s v r
    assume "json_items p (Suc n) s = Some (v, r)"
    then obtain w r1 c r2 where 1: "p s = Some (w, r1)" "skip_space r1 = c # r2"
      and 2: "r = r2 \<or> (\<exists>us. json_items p n (skip_space r2) = Some (us, r))" by (auto split: option.splits list.splits if_splits)
    have "length r \<le> length r2" using 2 Suc skip_space_length [of r2] by fastforce
    moreover have "length r2 < length r1" using skip_space_length [of r1] 1(2) by simp
    moreover have "length r1 < length s" using Suc.prems 1(1) by blast
    ultimately show "length r < length s" by linarith
  qed
qed simp

lemma json_member_consumes: "consumes p \<Longrightarrow> consumes (json_member p)"
  unfolding consumes_def
proof (intro allI impI)
  fix s v r
  assume p: "\<forall>s v r. p s = Some (v, r) \<longrightarrow> length r < length s" and "json_member p s = Some (v, r)"
  then obtain c cs k r1 d r2 w where 1: "s = c # cs" "json_chars cs = Some (k, r1)" "skip_space r1 = d # r2" "p (skip_space r2) = Some (w, r)"
    by (auto simp: json_member_def split: list.splits if_splits option.splits)
  have "length r < length (skip_space r2)" using p 1(4) by blast
  then show "length r < length s"
    using json_chars_shorter [OF 1(2)] skip_space_length [of r1] skip_space_length [of r2] 1(1,3) by simp
qed

lemma json_members_consumes: "consumes p \<Longrightarrow> consumes (json_members p n)"
proof (induction n)
  case (Suc n)
  note m = json_member_consumes [OF Suc.prems, unfolded consumes_def, rule_format]
  note rest = Suc.IH [OF Suc.prems, unfolded consumes_def, rule_format]
  show ?case unfolding consumes_def
  proof (intro allI impI)
    fix s v r
    assume "json_members p (Suc n) s = Some (v, r)"
    then obtain kv r1 c r2 where 1: "json_member p s = Some (kv, r1)" "skip_space r1 = c # r2"
      and 2: "r = r2 \<or> (\<exists>us. json_members p n (skip_space r2) = Some (us, r))" by (auto split: option.splits list.splits if_splits)
    have "length r \<le> length r2" using 2 rest skip_space_length [of r2] by fastforce
    moreover have "length r2 < length r1" using skip_space_length [of r1] 1(2) by simp
    ultimately show "length r < length s" using m [OF 1(1)] by linarith
  qed
qed (simp add: consumes_def)

lemma json_value_consumes: "consumes (json_value fl n)"
proof (induction n)
  case (Suc n)
  note items = json_items_consumes [OF Suc, unfolded consumes_def, rule_format]
  note members = json_members_consumes [OF Suc, unfolded consumes_def, rule_format]
  note leaf = json_number_consumes [of fl, unfolded consumes_def, rule_format] json_literal_consumes [unfolded consumes_def, rule_format]
  show ?case unfolding consumes_def json_value.simps
  proof (intro allI impI)
    fix s v r
    assume a: "json_step fl n (json_value fl n) s = Some (v, r)"
    then obtain c cs where s: "s = c # cs" by (cases s) (simp_all add: json_step_def)
    consider "c = CHR 0x22" | "c \<noteq> CHR 0x22" "c = CHR ''{'' \<or> c = CHR ''[''" | "c \<noteq> CHR 0x22" "c \<noteq> CHR ''{''" "c \<noteq> CHR ''[''" by blast
    then show "length r < length s"
    proof cases
      case 1
      then show ?thesis using a s by (auto simp: json_step_def less_Suc_eq dest!: json_chars_shorter)
    next
      case 2
      then obtain d ds where d: "skip_space cs = d # ds" using a s by (auto simp: json_step_def split: list.splits)
      have "r = ds \<or> length r < length (d # ds)" using 2 a s d by (auto simp: json_step_def dest!: items members split: if_splits)
      then show ?thesis using skip_space_length [of cs] d s by auto
    next
      case 3
      then show ?thesis using a s by (auto simp: json_step_def dest!: leaf split: option.splits)
    qed
  qed
qed (simp add: consumes_def)

lemma json_items_fuel:
  "consumes p \<Longrightarrow> (\<And>t. length t \<le> length s \<Longrightarrow> p t = q t) \<Longrightarrow> length s \<le> n \<Longrightarrow> length s \<le> m \<Longrightarrow> json_items p n s = json_items q m s"
proof (induction n arbitrary: s m)
  case 0
  then have "q [] = None" using 0(1) [unfolded consumes_def, rule_format, of "[]"] by (cases "p []") auto
  then show ?case using 0 by (cases m) simp_all
next
  case (Suc n)
  show ?case
  proof (cases "p s")
    case None
    then show ?thesis using Suc.prems(2) [of s] by (cases m) simp_all
  next
    case (Some x)
    obtain v r where x: "x = (v, r)" by fastforce
    have r: "length r < length s" using Suc.prems(1) Some x by (simp add: consumes_def)
    then obtain m' where m: "m = Suc m'" using Suc.prems(4) by (cases m) simp_all
    have rest: "json_items p n (skip_space r') = json_items q m' (skip_space r')" if "skip_space r = c # r'" for c r'
    proof (rule Suc.IH [OF Suc.prems(1)])
      have "length (skip_space r') < length s" using that r skip_space_length [of r] skip_space_length [of r'] by simp
      then show "length (skip_space r') \<le> n" "length (skip_space r') \<le> m'" "\<And>t. length t \<le> length (skip_space r') \<Longrightarrow> p t = q t"
        using Suc.prems(2-4) m by simp_all
    qed
    show ?thesis using Some x m Suc.prems(2) [of s] rest by (simp split: list.split)
  qed
qed

lemma json_member_cong:
  assumes "\<And>t. length t \<le> length s \<Longrightarrow> p t = q t"
  shows "json_member p s = json_member q s"
proof -
  have "p (skip_space r') = q (skip_space r')" if "s = c # cs" "json_chars cs = Some (k, r)" "skip_space r = d # r'" for c cs k r d r'
    using assms [of "skip_space r'"] json_chars_shorter [OF that(2)] skip_space_length [of r] skip_space_length [of r'] that by simp
  then show ?thesis by (auto simp: json_member_def split: list.split option.split)
qed

lemma json_members_fuel:
  "consumes p \<Longrightarrow> (\<And>t. length t \<le> length s \<Longrightarrow> p t = q t) \<Longrightarrow> length s \<le> n \<Longrightarrow> length s \<le> m \<Longrightarrow> json_members p n s = json_members q m s"
proof (induction n arbitrary: s m)
  case 0
  then show ?case by (cases m) (simp_all add: json_member_def)
next
  case (Suc n)
  note same = json_member_cong [of s p q, OF Suc.prems(2)]
  show ?case
  proof (cases "json_member p s")
    case None
    then show ?thesis using same by (cases m) simp_all
  next
    case (Some x)
    obtain kv r where x: "x = (kv, r)" by fastforce
    have r: "length r < length s" using json_member_consumes [OF Suc.prems(1), unfolded consumes_def, rule_format] Some x by blast
    then obtain m' where m: "m = Suc m'" using Suc.prems(4) by (cases m) simp_all
    have rest: "json_members p n (skip_space r') = json_members q m' (skip_space r')" if "skip_space r = c # r'" for c r'
    proof (rule Suc.IH [OF Suc.prems(1)])
      have "length (skip_space r') < length s" using that r skip_space_length [of r] skip_space_length [of r'] by simp
      then show "length (skip_space r') \<le> n" "length (skip_space r') \<le> m'" "\<And>t. length t \<le> length (skip_space r') \<Longrightarrow> p t = q t"
        using Suc.prems(2-4) m by simp_all
    qed
    show ?thesis using Some x m same rest by (simp split: list.split)
  qed
qed

text \<open>Any fuel beyond the length of the text gives the same answer, so \<^const>\<open>json_loads\<close> never fails for lack of it.\<close>

lemma json_value_fuel: "length s < n \<Longrightarrow> length s < m \<Longrightarrow> json_value fl n s = json_value fl m s"
proof (induction n arbitrary: s m)
  case (Suc n)
  obtain m' where m: "m = Suc m'" using Suc.prems(2) by (cases m) simp_all
  show ?case
  proof (cases s)
    case (Cons c cs)
    have agree: "json_value fl n t = json_value fl m' t" if "length t \<le> length cs" for t
      using that Suc.IH [of t m'] Suc.prems m Cons by simp
    have items: "json_items (json_value fl n) n u = json_items (json_value fl m') m' u" "json_members (json_value fl n) n u = json_members (json_value fl m') m' u"
      if "skip_space cs = u" for u
    proof -
      have u: "length u \<le> length cs" using skip_space_length [of cs] that by simp
      then have same: "\<And>t. length t \<le> length u \<Longrightarrow> json_value fl n t = json_value fl m' t" using agree by simp
      have "length u \<le> n" "length u \<le> m'" using u Suc.prems m Cons by simp_all
      then show "json_items (json_value fl n) n u = json_items (json_value fl m') m' u" "json_members (json_value fl n) n u = json_members (json_value fl m') m' u"
        using json_items_fuel [OF json_value_consumes same] json_members_fuel [OF json_value_consumes same] by blast+
    qed
    show ?thesis unfolding m json_value.simps json_step_def Cons by (simp add: items split: list.split)
  qed (simp add: m json_step_def)
qed simp

lemma json_reads_back:
  assumes "json_ok pr fl v" and sp: "list_all json_space sp"
  shows "json_loads fl (json_print srt sp pr v) = Inr (arranged srt v)"
proof -
  have "skip_space (json_print srt sp pr v) = json_print srt sp pr v" using starts_value_skip [OF canonical_starts [OF assms(1)], of srt sp "[]"] by simp
  moreover have "json_value fl (Suc (length (json_print srt sp pr v))) (json_print srt sp pr v) = Some (arranged srt v, [])"
    using json_value_printed [OF sp assms(1), of "[]"] by (simp add: ends_number_def del: json_value.simps)
  ultimately show ?thesis by (simp add: json_loads_def skip_space_def del: json_value.simps)
qed

lemma json_dumps_reads_back:
  assumes "json_ok pr fl v"
  shows "json_loads fl (json_dumps pr v) = Inr v" and "json_dumps pr v \<noteq> []"
proof -
  show r: "json_loads fl (json_dumps pr v) = Inr v" using json_reads_back [OF assms, of "'' ''" False] by (simp add: json_space_def)
  have "json_loads fl [] \<noteq> Inr v" by (simp add: json_loads_def skip_space_def json_step_def)
  then show "json_dumps pr v \<noteq> []" using r by auto
qed

text \<open>
  What a worker stores as JSON it reads back: from canonical text the document with the keys of every
  object in order, from the default notation the document itself. The document has no key twice and no infinite number, and the printed
  floats are number texts that read back to themselves.
\<close>

theorem json_round_trip:
  assumes "json_ok pr fl v"
  shows "json_loads fl (canonical_json pr v) = Inr (sorted_keys v) \<and> json_loads fl (json_dumps pr v) = Inr v"
  using json_reads_back [OF assms, of "[]" True] json_dumps_reads_back(1) [OF assms] by (simp add: canonical_json_print)

definition demo_json :: pyval where
  "demo_json = PDict [(''b'', PList [PInt (- 7), PFloat (Fin (19 / 20)), PNone]), (''a'', PStr [CHR ''x'', CHR 0x0A])]"

theorem json_round_trip_witness:
  "json_loads (\<lambda>s. Fin (19 / 20)) (canonical_json \<lparr>sha256_hexdigest = rev, float_repr = (\<lambda>r. ''0.95'')\<rparr> demo_json)
    = Inr (PDict [(''a'', PStr [CHR ''x'', CHR 0x0A]), (''b'', PList [PInt (- 7), PFloat (Fin (19 / 20)), PNone])])"
proof -
  have "json_ok \<lparr>sha256_hexdigest = rev, float_repr = (\<lambda>r. ''0.95'')\<rparr> (\<lambda>s. Fin (19 / 20)) demo_json" by code_simp
  from json_round_trip [OF this, THEN conjunct1] show ?thesis by (simp add: demo_json_def key_order_def)
qed

end
