(* ===== verification/Scan.thy ===== *)
theory Scan
  imports Elastic "HOL-Library.Sublist"
begin

text \<open>
  What a loop over \<^verbatim>\<open>ElasticClient.scan\<close> (\<^verbatim>\<open>soc/workers/common.py\<close>) hands to its body, apart from what the body
  does with it: the hits of consecutive pages in order, the last page possibly in part. A loop whose
  body goes on only finitely often ends, whatever the server answers.
\<close>

inductive yields :: "'w http \<Rightarrow> string \<Rightarrow> (pyval list option \<Rightarrow> pyval) \<Rightarrow> pyval list option \<Rightarrow> 'w \<Rightarrow> pyval list \<Rightarrow> 'w \<Rightarrow> bool"
  for h index page where
  yields_error: "es_search h index (page after) w = (Inl e, w') \<Longrightarrow> yields h index page after w [] w'"
| yields_part: "es_search h index (page after) w = (Inr hits, w') \<Longrightarrow> prefix ys hits \<Longrightarrow> yields h index page after w ys w'"
| yields_more: "es_search h index (page after) w = (Inr hits, w1) \<Longrightarrow> next_after hits = Inr a \<Longrightarrow>
    yields h index page (Some a) w1 ys w2 \<Longrightarrow> yields h index page after w (hits @ ys) w2"

lemma scan_take_prefix: "scan_take limit emitted hits = (ys, exceeded) \<Longrightarrow> prefix ys hits"
  by (auto simp: scan_take_def take_is_prefix split: option.splits)

lemma scan_take_all: "scan_take limit emitted hits = (ys, False) \<Longrightarrow> ys = hits"
  by (auto simp: scan_take_def split: option.splits)

text \<open>The end of a loop over one page: the body stopped, or the whole page went through it.\<close>

definition loop_end :: "unit res \<Rightarrow> bool res \<Rightarrow> bool" where
  "loop_end r c \<longleftrightarrow> (r = Inr () \<longrightarrow> (\<exists>b. c = Inr b))"

lemma scan_loop_yields:
  "scan_loop h index page body n limit emitted after s w = Some (r, s', w') \<Longrightarrow>
     \<exists>ys c. yields h index page after w ys w' \<and> scan_each body ys s = (c, s') \<and> loop_end r c"
proof (induction h index page body n limit emitted after s w "(r, s', w')" rule: scan_loop.raw_induct [rotated 1, consumes 1, case_names step])
  case (step loop h index page body n limit emitted after s w)
  obtain x w1 where x: "es_search h index (page after) w = (x, w1)" by fastforce
  show ?case
  proof (cases x)
    case (Inl e)
    then have "yields h index page after w [] w'" "s' = s" "r = Inl e"
      using step(2) x by (auto intro: yields_error)
    then show ?thesis by (intro exI [of _ "[]"] exI [of _ "Inr True"]) (simp add: loop_end_def)
  next
    case (Inr hits)
    obtain ys exceeded where t: "scan_take limit emitted hits = (ys, exceeded)" by fastforce
    obtain c s1 where each: "scan_each body ys s = (c, s1)" by fastforce
    show ?thesis
    proof (cases "c = Inr True \<and> \<not> exceeded \<and> \<not> length hits < n \<and> (\<exists>a. next_after hits = Inr a)")
      case False
      then have e: "s' = s1" "w' = w1" "loop_end r c"
        using step(2) x Inr t each by (auto simp: loop_end_def split: sum.splits if_splits)
      have "yields h index page after w ys w1" using x Inr scan_take_prefix [OF t] by (auto intro: yields_part)
      then show ?thesis using e each by blast
    next
      case True
      then obtain a where a: "next_after hits = Inr a" by blast
      have "loop h index page body n limit (emitted + length hits) (Some a) s1 w1 = Some (r, s', w')"
        using step(2) x Inr t each True a by simp
      from step(1) [OF this] obtain zs c' where
        z: "yields h index page (Some a) w1 zs w'" "scan_each body zs s1 = (c', s')" "loop_end r c'" by blast
      have "ys = hits" using scan_take_all [of limit emitted hits ys] t True by simp
      then have "scan_each body (hits @ zs) s = (c', s')" using each True z(2) by (simp add: scan_each_append)
      moreover have "yields h index page after w (hits @ zs) w'" using x Inr a z(1) by (auto intro: yields_more)
      ultimately show ?thesis using z(3) by blast
    qed
  qed
qed

lemma scan_each_measure:
  fixes f :: "'s \<Rightarrow> nat"
  assumes "\<And>hit s s'. body hit s = (Inr True, s') \<Longrightarrow> f s' < f s"
  shows "scan_each body hits s = (Inr True, s') \<Longrightarrow> f s' + length hits \<le> f s"
proof (induction hits arbitrary: s)
  case (Cons hit hits)
  obtain c s1 where b: "body hit s = (c, s1)" by fastforce
  have c: "c = Inr True" "scan_each body hits s1 = (Inr True, s')" using Cons.prems b by (auto split: sum.splits bool.splits)
  have "f s1 < f s" using assms b c(1) by blast
  then show ?case using Cons.IH [OF c(2)] by simp
qed simp

lemma scan_loop_ends:
  fixes f :: "'s \<Rightarrow> nat"
  assumes "0 < n" and desc: "\<And>hit s s'. body hit s = (Inr True, s') \<Longrightarrow> f s' < f s"
  shows "\<exists>x. scan_loop h index page body n limit emitted after s w = Some x"
proof (induction "f s" arbitrary: emitted after s w rule: less_induct)
  case less
  obtain x w1 where x: "es_search h index (page after) w = (x, w1)" by fastforce
  show ?case
  proof (cases x)
    case (Inr hits)
    obtain ys exceeded where t: "scan_take limit emitted hits = (ys, exceeded)" by fastforce
    obtain c s1 where each: "scan_each body ys s = (c, s1)" by fastforce
    show ?thesis
    proof (cases "c = Inr True \<and> \<not> exceeded \<and> n \<le> length hits \<and> (\<exists>a. next_after hits = Inr a)")
      case True
      then obtain a where a: "next_after hits = Inr a" by blast
      have "ys = hits" using scan_take_all [of limit emitted hits ys] t True by simp
      then have "f s1 + length hits \<le> f s" using scan_each_measure [of body f hits s s1] desc each True by blast
      then have "f s1 < f s" using True assms(1) by linarith
      from less [OF this] show ?thesis using x Inr t each True a by (subst scan_loop.simps) simp
    qed (use x Inr t each in \<open>subst scan_loop.simps, auto split: sum.splits\<close>)
  qed (use x in \<open>subst scan_loop.simps, simp\<close>)
qed

lemma search_page_keeps:
  assumes "\<And>m p b. always P (request h m p b) P"
  shows "always P (es_search h index body) P"
  unfolding es_search_def using assms by (auto intro!: always_bindX split: prod.split)

lemma yields_keeps:
  assumes "\<And>m p b. always P (request h m p b) P"
  shows "yields h index page after w ys w' \<Longrightarrow> P w \<Longrightarrow> P w'"
  by (induction rule: yields.induct) (auto dest: alwaysD [OF search_page_keeps [OF assms]])

end
