(* ===== verification/Enrichment.thy ===== *)
theory Enrichment
  imports Feature_Worker Outbox Json Scan
begin

text \<open>
  \<^verbatim>\<open>soc/workers/enrichment.py\<close> with \<^verbatim>\<open>history_window_ends\<close> of \<^verbatim>\<open>ai/features/sequences.py\<close>: vectors are pulled from
  the index into the outbox, scored over HTTPS, and the scored events are written to the index. State
  is the world and the outbox. The clocks are read from the world (\<open>en_clock\<close> is the time at which a pull that
  began in that world handles its n-th hit), and \<open>en_local\<close> is what \<^verbatim>\<open>astimezone\<close> makes of an instant without
  a zone. The worker lock, the argument parser and the printed summaries are I/O.
\<close>

section \<open>A scored event\<close>

record 'w enricher =
  en_inference :: "'w http"
  en_elastic :: "'w http"
  en_prims :: prims
  en_float :: "string \<Rightarrow> pyfloat"
  en_schema_ok :: "string \<Rightarrow> pyval \<Rightarrow> bool"
  en_schema_sha256 :: "string \<Rightarrow> string option"
  en_time :: "'w \<Rightarrow> rat"
  en_clock :: "'w \<Rightarrow> nat \<Rightarrow> rat"
  en_now :: "'w \<Rightarrow> int"
  en_local :: "int \<Rightarrow> int"

definition RESULT_KEYS :: "string list" where
  "RESULT_KEYS = [''model_id'', ''algorithm'', ''feature_schema'', ''feature_schema_sha256'', ''model_sha256'', ''model_metadata_sha256'',
     ''score'', ''threshold'', ''is_anomaly'', ''inference_ms'']"

definition sha256_value :: "pyval \<Rightarrow> bool" where
  "sha256_value v = (case v of PStr s \<Rightarrow> is_sha256_hex s | _ \<Rightarrow> False)"

text \<open>\<^verbatim>\<open>type(value) in (int, float) and math.isfinite(value)\<close> with the range of one of the three numbers.\<close>

definition number_in :: "rat option \<Rightarrow> pyval \<Rightarrow> rat option" where
  "number_in bound v = (case as_number v of
     Some (Fin r) \<Rightarrow> (if (case v of PInt i \<Rightarrow> float_overflows i | _ \<Rightarrow> False) \<or> r < 0 \<or> (case bound of Some u \<Rightarrow> u < r | None \<Rightarrow> False)
       then None else Some r)
   | _ \<Rightarrow> None)"

definition permanent :: "string \<Rightarrow> exn" where
  "permanent code = DeliveryErr code False None"

definition checked_result :: "pyval \<Rightarrow> pyval \<Rightarrow> string \<Rightarrow> unit res" where
  "checked_result vector result metadata_hash =
     bindR (guardR (exact_keys result RESULT_KEYS) (permanent ''INFERENCE_RESPONSE_CONTRACT'')) (\<lambda>_.
     bindR (py_item vector ''feature_schema'') (\<lambda>schema.
     bindR (if pget result ''feature_schema'' \<noteq> schema then Inl (permanent ''MODEL_OR_SCHEMA_MISMATCH'') else py_item vector ''feature_schema_sha256'') (\<lambda>schema_sha.
     bindR (guardR (pget result ''feature_schema_sha256'' = schema_sha \<and> pget result ''model_metadata_sha256'' = PStr metadata_hash)
       (permanent ''MODEL_OR_SCHEMA_MISMATCH'')) (\<lambda>_.
     bindR (guardR (sha256_value (pget result ''model_sha256'') \<and> sha256_value (pget result ''model_metadata_sha256'')) (permanent ''INVALID_MODEL_HASH'')) (\<lambda>_.
     bindR (guardR (pget result ''algorithm'' = PStr ''IsolationForest'' \<and> nonempty_str (pget result ''model_id'')) (permanent ''INVALID_MODEL_IDENTITY'')) (\<lambda>_.
     case (number_in (Some 1) (pget result ''score''), number_in (Some 1) (pget result ''threshold''), number_in None (pget result ''inference_ms'')) of
       (Some score, Some threshold, Some ms) \<Rightarrow>
         guardR (pget result ''is_anomaly'' = PBool (threshold \<le> score)) (permanent ''INCONSISTENT_ANOMALY_DECISION'')
     | _ \<Rightarrow> Inl (permanent ''INVALID_INFERENCE_NUMBER'')))))))"

definition VECTOR_KEYS :: "string list" where
  "VECTOR_KEYS = [''feature_schema'', ''feature_schema_sha256'', ''entity_type'', ''entity'', ''window_start'', ''window_end'', ''source_event_set_sha256'']"

definition AI_KEYS :: "string list" where
  "AI_KEYS = [''model_id'', ''algorithm'', ''model_sha256'', ''model_metadata_sha256'', ''score'', ''threshold'', ''is_anomaly'', ''inference_ms'']"

definition anomaly_event :: "int \<Rightarrow> pyval \<Rightarrow> pyval \<Rightarrow> string \<Rightarrow> string \<Rightarrow> string \<Rightarrow> pyval res" where
  "anomaly_event now vector result identifier metadata_hash observer =
     bindR (checked_result vector result metadata_hash) (\<lambda>_.
     bindR (py_item vector ''vector_id'') (\<lambda>vid.
     bindR (mapR (\<lambda>k. bindR (py_item vector k) (\<lambda>v. Inr (k, v))) VECTOR_KEYS) (\<lambda>bound.
     Inr (PDict [
       (''@timestamp'', PStr (utc_text now)), (''schema_version'', PStr ''anomaly-event-v1''),
       (''event'', PDict [(''id'', PStr identifier), (''kind'', PStr ''event''), (''category'', PList [PStr ''anomaly_detection'']),
          (''dataset'', PStr ''soc.ai.anomaly'')]),
       (''observer'', PDict [(''name'', PStr observer), (''type'', PStr ''ai_inference'')]),
       (''feature_vector'', PDict ((''id'', vid) # bound)),
       (''ai'', PDict (map (\<lambda>k. (k, pget result k)) AI_KEYS))]))))"

section \<open>History windows\<close>

definition history_window_ends :: "pyval \<Rightarrow> int \<Rightarrow> string list res" where
  "history_window_ends window_end len =
     bindR (guardR (2 \<le> len) (ValueError ''sequence length must be at least 2'')) (\<lambda>_.
     bindR (case window_end of PStr s \<Rightarrow> utc_of_text s | _ \<Rightarrow> Inl (AttributeErr ''replace'')) (\<lambda>stop.
     mapR (\<lambda>offset. bindR (shifted stop (- (FIVE_MINUTES * int offset))) (\<lambda>t. Inr (utc_text t))) (rev [1..<nat len])))"

definition history_pair :: "pyval \<Rightarrow> (pyval \<times> pyval) res" where
  "history_pair hit =
     bindR (py_item hit ''_source'') (\<lambda>source.
     bindR (py_item source ''window_end'') (\<lambda>stop.
     bindR (py_item source ''features'') (\<lambda>features.
     if is_list stop \<or> is_mapping stop then Inl (TypeErr ''unhashable type'') else Inr (stop, features))))"

definition history_query :: "string list \<Rightarrow> pyval \<Rightarrow> pyval \<Rightarrow> pyval" where
  "history_query ends schema entity = PDict [(''size'', PInt (int (length ends))),
     (''query'', PDict [(''bool'', PDict [(''filter'', PList [term_q ''feature_schema'' schema, term_q ''entity'' entity,
        PDict [(''terms'', PDict [(''window_end'', PList (map PStr ends))])]])])]),
     (''_source'', PList [PStr ''window_end'', PStr ''features''])]"

definition fetch_history :: "'w http \<Rightarrow> int \<Rightarrow> pyval \<Rightarrow> ('w, pyval list) ex" where
  "fetch_history h len vector =
     bindX (liftX (bindR (py_item vector ''window_end'') (\<lambda>stop. history_window_ends stop len))) (\<lambda>ends.
     bindX (liftX (bindR (py_item vector ''feature_schema'') (\<lambda>schema. bindR (py_item vector ''entity'') (\<lambda>entity. Inr (schema, entity))))) (\<lambda>(schema, entity).
     bindX (es_search h ''soc-features-*'' (history_query ends schema entity)) (\<lambda>hits.
     liftX (bindR (mapR history_pair hits) (\<lambda>pairs.
       Inr (map (\<lambda>stop. case map_of (rev pairs) (PStr stop) of Some f \<Rightarrow> f | None \<Rightarrow> PNone) ends))))))"

definition serving_sequence_length :: "'w http \<Rightarrow> ('w, int) ex" where
  "serving_sequence_length h =
     bindX (request h ''GET'' ''/model'' None) (\<lambda>(status, reply).
     case (if status = 200 then (if has_key reply ''sequence_length'' then pget reply ''sequence_length'' else PInt 1) else PNone) of
       PInt n \<Rightarrow> if 1 \<le> n then returnX n else raiseX (DeliveryErr ''INFERENCE_MODEL_NOT_READY'' True None)
     | _ \<Rightarrow> raiseX (DeliveryErr ''INFERENCE_MODEL_NOT_READY'' True None))"

definition serving_schema :: "'w http \<Rightarrow> ('w, string) ex" where
  "serving_schema h =
     bindX (request h ''GET'' ''/model'' None) (\<lambda>(status, reply).
     case (if status = 200 then pget reply ''feature_schema'' else PNone) of
       PStr s \<Rightarrow> returnX s
     | _ \<Rightarrow> raiseX (DeliveryErr ''INFERENCE_MODEL_NOT_READY'' True None))"

section \<open>Draining the outbox\<close>

type_synonym 'w es = "'w \<times> outbox"

definition on_http :: "('w, 'a) ex \<Rightarrow> ('w es, 'a) ex" where
  "on_http m s = (case s of (w, ob) \<Rightarrow> (case m w of (r, w') \<Rightarrow> (r, w', ob)))"

definition on_outbox :: "('w \<Rightarrow> outbox \<Rightarrow> ('a \<times> outbox) res) \<Rightarrow> ('w es, 'a) ex" where
  "on_outbox f s = (case s of (w, ob) \<Rightarrow> (case f w ob of Inl e \<Rightarrow> (Inl e, w, ob) | Inr (x, ob') \<Rightarrow> (Inr x, w, ob')))"

definition unit_op :: "outbox res \<Rightarrow> (unit \<times> outbox) res" where
  "unit_op r = bindR r (\<lambda>ob. Inr ((), ob))"

definition infer_body :: "pyval \<Rightarrow> pyval list option \<Rightarrow> pyval res" where
  "infer_body vector history =
     bindR (py_item vector ''feature_schema'') (\<lambda>schema. bindR (py_item vector ''entity'') (\<lambda>entity. bindR (py_item vector ''features'') (\<lambda>features.
     Inr (PDict ([(''feature_schema'', schema), (''entity'', entity), (''features'', features)]
       @ (case history of Some h \<Rightarrow> [(''history'', PList h)] | None \<Rightarrow> []))))))"

definition score_vector :: "'w enricher \<Rightarrow> int option \<Rightarrow> string \<Rightarrow> job \<Rightarrow> ('w es, pyval) ex" where
  "score_vector en history_length i job =
     bindX (liftX (json_loads (en_float en) (jb_vector job))) (\<lambda>vector.
     bindX (liftX (validate_vector (en_prims en) (en_schema_ok en) (en_schema_sha256 en) vector)) (\<lambda>_.
     bindX (liftX (infer_body vector None)) (\<lambda>_.
     bindX (case history_length of None \<Rightarrow> returnX None | Some n \<Rightarrow> bindX (on_http (fetch_history (en_elastic en) n vector)) (\<lambda>h. returnX (Some h))) (\<lambda>history.
     bindX (liftX (infer_body vector history)) (\<lambda>body.
     bindX (on_http (request (en_inference en) ''POST'' ''/v1/infer'' (Some body))) (\<lambda>(status, result).
     if status \<noteq> 200 then raiseX (DeliveryErr ''INFERENCE_NOT_ACKNOWLEDGED'' True None)
     else bindX (\<lambda>s. (anomaly_event (en_now en (fst s)) vector result i (jb_hash job) ''soc-ai-inference'', s)) (\<lambda>event.
       bindX (on_outbox (\<lambda>w ob. unit_op (save_event (en_prims en) (en_time en w) i event ob))) (\<lambda>_. returnX event))))))))"

definition job_event :: "'w enricher \<Rightarrow> int option \<Rightarrow> string \<Rightarrow> job \<Rightarrow> ('w es, pyval) ex" where
  "job_event en history_length i job =
     bindX (liftX (case jb_event job of Some t \<Rightarrow> (if t \<noteq> [] then json_loads (en_float en) t else Inr PNone) | None \<Rightarrow> Inr PNone)) (\<lambda>event.
     if event = PNone then score_vector en history_length i job else returnX event)"

definition event_day :: "'w enricher \<Rightarrow> pyval \<Rightarrow> int res" where
  "event_day en event = bindR (py_item event ''@timestamp'') (\<lambda>v. case v of
     PStr s \<Rightarrow> (case fromisoformat (replace_Z s) of
         None \<Rightarrow> Inl (ValueError ''Invalid isoformat string'')
       | Some d \<Rightarrow> (let t = (case d of Aware t \<Rightarrow> t | Naive t \<Rightarrow> en_local en t) in if in_range t then Inr t else Inl OverflowErr))
   | _ \<Rightarrow> Inl (AttributeErr ''replace''))"

text \<open>A \<^verbatim>\<open>409\<close> means that this content-derived identifier was created before.\<close>

definition put_event :: "'w http \<Rightarrow> string \<Rightarrow> string \<Rightarrow> pyval \<Rightarrow> ('w, unit) ex" where
  "put_event h index i event w = (case request h ''PUT'' (''/'' @ index @ ''/_create/'' @ i) (Some event) w of
     (Inl e, w') \<Rightarrow> (if is_conflict e then (Inr (), w') else (Inl e, w'))
   | (Inr (status, reply), w') \<Rightarrow> (if status \<noteq> 201 \<or> pget reply ''result'' \<noteq> PStr ''created''
       then (Inl (DeliveryErr ''ES_CREATE_NOT_ACKNOWLEDGED'' True None), w') else (Inr (), w')))"

definition drain_job :: "'w enricher \<Rightarrow> int option \<Rightarrow> string \<Rightarrow> job \<Rightarrow> ('w es, unit) ex" where
  "drain_job en history_length i job =
     bindX (job_event en history_length i job) (\<lambda>event.
     bindX (liftX (event_day en event)) (\<lambda>t.
     bindX (on_http (put_event (en_elastic en) (''soc-ai-'' @ day_suffix t) i event)) (\<lambda>_.
     on_outbox (\<lambda>w ob. unit_op (sent (en_time en w) i ob)))))"

fun job_failure :: "exn \<Rightarrow> (string \<times> bool) option" where
  "job_failure (FeatureSchema m) = Some (''FEATURE_CONTRACT_MISMATCH'', False)"
| "job_failure (DeliveryErr code retryable status) = Some (code, retryable)"
| "job_failure _ = None"

fun drain_jobs :: "'w enricher \<Rightarrow> int option \<Rightarrow> (string \<times> job) list \<Rightarrow> ('w es, unit) ex" where
  "drain_jobs en history_length [] = returnX ()"
| "drain_jobs en history_length ((i, job) # jobs) =
     bindX (\<lambda>s. case drain_job en history_length i job s of
         (Inr u, s') \<Rightarrow> (Inr (), s')
       | (Inl e, s') \<Rightarrow> (case job_failure e of
             Some (code, retryable) \<Rightarrow> on_outbox (\<lambda>w ob. unit_op (failed (en_time en w) i code retryable ob)) s'
           | None \<Rightarrow> (Inl e, s'))) (\<lambda>_. drain_jobs en history_length jobs)"

definition drain :: "'w enricher \<Rightarrow> int \<Rightarrow> int option \<Rightarrow> ('w es, (job_state \<times> nat) list) ex" where
  "drain en limit history_length =
     bindX (liftX (guardR (1 \<le> limit \<and> limit \<le> 10000) (ValueError ''limit must be between 1 and 10000''))) (\<lambda>_ s.
     bindX (drain_jobs en history_length (due_jobs (en_time en (fst s)) (nat limit) (snd s))) (\<lambda>_ s'. (Inr (outbox_status (snd s')), s')) s)"

section \<open>Pulling vectors\<close>

record pull_state =
  pu_outbox :: outbox
  pu_seen :: nat
  pu_added :: nat
  pu_duplicates :: nat
  pu_invalid :: nat
  pu_last :: pyval

text \<open>\<^verbatim>\<open>list(cursor)\<close> of a loaded cursor.\<close>

definition cursor_list :: "pyval \<Rightarrow> pyval list option res" where
  "cursor_list v = (case v of PNone \<Rightarrow> Inr None | PList vs \<Rightarrow> Inr (Some vs) | PStr s \<Rightarrow> Inr (Some (map (\<lambda>c. PStr [c]) s))
     | PDict kvs \<Rightarrow> Inr (Some (map (PStr \<circ> fst) kvs)) | _ \<Rightarrow> Inl (TypeErr ''object is not iterable''))"

fun is_schema_error :: "exn \<Rightarrow> bool" where
  "is_schema_error (FeatureSchema m) = True"
| "is_schema_error _ = False"

definition pull_hit :: "'w enricher \<Rightarrow> (nat \<Rightarrow> rat) \<Rightarrow> string \<Rightarrow> nat \<Rightarrow> pyval \<Rightarrow> (pull_state, bool) ex" where
  "pull_hit en clock metadata_hash limit hit s = (
     if limit \<le> pu_seen s then (Inr False, s)
     else (let s1 = s\<lparr>pu_seen := Suc (pu_seen s)\<rparr> in
       if \<not> is_mapping hit then (Inl (AttributeErr ''get''), s1)
       else (let s2 = s1\<lparr>pu_last := (if py_truth (pget hit ''sort'') then pget hit ''sort'' else pu_last s)\<rparr>; vector = pget hit ''_source'' in
         (case validate_vector (en_prims en) (en_schema_ok en) (en_schema_sha256 en) vector of
            Inl e \<Rightarrow> (if is_schema_error e then (Inr True, s2\<lparr>pu_invalid := Suc (pu_invalid s)\<rparr>) else (Inl e, s2))
          | Inr u \<Rightarrow>
              (case enqueue (en_prims en) (clock (pu_seen s)) vector metadata_hash (pu_outbox s) of
                 Inl e \<Rightarrow> (Inl e, s2)
               | Inr (True, ob) \<Rightarrow> (Inr True, s2\<lparr>pu_outbox := ob, pu_added := Suc (pu_added s)\<rparr>)
               | Inr (False, ob) \<Rightarrow> (Inr True, s2\<lparr>pu_outbox := ob, pu_duplicates := Suc (pu_duplicates s)\<rparr>))))))"

definition cursor_key :: "string \<Rightarrow> string" where
  "cursor_key feature_schema = ''features_cursor:'' @ feature_schema"

definition load_cursor :: "'w enricher \<Rightarrow> string \<Rightarrow> outbox \<Rightarrow> pyval res" where
  "load_cursor en feature_schema ob = (case get_meta (cursor_key feature_schema) ob of
     Some raw \<Rightarrow> (if raw \<noteq> [] then json_loads (en_float en) raw else Inr PNone) | None \<Rightarrow> Inr PNone)"

definition finish_pull :: "'w enricher \<Rightarrow> string \<Rightarrow> unit res \<Rightarrow> pull_state \<Rightarrow> (nat \<times> nat \<times> nat \<times> nat) res \<times> outbox" where
  "finish_pull en feature_schema r s = (case r of
     Inl e \<Rightarrow> (Inl e, pu_outbox s)
   | Inr u \<Rightarrow> (Inr (pu_seen s, pu_added s, pu_duplicates s, pu_invalid s),
       if pu_last s = PNone then pu_outbox s
       else set_meta (cursor_key feature_schema) (json_dumps (en_prims en) (pu_last s)) (pu_outbox s)))"

definition schema_query :: "string \<Rightarrow> pyval" where
  "schema_query feature_schema = PDict [(''bool'', PDict [(''filter'', PList [term_q ''feature_schema'' (PStr feature_schema)])])]"

definition VECTOR_ORDER :: "pyval list" where
  "VECTOR_ORDER = [PDict [(''window_end'', PStr ''asc'')], PDict [(''vector_id'', PStr ''asc'')]]"

definition pull_features :: "'w enricher \<Rightarrow> string \<Rightarrow> string \<Rightarrow> int \<Rightarrow> 'w es \<Rightarrow> ((nat \<times> nat \<times> nat \<times> nat) res \<times> 'w es) option" where
  "pull_features en feature_schema metadata_hash limit s = (case s of (w, ob) \<Rightarrow>
     if \<not> (1 \<le> limit \<and> limit \<le> 100000) then Some (Inl (ValueError ''limit must be between 1 and 100000''), w, ob)
     else (case bindR (load_cursor en feature_schema ob) (\<lambda>c. bindR (cursor_list c) (\<lambda>after. Inr (c, after))) of
        Inl e \<Rightarrow> Some (Inl e, w, ob)
      | Inr (c, after) \<Rightarrow>
          map_option (\<lambda>(r, ps, w'). (case finish_pull en feature_schema r ps of (x, ob') \<Rightarrow> (x, w', ob')))
            (es_scan (en_elastic en) ''soc-features-*'' (schema_query feature_schema) VECTOR_ORDER None (min 500 limit) None after
              (pull_hit en (en_clock en w) metadata_hash (nat limit))
              \<lparr>pu_outbox = ob, pu_seen = 0, pu_added = 0, pu_duplicates = 0, pu_invalid = 0, pu_last = c\<rparr> w)))"

section \<open>Commands\<close>

text \<open>\<^verbatim>\<open>import\<close>: the lines of a file are validated and queued one by one.\<close>

fun refused_vector :: "exn \<Rightarrow> bool" where
  "refused_vector (ValueError m) = True"
| "refused_vector (FeatureSchema m) = True"
| "refused_vector _ = False"

definition import_vector :: "'w enricher \<Rightarrow> string \<Rightarrow> pyval res" where
  "import_vector en line = bindR (json_loads (en_float en) line) (\<lambda>vector.
     bindR (validate_vector (en_prims en) (en_schema_ok en) (en_schema_sha256 en) vector) (\<lambda>_. Inr vector))"

definition invalid_line :: "nat \<Rightarrow> exn \<Rightarrow> exn" where
  "invalid_line number e = (if refused_vector e
     then ValueError (''invalid vector at line '' @ show_nat number @ ''; source file retained'') else e)"

fun import_lines :: "'w enricher \<Rightarrow> (nat \<Rightarrow> rat) \<Rightarrow> string \<Rightarrow> nat \<Rightarrow> string list \<Rightarrow> nat \<Rightarrow> nat \<Rightarrow> outbox \<Rightarrow> (nat \<times> nat) res \<times> outbox" where
  "import_lines en clock metadata_hash number [] added duplicates ob = (Inr (added, duplicates), ob)"
| "import_lines en clock metadata_hash number (line # lines) added duplicates ob = (
     if strip line = [] then import_lines en clock metadata_hash (Suc number) lines added duplicates ob
     else (case import_vector en line of
         Inl e \<Rightarrow> (Inl (invalid_line number e), ob)
       | Inr vector \<Rightarrow> (case enqueue (en_prims en) (clock number) vector metadata_hash ob of
             Inl e \<Rightarrow> (Inl e, ob)
           | Inr (inserted, ob') \<Rightarrow> import_lines en clock metadata_hash (Suc number) lines
               (if inserted then Suc added else added) (if inserted then duplicates else Suc duplicates) ob')))"

text \<open>Without an approved metadata digest the process exits before it opens the outbox.\<close>

definition import_command :: "'w enricher \<Rightarrow> string \<Rightarrow> string list \<Rightarrow> 'w es \<Rightarrow> ((nat \<times> nat) res \<times> 'w es) option" where
  "import_command en metadata_hash lines s = (case s of (w, ob) \<Rightarrow>
     if \<not> is_sha256_hex metadata_hash then None
     else (case import_lines en (en_clock en w) metadata_hash 1 lines 0 0 ob of (r, ob') \<Rightarrow> Some (r, w, ob')))"

definition history_of :: "int \<Rightarrow> int option" where
  "history_of len = (if 1 < len then Some len else None)"

definition scoring_drain :: "'w enricher \<Rightarrow> int \<Rightarrow> ('w es, (job_state \<times> nat) list) ex" where
  "scoring_drain en limit = bindX (on_http (serving_sequence_length (en_inference en))) (\<lambda>len. drain en limit (history_of len))"

text \<open>\<^verbatim>\<open>drain\<close>: the exit status 2 tells the scheduler that jobs are left.\<close>

definition drain_command :: "'w enricher \<Rightarrow> int \<Rightarrow> ('w es, int) ex" where
  "drain_command en limit =
     bindX (liftX (guardR (1 \<le> limit \<and> limit \<le> 10000) (ValueError ''limit must be between 1 and 10000''))) (\<lambda>_.
     bindX (scoring_drain en limit) (\<lambda>counts.
     returnX (if list_ex (\<lambda>(st, n). st \<noteq> Sent \<and> 0 < n) counts then 2 else 0)))"

text \<open>One round of \<^verbatim>\<open>serve\<close>: a delivery error only means waiting for the next round.\<close>

datatype served = Served "nat \<times> nat \<times> nat \<times> nat" "(job_state \<times> nat) list" | Waiting string

definition waiting :: "served res \<Rightarrow> served res" where
  "waiting r = (case r of Inl e \<Rightarrow> (case delivery_code e of Some code \<Rightarrow> Inr (Waiting code) | None \<Rightarrow> Inl e) | Inr x \<Rightarrow> Inr x)"

definition serve_round :: "'w enricher \<Rightarrow> string \<Rightarrow> int \<Rightarrow> 'w es \<Rightarrow> (served res \<times> 'w es) option" where
  "serve_round en metadata_hash limit s = map_option (\<lambda>(r, s'). (waiting r, s'))
     (case on_http (serving_schema (en_inference en)) s of
        (Inl e, s1) \<Rightarrow> Some (Inl e, s1)
      | (Inr schema, s1) \<Rightarrow>
          (case pull_features en schema metadata_hash limit s1 of
             None \<Rightarrow> None
           | Some (Inl e, s2) \<Rightarrow> Some (Inl e, s2)
           | Some (Inr pulled, s2) \<Rightarrow> Some (bindX (scoring_drain en limit) (\<lambda>counts. returnX (Served pulled counts)) s2)))"

end
