(* ===== verification/Enrichment_Delivery.thy ===== *)
theory Enrichment_Delivery
  imports Enrichment
begin

text \<open>
  What the enrichment worker guarantees: a job is marked sent only when its event is in the index, no
  round loses or alters a job, a pull ends and leaves every valid vector it has read in the outbox
  before the cursor moves, and an accepted event is bound to its vector and to the approved model.
\<close>

section \<open>The index\<close>

text \<open>
  The contract of Elasticsearch that delivery rests on, for \<open>stored w i\<close>, a document \<open>i\<close> is in an index in the
  world \<open>w\<close>: no later request removes it, and a create that is acknowledged or refused as a conflict
  means that it is there.
\<close>

definition index_contract :: "'w enricher \<Rightarrow> ('w \<Rightarrow> string \<Rightarrow> bool) \<Rightarrow> bool" where
  "index_contract en stored \<longleftrightarrow>
     (\<forall>h \<in> {en_inference en, en_elastic en}. \<forall>m p b w i. stored w i \<longrightarrow> stored (snd (request h m p b w)) i) \<and>
     (\<forall>index i b w. case request (en_elastic en) ''PUT'' (''/'' @ index @ ''/_create/'' @ i) (Some b) w of
        (Inl e, w') \<Rightarrow> is_conflict e \<longrightarrow> stored w' i
      | (Inr (status, reply), w') \<Rightarrow> status = 201 \<and> pget reply ''result'' = PStr ''created'' \<longrightarrow> stored w' i)"

definition sent_jobs :: "outbox \<Rightarrow> string set" where
  "sent_jobs ob = {i. \<exists>j. dict_get (ob_jobs ob) i = Some j \<and> jb_state j = Sent}"

definition sent_stored :: "('w \<Rightarrow> string \<Rightarrow> bool) \<Rightarrow> 'w es \<Rightarrow> bool" where
  "sent_stored stored s \<longleftrightarrow> (\<forall>i \<in> sent_jobs (snd s). stored (fst s) i)"

text \<open>The invariant of a round that began with the outbox \<open>ob0\<close>.\<close>

definition safe :: "'w enricher \<Rightarrow> ('w \<Rightarrow> string \<Rightarrow> bool) \<Rightarrow> outbox \<Rightarrow> 'w es \<Rightarrow> bool" where
  "safe en stored ob0 s \<longleftrightarrow> outbox_ok (en_prims en) (snd s) \<and> outbox_follows ob0 (snd s) \<and> sent_stored stored s"

lemma always_at: "always P m Q \<Longrightarrow> P s \<Longrightarrow> Q (snd (m s))"
  unfolding always_def by blast

lemma on_http_state: "snd (on_http m s) = (snd (m (fst s)), snd s)"
  by (cases s; cases "m (fst s)") (simp add: on_http_def)

lemma always_on_http:
  assumes "\<And>i. always (\<lambda>w. stored w i) m (\<lambda>w. stored w i)"
  shows "always (safe en stored ob0) (on_http m) (safe en stored ob0)"
proof (unfold always_def, intro allI impI)
  fix s assume s: "safe en stored ob0 s"
  have "stored (snd (m (fst s))) i" if "stored (fst s) i" for i using assms [of i] that by (simp add: always_def)
  then show "safe en stored ob0 (snd (on_http m s))"
    using s by (simp add: safe_def sent_stored_def on_http_state)
qed

text \<open>A transaction of the outbox that marks nothing as sent which is not stored.\<close>

lemma always_on_outbox:
  assumes ex: "\<And>w ob r. f w ob = Inr r \<Longrightarrow> \<exists>now q. snd r = outbox_exec (en_prims en) now q ob"
    and "\<And>w ob r. f w ob = Inr r \<Longrightarrow> P (w, ob) \<Longrightarrow> sent_stored stored (w, ob) \<Longrightarrow> sent_stored stored (w, snd r)"
  shows "always (\<lambda>s. safe en stored ob0 s \<and> P s) (on_outbox f) (safe en stored ob0)"
proof (unfold always_def, intro allI impI)
  fix s assume s: "safe en stored ob0 s \<and> P s"
  obtain w ob where [simp]: "s = (w, ob)" by fastforce
  show "safe en stored ob0 (snd (on_outbox f s))"
  proof (cases "f w ob")
    case (Inr r)
    obtain now q where q: "snd r = outbox_exec (en_prims en) now q ob" using ex [OF Inr] by blast
    have "outbox_ok (en_prims en) (snd r)" "outbox_follows ob (snd r)"
      using outbox_exec_ok [of "en_prims en" ob now q] s unfolding q by (simp_all add: safe_def)
    moreover have "sent_stored stored (w, snd r)" using assms(2) [OF Inr] s by (simp add: safe_def)
    ultimately show ?thesis
      using Inr s outbox_follows_trans by (cases r) (auto simp: on_outbox_def safe_def)
  qed (use s in \<open>simp add: on_outbox_def\<close>)
qed

lemma update_keeps_sent:
  assumes "update_job i P f ob = Inr (n, ob')"
    and "\<And>j. P j \<Longrightarrow> dict_get (ob_jobs ob) i = Some j \<Longrightarrow> jb_state (f j) = Sent \<Longrightarrow> jb_state j = Sent \<or> stored w i"
  shows "sent_stored stored (w, ob) \<Longrightarrow> sent_stored stored (w, ob')"
proof (cases "dict_get (ob_jobs ob) i")
  case (Some j)
  assume s: "sent_stored stored (w, ob)"
  show ?thesis
  proof (cases "P j")
    case True
    then have "ob' = ob\<lparr>ob_jobs := dict_set i (f j) (ob_jobs ob)\<rparr>"
      using assms(1) Some by (auto simp: update_job_def bindR_eq_Inr)
    then show ?thesis using s Some assms(2) [OF True Some] by (auto simp: sent_stored_def sent_jobs_def split: if_splits)
  qed (use s Some assms(1) in \<open>simp add: update_job_def\<close>)
qed (use assms(1) in \<open>simp add: update_job_def del: dict_get_None_iff\<close>)

lemma save_event_keeps_sent:
  "save_event pr now i event ob = Inr ob' \<Longrightarrow> sent_stored stored (w, ob) \<Longrightarrow> sent_stored stored (w, ob')"
  by (auto simp: save_event_def bindR_eq_Inr intro: update_keeps_sent)

lemma failed_keeps_sent:
  "failed now i code retryable ob = Inr ob' \<Longrightarrow> sent_stored stored (w, ob) \<Longrightarrow> sent_stored stored (w, ob')"
  by (auto simp: failed_def bindR_eq_Inr Let_def intro: update_keeps_sent split: option.splits if_splits simp del: dict_get_None_iff)

lemma sent_keeps_sent:
  "sent now i ob = Inr ob' \<Longrightarrow> stored w i \<Longrightarrow> sent_stored stored (w, ob) \<Longrightarrow> sent_stored stored (w, ob')"
  by (auto simp: sent_def bindR_eq_Inr intro: update_keeps_sent)

lemma always_save_event:
  "always (safe en stored ob0) (on_outbox (\<lambda>w ob. unit_op (save_event (en_prims en) (en_time en w) i event ob))) (safe en stored ob0)"
proof (rule always_on_outbox [where P = "\<lambda>s. True", simplified])
  fix w ob r assume "unit_op (save_event (en_prims en) (en_time en w) i event ob) = Inr r"
  then have r: "save_event (en_prims en) (en_time en w) i event ob = Inr (snd r)" by (auto simp: unit_op_def bindR_eq_Inr)
  have "snd r = outbox_exec (en_prims en) (en_time en w) (Save_event i event) ob" using r by (simp add: outbox_exec_def)
  then show "\<exists>now q. snd r = outbox_exec (en_prims en) now q ob" by blast
  show "sent_stored stored (w, ob) \<Longrightarrow> sent_stored stored (w, snd r)" using save_event_keeps_sent [OF r] .
qed

lemma always_failed:
  "always (safe en stored ob0) (on_outbox (\<lambda>w ob. unit_op (failed (en_time en w) i code retryable ob))) (safe en stored ob0)"
proof (rule always_on_outbox [where P = "\<lambda>s. True", simplified])
  fix w ob r assume "unit_op (failed (en_time en w) i code retryable ob) = Inr r"
  then have r: "failed (en_time en w) i code retryable ob = Inr (snd r)" by (auto simp: unit_op_def bindR_eq_Inr)
  have "snd r = outbox_exec (en_prims en) (en_time en w) (Mark_failed i code retryable) ob" using r by (simp add: outbox_exec_def)
  then show "\<exists>now q. snd r = outbox_exec (en_prims en) now q ob" by blast
  show "sent_stored stored (w, ob) \<Longrightarrow> sent_stored stored (w, snd r)" using failed_keeps_sent [OF r] .
qed

lemma always_sent:
  "always (\<lambda>s. safe en stored ob0 s \<and> stored (fst s) i) (on_outbox (\<lambda>w ob. unit_op (sent (en_time en w) i ob))) (safe en stored ob0)"
proof (rule always_on_outbox [where P = "\<lambda>s. stored (fst s) i"])
  fix w ob r assume "unit_op (sent (en_time en w) i ob) = Inr r"
  then have r: "sent (en_time en w) i ob = Inr (snd r)" by (auto simp: unit_op_def bindR_eq_Inr)
  have "snd r = outbox_exec (en_prims en) (en_time en w) (Mark_sent i) ob" using r by (simp add: outbox_exec_def)
  then show "\<exists>now q. snd r = outbox_exec (en_prims en) now q ob" by blast
  show "stored (fst (w, ob)) i \<Longrightarrow> sent_stored stored (w, ob) \<Longrightarrow> sent_stored stored (w, snd r)"
    using sent_keeps_sent [OF r] by simp
qed

section \<open>A drain\<close>

lemma contract_keeps:
  assumes "index_contract en stored" "h = en_inference en \<or> h = en_elastic en"
  shows "always (\<lambda>w. stored w i) (request h m p b) (\<lambda>w. stored w i)"
  using assms by (auto simp: index_contract_def always_def)

lemma fetch_history_keeps:
  assumes "\<And>m p b. always P (request h m p b) P"
  shows "always P (fetch_history h len vector) P"
  unfolding fetch_history_def by (auto intro!: always_bindX search_page_keeps assms split: prod.split)

lemma put_event_stores:
  assumes "index_contract en stored"
  shows "put_event (en_elastic en) index i event w = (Inr (), w') \<Longrightarrow> stored w' i"
    and "always (\<lambda>w. stored w k) (put_event (en_elastic en) index i event) (\<lambda>w. stored w k)"
proof -
  let ?p = "''/'' @ index @ ''/_create/'' @ i"
  obtain r w1 where r: "request (en_elastic en) ''PUT'' ?p (Some event) w = (r, w1)" by fastforce
  have "case (r, w1) of (Inl e, w') \<Rightarrow> is_conflict e \<longrightarrow> stored w' i
      | (Inr (status, reply), w') \<Rightarrow> status = 201 \<and> pget reply ''result'' = PStr ''created'' \<longrightarrow> stored w' i"
    using assms [unfolded index_contract_def, THEN conjunct2, THEN spec, of index, THEN spec, of i, THEN spec, of event, THEN spec, of w]
    unfolding r .
  then show "put_event (en_elastic en) index i event w = (Inr (), w') \<Longrightarrow> stored w' i"
    unfolding put_event_def r by (auto split: sum.splits if_splits)
  show "always (\<lambda>w. stored w k) (put_event (en_elastic en) index i event) (\<lambda>w. stored w k)"
    unfolding always_def
  proof (intro allI impI)
    fix w assume "stored w k"
    then have "stored (snd (request (en_elastic en) ''PUT'' ?p (Some event) w)) k"
      using contract_keeps [OF assms, of "en_elastic en"] by (simp add: always_def)
    then show "stored (snd (put_event (en_elastic en) index i event w)) k"
      unfolding put_event_def by (auto split: prod.split sum.split)
  qed
qed

lemma score_vector_safe:
  assumes "index_contract en stored"
  shows "always (safe en stored ob0) (score_vector en history_length i job) (safe en stored ob0)"
proof -
  note net = always_on_http [OF contract_keeps [OF assms]] always_on_http [OF fetch_history_keeps [OF contract_keeps [OF assms]]]
  have ev: "always (safe en stored ob0) (\<lambda>s. (g s, s)) (safe en stored ob0)" for g :: "'a es \<Rightarrow> pyval res"
    by (simp add: always_def)
  show ?thesis
    unfolding score_vector_def
    by (auto intro!: always_bindX net ev always_save_event split: option.split prod.split)
qed

lemma drain_job_safe:
  assumes "index_contract en stored"
  shows "always (safe en stored ob0) (drain_job en history_length i job) (safe en stored ob0)"
proof -
  have put: "always (safe en stored ob0) (bindX (on_http (put_event (en_elastic en) index i event)) (\<lambda>_.
      on_outbox (\<lambda>w ob. unit_op (sent (en_time en w) i ob)))) (safe en stored ob0)" for index event
    unfolding always_def
  proof (intro allI impI)
    fix s assume s: "safe en stored ob0 s"
    obtain r s1 where r: "on_http (put_event (en_elastic en) index i event) s = (r, s1)" by (rule prod.exhaust)
    have s1: "safe en stored ob0 s1" using alwaysD [OF always_on_http [OF put_event_stores(2) [OF assms]] s r] .
    show "safe en stored ob0 (snd (bindX (on_http (put_event (en_elastic en) index i event)) (\<lambda>_.
      on_outbox (\<lambda>w ob. unit_op (sent (en_time en w) i ob))) s))"
    proof (cases r)
      case (Inr u)
      have "stored (fst s1) i"
        using put_event_stores(1) [OF assms, of index i event "fst s" "fst s1"] r Inr
        by (cases s) (auto simp: on_http_def split: prod.splits)
      then have "safe en stored ob0 (snd (on_outbox (\<lambda>w ob. unit_op (sent (en_time en w) i ob)) s1))"
        using always_at [OF always_sent] s1 by blast
      then show ?thesis using r Inr by (simp add: bindX_def)
    qed (use r s1 in \<open>simp add: bindX_def\<close>)
  qed
  show ?thesis
    unfolding drain_job_def job_event_def
    by (auto intro!: always_bindX put score_vector_safe assms)
qed

lemma drain_jobs_safe:
  assumes "index_contract en stored"
  shows "always (safe en stored ob0) (drain_jobs en history_length jobs) (safe en stored ob0)"
proof (induction jobs)
  case (Cons p jobs)
  obtain i job where p: "p = (i, job)" by fastforce
  have step: "always (safe en stored ob0) (\<lambda>s. case drain_job en history_length i job s of
      (Inr u, s') \<Rightarrow> (Inr (), s')
    | (Inl e, s') \<Rightarrow> (case job_failure e of
          Some (code, retryable) \<Rightarrow> on_outbox (\<lambda>w ob. unit_op (failed (en_time en w) i code retryable ob)) s'
        | None \<Rightarrow> (Inl e, s'))) (safe en stored ob0)"
    unfolding always_def
  proof (intro allI impI)
    fix s assume s: "safe en stored ob0 s"
    obtain r s1 where r: "drain_job en history_length i job s = (r, s1)" by (rule prod.exhaust)
    have s1: "safe en stored ob0 s1" using alwaysD [OF drain_job_safe [OF assms] s r] .
    have "safe en stored ob0 (snd (on_outbox (\<lambda>w ob. unit_op (failed (en_time en w) i code retryable ob)) s1))" for code retryable
      using always_at [OF always_failed s1] .
    then show "safe en stored ob0 (snd (case drain_job en history_length i job s of
      (Inr u, s') \<Rightarrow> (Inr (), s')
    | (Inl e, s') \<Rightarrow> (case job_failure e of
          Some (code, retryable) \<Rightarrow> on_outbox (\<lambda>w ob. unit_op (failed (en_time en w) i code retryable ob)) s'
        | None \<Rightarrow> (Inl e, s'))))"
      using s1 unfolding r by (auto split: sum.split option.split prod.split)
  qed
  show ?case unfolding p drain_jobs.simps by (rule always_bindX [OF step Cons.IH])
qed (simp add: always_def)

lemma drain_safe:
  assumes "index_contract en stored"
  shows "always (safe en stored ob0) (drain en limit history_length) (safe en stored ob0)"
proof -
  have "always (safe en stored ob0) (\<lambda>s. bindX (drain_jobs en history_length (due_jobs (en_time en (fst s)) (nat limit) (snd s)))
      (\<lambda>_ s'. (Inr (outbox_status (snd s')), s')) s) (safe en stored ob0)"
    unfolding always_def
  proof (intro allI impI)
    fix s assume s: "safe en stored ob0 s"
    have "always (safe en stored ob0) (bindX (drain_jobs en history_length jobs) (\<lambda>_ s'. (Inr (outbox_status (snd s')), s'))) (safe en stored ob0)" for jobs
      by (rule always_bindX [OF drain_jobs_safe [OF assms]]) (simp add: always_def)
    then show "safe en stored ob0 (snd (bindX (drain_jobs en history_length (due_jobs (en_time en (fst s)) (nat limit) (snd s)))
      (\<lambda>_ s'. (Inr (outbox_status (snd s')), s')) s))"
      using s unfolding always_def by blast
  qed
  then show ?thesis unfolding drain_def by (intro always_bindX always_pure)
qed

section \<open>A pull\<close>

definition valid_vector :: "'w enricher \<Rightarrow> pyval \<Rightarrow> bool" where
  "valid_vector en v \<longleftrightarrow> validate_vector (en_prims en) (en_schema_ok en) (en_schema_sha256 en) v = Inr ()"

definition queued :: "prims \<Rightarrow> string \<Rightarrow> pyval \<Rightarrow> outbox \<Rightarrow> bool" where
  "queued pr metadata_hash v ob \<longleftrightarrow> (\<exists>body. canonical pr v = Inr body \<and> job_id pr metadata_hash body \<in> set (dict_keys (ob_jobs ob)))"

definition last_sort :: "pyval \<Rightarrow> pyval list \<Rightarrow> pyval" where
  "last_sort = foldl (\<lambda>l hit. if py_truth (pget hit ''sort'') then pget hit ''sort'' else l)"

definition tally :: "pull_state \<Rightarrow> nat" where
  "tally s = pu_added s + pu_duplicates s + pu_invalid s"

lemma queued_follows: "queued pr h v ob \<Longrightarrow> outbox_follows ob ob' \<Longrightarrow> queued pr h v ob'"
  unfolding queued_def outbox_follows_def by (metis dict_get_None_iff not_None_eq)

lemma enqueue_effect:
  assumes "enqueue pr now v h ob = Inr (b, ob')"
  shows "queued pr h v ob'" "ob_meta ob' = ob_meta ob" "length (ob_jobs ob') = length (ob_jobs ob) + (if b then 1 else 0)"
    and "ob' = outbox_exec pr now (Enqueue v h) ob"
    and "sent_jobs ob' \<subseteq> sent_jobs ob"
proof -
  obtain body where body: "is_sha256_hex h" "canonical pr v = Inr body" using assms by (auto simp: enqueue_def bindR_eq_Inr)
  let ?j = "\<lparr>jb_hash = h, jb_vector = body, jb_event = None, jb_state = Pending, jb_attempts = 0, jb_next = 0, jb_error = None,
    jb_created = now, jb_updated = now\<rparr>"
  let ?i = "job_id pr h body"
  have c: "?i \<in> set (dict_keys (ob_jobs ob)) \<and> \<not> b \<and> ob' = ob \<or>
      ?i \<notin> set (dict_keys (ob_jobs ob)) \<and> b \<and> ob' = ob\<lparr>ob_jobs := dict_set ?i ?j (ob_jobs ob)\<rparr>"
    using assms body by (auto simp: enqueue_def Let_def dict_set_new split: if_splits)
  show "ob_meta ob' = ob_meta ob" using c by auto
  show "length (ob_jobs ob') = length (ob_jobs ob) + (if b then 1 else 0)" using c by (auto simp: dict_set_new)
  show "ob' = outbox_exec pr now (Enqueue v h) ob" using assms by (simp add: outbox_exec_def)
  show "sent_jobs ob' \<subseteq> sent_jobs ob" using c by (auto simp: sent_jobs_def split: if_splits)
  have "?i \<in> set (dict_keys (ob_jobs ob'))" using c by (auto simp: dict_set_new)
  then show "queued pr h v ob'" using body(2) unfolding queued_def by blast
qed

lemma pull_hit_outbox:
  assumes "pull_hit en clock h cap hit s = (r, s')"
  shows "pu_outbox s' = pu_outbox s \<or> (\<exists>now v b. enqueue (en_prims en) now v h (pu_outbox s) = Inr (b, pu_outbox s'))"
  using assms unfolding pull_hit_def Let_def
  by (auto split: if_splits sum.splits bool.splits prod.splits)

lemma pull_hit_step:
  assumes "pull_hit en clock h cap hit s = (Inr c, s')" "\<not> cap \<le> pu_seen s"
  shows "c \<and> pu_seen s' = Suc (pu_seen s) \<and> pu_last s' = last_sort (pu_last s) [hit] \<and> tally s' = Suc (tally s) \<and>
    length (ob_jobs (pu_outbox s')) + pu_added s = length (ob_jobs (pu_outbox s)) + pu_added s' \<and>
    (valid_vector en (pget hit ''_source'') \<longrightarrow> queued (en_prims en) h (pget hit ''_source'') (pu_outbox s'))"
  using assms unfolding pull_hit_def Let_def
  by (auto simp: last_sort_def tally_def valid_vector_def split: if_splits sum.splits bool.splits prod.splits
    dest: enqueue_effect(1,3))

lemma pull_hit_descends: "pull_hit en clock h cap hit s = (Inr True, s') \<Longrightarrow> cap - pu_seen s' < cap - pu_seen s"
  using pull_hit_step [of en clock h cap hit s True s'] by (cases "cap \<le> pu_seen s") (simp add: pull_hit_def, linarith)

text \<open>Whatever a pull does to the outbox is a sequence of enqueues.\<close>

definition grown :: "'w enricher \<Rightarrow> outbox \<Rightarrow> outbox \<Rightarrow> bool" where
  "grown en ob ob' \<longleftrightarrow> outbox_ok (en_prims en) ob' \<and> outbox_follows ob ob' \<and> ob_meta ob' = ob_meta ob \<and> sent_jobs ob' \<subseteq> sent_jobs ob"

lemma scan_each_grown:
  assumes "grown en ob (pu_outbox s)" "scan_each (pull_hit en clock h cap) hits s = (r, s')"
  shows "grown en ob (pu_outbox s')"
  using assms
proof (induction hits arbitrary: s)
  case (Cons hit hits)
  obtain c s1 where p: "pull_hit en clock h cap hit s = (c, s1)" by fastforce
  have "grown en ob (pu_outbox s1)"
  proof (cases "pu_outbox s1 = pu_outbox s")
    case False
    then obtain now v b where e: "enqueue (en_prims en) now v h (pu_outbox s) = Inr (b, pu_outbox s1)"
      using pull_hit_outbox [OF p] by blast
    note g = Cons.prems(1) [unfolded grown_def]
    have "outbox_ok (en_prims en) (pu_outbox s1)" "outbox_follows (pu_outbox s) (pu_outbox s1)"
      using outbox_exec_ok [of "en_prims en" "pu_outbox s" now "Enqueue v h"] g enqueue_effect(4) [OF e] by simp_all
    moreover have "outbox_follows ob (pu_outbox s1)" using outbox_follows_trans g calculation(2) by blast
    moreover have "ob_meta (pu_outbox s1) = ob_meta ob" using g enqueue_effect(2) [OF e] by simp
    ultimately show ?thesis unfolding grown_def using g enqueue_effect(5) [OF e] by blast
  qed (use Cons.prems(1) in simp)
  then show ?case using Cons p by (auto split: sum.splits bool.splits)
qed simp

lemma pull_each:
  assumes "scan_each (pull_hit en clock h cap) hits s = (Inr b, s')" "grown en ob (pu_outbox s)" "pu_seen s \<le> cap"
  shows "pu_seen s' = pu_seen s + min (cap - pu_seen s) (length hits) \<and>
    pu_last s' = last_sort (pu_last s) (take (cap - pu_seen s) hits) \<and> tally s' + pu_seen s = tally s + pu_seen s' \<and>
    length (ob_jobs (pu_outbox s')) + pu_added s = length (ob_jobs (pu_outbox s)) + pu_added s' \<and>
    (\<forall>hit \<in> set (take (cap - pu_seen s) hits). valid_vector en (pget hit ''_source'') \<longrightarrow>
       queued (en_prims en) h (pget hit ''_source'') (pu_outbox s')) \<and> outbox_follows (pu_outbox s) (pu_outbox s')"
  using assms
proof (induction hits arbitrary: s)
  case (Cons hit hits)
  obtain c s1 where p: "pull_hit en clock h cap hit s = (c, s1)" by fastforce
  show ?case
  proof (cases "cap \<le> pu_seen s")
    case True
    then have "pull_hit en clock h cap hit s = (Inr False, s)" by (simp add: pull_hit_def)
    then show ?thesis using Cons.prems True by (simp add: last_sort_def)
  next
    case False
    obtain c' where c': "c = Inr c'" using Cons.prems(1) p by (auto split: sum.splits)
    note st = pull_hit_step [OF p [unfolded c'] False]
    have rest: "scan_each (pull_hit en clock h cap) hits s1 = (Inr b, s')" using Cons.prems(1) p c' st by simp
    have one: "scan_each (pull_hit en clock h cap) [hit] s = (c, s1)" using p c' st by simp
    have g1: "grown en ob (pu_outbox s1)" by (rule scan_each_grown [OF Cons.prems(2) one])
    have "pu_seen s1 \<le> cap" using st False by simp
    note ih = Cons.IH [OF rest g1 this]
    have k: "cap - pu_seen s = Suc (cap - pu_seen s1)" using st False by simp
    have "grown en (pu_outbox s) (pu_outbox s)" using Cons.prems(2) by (simp add: grown_def)
    then have f: "outbox_follows (pu_outbox s) (pu_outbox s1)" using scan_each_grown [OF _ one] by (simp add: grown_def)
    have "outbox_follows (pu_outbox s) (pu_outbox s')" using outbox_follows_trans f ih by blast
    then show ?thesis using ih st queued_follows unfolding k by (auto simp: last_sort_def)
  qed
qed (simp add: last_sort_def)

abbreviation vector_page :: "string \<Rightarrow> int \<Rightarrow> pyval list option \<Rightarrow> pyval" where
  "vector_page feature_schema limit \<equiv> scan_body (schema_query feature_schema) VECTOR_ORDER None (min 500 limit)"

definition start_pull :: "outbox \<Rightarrow> pyval \<Rightarrow> pull_state" where
  "start_pull ob c = \<lparr>pu_outbox = ob, pu_seen = 0, pu_added = 0, pu_duplicates = 0, pu_invalid = 0, pu_last = c\<rparr>"

text \<open>The scan of a pull ends, and its body has worked off what the scan handed over.\<close>

lemma pull_scan:
  assumes "1 \<le> limit"
  shows "\<exists>r ps w' hits c'. es_scan (en_elastic en) ''soc-features-*'' (schema_query feature_schema) VECTOR_ORDER None (min 500 limit) None after
      (pull_hit en (en_clock en w) h (nat limit)) (start_pull ob c) w = Some (r, ps, w') \<and>
    yields (en_elastic en) ''soc-features-*'' (vector_page feature_schema limit) after w hits w' \<and>
    scan_each (pull_hit en (en_clock en w) h (nat limit)) hits (start_pull ob c) = (c', ps) \<and> loop_end r c'"
proof -
  let ?body = "pull_hit en (en_clock en w) h (nat limit)" and ?page = "vector_page feature_schema limit"
  let ?n = "nat (min 500 limit)"
  have m: "(1 \<le> min 500 limit \<and> min 500 limit \<le> 10000) = True" using assms by (simp add: min_def)
  have e: "es_scan (en_elastic en) ''soc-features-*'' (schema_query feature_schema) VECTOR_ORDER None (min 500 limit) None after ?body (start_pull ob c) w
      = scan_loop (en_elastic en) ''soc-features-*'' ?page ?body ?n None 0 after (start_pull ob c) w"
    using m by (simp only: es_scan_def not_True_eq_False if_False)
  have "0 < ?n" using assms by simp
  then have "\<exists>x. scan_loop (en_elastic en) ''soc-features-*'' ?page ?body ?n None 0 after (start_pull ob c) w = Some x"
    by (rule scan_loop_ends [where f = "\<lambda>s. nat limit - pu_seen s"]) (rule pull_hit_descends)
  then obtain x where x: "scan_loop (en_elastic en) ''soc-features-*'' ?page ?body ?n None 0 after (start_pull ob c) w = Some x" by blast
  obtain r ps w' where y: "x = (r, ps, w')" by (rule prod_cases3)
  from scan_loop_yields [OF x [unfolded y]] show ?thesis unfolding e using x y by blast
qed

text \<open>What a pull that returned has done, and where the next one resumes.\<close>

definition pulled :: "'w enricher \<Rightarrow> string \<Rightarrow> string \<Rightarrow> int \<Rightarrow> 'w es \<Rightarrow> (nat \<times> nat \<times> nat \<times> nat) \<Rightarrow> 'w es \<Rightarrow> bool" where
  "pulled en feature_schema metadata_hash limit s counts s' \<longleftrightarrow> (\<exists>cursor after hits. case counts of (seen, added, duplicates, invalid) \<Rightarrow>
     load_cursor en feature_schema (snd s) = Inr cursor \<and> cursor_list cursor = Inr after \<and>
     yields (en_elastic en) ''soc-features-*'' (vector_page feature_schema limit) after (fst s) hits (fst s') \<and>
     seen = min (nat limit) (length hits) \<and> seen = added + duplicates + invalid \<and>
     length (ob_jobs (snd s')) = length (ob_jobs (snd s)) + added \<and>
     (\<forall>hit \<in> set (take (nat limit) hits). valid_vector en (pget hit ''_source'') \<longrightarrow>
        queued (en_prims en) metadata_hash (pget hit ''_source'') (snd s')) \<and>
     (let l = last_sort cursor (take (nat limit) hits) in
        json_ok (en_prims en) (en_float en) l \<longrightarrow> l \<noteq> PNone \<longrightarrow> load_cursor en feature_schema (snd s') = Inr l))"

lemma pull_outcome:
  assumes "outbox_ok (en_prims en) ob"
  shows "\<exists>r w' ob'. pull_features en feature_schema h limit (w, ob) = Some (r, w', ob') \<and> outbox_ok (en_prims en) ob' \<and>
    outbox_follows ob ob' \<and> sent_jobs ob' \<subseteq> sent_jobs ob \<and>
    (w' = w \<or> (\<exists>after hits. yields (en_elastic en) ''soc-features-*'' (vector_page feature_schema limit) after w hits w')) \<and>
    (case r of Inl e \<Rightarrow> ob_meta ob' = ob_meta ob | Inr counts \<Rightarrow> pulled en feature_schema h limit (w, ob) counts (w', ob'))"
proof (cases "1 \<le> limit \<and> limit \<le> 100000")
  case limit: True
  show ?thesis
  proof (cases "bindR (load_cursor en feature_schema ob) (\<lambda>c. bindR (cursor_list c) (\<lambda>after. Inr (c, after)))")
    case (Inr p)
    then obtain c after where c: "load_cursor en feature_schema ob = Inr c" "cursor_list c = Inr after" "p = (c, after)"
      by (auto simp: bindR_eq_Inr)
    obtain r ps w' hits c' where
      scan: "es_scan (en_elastic en) ''soc-features-*'' (schema_query feature_schema) VECTOR_ORDER None (min 500 limit) None after
        (pull_hit en (en_clock en w) h (nat limit)) (start_pull ob c) w = Some (r, ps, w')"
      and y: "yields (en_elastic en) ''soc-features-*'' (vector_page feature_schema limit) after w hits w'"
      and each: "scan_each (pull_hit en (en_clock en w) h (nat limit)) hits (start_pull ob c) = (c', ps)" and stop: "loop_end r c'"
      using pull_scan limit by metis
    have g0: "grown en ob (pu_outbox (start_pull ob c))" using assms by (simp add: grown_def start_pull_def)
    have g: "grown en ob (pu_outbox ps)" by (rule scan_each_grown [OF g0 each])
    have pull: "pull_features en feature_schema h limit (w, ob) = Some (case finish_pull en feature_schema r ps of (x, ob') \<Rightarrow> (x, w', ob'))"
      using limit Inr c scan by (simp add: pull_features_def start_pull_def)
    show ?thesis
    proof (cases r)
      case (Inl e)
      then show ?thesis using pull g y by (auto simp: finish_pull_def grown_def)
    next
      case Inr': (Inr u)
      then obtain b where b: "c' = Inr b" using stop by (auto simp: loop_end_def)
      note n = pull_each [OF each [unfolded b] g0]
      let ?l = "pu_last ps"
      let ?ob = "if ?l = PNone then pu_outbox ps else set_meta (cursor_key feature_schema) (json_dumps (en_prims en) ?l) (pu_outbox ps)"
      have res: "pull_features en feature_schema h limit (w, ob)
          = Some (Inr (pu_seen ps, pu_added ps, pu_duplicates ps, pu_invalid ps), w', ?ob)"
        using pull Inr' by (simp add: finish_pull_def)
      have jobs: "ob_jobs ?ob = ob_jobs (pu_outbox ps)" by (simp add: set_meta_def)
      have cursor: "load_cursor en feature_schema ?ob = Inr ?l" if "json_ok (en_prims en) (en_float en) ?l" "?l \<noteq> PNone"
        using json_dumps_reads_back [OF that(1)] that(2) by (simp add: load_cursor_def get_meta_def set_meta_def)
      have "pulled en feature_schema h limit (w, ob) (pu_seen ps, pu_added ps, pu_duplicates ps, pu_invalid ps) (w', ?ob)"
        unfolding pulled_def
        using c y n cursor jobs
        by (intro exI [of _ c] exI [of _ after] exI [of _ hits]) (simp add: start_pull_def tally_def queued_def Let_def)
      moreover have "outbox_ok (en_prims en) ?ob" "outbox_follows ob ?ob" "sent_jobs ?ob \<subseteq> sent_jobs ob"
        using g unfolding grown_def outbox_ok_def outbox_follows_def sent_jobs_def jobs by blast+
      ultimately show ?thesis using res y by (metis (no_types, lifting) sum.simps(6))
    qed
  qed (use assms limit in \<open>simp add: pull_features_def\<close>)
qed (use assms in \<open>simp add: pull_features_def\<close>)

section \<open>A round\<close>

lemma serve_round_outcome:
  assumes "index_contract en stored" "safe en stored ob0 (w, ob)"
  shows "\<exists>r w' ob'. serve_round en metadata_hash limit (w, ob) = Some (r, w', ob') \<and> safe en stored ob0 (w', ob')"
proof -
  have net: "always (\<lambda>w. stored w i) (request h m p b) (\<lambda>w. stored w i)" if "h = en_inference en \<or> h = en_elastic en" for h m p b i
    using contract_keeps [OF assms(1) that] .
  have inf: "always (\<lambda>w. stored w i) (serving_schema (en_inference en)) (\<lambda>w. stored w i)"
    "always (\<lambda>w. stored w i) (serving_sequence_length (en_inference en)) (\<lambda>w. stored w i)" for i
    unfolding serving_schema_def serving_sequence_length_def by (auto intro!: always_bindX net split: prod.split pyval.split)
  obtain r1 w1 ob1 where s1: "on_http (serving_schema (en_inference en)) (w, ob) = (r1, w1, ob1)" by (rule prod_cases3)
  have safe1: "safe en stored ob0 (w1, ob1)" by (rule alwaysD [OF always_on_http [OF inf(1)] assms(2) s1])
  show ?thesis
  proof (cases r1)
    case (Inr schema)
    have "outbox_ok (en_prims en) ob1" using safe1 by (simp add: safe_def)
    from pull_outcome [OF this, of schema metadata_hash limit w1] obtain r2 w2 ob2 where
      p: "pull_features en schema metadata_hash limit (w1, ob1) = Some (r2, w2, ob2)"
      and o2: "outbox_ok (en_prims en) ob2" "outbox_follows ob1 ob2" "sent_jobs ob2 \<subseteq> sent_jobs ob1"
      and w2: "w2 = w1 \<or> (\<exists>after hits. yields (en_elastic en) ''soc-features-*'' (vector_page schema limit) after w1 hits w2)" by blast
    have "stored w2 i" if "stored w1 i" for i using w2 that yields_keeps [OF net, of "en_elastic en"] by blast
    then have safe2: "safe en stored ob0 (w2, ob2)"
      using safe1 o2 outbox_follows_trans unfolding safe_def sent_stored_def by (simp, blast)
    show ?thesis
    proof (cases r2)
      case r2: (Inr counts)
      have "always (safe en stored ob0) (bindX (scoring_drain en limit) (\<lambda>c. returnX (Served counts c))) (safe en stored ob0)"
        unfolding scoring_drain_def by (intro always_bindX always_on_http inf drain_safe [OF assms(1)] always_pure)
      from always_at [OF this safe2] show ?thesis
        using s1 Inr p r2 by (auto simp: serve_round_def split: prod.split)
    qed (use s1 Inr p safe2 in \<open>simp add: serve_round_def\<close>)
  qed (use s1 safe1 in \<open>simp add: serve_round_def\<close>)
qed

text \<open>
  C30. Delivery to the index is at least once. Whatever the model service and the index answer, a round of
  the enrichment worker returns; it neither loses nor alters a job or a saved result; and if every job
  that was marked sent had its event in the index before, the same holds after it. The index keeps
  documents, and acknowledges a create, or refuses it as a conflict, only for a document it holds.
\<close>

theorem sent_only_when_indexed:
  assumes "index_contract en stored" "outbox_ok (en_prims en) ob" "sent_stored stored (w, ob)"
  shows "\<exists>r w' ob'. serve_round en metadata_hash limit (w, ob) = Some (r, w', ob') \<and>
    outbox_ok (en_prims en) ob' \<and> outbox_follows ob ob' \<and> sent_stored stored (w', ob')"
  using serve_round_outcome [OF assms(1), of ob w ob metadata_hash limit] assms(2,3) by (simp add: safe_def)

text \<open>
  C31. A pull loses no vector. Whatever the index answers, it ends; when it raises, the cursor is where it
  was; when it returns, every valid vector among the hits the scan handed over, up to the limit, is in
  the outbox, each hit is counted once as added, duplicate or invalid, no job is lost, and the next
  pull resumes after the last hit this one has handled.
\<close>

theorem pull_loses_nothing:
  assumes "outbox_ok (en_prims en) ob"
  shows "\<exists>r w' ob'. pull_features en feature_schema metadata_hash limit (w, ob) = Some (r, w', ob') \<and>
    outbox_ok (en_prims en) ob' \<and> outbox_follows ob ob' \<and>
    (case r of Inl e \<Rightarrow> ob_meta ob' = ob_meta ob | Inr counts \<Rightarrow> pulled en feature_schema metadata_hash limit (w, ob) counts (w', ob'))"
  using pull_outcome [OF assms] by blast

section \<open>Concrete rounds\<close>

text \<open>An index that keeps the addresses it was asked to create, and a model service that is ready.\<close>

definition shelf_reply :: "int \<Rightarrow> pyval \<Rightarrow> http_reply" where
  "shelf_reply status body = Response \<lparr>re_status = status, re_length = 0, re_remaining = None, re_body = Some body\<rparr>"

definition shelf :: "string list http" where
  "shelf = \<lparr>ht_origin = ''https://index'', ht_open = (\<lambda>rq w.
     if rq_method rq = ''PUT'' then (shelf_reply 201 (PDict [(''result'', PStr ''created'')]), rq_url rq # w)
     else (shelf_reply 200 (PDict [(''feature_schema'', PStr ''endpoint-window-v1'')]), w)),
     ht_authorization = returnX None\<rparr>"

definition on_shelf :: "string list \<Rightarrow> string \<Rightarrow> bool" where
  "on_shelf w i \<longleftrightarrow> (\<exists>u \<in> set w. suffix (''/_create/'' @ i) u)"

definition shelf_enricher :: "string list enricher" where
  "shelf_enricher = \<lparr>en_inference = shelf, en_elastic = shelf, en_prims = demo_prims, en_float = (\<lambda>s. Fin 0), en_schema_ok = (\<lambda>s v. True),
     en_schema_sha256 = (\<lambda>s. Some ''h''), en_time = (\<lambda>w. 100), en_clock = (\<lambda>w n. 100), en_now = (\<lambda>w. demo_now), en_local = (\<lambda>t. t)\<rparr>"

lemma shelf_request:
  "snd (request shelf m p b w) = w \<or> snd (request shelf m p b w) = (''https://index'' @ p) # w"
  by (simp add: request_def bindX_def http_send_def shelf_def split: prod.split sum.split)

lemma shelf_create:
  "request shelf ''PUT'' p (Some b) w = (Inl e, w') \<Longrightarrow> \<not> is_conflict e"
  "request shelf ''PUT'' p (Some b) w = (Inr x, w') \<Longrightarrow> w' = (''https://index'' @ p) # w"
  by (auto simp: request_def bindX_def http_send_def shelf_def shelf_reply_def read_reply_def guardR_def split: if_splits)

lemma shelf_contract: "index_contract shelf_enricher on_shelf"
  unfolding index_contract_def
proof (intro conjI ballI allI impI)
  fix h m p b w i assume "h \<in> {en_inference shelf_enricher, en_elastic shelf_enricher}" "on_shelf w i"
  then show "on_shelf (snd (request h m p b w)) i"
    using shelf_request [of m p b w] by (auto simp: shelf_enricher_def on_shelf_def)
next
  fix index i b w
  let ?p = "''/'' @ index @ ''/_create/'' @ i"
  have e: "en_elastic shelf_enricher = shelf" by (simp add: shelf_enricher_def)
  have "suffix (''/_create/'' @ i) (''https://index'' @ ?p)"
    unfolding suffix_def by (intro exI [of _ "''https://index'' @ ''/'' @ index"]) simp
  then have new: "on_shelf ((''https://index'' @ ?p) # w) i" unfolding on_shelf_def by simp
  obtain r w' where r: "request shelf ''PUT'' ?p (Some b) w = (r, w')" by (rule prod.exhaust)
  show "case request (en_elastic shelf_enricher) ''PUT'' ?p (Some b) w of
        (Inl e, w') \<Rightarrow> is_conflict e \<longrightarrow> on_shelf w' i
      | (Inr (status, reply), w') \<Rightarrow> status = 201 \<and> pget reply ''result'' = PStr ''created'' \<longrightarrow> on_shelf w' i"
  proof (cases r)
    case (Inl x)
    have "\<not> is_conflict x" using shelf_create(1) [OF r [unfolded Inl]] .
    then show ?thesis unfolding e r Inl by simp
  next
    case (Inr x)
    have "w' = (''https://index'' @ ?p) # w" using shelf_create(2) [OF r [unfolded Inr]] .
    then show ?thesis using new unfolding e r Inr by (cases x) (simp only: prod.case sum.case, blast)
  qed
qed

definition shelf_outbox :: outbox where
  "shelf_outbox = (let h = replicate 64 CHR ''a'' in \<lparr>ob_jobs = [
     (job_id demo_prims h ''{}'', \<lparr>jb_hash = h, jb_vector = ''{}'', jb_event = Some ''{}'', jb_state = Sent, jb_attempts = 0, jb_next = 0,
        jb_error = None, jb_created = 1, jb_updated = 1\<rparr>)], ob_meta = []\<rparr>)"

lemma shelf_outbox_ok: "outbox_ok demo_prims shelf_outbox"
  "sent_jobs shelf_outbox = {job_id demo_prims (replicate 64 CHR ''a'') ''{}''}"
  by (auto simp: shelf_outbox_def outbox_ok_def job_ok_def sent_jobs_def is_sha256_hex_def list_all_iff Let_def split: if_splits)

theorem sent_only_when_indexed_witness:
  "\<exists>r w' ob'. serve_round shelf_enricher (replicate 64 CHR ''a'') 100
      ([''https://index/soc-ai/_create/'' @ job_id demo_prims (replicate 64 CHR ''a'') ''{}''], shelf_outbox) = Some (r, w', ob') \<and>
    outbox_follows shelf_outbox ob' \<and> sent_stored on_shelf (w', ob')"
proof -
  let ?i = "job_id demo_prims (replicate 64 CHR ''a'') ''{}''"
  have "suffix (''/_create/'' @ ?i) (''https://index/soc-ai/_create/'' @ ?i)"
    unfolding suffix_def by (intro exI [of _ "''https://index/soc-ai''"]) simp
  then have "sent_stored on_shelf ([''https://index/soc-ai/_create/'' @ ?i], shelf_outbox)"
    by (simp add: sent_stored_def shelf_outbox_ok on_shelf_def)
  moreover have "outbox_ok (en_prims shelf_enricher) shelf_outbox" using shelf_outbox_ok by (simp add: shelf_enricher_def)
  ultimately show ?thesis
    using sent_only_when_indexed [OF shelf_contract, of shelf_outbox "[''https://index/soc-ai/_create/'' @ ?i]" "replicate 64 CHR ''a''" 100] by blast
qed

theorem pull_loses_nothing_witness:
  "\<exists>r w' ob'. pull_features shelf_enricher ''endpoint-window-v1'' (replicate 64 CHR ''a'') 100 ([], shelf_outbox) = Some (r, w', ob') \<and>
    outbox_follows shelf_outbox ob'"
proof -
  have "outbox_ok (en_prims shelf_enricher) shelf_outbox" using shelf_outbox_ok by (simp add: shelf_enricher_def)
  from pull_loses_nothing [OF this, of "''endpoint-window-v1''" "replicate 64 CHR ''a''" 100 "[]"] show ?thesis by blast
qed

section \<open>What an event says\<close>

lemma bound_keys:
  assumes "mapR (\<lambda>k. bindR (py_item vector k) (\<lambda>v. Inr (k, v))) ks = Inr kvs"
  shows "kvs = map (\<lambda>k. (k, pget vector k)) ks"
  using assms by (induction ks arbitrary: kvs) (auto simp: bindR_eq_Inr py_item_def split: if_splits)

lemma checked_result_accepts:
  assumes "checked_result vector result metadata_hash = Inr ()"
  shows "pget result ''feature_schema'' = pget vector ''feature_schema'' \<and>
    pget result ''feature_schema_sha256'' = pget vector ''feature_schema_sha256'' \<and>
    pget result ''model_metadata_sha256'' = PStr metadata_hash \<and> is_sha256_hex metadata_hash \<and> sha256_value (pget result ''model_sha256'') \<and>
    pget result ''algorithm'' = PStr ''IsolationForest'' \<and>
    (\<exists>score threshold. number_in (Some 1) (pget result ''score'') = Some score \<and> number_in (Some 1) (pget result ''threshold'') = Some threshold \<and>
       pget result ''is_anomaly'' = PBool (threshold \<le> score))"
  using assms unfolding checked_result_def
  by (auto simp: bindR_eq_Inr py_item_def sha256_value_def split: if_splits option.splits)

lemma number_in_bounds: "number_in (Some u) v = Some r \<Longrightarrow> as_number v = Some (Fin r) \<and> 0 \<le> r \<and> r \<le> u"
  by (auto simp: number_in_def split: option.splits if_splits pyfloat.splits)

text \<open>
  An event that reaches the index is bound to its vector and to the approved model. It carries the
  identity, window and source set of exactly the scored vector, the digest of the metadata that was
  approved when the job was queued, a score and a threshold between 0 and 1, and the verdict that
  follows from them; the model has scored under the schema the vector was built with.
\<close>

theorem anomaly_event_bound:
  assumes "anomaly_event now vector result identifier metadata_hash observer = Inr event"
  shows "pget (pget event ''event'') ''id'' = PStr identifier \<and>
    pget (pget event ''feature_vector'') ''id'' = pget vector ''vector_id'' \<and>
    (\<forall>k \<in> set VECTOR_KEYS. pget (pget event ''feature_vector'') k = pget vector k) \<and>
    pget result ''feature_schema'' = pget vector ''feature_schema'' \<and> pget result ''feature_schema_sha256'' = pget vector ''feature_schema_sha256'' \<and>
    pget (pget event ''ai'') ''model_metadata_sha256'' = PStr metadata_hash \<and> is_sha256_hex metadata_hash \<and>
    (\<exists>score threshold. as_number (pget (pget event ''ai'') ''score'') = Some (Fin score) \<and>
       as_number (pget (pget event ''ai'') ''threshold'') = Some (Fin threshold) \<and>
       0 \<le> score \<and> score \<le> 1 \<and> 0 \<le> threshold \<and> threshold \<le> 1 \<and> pget (pget event ''ai'') ''is_anomaly'' = PBool (threshold \<le> score))"
proof -
  obtain kvs where c: "checked_result vector result metadata_hash = Inr ()"
    and k: "mapR (\<lambda>k. bindR (py_item vector k) (\<lambda>v. Inr (k, v))) VECTOR_KEYS = Inr kvs"
    and e: "event = PDict [
       (''@timestamp'', PStr (utc_text now)), (''schema_version'', PStr ''anomaly-event-v1''),
       (''event'', PDict [(''id'', PStr identifier), (''kind'', PStr ''event''), (''category'', PList [PStr ''anomaly_detection'']),
          (''dataset'', PStr ''soc.ai.anomaly'')]),
       (''observer'', PDict [(''name'', PStr observer), (''type'', PStr ''ai_inference'')]),
       (''feature_vector'', PDict ((''id'', pget vector ''vector_id'') # kvs)),
       (''ai'', PDict (map (\<lambda>k. (k, pget result k)) AI_KEYS))]"
    using assms by (auto simp: anomaly_event_def bindR_eq_Inr py_item_def split: if_splits)
  note r = checked_result_accepts [OF c]
  have fv: "pget (pget event ''feature_vector'') k = pget vector k" if "k \<in> set VECTOR_KEYS" for k
    using that unfolding e bound_keys [OF k] by (auto simp: VECTOR_KEYS_def pget_def)
  have ai: "pget (pget event ''ai'') k = pget result k" if "k \<in> set AI_KEYS" for k
    using that unfolding e by (auto simp: AI_KEYS_def pget_def)
  have "pget (pget event ''event'') ''id'' = PStr identifier" "pget (pget event ''feature_vector'') ''id'' = pget vector ''vector_id''"
    unfolding e by (simp_all add: pget_def)
  moreover have "''score'' \<in> set AI_KEYS" "''threshold'' \<in> set AI_KEYS" "''is_anomaly'' \<in> set AI_KEYS" "''model_metadata_sha256'' \<in> set AI_KEYS"
    by (simp_all add: AI_KEYS_def)
  ultimately show ?thesis using fv r number_in_bounds by (simp add: ai) blast
qed

text \<open>
  Sequence models are served, fed with history and allowed by the event schema, but no result of theirs
  is accepted: whatever the other fields hold, the job goes to the dead letters.
\<close>

lemma sequence_model_refused:
  assumes "pget result ''algorithm'' = PStr ''LSTMAutoencoder''"
  shows "\<exists>e. anomaly_event now vector result identifier metadata_hash observer = Inl e"
proof (cases "anomaly_event now vector result identifier metadata_hash observer")
  case (Inr event)
  then have "checked_result vector result metadata_hash = Inr ()" by (auto simp: anomaly_event_def bindR_eq_Inr)
  from checked_result_accepts [OF this] assms show ?thesis by simp
qed blast

definition demo_vector :: pyval where
  "demo_vector = PDict ((''vector_id'', PStr ''v-1'') # map (\<lambda>k. (k, PStr k)) VECTOR_KEYS)"

definition demo_result :: pyval where
  "demo_result = PDict [(''model_id'', PStr ''if-7''), (''algorithm'', PStr ''IsolationForest''), (''feature_schema'', PStr ''feature_schema''),
     (''feature_schema_sha256'', PStr ''feature_schema_sha256''), (''model_sha256'', PStr (replicate 64 CHR ''b'')),
     (''model_metadata_sha256'', PStr (replicate 64 CHR ''a'')), (''score'', PFloat (Fin (19 / 20))), (''threshold'', PFloat (Fin (1 / 2))),
     (''is_anomaly'', PBool True), (''inference_ms'', PInt 3)]"

theorem anomaly_event_bound_witness:
  "\<exists>event. anomaly_event demo_now demo_vector demo_result ''job-1'' (replicate 64 CHR ''a'') ''soc-ai-inference'' = Inr event \<and>
     pget (pget event ''feature_vector'') ''entity'' = pget demo_vector ''entity'' \<and>
     pget (pget event ''ai'') ''model_metadata_sha256'' = PStr (replicate 64 CHR ''a'')"
proof -
  have "\<not> (case anomaly_event demo_now demo_vector demo_result ''job-1'' (replicate 64 CHR ''a'') ''soc-ai-inference'' of Inl e \<Rightarrow> True | Inr x \<Rightarrow> False)"
    by code_simp
  then obtain event where e: "anomaly_event demo_now demo_vector demo_result ''job-1'' (replicate 64 CHR ''a'') ''soc-ai-inference'' = Inr event"
    by (auto split: sum.splits)
  have "''entity'' \<in> set VECTOR_KEYS" by (simp add: VECTOR_KEYS_def)
  then show ?thesis using anomaly_event_bound [OF e] e by blast
qed

section \<open>Importing a file\<close>

lemma enqueue_queued: "is_sha256_hex h \<Longrightarrow> queued pr h v ob \<Longrightarrow> enqueue pr t v h ob = Inr (False, ob)"
  unfolding queued_def enqueue_def Let_def by (elim exE conjE) simp

lemma enqueue_refused: "enqueue pr t v h ob = Inl e \<Longrightarrow> enqueue pr t' v h ob' = Inl e"
  by (cases "canonical pr v"; cases "is_sha256_hex h") (auto simp: enqueue_def Let_def split: if_splits)

lemma import_lines_follows:
  assumes "outbox_ok (en_prims en) ob"
  shows "outbox_follows ob (snd (import_lines en clock h n lines a d ob))"
  using assms
proof (induction lines arbitrary: n a d ob)
  case (Cons line lines)
  have step: "outbox_ok (en_prims en) ob1 \<and> outbox_follows ob ob1" if "enqueue (en_prims en) (clock n) v h ob = Inr (b, ob1)" for v b ob1
    using enqueue_effect(4) [OF that] outbox_exec_ok [OF Cons.prems] by simp
  show ?case
    using Cons step outbox_follows_trans by (auto split: sum.splits prod.splits) blast+
qed simp

lemma import_lines_again:
  assumes "outbox_ok (en_prims en) ob" "import_lines en clock h n lines a d ob = (r, ob')" "outbox_follows ob' ob2"
  shows "import_lines en clock2 h n lines a2 d2 ob2 = ((case r of Inl e \<Rightarrow> Inl e | Inr (x, y) \<Rightarrow> Inr (a2, d2 + ((x + y) - (a + d)))), ob2) \<and>
    (\<forall>x y. r = Inr (x, y) \<longrightarrow> a + d \<le> x + y)"
  using assms
proof (induction lines arbitrary: n a d ob a2 d2)
  case (Cons line lines)
  show ?case
  proof (cases "strip line = []")
    case True
    then have "import_lines en clock h (Suc n) lines a d ob = (r, ob')" using Cons.prems(2) by simp
    from Cons.IH [OF Cons.prems(1) this Cons.prems(3), of a2 d2] True show ?thesis by simp
  next
    case line: False
    show ?thesis
    proof (cases "import_vector en line")
      case (Inl e)
      then show ?thesis using Cons.prems line by auto
    next
      case v: (Inr v)
      show ?thesis
      proof (cases "enqueue (en_prims en) (clock n) v h ob")
        case (Inl e)
        then show ?thesis using Cons.prems line v enqueue_refused [OF Inl] by auto
      next
        case (Inr p)
        then obtain b ob1 where e: "enqueue (en_prims en) (clock n) v h ob = Inr (b, ob1)" by (cases p) simp
        have hex: "is_sha256_hex h" using e by (auto simp: enqueue_def bindR_eq_Inr)
        have ok1: "outbox_ok (en_prims en) ob1" using enqueue_effect(4) [OF e] outbox_exec_ok [OF Cons.prems(1)] by simp
        let ?a = "if b then Suc a else a" and ?d = "if b then d else Suc d"
        have run: "import_lines en clock h (Suc n) lines ?a ?d ob1 = (r, ob')" using Cons.prems(2) line v e by simp
        have "outbox_follows ob1 ob'" using import_lines_follows [OF ok1, of clock h "Suc n" lines ?a ?d] run by simp
        then have "queued (en_prims en) h v ob2"
          using enqueue_effect(1) [OF e] queued_follows outbox_follows_trans Cons.prems(3) by blast
        then have "enqueue (en_prims en) (clock2 n) v h ob2 = Inr (False, ob2)" by (rule enqueue_queued [OF hex])
        then have "import_lines en clock2 h n (line # lines) a2 d2 ob2 = import_lines en clock2 h (Suc n) lines a2 (Suc d2) ob2"
          using line v by simp
        then show ?thesis
          using Cons.IH [OF ok1 run Cons.prems(3), of a2 "Suc d2"] by (cases b) (auto split: sum.splits)
      qed
    qed
  qed
qed auto

text \<open>
  Importing a file is repeatable. Whether it succeeded or stopped at a bad line, an import keeps every
  job and its result, and running it again on what it left behind changes nothing: the vectors saved
  the first time all count as duplicates, and a bad line is reported again, under the same number.
\<close>

theorem import_repeatable:
  assumes "outbox_ok (en_prims en) ob" "import_command en metadata_hash lines (w, ob) = Some (r, w, ob1)"
  shows "outbox_follows ob ob1 \<and> import_command en metadata_hash lines (w2, ob1)
    = Some (case r of Inl e \<Rightarrow> Inl e | Inr (added, duplicates) \<Rightarrow> Inr (0, added + duplicates), w2, ob1)"
proof -
  have h: "is_sha256_hex metadata_hash" and run: "import_lines en (en_clock en w) metadata_hash 1 lines 0 0 ob = (r, ob1)"
    using assms(2) by (auto simp: import_command_def split: if_splits prod.splits)
  have "outbox_follows ob ob1" using import_lines_follows [OF assms(1), of "en_clock en w" metadata_hash 1 lines 0 0] run by simp
  moreover have "import_lines en (en_clock en w2) metadata_hash 1 lines 0 0 ob1
      = (case r of Inl e \<Rightarrow> Inl e | Inr (added, duplicates) \<Rightarrow> Inr (0, added + duplicates), ob1)"
    using import_lines_again [OF assms(1) run outbox_follows_refl, of "en_clock en w2" 0 0] by (simp split: sum.splits prod.splits)
  ultimately show ?thesis using h by (simp add: import_command_def)
qed

theorem import_repeatable_witness:
  "import_command shelf_enricher (replicate 64 CHR ''a'') ['' '', ''[1]''] ([], empty_outbox)
     = Some (Inl (ValueError ''invalid vector at line 2; source file retained''), [], empty_outbox)"
proof -
  have ok: "outbox_ok (en_prims shelf_enricher) empty_outbox" by (simp add: outbox_ok_def empty_outbox_def)
  have "import_command shelf_enricher (replicate 64 CHR ''a'') ['' '', ''[1]''] ([''x''], empty_outbox)
     = Some (Inl (ValueError ''invalid vector at line 2; source file retained''), [''x''], empty_outbox)"
    by code_simp
  from import_repeatable [OF ok this, of "[]"] show ?thesis by simp
qed

end
