(* ===== verification/Partitions.thy ===== *)
theory Partitions
  imports Features Decision_Runner Json
begin

text \<open>
  \<^verbatim>\<open>ai/training/partitions.py\<close>: the gate that refuses a dataset whose training, validation and test parts
  are not separated in time, by source event and by session. The JSON-schema validator is a parameter,
  files are their contents. Every failure is a \<^verbatim>\<open>ModelProvenanceError\<close>; the description of the cause
  that its text repeats is left out.
\<close>

section \<open>The gate\<close>

record dataset_gate =
  dg_prims :: prims
  dg_float :: "string \<Rightarrow> pyfloat"
  dg_manifest_ok :: "pyval \<Rightarrow> bool"
  dg_schema_ok :: "string \<Rightarrow> pyval \<Rightarrow> bool"
  dg_schema_sha256 :: "string \<Rightarrow> string option"

definition canonical_hash :: "prims \<Rightarrow> pyval \<Rightarrow> string res" where
  "canonical_hash pr v = (if json_finite v then Inr (sha256_hex pr v) else Inl (ValueError ''Out of range float values are not JSON compliant''))"

definition aware_timestamp :: "pyval \<Rightarrow> int res" where
  "aware_timestamp v = (case v of
     PStr s \<Rightarrow> (case fromisoformat (replace_Z s) of
         None \<Rightarrow> Inl (ValueError ''Invalid isoformat string'')
       | Some (Naive t) \<Rightarrow> Inl (ValueError ''timestamp must include timezone'')
       | Some (Aware t) \<Rightarrow> Inr t)
   | _ \<Rightarrow> Inl (AttributeErr ''replace''))"

definition PARTITIONS :: "string list" where
  "PARTITIONS = [''train'', ''validation'', ''test'']"

text \<open>\<^verbatim>\<open>for identifier in identifiers: held.setdefault(identifier, name)\<close>.\<close>

fun own_all :: "string \<Rightarrow> string list \<Rightarrow> string dict \<Rightarrow> string dict res" where
  "own_all name [] held = Inr held"
| "own_all name (i # is) held = (case dict_get held i of
     None \<Rightarrow> own_all name is (dict_set i name held)
   | Some n \<Rightarrow> if n \<noteq> name then Inl (ValueError ''source/session leakage across partitions'') else own_all name is held)"

definition identifier_list :: "pyval \<Rightarrow> string list res" where
  "identifier_list v = (case v of
     PList vs \<Rightarrow> (if vs = [] \<or> list_ex (\<lambda>x. \<not> nonempty_str x) vs \<or> \<not> distinct vs
       then Inl (ValueError ''membership IDs must be nonempty unique strings'') else Inr (map (the \<circ> as_str) vs))
   | _ \<Rightarrow> Inl (ValueError ''membership IDs must be nonempty unique strings''))"

record membership_state =
  ms_seen :: "(pyval \<times> int \<times> int) list"
  ms_sessions :: "string list"
  ms_source_owners :: "string dict"
  ms_session_owners :: "string dict"

definition vector_window :: "pyval \<Rightarrow> (int \<times> int) res" where
  "vector_window vector =
     bindR (bindR (py_item vector ''window_start'') aware_timestamp) (\<lambda>start.
     bindR (bindR (py_item vector ''window_end'') aware_timestamp) (\<lambda>stop. Inr (start, stop)))"

definition check_owners :: "prims \<Rightarrow> string \<Rightarrow> pyval \<Rightarrow> pyval \<Rightarrow> membership_state \<Rightarrow> membership_state res" where
  "check_owners pr name vector member s =
     bindR (identifier_list (pget member ''source_event_ids'')) (\<lambda>sources.
     bindR (own_all name sources (ms_source_owners s)) (\<lambda>source_owners.
     bindR (identifier_list (pget member ''session_ids'')) (\<lambda>sessions.
     bindR (own_all name sessions (ms_session_owners s)) (\<lambda>session_owners.
     bindR (py_item vector ''source_event_set_sha256'') (\<lambda>source_digest.
     bindR (guardR (PStr (sha256_hexdigest pr (join_with [CHR 0x0A] (sort sources))) = source_digest)
       (ValueError ''source membership differs from vector provenance'')) (\<lambda>_.
     Inr (s\<lparr>ms_sessions := ms_sessions s @ sessions, ms_source_owners := source_owners, ms_session_owners := session_owners\<rparr>)))))))"

definition check_member :: "dataset_gate \<Rightarrow> pyval \<Rightarrow> string \<Rightarrow> int \<Rightarrow> int \<Rightarrow> pyval \<Rightarrow> pyval \<Rightarrow> membership_state \<Rightarrow> membership_state res" where
  "check_member dg manifest name start stop vector member s =
     bindR (validate_vector (dg_prims dg) (dg_schema_ok dg) (dg_schema_sha256 dg) vector) (\<lambda>_.
     bindR (py_item vector ''feature_schema'') (\<lambda>schema.
     bindR (py_item manifest ''feature_schema'') (\<lambda>common.
     bindR (guardR (schema = common) (ValueError ''mixed feature schemas'')) (\<lambda>_.
     bindR (vector_window vector) (\<lambda>(window_start, window_end).
     bindR (guardR (start \<le> window_start \<and> window_start < window_end \<and> window_end \<le> stop) (ValueError ''vector crosses its temporal partition'')) (\<lambda>_.
     bindR (py_item vector ''entity'') (\<lambda>entity.
     bindR (guardR (\<not> is_list entity \<and> \<not> is_mapping entity) (TypeErr ''unhashable type'')) (\<lambda>_.
     bindR (guardR ((entity, window_start, window_end) \<notin> set (ms_seen s)) (ValueError ''duplicate entity/window vector'')) (\<lambda>_.
     bindR (guardR (exact_keys member [''vector_sha256'', ''source_event_ids'', ''session_ids'']) (ValueError ''invalid membership fields'')) (\<lambda>_.
     bindR (canonical_hash (dg_prims dg) vector) (\<lambda>digest.
     bindR (guardR (pget member ''vector_sha256'' = PStr digest) (ValueError ''membership is not bound to vector'')) (\<lambda>_.
     check_owners (dg_prims dg) name vector member (s\<lparr>ms_seen := (entity, window_start, window_end) # ms_seen s\<rparr>)))))))))))))"

fun check_members :: "dataset_gate \<Rightarrow> pyval \<Rightarrow> string \<Rightarrow> int \<Rightarrow> int \<Rightarrow> (pyval \<times> pyval) list \<Rightarrow> membership_state \<Rightarrow> membership_state res" where
  "check_members dg manifest name start stop [] s = Inr s"
| "check_members dg manifest name start stop ((vector, member) # rest) s =
     bindR (check_member dg manifest name start stop vector member s) (check_members dg manifest name start stop rest)"

text \<open>What \<^verbatim>\<open>len\<close> and iteration see of a JSON value.\<close>

definition iter_items :: "pyval \<Rightarrow> pyval list res" where
  "iter_items v = (case v of PList vs \<Rightarrow> Inr vs | PDict kvs \<Rightarrow> Inr (map (PStr \<circ> fst) kvs) | PStr s \<Rightarrow> Inr (map (\<lambda>c. PStr [c]) s)
     | _ \<Rightarrow> Inl (TypeErr ''object is not iterable''))"

record gate_state =
  gs_previous_end :: int
  gs_source_owners :: "string dict"
  gs_session_owners :: "string dict"

definition partition_bounds :: "pyval \<Rightarrow> string \<Rightarrow> (pyval \<times> int \<times> int) res" where
  "partition_bounds manifest name =
     bindR (bindR (py_item manifest ''split'') (\<lambda>split. py_item split name)) (\<lambda>bounds.
     bindR (bindR (py_item bounds ''start'') aware_timestamp) (\<lambda>start.
     bindR (bindR (py_item bounds ''end'') aware_timestamp) (\<lambda>stop. Inr (bounds, start, stop))))"

definition partition_ledger :: "dataset_gate \<Rightarrow> (string \<Rightarrow> string option) \<Rightarrow> pyval \<Rightarrow> string \<Rightarrow> pyval list res" where
  "partition_ledger dg files partitions name =
     bindR (py_item partitions name) (\<lambda>part.
     bindR (guardR (exact_keys part [''vectors_sha256'', ''memberships'']) (ValueError ''invalid partition ledger fields'')) (\<lambda>_.
     bindR (case files name of None \<Rightarrow> Inl OSErr | Some bytes \<Rightarrow> Inr (sha256_hexdigest (dg_prims dg) bytes)) (\<lambda>digest.
     bindR (guardR (PStr digest = pget part ''vectors_sha256'') (ValueError ''vector file digest mismatch'')) (\<lambda>_.
     iter_items (pget part ''memberships'')))))"

definition check_partition :: "dataset_gate \<Rightarrow> pyval \<Rightarrow> (string \<Rightarrow> pyval list) \<Rightarrow> (string \<Rightarrow> string option) \<Rightarrow> pyval \<Rightarrow> int \<Rightarrow> string \<Rightarrow> gate_state \<Rightarrow> gate_state res" where
  "check_partition dg manifest vectors files partitions outer_end name g =
     bindR (partition_bounds manifest name) (\<lambda>(bounds, start, stop).
     bindR (guardR (gs_previous_end g \<le> start \<and> start < stop \<and> stop \<le> outer_end)
       (ValueError ''partitions must be ordered, nonoverlapping and within dataset bounds'')) (\<lambda>_.
     bindR (if name = ''train'' then bindR (py_item bounds ''label_profile'') (\<lambda>profile.
         guardR (profile = PStr ''benign_biased'') (ValueError ''training must use the benign-biased partition'')) else Inr ()) (\<lambda>_.
     bindR (partition_ledger dg files partitions name) (\<lambda>members.
     bindR (py_item bounds ''vector_count'') (\<lambda>vector_count.
     bindR (guardR (eq_int vector_count (int (length (vectors name))) \<and> length (vectors name) = length members) (ValueError ''vector count mismatch'')) (\<lambda>_.
     bindR (check_members dg manifest name start stop (zip (vectors name) members)
       \<lparr>ms_seen = [], ms_sessions = [], ms_source_owners = gs_source_owners g, ms_session_owners = gs_session_owners g\<rparr>) (\<lambda>s.
     bindR (canonical_hash (dg_prims dg) (PList (map PStr (sort (remdups (ms_sessions s)))))) (\<lambda>digest.
     bindR (py_item bounds ''session_ids_sha256'') (\<lambda>expected.
     bindR (guardR (PStr digest = expected) (ValueError ''partition session digest mismatch'')) (\<lambda>_.
     Inr \<lparr>gs_previous_end = stop, gs_source_owners = ms_source_owners s, gs_session_owners = ms_session_owners s\<rparr>))))))))))"

fun check_partitions :: "dataset_gate \<Rightarrow> pyval \<Rightarrow> (string \<Rightarrow> pyval list) \<Rightarrow> (string \<Rightarrow> string option) \<Rightarrow> pyval \<Rightarrow> int \<Rightarrow> string list \<Rightarrow> gate_state \<Rightarrow> gate_state res" where
  "check_partitions dg manifest vectors files partitions outer_end [] g = Inr g"
| "check_partitions dg manifest vectors files partitions outer_end (name # names) g =
     bindR (check_partition dg manifest vectors files partitions outer_end name g)
       (check_partitions dg manifest vectors files partitions outer_end names)"

definition load_ledger :: "dataset_gate \<Rightarrow> pyval \<Rightarrow> string option \<Rightarrow> pyval res" where
  "load_ledger dg manifest assignment =
     bindR (case assignment of None \<Rightarrow> Inl OSErr | Some bytes \<Rightarrow> Inr bytes) (\<lambda>bytes.
     bindR (bindR (py_item manifest ''split'') (\<lambda>split. py_item split ''session_assignment_sha256'')) (\<lambda>expected.
     bindR (guardR (PStr (sha256_hexdigest (dg_prims dg) bytes) = expected) (ValueError ''session assignment digest mismatch'')) (\<lambda>_.
     bindR (json_loads (dg_float dg) bytes) (\<lambda>ledger.
     bindR (guardR (exact_keys ledger [''schema_version'', ''partitions''] \<and> pget ledger ''schema_version'' = PStr ''partition-membership-v1'')
       (ValueError ''unsupported membership ledger'')) (\<lambda>_.
     bindR (guardR (exact_keys (pget ledger ''partitions'') PARTITIONS) (ValueError ''all three partitions are required'')) (\<lambda>_.
     Inr (pget ledger ''partitions'')))))))"

fun refused_cause :: "exn \<Rightarrow> bool" where
  "refused_cause (ValueError m) = True"
| "refused_cause (FeatureSchema m) = True"
| "refused_cause (TypeErr m) = True"
| "refused_cause (KeyErr m) = True"
| "refused_cause OSErr = True"
| "refused_cause _ = False"

definition gate_checks :: "dataset_gate \<Rightarrow> pyval \<Rightarrow> (string \<Rightarrow> pyval list) \<Rightarrow> (string \<Rightarrow> string option) \<Rightarrow> string option \<Rightarrow> gate_state res" where
  "gate_checks dg manifest vectors files assignment =
     bindR (load_ledger dg manifest assignment) (\<lambda>partitions.
     bindR (py_item manifest ''time_range'') (\<lambda>range.
     bindR (bindR (py_item range ''start'') aware_timestamp) (\<lambda>outer_start.
     bindR (bindR (py_item range ''end'') aware_timestamp) (\<lambda>outer_end.
     check_partitions dg manifest vectors files partitions outer_end PARTITIONS
       \<lparr>gs_previous_end = outer_start, gs_source_owners = [], gs_session_owners = []\<rparr>))))"

definition validate_partitions :: "dataset_gate \<Rightarrow> pyval \<Rightarrow> (string \<Rightarrow> pyval list) \<Rightarrow> (string \<Rightarrow> string option) \<Rightarrow> string option \<Rightarrow> unit res" where
  "validate_partitions dg manifest vectors files assignment =
     (if \<not> dg_manifest_ok dg manifest then Inl (ModelProvenance ''dataset partition schema validation refused'')
      else (case gate_checks dg manifest vectors files assignment of
          Inr g \<Rightarrow> Inr ()
        | Inl e \<Rightarrow> Inl (ModelProvenance (if refused_cause e then ''dataset partition validation refused''
            else ''dataset partition schema validation refused''))))"

section \<open>What the gate lets through\<close>

definition ids_at :: "string \<Rightarrow> pyval \<Rightarrow> string set" where
  "ids_at field member = {i. PStr i \<in> set (elements (pget member field))}"

text \<open>A vector inside its partition, bound to its entry of the ledger.\<close>

definition inside :: "int \<times> int \<Rightarrow> pyval \<Rightarrow> bool" where
  "inside sp vector \<longleftrightarrow> (\<exists>start stop. vector_window vector = Inr (start, stop) \<and> fst sp \<le> start \<and> start < stop \<and> stop \<le> snd sp)"

definition bound_to :: "prims \<Rightarrow> pyval \<Rightarrow> pyval \<Rightarrow> bool" where
  "bound_to pr vector member \<longleftrightarrow> pget member ''vector_sha256'' = PStr (sha256_hex pr vector) \<and>
     (\<exists>sources. set sources = ids_at ''source_event_ids'' member \<and>
        pget vector ''source_event_set_sha256'' = PStr (sha256_hexdigest pr (join_with [CHR 0x0A] (sort sources))))"

definition valid_in :: "dataset_gate \<Rightarrow> pyval \<Rightarrow> bool" where
  "valid_in dg vector \<longleftrightarrow> validate_vector (dg_prims dg) (dg_schema_ok dg) (dg_schema_sha256 dg) vector = Inr ()"

definition kept :: "string dict \<Rightarrow> string dict \<Rightarrow> bool" where
  "kept d d' \<longleftrightarrow> (\<forall>i n. dict_get d i = Some n \<longrightarrow> dict_get d' i = Some n)"

definition owned :: "string \<Rightarrow> string \<Rightarrow> pyval \<Rightarrow> string dict \<Rightarrow> bool" where
  "owned field name member d \<longleftrightarrow> (\<forall>i \<in> ids_at field member. dict_get d i = Some name)"

lemma kept_trans: "kept a b \<Longrightarrow> kept b c \<Longrightarrow> kept a c"
  by (simp add: kept_def)

lemma kept_refl [simp]: "kept a a"
  by (simp add: kept_def)

lemma owned_kept: "owned field name member d \<Longrightarrow> kept d d' \<Longrightarrow> owned field name member d'"
  by (simp add: owned_def kept_def)

lemma own_all_owned:
  "own_all name ids d = Inr d' \<Longrightarrow> kept d d' \<and> (\<forall>i \<in> set ids. dict_get d' i = Some name)"
proof (induction ids arbitrary: d)
  case (Cons i ids)
  show ?case
  proof (cases "dict_get d i")
    case None
    then have "own_all name ids (dict_set i name d) = Inr d'" using Cons.prems by (simp del: dict_get_None_iff)
    note ih = Cons.IH [OF this]
    have "kept d (dict_set i name d)" using None by (simp add: kept_def del: dict_get_None_iff)
    then show ?thesis using ih kept_trans by (auto simp: kept_def)
  next
    case (Some n)
    then have "n = name" "own_all name ids d = Inr d'" using Cons.prems by (auto split: if_splits)
    then show ?thesis using Cons.IH Some by (auto simp: kept_def)
  qed
qed simp

lemma identifier_list_ids: "identifier_list (pget member field) = Inr ids \<Longrightarrow> set ids = ids_at field member"
proof -
  assume a: "identifier_list (pget member field) = Inr ids"
  then obtain vs where vs: "pget member field = PList vs" "\<forall>x \<in> set vs. nonempty_str x" "ids = map (the \<circ> as_str) vs"
    by (auto simp: identifier_list_def list_ex_iff split: pyval.splits if_splits)
  have "\<exists>s. x = PStr s" if "x \<in> set vs" for x using vs(2) that by (cases x) (auto simp: nonempty_str_def)
  then show ?thesis using vs by (force simp: ids_at_def)
qed

text \<open>What one accepted member adds.\<close>

definition accepted_member :: "dataset_gate \<Rightarrow> string \<Rightarrow> int \<times> int \<Rightarrow> pyval \<Rightarrow> pyval \<Rightarrow> membership_state \<Rightarrow> bool" where
  "accepted_member dg name sp vector member s \<longleftrightarrow> valid_in dg vector \<and> inside sp vector \<and> bound_to (dg_prims dg) vector member \<and>
     owned ''source_event_ids'' name member (ms_source_owners s) \<and> owned ''session_ids'' name member (ms_session_owners s)"

definition owners_kept :: "membership_state \<Rightarrow> membership_state \<Rightarrow> bool" where
  "owners_kept s s' \<longleftrightarrow> kept (ms_source_owners s) (ms_source_owners s') \<and> kept (ms_session_owners s) (ms_session_owners s')"

lemma check_owners_accepts:
  assumes "check_owners pr name vector member s = Inr s'"
  shows "owners_kept s s' \<and> owned ''source_event_ids'' name member (ms_source_owners s') \<and> owned ''session_ids'' name member (ms_session_owners s') \<and>
    (\<exists>sources. set sources = ids_at ''source_event_ids'' member \<and>
       pget vector ''source_event_set_sha256'' = PStr (sha256_hexdigest pr (join_with [CHR 0x0A] (sort sources))))"
proof -
  obtain sources sessions so te where
    1: "identifier_list (pget member ''source_event_ids'') = Inr sources" "own_all name sources (ms_source_owners s) = Inr so"
       "identifier_list (pget member ''session_ids'') = Inr sessions" "own_all name sessions (ms_session_owners s) = Inr te"
    and 2: "py_item vector ''source_event_set_sha256'' = Inr (PStr (sha256_hexdigest pr (join_with [CHR 0x0A] (sort sources))))"
    and 3: "s' = s\<lparr>ms_sessions := ms_sessions s @ sessions, ms_source_owners := so, ms_session_owners := te\<rparr>"
    using assms by (auto simp: check_owners_def bindR_eq_Inr)
  have "pget vector ''source_event_set_sha256'' = PStr (sha256_hexdigest pr (join_with [CHR 0x0A] (sort sources)))"
    using 2 by (auto simp: py_item_def split: if_splits)
  then show ?thesis
    using own_all_owned [OF 1(2)] own_all_owned [OF 1(4)] identifier_list_ids [OF 1(1)] identifier_list_ids [OF 1(3)] 3
    by (auto simp: owners_kept_def owned_def)
qed

lemma check_member_accepts:
  assumes "check_member dg manifest name start stop vector member s = Inr s'"
  shows "owners_kept s s' \<and> accepted_member dg name (start, stop) vector member s'"
proof -
  obtain schema ws we entity digest where
    1: "validate_vector (dg_prims dg) (dg_schema_ok dg) (dg_schema_sha256 dg) vector = Inr ()" "vector_window vector = Inr (ws, we)"
       "start \<le> ws" "ws < we" "we \<le> stop" "canonical_hash (dg_prims dg) vector = Inr digest" "pget member ''vector_sha256'' = PStr digest"
    and 2: "check_owners (dg_prims dg) name vector member (s\<lparr>ms_seen := (entity, ws, we) # ms_seen s\<rparr>) = Inr s'"
    using assms unfolding check_member_def by (auto simp: bindR_eq_Inr)
  have "digest = sha256_hex (dg_prims dg) vector" using 1(6) by (auto simp: canonical_hash_def split: if_splits)
  then show ?thesis
    using 1 check_owners_accepts [OF 2] by (auto simp: accepted_member_def inside_def bound_to_def valid_in_def owners_kept_def)
qed

lemma check_members_accepts:
  "check_members dg manifest name start stop pairs s = Inr s' \<Longrightarrow>
     owners_kept s s' \<and> (\<forall>(vector, member) \<in> set pairs. accepted_member dg name (start, stop) vector member s')"
proof (induction pairs arbitrary: s)
  case (Cons p pairs)
  obtain vector member where p: "p = (vector, member)" by fastforce
  obtain s1 where s1: "check_member dg manifest name start stop vector member s = Inr s1"
    "check_members dg manifest name start stop pairs s1 = Inr s'" using Cons.prems p by (auto simp: bindR_eq_Inr)
  note a = check_member_accepts [OF s1(1)] and b = Cons.IH [OF s1(2)]
  have "accepted_member dg name (start, stop) vector member s'"
    using a b owned_kept unfolding accepted_member_def owners_kept_def by blast
  then show ?case using a b p kept_trans unfolding owners_kept_def by auto
qed (simp add: owners_kept_def)

text \<open>One partition: its interval, its members, and that every identifier of theirs is owned by it.\<close>

definition accepted_part :: "dataset_gate \<Rightarrow> pyval \<Rightarrow> (string \<Rightarrow> pyval list) \<Rightarrow> string \<Rightarrow> int \<times> int \<Rightarrow> pyval list \<Rightarrow> gate_state \<Rightarrow> bool" where
  "accepted_part dg manifest vectors name sp members g \<longleftrightarrow> (\<exists>bounds. partition_bounds manifest name = Inr (bounds, sp)) \<and> fst sp < snd sp \<and>
     length (vectors name) = length members \<and>
     (\<forall>(vector, member) \<in> set (zip (vectors name) members). valid_in dg vector \<and> inside sp vector \<and> bound_to (dg_prims dg) vector member) \<and>
     (\<forall>member \<in> set members. owned ''source_event_ids'' name member (gs_source_owners g) \<and> owned ''session_ids'' name member (gs_session_owners g))"

definition gate_kept :: "gate_state \<Rightarrow> gate_state \<Rightarrow> bool" where
  "gate_kept g g' \<longleftrightarrow> kept (gs_source_owners g) (gs_source_owners g') \<and> kept (gs_session_owners g) (gs_session_owners g')"

lemma accepted_part_kept: "accepted_part dg manifest vectors name sp members g \<Longrightarrow> gate_kept g g' \<Longrightarrow> accepted_part dg manifest vectors name sp members g'"
  unfolding accepted_part_def gate_kept_def using owned_kept by blast

lemma check_partition_accepts:
  assumes "check_partition dg manifest vectors files partitions outer_end name g = Inr g'"
  shows "\<exists>sp members. accepted_part dg manifest vectors name sp members g' \<and> gate_kept g g' \<and>
    gs_previous_end g \<le> fst sp \<and> gs_previous_end g' = snd sp \<and> snd sp \<le> outer_end \<and>
    partition_ledger dg files partitions name = Inr members"
proof -
  obtain bounds start stop members s where
    1: "partition_bounds manifest name = Inr (bounds, start, stop)" "gs_previous_end g \<le> start" "start < stop" "stop \<le> outer_end"
       "partition_ledger dg files partitions name = Inr members" "length (vectors name) = length members"
    and 2: "check_members dg manifest name start stop (zip (vectors name) members)
       \<lparr>ms_seen = [], ms_sessions = [], ms_source_owners = gs_source_owners g, ms_session_owners = gs_session_owners g\<rparr> = Inr s"
    and 3: "g' = \<lparr>gs_previous_end = stop, gs_source_owners = ms_source_owners s, gs_session_owners = ms_session_owners s\<rparr>"
    using assms unfolding check_partition_def by (auto simp: bindR_eq_Inr)
  note a = check_members_accepts [OF 2]
  have "\<exists>vector. (vector, member) \<in> set (zip (vectors name) members)" if "member \<in> set members" for member
    using that 1(6) by (metis in_set_impl_in_set_zip2)
  then have "accepted_part dg manifest vectors name (start, stop) members g'"
    using 1 3 a unfolding accepted_part_def accepted_member_def by fastforce
  moreover have "gate_kept g g'" using a 3 by (simp add: gate_kept_def owners_kept_def)
  ultimately show ?thesis using 1 3 by (intro exI [of _ "(start, stop)"] exI [of _ members]) simp
qed

text \<open>
  C39. A dataset that passes the gate is separated. Its three parts lie in consecutive intervals of time
  that do not overlap, every vector of a part is valid, lies inside that part's interval and is bound by
  digest to its entry of the membership ledger and to its source events, and no source event and no
  session occurs in two different parts.
\<close>

theorem partitions_isolated:
  assumes "validate_partitions dg manifest vectors files assignment = Inr ()"
  shows "\<exists>partitions sp members. load_ledger dg manifest assignment = Inr partitions \<and>
    (\<forall>name \<in> set PARTITIONS. partition_ledger dg files partitions name = Inr (members name) \<and>
       (\<exists>bounds. partition_bounds manifest name = Inr (bounds, sp name)) \<and> fst (sp name) < snd (sp name) \<and>
       length (vectors name) = length (members name) \<and>
       (\<forall>(vector, member) \<in> set (zip (vectors name) (members name)).
          valid_in dg vector \<and> inside (sp name) vector \<and> bound_to (dg_prims dg) vector member)) \<and>
    snd (sp ''train'') \<le> fst (sp ''validation'') \<and> snd (sp ''validation'') \<le> fst (sp ''test'') \<and>
    (\<forall>a \<in> set PARTITIONS. \<forall>b \<in> set PARTITIONS. a \<noteq> b \<longrightarrow> (\<forall>m \<in> set (members a). \<forall>n \<in> set (members b).
       ids_at ''source_event_ids'' m \<inter> ids_at ''source_event_ids'' n = {} \<and> ids_at ''session_ids'' m \<inter> ids_at ''session_ids'' n = {}))"
proof -
  obtain g where g: "gate_checks dg manifest vectors files assignment = Inr g"
    using assms by (auto simp: validate_partitions_def split: if_splits sum.splits)
  then obtain partitions outer_start outer_end where l: "load_ledger dg manifest assignment = Inr partitions"
    and c: "check_partitions dg manifest vectors files partitions outer_end PARTITIONS
       \<lparr>gs_previous_end = outer_start, gs_source_owners = [], gs_session_owners = []\<rparr> = Inr g"
    by (auto simp: gate_checks_def bindR_eq_Inr)
  let ?check = "check_partition dg manifest vectors files partitions outer_end"
  obtain g1 g2 where s: "?check ''train'' \<lparr>gs_previous_end = outer_start, gs_source_owners = [], gs_session_owners = []\<rparr> = Inr g1"
    "?check ''validation'' g1 = Inr g2" "?check ''test'' g2 = Inr g" using c by (auto simp: PARTITIONS_def bindR_eq_Inr)
  note part = check_partition_accepts
  obtain p1 m1 where 1: "accepted_part dg manifest vectors ''train'' p1 m1 g1" "gs_previous_end g1 = snd p1"
    "partition_ledger dg files partitions ''train'' = Inr m1" using part [OF s(1)] by blast
  obtain p2 m2 where 2: "accepted_part dg manifest vectors ''validation'' p2 m2 g2" "gate_kept g1 g2" "gs_previous_end g1 \<le> fst p2"
    "gs_previous_end g2 = snd p2" "partition_ledger dg files partitions ''validation'' = Inr m2" using part [OF s(2)] by blast
  obtain p3 m3 where 3: "accepted_part dg manifest vectors ''test'' p3 m3 g" "gate_kept g2 g" "gs_previous_end g2 \<le> fst p3"
    "partition_ledger dg files partitions ''test'' = Inr m3" using part [OF s(3)] by blast
  define sp where "sp = (\<lambda>n. if n = ''train'' then p1 else if n = ''validation'' then p2 else p3)"
  define ms where "ms = (\<lambda>n. if n = ''train'' then m1 else if n = ''validation'' then m2 else m3)"
  have v: "sp ''train'' = p1" "sp ''validation'' = p2" "sp ''test'' = p3" "ms ''train'' = m1" "ms ''validation'' = m2" "ms ''test'' = m3"
    by (simp_all add: sp_def ms_def)
  have "accepted_part dg manifest vectors ''validation'' p2 m2 g" using accepted_part_kept [OF 2(1) 3(2)] .
  moreover have "accepted_part dg manifest vectors ''train'' p1 m1 g" using accepted_part_kept [OF accepted_part_kept [OF 1(1) 2(2)] 3(2)] .
  ultimately have a: "accepted_part dg manifest vectors name (sp name) (ms name) g \<and> partition_ledger dg files partitions name = Inr (ms name)"
    if "name \<in> set PARTITIONS" for name
    using that 1(3) 2(5) 3(1,4) v unfolding PARTITIONS_def list.set by blast
  have apart: "ids_at ''source_event_ids'' m \<inter> ids_at ''source_event_ids'' n = {} \<and> ids_at ''session_ids'' m \<inter> ids_at ''session_ids'' n = {}"
    if "x \<in> set PARTITIONS" "y \<in> set PARTITIONS" "x \<noteq> y" "m \<in> set (ms x)" "n \<in> set (ms y)" for x y m n
  proof -
    have "owned f x m d \<and> owned f y n d" if "(f, d) = (''source_event_ids'', gs_source_owners g) \<or> (f, d) = (''session_ids'', gs_session_owners g)" for f d
      using a [OF \<open>x \<in> set PARTITIONS\<close>] a [OF \<open>y \<in> set PARTITIONS\<close>] \<open>m \<in> set (ms x)\<close> \<open>n \<in> set (ms y)\<close> that unfolding accepted_part_def by blast
    then show ?thesis using \<open>x \<noteq> y\<close> unfolding owned_def by force
  qed
  have "snd (sp ''train'') \<le> fst (sp ''validation'')" "snd (sp ''validation'') \<le> fst (sp ''test'')" using 1(2) 2(3,4) 3(3) v by simp_all
  then show ?thesis
    using l a apart unfolding accepted_part_def by (intro exI [of _ partitions] exI [of _ sp] exI [of _ ms]) blast
qed

text \<open>A small dataset that passes: one vector per part, with digests of length one.\<close>

definition mini_prims :: prims where
  "mini_prims = \<lparr>sha256_hexdigest = (\<lambda>s. ''d''), float_repr = (\<lambda>r. ''0.5'')\<rparr>"

definition mini_gate :: dataset_gate where
  "mini_gate = \<lparr>dg_prims = mini_prims, dg_float = (\<lambda>s. Fin (1 / 2)), dg_manifest_ok = is_mapping, dg_schema_ok = (\<lambda>s v. True), dg_schema_sha256 = (\<lambda>s. Some ''h'')\<rparr>"

definition mini_hours :: "string \<Rightarrow> string \<times> string" where
  "mini_hours name = (if name = ''train'' then (''09'', ''10'') else if name = ''validation'' then (''10'', ''11'') else (''11'', ''12''))"

definition mini_time :: "string \<Rightarrow> string \<Rightarrow> pyval" where
  "mini_time hour minute = PStr (''2026-01-05T'' @ hour @ '':'' @ minute @ '':00Z'')"

definition mini_vector :: "string \<Rightarrow> pyval" where
  "mini_vector name = PDict [(''feature_schema'', PStr ''endpoint-window-v1''), (''feature_schema_sha256'', PStr ''h''), (''entity'', PStr ''db''),
     (''window_start'', mini_time (fst (mini_hours name)) ''05''), (''window_end'', mini_time (fst (mini_hours name)) ''10''),
     (''source_event_set_sha256'', PStr ''d''), (''features'', PDict (map (\<lambda>k. (k, PInt 1)) ENDPOINT_FEATURES))]"

definition mini_member :: "string \<Rightarrow> pyval" where
  "mini_member name = PDict [(''session_ids'', PList [PStr (''s-'' @ name)]), (''source_event_ids'', PList [PStr (''e-'' @ name)]), (''vector_sha256'', PStr ''d'')]"

definition mini_partitions :: pyval where
  "mini_partitions = PDict (map (\<lambda>name. (name, PDict [(''memberships'', PList [mini_member name]), (''vectors_sha256'', PStr ''d'')]))
     [''test'', ''train'', ''validation''])"

definition mini_ledger :: pyval where
  "mini_ledger = PDict [(''partitions'', mini_partitions), (''schema_version'', PStr ''partition-membership-v1'')]"

definition mini_bounds :: "string \<Rightarrow> pyval" where
  "mini_bounds name = PDict [(''start'', mini_time (fst (mini_hours name)) ''00''), (''end'', mini_time (snd (mini_hours name)) ''00''),
     (''vector_count'', PInt 1), (''session_ids_sha256'', PStr ''d''), (''label_profile'', PStr ''benign_biased'')]"

definition mini_manifest :: pyval where
  "mini_manifest = PDict [(''feature_schema'', PStr ''endpoint-window-v1''),
     (''time_range'', PDict [(''start'', mini_time ''09'' ''00''), (''end'', mini_time ''12'' ''00'')]),
     (''split'', PDict ((''session_assignment_sha256'', PStr ''d'') # map (\<lambda>name. (name, mini_bounds name)) PARTITIONS))]"

definition mini_lo :: "string \<Rightarrow> int" where
  "mini_lo name = (case aware_timestamp (mini_time (fst (mini_hours name)) ''00'') of Inr t \<Rightarrow> t | Inl e \<Rightarrow> 0)"

definition mini_hi :: "string \<Rightarrow> int" where
  "mini_hi name = (case aware_timestamp (mini_time (snd (mini_hours name)) ''00'') of Inr t \<Rightarrow> t | Inl e \<Rightarrow> 0)"

lemma mini_hash: "json_finite v \<Longrightarrow> canonical_hash mini_prims v = Inr ''d''"
  by (simp add: canonical_hash_def sha256_hex_def mini_prims_def)

lemma mini_facts:
  assumes "name \<in> set PARTITIONS"
  shows "validate_vector mini_prims (\<lambda>s v. True) (\<lambda>s. Some ''h'') (mini_vector name) = Inr ()"
    "vector_window (mini_vector name) = Inr (mini_lo name + FIVE_MINUTES, mini_lo name + 2 * FIVE_MINUTES)"
    "mini_lo name + 2 * FIVE_MINUTES \<le> mini_hi name" "partition_bounds mini_manifest name = Inr (mini_bounds name, mini_lo name, mini_hi name)"
    "partition_ledger mini_gate (\<lambda>n. Some ''x'') mini_partitions name = Inr [mini_member name]" "json_finite (mini_vector name)"
proof -
  have f1: "list_all (\<lambda>name. validate_vector mini_prims (\<lambda>s v. True) (\<lambda>s. Some ''h'') (mini_vector name) = Inr ()) PARTITIONS" by code_simp
  have f2: "list_all (\<lambda>name. vector_window (mini_vector name) = Inr (mini_lo name + FIVE_MINUTES, mini_lo name + 2 * FIVE_MINUTES)) PARTITIONS" by code_simp
  have f3: "list_all (\<lambda>name. mini_lo name + 2 * FIVE_MINUTES \<le> mini_hi name) PARTITIONS" by code_simp
  have f4: "list_all (\<lambda>name. partition_bounds mini_manifest name = Inr (mini_bounds name, mini_lo name, mini_hi name)) PARTITIONS" by code_simp
  have f5: "list_all (\<lambda>name. partition_ledger mini_gate (\<lambda>n. Some ''x'') mini_partitions name = Inr [mini_member name]) PARTITIONS" by code_simp
  have f6: "list_all (\<lambda>name. json_finite (mini_vector name)) PARTITIONS" by code_simp
  show "validate_vector mini_prims (\<lambda>s v. True) (\<lambda>s. Some ''h'') (mini_vector name) = Inr ()"
    "vector_window (mini_vector name) = Inr (mini_lo name + FIVE_MINUTES, mini_lo name + 2 * FIVE_MINUTES)"
    "mini_lo name + 2 * FIVE_MINUTES \<le> mini_hi name" "partition_bounds mini_manifest name = Inr (mini_bounds name, mini_lo name, mini_hi name)"
    "partition_ledger mini_gate (\<lambda>n. Some ''x'') mini_partitions name = Inr [mini_member name]" "json_finite (mini_vector name)"
    using f1 f2 f3 f4 f5 f6 assms unfolding list_all_iff by blast+
qed

lemma mini_part:
  assumes n: "name \<in> set PARTITIONS" and g: "gs_previous_end g \<le> mini_lo name" "mini_hi name \<le> outer_end"
    "dict_get (gs_source_owners g) (''e-'' @ name) = None" "dict_get (gs_session_owners g) (''s-'' @ name) = None"
  shows "check_partition mini_gate mini_manifest (\<lambda>n. [mini_vector n]) (\<lambda>n. Some ''x'') mini_partitions outer_end name g
    = Inr \<lparr>gs_previous_end = mini_hi name, gs_source_owners = dict_set (''e-'' @ name) name (gs_source_owners g),
        gs_session_owners = dict_set (''s-'' @ name) name (gs_session_owners g)\<rparr>"
proof -
  note f = mini_facts [OF n]
  let ?s = "\<lparr>ms_seen = [], ms_sessions = [], ms_source_owners = gs_source_owners g, ms_session_owners = gs_session_owners g\<rparr>"
  have m: "exact_keys (mini_member name) [''vector_sha256'', ''source_event_ids'', ''session_ids'']"
    "pget (mini_member name) ''vector_sha256'' = PStr ''d''" "pget (mini_member name) ''source_event_ids'' = PList [PStr (''e-'' @ name)]"
    "pget (mini_member name) ''session_ids'' = PList [PStr (''s-'' @ name)]"
    by (auto simp: mini_member_def exact_keys_iff pkeys_def pget_def)
  have v: "py_item (mini_vector name) ''feature_schema'' = Inr (PStr ''endpoint-window-v1'')" "py_item mini_manifest ''feature_schema'' = Inr (PStr ''endpoint-window-v1'')"
    "py_item (mini_vector name) ''entity'' = Inr (PStr ''db'')" "py_item (mini_vector name) ''source_event_set_sha256'' = Inr (PStr ''d'')"
    by (simp_all add: mini_vector_def mini_manifest_def py_item_def has_key_def pget_def)
  have b: "py_item (mini_bounds n) ''label_profile'' = Inr (PStr ''benign_biased'')" "py_item (mini_bounds n) ''vector_count'' = Inr (PInt 1)"
    "py_item (mini_bounds n) ''session_ids_sha256'' = Inr (PStr ''d'')" for n
    by (simp_all add: mini_bounds_def py_item_def has_key_def pget_def)
  have p: "dg_prims mini_gate = mini_prims" "dg_schema_ok mini_gate = (\<lambda>s v. True)" "dg_schema_sha256 mini_gate = (\<lambda>s. Some ''h'')"
    "sha256_hexdigest mini_prims t = ''d''" for t by (simp_all add: mini_gate_def mini_prims_def)
  have ids: "identifier_list (PList [PStr (''e-'' @ name)]) = Inr [''e-'' @ name]" "identifier_list (PList [PStr (''s-'' @ name)]) = Inr [''s-'' @ name]"
    by (simp_all add: identifier_list_def nonempty_str_def)
  have own: "own_all name [''e-'' @ name] (gs_source_owners g) = Inr (dict_set (''e-'' @ name) name (gs_source_owners g))"
    "own_all name [''s-'' @ name] (gs_session_owners g) = Inr (dict_set (''s-'' @ name) name (gs_session_owners g))"
    using g(3,4) by (simp_all del: dict_get_None_iff append_Cons append_Nil)
  have o: "check_owners mini_prims name (mini_vector name) (mini_member name) (?s\<lparr>ms_seen := [x]\<rparr>)
     = Inr \<lparr>ms_seen = [x], ms_sessions = [''s-'' @ name], ms_source_owners = dict_set (''e-'' @ name) name (gs_source_owners g),
         ms_session_owners = dict_set (''s-'' @ name) name (gs_session_owners g)\<rparr>" for x
    unfolding check_owners_def m using own by (simp add: ids v p del: own_all.simps append_Cons)
  have lo: "mini_lo name < mini_hi name" using f(3) by (simp add: FIVE_MINUTES_def)
  have "\<exists>x. check_member mini_gate mini_manifest name (mini_lo name) (mini_hi name) (mini_vector name) (mini_member name) ?s
     = check_owners mini_prims name (mini_vector name) (mini_member name) (?s\<lparr>ms_seen := [x]\<rparr>)"
    unfolding check_member_def p f(1,2) v using f(3) m
    by (intro exI [of _ "(PStr ''db'', mini_lo name + FIVE_MINUTES, mini_lo name + 2 * FIVE_MINUTES)"]) (simp add: mini_hash [OF f(6)] FIVE_MINUTES_def)
  then obtain x where c: "check_member mini_gate mini_manifest name (mini_lo name) (mini_hi name) (mini_vector name) (mini_member name) ?s
     = Inr \<lparr>ms_seen = [x], ms_sessions = [''s-'' @ name], ms_source_owners = dict_set (''e-'' @ name) name (gs_source_owners g),
         ms_session_owners = dict_set (''s-'' @ name) name (gs_session_owners g)\<rparr>" using o by metis
  show ?thesis unfolding check_partition_def p f(4,5) using g lo
    by (simp add: b c mini_hash del: append_Cons)
qed

lemma mini_accepted:
  "validate_partitions mini_gate mini_manifest (\<lambda>name. [mini_vector name]) (\<lambda>name. Some ''x'') (Some (canonical_json mini_prims mini_ledger)) = Inr ()"
proof -
  have "json_ok mini_prims (dg_float mini_gate) mini_ledger" by code_simp
  moreover have "sorted_keys mini_ledger = mini_ledger" by code_simp
  ultimately have r: "json_loads (dg_float mini_gate) (canonical_json mini_prims mini_ledger) = Inr mini_ledger"
    using json_reads_back [of mini_prims "dg_float mini_gate" mini_ledger "[]" True] by (simp add: canonical_json_print)
  have d: "py_item mini_manifest ''split'' = Inr (pget mini_manifest ''split'')" "py_item (pget mini_manifest ''split'') ''session_assignment_sha256'' = Inr (PStr ''d'')"
    by code_simp+
  have dd: "sha256_hexdigest (dg_prims mini_gate) t = ''d''" for t by (simp add: mini_gate_def mini_prims_def)
  have k: "exact_keys mini_ledger [''schema_version'', ''partitions''] \<and> pget mini_ledger ''schema_version'' = PStr ''partition-membership-v1''"
    "exact_keys (pget mini_ledger ''partitions'') PARTITIONS" "pget mini_ledger ''partitions'' = mini_partitions" by code_simp+
  have l: "load_ledger mini_gate mini_manifest (Some (canonical_json mini_prims mini_ledger)) = Inr mini_partitions"
    by (simp add: load_ledger_def r d dd k(1,2)) (simp add: k(3))
  have t: "\<exists>range. py_item mini_manifest ''time_range'' = Inr range \<and> bindR (py_item range ''start'') aware_timestamp = Inr (mini_lo ''train'') \<and>
      bindR (py_item range ''end'') aware_timestamp = Inr (mini_hi ''test'')"
    by (rule exI [of _ "pget mini_manifest ''time_range''"]) code_simp
  have h: "mini_hi ''train'' = mini_lo ''validation''" "mini_hi ''validation'' = mini_lo ''test''" by code_simp+
  have lt: "mini_lo n < mini_hi n" if "n \<in> set PARTITIONS" for n using mini_facts(3) [OF that] by (simp add: FIVE_MINUTES_def)
  have P: "''train'' \<in> set PARTITIONS" "''validation'' \<in> set PARTITIONS" "''test'' \<in> set PARTITIONS" by (simp_all add: PARTITIONS_def)
  have "\<exists>g. gate_checks mini_gate mini_manifest (\<lambda>name. [mini_vector name]) (\<lambda>name. Some ''x'') (Some (canonical_json mini_prims mini_ledger)) = Inr g"
    using t l lt [OF P(1)] lt [OF P(2)] lt [OF P(3)] h P unfolding gate_checks_def by (auto simp: PARTITIONS_def mini_part)
  moreover have "dg_manifest_ok mini_gate mini_manifest" by code_simp
  ultimately show ?thesis by (auto simp: validate_partitions_def)
qed

theorem partitions_isolated_witness:
  "\<exists>partitions (sp :: string \<Rightarrow> int \<times> int) members. load_ledger mini_gate mini_manifest (Some (canonical_json mini_prims mini_ledger)) = Inr partitions \<and>
     partition_ledger mini_gate (\<lambda>n. Some ''x'') partitions ''train'' = Inr (members ''train'') \<and> snd (sp ''train'') \<le> fst (sp ''validation'')"
proof -
  have p: "''train'' \<in> set PARTITIONS" by (simp add: PARTITIONS_def)
  show ?thesis
    using partitions_isolated [OF mini_accepted]
  proof (elim exE conjE)
    fix partitions sp members
    assume l: "load_ledger mini_gate mini_manifest (Some (canonical_json mini_prims mini_ledger)) = Inr partitions"
      and o: "snd (sp ''train'') \<le> fst (sp ''validation'')"
      and "\<forall>name \<in> set PARTITIONS. partition_ledger mini_gate (\<lambda>name. Some ''x'') partitions name = Inr (members name) \<and>
       (\<exists>bounds. partition_bounds mini_manifest name = Inr (bounds, sp name)) \<and> fst (sp name) < snd (sp name) \<and>
       length [mini_vector name] = length (members name) \<and>
       (\<forall>(vector, member) \<in> set (zip [mini_vector name] (members name)).
          valid_in mini_gate vector \<and> inside (sp name) vector \<and> bound_to (dg_prims mini_gate) vector member)"
    then have "partition_ledger mini_gate (\<lambda>n. Some ''x'') partitions ''train'' = Inr (members ''train'')" using p by simp
    then show ?thesis using l o by (intro exI [of _ partitions] exI [of _ sp] exI [of _ members] conjI)
  qed
qed

end
