(* ===== verification/Dataset.thy ===== *)
theory Dataset
  imports Partitions Feature_Worker
begin

text \<open>
  \<^verbatim>\<open>load_scenarios\<close> and \<^verbatim>\<open>build\<close> of \<^verbatim>\<open>ai/training/build_dataset.py\<close>: events and the windows of controlled attacks
  become the vectors, membership entries and labels of the three parts of a dataset. The dictionary of
  windows is the list of its entries, the three lists per part are functions of the part's name.
  Writing the files is I/O.
\<close>

section \<open>Scenarios\<close>

record scenario =
  sc_id :: pyval
  sc_entity :: string
  sc_start :: int
  sc_end :: int

definition dataset_ts :: "pyval \<Rightarrow> int res" where
  "dataset_ts v = (case v of
     PStr s \<Rightarrow> (case fromisoformat (replace_Z s) of
         None \<Rightarrow> Inl (ValueError ''Invalid isoformat string'')
       | Some (Naive t) \<Rightarrow> Inl (DatasetBuild ''timestamps must include a UTC offset'')
       | Some (Aware t) \<Rightarrow> if in_range t then Inr t else Inl OverflowErr)
   | _ \<Rightarrow> Inl (AttributeErr ''replace''))"

definition hashable :: "pyval \<Rightarrow> bool" where
  "hashable v = (\<not> is_list v \<and> \<not> is_mapping v)"

definition load_scenario :: "prims \<Rightarrow> pyval list \<Rightarrow> pyval \<Rightarrow> scenario res" where
  "load_scenario pr seen item =
     bindR (iter_items item) (\<lambda>ks.
     bindR (guardR (list_all hashable ks) (TypeErr ''unhashable type'')) (\<lambda>_.
     bindR (guardR (set ks \<subseteq> PStr ` set [''id'', ''entity'', ''start'', ''end'', ''description''] \<and>
         PStr ` set [''id'', ''entity'', ''start'', ''end''] \<subseteq> set ks) (DatasetBuild ''scenario has missing or unsupported fields'')) (\<lambda>_.
     bindR (py_item item ''id'') (\<lambda>i.
     bindR (guardR (hashable i) (TypeErr ''unhashable type'')) (\<lambda>_.
     bindR (guardR (i \<notin> set seen) (DatasetBuild ''duplicate scenario id'')) (\<lambda>_.
     bindR (bindR (py_item item ''start'') dataset_ts) (\<lambda>start.
     bindR (bindR (py_item item ''end'') dataset_ts) (\<lambda>stop.
     bindR (guardR (start < stop) (DatasetBuild ''scenario must end after it starts'')) (\<lambda>_.
     bindR (py_item item ''entity'') (\<lambda>entity.
     Inr \<lparr>sc_id = i, sc_entity = py_str pr entity, sc_start = start, sc_end = stop\<rparr>))))))))))"

fun load_items :: "prims \<Rightarrow> pyval list \<Rightarrow> pyval list \<Rightarrow> scenario list res" where
  "load_items pr seen [] = Inr []"
| "load_items pr seen (item # items) =
     bindR (load_scenario pr seen item) (\<lambda>sc. bindR (load_items pr (sc_id sc # seen) items) (\<lambda>scs. Inr (sc # scs)))"

definition load_scenarios :: "prims \<Rightarrow> (string \<Rightarrow> pyfloat) \<Rightarrow> string \<Rightarrow> scenario list res" where
  "load_scenarios pr fl file =
     bindR (json_loads fl file) (\<lambda>payload.
     bindR (guardR (is_mapping payload \<and> pget payload ''schema_version'' = PStr ''scenarios-v1'') (DatasetBuild ''scenario file must be scenarios-v1'')) (\<lambda>_.
     bindR (iter_items (if has_key payload ''scenarios'' then pget payload ''scenarios'' else PList [])) (load_items pr [])))"

section \<open>Sessions and labels\<close>

definition event_entity :: "string \<Rightarrow> pyval \<Rightarrow> string option" where
  "event_entity schema event = (case nested event (if schema = ''network-window-v1'' then [''source'', ''ip''] else [''host'', ''name'']) of
     PStr s \<Rightarrow> (if s = [] then None else Some s) | _ \<Rightarrow> None)"

definition day_text :: "int \<Rightarrow> string" where
  "day_text t = take 10 (utc_text t)"

definition session_of :: "prims \<Rightarrow> scenario list \<Rightarrow> string \<Rightarrow> pyval \<Rightarrow> string res" where
  "session_of pr scenarios entity event =
     bindR (bindR (py_item event ''@timestamp'') dataset_ts) (\<lambda>t.
     Inr (case find (\<lambda>sc. sc_entity sc = entity \<and> sc_start sc \<le> t \<and> t \<le> sc_end sc) scenarios of
         Some sc \<Rightarrow> ''scenario:'' @ py_str pr (sc_id sc)
       | None \<Rightarrow> ''entity-day:'' @ entity @ '':'' @ day_text t))"

definition touches :: "int \<Rightarrow> int \<Rightarrow> pyval \<Rightarrow> scenario \<Rightarrow> bool" where
  "touches start stop entity sc = (PStr (sc_entity sc) = entity \<and> start < sc_end sc \<and> sc_start sc < stop)"

fun earliest :: "scenario list \<Rightarrow> scenario option" where
  "earliest [] = None"
| "earliest (sc # scs) = Some (foldl (\<lambda>m x. if sc_start x < sc_start m then x else m) sc scs)"

definition attack_scenario :: "scenario list \<Rightarrow> pyval \<Rightarrow> scenario option res" where
  "attack_scenario scenarios vector =
     bindR (bindR (py_item vector ''window_start'') dataset_ts) (\<lambda>start.
     bindR (bindR (py_item vector ''window_end'') dataset_ts) (\<lambda>stop.
     bindR (if scenarios = [] then Inr PNone else py_item vector ''entity'') (\<lambda>entity.
     Inr (earliest (filter (touches start stop entity) scenarios)))))"

section \<open>The build\<close>

record dataset_job =
  dj_prims :: prims
  dj_schema_ok :: "string \<Rightarrow> pyval \<Rightarrow> bool"
  dj_schema_sha256 :: "string \<Rightarrow> string option"
  dj_scenarios :: "scenario list"
  dj_schema :: string
  dj_git :: string
  dj_baseline :: "string list option"

record dataset_state =
  ds_vectors :: "string \<Rightarrow> pyval list"
  ds_members :: "string \<Rightarrow> pyval list"
  ds_labels :: "pyval list"
  ds_dropped :: nat
  ds_spread :: "(pyval \<times> string) list"

definition empty_dataset :: dataset_state where
  "empty_dataset = \<lparr>ds_vectors = (\<lambda>name. []), ds_members = (\<lambda>name. []), ds_labels = [], ds_dropped = 0, ds_spread = []\<rparr>"

text \<open>The events in the range of the dataset, each with the start of its window.\<close>

fun place_events :: "int \<Rightarrow> int \<Rightarrow> pyval list \<Rightarrow> (int \<times> pyval) list res" where
  "place_events low high [] = Inr []"
| "place_events low high (event # events) =
     bindR (bindR (py_item event ''@timestamp'') dataset_ts) (\<lambda>t.
     bindR (place_events low high events) (\<lambda>placed.
     Inr (if low \<le> t \<and> t < high then (floor_window t, event) # placed else placed)))"

definition window_events :: "int \<Rightarrow> (int \<times> pyval) list \<Rightarrow> pyval list" where
  "window_events start placed = map snd (filter (\<lambda>(w, event). w = start) placed)"

definition part_of :: "int list \<Rightarrow> int \<Rightarrow> string res" where
  "part_of boundaries start =
     (case find (\<lambda>(name, low, high). low \<le> start \<and> start < high) (zip PARTITIONS (zip boundaries (tl boundaries))) of
        Some (name, b) \<Rightarrow> Inr name | None \<Rightarrow> Inl (RuntimeErr ''StopIteration''))"

definition build_vectors :: "dataset_job \<Rightarrow> pyval list \<Rightarrow> int \<Rightarrow> pyval list res" where
  "build_vectors dj events start =
     bindR (shifted start FIVE_MINUTES) (\<lambda>stop.
     let sha = (\<lambda>schema. case dj_schema_sha256 dj schema of Some d \<Rightarrow> Inr d | None \<Rightarrow> Inl (FeatureSchema ''feature schema is missing'')) in
     if dj_schema dj = ''network-window-v1''
     then build_network_vectors (dj_prims dj) (sha ''network-window-v1'') events (Moment (Aware start)) (Moment (Aware stop)) (dj_git dj) None
     else build_endpoint_vectors (dj_prims dj) (sha ''endpoint-window-v1'') events (Moment (Aware start)) (Moment (Aware stop)) (dj_git dj) []
       (if dj_schema dj = ''endpoint-window-v1'' then dj_baseline dj else None) None)"

definition member_doc :: "string \<Rightarrow> string list \<Rightarrow> string list \<Rightarrow> pyval" where
  "member_doc sha sources sessions = PDict [(''vector_sha256'', PStr sha), (''source_event_ids'', PList (map PStr sources)),
     (''session_ids'', PList (map PStr sessions))]"

definition label_doc :: "string \<Rightarrow> scenario option \<Rightarrow> pyval" where
  "label_doc sha sc = PDict [(''schema_version'', PStr ''labels-v1''), (''vector_sha256'', PStr sha),
     (''label'', PInt (if sc = None then 0 else 1)), (''scenario_id'', (case sc of Some x \<Rightarrow> sc_id x | None \<Rightarrow> PNone)),
     (''scenario_start'', (case sc of Some x \<Rightarrow> PStr (utc_text (sc_start x)) | None \<Rightarrow> PNone))]"

definition keep_vector :: "dataset_job \<Rightarrow> pyval list \<Rightarrow> string \<Rightarrow> scenario option \<Rightarrow> pyval \<Rightarrow> dataset_state \<Rightarrow> dataset_state res" where
  "keep_vector dj events name sc vector s =
     bindR (py_item vector ''entity'') (\<lambda>entity.
     let own = filter (\<lambda>event. map_option PStr (event_entity (dj_schema dj) event) = Some entity) events in
     bindR (mapR (\<lambda>event. bindR (bindR (py_item event ''event'') (\<lambda>e. py_item e ''id'')) (\<lambda>i. Inr (py_str (dj_prims dj) i))) own) (\<lambda>ids.
     bindR (py_item vector ''source_event_set_sha256'') (\<lambda>source_sha.
     bindR (guardR (PStr (sha256_hexdigest (dj_prims dj) (join_with [CHR 0x0A] (sort ids))) = source_sha)
       (DatasetBuild ''membership does not reproduce the vector's source-event hash'')) (\<lambda>_.
     bindR (mapR (session_of (dj_prims dj) (dj_scenarios dj) (case entity of PStr e \<Rightarrow> e | _ \<Rightarrow> [])) own) (\<lambda>sessions.
     bindR (canonical_hash (dj_prims dj) vector) (\<lambda>sha.
     Inr (s\<lparr>ds_vectors := (ds_vectors s)(name := ds_vectors s name @ [vector]),
       ds_members := (ds_members s)(name := ds_members s name @ [member_doc sha (sort ids) (sort (remdups sessions))]),
       ds_labels := ds_labels s @ [label_doc sha sc]\<rparr>)))))))"

definition add_vector :: "dataset_job \<Rightarrow> int list \<Rightarrow> pyval list \<Rightarrow> int \<Rightarrow> pyval \<Rightarrow> dataset_state \<Rightarrow> dataset_state res" where
  "add_vector dj boundaries events start vector s =
     bindR (validate_vector (dj_prims dj) (dj_schema_ok dj) (dj_schema_sha256 dj) vector) (\<lambda>_.
     bindR (part_of boundaries start) (\<lambda>name.
     bindR (attack_scenario (dj_scenarios dj) vector) (\<lambda>sc.
     let s1 = s\<lparr>ds_spread := (case sc of Some x \<Rightarrow> (sc_id x, name) # ds_spread s | None \<Rightarrow> ds_spread s)\<rparr> in
     if name = ''train'' \<and> sc \<noteq> None then Inr (s1\<lparr>ds_dropped := Suc (ds_dropped s)\<rparr>)
     else keep_vector dj events name sc vector s1)))"

fun add_vectors :: "dataset_job \<Rightarrow> int list \<Rightarrow> pyval list \<Rightarrow> int \<Rightarrow> pyval list \<Rightarrow> dataset_state \<Rightarrow> dataset_state res" where
  "add_vectors dj boundaries events start [] s = Inr s"
| "add_vectors dj boundaries events start (vector # vectors) s =
     bindR (add_vector dj boundaries events start vector s) (add_vectors dj boundaries events start vectors)"

fun add_windows :: "dataset_job \<Rightarrow> int list \<Rightarrow> (int \<times> pyval) list \<Rightarrow> int list \<Rightarrow> dataset_state \<Rightarrow> dataset_state res" where
  "add_windows dj boundaries placed [] s = Inr s"
| "add_windows dj boundaries placed (start # starts) s =
     bindR (build_vectors dj (window_events start placed) start) (\<lambda>vectors.
     bindR (add_vectors dj boundaries (window_events start placed) start vectors s) (add_windows dj boundaries placed starts))"

definition straddles :: "(pyval \<times> string) list \<Rightarrow> bool" where
  "straddles spread = list_ex (\<lambda>(i, name). list_ex (\<lambda>(j, other). i = j \<and> name \<noteq> other) spread) spread"

definition both_classes :: "scenario list \<Rightarrow> pyval list \<Rightarrow> bool res" where
  "both_classes scenarios vectors =
     bindR (mapR (attack_scenario scenarios) vectors) (\<lambda>flags. Inr (None \<in> set flags \<and> list_ex (\<lambda>sc. sc \<noteq> None) flags))"

definition final_checks :: "dataset_job \<Rightarrow> dataset_state \<Rightarrow> dataset_state res" where
  "final_checks dj s =
     bindR (guardR (\<not> straddles (ds_spread s)) (DatasetBuild ''scenarios span a partition boundary (session leakage)'')) (\<lambda>_.
     bindR (guardR (list_all (\<lambda>name. ds_vectors s name \<noteq> []) PARTITIONS) (DatasetBuild ''a partition is empty'')) (\<lambda>_.
     bindR (both_classes (dj_scenarios dj) (ds_vectors s ''validation'')) (\<lambda>validation.
     bindR (guardR validation (DatasetBuild ''the validation partition needs both benign and attack vectors'')) (\<lambda>_.
     bindR (both_classes (dj_scenarios dj) (ds_vectors s ''test'')) (\<lambda>test.
     bindR (guardR test (DatasetBuild ''the test partition needs both benign and attack vectors'')) (\<lambda>_. Inr s))))))"

definition build_dataset :: "dataset_job \<Rightarrow> int list \<Rightarrow> pyval list \<Rightarrow> dataset_state res" where
  "build_dataset dj boundaries events =
     bindR (guardR (length boundaries = 4 \<and> list_all (\<lambda>b. b mod FIVE_MINUTES = 0) boundaries) (DatasetBuild ''four five-minute-aligned boundaries are required'')) (\<lambda>_.
     bindR (guardR (sorted_wrt (<) boundaries) (DatasetBuild ''partition boundaries must be strictly increasing'')) (\<lambda>_.
     bindR (place_events (hd boundaries) (last boundaries) events) (\<lambda>placed.
     bindR (add_windows dj boundaries placed (sort (remdups (map fst placed))) empty_dataset) (final_checks dj))))"

section \<open>What a build keeps apart\<close>

lemma dataset_ts_utc_text: "in_range t \<Longrightarrow> dataset_ts (PStr (utc_text t)) = Inr t"
  by (simp add: dataset_ts_def fromisoformat_utc_text)

lemma aware_utc_text: "in_range t \<Longrightarrow> aware_timestamp (PStr (utc_text t)) = Inr t"
  by (simp add: aware_timestamp_def fromisoformat_utc_text)

lemma earliest_None [simp]: "earliest scs = None \<longleftrightarrow> scs = []"
  by (cases scs) simp_all

text \<open>The window of a built vector is the one it was built for.\<close>

definition spans :: "int \<Rightarrow> pyval \<Rightarrow> bool" where
  "spans start v \<longleftrightarrow> in_range start \<and> in_range (start + FIVE_MINUTES) \<and> is_mapping v \<and> has_key v ''window_start'' \<and> has_key v ''window_end'' \<and>
     pget v ''window_start'' = PStr (utc_text start) \<and> pget v ''window_end'' = PStr (utc_text (start + FIVE_MINUTES))"

lemma window_bounds_moments:
  "window_bounds (Moment (Aware a)) (Moment (Aware b)) = Inr (x, y) \<Longrightarrow> x = a \<and> y = b \<and> in_range a \<and> in_range b"
  by (auto simp: window_bounds_def moment_utc_def res_success split: if_splits)

lemma build_vectors_span:
  assumes "build_vectors dj events start = Inr vs" "v \<in> set vs"
  shows "spans start v"
proof -
  have doc: "spans start v" if "window_bounds (Moment (Aware start)) (Moment (Aware stop)) = Inr (a, b)" "stop = start + FIVE_MINUTES"
      "vector_doc pr vf entity evs fs = Inr v" "vf_start vf = a" "vf_end vf = b" for stop a b pr vf entity evs fs
    using window_bounds_moments [OF that(1)] vector_doc_fields [OF that(3)] that(2,4,5) by (auto simp: spans_def)
  show ?thesis
  proof (cases "dj_schema dj = ''network-window-v1''")
    case True
    then show ?thesis
      using assms by (auto simp: build_vectors_def build_network_vectors_def shifted_Inr bindR_eq_Inr Let_def dest!: mapR_member intro: doc)
  next
    case False
    then show ?thesis
      using assms by (auto simp: build_vectors_def build_endpoint_vectors_def shifted_Inr bindR_eq_Inr Let_def dest!: mapR_member intro: doc)
  qed
qed

lemma attack_scenario_spans:
  assumes "spans start v" "attack_scenario scenarios v = Inr sc" "has_key v ''entity''"
  shows "sc = earliest (filter (touches start (start + FIVE_MINUTES) (pget v ''entity'')) scenarios)"
  using assms by (cases scenarios) (auto simp: attack_scenario_def spans_def py_item_def dataset_ts_utc_text)

lemma part_of_bounds:
  assumes "part_of boundaries start = Inr name" "boundaries = [b0, b1, b2, b3]"
  shows "(name, b0, b1) = (''train'', b0, b1) \<and> b0 \<le> start \<and> start < b1 \<or> name = ''validation'' \<and> b1 \<le> start \<and> start < b2 \<or>
    name = ''test'' \<and> b2 \<le> start \<and> start < b3"
  using assms by (auto simp: part_of_def PARTITIONS_def split: if_splits)

text \<open>A kept vector with its entry of the ledger.\<close>

definition kept_in :: "dataset_job \<Rightarrow> int list \<Rightarrow> (pyval \<times> string) list \<Rightarrow> string \<Rightarrow> pyval \<Rightarrow> pyval \<Rightarrow> bool" where
  "kept_in dj boundaries spread name v m \<longleftrightarrow>
     validate_vector (dj_prims dj) (dj_schema_ok dj) (dj_schema_sha256 dj) v = Inr () \<and> bound_to (dj_prims dj) v m \<and> has_key v ''entity'' \<and>
     (\<exists>start sc. start mod FIVE_MINUTES = 0 \<and> spans start v \<and> part_of boundaries start = Inr name \<and> attack_scenario (dj_scenarios dj) v = Inr sc \<and>
        (name = ''train'' \<longrightarrow> sc = None) \<and> (\<forall>x. sc = Some x \<longrightarrow> (sc_id x, name) \<in> set spread))"

definition dataset_ok :: "dataset_job \<Rightarrow> int list \<Rightarrow> dataset_state \<Rightarrow> bool" where
  "dataset_ok dj boundaries s \<longleftrightarrow> (\<forall>name. length (ds_vectors s name) = length (ds_members s name) \<and>
     (\<forall>(v, m) \<in> set (zip (ds_vectors s name) (ds_members s name)). kept_in dj boundaries (ds_spread s) name v m))"

lemma kept_in_mono: "kept_in dj boundaries spread name v m \<Longrightarrow> set spread \<subseteq> set spread' \<Longrightarrow> kept_in dj boundaries spread' name v m"
  unfolding kept_in_def by (elim conjE exE, intro conjI exI) (assumption | blast)+

lemma member_doc_ids: "ids_at ''source_event_ids'' (member_doc sha sources sessions) = set sources"
  by (auto simp: ids_at_def member_doc_def pget_def)

lemma keep_vector_ok:
  assumes "keep_vector dj events name sc vector s = Inr s'" "dataset_ok dj boundaries s"
    and v: "validate_vector (dj_prims dj) (dj_schema_ok dj) (dj_schema_sha256 dj) vector = Inr ()" "start mod FIVE_MINUTES = 0" "spans start vector"
      "part_of boundaries start = Inr name" "attack_scenario (dj_scenarios dj) vector = Inr sc" "name = ''train'' \<longrightarrow> sc = None"
      "\<forall>x. sc = Some x \<longrightarrow> (sc_id x, name) \<in> set (ds_spread s)"
  shows "dataset_ok dj boundaries s'"
proof -
  obtain ids sessions sha where
    1: "has_key vector ''entity''" "py_item vector ''source_event_set_sha256'' = Inr (PStr (sha256_hexdigest (dj_prims dj) (join_with [CHR 0x0A] (sort ids))))"
       "canonical_hash (dj_prims dj) vector = Inr sha"
    and 2: "s' = s\<lparr>ds_vectors := (ds_vectors s)(name := ds_vectors s name @ [vector]),
       ds_members := (ds_members s)(name := ds_members s name @ [member_doc sha (sort ids) (sort (remdups sessions))]),
       ds_labels := ds_labels s @ [label_doc sha sc]\<rparr>"
    using assms(1) unfolding keep_vector_def by (auto simp: bindR_eq_Inr Let_def py_item_def split: if_splits)
  let ?m = "member_doc sha (sort ids) (sort (remdups sessions))"
  have "sha = sha256_hex (dj_prims dj) vector" using 1(3) by (auto simp: canonical_hash_def split: if_splits)
  then have "pget ?m ''vector_sha256'' = PStr (sha256_hex (dj_prims dj) vector)" by (simp add: member_doc_def pget_def)
  moreover have "pget vector ''source_event_set_sha256'' = PStr (sha256_hexdigest (dj_prims dj) (join_with [CHR 0x0A] (sort (sort ids))))"
    using 1(2) by (auto simp: py_item_def sorted_sort_id split: if_splits)
  ultimately have "bound_to (dj_prims dj) vector ?m" unfolding bound_to_def by (intro conjI exI [of _ "sort ids"]) (simp_all add: member_doc_ids)
  then have k: "kept_in dj boundaries (ds_spread s) name vector ?m" using v 1(1) unfolding kept_in_def by (intro conjI exI [of _ start] exI [of _ sc]) simp_all
  have "length (ds_vectors s name) = length (ds_members s name)" using assms(2) by (simp add: dataset_ok_def)
  then show ?thesis using assms(2) k unfolding dataset_ok_def 2 by auto
qed

lemma add_vector_ok:
  assumes "add_vector dj boundaries events start vector s = Inr s'" "dataset_ok dj boundaries s" "start mod FIVE_MINUTES = 0" "spans start vector"
  shows "dataset_ok dj boundaries s'"
proof -
  obtain name sc where
    1: "validate_vector (dj_prims dj) (dj_schema_ok dj) (dj_schema_sha256 dj) vector = Inr ()" "part_of boundaries start = Inr name"
       "attack_scenario (dj_scenarios dj) vector = Inr sc"
    and 2: "(let s1 = s\<lparr>ds_spread := (case sc of Some x \<Rightarrow> (sc_id x, name) # ds_spread s | None \<Rightarrow> ds_spread s)\<rparr> in
     if name = ''train'' \<and> sc \<noteq> None then Inr (s1\<lparr>ds_dropped := Suc (ds_dropped s)\<rparr>) else keep_vector dj events name sc vector s1) = Inr s'"
    using assms(1) unfolding add_vector_def by (auto simp: bindR_eq_Inr)
  let ?s1 = "s\<lparr>ds_spread := (case sc of Some x \<Rightarrow> (sc_id x, name) # ds_spread s | None \<Rightarrow> ds_spread s)\<rparr>"
  have "set (ds_spread s) \<subseteq> set (ds_spread ?s1)" by (auto split: option.split)
  then have s1: "dataset_ok dj boundaries ?s1" using assms(2) kept_in_mono unfolding dataset_ok_def by fastforce
  show ?thesis
  proof (cases "name = ''train'' \<and> sc \<noteq> None")
    case True
    then have "s' = ?s1\<lparr>ds_dropped := Suc (ds_dropped s)\<rparr>" using 2 by (simp add: Let_def)
    then show ?thesis using s1 by (simp add: dataset_ok_def)
  next
    case False
    then have "keep_vector dj events name sc vector ?s1 = Inr s'" using 2 by (simp only: Let_def False if_False)
    then show ?thesis by (rule keep_vector_ok [OF _ s1 1(1) assms(3,4) 1(2,3)]) (use False in auto)
  qed
qed

lemma add_vectors_ok:
  "add_vectors dj boundaries events start vectors s = Inr s' \<Longrightarrow> dataset_ok dj boundaries s \<Longrightarrow> start mod FIVE_MINUTES = 0 \<Longrightarrow>
     \<forall>v \<in> set vectors. spans start v \<Longrightarrow> dataset_ok dj boundaries s'"
  by (induction vectors arbitrary: s) (auto simp: bindR_eq_Inr dest: add_vector_ok)

lemma add_windows_ok:
  "add_windows dj boundaries placed starts s = Inr s' \<Longrightarrow> dataset_ok dj boundaries s \<Longrightarrow> \<forall>start \<in> set starts. start mod FIVE_MINUTES = 0 \<Longrightarrow>
     dataset_ok dj boundaries s'"
proof (induction starts arbitrary: s)
  case (Cons start starts)
  obtain vs s1 where 1: "build_vectors dj (window_events start placed) start = Inr vs"
    "add_vectors dj boundaries (window_events start placed) start vs s = Inr s1" "add_windows dj boundaries placed starts s1 = Inr s'"
    using Cons.prems(1) by (auto simp: bindR_eq_Inr)
  have "dataset_ok dj boundaries s1" using add_vectors_ok [OF 1(2) Cons.prems(2)] Cons.prems(3) build_vectors_span [OF 1(1)] by simp
  then show ?case using Cons.IH [OF 1(3)] Cons.prems(3) by simp
qed simp

lemma place_events_aligned: "place_events low high events = Inr placed \<Longrightarrow> p \<in> set placed \<Longrightarrow> fst p mod FIVE_MINUTES = 0"
  by (induction events arbitrary: placed) (auto simp: bindR_eq_Inr split: if_splits)

lemma dataset_zip:
  assumes "dataset_ok dj boundaries s" "v \<in> set (ds_vectors s name)"
  shows "\<exists>m. (v, m) \<in> set (zip (ds_vectors s name) (ds_members s name)) \<and> kept_in dj boundaries (ds_spread s) name v m"
proof -
  have "length (ds_vectors s name) = length (ds_members s name)" using assms(1) by (simp add: dataset_ok_def)
  then obtain m where "(v, m) \<in> set (zip (ds_vectors s name) (ds_members s name))" using assms(2) by (metis in_set_impl_in_set_zip1)
  then show ?thesis using assms(1) unfolding dataset_ok_def by blast
qed

lemma straddles_iff: "straddles spread \<longleftrightarrow> (\<exists>i a b. (i, a) \<in> set spread \<and> (i, b) \<in> set spread \<and> a \<noteq> b)"
  by (auto simp: straddles_def list_ex_iff)

lemma both_classes_flags:
  "both_classes scenarios vs = Inr True \<Longrightarrow> (\<exists>v \<in> set vs. attack_scenario scenarios v = Inr None) \<and> (\<exists>v \<in> set vs. \<exists>sc. attack_scenario scenarios v = Inr (Some sc))"
proof -
  assume "both_classes scenarios vs = Inr True"
  then obtain flags sc where f: "mapR (attack_scenario scenarios) vs = Inr flags" "None \<in> set flags" "Some sc \<in> set flags"
    by (auto simp: both_classes_def bindR_eq_Inr list_ex_iff)
  show ?thesis using mapR_member [OF f(1,2)] mapR_member [OF f(1,3)] by blast
qed

lemma aligned_fit:
  fixes start h :: int
  assumes "start < h" "start mod FIVE_MINUTES = 0" "h mod FIVE_MINUTES = 0"
  shows "start + FIVE_MINUTES \<le> h"
proof -
  have "FIVE_MINUTES dvd h - start" using assms(2,3) by (simp add: mod_eq_0_iff_dvd)
  then show ?thesis using zdvd_imp_le [of FIVE_MINUTES "h - start"] assms(1) by simp
qed


section \<open>A concrete dataset\<close>

definition probe_event :: "int \<Rightarrow> pyval" where
  "probe_event t = PDict [(''@timestamp'', PStr (utc_text t)), (''cxyz'', PDict [(''schema_version'', PStr ''soc-event-v1'')]),
     (''event'', PDict [(''id'', PStr ''e1''), (''category'', PStr ''process'')]), (''host'', PDict [(''name'', PStr ''db'')])]"

definition probe_frame :: "int \<Rightarrow> vector_frame" where
  "probe_frame t = \<lparr>vf_schema = ''endpoint-window-v1'', vf_hash = ''h'', vf_type = ''host'', vf_start = t, vf_end = t + FIVE_MINUTES,
     vf_emitted = t + FIVE_MINUTES, vf_git = ''abcdef0''\<rparr>"

definition probe_features :: pyval where
  "probe_features = PDict [(''process_count'', PInt 1), (''rare_process_count'', PInt 0), (''powershell_count'', PInt 0), (''failed_login_count'', PInt 0),
    (''fim_change_count'', PInt 0), (''account_change_count'', PInt 0), (''privilege_change_count'', PInt 0)]"

definition probe_vector :: "prims \<Rightarrow> int \<Rightarrow> pyval" where
  "probe_vector pr t = (case vector_doc pr (probe_frame t) ''db'' [probe_event t] (Inr probe_features) of Inr v \<Rightarrow> v | Inl e \<Rightarrow> PNone)"

definition probe_job :: "prims \<Rightarrow> scenario list \<Rightarrow> dataset_job" where
  "probe_job pr scenarios = \<lparr>dj_prims = pr, dj_schema_ok = (\<lambda>s v. True), dj_schema_sha256 = (\<lambda>s. Some ''h''), dj_scenarios = scenarios,
     dj_schema = ''endpoint-window-v1'', dj_git = ''abcdef0'', dj_baseline = None\<rparr>"

lemma canonical_hash_finite: "json_finite v \<Longrightarrow> canonical_hash pr v = Inr (sha256_hex pr v)"
  by (simp add: canonical_hash_def)

lemma probe_doc: "vector_doc pr (probe_frame t) ''db'' [probe_event t] (Inr probe_features) = Inr (probe_vector pr t)"
proof -
  have "fv_event_id (probe_event t) = Inr ''e1''" by (simp add: fv_event_id_def probe_event_def)
  then have "\<exists>v. vector_doc pr (probe_frame t) ''db'' [probe_event t] (Inr probe_features) = Inr v"
    by (simp add: vector_doc_def source_event_set_sha256_def)
  then show ?thesis by (auto simp: probe_vector_def)
qed

lemma probe_built:
  assumes "in_range t" "in_range (t + FIVE_MINUTES)"
  shows "build_vectors (probe_job pr scenarios) [probe_event t] t = Inr [probe_vector pr t]"
proof -
  have w: "window_bounds (Moment (Aware t)) (Moment (Aware (t + FIVE_MINUTES))) = Inr (t, t + FIVE_MINUTES)"
    using assms by (simp add: window_bounds_def moment_utc_def FIVE_MINUTES_def)
  have i: "fv_event_id (probe_event t) = Inr ''e1''" by (simp add: fv_event_id_def probe_event_def)
  have et: "event_timestamp (probe_event t) = Inr t"
    using assms by (simp add: event_timestamp_def probe_event_def moment_utc_def fromisoformat_utc_text)
  have "select_event pr t (t + FIVE_MINUTES) (probe_event t) [] = Inr (dict_set ''e1'' (probe_event t, canonical_json pr (probe_event t)) [])"
    by (subst select_event_inside [of _ _ _ "''e1''"]) (simp_all add: readable_def in_window_def et i FIVE_MINUTES_def, simp add: probe_event_def)
  then have sel: "validate_and_select pr [probe_event t] t (t + FIVE_MINUTES) = Inr [probe_event t]"
    by (simp add: validate_and_select_def)
  have "nested (probe_event t) [''host'', ''name''] = PStr ''db''" by (simp add: probe_event_def)
  then have g: "group_by_host [probe_event t] [] = [(''db'', [probe_event t])]" by (simp add: group_append_def del: nested.simps)
  have f: "endpoint_features pr [] None [probe_event t] = probe_features"
    by (simp add: endpoint_features_def probe_event_def probe_features_def categories_def pcount_def rare_process_def failed_auth_def mentions_def
      event_action_text_def Let_def)
  show ?thesis using assms probe_doc [of pr t]
    by (simp add: build_vectors_def probe_job_def shifted_def build_endpoint_vectors_def w sel g emitted_at_def process_names_def f
      probe_frame_def Let_def del: nested.simps group_by_host.simps)
qed

lemma probe_fields:
  "pget (probe_vector pr t) ''entity'' = PStr ''db''" "pget (probe_vector pr t) ''source_event_set_sha256'' = PStr (sha256_hexdigest pr ''e1'')" "is_mapping (probe_vector pr t)"
  "has_key (probe_vector pr t) ''entity''" "has_key (probe_vector pr t) ''source_event_set_sha256''" "json_finite (probe_vector pr t)"
  "pget (probe_vector pr t) ''features'' = probe_features"
proof -
  have i: "fv_event_id (probe_event t) = Inr ''e1''" by (simp add: fv_event_id_def probe_event_def)
  note d = probe_vector_def vector_doc_def source_event_set_sha256_def i has_key_def pget_def probe_features_def
  show "pget (probe_vector pr t) ''entity'' = PStr ''db''" "pget (probe_vector pr t) ''source_event_set_sha256'' = PStr (sha256_hexdigest pr ''e1'')" "is_mapping (probe_vector pr t)"
    "has_key (probe_vector pr t) ''entity''" "has_key (probe_vector pr t) ''source_event_set_sha256''" "json_finite (probe_vector pr t)"
    "pget (probe_vector pr t) ''features'' = probe_features" by (simp_all add: d)
qed

lemma probe_valid:
  assumes "in_range t" "in_range (t + FIVE_MINUTES)"
  shows "validate_vector pr (\<lambda>s v. True) (\<lambda>s. Some ''h'') (probe_vector pr t) = Inr ()" and "spans t (probe_vector pr t)"
proof -
  have w: "window_bounds (Moment (Aware t)) (Moment (Aware (t + FIVE_MINUTES))) = Inr (vf_start (probe_frame t), vf_end (probe_frame t))"
    using assms by (simp add: window_bounds_def moment_utc_def FIVE_MINUTES_def probe_frame_def)
  have n: "expected_feature_names (vf_schema (probe_frame t)) = Inr ENDPOINT_FEATURES" by (simp add: probe_frame_def expected_feature_names_def)
  have "require_exact_features ''endpoint-window-v1'' probe_features = Inr ()" by code_simp
  then show "validate_vector pr (\<lambda>s v. True) (\<lambda>s. Some ''h'') (probe_vector pr t) = Inr ()"
    by (intro vector_doc_valid [OF probe_doc w n]) (simp_all add: probe_frame_def probe_fields)
  show "spans t (probe_vector pr t)" by (rule build_vectors_span [OF probe_built [OF assms]]) simp
qed

lemma probe_added:
  assumes t: "in_range t" "in_range (t + FIVE_MINUTES)" "part_of boundaries t = Inr name"
    "earliest (filter (touches t (t + FIVE_MINUTES) (PStr ''db'')) scenarios) = sc" "name = ''train'' \<Longrightarrow> sc = None"
  shows "attack_scenario scenarios (probe_vector pr t) = Inr sc"
    and "\<exists>s'. add_vectors (probe_job pr scenarios) boundaries [probe_event t] t [probe_vector pr t] s = Inr s' \<and>
      ds_vectors s' = (ds_vectors s)(name := ds_vectors s name @ [probe_vector pr t]) \<and>
      ds_spread s' = (case sc of Some x \<Rightarrow> (sc_id x, name) # ds_spread s | None \<Rightarrow> ds_spread s) \<and>
      ds_labels s' = ds_labels s @ [label_doc (sha256_hex pr (probe_vector pr t)) sc]"
proof -
  note v = probe_valid [OF t(1,2)]
  show a: "attack_scenario scenarios (probe_vector pr t) = Inr sc"
    using v(2) t by (cases scenarios) (auto simp: attack_scenario_def spans_def py_item_def dataset_ts_utc_text probe_fields)
  have e: "event_entity ''endpoint-window-v1'' (probe_event t) = Some ''db''" by (simp add: event_entity_def probe_event_def)
  have i: "py_item (probe_event t) ''event'' = Inr (pget (probe_event t) ''event'')" "py_item (pget (probe_event t) ''event'') ''id'' = Inr (PStr ''e1'')"
    "py_item (probe_event t) ''@timestamp'' = Inr (PStr (utc_text t))"
    by (simp_all add: probe_event_def py_item_def has_key_def)
  have m: "mapR (\<lambda>event. bindR (bindR (py_item event ''event'') (\<lambda>e. py_item e ''id'')) (\<lambda>i. Inr (py_str pr i))) [probe_event t] = Inr [''e1'']"
    by (simp add: i py_str_def)
  obtain session where ses: "mapR (session_of pr scenarios ''db'') [probe_event t] = Inr [session]"
    using t(1) by (simp add: session_of_def i dataset_ts_utc_text)
  have "\<exists>s'. keep_vector (probe_job pr scenarios) [probe_event t] name sc (probe_vector pr t) s1 = Inr s' \<and>
      ds_vectors s' = (ds_vectors s1)(name := ds_vectors s1 name @ [probe_vector pr t]) \<and> ds_spread s' = ds_spread s1 \<and>
      ds_labels s' = ds_labels s1 @ [label_doc (sha256_hex pr (probe_vector pr t)) sc]" for s1
    using m ses by (simp add: keep_vector_def probe_job_def py_item_def probe_fields e Let_def canonical_hash_finite del: mapR.simps)
  from this [of "s\<lparr>ds_spread := (case sc of Some x \<Rightarrow> (sc_id x, name) # ds_spread s | None \<Rightarrow> ds_spread s)\<rparr>"]
  show "\<exists>s'. add_vectors (probe_job pr scenarios) boundaries [probe_event t] t [probe_vector pr t] s = Inr s' \<and>
      ds_vectors s' = (ds_vectors s)(name := ds_vectors s name @ [probe_vector pr t]) \<and>
      ds_spread s' = (case sc of Some x \<Rightarrow> (sc_id x, name) # ds_spread s | None \<Rightarrow> ds_spread s) \<and>
      ds_labels s' = ds_labels s @ [label_doc (sha256_hex pr (probe_vector pr t)) sc]"
    using v(1) a t(3,5) by (auto simp: add_vector_def probe_job_def Let_def)
qed

definition probe_base :: int where
  "probe_base = floor_window demo_now"

definition probe_scenarios :: "scenario list" where
  "probe_scenarios = map (\<lambda>(i, k). \<lparr>sc_id = PStr i, sc_entity = ''db'', sc_start = probe_base + k * FIVE_MINUTES, sc_end = probe_base + k * FIVE_MINUTES + 60000000\<rparr>)
     [(''s1'', 3), (''s2'', 5)]"

definition probe_bounds :: "int list" where
  "probe_bounds = map (\<lambda>k. probe_base + k * FIVE_MINUTES) [0, 2, 4, 6]"

definition probe_starts :: "int list" where
  "probe_starts = map (\<lambda>k. probe_base + k * FIVE_MINUTES) [0, 2, 3, 4, 5]"

definition probe_part :: "int \<Rightarrow> string" where
  "probe_part t = (case part_of probe_bounds t of Inr n \<Rightarrow> n | Inl e \<Rightarrow> [])"

definition probe_attack :: "int \<Rightarrow> scenario option" where
  "probe_attack t = earliest (filter (touches t (t + FIVE_MINUTES) (PStr ''db'')) probe_scenarios)"

definition probe_ok :: "int \<Rightarrow> bool" where
  "probe_ok t \<longleftrightarrow> in_range t \<and> in_range (t + FIVE_MINUTES) \<and> part_of probe_bounds t = Inr (probe_part t) \<and> (probe_part t = ''train'' \<longrightarrow> probe_attack t = None)"

definition probe_spread :: "int list \<Rightarrow> (pyval \<times> string) list" where
  "probe_spread ts = concat (map (\<lambda>t. case probe_attack t of Some x \<Rightarrow> [(sc_id x, probe_part t)] | None \<Rightarrow> []) ts)"

lemma probe_windows:
  "\<forall>t \<in> set ts. probe_ok t \<and> window_events t placed = [probe_event t] \<Longrightarrow>
     \<exists>s'. add_windows (probe_job pr probe_scenarios) probe_bounds placed ts s = Inr s' \<and>
       (\<forall>n. ds_vectors s' n = ds_vectors s n @ map (probe_vector pr) (filter (\<lambda>t. probe_part t = n) ts)) \<and>
       set (ds_spread s') = set (ds_spread s) \<union> set (probe_spread ts) \<and>
       ds_labels s' = ds_labels s @ map (\<lambda>t. label_doc (sha256_hex pr (probe_vector pr t)) (probe_attack t)) ts"
proof (induction ts arbitrary: s)
  case (Cons t ts)
  have t: "in_range t" "in_range (t + FIVE_MINUTES)" "part_of probe_bounds t = Inr (probe_part t)"
    "probe_part t = ''train'' \<Longrightarrow> probe_attack t = None" "window_events t placed = [probe_event t]" using Cons.prems by (auto simp: probe_ok_def)
  obtain s1 where s1: "add_vectors (probe_job pr probe_scenarios) probe_bounds [probe_event t] t [probe_vector pr t] s = Inr s1"
    "ds_vectors s1 = (ds_vectors s)(probe_part t := ds_vectors s (probe_part t) @ [probe_vector pr t])"
    "ds_spread s1 = (case probe_attack t of Some x \<Rightarrow> (sc_id x, probe_part t) # ds_spread s | None \<Rightarrow> ds_spread s)"
    "ds_labels s1 = ds_labels s @ [label_doc (sha256_hex pr (probe_vector pr t)) (probe_attack t)]"
    using probe_added(2) [OF t(1,2,3) probe_attack_def [symmetric] t(4), of pr s] by blast
  obtain s' where s': "add_windows (probe_job pr probe_scenarios) probe_bounds placed ts s1 = Inr s'"
    "\<forall>n. ds_vectors s' n = ds_vectors s1 n @ map (probe_vector pr) (filter (\<lambda>t. probe_part t = n) ts)"
    "set (ds_spread s') = set (ds_spread s1) \<union> set (probe_spread ts)"
    "ds_labels s' = ds_labels s1 @ map (\<lambda>t. label_doc (sha256_hex pr (probe_vector pr t)) (probe_attack t)) ts" using Cons.IH [of s1] Cons.prems by auto
  have "add_windows (probe_job pr probe_scenarios) probe_bounds placed (t # ts) s = Inr s'"
    using s1(1) s'(1) t(5) probe_built [OF t(1,2)] by simp
  moreover have "set (ds_spread s') = set (ds_spread s) \<union> set (probe_spread (t # ts))"
    using s'(3) s1(3) by (auto simp: probe_spread_def split: option.splits)
  ultimately show ?case using s'(2,4) s1(2,4) by auto
qed (simp add: probe_spread_def)

lemma probe_place:
  "\<forall>t \<in> set ts. in_range t \<and> t mod FIVE_MINUTES = 0 \<and> low \<le> t \<and> t < high \<Longrightarrow>
     place_events low high (map probe_event ts) = Inr (map (\<lambda>t. (t, probe_event t)) ts)"
proof (induction ts)
  case (Cons t ts)
  have "py_item (probe_event t) ''@timestamp'' = Inr (PStr (utc_text t))" by (simp add: probe_event_def py_item_def has_key_def)
  then show ?case using Cons by (simp add: dataset_ts_utc_text floor_window_eq)
qed simp

lemma probe_window_events:
  "distinct ts \<Longrightarrow> t \<in> set ts \<Longrightarrow> window_events t (map (\<lambda>t. (t, probe_event t)) ts) = [probe_event t]"
proof (induction ts)
  case (Cons u ts)
  have "window_events t (map (\<lambda>t. (t, probe_event t)) ts) = []" if "t \<notin> set ts"
    using that by (auto simp: window_events_def filter_empty_conv)
  then show ?case using Cons by (auto simp: window_events_def)
qed simp

lemma probe_dataset:
  "\<exists>s. build_dataset (probe_job pr probe_scenarios) probe_bounds (map probe_event probe_starts) = Inr s \<and>
     ds_labels s = map (\<lambda>t. label_doc (sha256_hex pr (probe_vector pr t)) (probe_attack t)) probe_starts"
proof -
  let ?placed = "map (\<lambda>t. (t, probe_event t)) probe_starts"
  have b: "length probe_bounds = 4 \<and> list_all (\<lambda>b. b mod FIVE_MINUTES = 0) probe_bounds" "sorted_wrt (<) probe_bounds" by code_simp+
  have o: "list_all probe_ok probe_starts" by code_simp
  have r: "list_all (\<lambda>t. t mod FIVE_MINUTES = 0 \<and> hd probe_bounds \<le> t \<and> t < last probe_bounds) probe_starts" by code_simp
  have d: "distinct probe_starts" "sort (remdups probe_starts) = probe_starts" by code_simp+
  have pl: "place_events (hd probe_bounds) (last probe_bounds) (map probe_event probe_starts) = Inr ?placed"
    using o r by (intro probe_place) (simp add: list_all_iff probe_ok_def)
  have "\<forall>t \<in> set probe_starts. probe_ok t \<and> window_events t ?placed = [probe_event t]"
    using o probe_window_events [OF d(1)] by (simp add: list_all_iff)
  from probe_windows [OF this, of pr empty_dataset] obtain s where
    s: "add_windows (probe_job pr probe_scenarios) probe_bounds ?placed probe_starts empty_dataset = Inr s"
      "\<And>n. ds_vectors s n = map (probe_vector pr) (filter (\<lambda>t. probe_part t = n) probe_starts)" "set (ds_spread s) = set (probe_spread probe_starts)"
      "ds_labels s = map (\<lambda>t. label_doc (sha256_hex pr (probe_vector pr t)) (probe_attack t)) probe_starts"
    by (auto simp: empty_dataset_def)
  have cls: "both_classes probe_scenarios (ds_vectors s n) = Inr (None \<in> set (map probe_attack (filter (\<lambda>t. probe_part t = n) probe_starts)) \<and>
      list_ex (\<lambda>sc. sc \<noteq> None) (map probe_attack (filter (\<lambda>t. probe_part t = n) probe_starts)))" for n
  proof -
    have "attack_scenario probe_scenarios (probe_vector pr t) = Inr (probe_attack t)" if "t \<in> set probe_starts" for t
      using probe_added(1) [where pr = pr, of t probe_bounds "probe_part t" probe_scenarios "probe_attack t"] o that
      by (simp add: list_all_iff probe_ok_def probe_attack_def)
    then have "mapR (attack_scenario probe_scenarios) (ds_vectors s n) = Inr (map probe_attack (filter (\<lambda>t. probe_part t = n) probe_starts))"
      unfolding s(2) mapR_iff_map by simp
    then show ?thesis by (simp add: both_classes_def)
  qed
  have "\<not> straddles (probe_spread probe_starts)" by code_simp
  then have st: "\<not> straddles (ds_spread s)" unfolding straddles_iff s(3) .
  have ne: "list_all (\<lambda>name. filter (\<lambda>t. probe_part t = name) probe_starts \<noteq> []) PARTITIONS" by code_simp
  have "list_all (\<lambda>n. None \<in> set (map probe_attack (filter (\<lambda>t. probe_part t = n) probe_starts)) \<and>
      list_ex (\<lambda>sc. sc \<noteq> None) (map probe_attack (filter (\<lambda>t. probe_part t = n) probe_starts))) [''validation'', ''test'']" by code_simp
  then have "both_classes probe_scenarios (ds_vectors s ''validation'') = Inr True" "both_classes probe_scenarios (ds_vectors s ''test'') = Inr True"
    unfolding cls by (simp_all only: list.pred_inject simp_thms)
  moreover have "list_all (\<lambda>name. ds_vectors s name \<noteq> []) PARTITIONS" using ne by (simp add: s(2) list_all_iff)
  ultimately have "final_checks (probe_job pr probe_scenarios) s = Inr s"
    using st by (simp add: final_checks_def probe_job_def)
  then show ?thesis unfolding build_dataset_def using b pl s(1,4) d(2) by (simp add: comp_def)
qed


section \<open>Sessions that cross a boundary\<close>

text \<open>
  Outside of scenarios the session of an event is its entity and its day, so the same entity on both
  sides of a boundary within a day is one session in two parts. The build accepts that, and the gate
  of \<^verbatim>\<open>validate_partitions\<close> refuses the dataset.
\<close>

lemma same_day_session:
  assumes "session_of pr scs entity ev = Inr a" "session_of pr scs entity ew = Inr b"
    "bindR (py_item ev ''@timestamp'') dataset_ts = Inr t" "bindR (py_item ew ''@timestamp'') dataset_ts = Inr u" "day_text t = day_text u"
    "\<forall>sc \<in> set scs. sc_entity sc = entity \<longrightarrow> \<not> (sc_start sc \<le> t \<and> t \<le> sc_end sc) \<and> \<not> (sc_start sc \<le> u \<and> u \<le> sc_end sc)"
  shows "a = b"
proof -
  have "find (\<lambda>sc. sc_entity sc = entity \<and> sc_start sc \<le> t \<and> t \<le> sc_end sc) scs = None"
    "find (\<lambda>sc. sc_entity sc = entity \<and> sc_start sc \<le> u \<and> u \<le> sc_end sc) scs = None" using assms(6) by (auto simp: find_None_iff)
  then show ?thesis using assms(1-5) by (simp add: session_of_def)
qed

lemma shared_identifier_refused:
  "dict_get held i = Some n \<Longrightarrow> n \<noteq> name \<Longrightarrow> i \<in> set ids \<Longrightarrow> \<exists>e. own_all name ids held = Inl e"
proof (induction ids arbitrary: held)
  case (Cons j ids)
  show ?case
  proof (cases "dict_get held j")
    case None
    then have "i \<noteq> j" using Cons.prems(1) by (metis option.distinct(1))
    then have "dict_get (dict_set j name held) i = Some n" "i \<noteq> j" using Cons.prems(1) by simp_all
    then show ?thesis using Cons None by (simp del: dict_get_None_iff)
  qed (use Cons in \<open>auto split: if_splits\<close>)
qed simp

end
