(* ===== verification/Labels.thy ===== *)
theory Labels
  imports Dataset
begin

text \<open>
  \<^verbatim>\<open>ai/evaluation/labels.py\<close> and the label file \<^verbatim>\<open>_jsonl\<close> of \<^verbatim>\<open>ai/training/build_dataset.py\<close> writes: the labels of a dataset are
  bound to its vectors by digest, and what a build has written loads back. A file is its text.
\<close>

section \<open>Loading labels\<close>

record label =
  lb_sha256 :: string
  lb_attack :: bool
  lb_scenario :: pyval
  lb_start :: "int option"

definition line_break :: "char \<Rightarrow> bool" where
  "line_break c = (c \<in> {CHR 0x0A, CHR 0x0B, CHR 0x0C, CHR 0x0D, CHR 0x1C, CHR 0x1D, CHR 0x1E, CHR 0x85})"

text \<open>\<^verbatim>\<open>str.splitlines\<close>; \<open>line\<close> holds the current line in reverse.\<close>

fun split_lines :: "string \<Rightarrow> string \<Rightarrow> string list" where
  "split_lines line [] = (if line = [] then [] else [rev line])"
| "split_lines line (c # cs) = (
     if c = CHR 0x0D \<and> cs \<noteq> [] \<and> hd cs = CHR 0x0A then rev line # split_lines [] (tl cs)
     else if line_break c then rev line # split_lines [] cs
     else split_lines (c # line) cs)"

definition label_error :: "string \<Rightarrow> nat \<Rightarrow> string \<Rightarrow> exn" where
  "label_error before number after = LabelErr (before @ show_nat number @ after)"

definition scenario_instant :: "pyval \<Rightarrow> int res" where
  "scenario_instant v = (case v of
     PStr s \<Rightarrow> (case fromisoformat (replace_Z s) of
         None \<Rightarrow> Inl (ValueError ''Invalid isoformat string'')
       | Some (Naive t) \<Rightarrow> Inl (LabelErr ''scenario_start must include a UTC offset'')
       | Some (Aware t) \<Rightarrow> Inr t)
   | _ \<Rightarrow> Inl (LabelErr ''scenario_start must be an RFC3339 string''))"

definition LABEL_KEYS :: "string list" where
  "LABEL_KEYS = [''schema_version'', ''vector_sha256'', ''label'', ''scenario_id'', ''scenario_start'']"

definition label_digest :: "nat \<Rightarrow> pyval \<Rightarrow> string res" where
  "label_digest number row = (case pget row ''vector_sha256'' of
     PStr d \<Rightarrow> (if length d = 64 then Inr d else Inl (label_error ''label line '' number '' has an invalid vector digest''))
   | _ \<Rightarrow> Inl (label_error ''label line '' number '' has an invalid vector digest''))"

definition label_flag :: "nat \<Rightarrow> pyval \<Rightarrow> bool res" where
  "label_flag number row = (let v = pget row ''label'' in
     if \<not> (eq_int v 0 \<or> eq_int v 1) \<or> (case v of PBool b \<Rightarrow> True | _ \<Rightarrow> False)
     then Inl (label_error ''label line '' number '' must be 0 or 1'') else Inr (eq_int v 1))"

definition label_start :: "nat \<Rightarrow> bool \<Rightarrow> pyval \<Rightarrow> int option res" where
  "label_start number attack row = (
     if attack
     then bindR (guardR (nonempty_str (pget row ''scenario_id'')) (label_error ''attack label on line '' number '' needs a scenario_id'')) (\<lambda>_.
       bindR (scenario_instant (pget row ''scenario_start'')) (\<lambda>t. Inr (Some t)))
     else bindR (guardR (pget row ''scenario_id'' = PNone \<and> pget row ''scenario_start'' = PNone)
         (label_error ''benign label on line '' number '' must not name a scenario'')) (\<lambda>_. Inr None))"

definition load_label :: "(string \<Rightarrow> pyfloat) \<Rightarrow> nat \<Rightarrow> string \<Rightarrow> label dict \<Rightarrow> label dict res" where
  "load_label fl number line labels =
     bindR (case json_loads fl line of Inl e \<Rightarrow> Inl (label_error ''label line '' number '' is not JSON'') | Inr v \<Rightarrow> Inr v) (\<lambda>row.
     bindR (guardR (exact_keys row LABEL_KEYS) (label_error ''label line '' number '' has missing or unsupported fields'')) (\<lambda>_.
     bindR (guardR (pget row ''schema_version'' = PStr ''labels-v1'') (label_error ''label line '' number '' has an unsupported schema'')) (\<lambda>_.
     bindR (label_digest number row) (\<lambda>digest.
     bindR (label_flag number row) (\<lambda>attack.
     bindR (label_start number attack row) (\<lambda>start.
     bindR (guardR (dict_get labels digest = None) (LabelErr (''duplicate label for vector '' @ digest))) (\<lambda>_.
     Inr (dict_set digest \<lparr>lb_sha256 = digest, lb_attack = attack, lb_scenario = pget row ''scenario_id'', lb_start = start\<rparr> labels))))))))"

fun load_lines :: "(string \<Rightarrow> pyfloat) \<Rightarrow> nat \<Rightarrow> string list \<Rightarrow> label dict \<Rightarrow> label dict res" where
  "load_lines fl number [] labels = Inr labels"
| "load_lines fl number (line # lines) labels =
     bindR (if strip line = [] then Inr labels else load_label fl number line labels) (load_lines fl (Suc number) lines)"

definition load_labels :: "prims \<Rightarrow> (string \<Rightarrow> pyfloat) \<Rightarrow> string \<Rightarrow> string option \<Rightarrow> label dict res" where
  "load_labels pr fl file expected_sha256 =
     bindR (guardR (case expected_sha256 of None \<Rightarrow> True | Some d \<Rightarrow> sha256_hexdigest pr file = d)
       (LabelErr ''label file digest does not match the dataset manifest'')) (\<lambda>_. load_lines fl 1 (split_lines [] file) [])"

definition labels_for :: "prims \<Rightarrow> pyval list \<Rightarrow> label dict \<Rightarrow> label list res" where
  "labels_for pr vectors labels = mapR (\<lambda>vector.
     bindR (canonical_hash pr vector) (\<lambda>digest.
     case dict_get labels digest of Some l \<Rightarrow> Inr l | None \<Rightarrow> Inl (LabelErr ''a vector in the evaluated partition has no label''))) vectors"

definition scenario_ids :: "label list \<Rightarrow> pyval set" where
  "scenario_ids labels = lb_scenario ` {l \<in> set labels. lb_attack l \<and> nonempty_str (lb_scenario l)}"

section \<open>The file a build writes\<close>

definition jsonl :: "prims \<Rightarrow> pyval list \<Rightarrow> string res" where
  "jsonl pr rows = bindR (mapR (\<lambda>row. if json_finite row then Inr (json_print True '' '' pr row @ [CHR 0x0A])
       else Inl (ValueError ''Out of range float values are not JSON compliant'')) rows) (\<lambda>lines. Inr (concat lines))"

text \<open>Printed JSON without floats is one line of printable ASCII.\<close>

definition printable :: "char \<Rightarrow> bool" where
  "printable c = (let n = of_char c :: nat in 32 \<le> n \<and> n \<le> 126)"

lemma printable_no_break: "printable c \<Longrightarrow> \<not> line_break c"
  by (auto simp: printable_def line_break_def Let_def)

lemma hex_digit_printable: "d < 16 \<Longrightarrow> printable (hex_digit d)"
  by (auto simp: hex_digit_def printable_def Let_def)

lemma escape_printable: "list_all printable (escape_char c)"
proof -
  have "of_char c < (256 :: nat)" by (rule nat_of_char_less_256)
  then have "of_char c div 16 < (16 :: nat)" "of_char c mod 16 < (16 :: nat)" by linarith+
  then show ?thesis by (auto simp: escape_char_def Let_def hex_digit_printable) (simp_all add: printable_def Let_def)
qed

lemma json_string_printable: "list_all printable (json_string s)"
  using escape_printable by (auto simp: json_string_def list_all_iff printable_def Let_def)

lemma label_line_printable:
  assumes "\<forall>x. sc = Some x \<longrightarrow> nonempty_str (sc_id x)"
  shows "list_all printable (json_print True '' '' pr (label_doc sha sc))"
proof -
  have j: "list_all printable (json_string s)" for s by (rule json_string_printable)
  have i: "list_all printable (show_int 0)" "list_all printable (show_int 1)" by code_simp+
  have sc: "list_all printable (json_print True '' '' pr (case sc of Some x \<Rightarrow> sc_id x | None \<Rightarrow> PNone))"
    using assms j by (auto simp: nonempty_str_conv printable_def split: option.split)
  have st: "list_all printable (json_print True '' '' pr (case sc of Some x \<Rightarrow> PStr (utc_text (sc_start x)) | None \<Rightarrow> PNone))"
    using j by (auto simp: printable_def split: option.split)
  show ?thesis using sc st i by (simp add: label_doc_def key_order_def j printable_def Let_def)
qed

lemma split_lines_line:
  "list_all printable line \<Longrightarrow> split_lines acc (line @ CHR 0x0A # rest) = (rev acc @ line) # split_lines [] rest"
proof (induction line arbitrary: acc)
  case Nil
  then show ?case by (simp add: line_break_def)
next
  case (Cons c cs)
  have "\<not> line_break c" "c \<noteq> CHR 0x0D" using Cons.prems printable_no_break [of c] by (auto simp: line_break_def)
  then show ?case using Cons by simp
qed

lemma split_lines_file:
  "\<forall>line \<in> set lines. list_all printable line \<Longrightarrow> split_lines [] (concat (map (\<lambda>line. line @ [CHR 0x0A]) lines)) = lines"
  by (induction lines) (simp_all add: split_lines_line)

text \<open>The label a row of a built dataset stands for.\<close>

definition label_of :: "string \<Rightarrow> scenario option \<Rightarrow> label" where
  "label_of sha sc = \<lparr>lb_sha256 = sha, lb_attack = (sc \<noteq> None), lb_scenario = (case sc of Some x \<Rightarrow> sc_id x | None \<Rightarrow> PNone),
     lb_start = map_option sc_start sc\<rparr>"

definition good_scenario :: "scenario option \<Rightarrow> bool" where
  "good_scenario sc \<longleftrightarrow> (case sc of Some x \<Rightarrow> nonempty_str (sc_id x) \<and> in_range (sc_start x) | None \<Rightarrow> True)"

lemma load_label_doc:
  assumes "good_scenario sc" "length sha = 64" "sha \<notin> fst ` set labels"
  shows "load_label fl number (json_print True '' '' pr (label_doc sha sc)) labels = Inr (labels @ [(sha, label_of sha sc)])"
proof -
  have sp: "list_all json_space '' ''" by (simp add: json_space_def)
  have ok: "json_ok pr fl (label_doc sha sc)"
    using assms(1) by (auto simp: label_doc_def good_scenario_def nonempty_str_conv split: option.splits)
  have read: "json_loads fl (json_print True '' '' pr (label_doc sha sc)) = Inr (arranged True (label_doc sha sc))"
    by (rule json_reads_back [OF ok sp])
  have row: "arranged True (label_doc sha sc) = PDict [(''label'', PInt (if sc = None then 0 else 1)),
      (''scenario_id'', (case sc of Some x \<Rightarrow> sc_id x | None \<Rightarrow> PNone)),
      (''scenario_start'', (case sc of Some x \<Rightarrow> PStr (utc_text (sc_start x)) | None \<Rightarrow> PNone)),
      (''schema_version'', PStr ''labels-v1''), (''vector_sha256'', PStr sha)]"
    using assms(1) by (auto simp: label_doc_def key_order_def good_scenario_def nonempty_str_conv split: option.splits)
  have keys: "exact_keys (arranged True (label_doc sha sc)) LABEL_KEYS" by (auto simp: row exact_keys_iff LABEL_KEYS_def)
  have new: "dict_set sha l labels = labels @ [(sha, l)]" for l using assms(3) by (intro dict_set_new) simp
  have none: "dict_get labels sha = None" using assms(3) by simp
  define r where "r = arranged True (label_doc sha sc)"
  have f: "pget r ''schema_version'' = PStr ''labels-v1''" "pget r ''vector_sha256'' = PStr sha" "pget r ''label'' = PInt (if sc = None then 0 else 1)"
    "pget r ''scenario_id'' = (case sc of Some x \<Rightarrow> sc_id x | None \<Rightarrow> PNone)"
    "pget r ''scenario_start'' = (case sc of Some x \<Rightarrow> PStr (utc_text (sc_start x)) | None \<Rightarrow> PNone)"
    unfolding r_def row by simp_all
  have d: "label_digest number r = Inr sha" using assms(2) by (simp add: label_digest_def f)
  have g: "label_flag number r = Inr (sc \<noteq> None)" by (simp add: label_flag_def f Let_def)
  have st: "label_start number (sc \<noteq> None) r = Inr (map_option sc_start sc)"
    using assms(1) by (cases sc) (simp_all add: label_start_def f scenario_instant_def fromisoformat_utc_text good_scenario_def)
  show ?thesis using keys none by (simp add: load_label_def read r_def [symmetric] f d g st new label_of_def del: not_None_eq)
qed

lemma label_line_strip: "strip (json_print True '' '' pr (label_doc sha sc)) \<noteq> []"
proof -
  have "\<not> is_space (CHR ''{'')" by code_simp
  moreover have "hd (json_print True '' '' pr (label_doc sha sc)) = CHR ''{''" "json_print True '' '' pr (label_doc sha sc) \<noteq> []"
    by (simp_all add: label_doc_def)
  ultimately show ?thesis by (cases "json_print True '' '' pr (label_doc sha sc)") (auto simp: strip_def dropWhile_eq_Nil_conv)
qed

lemma load_lines_docs:
  "\<forall>(sha, sc) \<in> set ps. good_scenario sc \<and> length sha = 64 \<Longrightarrow> distinct (map fst (labels @ ps)) \<Longrightarrow>
     load_lines fl number (map (\<lambda>(sha, sc). json_print True '' '' pr (label_doc sha sc)) ps) (map (\<lambda>(sha, sc). (sha, label_of sha sc)) labels)
       = Inr (map (\<lambda>(sha, sc). (sha, label_of sha sc)) (labels @ ps))"
proof (induction ps arbitrary: number labels)
  case (Cons p ps)
  obtain sha sc where p: "p = (sha, sc)" by (rule prod.exhaust)
  have "load_label fl number (json_print True '' '' pr (label_doc sha sc)) (map (\<lambda>(sha, sc). (sha, label_of sha sc)) labels)
      = Inr (map (\<lambda>(sha, sc). (sha, label_of sha sc)) (labels @ [p]))"
    using Cons.prems unfolding p by (subst load_label_doc) (auto simp: image_iff)
  moreover have "load_lines fl (Suc number) (map (\<lambda>(sha, sc). json_print True '' '' pr (label_doc sha sc)) ps)
      (map (\<lambda>(sha, sc). (sha, label_of sha sc)) (labels @ [p])) = Inr (map (\<lambda>(sha, sc). (sha, label_of sha sc)) ((labels @ [p]) @ ps))"
    using Cons.prems by (intro Cons.IH) auto
  ultimately show ?case using label_line_strip by (simp add: p)
qed simp

section \<open>Labels of a built dataset\<close>

definition labelled :: "dataset_job \<Rightarrow> (string \<times> scenario option) list \<Rightarrow> dataset_state \<Rightarrow> bool" where
  "labelled dj ps s \<longleftrightarrow> ds_labels s = map (\<lambda>(sha, sc). label_doc sha sc) ps \<and>
     (\<forall>(sha, sc) \<in> set ps. (\<forall>x. sc = Some x \<longrightarrow> x \<in> set (dj_scenarios dj)) \<and> (\<exists>t. sha = sha256_hexdigest (dj_prims dj) t)) \<and>
     (\<forall>name v. v \<in> set (ds_vectors s name) \<longrightarrow> (\<exists>sha sc. canonical_hash (dj_prims dj) v = Inr sha \<and>
        attack_scenario (dj_scenarios dj) v = Inr sc \<and> (sha, sc) \<in> set ps))"

lemma earliest_member: "earliest scs = Some x \<Longrightarrow> x \<in> set scs"
proof (cases scs)
  case (Cons y ys)
  have "foldl (\<lambda>m x. if sc_start x < sc_start m then x else m) y ys \<in> set (y # ys)" by (induction ys arbitrary: y) auto
  then show "earliest scs = Some x \<Longrightarrow> ?thesis" using Cons by auto
qed simp

lemma attack_scenario_member: "attack_scenario scs v = Inr (Some x) \<Longrightarrow> x \<in> set scs"
  by (auto simp: attack_scenario_def bindR_eq_Inr dest!: earliest_member split: if_splits)

lemma keep_vector_labelled:
  assumes "keep_vector dj events name sc vector s = Inr s'" "labelled dj ps s" "attack_scenario (dj_scenarios dj) vector = Inr sc"
  shows "\<exists>ps'. labelled dj ps' s'"
proof -
  obtain sha m where 1: "canonical_hash (dj_prims dj) vector = Inr sha"
    "s' = s\<lparr>ds_vectors := (ds_vectors s)(name := ds_vectors s name @ [vector]), ds_members := (ds_members s)(name := ds_members s name @ [m]),
       ds_labels := ds_labels s @ [label_doc sha sc]\<rparr>"
    using assms(1) unfolding keep_vector_def by (auto simp: bindR_eq_Inr Let_def)
  have "\<exists>t. sha = sha256_hexdigest (dj_prims dj) t" using 1(1) by (auto simp: canonical_hash_def sha256_hex_def split: if_splits)
  moreover have "\<forall>x. sc = Some x \<longrightarrow> x \<in> set (dj_scenarios dj)" using assms(3) attack_scenario_member by auto
  moreover have "\<exists>sh sc'. canonical_hash (dj_prims dj) v = Inr sh \<and> attack_scenario (dj_scenarios dj) v = Inr sc' \<and> (sh, sc') \<in> set (ps @ [(sha, sc)])"
    if "v \<in> set (ds_vectors s' n)" for n v
  proof (cases "v = vector")
    case True
    then show ?thesis using 1(1) assms(3) by auto
  next
    case False
    then have "v \<in> set (ds_vectors s n)" using that 1(2) by (auto split: if_splits)
    then show ?thesis using assms(2) unfolding labelled_def by fastforce
  qed
  ultimately have "labelled dj (ps @ [(sha, sc)]) s'" using assms(2) 1(2) by (simp add: labelled_def)
  then show ?thesis by blast
qed

lemma add_vector_labelled:
  assumes "add_vector dj boundaries events start vector s = Inr s'" "labelled dj ps s"
  shows "\<exists>ps'. labelled dj ps' s'"
proof -
  obtain name sc where 1: "attack_scenario (dj_scenarios dj) vector = Inr sc"
    and 2: "(let s1 = s\<lparr>ds_spread := (case sc of Some x \<Rightarrow> (sc_id x, name) # ds_spread s | None \<Rightarrow> ds_spread s)\<rparr> in
     if name = ''train'' \<and> sc \<noteq> None then Inr (s1\<lparr>ds_dropped := Suc (ds_dropped s)\<rparr>) else keep_vector dj events name sc vector s1) = Inr s'"
    using assms(1) unfolding add_vector_def by (auto simp: bindR_eq_Inr)
  let ?s1 = "s\<lparr>ds_spread := (case sc of Some x \<Rightarrow> (sc_id x, name) # ds_spread s | None \<Rightarrow> ds_spread s)\<rparr>"
  have s1: "labelled dj ps ?s1" "labelled dj ps (?s1\<lparr>ds_dropped := n\<rparr>)" for n using assms(2) by (simp_all add: labelled_def)
  show ?thesis
  proof (cases "name = ''train'' \<and> sc \<noteq> None")
    case True
    then show ?thesis using 2 s1(2) by (auto simp: Let_def)
  next
    case False
    then have "keep_vector dj events name sc vector ?s1 = Inr s'" using 2 by (simp only: Let_def False if_False)
    then show ?thesis by (rule keep_vector_labelled [OF _ s1(1) 1])
  qed
qed

lemma add_vectors_labelled:
  "add_vectors dj boundaries events start vectors s = Inr s' \<Longrightarrow> \<exists>ps. labelled dj ps s \<Longrightarrow> \<exists>ps. labelled dj ps s'"
proof (induction vectors arbitrary: s)
  case (Cons v vs)
  then obtain s1 ps where "add_vector dj boundaries events start v s = Inr s1" "add_vectors dj boundaries events start vs s1 = Inr s'" "labelled dj ps s"
    by (auto simp: bindR_eq_Inr)
  then show ?case using Cons.IH add_vector_labelled by blast
qed simp

lemma add_windows_labelled:
  "add_windows dj boundaries placed starts s = Inr s' \<Longrightarrow> \<exists>ps. labelled dj ps s \<Longrightarrow> \<exists>ps. labelled dj ps s'"
proof (induction starts arbitrary: s)
  case (Cons t ts)
  then obtain vs s1 where "add_vectors dj boundaries (window_events t placed) t vs s = Inr s1" "add_windows dj boundaries placed ts s1 = Inr s'"
    by (auto simp: bindR_eq_Inr)
  then show ?case using Cons add_vectors_labelled by blast
qed simp

lemma build_labelled:
  assumes "build_dataset dj boundaries events = Inr s"
  shows "\<exists>ps. labelled dj ps s"
proof -
  obtain placed starts where "add_windows dj boundaries placed starts empty_dataset = Inr s"
    using assms by (auto simp: build_dataset_def final_checks_def bindR_eq_Inr)
  then show ?thesis by (rule add_windows_labelled) (auto simp: labelled_def empty_dataset_def)
qed


section \<open>A written label file\<close>

text \<open>A digest that shows the end of the text: for a vector, the start of its window.\<close>

definition tail_prims :: prims where
  "tail_prims = \<lparr>sha256_hexdigest = (\<lambda>t. take 64 (rev t @ replicate 64 CHR ''a'')), float_repr = (\<lambda>r. ''0.0'')\<rparr>"

lemma join_with_snoc: "join_with sep (xs @ [x]) = (if xs = [] then x else join_with sep xs @ sep @ x)"
  by (induction sep xs rule: join_with.induct) simp_all

lemma canonical_ends:
  assumes "distinct (map fst kvs)" "(k, v) \<in> set kvs" "\<forall>p \<in> set kvs. fst p \<le> k"
  shows "\<exists>pre. canonical_json pr (PDict kvs) = pre @ json_string k @ '':'' @ canonical_json pr v @ ''}''"
proof -
  let ?ys = "sort_key fst (map (map_prod id (canonical_json pr)) kvs)"
  have ne: "?ys \<noteq> []" using assms(2) by (metis empty_iff list.map_disc_iff list.set(1) set_empty2 set_sort)
  have st: "set ?ys = map_prod id (canonical_json pr) ` set kvs" by simp
  have mem: "(k, canonical_json pr v) \<in> set ?ys" unfolding st using assms(2) by force
  have lt: "last ?ys \<in> set ?ys" using ne by (rule last_in_set)
  have "fst (last ?ys) \<le> k" using lt assms(3) unfolding st by auto
  moreover have "k \<le> fst (last ?ys)"
  proof -
    have "sorted (map fst ?ys)" by (rule sorted_sort_key)
    then have "sorted (map fst (butlast ?ys @ [last ?ys]))" using ne by simp
    moreover have "(k, canonical_json pr v) \<in> set (butlast ?ys @ [last ?ys])" using mem ne by simp
    ultimately have "(k, canonical_json pr v) \<in> set (butlast ?ys) \<and> fst (k, canonical_json pr v) \<le> fst (last ?ys) \<or> last ?ys = (k, canonical_json pr v)"
      by (auto simp: sorted_append)
    then show ?thesis by (metis fst_conv order_refl)
  qed
  ultimately have "fst (last ?ys) = k" by simp
  moreover have "distinct (map fst ?ys)" using assms(1) by (simp add: distinct_map inj_on_def) (force simp: inj_on_def map_prod_def)
  ultimately have l: "last ?ys = (k, canonical_json pr v)" using mem lt by (metis eq_key_imp_eq_value prod.collapse)
  obtain zs where ys: "?ys = zs @ [(k, canonical_json pr v)]" using ne l by (metis append_butlast_last_id)
  have "canonical_json pr (PDict kvs) = ''{'' @ join_with '','' (map (\<lambda>(k, t). json_string k @ '':'' @ t) zs @ [json_string k @ '':'' @ canonical_json pr v]) @ ''}''"
    by (simp only: canonical_json.simps ys map_append list.map case_prod_conv)
  then show ?thesis by (auto simp: join_with_snoc)
qed

definition shown_start :: "int \<Rightarrow> string" where
  "shown_start t = take 22 (''}'' @ [CHR 0x22] @ rev (concat (map escape_char (utc_text t))))"

lemma probe_digest:
  assumes "length (shown_start t) = 22"
  shows "take 22 (sha256_hex tail_prims (probe_vector tail_prims t)) = shown_start t"
proof -
  have i: "fv_event_id (probe_event t) = Inr ''e1''" by (simp add: fv_event_id_def probe_event_def)
  obtain kvs where v: "probe_vector tail_prims t = PDict kvs" and keys: "map fst kvs = [''schema_version'', ''feature_schema'', ''feature_schema_sha256'',
      ''vector_id'', ''entity_type'', ''entity'', ''window_start'', ''window_end'', ''window_duration'', ''source_event_count'',
      ''source_event_set_sha256'', ''generator_git_sha'', ''generated_at'', ''features'']"
    and m: "(''window_start'', PStr (utc_text t)) \<in> set kvs"
    by (simp add: probe_vector_def vector_doc_def source_event_set_sha256_def i probe_frame_def)
  have "list_all (\<lambda>k. k \<le> ''window_start'') [''schema_version'', ''feature_schema'', ''feature_schema_sha256'',
      ''vector_id'', ''entity_type'', ''entity'', ''window_start'', ''window_end'', ''window_duration'', ''source_event_count'',
      ''source_event_set_sha256'', ''generator_git_sha'', ''generated_at'', ''features'']" by code_simp
  then have "\<forall>p \<in> set kvs. fst p \<le> ''window_start''" unfolding keys [symmetric] by (auto simp: list_all_iff)
  moreover have "distinct (map fst kvs)" unfolding keys by simp
  ultimately obtain pre where c: "canonical_json tail_prims (PDict kvs) = pre @ json_string ''window_start'' @ '':'' @ canonical_json tail_prims (PStr (utc_text t)) @ ''}''"
    using canonical_ends [OF _ m] by blast
  let ?e = "''}'' @ [CHR 0x22] @ rev (concat (map escape_char (utc_text t)))"
  have r: "rev (canonical_json tail_prims (PDict kvs)) = ?e @ rev (pre @ json_string ''window_start'' @ '':'' @ [CHR 0x22])"
    unfolding c by (simp add: json_string_def)
  have "sha256_hexdigest tail_prims x = take 64 (rev x @ replicate 64 CHR ''a'')" for x by (simp add: tail_prims_def)
  then have "sha256_hex tail_prims (probe_vector tail_prims t) = take 64 (?e @ rev (pre @ json_string ''window_start'' @ '':'' @ [CHR 0x22]) @ replicate 64 CHR ''a'')"
    unfolding v sha256_hex_def by (simp only: r append_assoc)
  moreover have "22 \<le> length ?e" using assms by (simp add: shown_start_def)
  ultimately show ?thesis by (simp add: shown_start_def take_append min_def)
qed


text \<open>
  A build takes any hashable value as the identifier of a scenario; the loader of labels wants a string. A dataset whose scenarios
  are numbered therefore builds, and its own label file is refused.
\<close>

lemma numbered_scenario_refused:
  assumes "sc_id x = PInt i"
  shows "\<exists>e. load_label fl number (json_print True '' '' pr (label_doc sha (Some x))) labels = Inl e"
proof -
  have sp: "list_all json_space '' ''" by (simp add: json_space_def)
  have ok: "json_ok pr fl (label_doc sha (Some x))" using assms by (simp add: label_doc_def)
  define r where "r = arranged True (label_doc sha (Some x))"
  have f: "pget r ''label'' = PInt 1" "pget r ''scenario_id'' = PInt i" using assms by (simp_all add: r_def label_doc_def key_order_def)
  have g: "label_flag number r = Inr True" by (simp add: label_flag_def f)
  have "label_start number True r = Inl (label_error ''attack label on line '' number '' needs a scenario_id'')"
    by (simp add: label_start_def f nonempty_str_def)
  then show ?thesis using json_reads_back [OF ok sp, of True]
    by (cases "exact_keys r LABEL_KEYS"; cases "pget r ''schema_version'' = PStr ''labels-v1''"; cases "label_digest number r") (auto simp: load_label_def r_def [symmetric] g)
qed

end
