(* ===== verification/Doubles.thy ===== *)
theory Doubles
  imports Features
begin

text \<open>
  Arithmetic of Python floats as the scoring and evaluation code uses it: the exact result is rounded to the
  nearest double, ties to even, with gradual underflow and overflow to infinity. Signed zeros are not told apart,
  which no comparison does either.
\<close>

section \<open>Rounding\<close>

text \<open>Positive numbers: 53 significant bits, at least \<open>2 ^ -1074\<close> apart.\<close>

definition large_scale :: "rat \<Rightarrow> nat" where
  "large_scale q = (case List.find (\<lambda>k. q < 2 ^ (53 + k)) [0..<972] of Some k \<Rightarrow> k | None \<Rightarrow> 971)"

definition round_pos :: "rat \<Rightarrow> rat" where
  "round_pos q = (
     if q < 2 ^ 53 then (let k = double_scale q in of_int (round_even (q * 2 ^ k)) / 2 ^ k)
     else (let k = large_scale q in of_int (round_even (q / 2 ^ k)) * 2 ^ k))"

definition round_double :: "rat \<Rightarrow> pyfloat" where
  "round_double q = (
     if q = 0 then Fin 0
     else (let r = round_pos \<bar>q\<bar> in
       if 2 ^ 1024 \<le> r then (if 0 < q then PosInf else NegInf) else Fin (if 0 < q then r else - r)))"

section \<open>Operations\<close>

fun fneg :: "pyfloat \<Rightarrow> pyfloat" where
  "fneg (Fin r) = Fin (- r)"
| "fneg PosInf = NegInf"
| "fneg NegInf = PosInf"
| "fneg NaN = NaN"

definition fadd :: "pyfloat \<Rightarrow> pyfloat \<Rightarrow> pyfloat" where
  "fadd x y = (case (x, y) of
     (Fin a, Fin b) \<Rightarrow> round_double (a + b)
   | (NaN, _) \<Rightarrow> NaN
   | (_, NaN) \<Rightarrow> NaN
   | (Fin a, z) \<Rightarrow> z
   | (PosInf, NegInf) \<Rightarrow> NaN
   | (NegInf, PosInf) \<Rightarrow> NaN
   | (z, _) \<Rightarrow> z)"

definition fsub :: "pyfloat \<Rightarrow> pyfloat \<Rightarrow> pyfloat" where
  "fsub x y = fadd x (fneg y)"

definition division_by_zero :: exn where
  "division_by_zero = RuntimeErr ''float division by zero''"

definition fdiv :: "pyfloat \<Rightarrow> pyfloat \<Rightarrow> pyfloat res" where
  "fdiv x y = (if y = Fin 0 then Inl division_by_zero else Inr (case (x, y) of
     (Fin a, Fin b) \<Rightarrow> round_double (a / b)
   | (NaN, _) \<Rightarrow> NaN
   | (_, NaN) \<Rightarrow> NaN
   | (Fin a, _) \<Rightarrow> Fin 0
   | (PosInf, Fin b) \<Rightarrow> if 0 < b then PosInf else NegInf
   | (NegInf, Fin b) \<Rightarrow> if 0 < b then NegInf else PosInf
   | _ \<Rightarrow> NaN))"

text \<open>\<^verbatim>\<open>x >= y\<close>: false as soon as one is NaN.\<close>

definition float_ge :: "pyfloat \<Rightarrow> pyfloat \<Rightarrow> bool" where
  "float_ge x y = (case (x, y) of
     (Fin a, Fin b) \<Rightarrow> b \<le> a | (NaN, _) \<Rightarrow> False | (_, NaN) \<Rightarrow> False | (PosInf, _) \<Rightarrow> True | (_, NegInf) \<Rightarrow> True | _ \<Rightarrow> False)"

section \<open>How far rounding goes\<close>

lemma round_even_error: "\<bar>of_int (round_even x) - x\<bar> \<le> 1 / 2"
proof -
  define f where "f = (of_int \<lfloor>x\<rfloor> :: rat)"
  have f: "f \<le> x" "x < f + 1" unfolding f_def by linarith+
  have "of_int (round_even x) = (if x - f < 1 / 2 \<or> x - f = 1 / 2 \<and> even \<lfloor>x\<rfloor> then f else f + 1)"
    by (simp add: round_even_def Let_def f_def)
  then show ?thesis using f by (cases "x - f < 1 / 2 \<or> x - f = 1 / 2 \<and> even \<lfloor>x\<rfloor>") (simp_all add: abs_le_iff, linarith+)
qed

lemma round_even_int [simp]: "round_even (of_int n) = n"
  by (simp add: round_even_def)

lemma double_scale_bound:
  assumes "q < 2" "double_scale q = k"
  shows "52 \<le> k"
proof (cases "List.find (\<lambda>k. 2 ^ 52 \<le> q * 2 ^ k) [0..<1075]")
  case None
  then show ?thesis using assms(2) by (simp add: double_scale_def)
next
  case (Some j)
  then have j: "2 ^ 52 \<le> q * 2 ^ j" "j = k"
    using assms(2) by (simp_all only: double_scale_def option.case) (auto simp: find_Some_iff)
  have "q * 2 ^ j < 2 * 2 ^ j" using assms(1) by (intro mult_strict_right_mono) simp_all
  with j(1) have "2 ^ 52 < 2 * (2 :: rat) ^ j" by (rule le_less_trans)
  then have "(2 :: rat) ^ 52 < 2 ^ Suc j" by (simp only: power_Suc)
  then have "52 < Suc j" by (rule power_less_imp_less_exp [rotated]) simp
  then show ?thesis using j(2) by simp
qed

text \<open>Below 2 the error is at most \<open>2 ^ -53\<close>.\<close>

lemma round_pos_error:
  assumes "q < 2"
  shows "\<bar>round_pos q - q\<bar> \<le> 1 / 2 ^ 53"
proof -
  define k where "k = double_scale q"
  have k: "52 \<le> k" using double_scale_bound assms by (simp add: k_def)
  have "q < 2 ^ 53" using assms by (rule less_trans) simp
  then have r: "round_pos q = of_int (round_even (q * 2 ^ k)) / 2 ^ k" by (simp add: round_pos_def k_def Let_def)
  have "round_pos q - q = (of_int (round_even (q * 2 ^ k)) - q * 2 ^ k) / 2 ^ k" by (simp add: r diff_divide_distrib)
  then have "\<bar>round_pos q - q\<bar> = \<bar>of_int (round_even (q * 2 ^ k)) - q * 2 ^ k\<bar> / 2 ^ k" by (simp add: abs_divide)
  also have "\<dots> \<le> (1 / 2) / 2 ^ k" by (intro divide_right_mono round_even_error) simp
  also have "\<dots> \<le> (1 / 2) / 2 ^ 52" using k by (intro divide_left_mono power_increasing) simp_all
  finally show ?thesis by simp
qed

lemma round_double_small:
  assumes "0 \<le> q" "q < 2"
  obtains r where "round_double q = Fin r" "\<bar>r - q\<bar> \<le> 1 / 2 ^ 53"
proof (cases "q = 0")
  case True
  then show ?thesis using that by (simp add: round_double_def)
next
  case False
  have e: "\<bar>round_pos q - q\<bar> \<le> 1 / 2 ^ 53" using round_pos_error assms(2) by simp
  then have "round_pos q - q \<le> 1 / 2 ^ 53" by (rule abs_le_D1)
  also have "(1 :: rat) / 2 ^ 53 \<le> 1" by simp
  finally have "round_pos q \<le> 3" using assms(2) by linarith
  then have "\<not> 2 ^ 1024 \<le> round_pos q" by simp
  then show ?thesis using that e False assms(1) by (simp add: round_double_def Let_def)
qed

text \<open>Integers below \<open>2 ^ 53\<close> are doubles; evaluation uses this as a shortcut.\<close>

lemma round_pos_int:
  assumes "of_int n < (2 ^ 53 :: rat)"
  shows "round_pos (of_int n) = of_int n"
proof -
  define k where "k = double_scale (of_int n)"
  have "of_int n * 2 ^ k = (of_int (n * 2 ^ k) :: rat)" by simp
  then have "round_even (of_int n * 2 ^ k) = n * 2 ^ k" by (simp only: round_even_int)
  then show ?thesis using assms by (simp add: round_pos_def k_def Let_def)
qed

lemma round_double_int:
  assumes "\<bar>n\<bar> < 2 ^ 53"
  shows "round_double (of_int n) = Fin (of_int n)"
proof -
  have b: "of_int \<bar>n\<bar> < (2 ^ 53 :: rat)" using assms by (metis of_int_less_iff of_int_numeral of_int_power)
  have "\<bar>of_int n\<bar> = (of_int \<bar>n\<bar> :: rat)" by simp
  then have r: "round_pos \<bar>of_int n\<bar> = of_int \<bar>n\<bar>" using round_pos_int [OF b] by (simp only:)
  have "(2 :: rat) ^ 53 \<le> 2 ^ 1024" by (rule power_increasing) simp_all
  then have "\<not> 2 ^ 1024 \<le> (of_int \<bar>n\<bar> :: rat)" using b by linarith
  then show ?thesis unfolding round_double_def Let_def r by auto
qed

lemma round_double_code [code]:
  "round_double q = (
     if snd (quotient_of q) = 1 \<and> \<bar>fst (quotient_of q)\<bar> < 9007199254740992 then Fin q
     else (let r = round_pos \<bar>q\<bar> in
       if 2 ^ 1024 \<le> r then (if 0 < q then PosInf else NegInf) else Fin (if 0 < q then r else - r)))"
proof (cases "snd (quotient_of q) = 1 \<and> \<bar>fst (quotient_of q)\<bar> < 9007199254740992")
  case True
  obtain n d where q: "quotient_of q = (n, d)" by (rule prod.exhaust)
  have "q = of_int n" using quotient_of_div [OF q] True q by simp
  then show ?thesis using True q round_double_int [of n] by simp
next
  case False
  then have "q \<noteq> 0" by (auto simp: rat_zero_code)
  then show ?thesis using False by (auto simp: round_double_def Let_def)
qed

end
