(* ===== verification/Thresholds.thy ===== *)
theory Thresholds
  imports Doubles
begin

text \<open>
  \<^verbatim>\<open>ai/evaluation/threshold.py\<close>: the operating threshold of a detector, chosen on the validation partition. Scores and
  durations are finite doubles; a label is an \<^verbatim>\<open>int\<close>, true when it is not 0.
\<close>

section \<open>Selection\<close>

definition f1_score :: "nat \<Rightarrow> nat \<Rightarrow> nat \<Rightarrow> rat" where
  "f1_score tp fp fn = (let denominator = 2 * tp + fp + fn in if denominator = 0 then 0 else true_div (2 * tp) denominator)"

definition true_positives :: "int list \<Rightarrow> rat list \<Rightarrow> rat \<Rightarrow> nat" where
  "true_positives labels scores threshold = length (filter (\<lambda>(l, s). l \<noteq> 0 \<and> threshold \<le> s) (zip labels scores))"

definition false_positives :: "int list \<Rightarrow> rat list \<Rightarrow> rat \<Rightarrow> nat" where
  "false_positives labels scores threshold = length (filter (\<lambda>(l, s). l = 0 \<and> threshold \<le> s) (zip labels scores))"

definition exceeds :: "pyfloat \<Rightarrow> rat \<Rightarrow> bool" where
  "exceeds rate budget = (case rate of Fin r \<Rightarrow> budget < r | PosInf \<Rightarrow> True | _ \<Rightarrow> False)"

definition f1_at :: "int list \<Rightarrow> rat list \<Rightarrow> rat \<Rightarrow> rat" where
  "f1_at labels scores threshold = (let tp = true_positives labels scores threshold in
     f1_score tp (false_positives labels scores threshold) (length (filter (\<lambda>l. l \<noteq> 0) labels) - tp))"

definition alert_rate :: "int list \<Rightarrow> rat list \<Rightarrow> pyfloat \<Rightarrow> rat \<Rightarrow> pyfloat res" where
  "alert_rate labels scores hours threshold = fdiv (Fin (of_nat (false_positives labels scores threshold))) hours"

text \<open>The loop over the candidates; \<open>best\<close> is the pair of an F1 value and its threshold, compared as tuples.\<close>

definition better :: "rat \<times> rat \<Rightarrow> (rat \<times> rat) option \<Rightarrow> bool" where
  "better candidate best = (case best of None \<Rightarrow> True
     | Some b \<Rightarrow> fst b < fst candidate \<or> fst b = fst candidate \<and> snd b \<le> snd candidate)"

fun best_threshold :: "int list \<Rightarrow> rat list \<Rightarrow> pyfloat \<Rightarrow> rat \<Rightarrow> rat list \<Rightarrow> (rat \<times> rat) option \<Rightarrow> (rat \<times> rat) option res" where
  "best_threshold labels scores hours budget [] best = Inr best"
| "best_threshold labels scores hours budget (threshold # thresholds) best =
     bindR (alert_rate labels scores hours threshold) (\<lambda>rate.
     let candidate = (f1_at labels scores threshold, threshold) in
     best_threshold labels scores hours budget thresholds (if \<not> exceeds rate budget \<and> better candidate best then Some candidate else best))"

definition benign_scores :: "int list \<Rightarrow> rat list \<Rightarrow> rat list" where
  "benign_scores labels scores = map snd (filter (\<lambda>(l, s). l = 0) (zip labels scores))"

definition py_max :: "rat list \<Rightarrow> rat res" where
  "py_max xs = (case xs of [] \<Rightarrow> Inl (ValueError ''max() iterable argument is empty'') | y # ys \<Rightarrow> Inr (fold max ys y))"

definition just_above :: "rat \<Rightarrow> pyfloat" where
  "just_above highest = (let x = fadd (Fin highest) (round_double (1 / 1000000000)) in if float_ge x (Fin 1) then Fin 1 else x)"

definition select_threshold :: "int list \<Rightarrow> rat list \<Rightarrow> rat \<Rightarrow> rat \<Rightarrow> pyfloat res" where
  "select_threshold labels scores observation_seconds max_false_positives_per_hour =
     bindR (guardR (length labels = length scores \<and> labels \<noteq> []) (EvaluationErr ''labels and scores must be non-empty and equal length'')) (\<lambda>_.
     bindR (guardR (0 < observation_seconds \<and> 0 \<le> max_false_positives_per_hour)
       (EvaluationErr ''observation duration must be positive and the budget non-negative'')) (\<lambda>_.
     bindR (guardR (list_ex (\<lambda>l. l \<noteq> 0) labels \<and> \<not> list_all (\<lambda>l. l \<noteq> 0) labels)
       (EvaluationErr ''threshold selection needs both attack and benign vectors'')) (\<lambda>_.
     bindR (fdiv (Fin observation_seconds) (Fin 3600)) (\<lambda>hours.
     bindR (best_threshold labels scores hours max_false_positives_per_hour (sort (remdups scores)) None) (\<lambda>best.
     case best of
       Some b \<Rightarrow> Inr (Fin (snd b))
     | None \<Rightarrow>
         bindR (py_max (benign_scores labels scores)) (\<lambda>highest_benign.
         if 1 \<le> highest_benign then Inl (EvaluationErr ''no threshold satisfies the false-positive budget on validation'')
         else Inr (just_above highest_benign)))))))"

section \<open>The best threshold within the budget\<close>

definition within_budget :: "int list \<Rightarrow> rat list \<Rightarrow> pyfloat \<Rightarrow> rat \<Rightarrow> rat \<Rightarrow> bool" where
  "within_budget labels scores hours budget threshold \<longleftrightarrow> (\<exists>rate. alert_rate labels scores hours threshold = Inr rate \<and> \<not> exceeds rate budget)"

lemma better_refl: "better c (Some c)"
  by (simp add: better_def)

lemma better_trans: "better a (Some b) \<Longrightarrow> better b (Some c) \<Longrightarrow> better a (Some c)"
  by (auto simp: better_def)

lemma better_total: "\<not> better a (Some b) \<Longrightarrow> better b (Some a)"
  by (auto simp: better_def)

lemma best_threshold_best:
  assumes "best_threshold labels scores hours budget us best = Inr r"
  shows "(r = best \<or> (\<exists>u \<in> set us. within_budget labels scores hours budget u \<and> r = Some (f1_at labels scores u, u))) \<and>
    (\<forall>b. best = Some b \<longrightarrow> (\<exists>c. r = Some c \<and> better c (Some b))) \<and>
    (\<forall>u \<in> set us. within_budget labels scores hours budget u \<longrightarrow> (\<exists>c. r = Some c \<and> better c (Some (f1_at labels scores u, u))))"
  using assms
proof (induction us arbitrary: best)
  case Nil
  then show ?case by (auto simp: better_refl)
next
  case (Cons u us)
  let ?c = "(f1_at labels scores u, u)"
  obtain rate where rate: "alert_rate labels scores hours u = Inr rate"
    and rest: "best_threshold labels scores hours budget us (if \<not> exceeds rate budget \<and> better ?c best then Some ?c else best) = Inr r"
    using Cons.prems by (auto simp: bindR_eq_Inr Let_def)
  have w: "within_budget labels scores hours budget u \<longleftrightarrow> \<not> exceeds rate budget" using rate by (simp add: within_budget_def)
  note IH = Cons.IH [OF rest]
  show ?case
  proof (cases "\<not> exceeds rate budget \<and> better ?c best")
    case True
    then obtain c where c: "r = Some c" "better c (Some ?c)" using IH by auto
    have "\<exists>d. r = Some d \<and> better d (Some b)" if "best = Some b" for b using c True that better_trans by blast
    then show ?thesis using IH True w c by auto
  next
    case False
    have "\<exists>c. r = Some c \<and> better c (Some ?c)" if low: "\<not> exceeds rate budget"
    proof -
      have "\<not> better ?c best" using False low by blast
      then obtain b where b: "best = Some b" "\<not> better ?c (Some b)" by (cases best) (auto simp: better_def)
      then obtain c where "r = Some c" "better c (Some b)" using IH False by auto
      then show ?thesis using better_trans better_total [OF b(2)] by blast
    qed
    moreover have "best_threshold labels scores hours budget us best = Inr r" using rest False by auto
    ultimately show ?thesis using Cons.IH [of best] w by auto
  qed
qed

lemma py_max_ge: "py_max xs = Inr m \<Longrightarrow> x \<in> set xs \<Longrightarrow> x \<le> m"
proof -
  have "y \<le> fold max ys y \<and> (\<forall>x \<in> set ys. x \<le> fold max ys y)" for y :: rat and ys
  proof (induction ys arbitrary: y)
    case (Cons z zs)
    have "max z y \<le> fold max zs (max z y)" "\<forall>x \<in> set zs. x \<le> fold max zs (max z y)" using Cons [of "max z y"] by blast+
    then show ?case by simp
  qed simp
  then show "py_max xs = Inr m \<Longrightarrow> x \<in> set xs \<Longrightarrow> x \<le> m" by (auto simp: py_max_def split: list.splits)
qed

lemma just_above_gt:
  assumes "0 \<le> h" "h < 1"
  obtains t where "just_above h = Fin t" "h < t" "t \<le> 1"
proof -
  obtain e where e: "round_double (1 / 1000000000) = Fin e" "\<bar>e - 1 / 1000000000\<bar> \<le> 1 / 2 ^ 53"
    by (rule round_double_small [of "1 / 1000000000"]) simp_all
  have d: "(1 :: rat) / 2 ^ 53 < 1 / 2000000000" by simp
  have e2: "1 / 2000000000 < e" "e < 1" using abs_le_D1 [OF e(2)] abs_le_D2 [OF e(2)] d by linarith+
  obtain r where r: "round_double (h + e) = Fin r" "\<bar>r - (h + e)\<bar> \<le> 1 / 2 ^ 53"
    by (rule round_double_small [of "h + e"]) (use assms e2 in linarith)+
  have "h < r" using abs_le_D2 [OF r(2)] e2 d by linarith
  then show ?thesis using that assms e(1) r(1) by (cases "1 \<le> r") (simp_all add: just_above_def fadd_def float_ge_def Let_def)
qed

lemma no_benign_above:
  assumes "length labels = length scores" "\<forall>x \<in> set (benign_scores labels scores). x < t"
  shows "false_positives labels scores t = 0"
proof -
  have "\<not> (l = 0 \<and> t \<le> s)" if "(l, s) \<in> set (zip labels scores)" for l s
  proof
    assume "l = 0 \<and> t \<le> s"
    then have "s \<in> set (benign_scores labels scores)" using that by (force simp: benign_scores_def)
    then show False using assms(2) \<open>l = 0 \<and> t \<le> s\<close> by force
  qed
  then show ?thesis by (auto simp: false_positives_def filter_empty_conv)
qed

lemma no_alerts_within: "false_positives labels scores t = 0 \<Longrightarrow> hours \<noteq> Fin 0 \<Longrightarrow> hours \<noteq> NaN \<Longrightarrow> 0 \<le> budget \<Longrightarrow> within_budget labels scores hours budget t"
  by (cases hours) (auto simp: within_budget_def alert_rate_def fdiv_def exceeds_def round_double_def)

lemma best_threshold_hours:
  assumes "best_threshold labels scores hours budget us best = Inr r" "us \<noteq> []"
  shows "hours \<noteq> Fin 0"
  using assms by (cases us) (auto simp: bindR_eq_Inr alert_rate_def fdiv_def)

lemma hours_number: "fdiv (Fin a) (Fin 3600) = Inr hours \<Longrightarrow> hours \<noteq> NaN"
  by (auto simp: fdiv_def round_double_def Let_def split: if_splits)

text \<open>
  C37. A selected threshold keeps the alert budget on the validation partition, and no observed score that keeps
  it gives a better F1 value; among equally good ones the threshold is the highest. All values are the
  ones the code computes in double precision. When no observed score keeps the budget, the threshold lies above every
  benign score.
\<close>

theorem threshold_optimal:
  assumes "select_threshold labels scores observation_seconds budget = Inr f" "\<forall>s \<in> set scores. 0 \<le> s"
  shows "\<exists>hours t. fdiv (Fin observation_seconds) (Fin 3600) = Inr hours \<and> f = Fin t \<and> within_budget labels scores hours budget t \<and>
     (\<forall>u \<in> set scores. within_budget labels scores hours budget u \<longrightarrow>
        f1_at labels scores u < f1_at labels scores t \<or> f1_at labels scores u = f1_at labels scores t \<and> u \<le> t) \<and>
     (t \<in> set scores \<or> (\<forall>u \<in> set scores. \<not> within_budget labels scores hours budget u) \<and> false_positives labels scores t = 0)"
proof -
  obtain hours best where g: "length labels = length scores" "labels \<noteq> []" "0 \<le> budget" "fdiv (Fin observation_seconds) (Fin 3600) = Inr hours"
    "best_threshold labels scores hours budget (sort (remdups scores)) None = Inr best"
    and r: "(case best of Some b \<Rightarrow> Inr (Fin (snd b)) | None \<Rightarrow> bindR (py_max (benign_scores labels scores)) (\<lambda>highest_benign.
         if 1 \<le> highest_benign then Inl (EvaluationErr ''no threshold satisfies the false-positive budget on validation'')
         else Inr (just_above highest_benign))) = Inr f"
    using assms(1) by (auto simp: select_threshold_def bindR_eq_Inr)
  note b = best_threshold_best [OF g(5)]
  show ?thesis
  proof (cases best)
    case (Some c)
    then obtain u where u: "u \<in> set scores" "within_budget labels scores hours budget u" "c = (f1_at labels scores u, u)" using b by auto
    have "f1_at labels scores v < f1_at labels scores u \<or> f1_at labels scores v = f1_at labels scores u \<and> v \<le> u"
      if "v \<in> set scores" "within_budget labels scores hours budget v" for v
      using b that Some u(3) by (auto simp: better_def)
    moreover have "f = Fin u" using r Some u(3) by simp
    ultimately show ?thesis using g(4) u(1,2) by blast
  next
    case None
    then obtain h where h: "py_max (benign_scores labels scores) = Inr h" "h < 1" "f = just_above h"
      using r by (auto simp: bindR_eq_Inr split: if_splits)
    have "h \<in> set (benign_scores labels scores)"
    proof -
      have "fold max ys y \<in> set (y # ys)" for y :: rat and ys by (induction ys arbitrary: y) (auto simp: max_def split: if_splits)
      then show ?thesis using h(1) by (auto simp: py_max_def split: list.splits)
    qed
    then have "h \<in> set scores" by (auto simp: benign_scores_def dest: set_zip_rightD)
    then have "0 \<le> h" using assms(2) by blast
    then obtain t where t: "f = Fin t" "h < t" using just_above_gt [of h] h(2,3) by metis
    have z: "false_positives labels scores t = 0"
      by (rule no_benign_above [OF g(1)]) (use py_max_ge [OF h(1)] t(2) in \<open>meson le_less_trans\<close>)
    have "sort (remdups scores) \<noteq> []" using g(1,2) by (metis length_0_conv remdups_eq_nil_iff set_empty2 set_sort)
    then have "within_budget labels scores hours budget t"
      using no_alerts_within [OF z best_threshold_hours [OF g(5)] hours_number [OF g(4)] g(3)] by blast
    moreover have "\<forall>u \<in> set scores. \<not> within_budget labels scores hours budget u" using b None by auto
    ultimately show ?thesis using g(4) t(1) z by blast
  qed
qed

theorem threshold_optimal_witness:
  "\<exists>hours t. fdiv (Fin 3600) (Fin 3600) = Inr hours \<and> select_threshold [1, 0, 1] [1, 0, 1] 3600 0 = Inr (Fin t) \<and>
     within_budget [1, 0, 1] [1, 0, 1] hours 0 t"
proof -
  have o: "round_double 1 = Fin 1" "round_double 0 = Fin 0" using round_double_int [of 1] round_double_int [of 0] by simp_all
  then have d: "fdiv (Fin 3600) (Fin 3600) = Inr (Fin 1)" by (simp add: fdiv_def)
  have u: "sort (remdups [1, 0, 1 :: rat]) = [0, 1]" by simp
  have "false_positives [1, 0, 1] [1, 0, 1] 0 = 1" "false_positives [1, 0, 1] [1, 0, 1] 1 = 0" by (simp_all add: false_positives_def)
  then have b: "best_threshold [1, 0, 1] [1, 0, 1] (Fin 1) 0 [0, 1] None = Inr (Some (f1_at [1, 0, 1] [1, 0, 1] 1, 1))"
    by (simp add: alert_rate_def fdiv_def o exceeds_def better_def Let_def)
  have s: "select_threshold [1, 0, 1] [1, 0, 1] 3600 0 = Inr (Fin 1)" by (simp only: select_threshold_def u d) (simp add: b del: best_threshold.simps)
  have n: "\<forall>s \<in> set [1, 0, 1 :: rat]. 0 \<le> s" by simp
  show ?thesis using threshold_optimal [OF s n] s by (elim exE conjE) (intro exI conjI; simp)
qed

end
