(* ===== verification/Registry.thy ===== *)
theory Registry
  imports Enrichment Partitions Doubles
begin

text \<open>
  The approved-model registry (\<^verbatim>\<open>ai/models/isolation_forest.py\<close>), with the rows and matrices of
  \<^verbatim>\<open>ai/features/contracts.py\<close> and \<^verbatim>\<open>sequences.py\<close>. A registry directory is its files by name. Parameters: the JSON
  schema of the provenance record, the digests of the repository's feature schemas, path resolution, the two
  deserialisers with the models' raw scores (\<^verbatim>\<open>joblib\<close>, scikit-learn, safetensors and torch) and \<^verbatim>\<open>float(str)\<close>. Fitting a forest is not modelled.
\<close>

section \<open>Models\<close>

datatype model_kind = Isolation_forest | Lstm_autoencoder | Foreign_object

record loaded_model =
  lm_kind :: model_kind
  lm_schema :: string
  lm_schema_sha256 :: string
  lm_names :: "string list"
  lm_low :: pyfloat
  lm_high :: pyfloat
  lm_length :: int
  lm_decision :: "pyfloat list \<Rightarrow> pyfloat"
  lm_matrix_score :: "pyfloat list list \<Rightarrow> pyfloat res"

record registry =
  rg_prims :: prims
  rg_float :: "string \<Rightarrow> pyfloat"
  rg_parse :: "string \<Rightarrow> pyfloat option"
  rg_provenance_ok :: "pyval \<Rightarrow> bool"
  rg_schema_sha256 :: "string \<Rightarrow> string option"
  rg_resolve :: "string \<Rightarrow> string option"
  rg_joblib :: "string \<Rightarrow> loaded_model option"
  rg_safetensors :: "string \<Rightarrow> loaded_model option"
  rg_files :: "string \<Rightarrow> string option"

record approved_model =
  am_model :: loaded_model
  am_metadata :: pyval
  am_metadata_sha256 :: string
  am_model_sha256 :: string

definition refuse :: "string \<Rightarrow> exn" where
  "refuse m = ModelProvenance m"

definition validate_provenance :: "registry \<Rightarrow> pyval \<Rightarrow> unit res" where
  "validate_provenance rg metadata = guardR (rg_provenance_ok rg metadata \<and> json_finite metadata)
     (refuse ''model provenance does not satisfy model-provenance-v1'')"

definition artifact_layout :: "pyval \<Rightarrow> (string \<times> string) res" where
  "artifact_layout algorithm = (
     if is_list algorithm \<or> is_mapping algorithm then Inl (TypeErr ''unhashable type'')
     else if algorithm = PStr ''IsolationForest'' then Inr (''joblib'', ''model.joblib'')
     else if algorithm = PStr ''LSTMAutoencoder'' then Inr (''safetensors'', ''model.safetensors'')
     else Inl (refuse ''this loader does not serve that model algorithm''))"

definition path_name :: "string \<Rightarrow> string" where
  "path_name p = (case filter (\<lambda>x. x \<noteq> [] \<and> x \<noteq> ''.'') (split_on (CHR ''/'') p) of [] \<Rightarrow> [] | xs \<Rightarrow> last xs)"

text \<open>\<open>rg_resolve\<close> gives the file of the registry a relative path resolves to, \<^const>\<open>None\<close> when it leaves the directory.\<close>

definition safe_artifact_path :: "registry \<Rightarrow> pyval \<Rightarrow> string \<Rightarrow> string res" where
  "safe_artifact_path rg relative expected = (case relative of
     PStr p \<Rightarrow> (if p = [] then Inl (refuse ''model provenance is missing artifact.path'')
       else if starts_with ''/'' p \<or> path_name p \<noteq> expected then Inl (refuse (''model artifact must be the registry-local '' @ expected @ '' file''))
       else (case rg_resolve rg p of None \<Rightarrow> Inl (refuse ''model artifact path escapes its registry directory'') | Some f \<Rightarrow> Inr f))
   | _ \<Rightarrow> Inl (refuse ''model provenance is missing artifact.path''))"

definition MAX_MODEL :: nat where
  "MAX_MODEL = 128 * 1024 * 1024"

definition read_metadata :: "registry \<Rightarrow> string \<Rightarrow> pyval res" where
  "read_metadata rg trusted = (case rg_files rg ''metadata.json'' of
     None \<Rightarrow> Inl (refuse ''cannot read approved model metadata'')
   | Some bytes \<Rightarrow>
       bindR (guardR (sha256_hexdigest (rg_prims rg) bytes = trusted) (refuse ''metadata digest does not match the deployment approval'')) (\<lambda>_.
       case json_loads (rg_float rg) bytes of Inl e \<Rightarrow> Inl (refuse ''cannot read approved model metadata'') | Inr v \<Rightarrow> Inr v))"

definition read_artifact :: "registry \<Rightarrow> pyval \<Rightarrow> string \<Rightarrow> string res" where
  "read_artifact rg artifact expected =
     bindR (safe_artifact_path rg (pget artifact ''path'') expected) (\<lambda>file.
     case rg_files rg file of
       None \<Rightarrow> Inl (refuse ''approved model artifact is missing'')
     | Some bytes \<Rightarrow>
         bindR (guardR (length bytes \<le> MAX_MODEL) (refuse ''model artifact exceeds 128 MiB limit'')) (\<lambda>_.
         bindR (guardR (PStr (sha256_hexdigest (rg_prims rg) bytes) = pget artifact ''sha256'') (refuse ''model artifact digest does not match provenance'')) (\<lambda>_.
         bindR (guardR (eq_int (pget artifact ''size_bytes'') (int (length bytes))) (refuse ''model artifact size does not match provenance'')) (\<lambda>_. Inr bytes))))"

definition check_contract :: "registry \<Rightarrow> pyval \<Rightarrow> (string \<times> string) res" where
  "check_contract rg metadata =
     bindR (py_item metadata ''feature_schema'') (\<lambda>fm.
     bindR (guardR (is_mapping fm) (refuse ''model provenance is missing feature schema metadata'')) (\<lambda>_.
     bindR (case pget fm ''id'' of PStr s \<Rightarrow> Inr s | _ \<Rightarrow> Inl (refuse ''model provenance feature schema ID is invalid'')) (\<lambda>schema.
     bindR (case rg_schema_sha256 rg schema of Some d \<Rightarrow> Inr d | None \<Rightarrow> Inl (refuse ''repository feature contract is unavailable'')) (\<lambda>sha.
     bindR (guardR (PStr sha = pget fm ''sha256'') (refuse ''repository feature schema digest does not match provenance'')) (\<lambda>_.
     bindR (guardR (map_option (sha256_hexdigest (rg_prims rg)) (rg_files rg ''feature_schema.json'') = Some sha)
       (refuse ''registry feature schema copy does not match provenance'')) (\<lambda>_.
     Inr (schema, sha)))))))"

definition deserialize :: "registry \<Rightarrow> pyval \<Rightarrow> string \<Rightarrow> loaded_model res" where
  "deserialize rg metadata bytes = (
     if pget metadata ''algorithm'' = PStr ''IsolationForest''
     then (case rg_joblib rg bytes of
         None \<Rightarrow> Inl (refuse ''verified model artifact could not be loaded'')
       | Some m \<Rightarrow> if lm_kind m \<noteq> Isolation_forest then Inl (refuse ''joblib artifact is not a CompanyXYZ Isolation Forest'') else Inr m)
     else (case rg_safetensors rg bytes of
         None \<Rightarrow> Inl (refuse ''LSTM artifact could not be read'')
       | Some m \<Rightarrow>
           bindR (bindR (py_item metadata ''training'') (\<lambda>tr. py_item tr ''hyperparameters'')) (\<lambda>declared.
           bindR (guardR (is_mapping declared) (AttributeErr ''get'')) (\<lambda>_.
           bindR (guardR (eq_int (pget declared ''sequence_length'') (lm_length m)) (refuse ''LSTM sequence length does not match provenance'')) (\<lambda>_. Inr m)))))"

definition check_model :: "string \<Rightarrow> string \<Rightarrow> loaded_model \<Rightarrow> unit res" where
  "check_model schema sha m = (case (lm_low m, lm_high m) of
     (Fin low, Fin high) \<Rightarrow>
       bindR (guardR (low < high) (refuse ''model calibration interval is invalid'')) (\<lambda>_.
       bindR (guardR (lm_schema m = schema \<and> lm_schema_sha256 m = sha) (refuse ''model-internal feature contract does not match provenance'')) (\<lambda>_.
       guardR (expected_feature_names schema = Inr (lm_names m)) (refuse (''model feature order does not match '' @ schema @ ''; retraining is required''))))
   | _ \<Rightarrow> Inl (refuse ''model calibration is not finite''))"

definition load_approved_model :: "registry \<Rightarrow> string option \<Rightarrow> approved_model res" where
  "load_approved_model rg trusted = (case trusted of
     None \<Rightarrow> Inl (refuse ''an independently approved metadata SHA-256 is required'')
   | Some d \<Rightarrow>
       bindR (guardR (is_sha256_hex d) (refuse ''an independently approved metadata SHA-256 is required'')) (\<lambda>_.
       bindR (read_metadata rg d) (\<lambda>metadata.
       bindR (validate_provenance rg metadata) (\<lambda>_.
       bindR (guardR (is_mapping metadata) (AttributeErr ''get'')) (\<lambda>_.
       bindR (guardR (pget metadata ''status'' = PStr ''approved'') (refuse ''only an approved model may serve inference'')) (\<lambda>_.
       bindR (artifact_layout (pget metadata ''algorithm'')) (\<lambda>(fmt, expected).
       bindR (py_item metadata ''artifact'') (\<lambda>artifact.
       bindR (guardR (is_mapping artifact \<and> pget artifact ''format'' = PStr fmt) (refuse (''model artifact must be a '' @ fmt @ '' artifact''))) (\<lambda>_.
       bindR (read_artifact rg artifact expected) (\<lambda>bytes.
       bindR (check_contract rg metadata) (\<lambda>(schema, sha).
       bindR (deserialize rg metadata bytes) (\<lambda>m.
       bindR (check_model schema sha m) (\<lambda>_.
       Inr \<lparr>am_model = m, am_metadata = metadata, am_metadata_sha256 = d, am_model_sha256 = sha256_hexdigest (rg_prims rg) bytes\<rparr>)))))))))))))"

section \<open>Scores\<close>

definition to_float :: "registry \<Rightarrow> pyval \<Rightarrow> pyfloat res" where
  "to_float rg v = (case v of
     PFloat f \<Rightarrow> Inr f
   | PInt i \<Rightarrow> if float_overflows i then Inl OverflowErr else Inr (round_double (of_int i))
   | PBool b \<Rightarrow> Inr (Fin (if b then 1 else 0))
   | PStr s \<Rightarrow> (case rg_parse rg s of Some f \<Rightarrow> Inr f | None \<Rightarrow> Inl (ValueError ''could not convert string to float''))
   | _ \<Rightarrow> Inl (TypeErr ''float() argument must be a string or a real number''))"

definition ordered_feature_row :: "registry \<Rightarrow> string \<Rightarrow> pyval \<Rightarrow> pyfloat list res" where
  "ordered_feature_row rg feature_schema features =
     bindR (require_exact_features feature_schema features) (\<lambda>_.
     bindR (expected_feature_names feature_schema) (\<lambda>names. mapR (\<lambda>nm. to_float rg (pget features nm)) names))"

definition sequence_matrix :: "registry \<Rightarrow> string \<Rightarrow> pyval list \<Rightarrow> pyval \<Rightarrow> pyfloat list list res" where
  "sequence_matrix rg feature_schema history features =
     bindR (expected_feature_names feature_schema) (\<lambda>names.
     bindR (mapR (\<lambda>item. if item = PNone then Inr (replicate (length names) (Fin 0)) else ordered_feature_row rg feature_schema item) history) (\<lambda>rows.
     bindR (ordered_feature_row rg feature_schema features) (\<lambda>row. Inr (rows @ [row]))))"

text \<open>\<^verbatim>\<open>max(0.0, min(1.0, score))\<close>; a comparison with NaN is false, so \<^verbatim>\<open>min\<close> keeps 1.0.\<close>

definition clamp :: "pyfloat \<Rightarrow> rat" where
  "clamp f = (case f of Fin r \<Rightarrow> max 0 (min 1 r) | NegInf \<Rightarrow> 0 | _ \<Rightarrow> 1)"

definition forest_score :: "registry \<Rightarrow> loaded_model \<Rightarrow> pyval \<Rightarrow> pyval list \<Rightarrow> rat res" where
  "forest_score rg m features history =
     bindR (guardR (history = []) (FeatureSchema ''the Isolation Forest scores one window; history is not accepted'')) (\<lambda>_.
     bindR (ordered_feature_row rg (lm_schema m) features) (\<lambda>row.
     case fneg (lm_decision m row) of
       Fin raw \<Rightarrow> bindR (fdiv (fsub (Fin raw) (lm_low m)) (fsub (lm_high m) (lm_low m))) (\<lambda>score. Inr (clamp score))
     | _ \<Rightarrow> Inl (refuse ''model returned a non-finite score'')))"

definition am_text :: "registry \<Rightarrow> string \<Rightarrow> approved_model \<Rightarrow> string res" where
  "am_text rg k am = bindR (py_item (am_metadata am) k) (\<lambda>v. Inr (py_str (rg_prims rg) v))"

definition am_threshold :: "registry \<Rightarrow> approved_model \<Rightarrow> pyfloat res" where
  "am_threshold rg am = bindR (py_item (am_metadata am) ''threshold'') (to_float rg)"

definition model_infer :: "registry \<Rightarrow> approved_model \<Rightarrow> pyval \<Rightarrow> pyval list \<Rightarrow> (pyfloat \<times> bool) res" where
  "model_infer rg am features history =
     bindR (if 1 < lm_length (am_model am)
       then (if int (length history) \<noteq> lm_length (am_model am) - 1
         then bindR (am_text rg ''algorithm'' am) (\<lambda>a.
           Inl (FeatureSchema (a @ '' requires exactly '' @ show_int (lm_length (am_model am) - 1) @ '' history windows'')))
         else bindR (sequence_matrix rg (lm_schema (am_model am)) history features) (lm_matrix_score (am_model am)))
       else bindR (forest_score rg (am_model am) features history) (\<lambda>r. Inr (Fin r))) (\<lambda>score.
     bindR (am_threshold rg am) (\<lambda>threshold.
     Inr (score, float_ge score threshold)))"

end
