(* ===== verification/Scoring_Api.thy ===== *)
theory Scoring_Api
  imports Registry
begin

text \<open>
  The scoring API (\<^verbatim>\<open>ai/api/main.py\<close>): the model provider, the counters and the five routes. State is the
  provider's cache and the counters; the registry directory may change between requests, and \<open>ms\<close> is
  the time the clock measures. A lock makes each access to the provider and to the counters atomic, so a request
  is one step. FastAPI's routing and the text of its own validation errors are not modelled.
\<close>

section \<open>State\<close>

record scoring_api =
  sa_model :: "approved_model option"
  sa_last_error :: "string option"
  sa_requests :: nat
  sa_errors :: nat
  sa_last_ms :: pyfloat

definition fresh_api :: scoring_api where
  "fresh_api = \<lparr>sa_model = None, sa_last_error = None, sa_requests = 0, sa_errors = 0, sa_last_ms = Fin 0\<rparr>"

record inference_request =
  rq_schema :: string
  rq_entity :: string
  rq_features :: pyval
  rq_history :: "pyval list"

text \<open>\<open>Invalid_request\<close> is the framework's own \<^verbatim>\<open>422\<close>, \<open>Http_error\<close> an \<^verbatim>\<open>HTTPException\<close>, \<open>Crashed\<close> a \<^verbatim>\<open>500\<close>.\<close>

datatype reply = Answer pyval | Invalid_request | Http_error nat pyval | Crashed exn

definition number_dict :: "pyval \<Rightarrow> bool" where
  "number_dict v = (is_mapping v \<and> list_all (\<lambda>(k, x). as_number x \<noteq> None) (entries v))"

definition well_formed_request :: "inference_request \<Rightarrow> bool" where
  "well_formed_request rq \<longleftrightarrow> rq_schema rq \<in> {''network-window-v1'', ''endpoint-window-v1''} \<and>
     1 \<le> length (rq_entity rq) \<and> length (rq_entity rq) \<le> 255 \<and> number_dict (rq_features rq) \<and> entries (rq_features rq) \<noteq> [] \<and>
     length (rq_history rq) \<le> 287 \<and> list_all (\<lambda>v. v = PNone \<or> number_dict v) (rq_history rq)"

section \<open>Counters and provider\<close>

definition record_success :: "pyfloat \<Rightarrow> scoring_api \<Rightarrow> scoring_api" where
  "record_success ms s = s\<lparr>sa_requests := Suc (sa_requests s), sa_last_ms := ms\<rparr>"

definition record_error :: "scoring_api \<Rightarrow> scoring_api" where
  "record_error s = s\<lparr>sa_errors := Suc (sa_errors s)\<rparr>"

definition prometheus :: "(pyfloat \<Rightarrow> string) \<Rightarrow> scoring_api \<Rightarrow> string" where
  "prometheus fixed6 s = join_with [CHR 0x0A]
     [''# TYPE cxyz_soc_ai_inference_requests_total counter'',
      ''cxyz_soc_ai_inference_requests_total '' @ show_nat (sa_requests s),
      ''# TYPE cxyz_soc_ai_inference_errors_total counter'',
      ''cxyz_soc_ai_inference_errors_total '' @ show_nat (sa_errors s),
      ''# TYPE cxyz_soc_ai_last_inference_milliseconds gauge'',
      ''cxyz_soc_ai_last_inference_milliseconds '' @ fixed6 (sa_last_ms s),
      []]"

definition provider_get :: "registry \<Rightarrow> string option \<Rightarrow> (scoring_api, approved_model) ex" where
  "provider_get rg trusted s = (case sa_model s of
     Some am \<Rightarrow> (Inr am, s)
   | None \<Rightarrow> (case load_approved_model rg trusted of
         Inl (ModelProvenance m) \<Rightarrow> (Inl (ModelProvenance m), s\<lparr>sa_last_error := Some m\<rparr>)
       | Inl e \<Rightarrow> (Inl e, s)
       | Inr am \<Rightarrow> (Inr am, s\<lparr>sa_model := Some am, sa_last_error := None\<rparr>)))"

definition not_ready_reason :: "scoring_api \<Rightarrow> string" where
  "not_ready_reason s = (case sa_last_error s of Some m \<Rightarrow> (if m \<noteq> [] then m else ''model registry unavailable'') | None \<Rightarrow> ''model registry unavailable'')"

definition unavailable :: "scoring_api \<Rightarrow> reply \<times> scoring_api" where
  "unavailable s = (Http_error 503 (PDict [(''code'', PStr ''MODEL_NOT_READY''),
     (''message'', PStr ''No verified approved model is available; static SOC detections continue independently.''),
     (''reason'', PStr (not_ready_reason s))]), record_error s)"

definition refused :: "pyval \<Rightarrow> scoring_api \<Rightarrow> reply \<times> scoring_api" where
  "refused detail s = (Http_error 422 detail, record_error s)"

fun on_load_error :: "exn \<Rightarrow> scoring_api \<Rightarrow> reply \<times> scoring_api" where
  "on_load_error (ModelProvenance m) s = unavailable s"
| "on_load_error e s = (Crashed e, s)"

fun on_schema_error :: "exn \<Rightarrow> scoring_api \<Rightarrow> reply \<times> scoring_api" where
  "on_schema_error (FeatureSchema m) s = refused (PStr m) s"
| "on_schema_error e s = (Crashed e, s)"

fun on_infer_error :: "exn \<Rightarrow> scoring_api \<Rightarrow> reply \<times> scoring_api" where
  "on_infer_error (ModelProvenance m) s = unavailable s"
| "on_infer_error (FeatureSchema m) s = refused (PDict [(''code'', PStr ''FEATURE_CONTRACT_MISMATCH''), (''message'', PStr m)]) s"
| "on_infer_error (ValueError m) s = refused (PDict [(''code'', PStr ''FEATURE_CONTRACT_MISMATCH''), (''message'', PStr m)]) s"
| "on_infer_error e s = (Crashed e, s)"

section \<open>Routes\<close>

definition unit_interval :: "pyfloat \<Rightarrow> bool" where
  "unit_interval f = (float_ge f (Fin 0) \<and> float_ge (Fin 1) f)"

definition model_identity :: "registry \<Rightarrow> approved_model \<Rightarrow> (string \<times> pyval) list res" where
  "model_identity rg am =
     bindR (am_text rg ''model_id'' am) (\<lambda>i. bindR (am_text rg ''algorithm'' am) (\<lambda>a.
     Inr [(''model_id'', PStr i), (''algorithm'', PStr a), (''feature_schema'', PStr (lm_schema (am_model am))),
       (''feature_schema_sha256'', PStr (lm_schema_sha256 (am_model am))), (''model_sha256'', PStr (am_model_sha256 am)),
       (''model_metadata_sha256'', PStr (am_metadata_sha256 am))]))"

text \<open>Building the response model validates it; a value out of range is an error of the server.\<close>

definition inference_response :: "registry \<Rightarrow> approved_model \<Rightarrow> pyfloat \<Rightarrow> bool \<Rightarrow> pyfloat \<Rightarrow> pyval res" where
  "inference_response rg am score is_anomaly ms =
     bindR (model_identity rg am) (\<lambda>identity.
     bindR (am_threshold rg am) (\<lambda>threshold.
     bindR (guardR (unit_interval score \<and> unit_interval threshold \<and> float_ge ms (Fin 0)) (ValueError ''InferenceResponse'')) (\<lambda>_.
     Inr (PDict (identity @ [(''score'', PFloat score), (''threshold'', PFloat threshold), (''is_anomaly'', PBool is_anomaly),
       (''inference_ms'', PFloat ms)])))))"

definition answer :: "pyval res \<Rightarrow> reply" where
  "answer r = (case r of Inl e \<Rightarrow> Crashed e | Inr v \<Rightarrow> Answer v)"

definition infer_with :: "registry \<Rightarrow> pyfloat \<Rightarrow> inference_request \<Rightarrow> approved_model \<Rightarrow> scoring_api \<Rightarrow> reply \<times> scoring_api" where
  "infer_with rg ms rq am s = (
     if rq_schema rq \<noteq> lm_schema (am_model am)
     then refused (PDict [(''code'', PStr ''FEATURE_SCHEMA_MISMATCH''),
        (''message'', PStr ''request schema does not match the approved model; no automatic mapping exists''),
        (''expected'', PStr (lm_schema (am_model am))), (''received'', PStr (rq_schema rq))]) s
     else if int (length (rq_history rq)) \<noteq> lm_length (am_model am) - 1
     then refused (PDict [(''code'', PStr ''HISTORY_LENGTH_MISMATCH''),
        (''message'', PStr (''the approved model needs exactly '' @ show_int (lm_length (am_model am) - 1) @ '' history windows'')),
        (''expected'', PInt (lm_length (am_model am) - 1)), (''received'', PInt (int (length (rq_history rq))))]) s
     else (case mapR (\<lambda>item. if item = PNone then Inr () else require_exact_features (rq_schema rq) item) (rq_history rq) of
       Inl e \<Rightarrow> on_schema_error e s
     | Inr us \<Rightarrow> (case model_infer rg am (rq_features rq) (rq_history rq) of
         Inl e \<Rightarrow> on_infer_error e s
       | Inr (score, is_anomaly) \<Rightarrow> (answer (inference_response rg am score is_anomaly ms), record_success ms s))))"

definition bad_entity :: "inference_request \<Rightarrow> bool" where
  "bad_entity rq \<longleftrightarrow> rq_schema rq = ''network-window-v1'' \<and> ip_address (rq_entity rq) = None"

definition infer :: "registry \<Rightarrow> string option \<Rightarrow> pyfloat \<Rightarrow> inference_request \<Rightarrow> scoring_api \<Rightarrow> reply \<times> scoring_api" where
  "infer rg trusted ms rq s = (
     if \<not> well_formed_request rq then (Invalid_request, s)
     else if bad_entity rq then (Http_error 422 (PStr ''network-window-v1 requires entity to be a valid IP address''), s)
     else (case require_exact_features (rq_schema rq) (rq_features rq) of
       Inl e \<Rightarrow> on_schema_error e s
     | Inr u \<Rightarrow> (case provider_get rg trusted s of
         (Inl e, s') \<Rightarrow> on_load_error e s'
       | (Inr am, s') \<Rightarrow> infer_with rg ms rq am s')))"

definition health :: reply where
  "health = Answer (PDict [(''status'', PStr ''ok'')])"

definition ready :: "registry \<Rightarrow> string option \<Rightarrow> scoring_api \<Rightarrow> reply \<times> scoring_api" where
  "ready rg trusted s = (case provider_get rg trusted s of
     (Inl (ModelProvenance m), s') \<Rightarrow> (Http_error 503 (PDict [(''ready'', PBool False), (''reason'', PStr (not_ready_reason s'))]), s')
   | (Inl e, s') \<Rightarrow> (Crashed e, s')
   | (Inr am, s') \<Rightarrow> (answer (bindR (am_text rg ''model_id'' am) (\<lambda>i.
       Inr (PDict [(''ready'', PBool True), (''model_id'', PStr i), (''feature_schema'', PStr (lm_schema (am_model am)))]))), s'))"

definition status_document :: "registry \<Rightarrow> approved_model \<Rightarrow> pyval res" where
  "status_document rg am =
     bindR (model_identity rg am) (\<lambda>identity.
     bindR (am_threshold rg am) (\<lambda>threshold.
     bindR (am_text rg ''status'' am) (\<lambda>status.
     bindR (guardR (unit_interval threshold \<and> 1 \<le> lm_length (am_model am)) (ValueError ''ModelStatus'')) (\<lambda>_.
     Inr (PDict (identity @ [(''threshold'', PFloat threshold), (''status'', PStr status), (''sequence_length'', PInt (lm_length (am_model am)))]))))))"

definition model_status :: "registry \<Rightarrow> string option \<Rightarrow> scoring_api \<Rightarrow> reply \<times> scoring_api" where
  "model_status rg trusted s = (case provider_get rg trusted s of
     (Inl e, s') \<Rightarrow> on_load_error e s'
   | (Inr am, s') \<Rightarrow> (answer (status_document rg am), s'))"

section \<open>Only an approved model answers\<close>

text \<open>The registry directory as it stands at one request: its files and the way its paths resolve.\<close>

definition on_disk :: "registry \<Rightarrow> (string \<Rightarrow> string option) \<times> (string \<Rightarrow> string option) \<Rightarrow> registry" where
  "on_disk rg disk = rg\<lparr>rg_files := fst disk, rg_resolve := snd disk\<rparr>"

inductive serving :: "registry \<Rightarrow> string option \<Rightarrow> scoring_api \<Rightarrow> bool" for rg trusted where
  start: "serving rg trusted fresh_api"
| infer: "serving rg trusted s \<Longrightarrow> infer (on_disk rg disk) trusted ms rq s = (r, s') \<Longrightarrow> serving rg trusted s'"
| ready: "serving rg trusted s \<Longrightarrow> ready (on_disk rg disk) trusted s = (r, s') \<Longrightarrow> serving rg trusted s'"
| model_status: "serving rg trusted s \<Longrightarrow> model_status (on_disk rg disk) trusted s = (r, s') \<Longrightarrow> serving rg trusted s'"

text \<open>What the approval of a digest vouches for.\<close>

definition approved_metadata :: "registry \<Rightarrow> string \<Rightarrow> pyval \<Rightarrow> bool" where
  "approved_metadata rg d metadata \<longleftrightarrow> is_sha256_hex d \<and>
     (\<exists>text. sha256_hexdigest (rg_prims rg) text = d \<and> json_loads (rg_float rg) text = Inr metadata) \<and>
     rg_provenance_ok rg metadata \<and> pget metadata ''status'' = PStr ''approved''"

definition artifact_of :: "registry \<Rightarrow> pyval \<Rightarrow> string \<Rightarrow> loaded_model \<Rightarrow> bool" where
  "artifact_of rg metadata sha m \<longleftrightarrow> (\<exists>bytes. length bytes \<le> MAX_MODEL \<and>
     sha256_hexdigest (rg_prims rg) bytes = sha \<and> pget (pget metadata ''artifact'') ''sha256'' = PStr sha \<and>
     (if pget metadata ''algorithm'' = PStr ''IsolationForest'' then rg_joblib rg bytes = Some m \<and> lm_kind m = Isolation_forest
      else pget metadata ''algorithm'' = PStr ''LSTMAutoencoder'' \<and> rg_safetensors rg bytes = Some m))"

definition contract_of :: "registry \<Rightarrow> pyval \<Rightarrow> loaded_model \<Rightarrow> bool" where
  "contract_of rg metadata m \<longleftrightarrow> pget (pget metadata ''feature_schema'') ''id'' = PStr (lm_schema m) \<and>
     pget (pget metadata ''feature_schema'') ''sha256'' = PStr (lm_schema_sha256 m) \<and>
     rg_schema_sha256 rg (lm_schema m) = Some (lm_schema_sha256 m) \<and> expected_feature_names (lm_schema m) = Inr (lm_names m) \<and>
     (\<exists>low high. lm_low m = Fin low \<and> lm_high m = Fin high \<and> low < high)"

definition verified :: "registry \<Rightarrow> string option \<Rightarrow> approved_model \<Rightarrow> bool" where
  "verified rg trusted am \<longleftrightarrow> trusted = Some (am_metadata_sha256 am) \<and>
     approved_metadata rg (am_metadata_sha256 am) (am_metadata am) \<and>
     artifact_of rg (am_metadata am) (am_model_sha256 am) (am_model am) \<and> contract_of rg (am_metadata am) (am_model am)"

lemma on_disk_simps [simp]:
  "rg_prims (on_disk rg disk) = rg_prims rg" "rg_float (on_disk rg disk) = rg_float rg" "rg_provenance_ok (on_disk rg disk) = rg_provenance_ok rg"
  "rg_schema_sha256 (on_disk rg disk) = rg_schema_sha256 rg" "rg_joblib (on_disk rg disk) = rg_joblib rg"
  "rg_safetensors (on_disk rg disk) = rg_safetensors rg" "rg_parse (on_disk rg disk) = rg_parse rg"
  by (simp_all add: on_disk_def)

lemma py_item_value: "py_item v k = Inr x \<Longrightarrow> pget v k = x"
  by (simp add: py_item_def split: if_splits)

lemma str_case_Inr: "(case v of PStr s \<Rightarrow> Inr s | _ \<Rightarrow> Inl e) = Inr x \<longleftrightarrow> v = PStr x"
  by (cases v) auto

lemma some_case_Inr: "(case v of Some y \<Rightarrow> Inr y | None \<Rightarrow> Inl e) = Inr x \<longleftrightarrow> v = Some x"
  by (cases v) auto

lemma read_metadata_ok:
  "read_metadata rg d = Inr metadata \<Longrightarrow> \<exists>text. sha256_hexdigest (rg_prims rg) text = d \<and> json_loads (rg_float rg) text = Inr metadata"
  by (auto simp: read_metadata_def bindR_eq_Inr split: option.splits sum.splits)

lemma read_artifact_ok:
  assumes "read_artifact rg artifact expected = Inr bytes"
  shows "length bytes \<le> MAX_MODEL" "pget artifact ''sha256'' = PStr (sha256_hexdigest (rg_prims rg) bytes)"
  using assms by (auto simp: read_artifact_def bindR_eq_Inr split: option.splits)

lemma check_contract_ok:
  assumes "check_contract rg metadata = Inr (schema, sha)"
  shows "pget (pget metadata ''feature_schema'') ''id'' = PStr schema" "pget (pget metadata ''feature_schema'') ''sha256'' = PStr sha"
    "rg_schema_sha256 rg schema = Some sha"
  using assms by (auto simp: check_contract_def bindR_eq_Inr str_case_Inr some_case_Inr dest!: py_item_value)

lemma deserialize_ok:
  assumes "deserialize rg metadata bytes = Inr m"
  shows "if pget metadata ''algorithm'' = PStr ''IsolationForest'' then rg_joblib rg bytes = Some m \<and> lm_kind m = Isolation_forest
    else rg_safetensors rg bytes = Some m"
  using assms by (auto simp: deserialize_def bindR_eq_Inr split: option.splits if_splits)

lemma check_model_ok:
  assumes "check_model schema sha m = Inr u"
  shows "lm_schema m = schema" "lm_schema_sha256 m = sha" "expected_feature_names schema = Inr (lm_names m)"
    "\<exists>low high. lm_low m = Fin low \<and> lm_high m = Fin high \<and> low < high"
  using assms by (auto simp: check_model_def bindR_eq_Inr split: pyfloat.splits)

lemma artifact_layout_ok: "artifact_layout a = Inr x \<Longrightarrow> a \<noteq> PStr ''IsolationForest'' \<Longrightarrow> a = PStr ''LSTMAutoencoder''"
  by (simp add: artifact_layout_def split: if_splits)

lemma load_approved_model_ok:
  assumes "load_approved_model rg trusted = Inr am"
  obtains schema sha bytes x artifact expected where "trusted = Some (am_metadata_sha256 am)" "is_sha256_hex (am_metadata_sha256 am)"
    "read_metadata rg (am_metadata_sha256 am) = Inr (am_metadata am)" "rg_provenance_ok rg (am_metadata am)"
    "pget (am_metadata am) ''status'' = PStr ''approved''" "artifact_layout (pget (am_metadata am) ''algorithm'') = Inr x"
    "pget (am_metadata am) ''artifact'' = artifact" "read_artifact rg artifact expected = Inr bytes"
    "check_contract rg (am_metadata am) = Inr (schema, sha)" "deserialize rg (am_metadata am) bytes = Inr (am_model am)"
    "check_model schema sha (am_model am) = Inr ()" "am_model_sha256 am = sha256_hexdigest (rg_prims rg) bytes"
proof -
  obtain d where d: "trusted = Some d" using assms by (cases trusted) (simp_all add: load_approved_model_def)
  show ?thesis using assms unfolding load_approved_model_def d option.case
    apply (simp only: bindR_eq_Inr split_paired_Ex case_prod_conv)
    apply (elim exE conjE)
    subgoal premises p for a meta b c e fmt expected artifact f bytes schema sha m g
      using p d by (intro that) (auto simp: validate_provenance_def dest: py_item_value)
    done
qed

lemma load_verified:
  assumes "load_approved_model (on_disk rg disk) trusted = Inr am"
  shows "verified rg trusted am"
  using assms
proof (rule load_approved_model_ok)
  fix schema sha bytes x artifact expected
  assume a: "trusted = Some (am_metadata_sha256 am)" "is_sha256_hex (am_metadata_sha256 am)"
    "read_metadata (on_disk rg disk) (am_metadata_sha256 am) = Inr (am_metadata am)" "rg_provenance_ok (on_disk rg disk) (am_metadata am)"
    "pget (am_metadata am) ''status'' = PStr ''approved''" "artifact_layout (pget (am_metadata am) ''algorithm'') = Inr x"
    "pget (am_metadata am) ''artifact'' = artifact" "read_artifact (on_disk rg disk) artifact expected = Inr bytes"
    "check_contract (on_disk rg disk) (am_metadata am) = Inr (schema, sha)" "deserialize (on_disk rg disk) (am_metadata am) bytes = Inr (am_model am)"
    "check_model schema sha (am_model am) = Inr ()" "am_model_sha256 am = sha256_hexdigest (rg_prims (on_disk rg disk)) bytes"
  have "approved_metadata rg (am_metadata_sha256 am) (am_metadata am)"
    using a(2,4,5) read_metadata_ok [OF a(3)] by (simp add: approved_metadata_def)
  moreover have "artifact_of rg (am_metadata am) (am_model_sha256 am) (am_model am)"
    unfolding artifact_of_def using read_artifact_ok [OF a(8)] deserialize_ok [OF a(10)] artifact_layout_ok [OF a(6)] a(7,12)
    by (intro exI [of _ bytes]) (simp split: if_splits)
  moreover have "contract_of rg (am_metadata am) (am_model am)"
    using check_contract_ok [OF a(9)] check_model_ok [OF a(11)] by (simp add: contract_of_def)
  ultimately show ?thesis using a(1) by (simp add: verified_def)
qed

lemma provider_get_cases:
  assumes "provider_get rg trusted s = (x, s')"
  shows "(\<forall>am. x = Inr am \<longrightarrow> sa_model s' = Some am) \<and>
    (sa_model s' = sa_model s \<or> (\<exists>am. sa_model s' = Some am \<and> load_approved_model rg trusted = Inr am))"
  using assms by (auto simp: provider_get_def split: option.splits sum.splits exn.splits)

lemma keeps_model:
  "sa_model (record_error s) = sa_model s" "sa_model (record_success ms s) = sa_model s" "sa_model (snd (unavailable s)) = sa_model s"
  "sa_model (snd (refused v s)) = sa_model s" "sa_model (snd (on_load_error e s)) = sa_model s"
  "sa_model (snd (on_schema_error e s)) = sa_model s" "sa_model (snd (on_infer_error e s)) = sa_model s"
  "sa_model (snd (infer_with rg ms rq am s)) = sa_model s"
proof -
  show base: "sa_model (record_error s) = sa_model s" "sa_model (record_success ms s) = sa_model s" "sa_model (snd (unavailable s)) = sa_model s"
    "sa_model (snd (refused v s)) = sa_model s" for v
    by (simp_all add: record_error_def record_success_def unavailable_def refused_def)
  show errs: "sa_model (snd (on_load_error e s)) = sa_model s" "sa_model (snd (on_schema_error e s)) = sa_model s"
    "sa_model (snd (on_infer_error e s)) = sa_model s" for e
    by (cases e; simp add: base)+
  show "sa_model (snd (infer_with rg ms rq am s)) = sa_model s"
    by (simp add: infer_with_def base errs split: sum.splits prod.splits)
qed

text \<open>A route leaves the cache as it was or as the provider left it.\<close>

lemma route_model:
  assumes "infer rg trusted ms rq s = (r, s') \<or> ready rg trusted s = (r, s') \<or> model_status rg trusted s = (r, s')"
  shows "sa_model s' = sa_model s \<or> (\<exists>am. sa_model s' = Some am \<and> load_approved_model rg trusted = Inr am)"
proof -
  obtain x s1 where g: "provider_get rg trusted s = (x, s1)" by (rule prod.exhaust)
  have "sa_model s' = sa_model s \<or> sa_model s' = sa_model s1"
    using assms g keeps_model
    by (auto simp: infer_def ready_def model_status_def split: if_splits sum.splits exn.splits) (metis snd_conv)+
  then show ?thesis using provider_get_cases [OF g] by auto
qed

lemma serving_verified: "serving rg trusted s \<Longrightarrow> sa_model s = Some am \<Longrightarrow> verified rg trusted am"
proof (induction rule: serving.induct)
  case start
  then show ?case by (simp add: fresh_api_def)
next
  case (infer s disk ms rq r s')
  then show ?case using route_model [of "on_disk rg disk" trusted ms rq s r s'] by (auto dest: load_verified)
next
  case (ready s disk r s')
  then show ?case using route_model [of "on_disk rg disk" trusted _ _ s r s'] by (auto dest: load_verified)
next
  case (model_status s disk r s')
  then show ?case using route_model [of "on_disk rg disk" trusted _ _ s r s'] by (auto dest: load_verified)
qed

lemma no_answer:
  "unavailable s \<noteq> (Answer v, s')" "refused d s \<noteq> (Answer v, s')" "on_load_error e s \<noteq> (Answer v, s')" "on_schema_error e s \<noteq> (Answer v, s')"
  "on_infer_error e s \<noteq> (Answer v, s')"
proof -
  show base: "unavailable s \<noteq> (Answer v, s')" "refused d s \<noteq> (Answer v, s')" for d by (simp_all add: unavailable_def refused_def)
  show "on_load_error e s \<noteq> (Answer v, s')" "on_schema_error e s \<noteq> (Answer v, s')" "on_infer_error e s \<noteq> (Answer v, s')"
    by (cases e; simp add: base)+
qed

lemma infer_answer:
  assumes "infer rg trusted ms rq s = (Answer result, s')"
  obtains am s1 score is_anomaly where "provider_get rg trusted s = (Inr am, s1)" "s' = record_success ms s1" "sa_model s1 = Some am"
    "rq_schema rq = lm_schema (am_model am)" "int (length (rq_history rq)) = lm_length (am_model am) - 1"
    "require_exact_features (rq_schema rq) (rq_features rq) = Inr ()"
    "model_infer rg am (rq_features rq) (rq_history rq) = Inr (score, is_anomaly)" "inference_response rg am score is_anomaly ms = Inr result"
proof -
  obtain x s1 where g: "provider_get rg trusted s = (x, s1)" by (rule prod.exhaust)
  from assms g obtain am where am: "x = Inr am" "infer_with rg ms rq am s1 = (Answer result, s')" "require_exact_features (rq_schema rq) (rq_features rq) = Inr ()"
    by (auto simp: infer_def no_answer split: if_splits sum.splits)
  then show ?thesis using g provider_get_cases [OF g]
    by (auto simp: infer_with_def no_answer answer_def split: if_splits sum.splits intro: that)
qed

lemma unit_interval_Fin: "unit_interval f \<longleftrightarrow> (\<exists>r. f = Fin r \<and> 0 \<le> r \<and> r \<le> 1)"
  by (cases f) (simp_all add: unit_interval_def float_ge_def)

text \<open>An answer is the document of the cached model with a score and a threshold in range and the verdict they give.\<close>

lemma answer_document:
  assumes "model_infer rg am features history = Inr (score, is_anomaly)" "inference_response rg am score is_anomaly ms = Inr result"
  obtains i a r t where "am_text rg ''model_id'' am = Inr i" "am_text rg ''algorithm'' am = Inr a" "0 \<le> r" "r \<le> 1" "0 \<le> t" "t \<le> 1" "float_ge ms (Fin 0)"
    "am_threshold rg am = Inr (Fin t)"
    "result = PDict [(''model_id'', PStr i), (''algorithm'', PStr a), (''feature_schema'', PStr (lm_schema (am_model am))),
       (''feature_schema_sha256'', PStr (lm_schema_sha256 (am_model am))), (''model_sha256'', PStr (am_model_sha256 am)),
       (''model_metadata_sha256'', PStr (am_metadata_sha256 am)), (''score'', PFloat (Fin r)), (''threshold'', PFloat (Fin t)),
       (''is_anomaly'', PBool (t \<le> r)), (''inference_ms'', PFloat ms)]"
proof -
  obtain i a th where m: "am_text rg ''model_id'' am = Inr i" "am_text rg ''algorithm'' am = Inr a" "am_threshold rg am = Inr th"
    "unit_interval score" "unit_interval th" "float_ge ms (Fin 0)"
    "result = PDict ([(''model_id'', PStr i), (''algorithm'', PStr a), (''feature_schema'', PStr (lm_schema (am_model am))),
       (''feature_schema_sha256'', PStr (lm_schema_sha256 (am_model am))), (''model_sha256'', PStr (am_model_sha256 am)),
       (''model_metadata_sha256'', PStr (am_metadata_sha256 am))] @ [(''score'', PFloat score), (''threshold'', PFloat th),
       (''is_anomaly'', PBool is_anomaly), (''inference_ms'', PFloat ms)])"
    using assms(2) by (auto simp: inference_response_def model_identity_def bindR_eq_Inr)
  obtain r t where rt: "score = Fin r" "th = Fin t" "0 \<le> r" "r \<le> 1" "0 \<le> t" "t \<le> 1" using m(4,5) by (auto simp: unit_interval_Fin)
  have "is_anomaly = float_ge score th" using assms(1) m(3) by (auto simp: model_infer_def bindR_eq_Inr)
  then have "is_anomaly = (t \<le> r)" using rt by (simp add: float_ge_def)
  then show ?thesis using that m rt by simp
qed

text \<open>
  C32. Whatever requests arrived in whatever order, and however the registry directory was changed in between,
  an inference is answered only by a model that the deployment approved: its metadata are a text whose digest is
  the trusted one, valid and approved; the bytes that were deserialised hash to the digest in those metadata; the
  model's own feature contract is the repository's; the answer names exactly these digests, its score and
  threshold lie in [0, 1] and the verdict is the comparison of the two.
\<close>

theorem answers_from_approved_model:
  assumes "serving rg trusted s" "infer (on_disk rg disk) trusted ms rq s = (Answer result, s')"
  shows "\<exists>am r t. sa_model s' = Some am \<and> trusted = Some (am_metadata_sha256 am) \<and> verified rg trusted am \<and>
     rq_schema rq = lm_schema (am_model am) \<and> pget result ''feature_schema_sha256'' = PStr (lm_schema_sha256 (am_model am)) \<and>
     pget result ''model_metadata_sha256'' = PStr (am_metadata_sha256 am) \<and> pget result ''model_sha256'' = PStr (am_model_sha256 am) \<and>
     pget result ''score'' = PFloat (Fin r) \<and> pget result ''threshold'' = PFloat (Fin t) \<and>
     0 \<le> r \<and> r \<le> 1 \<and> 0 \<le> t \<and> t \<le> 1 \<and> pget result ''is_anomaly'' = PBool (t \<le> r)"
proof -
  obtain am s1 score is_anomaly where i: "s' = record_success ms s1" "sa_model s1 = Some am" "rq_schema rq = lm_schema (am_model am)"
    "model_infer (on_disk rg disk) am (rq_features rq) (rq_history rq) = Inr (score, is_anomaly)"
    "inference_response (on_disk rg disk) am score is_anomaly ms = Inr result"
    using infer_answer [OF assms(2)] by metis
  have m: "sa_model s' = Some am" using i(1,2) by (simp add: keeps_model)
  have v: "verified rg trusted am" using serving_verified [OF serving.infer [OF assms] m] .
  then have t: "trusted = Some (am_metadata_sha256 am)" by (simp add: verified_def)
  from i(4,5) show ?thesis
    by (rule answer_document) (intro exI [of _ am] exI conjI m v t i(3); simp)
qed

text \<open>
  C33. The two ends of the scoring interface agree: an answer of the API with a forest model passes every check of
  the enrichment worker on a valid vector of the requested schema, so it becomes an event and is not
  dead-lettered. The worker and the API trust the same metadata digest; digests are 64 hexadecimal digits, the
  provenance schema requires a model identifier and the clock yields a finite time.
\<close>

theorem answer_becomes_event:
  assumes "serving rg (Some d) s" "infer (on_disk rg disk) (Some d) (Fin ms) rq s = (Answer result, s')"
    and "pget result ''algorithm'' = PStr ''IsolationForest''"
    and "\<forall>t. is_sha256_hex (sha256_hexdigest (rg_prims rg) t)" "\<forall>v. rg_provenance_ok rg v \<longrightarrow> nonempty_str (pget v ''model_id'')"
    and "validate_vector (rg_prims rg) schema_ok (rg_schema_sha256 rg) vector = Inr ()" "pget vector ''feature_schema'' = PStr (rq_schema rq)"
    and "set (''vector_id'' # VECTOR_KEYS) \<subseteq> pkeys vector"
  shows "\<exists>event. anomaly_event now vector result identifier d observer = Inr event"
proof -
  obtain am s1 score is_anomaly where i: "s' = record_success (Fin ms) s1" "sa_model s1 = Some am" "rq_schema rq = lm_schema (am_model am)"
    "model_infer (on_disk rg disk) am (rq_features rq) (rq_history rq) = Inr (score, is_anomaly)"
    "inference_response (on_disk rg disk) am score is_anomaly (Fin ms) = Inr result"
    using infer_answer [OF assms(2)] by metis
  have m: "sa_model s' = Some am" using i(1,2) by (simp add: keeps_model)
  have v: "verified rg (Some d) am" using serving_verified [OF serving.infer [OF assms(1,2)] m] .
  have vm: "is_mapping vector" using assms(6) by (simp add: validate_vector_def Let_def bindR_eq_Inr)
  have vs: "pget vector ''feature_schema_sha256'' = PStr (lm_schema_sha256 (am_model am))"
    using assms(6,7) v i(3) by (auto simp: validate_vector_def Let_def bindR_eq_Inr verified_def contract_of_def split: option.splits)
  have at: "py_item vector k = Inr (pget vector k)" if "k \<in> set (''vector_id'' # VECTOR_KEYS)" for k
    using that vm assms(8) by (auto simp: py_item_def has_key_def)
  have ats: "py_item vector ''feature_schema'' = Inr (PStr (rq_schema rq))" "py_item vector ''feature_schema_sha256'' = Inr (PStr (lm_schema_sha256 (am_model am)))"
    "py_item vector ''vector_id'' = Inr (pget vector ''vector_id'')"
    using at [of "''feature_schema''"] at [of "''feature_schema_sha256''"] at [of "''vector_id''"] assms(7) vs by (simp_all add: VECTOR_KEYS_def)
  have b: "\<exists>bound. mapR (\<lambda>k. bindR (py_item vector k) (\<lambda>v. Inr (k, v))) VECTOR_KEYS = Inr bound"
    using at by (simp add: VECTOR_KEYS_def)
  have c: "checked_result vector result d = Inr ()"
    using i(4,5)
  proof (rule answer_document)
    fix mid a r t
    assume p: "am_text (on_disk rg disk) ''model_id'' am = Inr mid" "0 \<le> r" "r \<le> 1" "0 \<le> t" "t \<le> 1" "float_ge (Fin ms) (Fin 0)"
      "result = PDict [(''model_id'', PStr mid), (''algorithm'', PStr a), (''feature_schema'', PStr (lm_schema (am_model am))),
       (''feature_schema_sha256'', PStr (lm_schema_sha256 (am_model am))), (''model_sha256'', PStr (am_model_sha256 am)),
       (''model_metadata_sha256'', PStr (am_metadata_sha256 am)), (''score'', PFloat (Fin r)), (''threshold'', PFloat (Fin t)),
       (''is_anomaly'', PBool (t \<le> r)), (''inference_ms'', PFloat (Fin ms))]"
    have "nonempty_str (pget (am_metadata am) ''model_id'')" using v assms(5) by (simp add: verified_def approved_metadata_def)
    then have mid: "mid \<noteq> []" using p(1) by (auto simp: am_text_def bindR_eq_Inr nonempty_str_conv py_str_def dest!: py_item_value)
    obtain bytes where "sha256_hexdigest (rg_prims rg) bytes = am_model_sha256 am" using v by (auto simp: verified_def artifact_of_def)
    then have "is_sha256_hex (am_model_sha256 am)" using assms(4) by metis
    moreover have "am_metadata_sha256 am = d" "is_sha256_hex d" using v by (auto simp: verified_def approved_metadata_def)
    ultimately have dd: "am_metadata_sha256 am = d" "is_sha256_hex d" "is_sha256_hex (am_model_sha256 am)" by simp_all
    have a: "a = ''IsolationForest''" using assms(3) p(7) by simp
    have k: "exact_keys result RESULT_KEYS" by (auto simp: p(7) exact_keys_iff RESULT_KEYS_def)
    show ?thesis using p(2-6) mid dd i(3) k
      by (simp add: checked_result_def ats p(7) a sha256_value_def number_in_def nonempty_str_def float_ge_def)
  qed
  show ?thesis using c b ats by (auto simp: anomaly_event_def)
qed

section \<open>A small registry\<close>

definition toy_digest :: string where
  "toy_digest = replicate 64 CHR ''a''"

definition toy_metadata :: pyval where
  "toy_metadata = PDict [(''algorithm'', PStr ''IsolationForest''),
     (''artifact'', PDict [(''format'', PStr ''joblib''), (''path'', PStr ''model.joblib''), (''sha256'', PStr toy_digest), (''size_bytes'', PInt 3)]),
     (''feature_schema'', PDict [(''id'', PStr ''endpoint-window-v1''), (''sha256'', PStr toy_digest)]),
     (''model_id'', PStr ''if-1''), (''status'', PStr ''approved''), (''threshold'', PInt 1)]"

definition toy_model :: loaded_model where
  "toy_model = \<lparr>lm_kind = Isolation_forest, lm_schema = ''endpoint-window-v1'', lm_schema_sha256 = toy_digest, lm_names = ENDPOINT_FEATURES,
     lm_low = Fin 0, lm_high = Fin 1, lm_length = 1, lm_decision = (\<lambda>row. Fin (- 2)), lm_matrix_score = (\<lambda>rows. Inl (AttributeErr ''score_matrix''))\<rparr>"

definition toy_prims :: prims where
  "toy_prims = \<lparr>sha256_hexdigest = (\<lambda>t. toy_digest), float_repr = (\<lambda>r. ''0.0'')\<rparr>"

definition toy_registry :: registry where
  "toy_registry = \<lparr>rg_prims = toy_prims, rg_float = (\<lambda>t. Fin 0), rg_parse = (\<lambda>t. None),
     rg_provenance_ok = (\<lambda>v. nonempty_str (pget v ''model_id'')), rg_schema_sha256 = (\<lambda>s. Some toy_digest), rg_resolve = (\<lambda>p. None),
     rg_joblib = (\<lambda>bytes. if bytes = ''abc'' then Some toy_model else None), rg_safetensors = (\<lambda>bytes. None), rg_files = (\<lambda>f. None)\<rparr>"

definition toy_disk :: "(string \<Rightarrow> string option) \<times> (string \<Rightarrow> string option)" where
  "toy_disk = ((\<lambda>f. if f = ''metadata.json'' then Some (canonical_json toy_prims toy_metadata) else if f = ''model.joblib'' then Some ''abc''
     else if f = ''feature_schema.json'' then Some ''{}'' else None), Some)"

definition toy_request :: inference_request where
  "toy_request = \<lparr>rq_schema = ''endpoint-window-v1'', rq_entity = ''db'', rq_features = PDict (map (\<lambda>k. (k, PInt 1)) ENDPOINT_FEATURES), rq_history = []\<rparr>"

definition toy_result :: pyval where
  "toy_result = PDict [(''model_id'', PStr ''if-1''), (''algorithm'', PStr ''IsolationForest''), (''feature_schema'', PStr ''endpoint-window-v1''),
     (''feature_schema_sha256'', PStr toy_digest), (''model_sha256'', PStr toy_digest), (''model_metadata_sha256'', PStr toy_digest),
     (''score'', PFloat (Fin 1)), (''threshold'', PFloat (Fin 1)), (''is_anomaly'', PBool True), (''inference_ms'', PFloat (Fin 2))]"

definition toy_vector :: pyval where
  "toy_vector = PDict [(''vector_id'', PStr ''v1''), (''feature_schema'', PStr ''endpoint-window-v1''), (''feature_schema_sha256'', PStr toy_digest),
     (''entity_type'', PStr ''host''), (''entity'', PStr ''db''), (''window_start'', PStr ''2026-01-01T00:00:00Z''),
     (''window_end'', PStr ''2026-01-01T00:05:00Z''), (''source_event_set_sha256'', PStr toy_digest), (''features'', rq_features toy_request)]"

definition toy_approved :: approved_model where
  "toy_approved = \<lparr>am_model = toy_model, am_metadata = toy_metadata, am_metadata_sha256 = toy_digest, am_model_sha256 = toy_digest\<rparr>"

lemma toy_prims_sha [simp]: "sha256_hexdigest toy_prims t = toy_digest"
  by (simp add: toy_prims_def)

lemma toy_read: "read_metadata (on_disk toy_registry toy_disk) toy_digest = Inr toy_metadata"
proof -
  have "json_ok toy_prims (rg_float toy_registry) toy_metadata" by code_simp
  moreover have "sorted_keys toy_metadata = toy_metadata" by code_simp
  ultimately have r: "json_loads (rg_float toy_registry) (canonical_json toy_prims toy_metadata) = Inr toy_metadata"
    using json_reads_back [of toy_prims "rg_float toy_registry" toy_metadata "[]" True] by (simp add: canonical_json_print)
  have f: "rg_files (on_disk toy_registry toy_disk) ''metadata.json'' = Some (canonical_json toy_prims toy_metadata)"
    by (simp add: on_disk_def toy_disk_def)
  have "rg_prims toy_registry = toy_prims" by (simp add: toy_registry_def)
  then show ?thesis by (simp add: read_metadata_def f r)
qed

lemma toy_loaded: "load_approved_model (on_disk toy_registry toy_disk) (Some toy_digest) = Inr toy_approved"
proof -
  let ?rg = "on_disk toy_registry toy_disk"
  have h: "is_sha256_hex toy_digest" by code_simp
  have v: "validate_provenance ?rg toy_metadata = Inr ()" by code_simp
  have k: "is_mapping toy_metadata" "pget toy_metadata ''status'' = PStr ''approved''"
    "artifact_layout (pget toy_metadata ''algorithm'') = Inr (''joblib'', ''model.joblib'')"
    "py_item toy_metadata ''artifact'' = Inr (pget toy_metadata ''artifact'')" "is_mapping (pget toy_metadata ''artifact'')"
    "pget (pget toy_metadata ''artifact'') ''format'' = PStr ''joblib''"
    by code_simp+
  have p: "safe_artifact_path ?rg (pget (pget toy_metadata ''artifact'') ''path'') ''model.joblib'' = Inr ''model.joblib''" by code_simp
  have q: "rg_prims toy_registry = toy_prims" by (simp add: toy_registry_def)
  have f: "rg_files ?rg ''model.joblib'' = Some ''abc''" by (simp add: on_disk_def toy_disk_def)
  have b: "read_artifact ?rg (pget toy_metadata ''artifact'') ''model.joblib'' = Inr ''abc''"
    unfolding read_artifact_def p by (simp add: f MAX_MODEL_def q) (simp add: toy_metadata_def)
  have c: "check_contract ?rg toy_metadata = Inr (''endpoint-window-v1'', toy_digest)" by code_simp
  have m: "check_model ''endpoint-window-v1'' toy_digest toy_model = Inr ()" by code_simp
  note a = h v k b c m
  have d: "deserialize ?rg toy_metadata ''abc'' = Inr toy_model"
    by (simp add: deserialize_def toy_metadata_def on_disk_def toy_registry_def) (simp add: toy_model_def)
  show ?thesis by (simp add: load_approved_model_def toy_read a d q toy_approved_def)
qed

lemma toy_answer: "\<exists>s'. infer (on_disk toy_registry toy_disk) (Some toy_digest) (Fin 2) toy_request fresh_api = (Answer toy_result, s')"
proof -
  let ?rg = "on_disk toy_registry toy_disk" and ?s = "fresh_api\<lparr>sa_model := Some toy_approved, sa_last_error := None\<rparr>"
  have "provider_get ?rg (Some toy_digest) fresh_api = (Inr toy_approved, ?s)" by (simp add: provider_get_def toy_loaded fresh_api_def)
  moreover have "fst (infer_with ?rg (Fin 2) toy_request toy_approved ?s) = Answer toy_result" by code_simp
  moreover have "well_formed_request toy_request" "\<not> bad_entity toy_request" by code_simp+
  moreover have "require_exact_features (rq_schema toy_request) (rq_features toy_request) = Inr ()" by code_simp
  ultimately show ?thesis by (cases "infer_with ?rg (Fin 2) toy_request toy_approved ?s") (simp add: infer_def)
qed

theorem answers_from_approved_model_witness:
  "\<exists>am r t. verified toy_registry (Some toy_digest) am \<and> pget toy_result ''model_metadata_sha256'' = PStr (am_metadata_sha256 am) \<and>
     pget toy_result ''score'' = PFloat (Fin r) \<and> pget toy_result ''threshold'' = PFloat (Fin t) \<and> pget toy_result ''is_anomaly'' = PBool (t \<le> r)"
proof -
  obtain s' where i: "infer (on_disk toy_registry toy_disk) (Some toy_digest) (Fin 2) toy_request fresh_api = (Answer toy_result, s')"
    using toy_answer by blast
  show ?thesis using answers_from_approved_model [OF serving.start i] by (elim exE conjE) (intro exI conjI; assumption)
qed

theorem answer_becomes_event_witness:
  "\<exists>event. anomaly_event 0 toy_vector toy_result ''j'' toy_digest ''soc-ai-inference'' = Inr event"
proof -
  obtain s' where i: "infer (on_disk toy_registry toy_disk) (Some toy_digest) (Fin 2) toy_request fresh_api = (Answer toy_result, s')"
    using toy_answer by blast
  have p: "rg_prims toy_registry = toy_prims" "rg_schema_sha256 toy_registry = (\<lambda>s. Some toy_digest)" by (simp_all add: toy_registry_def)
  have a: "pget toy_result ''algorithm'' = PStr ''IsolationForest''" by (simp add: toy_result_def)
  have h: "\<forall>t. is_sha256_hex (sha256_hexdigest (rg_prims toy_registry) t)" by (simp add: p(1)) code_simp
  have m: "\<forall>v. rg_provenance_ok toy_registry v \<longrightarrow> nonempty_str (pget v ''model_id'')" by (simp add: toy_registry_def)
  have v: "validate_vector (rg_prims toy_registry) (\<lambda>s v. True) (rg_schema_sha256 toy_registry) toy_vector = Inr ()" unfolding p by code_simp
  have f: "pget toy_vector ''feature_schema'' = PStr (rq_schema toy_request)" by (simp add: toy_vector_def toy_request_def)
  have k: "set (''vector_id'' # VECTOR_KEYS) \<subseteq> pkeys toy_vector" by (simp add: toy_vector_def VECTOR_KEYS_def)
  show ?thesis by (rule answer_becomes_event [OF serving.start i a h m v f k])
qed

end
