(* ===== verification/Json_Indent.thy ===== *)
theory Json_Indent
  imports Json
begin

text \<open>
  \<^verbatim>\<open>json.dumps(value, indent=2, sort_keys=True)\<close>, the notation of the files in a model registry, and that the reader of
  theory \<open>Json\<close> reads it back.
\<close>

definition new_line :: "nat \<Rightarrow> string" where
  "new_line depth = CHR 0x0A # replicate (2 * depth) CHR '' ''"

primrec json_indent :: "prims \<Rightarrow> pyval \<Rightarrow> nat \<Rightarrow> string" where
  "json_indent pr PNone = (\<lambda>d. ''null'')"
| "json_indent pr (PBool b) = (\<lambda>d. if b then ''true'' else ''false'')"
| "json_indent pr (PInt i) = (\<lambda>d. show_int i)"
| "json_indent pr (PFloat f) = (\<lambda>d. show_float pr f)"
| "json_indent pr (PStr s) = (\<lambda>d. json_string s)"
| "json_indent pr (PList vs) = (\<lambda>d. if vs = [] then ''[]''
     else ''['' @ new_line (Suc d) @ join_with (CHR '','' # new_line (Suc d)) (map (\<lambda>f. f (Suc d)) (map (json_indent pr) vs)) @ new_line d @ '']'')"
| "json_indent pr (PDict kvs) = (\<lambda>d. if kvs = [] then ''{}''
     else ''{'' @ new_line (Suc d) @ join_with (CHR '','' # new_line (Suc d))
       (map (\<lambda>(k, f). json_string k @ '': '' @ f (Suc d)) (key_order True (map (map_prod id (json_indent pr)) kvs))) @ new_line d @ ''}'')"

lemma new_line_blank: "list_all json_space (new_line d)" "closing_blank (new_line d)"
  by (simp_all add: new_line_def closing_blank_def json_space_def list_all_iff)

lemma skip_new_line: "skip_space (new_line d @ t) = skip_space t"
  by (rule skip_blank [OF new_line_blank(1)])

lemma indent_starts: "json_ok pr fl v \<Longrightarrow> starts_value (json_indent pr v d)"
  using number_starts lex_show_int
  by (cases v) (auto simp: starts_value_def json_space_def json_string_def show_float_def float_text_def split: pyfloat.splits option.splits)

lemma indent_dict:
  "kvs \<noteq> [] \<Longrightarrow> json_indent pr (PDict kvs) d = ''{'' @ new_line (Suc d) @ join_with (CHR '','' # new_line (Suc d))
     (map (member_text '' '') (map (map_prod id (\<lambda>v. json_indent pr v (Suc d))) (key_order True kvs))) @ new_line d @ ''}''"
proof -
  have "map (\<lambda>(k, f). json_string k @ '': '' @ f (Suc d)) (key_order True (map (map_prod id (json_indent pr)) kvs))
    = map (member_text '' '') (map (map_prod id (\<lambda>v. json_indent pr v (Suc d))) (key_order True kvs))"
    unfolding key_order_map by (auto simp: member_text_def)
  then show "kvs \<noteq> [] \<Longrightarrow> ?thesis" by (simp del: key_order_map)
qed

lemma indent_step_list:
  assumes "\<And>v r. v \<in> set vs \<Longrightarrow> ends_number r \<Longrightarrow> p (json_indent pr v (Suc d) @ r) = Some (arranged True v, r)"
    "\<forall>v \<in> set vs. json_ok pr fl v" "length vs \<le> n"
  shows "json_step fl n p (json_indent pr (PList vs) d @ r) = Some (arranged True (PList vs), r)"
proof (cases "vs = []")
  case True
  then show ?thesis by (simp add: json_step_def skip_space_def json_space_def)
next
  case False
  let ?ts = "map (\<lambda>v. json_indent pr v (Suc d)) vs"
  let ?j = "join_with (CHR '','' # new_line (Suc d)) ?ts"
  have st: "\<forall>t \<in> set ?ts. starts_value t" using assms(2) indent_starts by auto
  have items: "json_items p n (?j @ new_line d @ '']'' @ r) = Some (map (arranged True) vs, r)"
    by (rule json_items_join [OF new_line_blank(1) new_line_blank(2)]) (use False assms st in simp_all)
  have sv: "starts_value ?j" using False st by (intro join_starts) simp_all
  then obtain c cs where c: "?j = c # cs" "\<not> json_space c" "c \<noteq> CHR '']''" by (cases ?j) (auto simp: starts_value_def)
  have "json_indent pr (PList vs) d @ r = CHR ''['' # new_line (Suc d) @ ?j @ new_line d @ '']'' @ r" using False by (simp add: comp_def)
  then show ?thesis using items c by (simp only: json_step_def) (simp add: skip_new_line skip_space_Cons)
qed

lemma indent_step_dict:
  assumes "\<And>k v r. (k, v) \<in> set kvs \<Longrightarrow> ends_number r \<Longrightarrow> p (json_indent pr v (Suc d) @ r) = Some (arranged True v, r)"
    "\<forall>(k, v) \<in> set kvs. json_ok pr fl v" "distinct (map fst kvs)" "length kvs \<le> n"
  shows "json_step fl n p (json_indent pr (PDict kvs) d @ r) = Some (arranged True (PDict kvs), r)"
proof (cases "kvs = []")
  case True
  then show ?thesis by (simp add: json_step_def skip_space_Cons delimiters key_order_def)
next
  case False
  let ?s = "key_order True kvs"
  let ?kts = "map (map_prod id (\<lambda>v. json_indent pr v (Suc d))) ?s"
  let ?j = "join_with (CHR '','' # new_line (Suc d)) (map (member_text '' '') ?kts)"
  have ne: "?kts \<noteq> []" using False by (metis length_0_conv length_map key_order_simps(1))
  have st: "\<forall>kt \<in> set ?kts. starts_value (snd kt)" using assms(2) indent_starts by (fastforce simp: key_order_simps)
  have mem: "(fst (?s ! i), snd (?s ! i)) \<in> set kvs" if "i < length ?s" for i using nth_mem [OF that] by (simp add: key_order_simps)
  have b: "list_all json_space '' ''" by (simp add: json_space_def)
  have "json_members p n (?j @ new_line d @ ''}'' @ r) = Some (zip (map fst ?kts) (map (arranged True \<circ> snd) ?s), r)"
  proof (rule json_members_join [OF new_line_blank(1) b new_line_blank(2) ne])
    fix i r
    assume "i < length ?kts" "ends_number r"
    then show "p (snd (?kts ! i) @ r) = Some (map (arranged True \<circ> snd) ?s ! i, r)" using assms(1) [OF mem] by simp
  qed (use assms(4) st in \<open>simp_all add: key_order_simps\<close>)
  moreover have "zip (map fst ?kts) (map (arranged True \<circ> snd) ?s) = map (map_prod id (arranged True)) ?s"
    by (simp add: zip_map_map zip_same_conv_map comp_def) (simp add: map_prod_def split_beta)
  moreover have "distinct (map fst (map (map_prod id (arranged True)) ?s))" using assms(3) by (simp add: comp_def key_order_simps)
  ultimately have members: "json_members p n (?j @ new_line d @ ''}'' @ r) = Some (map (map_prod id (arranged True)) ?s, r)"
    and same: "dict_of_pairs (map (map_prod id (arranged True)) ?s) = map (map_prod id (arranged True)) ?s" by (simp_all only: dict_of_pairs_distinct)
  have "starts_value ?j" using ne member_starts by (intro join_starts) simp_all
  then obtain c cs where c: "?j = c # cs" "\<not> json_space c" "c \<noteq> CHR ''}''" by (cases ?j) (auto simp: starts_value_def)
  have "json_indent pr (PDict kvs) d @ r = CHR ''{'' # new_line (Suc d) @ ?j @ new_line d @ ''}'' @ r"
    unfolding indent_dict [OF False] by simp
  then show ?thesis using members same c by (simp only: json_step_def) (simp add: skip_new_line skip_space_Cons key_order_map)
qed

lemma indent_length:
  assumes "json_ok pr fl v"
  shows "v = PList vs \<Longrightarrow> u \<in> set vs \<Longrightarrow> length (json_indent pr u (Suc d)) < length (json_indent pr v d)"
    "v = PList vs \<Longrightarrow> length vs < length (json_indent pr v d)"
    "v = PDict kvs \<Longrightarrow> (k, u) \<in> set kvs \<Longrightarrow> length (json_indent pr u (Suc d)) < length (json_indent pr v d)"
    "v = PDict kvs \<Longrightarrow> length kvs < length (json_indent pr v d)"
proof -
  let ?sep = "CHR '','' # new_line (Suc d)"
  assume v: "v = PList vs"
  let ?ts = "map (\<lambda>v. json_indent pr v (Suc d)) vs"
  have "json_indent pr u (Suc d) \<noteq> []" if "u \<in> set vs" for u
    using indent_starts [of pr fl u "Suc d"] assms that unfolding v by (auto simp: list_all_iff starts_value_def)
  then have "\<forall>t \<in> set ?ts. t \<noteq> []" by auto
  from length_join_count [OF this, of ?sep] show "length vs < length (json_indent pr v d)" unfolding v by (auto simp: comp_def)
  show "u \<in> set vs \<Longrightarrow> length (json_indent pr u (Suc d)) < length (json_indent pr v d)"
    using length_join [of "json_indent pr u (Suc d)" ?ts ?sep] unfolding v by (auto simp: comp_def)
next
  let ?sep = "CHR '','' # new_line (Suc d)"
  assume v: "v = PDict kvs"
  let ?ms = "map (member_text '' '') (map (map_prod id (\<lambda>v. json_indent pr v (Suc d))) (key_order True kvs))"
  have "\<forall>t \<in> set ?ms. t \<noteq> []" using member_starts by (auto simp: starts_value_def)
  from length_join_count [OF this, of ?sep] have "length kvs \<le> length (join_with ?sep ?ms)" by (simp add: key_order_simps)
  then show "length kvs < length (json_indent pr v d)" unfolding v
    by (cases "kvs = []") (simp, simp add: indent_dict del: json_indent.simps)
  assume u: "(k, u) \<in> set kvs"
  then have "member_text '' '' (k, json_indent pr u (Suc d)) \<in> set ?ms" by (force simp: image_iff key_order_simps)
  from length_join [OF this, of ?sep] have "length (json_indent pr u (Suc d)) \<le> length (join_with ?sep ?ms)" by (simp add: member_text_def)
  moreover have "kvs \<noteq> []" using u by auto
  ultimately show "length (json_indent pr u (Suc d)) < length (json_indent pr v d)" unfolding v by (simp add: indent_dict del: json_indent.simps)
qed

lemma indent_flat: "\<not> is_list v \<Longrightarrow> \<not> is_mapping v \<Longrightarrow> json_indent pr v d = json_print True [] pr v"
  by (cases v) simp_all

lemma indented_flat:
  assumes "\<not> is_list v" "\<not> is_mapping v" "json_ok pr fl v" "ends_number r" "length (json_indent pr v d) \<le> n"
  shows "json_value fl n (json_indent pr v d @ r) = Some (arranged True v, r)"
  using json_value_printed [of "[]" pr fl v r True n] assms by (simp add: indent_flat)

lemma json_value_indented:
  "json_ok pr fl v \<Longrightarrow> ends_number r \<Longrightarrow> length (json_indent pr v d) \<le> n \<Longrightarrow> json_value fl n (json_indent pr v d @ r) = Some (arranged True v, r)"
proof (induction v arbitrary: n r d)
  case (PList vs)
  have len: "length vs < n" using indent_length(2) [OF PList.prems(1) refl, of d] PList.prems(3) by linarith
  then obtain m where m: "n = Suc m" by (cases n) simp_all
  show ?case unfolding m json_value.simps
  proof (rule indent_step_list)
    fix v and r :: string
    assume v: "v \<in> set vs" and r: "ends_number r"
    have "length (json_indent pr v (Suc d)) \<le> m" using indent_length(1) [OF PList.prems(1) refl v, of d] PList.prems(3) m by linarith
    moreover have "json_ok pr fl v" using PList.prems(1) v by (simp add: list_all_iff)
    ultimately show "json_value fl m (json_indent pr v (Suc d) @ r) = Some (arranged True v, r)" using PList.IH v r by blast
  qed (use PList.prems(1) len m in \<open>simp_all add: list_all_iff\<close>)
next
  case (PDict kvs)
  have len: "length kvs < n" using indent_length(4) [OF PDict.prems(1) refl, of d] PDict.prems(3) by linarith
  then obtain m where m: "n = Suc m" by (cases n) simp_all
  have ok: "\<forall>(k, v) \<in> set kvs. json_ok pr fl v" "distinct (map fst kvs)" using PDict.prems(1) by (force simp: list_all_iff)+
  show ?case unfolding m json_value.simps
  proof (rule indent_step_dict)
    fix k v and r :: string
    assume v: "(k, v) \<in> set kvs" and r: "ends_number r"
    have "length (json_indent pr v (Suc d)) \<le> m" using indent_length(3) [OF PDict.prems(1) refl v, of d] PDict.prems(3) m by linarith
    moreover have "json_ok pr fl v" using ok(1) v by blast
    moreover have "v \<in> Basic_BNFs.snds (k, v)" by simp
    ultimately show "json_value fl m (json_indent pr v (Suc d) @ r) = Some (arranged True v, r)" using PDict.IH v r by blast
  qed (use ok len m in simp_all)
qed (rule indented_flat; simp)+

text \<open>A file in this notation, with its final newline, reads back as the document with sorted keys.\<close>

lemma json_file_reads_back:
  assumes "json_ok pr fl v"
  shows "json_loads fl (json_indent pr v 0 @ [CHR 0x0A]) = Inr (arranged True v)"
proof -
  let ?t = "json_indent pr v 0"
  have "skip_space (?t @ [CHR 0x0A]) = ?t @ [CHR 0x0A]" by (rule starts_value_skip [OF indent_starts [OF assms]])
  moreover have "json_value fl (Suc (length (?t @ [CHR 0x0A]))) (?t @ [CHR 0x0A]) = Some (arranged True v, [CHR 0x0A])"
    by (rule json_value_indented [OF assms]) (simp_all add: ends_number_def)
  ultimately show ?thesis by (simp add: json_loads_def skip_space_def json_space_def del: json_value.simps)
qed

lemma arranged_pget: "distinct (map fst kvs) \<Longrightarrow> pget (arranged True (PDict kvs)) k = arranged True (pget (PDict kvs) k)"
proof -
  assume d: "distinct (map fst kvs)"
  let ?f = "map_prod id (arranged True) :: string \<times> pyval \<Rightarrow> _"
  have "map_of (key_order True (map ?f kvs)) = map_of (map ?f kvs)"
  proof (rule map_of_inject_set [THEN iffD2])
    show "distinct (map fst (map ?f kvs))" using d by (simp add: comp_def)
    then show "distinct (map fst (key_order True (map ?f kvs)))" by (simp only: key_order_def if_True distinct_map distinct_sort set_sort)
  qed (simp add: key_order_simps)
  then have "map_of (key_order True (map ?f kvs)) k = map_option (arranged True) (map_of kvs k)" by (simp add: map_of_map map_prod_def del: dict_get_None_iff)
  then show ?thesis by (cases "map_of kvs k") (simp_all del: dict_get_None_iff)
qed

end
