(* ===== verification/Promotion.thy ===== *)
theory Promotion
  imports Scoring_Api Json_Indent
begin

text \<open>
  \<^verbatim>\<open>ai/training/promote.py\<close>: a candidate directory becomes an approved registry directory, or an active one a
  retired one. A directory is its files by name, as in theory \<open>Registry\<close>; the parameters of a registry (provenance
  schema, digests of the feature schemas) are the ones of the loader. The YAML policy is an argument, parsed, with the digest of its file. The
  numbers in the text of a refused policy are left out.
\<close>

section \<open>Numbers\<close>

definition number_of :: "pyval \<Rightarrow> pyfloat option" where
  "number_of v = (case v of PBool b \<Rightarrow> Some (Fin (if b then 1 else 0)) | _ \<Rightarrow> as_number v)"

definition py_equal :: "pyval \<Rightarrow> pyval \<Rightarrow> bool" where
  "py_equal a b = (case (number_of a, number_of b) of (Some x, Some y) \<Rightarrow> x = y \<and> x \<noteq> NaN | _ \<Rightarrow> a = b)"

text \<open>\<^verbatim>\<open>a < b\<close> on two numbers.\<close>

definition float_less :: "pyfloat \<Rightarrow> pyfloat \<Rightarrow> bool" where
  "float_less x y = (float_ge y x \<and> \<not> float_ge x y)"

definition py_less :: "pyval \<Rightarrow> pyval \<Rightarrow> bool res" where
  "py_less a b = (case (number_of a, number_of b) of (Some x, Some y) \<Rightarrow> Inr (float_less x y)
     | _ \<Rightarrow> Inl (TypeErr ''< not supported''))"

definition whole :: "pyval \<Rightarrow> int option" where
  "whole v = (case v of PInt i \<Rightarrow> Some i | PBool b \<Rightarrow> Some (if b then 1 else 0) | _ \<Rightarrow> None)"

definition py_div :: "registry \<Rightarrow> pyval \<Rightarrow> pyval \<Rightarrow> pyfloat res" where
  "py_div rg a b = (case (whole a, whole b) of
     (Some i, Some j) \<Rightarrow> (if j = 0 then Inl division_by_zero
       else (case round_double (of_int i / of_int j) of Fin r \<Rightarrow> Inr (Fin r) | _ \<Rightarrow> Inl OverflowErr))
   | _ \<Rightarrow> if number_of a = None \<or> number_of b = None then Inl (TypeErr ''unsupported operand type(s) for /'')
       else bindR (to_float rg a) (\<lambda>x. bindR (to_float rg b) (\<lambda>y. fdiv x y)))"

section \<open>The candidate\<close>

definition METRIC_FIELDS :: "string list" where
  "METRIC_FIELDS = [''precision'', ''recall'', ''f1'', ''pr_auc'', ''false_positives_per_hour'', ''mttd_seconds'', ''p95_inference_ms'']"

definition CARRIED_FILES :: "string list" where
  "CARRIED_FILES = [''feature_schema.json'', ''evaluation.json'', ''metrics.json'', ''benchmark.json'', ''benchmark.md'']"

definition COMPARISON_FILES :: "string list" where
  "COMPARISON_FILES = [''comparison.json'', ''comparison.md'']"

definition load_document :: "registry \<Rightarrow> string \<Rightarrow> pyval res" where
  "load_document rg name = (case rg_files rg name of
     None \<Rightarrow> Inl (refuse (''cannot read '' @ name))
   | Some text \<Rightarrow> (case json_loads (rg_float rg) text of
       Inl e \<Rightarrow> Inl (refuse (''cannot read '' @ name))
     | Inr v \<Rightarrow> if is_mapping v then Inr v else Inl (refuse (name @ '' must contain an object''))))"

definition key_set :: "pyval \<Rightarrow> string \<Rightarrow> pyval list res" where
  "key_set v k = bindR (if has_key v k then iter_items (pget v k) else Inr []) (\<lambda>ks.
     bindR (guardR (list_all (\<lambda>x. \<not> is_list x \<and> \<not> is_mapping x) ks) (TypeErr ''unhashable type'')) (\<lambda>_. Inr ks))"

definition MINIMUM_KEYS :: "string list" where
  "MINIMUM_KEYS = [''precision'', ''recall'', ''f1'', ''scenario_detection_ratio'']"

definition MAXIMUM_KEYS :: "string list" where
  "MAXIMUM_KEYS = [''false_positives_per_hour'', ''p95_inference_ms'']"

definition load_policy :: "pyval \<Rightarrow> unit res" where
  "load_policy policy =
     bindR (guardR (is_mapping policy \<and> pget policy ''schema_version'' = PStr ''promotion-policy-v1'') (refuse ''promotion policy must be promotion-policy-v1'')) (\<lambda>_.
     bindR (key_set policy ''minimum'') (\<lambda>lows.
     bindR (guardR (set lows = PStr ` set MINIMUM_KEYS) (refuse ''promotion policy minimum bounds are incomplete'')) (\<lambda>_.
     bindR (key_set policy ''maximum'') (\<lambda>highs.
     guardR (set highs = PStr ` set MAXIMUM_KEYS) (refuse ''promotion policy maximum bounds are incomplete'')))))"

definition check_artifact :: "registry \<Rightarrow> pyval \<Rightarrow> pyval res" where
  "check_artifact rg metadata =
     bindR (py_item metadata ''status'') (\<lambda>status.
     bindR (guardR (status = PStr ''candidate'') (refuse ''only a candidate can be promoted'')) (\<lambda>_.
     bindR (py_item metadata ''algorithm'') (\<lambda>algorithm.
     bindR (case artifact_layout algorithm of Inl (ModelProvenance m) \<Rightarrow> Inl (refuse ''unsupported model algorithm'') | x \<Rightarrow> x) (\<lambda>(fmt, expected).
     bindR (py_item metadata ''artifact'') (\<lambda>artifact.
     bindR (py_item artifact ''format'') (\<lambda>format.
     bindR (if format \<noteq> PStr fmt then Inr True else bindR (py_item artifact ''path'') (\<lambda>path. Inr (path \<noteq> PStr expected))) (\<lambda>misplaced.
     bindR (guardR (\<not> misplaced) (refuse ''artifact does not match its algorithm's registry layout'')) (\<lambda>_.
     case rg_files rg expected of
       None \<Rightarrow> Inl (refuse ''artifact digest does not match provenance'')
     | Some bytes \<Rightarrow>
         bindR (py_item artifact ''sha256'') (\<lambda>sha.
         bindR (guardR (PStr (sha256_hexdigest (rg_prims rg) bytes) = sha) (refuse ''artifact digest does not match provenance'')) (\<lambda>_.
         bindR (py_item artifact ''size_bytes'') (\<lambda>bytes_claimed.
         bindR (guardR (eq_int bytes_claimed (int (length bytes))) (refuse ''artifact size does not match provenance'')) (\<lambda>_. Inr artifact))))))))))))"

definition schema_digest :: "registry \<Rightarrow> pyval \<Rightarrow> string res" where
  "schema_digest rg v = (case v of
     PStr s \<Rightarrow> (case rg_schema_sha256 rg s of Some d \<Rightarrow> Inr d | None \<Rightarrow> Inl (FeatureSchema ''feature schema is missing''))
   | _ \<Rightarrow> if is_list v \<or> is_mapping v then Inl (TypeErr ''unhashable type'') else Inl (FeatureSchema ''unsupported feature schema''))"

definition check_schema :: "registry \<Rightarrow> pyval \<Rightarrow> pyval res" where
  "check_schema rg metadata =
     bindR (py_item metadata ''feature_schema'') (\<lambda>fs.
     bindR (py_item fs ''id'') (\<lambda>schema.
     bindR (py_item fs ''sha256'') (\<lambda>claimed.
     bindR (schema_digest rg schema) (\<lambda>d.
     bindR (guardR (claimed = PStr d) (refuse ''feature schema digest differs from the repository contract'')) (\<lambda>_. Inr claimed)))))"

text \<open>\<^verbatim>\<open>v.get(k, {})\<close> and \<^verbatim>\<open>v.get(k)\<close> of a value that may not be an object.\<close>

definition get_or_empty :: "pyval \<Rightarrow> string \<Rightarrow> pyval" where
  "get_or_empty v k = (if has_key v k then pget v k else PDict [])"

definition py_get :: "pyval \<Rightarrow> string \<Rightarrow> pyval res" where
  "py_get v k = (if is_mapping v then Inr (pget v k) else Inl (AttributeErr ''get''))"

fun check_metrics :: "pyval \<Rightarrow> pyval \<Rightarrow> string list \<Rightarrow> unit res" where
  "check_metrics test metadata [] = Inr ()"
| "check_metrics test metadata (name # names) =
     bindR (py_get test name) (\<lambda>v.
     bindR (bindR (py_item metadata ''evaluation'') (\<lambda>e. py_item e name)) (\<lambda>w.
     bindR (guardR (py_equal v w) (refuse (''provenance metric '' @ name @ '' differs from the bound evaluation''))) (\<lambda>_.
     check_metrics test metadata names)))"

definition check_binding :: "pyval \<Rightarrow> pyval \<Rightarrow> pyval \<Rightarrow> pyval \<Rightarrow> pyval res" where
  "check_binding binding metadata artifact schema_sha =
     bindR (guardR (pget binding ''schema_version'' = PStr ''evaluation-binding-v1'') (refuse ''evaluation.json must be evaluation-binding-v1'')) (\<lambda>_.
     bindR (bindR (py_item metadata ''dataset'') (\<lambda>d. py_item d ''manifest_sha256'')) (\<lambda>manifest.
     bindR (guardR (pget binding ''model_sha256'' = pget artifact ''sha256'') (refuse ''evaluation is not bound to this candidate (model_sha256)'')) (\<lambda>_.
     bindR (guardR (pget binding ''feature_schema_sha256'' = schema_sha) (refuse ''evaluation is not bound to this candidate (feature_schema_sha256)'')) (\<lambda>_.
     bindR (guardR (pget binding ''dataset_manifest_sha256'' = manifest) (refuse ''evaluation is not bound to this candidate (dataset_manifest_sha256)'')) (\<lambda>_.
     bindR (py_item metadata ''threshold'') (\<lambda>threshold.
     bindR (guardR (py_equal (pget binding ''threshold'') threshold) (refuse ''evaluation threshold differs from provenance'')) (\<lambda>_.
     let test = get_or_empty binding ''test_metrics'' in
     bindR (check_metrics test metadata METRIC_FIELDS) (\<lambda>_.
     bindR (py_get (get_or_empty binding ''threshold_policy'') ''selected_on'') (\<lambda>selected.
     bindR (guardR (selected = PStr ''validation'') (refuse ''threshold must have been selected on the validation partition'')) (\<lambda>_. Inr test))))))))))"

section \<open>The reviewed policy\<close>

definition detection_ratio :: "registry \<Rightarrow> pyval \<Rightarrow> pyval res" where
  "detection_ratio rg test = (let total = (if py_truth (pget test ''scenarios_total'') then pget test ''scenarios_total'' else PInt 0) in
     if \<not> py_truth total then Inr (PFloat (Fin 0))
     else bindR (py_div rg (if has_key test ''scenarios_detected'' then pget test ''scenarios_detected'' else PInt 0) total) (\<lambda>f. Inr (PFloat f)))"

text \<open>The names that miss their bound; \<open>worse a b\<close> is \<^verbatim>\<open>a < b\<close> for a minimum and \<^verbatim>\<open>b < a\<close> for a maximum.\<close>

fun missed :: "(pyval \<Rightarrow> pyval \<Rightarrow> bool res) \<Rightarrow> pyval \<Rightarrow> pyval \<Rightarrow> string list \<Rightarrow> string list res" where
  "missed worse test bounds [] = Inr []"
| "missed worse test bounds (name # names) =
     bindR (py_item test name) (\<lambda>v. bindR (py_item bounds name) (\<lambda>b. bindR (worse v b) (\<lambda>w.
     bindR (missed worse test bounds names) (\<lambda>ns. Inr (if w then name # ns else ns)))))"

definition check_limits :: "registry \<Rightarrow> pyval \<Rightarrow> pyval \<Rightarrow> unit res" where
  "check_limits rg policy test =
     bindR (py_item policy ''minimum'') (\<lambda>minimum.
     bindR (py_item policy ''maximum'') (\<lambda>maximum.
     bindR (detection_ratio rg test) (\<lambda>ratio.
     bindR (missed py_less test minimum [''precision'', ''recall'', ''f1'']) (\<lambda>low.
     bindR (bindR (py_item minimum ''scenario_detection_ratio'') (py_less ratio)) (\<lambda>unseen.
     bindR (missed (\<lambda>a b. py_less b a) test maximum MAXIMUM_KEYS) (\<lambda>high.
     guardR (low = [] \<and> \<not> unseen \<and> high = [])
       (refuse (''promotion policy not satisfied: '' @ join_with ''; '' (low @ (if unseen then [''scenario detection ratio''] else []) @ high)))))))))"

definition verify_candidate :: "registry \<Rightarrow> pyval \<Rightarrow> pyval res" where
  "verify_candidate rg policy =
     bindR (load_document rg ''metadata.json'') (\<lambda>metadata.
     bindR (load_document rg ''evaluation.json'') (\<lambda>binding.
     bindR (validate_provenance rg metadata) (\<lambda>_.
     bindR (check_artifact rg metadata) (\<lambda>artifact.
     bindR (check_schema rg metadata) (\<lambda>schema_sha.
     bindR (check_binding binding metadata artifact schema_sha) (\<lambda>test.
     bindR (check_limits rg policy test) (\<lambda>_. Inr metadata)))))))"

section \<open>Writing a registry\<close>

type_synonym directory = "string \<Rightarrow> string option"

text \<open>Nothing is written when the output directory is not empty.\<close>

definition write_registry :: "registry \<Rightarrow> directory \<Rightarrow> bool \<Rightarrow> pyval \<Rightarrow> string list \<Rightarrow> (string \<times> directory) res" where
  "write_registry rg source output_empty metadata names =
     bindR (guardR output_empty (refuse ''output directory must be absent or empty'')) (\<lambda>_.
     let body = json_indent (rg_prims rg) metadata 0 @ [CHR 0x0A] in
     Inr (sha256_hexdigest (rg_prims rg) body,
       (\<lambda>f. if f = ''metadata.json'' then Some body else if f \<in> set names then source f else None)))"

definition DETECTOR_ORDER :: "string list" where
  "DETECTOR_ORDER = [''static-rules'', ''isolation-forest'', ''static+isolation-forest'', ''lstm-autoencoder'', ''static+lstm-autoencoder'']"

definition verify_comparison :: "registry \<Rightarrow> directory \<Rightarrow> pyval \<Rightarrow> unit res" where
  "verify_comparison rg directory metadata =
     bindR (load_document (rg\<lparr>rg_files := directory\<rparr>) ''comparison.json'') (\<lambda>report.
     bindR (guardR (pget report ''schema_version'' = PStr ''benchmark-comparison-v1'') (refuse ''comparison.json must be benchmark-comparison-v1'')) (\<lambda>_.
     bindR (bindR (py_item metadata ''dataset'') (\<lambda>d. py_item d ''manifest_sha256'')) (\<lambda>manifest.
     bindR (guardR (pget report ''dataset_manifest_sha256'' = manifest) (refuse ''comparison was computed on a different dataset'')) (\<lambda>_.
     bindR (bindR (py_item metadata ''artifact'') (\<lambda>a. py_item a ''sha256'')) (\<lambda>sha.
     bindR (guardR (is_mapping (get_or_empty report ''models'')) (AttributeErr ''values'')) (\<lambda>_.
     bindR (mapR (\<lambda>(k, m). py_item m ''model_sha256'') (entries (get_or_empty report ''models''))) (\<lambda>shas.
     bindR (guardR (sha \<in> set shas) (refuse ''comparison does not include the promoted model artifact'')) (\<lambda>_.
     bindR (if has_key report ''rows'' then iter_items (pget report ''rows'') else Inr []) (\<lambda>rows.
     bindR (mapR (\<lambda>row. py_get row ''detector'') rows) (\<lambda>names.
     guardR (names = map PStr DETECTOR_ORDER) (refuse ''comparison must cover the five protocol detectors'')))))))))))"

text \<open>
  \<^verbatim>\<open>promote\<close> and \<^verbatim>\<open>retire\<close> return the digest of the written metadata; the directory is what the output holds
  afterwards, also when copying the comparison or the final validation of the written file fails.
\<close>

fun copy_files :: "string list \<Rightarrow> directory \<Rightarrow> directory \<Rightarrow> unit res \<times> directory" where
  "copy_files [] source target = (Inr (), target)"
| "copy_files (name # names) source target = (case source name of
     None \<Rightarrow> (Inl OSErr, target)
   | Some text \<Rightarrow> copy_files names source (target(name \<mapsto> text)))"

definition approved_of :: "pyval \<Rightarrow> string \<Rightarrow> pyval" where
  "approved_of metadata status = PDict (dict_set ''status'' (PStr status) (entries metadata))"

definition artifact_path :: "pyval \<Rightarrow> string res" where
  "artifact_path metadata = bindR (bindR (py_item metadata ''artifact'') (\<lambda>a. py_item a ''path'')) (\<lambda>p.
     case p of PStr s \<Rightarrow> Inr s | _ \<Rightarrow> Inl (TypeErr ''unsupported operand type(s) for /''))"

definition final_validation :: "registry \<Rightarrow> directory \<Rightarrow> unit res" where
  "final_validation rg out = (case out ''metadata.json'' of
     None \<Rightarrow> Inl OSErr | Some text \<Rightarrow> bindR (json_loads (rg_float rg) text) (validate_provenance rg))"

definition copy_comparison :: "directory option \<Rightarrow> directory \<Rightarrow> unit res \<times> directory" where
  "copy_comparison comparison out = (case comparison of None \<Rightarrow> (Inr (), out) | Some d \<Rightarrow> copy_files COMPARISON_FILES d out)"

record promotion_request =
  pq_policy :: pyval
  pq_policy_sha256 :: string
  pq_approver :: string
  pq_note :: string
  pq_approved_at :: string
  pq_comparison :: "directory option"
  pq_output_empty :: bool

definition approval_text :: "registry \<Rightarrow> promotion_request \<Rightarrow> pyval \<Rightarrow> string \<Rightarrow> string res" where
  "approval_text rg pq metadata sha =
     bindR (py_item metadata ''model_id'') (\<lambda>model_id.
     case rg_files rg ''metadata.json'' of
       None \<Rightarrow> Inl OSErr
     | Some candidate \<Rightarrow> Inr (json_indent (rg_prims rg) (PDict [(''approver'', PStr (strip (pq_approver pq))), (''approved_at'', PStr (pq_approved_at pq)),
         (''model_id'', model_id), (''metadata_sha256'', PStr sha), (''policy_sha256'', PStr (pq_policy_sha256 pq)),
         (''candidate_metadata_sha256'', PStr (sha256_hexdigest (rg_prims rg) candidate)), (''note'', PStr (pq_note pq))]) 0 @ [CHR 0x0A]))"

definition written_candidate :: "registry \<Rightarrow> promotion_request \<Rightarrow> (pyval \<times> string \<times> directory) res" where
  "written_candidate rg pq =
     bindR (guardR (strip (pq_approver pq) \<noteq> []) (refuse ''an approver identity is required'')) (\<lambda>_.
     bindR (load_policy (pq_policy pq)) (\<lambda>_.
     bindR (verify_candidate rg (pq_policy pq)) (\<lambda>metadata.
     bindR (case pq_comparison pq of None \<Rightarrow> Inr () | Some d \<Rightarrow> verify_comparison rg d metadata) (\<lambda>_.
     bindR (artifact_path metadata) (\<lambda>path.
     bindR (write_registry rg (rg_files rg) (pq_output_empty pq) (approved_of metadata ''approved'') (path # CARRIED_FILES)) (\<lambda>w.
     Inr (metadata, w)))))))"

definition promote :: "registry \<Rightarrow> promotion_request \<Rightarrow> string res \<times> directory option" where
  "promote rg pq = (case written_candidate rg pq of
     Inl e \<Rightarrow> (Inl e, None)
   | Inr (metadata, sha, out) \<Rightarrow>
       (case copy_comparison (pq_comparison pq) out of
          (Inl e, out1) \<Rightarrow> (Inl e, Some out1)
        | (Inr _, out1) \<Rightarrow>
            (case bindR (final_validation rg out1) (\<lambda>_. approval_text rg pq metadata sha) of
               Inl e \<Rightarrow> (Inl e, Some out1)
             | Inr text \<Rightarrow> (Inr sha, Some (out1(''approval.json'' \<mapsto> text))))))"

definition retired_registry :: "registry \<Rightarrow> string \<Rightarrow> string \<Rightarrow> bool \<Rightarrow> (string \<times> directory) res" where
  "retired_registry rg status reason output_empty =
     bindR (guardR (status \<in> {''retired'', ''revoked''} \<and> strip reason \<noteq> []) (refuse ''status must be retired or revoked and a reason is required'')) (\<lambda>_.
     bindR (load_document rg ''metadata.json'') (\<lambda>metadata.
     bindR (validate_provenance rg metadata) (\<lambda>_.
     bindR (artifact_path (approved_of metadata status)) (\<lambda>path.
     write_registry rg (rg_files rg) output_empty (approved_of metadata status)
       (path # CARRIED_FILES @ COMPARISON_FILES @ [''approval.json''])))))"

definition retire :: "registry \<Rightarrow> string \<Rightarrow> string \<Rightarrow> bool \<Rightarrow> string res \<times> directory option" where
  "retire rg status reason output_empty = (case retired_registry rg status reason output_empty of
     Inl e \<Rightarrow> (Inl e, None)
   | Inr (sha, out) \<Rightarrow> (Inr sha, Some (out(''retirement.json'' \<mapsto>
       json_dumps (rg_prims rg) (PDict [(''status'', PStr status), (''reason'', PStr reason)]) @ [CHR 0x0A]))))"

section \<open>What a promotion has checked\<close>

lemma load_document_mapping: "load_document rg name = Inr v \<Longrightarrow> is_mapping v"
  by (auto simp: load_document_def split: option.splits sum.splits if_splits)

lemma artifact_layout_cases:
  assumes "artifact_layout a = Inr (fmt, expected)"
  shows "expected \<in> {''model.joblib'', ''model.safetensors''}" "path_name expected = expected" "\<not> starts_with ''/'' expected"
    "expected \<notin> set (''metadata.json'' # ''approval.json'' # CARRIED_FILES @ COMPARISON_FILES)" "expected \<noteq> []"
proof -
  show e: "expected \<in> {''model.joblib'', ''model.safetensors''}" using assms by (auto simp: artifact_layout_def split: if_splits)
  have "list_all (\<lambda>x. path_name x = x \<and> \<not> starts_with ''/'' x \<and> x \<noteq> [] \<and> x \<notin> set (''metadata.json'' # ''approval.json'' # CARRIED_FILES @ COMPARISON_FILES))
     [''model.joblib'', ''model.safetensors'']" by code_simp
  then show "path_name expected = expected" "\<not> starts_with ''/'' expected"
    "expected \<notin> set (''metadata.json'' # ''approval.json'' # CARRIED_FILES @ COMPARISON_FILES)" "expected \<noteq> []"
    using e by (auto simp only: list_all_iff list.set ball_simps insert_iff empty_iff)
qed

lemma check_artifact_ok:
  assumes "check_artifact rg metadata = Inr artifact"
  obtains fmt expected bytes where "pget metadata ''status'' = PStr ''candidate''" "artifact_layout (pget metadata ''algorithm'') = Inr (fmt, expected)"
    "is_mapping metadata" "has_key metadata ''algorithm''" "has_key metadata ''artifact''" "artifact = pget metadata ''artifact''" "is_mapping artifact"
    "pget artifact ''format'' = PStr fmt" "pget artifact ''path'' = PStr expected" "rg_files rg expected = Some bytes"
    "pget artifact ''sha256'' = PStr (sha256_hexdigest (rg_prims rg) bytes)" "eq_int (pget artifact ''size_bytes'') (int (length bytes))"
proof -
  have c: "(case x of Inl (ModelProvenance m) \<Rightarrow> Inl e | y \<Rightarrow> y) = Inr z \<longleftrightarrow> x = Inr z" for x :: "'x res" and e z
    by (auto split: sum.splits exn.splits)
  show ?thesis
    using assms unfolding check_artifact_def bindR_eq_Inr c split_paired_Ex case_prod_conv guardR_eq_Inr
    apply (elim exE conjE)
    subgoal premises p for status u algorithm fmt expected artifact' format misplaced w
    proof -
      have n: "\<not> misplaced" using p by (auto simp: bindR_eq_Inr)
      obtain bytes where b: "rg_files rg expected = Some bytes" using p by (cases "rg_files rg expected") (auto simp: bindR_eq_Inr)
      show ?thesis using p n b by (intro that [of fmt expected bytes]) (auto simp: bindR_eq_Inr py_item_def split: if_splits)
    qed
    done
qed

lemma copy_files_other: "f \<notin> set names \<Longrightarrow> snd (copy_files names source target) f = target f"
  by (induction names arbitrary: target) (auto split: option.splits)

lemma copy_comparison_other: "f \<notin> set COMPARISON_FILES \<Longrightarrow> snd (copy_comparison comparison out) f = out f"
  by (simp add: copy_comparison_def copy_files_other split: option.splits)

lemma promote_ok:
  assumes "promote rg pq = (Inr d, Some out)"
  obtains metadata path where "strip (pq_approver pq) \<noteq> []" "load_policy (pq_policy pq) = Inr ()" "verify_candidate rg (pq_policy pq) = Inr metadata"
    "artifact_path metadata = Inr path" "pq_output_empty pq" "d = sha256_hexdigest (rg_prims rg) (json_indent (rg_prims rg) (approved_of metadata ''approved'') 0 @ [CHR 0x0A])"
    "out ''metadata.json'' = Some (json_indent (rg_prims rg) (approved_of metadata ''approved'') 0 @ [CHR 0x0A])"
    "bindR (json_loads (rg_float rg) (json_indent (rg_prims rg) (approved_of metadata ''approved'') 0 @ [CHR 0x0A])) (validate_provenance rg) = Inr ()"
    "\<And>f. f \<in> set (path # CARRIED_FILES) \<Longrightarrow> f \<notin> set (''metadata.json'' # ''approval.json'' # COMPARISON_FILES) \<Longrightarrow> out f = rg_files rg f"
proof -
  obtain metadata w where w: "written_candidate rg pq = Inr (metadata, w)" using assms by (auto simp: promote_def split: sum.splits)
  obtain d' out0 where w2: "w = (d', out0)" by (rule prod.exhaust)
  obtain path where p: "strip (pq_approver pq) \<noteq> []" "load_policy (pq_policy pq) = Inr ()" "verify_candidate rg (pq_policy pq) = Inr metadata"
    "artifact_path metadata = Inr path" and wr: "write_registry rg (rg_files rg) (pq_output_empty pq) (approved_of metadata ''approved'') (path # CARRIED_FILES) = Inr (d', out0)"
    using w unfolding w2 by (auto simp: written_candidate_def bindR_eq_Inr)
  let ?body = "json_indent (rg_prims rg) (approved_of metadata ''approved'') 0 @ [CHR 0x0A]"
  have o: "pq_output_empty pq" "d' = sha256_hexdigest (rg_prims rg) ?body"
    "out0 = (\<lambda>f. if f = ''metadata.json'' then Some ?body else if f \<in> set (path # CARRIED_FILES) then rg_files rg f else None)"
    using wr by (auto simp: write_registry_def bindR_eq_Inr Let_def)
  obtain out1 t where c: "copy_comparison (pq_comparison pq) out0 = (Inr (), out1)" "final_validation rg out1 = Inr ()" "out = out1(''approval.json'' \<mapsto> t)" "d = d'"
    using assms w w2 by (auto simp: promote_def bindR_eq_Inr split: sum.splits prod.splits)
  have same: "out1 f = out0 f" if "f \<notin> set COMPARISON_FILES" for f
    using copy_comparison_other [OF that, of "pq_comparison pq" out0] c(1) by simp
  have m: "out1 ''metadata.json'' = Some ?body" using same [of "''metadata.json''"] o(3) by (simp add: COMPARISON_FILES_def)
  have v: "bindR (json_loads (rg_float rg) ?body) (validate_provenance rg) = Inr ()" using c(2) m by (simp add: final_validation_def)
  have om: "out ''metadata.json'' = Some ?body" using c(3) m by simp
  have of: "out f = rg_files rg f" if "f \<in> set (path # CARRIED_FILES)" "f \<notin> set (''metadata.json'' # ''approval.json'' # COMPARISON_FILES)" for f
    using that same [of f] by (simp add: c(3) o(3))
  show ?thesis using p o(1) om v of by (intro that [of metadata path]) (simp_all add: c(4) o(2))
qed

lemma verify_candidate_ok:
  assumes "verify_candidate rg policy = Inr metadata"
  obtains binding artifact schema_sha test where "load_document rg ''metadata.json'' = Inr metadata" "load_document rg ''evaluation.json'' = Inr binding"
    "validate_provenance rg metadata = Inr ()" "check_artifact rg metadata = Inr artifact" "check_schema rg metadata = Inr schema_sha"
    "check_binding binding metadata artifact schema_sha = Inr test" "check_limits rg policy test = Inr ()"
  using assms by (auto simp: verify_candidate_def bindR_eq_Inr)

lemma check_metrics_ok:
  "check_metrics test metadata names = Inr u \<Longrightarrow> name \<in> set names \<Longrightarrow> py_equal (pget test name) (pget (pget metadata ''evaluation'') name)"
  by (induction names) (auto simp: bindR_eq_Inr py_get_def dest!: py_item_value split: if_splits)

lemma check_binding_ok:
  assumes "check_binding binding metadata artifact schema_sha = Inr test"
  shows "test = get_or_empty binding ''test_metrics''" "pget binding ''model_sha256'' = pget artifact ''sha256''"
    "pget binding ''feature_schema_sha256'' = schema_sha" "pget binding ''dataset_manifest_sha256'' = pget (pget metadata ''dataset'') ''manifest_sha256''"
    "py_equal (pget binding ''threshold'') (pget metadata ''threshold'')"
    "\<And>name. name \<in> set METRIC_FIELDS \<Longrightarrow> py_equal (pget test name) (pget (pget metadata ''evaluation'') name)"
    "pget (get_or_empty binding ''threshold_policy'') ''selected_on'' = PStr ''validation''"
proof -
  obtain manifest threshold u where b: "bindR (py_item metadata ''dataset'') (\<lambda>d. py_item d ''manifest_sha256'') = Inr manifest"
    "pget binding ''model_sha256'' = pget artifact ''sha256''" "pget binding ''feature_schema_sha256'' = schema_sha"
    "pget binding ''dataset_manifest_sha256'' = manifest" "py_item metadata ''threshold'' = Inr threshold" "py_equal (pget binding ''threshold'') threshold"
    "check_metrics (get_or_empty binding ''test_metrics'') metadata METRIC_FIELDS = Inr u"
    "py_get (get_or_empty binding ''threshold_policy'') ''selected_on'' = Inr (PStr ''validation'')" "test = get_or_empty binding ''test_metrics''"
    using assms by (auto simp: check_binding_def bindR_eq_Inr Let_def)
  show "test = get_or_empty binding ''test_metrics''" "pget binding ''model_sha256'' = pget artifact ''sha256''"
    "pget binding ''feature_schema_sha256'' = schema_sha" by (fact b)+
  show "pget binding ''dataset_manifest_sha256'' = pget (pget metadata ''dataset'') ''manifest_sha256''"
    using b(1,4) by (auto simp: bindR_eq_Inr dest!: py_item_value)
  show "py_equal (pget binding ''threshold'') (pget metadata ''threshold'')" using b(5,6) by (auto dest!: py_item_value)
  show "py_equal (pget test name) (pget (pget metadata ''evaluation'') name)" if "name \<in> set METRIC_FIELDS" for name
    unfolding b(9) by (rule check_metrics_ok [OF b(7) that])
  show "pget (get_or_empty binding ''threshold_policy'') ''selected_on'' = PStr ''validation''"
    using b(8) by (auto simp: py_get_def split: if_splits)
qed

lemma missed_none:
  "missed worse test bounds names = Inr [] \<Longrightarrow> name \<in> set names \<Longrightarrow> worse (pget test name) (pget bounds name) = Inr False"
  by (induction names) (auto simp: bindR_eq_Inr dest!: py_item_value split: if_splits)

lemma check_limits_ok:
  assumes "check_limits rg policy test = Inr u"
  obtains ratio where "detection_ratio rg test = Inr ratio" "py_less ratio (pget (pget policy ''minimum'') ''scenario_detection_ratio'') = Inr False"
    "\<forall>name \<in> {''precision'', ''recall'', ''f1''}. py_less (pget test name) (pget (pget policy ''minimum'') name) = Inr False"
    "\<forall>name \<in> set MAXIMUM_KEYS. py_less (pget (pget policy ''maximum'') name) (pget test name) = Inr False"
proof -
  obtain minimum maximum ratio where p: "py_item policy ''minimum'' = Inr minimum" "py_item policy ''maximum'' = Inr maximum"
    "detection_ratio rg test = Inr ratio" "missed py_less test minimum [''precision'', ''recall'', ''f1''] = Inr []"
    "bindR (py_item minimum ''scenario_detection_ratio'') (py_less ratio) = Inr False" "missed (\<lambda>a b. py_less b a) test maximum MAXIMUM_KEYS = Inr []"
    using assms by (auto simp: check_limits_def bindR_eq_Inr simp del: missed.simps)
  note i = py_item_value [OF p(1)] py_item_value [OF p(2)]
  show ?thesis
  proof (rule that [OF p(3)])
    show "py_less ratio (pget (pget policy ''minimum'') ''scenario_detection_ratio'') = Inr False"
      using p(5) i by (auto simp: bindR_eq_Inr dest!: py_item_value)
    show "\<forall>name \<in> {''precision'', ''recall'', ''f1''}. py_less (pget test name) (pget (pget policy ''minimum'') name) = Inr False"
      using missed_none [OF p(4)] i by simp
    show "\<forall>name \<in> set MAXIMUM_KEYS. py_less (pget (pget policy ''maximum'') name) (pget test name) = Inr False"
      using missed_none [OF p(6)] i by simp
  qed
qed

lemma py_equal_number: "py_equal a b \<Longrightarrow> number_of a = number_of b"
  by (auto simp: py_equal_def split: option.splits)

lemma py_less_number: "number_of a = number_of b \<Longrightarrow> py_less a c = py_less b c" "number_of a = number_of b \<Longrightarrow> py_less c a = py_less c b"
  by (simp_all add: py_less_def)

text \<open>
  C34. Nothing is promoted that was not reviewed. When a promotion succeeds, an approver is named, the candidate's
  provenance is valid and its status was candidate; the artifact that is copied has the recorded digest, and the evaluation
  is bound to that digest and to the dataset of the provenance, with a threshold selected on the validation
  partition; and the metrics in the provenance, which are the ones of the bound evaluation, miss no bound of the policy.
\<close>

theorem promotion_governed:
  assumes "promote rg pq = (Inr d, Some out)"
  shows "\<exists>metadata binding fmt expected bytes ratio. strip (pq_approver pq) \<noteq> [] \<and> pq_output_empty pq \<and>
     load_document rg ''metadata.json'' = Inr metadata \<and> load_document rg ''evaluation.json'' = Inr binding \<and>
     rg_provenance_ok rg metadata \<and> pget metadata ''status'' = PStr ''candidate'' \<and>
     artifact_layout (pget metadata ''algorithm'') = Inr (fmt, expected) \<and> rg_files rg expected = Some bytes \<and> out expected = Some bytes \<and>
     pget (pget metadata ''artifact'') ''sha256'' = PStr (sha256_hexdigest (rg_prims rg) bytes) \<and>
     pget binding ''model_sha256'' = PStr (sha256_hexdigest (rg_prims rg) bytes) \<and>
     pget binding ''dataset_manifest_sha256'' = pget (pget metadata ''dataset'') ''manifest_sha256'' \<and>
     pget (get_or_empty binding ''threshold_policy'') ''selected_on'' = PStr ''validation'' \<and>
     (\<forall>name \<in> {''precision'', ''recall'', ''f1''}.
        py_less (pget (pget metadata ''evaluation'') name) (pget (pget (pq_policy pq) ''minimum'') name) = Inr False) \<and>
     (\<forall>name \<in> set MAXIMUM_KEYS. py_less (pget (pget (pq_policy pq) ''maximum'') name) (pget (pget metadata ''evaluation'') name) = Inr False) \<and>
     detection_ratio rg (get_or_empty binding ''test_metrics'') = Inr ratio \<and>
     py_less ratio (pget (pget (pq_policy pq) ''minimum'') ''scenario_detection_ratio'') = Inr False"
proof -
  obtain metadata path where p: "strip (pq_approver pq) \<noteq> []" "verify_candidate rg (pq_policy pq) = Inr metadata" "artifact_path metadata = Inr path"
    "pq_output_empty pq"
    and of: "\<And>f. f \<in> set (path # CARRIED_FILES) \<Longrightarrow> f \<notin> set (''metadata.json'' # ''approval.json'' # COMPARISON_FILES) \<Longrightarrow> out f = rg_files rg f"
    by (rule promote_ok [OF assms]) blast
  obtain binding artifact schema_sha test where v: "load_document rg ''metadata.json'' = Inr metadata" "load_document rg ''evaluation.json'' = Inr binding"
    "validate_provenance rg metadata = Inr ()" "check_artifact rg metadata = Inr artifact"
    "check_binding binding metadata artifact schema_sha = Inr test" "check_limits rg (pq_policy pq) test = Inr ()"
    by (rule verify_candidate_ok [OF p(2)])
  obtain fmt expected bytes where a: "pget metadata ''status'' = PStr ''candidate''" "artifact_layout (pget metadata ''algorithm'') = Inr (fmt, expected)"
    "artifact = pget metadata ''artifact''" "pget artifact ''path'' = PStr expected" "rg_files rg expected = Some bytes"
    "pget artifact ''sha256'' = PStr (sha256_hexdigest (rg_prims rg) bytes)" by (rule check_artifact_ok [OF v(4)])
  obtain ratio where r: "detection_ratio rg test = Inr ratio" "py_less ratio (pget (pget (pq_policy pq) ''minimum'') ''scenario_detection_ratio'') = Inr False"
    "\<forall>name \<in> {''precision'', ''recall'', ''f1''}. py_less (pget test name) (pget (pget (pq_policy pq) ''minimum'') name) = Inr False"
    "\<forall>name \<in> set MAXIMUM_KEYS. py_less (pget (pget (pq_policy pq) ''maximum'') name) (pget test name) = Inr False"
    by (rule check_limits_ok [OF v(6)])
  note b = check_binding_ok [OF v(5)]
  have "path = expected" using p(3) a(3,4) by (auto simp: artifact_path_def bindR_eq_Inr str_case_Inr dest!: py_item_value)
  then have o: "out expected = Some bytes" using of [of expected] artifact_layout_cases(4) [OF a(2)] a(5) by simp
  have n: "number_of (pget test name) = number_of (pget (pget metadata ''evaluation'') name)" if "name \<in> set METRIC_FIELDS" for name
    using py_equal_number [OF b(6) [OF that]] .
  have low: "\<forall>name \<in> {''precision'', ''recall'', ''f1''}. py_less (pget (pget metadata ''evaluation'') name) (pget (pget (pq_policy pq) ''minimum'') name) = Inr False"
  proof
    fix name
    assume m: "name \<in> {''precision'', ''recall'', ''f1''}"
    then have "name \<in> set METRIC_FIELDS" by (auto simp: METRIC_FIELDS_def)
    from py_less_number(1) [OF n [OF this]] bspec [OF r(3) m] show "py_less (pget (pget metadata ''evaluation'') name) (pget (pget (pq_policy pq) ''minimum'') name) = Inr False"
      by simp
  qed
  have high: "\<forall>name \<in> set MAXIMUM_KEYS. py_less (pget (pget (pq_policy pq) ''maximum'') name) (pget (pget metadata ''evaluation'') name) = Inr False"
  proof
    fix name
    assume m: "name \<in> set MAXIMUM_KEYS"
    then have "name \<in> set METRIC_FIELDS" by (auto simp: METRIC_FIELDS_def MAXIMUM_KEYS_def)
    from py_less_number(2) [OF n [OF this]] bspec [OF r(4) m] show "py_less (pget (pget (pq_policy pq) ''maximum'') name) (pget (pget metadata ''evaluation'') name) = Inr False"
      by simp
  qed
  have ok: "rg_provenance_ok rg metadata" using v(3) by (simp add: validate_provenance_def)
  have sh: "pget (pget metadata ''artifact'') ''sha256'' = PStr (sha256_hexdigest (rg_prims rg) bytes)"
    "pget binding ''model_sha256'' = PStr (sha256_hexdigest (rg_prims rg) bytes)" using a(3,6) b(2) by simp_all
  have rt: "detection_ratio rg (get_or_empty binding ''test_metrics'') = Inr ratio" using r(1) b(1) by simp
  show ?thesis
    by (intro exI [of _ metadata] exI [of _ binding] exI [of _ fmt] exI [of _ expected] exI [of _ bytes] exI [of _ ratio] conjI)
      (fact p(1) p(4) v(1) v(2) ok a(1) a(2) a(5) o sh(1) sh(2) b(4) b(7) low high rt r(2))+
qed

section \<open>Promoted models load, retired ones do not\<close>

lemma arranged_simps:
  "is_mapping (arranged True v) = is_mapping v" "eq_int (arranged True v) n = eq_int v n" "arranged True v = PStr s \<longleftrightarrow> v = PStr s"
  "is_list (arranged True v) = is_list v" "arranged True v = PNone \<longleftrightarrow> v = PNone"
  by (cases v; simp)+

lemma json_ok_members: "json_ok pr fl (PDict kvs) \<longleftrightarrow> distinct (map fst kvs) \<and> (\<forall>(k, v) \<in> set kvs. json_ok pr fl v)"
  by (auto simp: list_all_iff)

lemma json_ok_pget: "json_ok pr fl v \<Longrightarrow> json_ok pr fl (pget v k)"
proof (cases v)
  case (PDict kvs)
  assume "json_ok pr fl v"
  then have "\<forall>(k, u) \<in> set kvs. json_ok pr fl u" unfolding PDict json_ok_members by blast
  then show ?thesis by (cases "map_of kvs k") (auto simp: PDict dest: map_of_SomeD simp del: dict_get_None_iff)
qed (simp_all add: pget_def)

lemma arranged_get: "json_ok pr fl v \<Longrightarrow> pget (arranged True v) k = arranged True (pget v k)"
proof (cases v)
  case (PDict kvs)
  assume "json_ok pr fl v"
  then show ?thesis unfolding PDict by (intro arranged_pget) (simp add: json_ok_members del: json_ok.simps)
qed (simp_all add: pget_def)

lemma arranged_has_key: "has_key (arranged True v) k = has_key v k"
  by (cases v) (auto simp: has_key_def pkeys_def key_order_simps image_iff)

lemma arranged_item: "json_ok pr fl v \<Longrightarrow> py_item v k = Inr x \<Longrightarrow> py_item (arranged True v) k = Inr (arranged True x)"
  by (auto simp: py_item_def arranged_simps arranged_has_key arranged_get split: if_splits)

lemma approved_of_get: "pget (approved_of metadata status) k = (if k = ''status'' then PStr status else pget metadata k)"
  by (cases metadata) (simp_all add: approved_of_def pget_def del: dict_get_None_iff)

lemma approved_of_ok: "json_ok pr fl metadata \<Longrightarrow> json_ok pr fl (approved_of metadata status)"
proof -
  assume m: "json_ok pr fl metadata"
  have "distinct (map fst (entries metadata))" "\<forall>(k, v) \<in> set (entries metadata). json_ok pr fl v"
    using m by (cases metadata; auto simp: json_ok_members simp del: json_ok.simps)+
  moreover have "set (dict_set k v kvs) \<subseteq> insert (k, v) (set kvs)" for k v and kvs :: "pyval dict"
    by (induction kvs) auto
  ultimately show ?thesis unfolding approved_of_def json_ok_members using distinct_dict_set by fastforce
qed

lemma approved_of_item: "is_mapping metadata \<Longrightarrow> k \<noteq> ''status'' \<Longrightarrow> py_item (approved_of metadata status) k = py_item metadata k"
proof (cases metadata)
  case (PDict kvs)
  have "set (map fst (dict_set ''status'' x kvs)) = insert ''status'' (set (map fst kvs))" for x :: pyval
    by (induction kvs) auto
  then show "k \<noteq> ''status'' \<Longrightarrow> ?thesis" using approved_of_get [of metadata status k]
    by (simp add: py_item_def PDict approved_of_def has_key_def pkeys_def)
qed simp_all

text \<open>
  C35. A promoted model is one the scoring service can serve: with the digest that a promotion returns as the trusted digest, the
  loader accepts the written directory and yields the model. Its metadata are the candidate's with the status approved, in the
  order of their keys. What promotion does not check and the loader does is assumed of the candidate: the copy of the feature schema, the size limit, and
  a deserialisable artifact with the declared contract. Files are not links, digests are 64 hexadecimal digits, and the
  printed floats of the metadata read back.
\<close>

theorem promoted_model_loads:
  assumes "promote rg pq = (Inr d, Some out)" "load_document rg ''metadata.json'' = Inr metadata" "json_ok (rg_prims rg) (rg_float rg) metadata"
    and "\<forall>t. is_sha256_hex (sha256_hexdigest (rg_prims rg) t)" "\<forall>f. out f \<noteq> None \<longrightarrow> resolve f = Some f"
    and "artifact_layout (pget metadata ''algorithm'') = Inr (fmt, expected)" "rg_files rg expected = Some bytes" "length bytes \<le> MAX_MODEL"
    and "pget (pget metadata ''feature_schema'') ''id'' = PStr schema" "rg_schema_sha256 rg schema = Some sha"
    and "map_option (sha256_hexdigest (rg_prims rg)) (rg_files rg ''feature_schema.json'') = Some sha"
    and "deserialize rg (sorted_keys (approved_of metadata ''approved'')) bytes = Inr m" "check_model schema sha m = Inr ()"
  shows "load_approved_model (on_disk rg (out, resolve)) (Some d) = Inr \<lparr>am_model = m, am_metadata = sorted_keys (approved_of metadata ''approved''),
    am_metadata_sha256 = d, am_model_sha256 = sha256_hexdigest (rg_prims rg) bytes\<rparr>"
proof -
  let ?pr = "rg_prims rg" and ?fl = "rg_float rg" and ?A = "approved_of metadata ''approved''"
  let ?L = "arranged True ?A" and ?body = "json_indent ?pr ?A 0 @ [CHR 0x0A]" and ?rg = "on_disk rg (out, resolve)"
  obtain metadata' path where p: "verify_candidate rg (pq_policy pq) = Inr metadata'" "artifact_path metadata' = Inr path"
    "d = sha256_hexdigest ?pr (json_indent ?pr (approved_of metadata' ''approved'') 0 @ [CHR 0x0A])"
    "out ''metadata.json'' = Some (json_indent ?pr (approved_of metadata' ''approved'') 0 @ [CHR 0x0A])"
    "bindR (json_loads ?fl (json_indent ?pr (approved_of metadata' ''approved'') 0 @ [CHR 0x0A])) (validate_provenance rg) = Inr ()"
    and of: "\<And>f. f \<in> set (path # CARRIED_FILES) \<Longrightarrow> f \<notin> set (''metadata.json'' # ''approval.json'' # COMPARISON_FILES) \<Longrightarrow> out f = rg_files rg f"
    by (rule promote_ok [OF assms(1)]) blast
  obtain artifact schema_sha where v: "load_document rg ''metadata.json'' = Inr metadata'" "check_artifact rg metadata' = Inr artifact" "check_schema rg metadata' = Inr schema_sha"
    by (rule verify_candidate_ok [OF p(1)])
  have same: "metadata' = metadata" using v(1) assms(2) by simp
  note p = p [unfolded same] and v = v [unfolded same]
  obtain fmt' expected' bytes' where a: "artifact_layout (pget metadata ''algorithm'') = Inr (fmt', expected')" "is_mapping metadata" "has_key metadata ''artifact''"
    "artifact = pget metadata ''artifact''" "is_mapping artifact" "pget artifact ''format'' = PStr fmt'" "pget artifact ''path'' = PStr expected'"
    "rg_files rg expected' = Some bytes'" "pget artifact ''sha256'' = PStr (sha256_hexdigest ?pr bytes')"
    "eq_int (pget artifact ''size_bytes'') (int (length bytes'))" by (rule check_artifact_ok [OF v(2)])
  have e: "fmt' = fmt" "expected' = expected" "bytes' = bytes" using a(1,8) assms(6,7) by auto
  note a = a [unfolded e] and lay = artifact_layout_cases [OF assms(6)]
  have path: "path = expected" using p(2) a(4,7) by (auto simp: artifact_path_def bindR_eq_Inr str_case_Inr dest!: py_item_value)
  have oA: "json_ok ?pr ?fl ?A" by (rule approved_of_ok [OF assms(3)])
  have read: "json_loads ?fl ?body = Inr ?L" by (rule json_file_reads_back [OF oA])
  have prov: "validate_provenance ?rg ?L = Inr ()" using p(5) read by (simp add: validate_provenance_def)
  have meta: "read_metadata ?rg d = Inr ?L" using p(3,4) read by (simp add: read_metadata_def on_disk_def)
  have get: "pget ?L k = arranged True (if k = ''status'' then PStr ''approved'' else pget metadata k)" for k
    using arranged_get [OF oA, of k] by (simp add: approved_of_get)
  have item: "py_item ?L k = Inr (arranged True x)" if "py_item metadata k = Inr x" "k \<noteq> ''status''" for k x
    using arranged_item [OF oA, of k x] approved_of_item [OF a(2), of k] that by simp
  have mapL: "is_mapping ?L" by (simp add: arranged_simps approved_of_def)
  let ?X = "arranged True artifact"
  have oX: "json_ok ?pr ?fl artifact" unfolding a(4) by (rule json_ok_pget [OF assms(3)])
  have getX: "pget ?X k = arranged True (pget artifact k)" for k by (rule arranged_get [OF oX])
  have itemX: "py_item ?L ''artifact'' = Inr ?X" using a(2-4) by (intro item) (simp_all add: py_item_def)
  have oe: "out expected = Some bytes" using of [of expected] path lay(4) assms(7) by simp
  have art: "read_artifact ?rg ?X expected = Inr bytes"
  proof -
    have "resolve expected = Some expected" using assms(5) oe by simp
    then have "safe_artifact_path ?rg (pget ?X ''path'') expected = Inr expected"
      using lay(2,3,5) a(7) by (simp add: safe_artifact_path_def getX on_disk_def)
    then show ?thesis using assms(8) a(9,10) oe by (simp add: read_artifact_def getX arranged_simps on_disk_def)
  qed
  have alg: "artifact_layout (pget ?L ''algorithm'') = Inr (fmt, expected)"
  proof -
    have "\<exists>s. pget metadata ''algorithm'' = PStr s" using assms(6) by (auto simp: artifact_layout_def split: if_splits)
    then show ?thesis using assms(6) by (auto simp: get)
  qed
  have con: "check_contract ?rg ?L = Inr (schema, sha)"
  proof -
    obtain fs schema' sha' where f: "py_item metadata ''feature_schema'' = Inr fs" "py_item fs ''id'' = Inr schema'" "schema_digest rg schema' = Inr sha'"
      "py_item fs ''sha256'' = Inr (PStr sha')"
      using v(3) by (auto simp: check_schema_def bindR_eq_Inr)
    have g: "fs = pget metadata ''feature_schema''" "schema' = pget fs ''id''" "pget fs ''sha256'' = PStr sha'" "is_mapping fs"
      using f by (auto simp: py_item_def split: if_splits)
    then have "schema' = PStr schema" using assms(9) by simp
    then have "sha' = sha" using f(3) assms(10) by (simp add: schema_digest_def)
    then have fs: "fs = pget metadata ''feature_schema''" "pget fs ''id'' = PStr schema" "pget fs ''sha256'' = PStr sha" "is_mapping fs"
      using g assms(9) by simp_all
    have oF: "json_ok ?pr ?fl fs" unfolding fs(1) by (rule json_ok_pget [OF assms(3)])
    have gF: "pget (arranged True fs) ''id'' = PStr schema" "pget (arranged True fs) ''sha256'' = PStr sha"
      using arranged_get [OF oF] fs(2,3) by simp_all
    have "out ''feature_schema.json'' = rg_files rg ''feature_schema.json''" by (rule of) (simp_all add: CARRIED_FILES_def COMPARISON_FILES_def)
    then show ?thesis using item [OF f(1)] fs(4) gF assms(10,11) by (simp add: check_contract_def arranged_simps on_disk_def)
  qed
  have st: "pget ?L ''status'' = PStr ''approved''" by (simp add: get)
  have fm: "is_mapping ?X \<and> pget ?X ''format'' = PStr fmt" using a(5,6) by (simp add: arranged_simps getX)
  have "deserialize ?rg = deserialize rg" by (intro ext) (simp only: deserialize_def on_disk_simps)
  then have ds: "deserialize ?rg ?L bytes = Inr m" using assms(12) by simp
  have hx: "is_sha256_hex d" using assms(4) p(3) by simp
  show ?thesis using assms(13) hx fm
    by (simp add: load_approved_model_def meta prov mapL st alg itemX art con ds)
qed

text \<open>
  C36. Retirement is final: no trusted digest makes the loader accept a directory that \<^verbatim>\<open>retire\<close> has written, whatever its
  paths resolve to.
\<close>

theorem retired_never_loads:
  assumes "retire rg status reason output_empty = (Inr d, Some out)" "\<forall>metadata. load_document rg ''metadata.json'' = Inr metadata \<longrightarrow> json_ok (rg_prims rg) (rg_float rg) metadata"
  shows "\<exists>e. load_approved_model (on_disk rg (out, resolve)) trusted = Inl e"
proof -
  obtain d' out0 where r: "retired_registry rg status reason output_empty = Inr (d', out0)" "out ''metadata.json'' = out0 ''metadata.json''"
    using assms(1) by (auto simp: retire_def split: sum.splits)
  then obtain metadata where m: "status \<in> {''retired'', ''revoked''}" "load_document rg ''metadata.json'' = Inr metadata"
    "out0 ''metadata.json'' = Some (json_indent (rg_prims rg) (approved_of metadata status) 0 @ [CHR 0x0A])"
    by (auto simp: retired_registry_def write_registry_def bindR_eq_Inr Let_def)
  let ?A = "approved_of metadata status"
  have ok: "json_ok (rg_prims rg) (rg_float rg) ?A" using assms(2) m(2) by (intro approved_of_ok) blast
  note read = json_file_reads_back [OF ok]
  have meta: "x = arranged True ?A" if "read_metadata (on_disk rg (out, resolve)) t = Inr x" for t x
    using that r(2) m(3) read by (auto simp: read_metadata_def bindR_eq_Inr on_disk_def)
  have st: "pget (arranged True ?A) ''status'' \<noteq> PStr ''approved''" using m(1) arranged_get [OF ok, of "''status''"] by (auto simp: approved_of_get)
  show ?thesis
  proof (cases "load_approved_model (on_disk rg (out, resolve)) trusted")
    case (Inr am)
    then show ?thesis
    proof (rule load_approved_model_ok)
      assume "read_metadata (on_disk rg (out, resolve)) (am_metadata_sha256 am) = Inr (am_metadata am)" "pget (am_metadata am) ''status'' = PStr ''approved''"
      then show ?thesis using meta st by metis
    qed
  qed blast
qed

section \<open>A promotion\<close>

definition demo_metadata :: pyval where
  "demo_metadata = PDict [(''algorithm'', PStr ''IsolationForest''),
     (''artifact'', PDict [(''format'', PStr ''joblib''), (''path'', PStr ''model.joblib''), (''sha256'', PStr toy_digest), (''size_bytes'', PInt 3)]),
     (''dataset'', PDict [(''manifest_sha256'', PStr toy_digest)]),
     (''evaluation'', PDict (map (\<lambda>k. (k, PInt 1)) METRIC_FIELDS)),
     (''feature_schema'', PDict [(''id'', PStr ''endpoint-window-v1''), (''sha256'', PStr toy_digest)]),
     (''model_id'', PStr ''if-1''), (''status'', PStr ''candidate''), (''threshold'', PInt 1)]"

definition demo_binding :: pyval where
  "demo_binding = PDict [(''dataset_manifest_sha256'', PStr toy_digest), (''feature_schema_sha256'', PStr toy_digest), (''model_sha256'', PStr toy_digest),
     (''schema_version'', PStr ''evaluation-binding-v1''),
     (''test_metrics'', PDict (map (\<lambda>k. (k, PInt 1)) (METRIC_FIELDS @ [''scenarios_detected'', ''scenarios_total'']))),
     (''threshold'', PInt 1), (''threshold_policy'', PDict [(''selected_on'', PStr ''validation'')])]"

definition demo_policy :: pyval where
  "demo_policy = PDict [(''schema_version'', PStr ''promotion-policy-v1''), (''minimum'', PDict (map (\<lambda>k. (k, PInt 1)) MINIMUM_KEYS)),
     (''maximum'', PDict (map (\<lambda>k. (k, PInt 6)) MAXIMUM_KEYS))]"

definition demo_candidate :: directory where
  "demo_candidate f = (if f = ''metadata.json'' then Some (json_indent toy_prims demo_metadata 0 @ [CHR 0x0A])
     else if f = ''evaluation.json'' then Some (json_indent toy_prims demo_binding 0 @ [CHR 0x0A])
     else if f = ''model.joblib'' then Some ''abc'' else if f = ''feature_schema.json'' then Some ''{}'' else None)"

definition demo_registry :: registry where
  "demo_registry = toy_registry\<lparr>rg_files := demo_candidate\<rparr>"

definition demo_promotion :: promotion_request where
  "demo_promotion = \<lparr>pq_policy = demo_policy, pq_policy_sha256 = toy_digest, pq_approver = ''alice'', pq_note = [], pq_approved_at = ''2026-01-01T00:00:00Z'',
     pq_comparison = None, pq_output_empty = True\<rparr>"

lemma demo_fields [simp]:
  "rg_prims demo_registry = toy_prims" "rg_float demo_registry = rg_float toy_registry" "rg_files demo_registry = demo_candidate"
  "rg_provenance_ok demo_registry = rg_provenance_ok toy_registry" "rg_schema_sha256 demo_registry = rg_schema_sha256 toy_registry"
  by (simp_all add: demo_registry_def toy_registry_def)

lemma demo_documents:
  "json_ok toy_prims (rg_float toy_registry) demo_metadata"
  "load_document demo_registry ''metadata.json'' = Inr (sorted_keys demo_metadata)" "load_document demo_registry ''evaluation.json'' = Inr (sorted_keys demo_binding)"
proof -
  show o: "json_ok toy_prims (rg_float toy_registry) demo_metadata" by code_simp
  have b: "json_ok toy_prims (rg_float toy_registry) demo_binding" by code_simp
  have f: "demo_candidate ''metadata.json'' = Some (json_indent toy_prims demo_metadata 0 @ [CHR 0x0A])"
    "demo_candidate ''evaluation.json'' = Some (json_indent toy_prims demo_binding 0 @ [CHR 0x0A])" by (simp_all add: demo_candidate_def)
  have m: "is_mapping demo_metadata" "is_mapping demo_binding" by (simp_all add: demo_metadata_def demo_binding_def)
  show "load_document demo_registry ''metadata.json'' = Inr (sorted_keys demo_metadata)" "load_document demo_registry ''evaluation.json'' = Inr (sorted_keys demo_binding)"
    using json_file_reads_back [OF o] json_file_reads_back [OF b] m by (simp_all add: load_document_def f arranged_simps)
qed

lemma demo_verified: "verify_candidate demo_registry demo_policy = Inr (sorted_keys demo_metadata)"
proof -
  have v: "validate_provenance demo_registry (sorted_keys demo_metadata) = Inr ()" by code_simp
  have a: "check_artifact demo_registry (sorted_keys demo_metadata) = Inr (pget (sorted_keys demo_metadata) ''artifact'')" by code_simp
  have s: "check_schema demo_registry (sorted_keys demo_metadata) = Inr (PStr toy_digest)" by code_simp
  have b: "check_binding (sorted_keys demo_binding) (sorted_keys demo_metadata) (pget (sorted_keys demo_metadata) ''artifact'') (PStr toy_digest)
     = Inr (pget (sorted_keys demo_binding) ''test_metrics'')" by code_simp
  have c: "check_limits demo_registry demo_policy (pget (sorted_keys demo_binding) ''test_metrics'') = Inr ()" by code_simp
  show ?thesis by (simp add: verify_candidate_def demo_documents v a s b c)
qed

lemma demo_promoted: "\<exists>out. promote demo_registry demo_promotion = (Inr toy_digest, Some out)"
proof -
  let ?M = "sorted_keys demo_metadata" and ?A = "approved_of (sorted_keys demo_metadata) ''approved''"
  have ok: "json_ok toy_prims (rg_float toy_registry) ?A" by code_simp
  have pol: "load_policy demo_policy = Inr ()" by code_simp
  have pa: "artifact_path ?M = Inr ''model.joblib''" by code_simp
  have fv: "validate_provenance demo_registry (sorted_keys ?A) = Inr ()" by code_simp
  have id: "py_item ?M ''model_id'' = Inr (PStr ''if-1'')" by code_simp
  have ap: "strip ''alice'' \<noteq> []" by code_simp
  have meta: "demo_candidate ''metadata.json'' \<noteq> None" by (simp add: demo_candidate_def)
  show ?thesis
    using ap pol pa fv id meta json_file_reads_back [OF ok]
    by (auto simp: promote_def written_candidate_def demo_promotion_def demo_verified write_registry_def copy_comparison_def
      final_validation_def approval_text_def Let_def)
qed

theorem promotion_governed_witness:
  "\<exists>out metadata. promote demo_registry demo_promotion = (Inr toy_digest, Some out) \<and> load_document demo_registry ''metadata.json'' = Inr metadata \<and>
     pget metadata ''status'' = PStr ''candidate'' \<and>
     (\<forall>name \<in> set MAXIMUM_KEYS. py_less (pget (pget demo_policy ''maximum'') name) (pget (pget metadata ''evaluation'') name) = Inr False)"
proof -
  obtain out where o: "promote demo_registry demo_promotion = (Inr toy_digest, Some out)" using demo_promoted by blast
  have "pq_policy demo_promotion = demo_policy" by (simp add: demo_promotion_def)
  then show ?thesis using promotion_governed [OF o] by (elim exE conjE) (intro exI [of _ out] exI conjI; (rule o | simp))
qed

lemma demo_served: "deserialize demo_registry (sorted_keys (approved_of (sorted_keys demo_metadata) ''approved'')) ''abc'' = Inr toy_model"
proof -
  have "pget (sorted_keys (approved_of (sorted_keys demo_metadata) ''approved'')) ''algorithm'' = PStr ''IsolationForest''" by code_simp
  then show ?thesis by (simp add: deserialize_def demo_registry_def toy_registry_def) (simp add: toy_model_def)
qed

theorem promoted_model_loads_witness:
  "\<exists>out am. promote demo_registry demo_promotion = (Inr toy_digest, Some out) \<and>
     load_approved_model (on_disk demo_registry (out, Some)) (Some toy_digest) = Inr am \<and> am_model am = toy_model"
proof -
  obtain out where o: "promote demo_registry demo_promotion = (Inr toy_digest, Some out)" using demo_promoted by blast
  let ?M = "sorted_keys demo_metadata"
  have j: "json_ok (rg_prims demo_registry) (rg_float demo_registry) ?M" unfolding demo_fields by code_simp
  have hx: "is_sha256_hex toy_digest" by code_simp
  then have h: "\<forall>t. is_sha256_hex (sha256_hexdigest (rg_prims demo_registry) t)" by simp
  have a: "artifact_layout (pget ?M ''algorithm'') = Inr (''joblib'', ''model.joblib'')" by code_simp
  have b: "rg_files demo_registry ''model.joblib'' = Some ''abc''" by (simp add: demo_candidate_def)
  have l: "length ''abc'' \<le> MAX_MODEL" by (simp add: MAX_MODEL_def)
  have f: "pget (pget ?M ''feature_schema'') ''id'' = PStr ''endpoint-window-v1''" by code_simp
  have s: "rg_schema_sha256 demo_registry ''endpoint-window-v1'' = Some toy_digest" by (simp add: toy_registry_def)
  have c: "map_option (sha256_hexdigest (rg_prims demo_registry)) (rg_files demo_registry ''feature_schema.json'') = Some toy_digest"
    by (simp add: demo_candidate_def)
  have m: "check_model ''endpoint-window-v1'' toy_digest toy_model = Inr ()" by code_simp
  have r: "\<forall>x. out x \<noteq> None \<longrightarrow> Some x = Some x" by simp
  note loads = promoted_model_loads [OF o demo_documents(2) j h r a b l f s c demo_served m]
  show ?thesis by (rule exI [of _ out], rule exI, intro conjI, rule o, rule loads) simp
qed

theorem retired_never_loads_witness:
  "\<exists>d out e. retire demo_registry ''retired'' ''superseded'' True = (Inr d, Some out) \<and>
     load_approved_model (on_disk demo_registry (out, Some)) (Some toy_digest) = Inl e"
proof -
  have v: "validate_provenance demo_registry (sorted_keys demo_metadata) = Inr ()" by code_simp
  have pa: "artifact_path (approved_of (sorted_keys demo_metadata) ''retired'') = Inr ''model.joblib''" by code_simp
  have rs: "strip ''superseded'' \<noteq> []" by code_simp
  have "\<exists>d out. retire demo_registry ''retired'' ''superseded'' True = (Inr d, Some out)"
    using v pa rs by (simp add: retire_def retired_registry_def demo_documents(2) write_registry_def Let_def)
  then obtain d out where r: "retire demo_registry ''retired'' ''superseded'' True = (Inr d, Some out)" by blast
  have "json_ok toy_prims (rg_float toy_registry) (sorted_keys demo_metadata)" by code_simp
  then have j: "\<forall>metadata. load_document demo_registry ''metadata.json'' = Inr metadata \<longrightarrow> json_ok (rg_prims demo_registry) (rg_float demo_registry) metadata"
    using demo_documents(2) by simp
  show ?thesis using retired_never_loads [OF r j, of Some "Some toy_digest"] r by blast
qed

end
