(* ===== verification/Spec2Isabelle.thy ===== *)
theory Spec2Isabelle
  imports Service Isolation Outbox Config Decision_Runner Handoff Decision_Correctness Feature_Vectors Enrichment_Delivery Labels Thresholds Promotion
begin

text \<open>
  \<^bold>\<open>The response plane of CompanyXYZ-NG\<close>

  This library models the automated response plane of the repository: a decision engine turns a
  scored anomaly and independent evidence into a signed command, an orchestrator validates the command
  and drives it through a crash-safe life cycle, adapters and transports put it on firewalls and
  endpoints, and services, workers and agents run the parts. All paths are below \<^verbatim>\<open>src/\<close>.

  \<^bold>\<open>How the parts interact.\<close> The decision runner searches Elasticsearch for anomalies and evidence, asks
  the engine, writes the decision event and sends the signed command. The response service accepts the
  command over HTTPS and submits it to the orchestrator, which keeps its records in a SQLite store next
  to the audit events. Once per tick the service applies, verifies, expires and recovers responses
  through the adapters, and exports audit events to Elasticsearch. An adapter calls one client per
  firewall peer, which goes through an ownership ledger and a backend transport to the firewall (for
  nftables to the enforcement agent, which runs \<^verbatim>\<open>nft\<close>), or the Wazuh API, which starts the isolation
  script on an endpoint. The anomalies come from two workers: the feature worker reduces the telemetry
  of each closed five-minute window to vectors in the index, and the enrichment worker pulls them into
  its outbox, has them scored and writes the scored events back.

  \<^bold>\<open>Conventions.\<close> Code that may raise returns \<open>'a res\<close>, a sum with the exception on the left; code with
  effects is \<open>('s, 'a) ex\<close>, which keeps the state reached when it raises. JSON, YAML and command objects
  are the datatype \<open>pyval\<close>; a \<^verbatim>\<open>dict\<close> is an association list in insertion order. Instants are
  microseconds as unbounded \<^typ>\<open>int\<close> with Python's range checks written out, finite floats are exact
  rationals. The firewalls, managers, indices and networks are an arbitrary world \<open>'w\<close>. Parameters of
  the model are SHA-256 and \<^verbatim>\<open>float.__repr__\<close> (record \<open>prims\<close>), HMAC, the Ed25519 curve, URL splitting,
  the network of an HTTPS client, \<^verbatim>\<open>nft\<close> and the clock; what a theorem needs of one of them is a named
  hypothesis, met by a concrete instance in its witness.

  \<^bold>\<open>Theories and sources.\<close>
  \<^item> \<open>Prelude\<close>, \<open>Values\<close>, \<open>Timestamps\<close>, \<open>Ipaddr\<close>, \<open>Address_Text\<close>: exceptions (\<^verbatim>\<open>response/errors.py\<close>), the two
    monads, Python strings, values, canonical JSON, \<^verbatim>\<open>datetime\<close> and \<^verbatim>\<open>ipaddress\<close> as far as they are used.
    They show that printing and parsing of instants, addresses and base64 text are inverse.
  \<^item> \<open>Policy\<close> (\<^verbatim>\<open>response/policy.py\<close>): the catalog and its checks; every catalog that loads is safe.
  \<^item> \<open>Decision\<close>, \<open>Decision_Correctness\<close> (\<^verbatim>\<open>response/decision.py\<close>): evaluation of an anomaly. A command needs
    corroboration on the same, unprotected target; decisions are all-or-nothing, independent of the
    order of signals, with stable idempotency keys; the exceptions are exactly known.
  \<^item> \<open>Signing\<close> (\<^verbatim>\<open>response/signing.py\<close>): HMAC and Ed25519 authenticators; what is signed verifies.
  \<^item> \<open>Audit_Log\<close>, \<open>Store\<close> (\<^verbatim>\<open>orchestrator/audit.py\<close>, \<^verbatim>\<open>sqlite_audit.py\<close>, \<^verbatim>\<open>store.py\<close>): the life-cycle state
    machine, both ledgers (the SQLite one refines the one in memory, locale \<open>audit_ledger\<close>) and the store
    with its constraints; histories only grow and follow the state machine.
  \<^item> \<open>Adapters\<close> (\<^verbatim>\<open>response/adapters\<close>): blocklist and Wazuh adapters, and the contract
    \<open>containment_adapter\<close> they meet for any client, which recovery after a crash rests on.
  \<^item> \<open>Orchestrator\<close> (\<^verbatim>\<open>orchestrator/engine.py\<close>): every operation with its guards, commits and adapter calls,
    over a store or a ledger; a failed commit poisons the object, as in the code.
  \<^item> \<open>Protocol\<close>, \<open>Invariants\<close>, \<open>Progress\<close>: the abstract protocol of atomic steps, the simulation of every operation by
    such steps, the invariants of all reachable states (requests, failing commits, restarts and any
    change of the world in between), and that valid work does go through.
  \<^item> \<open>Scenario\<close>, \<open>Runs\<close>, \<open>Handoff\<close>: a concrete deployment for the witnesses, and the composition of engine and
    orchestrator: an issued command is accepted.
  \<^item> \<open>Http\<close>, \<open>Transports\<close>, \<open>Ownership\<close> (\<^verbatim>\<open>soc/workers/https.py\<close>, \<^verbatim>\<open>response/transports\<close>): HTTPS client, firewall and
    Wazuh transports, ownership ledger (locale \<open>ownership_ledger\<close>). Requests stay at their origin, waiting
    ends, entries of others survive, the last owner removes.
  \<^item> \<open>Enforcer\<close> (\<^verbatim>\<open>docker/enforcer/nft_enforcer.py\<close>): the enforcement agent; the nftables client over a
    lossy network and the agent refine an abstract set.
  \<^item> \<open>Isolation\<close> (\<^verbatim>\<open>docker/wazuh/active-response\<close>): the endpoint script; its exit status and markers prove what
    they claim, with one exception shown by \<open>shared_table_lost\<close>.
  \<^item> \<open>Elastic\<close>, \<open>Outbox\<close> (\<^verbatim>\<open>soc/workers/common.py\<close>, \<^verbatim>\<open>outbox.py\<close>): index client, scans, credential reload, and the
    durable job queue, which loses nothing and backs off within bounds.
  \<^item> \<open>Utc_Text\<close>, \<open>Features\<close>, \<open>Feature_Vectors\<close> (\<^verbatim>\<open>ai/features/engine.py\<close>, \<^verbatim>\<open>contracts.py\<close>): the vectors of a
    five-minute window and their contract. A window's vectors are a function of the set of its events,
    partition them by entity and pass the check that storing and scoring make.
  \<^item> \<open>Utc_Order\<close>, \<open>Feature_Worker\<close> (\<^verbatim>\<open>soc/workers/features.py\<close>): the text order of instants is their order; planning,
    fetching and storing of windows with the table of outcomes. A pass ends and leaves no gap.
  \<^item> \<open>Json\<close>, \<open>Json_Indent\<close>: the reader and the printers of \<^verbatim>\<open>json\<close> as the workers and the model tooling use them (compact,
    default and indented notation); printed documents read back.
  \<^item> \<open>Scan\<close>: what a loop over an index scan is handed, and when it ends.
  \<^item> \<open>Enrichment\<close>, \<open>Enrichment_Delivery\<close> (\<^verbatim>\<open>soc/workers/enrichment.py\<close>): pull, scoring, delivery and import over the
    outbox. A pull loses no vector, a job is sent only when its event is indexed (predicate
    \<open>index_contract\<close>), an event is bound to its vector and model, an import can be repeated.
  \<^item> \<open>Partitions\<close>, \<open>Dataset\<close> (\<^verbatim>\<open>ai/training/partitions.py\<close>, \<^verbatim>\<open>build_dataset.py\<close>): the gate that a dataset passes before training
    and the build of one. Accepted partitions are apart in time, sources and sessions; a built dataset
    leaks no attack into training. \<open>shared_identifier_refused\<close> shows where the gate refuses what the build made.
  \<^item> \<open>Labels\<close> (\<^verbatim>\<open>ai/evaluation/labels.py\<close>): the labels of an evaluation. The label file of a build loads back with the
    build's own labels; \<open>numbered_scenario_refused\<close> shows a build whose label file is refused.
  \<^item> \<open>Doubles\<close>, \<open>Thresholds\<close> (\<^verbatim>\<open>ai/evaluation/threshold.py\<close>): double-precision arithmetic with its rounding, and the choice of a
    threshold. The chosen one keeps the alert budget and no other observed score is better.
  \<^item> \<open>Promotion\<close> (\<^verbatim>\<open>ai/training/promote.py\<close>): review, promotion and retirement of a candidate model as the files they write.
    Only a candidate within the policy is promoted, a promoted model loads, a retired one never does.
  \<^item> \<open>Registry\<close>, \<open>Scoring_Api\<close> (\<^verbatim>\<open>ai/models/isolation_forest.py\<close>, \<^verbatim>\<open>ai/api/main.py\<close>): loading of an approved model, scoring
    and the routes. Only a model that matches the trusted digests answers, whatever happens to the registry
    directory (relation \<open>serving\<close>), and the enrichment worker accepts what a forest answers.
  \<^item> \<open>Service\<close>, \<open>Config\<close>, \<open>Decision_Runner\<close> (\<^verbatim>\<open>response/service\<close>): the response service keeps the orchestrator's
    invariants, observe mode changes nothing, the export is ordered; accepted configurations are
    closed; the runner sends only issued commands and skips no anomaly.
  \<^item> This theory: the safety properties of the whole orchestrator and the round trips of the wire formats.

  \<^bold>\<open>Loops.\<close> Loops over finite lists are structural recursion. The two that may run forever, polling for a
  marker and scanning an index, are \<^verbatim>\<open>partial_function (option)\<close>, where \<^const>\<open>None\<close> is not returning, and
  \<open>await_returns\<close>, \<open>capped_scan_ends\<close> and \<open>scan_loop_ends\<close> prove that they return. Only the JSON reader has fuel,
  one more than the length of its text, which \<open>json_value_fuel\<close> proves to be enough.

  \<^bold>\<open>Atomicity.\<close> The orchestrator's mutex makes an operation one step; between operations the world may
  change arbitrarily. A commit may fail at any write; a crash is a restart from the store.

  \<^bold>\<open>Not modelled.\<close> Files and their permissions, process locks, TLS and sockets, SQLite's journal, FastAPI's routing
  and command-line entry points are I/O. Fitting the anomaly models, the
  sequence model and the metrics and benchmarks of an evaluation are numerics on third-party libraries; in the registry the deserialisers
  and raw scores are parameters. The compliance
  reports, the repository scripts and the infrastructure code run other programs over files.
  The endless loops around a worker's pass or round, and \<^verbatim>\<open>build_adapters\<close>, which opens files and TLS
  contexts, are left out as well.
\<close>

section \<open>Safety of the orchestrator\<close>

lemma demo_store: "\<exists>st fs. o_persist (demo_run cmd q) = PStore st fs"
  using reach_ok [OF demo_run_reach [of cmd q]] by (auto simp: sys_ok_def)

text \<open>The witnesses run a command of the decision engine until the firewalls have applied it.\<close>

lemma demo_contained:
  "\<exists>cmd rid k q. o_world (demo_run cmd (Apply rid)) = (([''8.8.8.8''], [''8.8.8.8'']), [k]) \<and>
     dict_get (o_records (demo_run cmd (Apply rid))) rid = Some q \<and> r_state q = Applied"
  by (rule demo_applied) blast

text \<open>
  C1. No adapter is asked to apply the same command twice: in every run of a store-backed
  orchestrator, with any operations, failing commits, restarts, policies and adapters, the log of
  \<^verbatim>\<open>apply\<close> calls holds every idempotency key at most once.
\<close>

theorem applied_at_most_once:
  assumes "reach vf pr V ext (w0, []) s" "\<forall>v \<in> V. logged_env v" "\<forall>w w'. ext w w' \<longrightarrow> snd w' = snd w"
  shows "distinct (apply_log s)"
  using reach_log_ok [OF assms] by (simp add: log_ok_def)

theorem applied_at_most_once_witness:
  "\<exists>cmd rid k. apply_log (demo_run cmd (Apply rid)) = [k] \<and> distinct (apply_log (demo_run cmd (Apply rid)))"
proof -
  obtain cmd rid k where "o_world (demo_run cmd (Apply rid)) = (([''8.8.8.8''], [''8.8.8.8'']), [k])"
    using demo_contained by blast
  then have "apply_log (demo_run cmd (Apply rid)) = [k]" by (simp add: apply_log_def)
  then show ?thesis using applied_at_most_once [OF demo_run_reach [of cmd "Apply rid"] demo_logged] by blast
qed



text \<open>
  C3. At any moment at most one response holds a target: two different responses that are applied,
  verified, unfinished or failed after an attempt never have the same action and target.
\<close>

theorem containments_exclusive:
  assumes "reach vf pr V ext w0 s" "o_persist s = PStore st fs"
  shows "exclusive_targets (s_records st)"
  using reach_ok [OF assms(1)] assms(2) by (auto simp: sys_ok_def store_ok_def)

theorem containments_exclusive_witness:
  "\<exists>cmd rid q st fs. dict_get (o_records (demo_run cmd (Apply rid))) rid = Some q \<and> r_state q = Applied \<and>
     o_persist (demo_run cmd (Apply rid)) = PStore st fs \<and> exclusive_targets (s_records st)"
  using demo_contained demo_store containments_exclusive [OF demo_run_reach] by metis

definition lawful :: "audit_event list \<Rightarrow> bool" where
  "lawful h \<longleftrightarrow> (\<forall>i < length h. ev_number (h ! i) = Suc i \<and> (ev_state (h ! i) = Requested \<longleftrightarrow> i = 0) \<and>
     (ev_state (h ! i) = Applied \<longrightarrow> i = 1) \<and>
     (ev_state (h ! i) = Verified \<longrightarrow> i = 2 \<and> ev_state (h ! 1) = Applied \<and>
        (\<exists>x. ev_verification (h ! i) = Some x \<and> vf_evidence x \<noteq> [])) \<and>
     (ev_state (h ! i) \<in> {Expired, Rolled_back} \<longrightarrow> Suc i = length h \<and>
        (\<exists>x. ev_rollback (h ! i) = Some x \<and> rb_evidence x \<noteq> [])))"

lemma legal_lawful:
  assumes legal: "legal_history h" and ev: "\<forall>e \<in> set h. event_ok e"
  shows "lawful h"
  unfolding lawful_def
proof (intro allI impI)
  fix i assume i: "i < length h"
  have e: "event_ok (h ! i)" using ev i by simp
  show "ev_number (h ! i) = Suc i \<and> (ev_state (h ! i) = Requested \<longleftrightarrow> i = 0) \<and>
     (ev_state (h ! i) = Applied \<longrightarrow> i = 1) \<and>
     (ev_state (h ! i) = Verified \<longrightarrow> i = 2 \<and> ev_state (h ! 1) = Applied \<and>
        (\<exists>x. ev_verification (h ! i) = Some x \<and> vf_evidence x \<noteq> [])) \<and>
     (ev_state (h ! i) \<in> {Expired, Rolled_back} \<longrightarrow> Suc i = length h \<and>
        (\<exists>x. ev_rollback (h ! i) = Some x \<and> rb_evidence x \<noteq> []))"
    using legal_history_number [OF legal i] legal_history_requested_iff [OF legal i] legal_history_applied [OF legal i]
      legal_history_verified [OF legal i] legal_history_terminal [OF legal i] e
    by (auto simp: event_ok_def TERMINAL_STATES_def)
qed

lemma store_ok_lawful:
  assumes ok: "store_ok vf pr st"
  shows "lawful (s_events st rid)"
proof (rule legal_lawful)
  have inv: "store_inv pr st" using ok by (simp add: store_ok_def)
  then show "legal_history (s_events st rid)" by (simp add: s_events_def select_events_legal store_inv_def)
  show "\<forall>e \<in> set (s_events st rid). event_ok e"
  proof (cases "s_events st rid = []")
    case False
    then have "rid \<in> set (dict_keys (s_records st))" using inv unfolding store_inv_def by blast
    then obtain row where "dict_get (s_records st) rid = Some row"
      using dict_get_None_iff [of "s_records st" rid] by (cases "dict_get (s_records st) rid") auto
    then show ?thesis using ok unfolding store_ok_def origin_ok_def by blast
  qed simp
qed

text \<open>
  C4. Every audit history of a reachable store is lawful: it is numbered from 1, starts with
  REQUESTED, has APPLIED only as its second event and VERIFIED only right after it and with evidence,
  and ends at its first terminal event, which carries the adapter's evidence of the reversal.
\<close>

theorem audit_histories_lawful:
  assumes "reach vf pr V ext w0 s" "o_persist s = PStore st fs"
  shows "lawful (s_events st rid)"
  using reach_ok [OF assms(1)] assms(2) store_ok_lawful by (auto simp: sys_ok_def)

theorem audit_histories_lawful_witness:
  "\<exists>cmd rid q st fs. dict_get (o_records (demo_run cmd (Apply rid))) rid = Some q \<and> r_state q = Applied \<and>
     o_persist (demo_run cmd (Apply rid)) = PStore st fs \<and> lawful (s_events st rid)"
  using demo_contained demo_store audit_histories_lawful [OF demo_run_reach] by metis

section \<open>Memory, store and restart\<close>

text \<open>
  C8. Memory is a cache of the store: while an orchestrator is not poisoned, the records it works
  with are exactly the checkpointed ones, one per stored response and with the same contents.
\<close>

theorem memory_matches_store:
  assumes "reach vf pr V ext w0 s" "o_persist s = PStore st fs" "\<not> o_failed s"
  shows "agree st (o_records s)"
  using reach_ok [OF assms(1)] assms(2,3) by (auto simp: sys_ok_def)

theorem memory_matches_store_witness:
  "\<exists>s st rid q. demo_reach s \<and> o_persist s = PStore st [] \<and> dict_get (o_records s) rid = Some q \<and> r_state q = Applied \<and> agree st (o_records s)"
proof (rule demo_applied)
  fix cmd k rid s st q ref oc
  assume run: "demo_run cmd (Apply rid) = s" and h: "\<not> o_failed s" "o_persist s = PStore st []" "dict_get (o_records s) rid = Some q" "r_state q = Applied"
  have "demo_reach s" using demo_run_reach [of cmd "Apply rid"] run by simp
  then show ?thesis using memory_matches_store [OF _ h(2,1)] h by blast
qed

text \<open>
  C7. A restart always succeeds and loses nothing: from the store of any reachable state, also one
  poisoned by a failed commit, an orchestrator with the same key ring opens the store, takes it over
  and holds exactly the stored responses.
\<close>

theorem restart_restores:
  assumes "reach (\<lambda>c t. ed_verify_command A clk c (Some (Aware t))) pr V ext w0 s" "o_persist s = PStore st fs"
    and "v_prims v = pr" "v_verify v = (\<lambda>c t. ed_verify_command A clk c (Some (Aware t)))"
  shows "\<exists>st1 s'. open_store st = Inr st1 \<and> start_from_store v st1 fs' w = Inr s' \<and> \<not> o_failed s' \<and> agree st (o_records s')"
proof -
  let ?vf = "\<lambda>c t. ed_verify_command A clk c (Some (Aware t))"
  let ?st1 = "st\<lparr>s_claimed := False, s_closed := False\<rparr>"
  have ok: "store_ok ?vf pr st" using reach_ok [OF assms(1)] assms(2) by (auto simp: sys_ok_def)
  then have op: "open_store st = Inr ?st1" using open_store_inv [of pr st] by (simp add: store_ok_def)
  have ok1: "store_ok ?vf pr ?st1" using ok by simp
  obtain s' where s': "start_from_store v ?st1 fs' w = Inr s'"
    using ed.restart_succeeds [OF ok1 assms(3,4)] by auto
  have "\<not> o_failed s' \<and> agree st (o_records s')" using start_agrees [OF ok1 s'] by auto
  then show ?thesis using op s' by blast
qed

theorem restart_restores_witness:
  "\<exists>cmd rid q st fs st1 s'. dict_get (o_records (demo_run cmd (Apply rid))) rid = Some q \<and> r_state q = Applied \<and>
     o_persist (demo_run cmd (Apply rid)) = PStore st fs \<and> open_store st = Inr st1 \<and>
     start_from_store demo_env st1 [] (([], []), []) = Inr s' \<and> agree st (o_records s')"
proof -
  have e: "v_verify demo_env = (\<lambda>c t. ed_verify_command demo_auth 0 c (Some (Aware t)))" "v_prims demo_env = demo_prims"
    by (simp_all add: demo_env_def)
  obtain cmd rid q where q: "dict_get (o_records (demo_run cmd (Apply rid))) rid = Some q" "r_state q = Applied"
    using demo_contained by blast
  obtain st fs where st: "o_persist (demo_run cmd (Apply rid)) = PStore st fs" using demo_store by blast
  show ?thesis
    using restart_restores [OF demo_run_reach [of cmd "Apply rid", unfolded e(1)] st e(2,1)] q st by blast
qed

text \<open>
  Audit histories only grow: whatever checkpoints and export marks a store accepts, every history
  keeps its events in place, and the events of one response are never recorded under another.
\<close>

theorem histories_append_only:
  assumes "(store_writes pr)\<^sup>*\<^sup>* st st'" "store_inv pr st"
  shows "store_inv pr st' \<and> (\<exists>es. s_events st' rid = s_events st rid @ es \<and> (\<forall>e \<in> set es. ev_response_id e = rid))"
proof -
  obtain es where inv: "store_inv pr st'" and es: "s_events st' rid = s_events st rid @ es"
    using sto.histories_grow [OF assms, of rid] by blast
  have "\<forall>e \<in> set (s_events st' rid). ev_response_id e = rid"
    using inv select_events_owner by (auto simp: store_inv_def s_events_def)
  then show ?thesis using inv es by auto
qed

theorem histories_append_only_witness:
  "\<exists>es. s_events (empty_store\<lparr>s_exported := [''audit-1'']\<rparr>) ''resp-1'' = s_events empty_store ''resp-1'' @ es \<and> (\<forall>e \<in> set es. ev_response_id e = ''resp-1'')"
proof -
  have "store_writes demo_prims empty_store (empty_store\<lparr>s_exported := [''audit-1'']\<rparr>)"
    by (auto simp: store_writes_def mark_exported_def exclusive_def empty_store_def intro!: exI [of _ "''audit-1''"])
  then show ?thesis using histories_append_only [OF r_into_rtranclp store_inv_empty] by blast
qed

section \<open>Refinements\<close>

text \<open>
  C11. Every request refines the protocol of small steps: on a reachable state it either changes
  nothing or is a sequence of atomic steps, each one commit of a permitted change of one response, one
  adapter call under its guard, or a failed commit that stops all further work.
\<close>

theorem operations_refine_protocol:
  assumes "reach vf pr V ext w0 s"
  shows "exec v clk now q s = s \<or> (\<exists>ts. as_utc CommandRejected clk now = Inr ts \<and> steps ts v s (exec v clk now q s))"
  using sys_ok_ids [OF reach_ok [OF assms]] by (intro exec_steps) auto

theorem operations_refine_protocol_witness:
  "\<exists>cmd rid k. apply_log (demo_run cmd (Apply rid)) = [k] \<and>
     (demo_run cmd (Apply rid) = demo_run cmd Pending_apply \<or>
      (\<exists>ts. as_utc CommandRejected 0 (Some (Aware demo_now)) = Inr ts \<and> steps ts demo_env (demo_run cmd Pending_apply) (demo_run cmd (Apply rid))))"
proof (rule demo_applied)
  fix cmd k rid s st q ref oc
  let ?now = "Some (Aware demo_now)"
  assume run: "demo_run cmd (Apply rid) = s" and w: "o_world s = (([''8.8.8.8''], [''8.8.8.8'']), [k])"
  have "demo_run cmd Pending_apply = exec demo_env 0 ?now (Submit cmd) demo_boot" by (simp add: demo_run_def exec_def exec_queries)
  then have e: "exec demo_env 0 ?now (Apply rid) (demo_run cmd Pending_apply) = demo_run cmd (Apply rid)" by (simp add: demo_run_def)
  have "apply_log (demo_run cmd (Apply rid)) = [k]" using w run by (simp add: apply_log_def)
  then show ?thesis
    using operations_refine_protocol [OF demo_run_reach [of cmd Pending_apply], of demo_env 0 ?now "Apply rid"] unfolding e by blast
qed



section \<open>Progress\<close>

text \<open>
  A valid command for an allowed target, below the rate limit and not seen before, is accepted:
  the result is REQUESTED and accepted, and afterwards the response is on record, authorized, with
  the REQUESTED event as its history.
\<close>

theorem valid_command_accepted:
  assumes s: "\<not> o_failed s" "o_persist s = PStore st []" and inv: "store_inv (v_prims v) st" "\<not> s_closed st"
    and ts: "as_utc CommandRejected clk now = Inr ts" "in_range ts" "in_range (ts + seconds (ttl_of cmd))"
    and cmd: "validate_command v cmd ts = Inr cmd" "dict_get (v_adapters v) (sget cmd ''action'') = Some a"
      "target_allowed v cmd = Inr ()"
    and new: "sget cmd ''idempotency_key'' \<notin> set (dict_keys (o_dedup s))"
      "response_id (v_prims v) (sget cmd ''idempotency_key'') \<notin> set (dict_keys (o_records s))"
      "response_id (v_prims v) (sget cmd ''idempotency_key'') \<notin> set (dict_keys (s_records st))"
    and fresh: "ev_id (request_event v (ad_name a) cmd ts) \<notin> au_id ` set (s_audit st)"
    and rate: "s_requested_since st (sget (pget cmd ''policy'') ''id'') (ts - seconds (window_seconds (c_rate_limit (v_catalog v)))) = Inr n"
      "int n < max_actions (c_rate_limit (v_catalog v))"
  shows "\<exists>res s' r. submit v clk cmd now s = (Inr res, s') \<and> rs_accepted res \<and> rs_state res = Requested \<and> \<not> rs_dedup res \<and>
    dict_get (o_records s') (rs_id res) = Some r \<and> r_command r = cmd \<and> r_authorized r \<and> r_state r = Requested \<and>
    p_events (o_persist s') (rs_id res) = [request_event v (ad_name a) cmd ts] \<and> o_world s' = o_world s"
proof -
  let ?rid = "response_id (v_prims v) (sget cmd ''idempotency_key'')" and ?e = "request_event v (ad_name a) cmd ts"
  obtain s' st1 st2 where sub: "submit v clk cmd now s = (Inr (result_of ?rid Requested True None (Some ?e)), s')"
    and cp: "checkpoint (v_prims v) (snapshot_of (requested v cmd ts False)) (Some ?e) st = Inr st1"
      "checkpoint (v_prims v) (snapshot_of (requested v cmd ts True)) None st1 = Inr st2"
    and s': "o_persist s' = PStore st2 []" "o_records s' = dict_set ?rid (requested v cmd ts True) (o_records s)" "o_world s' = o_world s"
    using submit_accepts [OF assms] by blast
  note step = checkpoint_step [OF cp(1)] checkpoint_step [OF cp(2)]
  have "rows_inv (s_audit st)" "s_events st ?rid = []" using inv new(3) by (auto simp: store_inv_def)
  then have "s_events st1 ?rid = [?e]" using store_step_events(2) [OF step(1), of ?rid] by (simp add: new_events_def)
  moreover have "s_events st2 ?rid = s_events st1 ?rid" using step(2) by (simp add: store_step_def s_events_def)
  ultimately show ?thesis using sub s' by (simp add: result_of_def p_events_def) (simp add: requested_def)
qed

theorem valid_command_accepted_witness:
  "\<exists>cmd res s' r. submit demo_env 0 cmd (Some (Aware demo_now)) demo_boot = (Inr res, s') \<and> rs_accepted res \<and>
     dict_get (o_records s') (rs_id res) = Some r \<and> r_command r = cmd \<and> r_authorized r \<and> r_state r = Requested"
proof (rule demo_command)
  fix r cmd
  let ?st = "empty_store\<lparr>s_claimed := True\<rparr>" and ?v = demo_env
  assume c: "validate_command demo_env cmd demo_now = Inr cmd" "target_allowed demo_env cmd = Inr ()"
    "pget cmd ''action'' = PStr ''block_ip''" "pget cmd ''ttl_seconds'' = PInt 600"
  have b: "\<not> o_failed demo_boot" "o_persist demo_boot = PStore ?st []" "store_inv (v_prims ?v) ?st" "\<not> s_closed ?st"
      "as_utc CommandRejected 0 (Some (Aware demo_now)) = Inr demo_now"
    by (simp_all add: demo_boot_def as_utc_def) (simp add: empty_store_def)
  have t: "in_range (demo_now + seconds (ttl_of cmd))" using demo_in_range(3) c(4) by (simp add: ttl_of_def)
  have a: "dict_get (v_adapters ?v) (sget cmd ''action'') = Some (logged demo_block)" using c(3) by (simp add: demo_env_def sget_def)
  have f: "sget cmd ''idempotency_key'' \<notin> set (dict_keys (o_dedup demo_boot))" "rid \<notin> set (dict_keys (o_records demo_boot))"
      "rid \<notin> set (dict_keys (s_records ?st))" "i \<notin> au_id ` set (s_audit ?st)" for rid i
    by (simp_all add: demo_boot_def empty_store_def)
  have q: "s_requested_since ?st i since = Inr 0" "int 0 < max_actions (c_rate_limit (v_catalog ?v))" for i since
    by (simp_all add: s_requested_since_def exclusive_def empty_store_def demo_env_def demo_catalog_def)
  show ?thesis using valid_command_accepted [OF b demo_in_range(1) t c(1) a c(2) f q] by blast
qed

text \<open>
  C10. An authorized command is applied: when the checks of \<^verbatim>\<open>apply\<close> hold and the adapter reports
  success with evidence and a reference, the call is accepted, and memory and store both hold the
  response as APPLIED with the adapter's reference and no operation pending.
\<close>

theorem authorized_command_applied:
  assumes "\<not> o_failed s" "o_persist s = PStore st []" "store_inv (v_prims v) st" "\<not> s_closed st" "agree st (o_records s)"
    and "as_utc CommandRejected clk now = Inr ts" "dict_get (o_records s) rid = Some r" "may_apply v (o_records s) r a ref ts"
    and "rid \<notin> set (s_intents st)" "ad_apply a (r_command r) (o_world s) = (Inr (Outcome oc), w)" "usable oc"
    and "oc_reference oc = Some ref'" "ref' \<noteq> []" "event_id (v_prims v) rid (r_number r + 1) Applied \<notin> au_id ` set (s_audit st)"
  shows "\<exists>res s' r' st'. apply_op v clk rid now s = (Inr res, s') \<and> rs_accepted res \<and> rs_state res = Applied \<and>
    dict_get (o_records s') rid = Some r' \<and> r_state r' = Applied \<and> r_reference r' = Some ref' \<and> r_pending r' = None \<and>
    o_persist s' = PStore st' [] \<and> last_state (s_events st' rid) = Some Applied \<and> o_world s' = w"
  using apply_op_succeeds [OF assms] by blast

theorem authorized_command_applied_witness:
  "\<exists>s rid res s' r' k. demo_reach s \<and> apply_op demo_env 0 rid (Some (Aware demo_now)) s = (Inr res, s') \<and> rs_accepted res \<and>
     dict_get (o_records s') rid = Some r' \<and> r_state r' = Applied \<and> o_world s' = (([''8.8.8.8''], [''8.8.8.8'']), [k])"
proof (rule demo_ready)
  fix cmd r k s st oc ref
  let ?now = "Some (Aware demo_now)" and ?rid = "response_id demo_prims k" and ?r = "requested demo_env cmd demo_now True"
  assume run: "exec demo_env 0 ?now (Submit cmd) demo_boot = s"
    and h: "\<not> o_failed s" "o_persist s = PStore st []" "store_inv (v_prims demo_env) st" "\<not> s_closed st" "agree st (o_records s)"
      "as_utc CommandRejected 0 ?now = Inr demo_now" "dict_get (o_records s) ?rid = Some ?r"
      "may_apply demo_env (o_records s) ?r (logged demo_block) ref demo_now" "?rid \<notin> set (s_intents st)"
      "ad_apply (logged demo_block) (r_command ?r) (o_world s) = (Inr (Outcome oc), (([''8.8.8.8''], [''8.8.8.8'']), [k]))"
      "usable oc" "oc_reference oc = Some ref" "ref \<noteq> []"
      "event_id (v_prims demo_env) ?rid (r_number ?r + 1) Applied \<notin> au_id ` set (s_audit st)"
  have "demo_reach s" using demo_exec_reach [OF demo_boot_reach, of "Submit cmd"] by (simp add: run)
  then show ?thesis using authorized_command_applied [OF h] by blast
qed

text \<open>
  C9. Every containment can be taken back: a rollback of a response that is applied, verified or
  unresolved, and whose adapter proves the removal, is accepted and leaves the response ROLLED_BACK in
  memory and in the audit history, with nothing pending.
\<close>

theorem containment_removable:
  assumes "\<not> o_failed s" "o_persist s = PStore st []" "store_inv (v_prims v) st" "\<not> s_closed st" "agree st (o_records s)"
    and "as_utc CommandRejected clk now = Inr ts" "cause = ''manual'' \<or> cause = ''recovery''"
    and "dict_get (o_records s) rid = Some r" "r_state r \<in> {Applied, Verified} \<or> unresolved r" "r_state r \<notin> {Expired, Rolled_back}"
    and "r_reference r = Some ref" "adapter_for v r = Inr a"
    and "ad_revert a (r_command r) ref (o_world s) = (Inr (Outcome oc), w)" "usable oc"
    and "event_id (v_prims v) rid (r_number r + 1) Rolled_back \<notin> au_id ` set (s_audit st)"
  shows "\<exists>res s' r' st'. rollback v clk rid cause now s = (Inr res, s') \<and> rs_accepted res \<and> rs_state res = Rolled_back \<and>
    dict_get (o_records s') rid = Some r' \<and> r_state r' = Rolled_back \<and> r_pending r' = None \<and>
    o_persist s' = PStore st' [] \<and> last_state (s_events st' rid) = Some Rolled_back \<and> o_world s' = w"
  using rollback_succeeds [OF assms] by blast

theorem containment_removable_witness:
  "\<exists>s rid res s' r' k. demo_reach s \<and> o_world s = (([''8.8.8.8''], [''8.8.8.8'']), [k]) \<and>
     rollback demo_env 0 rid ''manual'' (Some (Aware demo_now)) s = (Inr res, s') \<and> rs_accepted res \<and>
     dict_get (o_records s') rid = Some r' \<and> r_state r' = Rolled_back \<and> o_world s' = (([], []), [k])"
proof (rule demo_applied)
  fix cmd k rid s st q ref oc
  assume run: "demo_run cmd (Apply rid) = s" and w: "o_world s = (([''8.8.8.8''], [''8.8.8.8'']), [k])"
    and h: "\<not> o_failed s" "o_persist s = PStore st []" "store_inv (v_prims demo_env) st" "\<not> s_closed st" "agree st (o_records s)"
      "dict_get (o_records s) rid = Some q" "r_state q = Applied" "r_reference q = Some ref" "adapter_for demo_env q = Inr (logged demo_block)"
      "ad_revert (logged demo_block) (r_command q) ref (o_world s) = (Inr (Outcome oc), (([], []), [k]))" "usable oc"
      "event_id (v_prims demo_env) rid (r_number q + 1) Rolled_back \<notin> au_id ` set (s_audit st)"
  have t: "as_utc CommandRejected 0 (Some (Aware demo_now)) = Inr demo_now" by (simp add: as_utc_def)
  have q: "''manual'' = ''manual'' \<or> ''manual'' = ''recovery''" "r_state q \<in> {Applied, Verified} \<or> unresolved q" "r_state q \<notin> {Expired, Rolled_back}"
    using h(7) by simp_all
  show ?thesis
    using containment_removable [OF h(1-5) t q(1) h(6) q(2,3) h(8-12)] demo_run_reach [of cmd "Apply rid"] w unfolding run by blast
qed

section \<open>Rate limit and catalog\<close>

text \<open>
  The rate limit counts what it should: the number of admissions a reachable store reports for a
  policy since an instant is the number of responses whose REQUESTED event names the policy and is
  later than the instant, denied requests included and restarts notwithstanding.
\<close>

theorem admissions_counted:
  assumes "reach vf pr V ext w0 s" "o_persist s = PStore st fs" "\<not> s_closed st"
  shows "s_requested_since st policy since = Inr (card {rid. s_events st rid \<noteq> [] \<and>
    ev_policy_id (hd (s_events st rid)) = PStr policy \<and> (\<exists>t. event_time (hd (s_events st rid)) = Inr t \<and> since < t)})"
  using reach_ok [OF assms(1)] assms(2,3) by (intro s_requested_since_eq) (auto simp: sys_ok_def store_ok_def)

theorem admissions_counted_witness:
  "\<exists>s st rid. demo_reach s \<and> o_persist s = PStore st [] \<and> s_requested_since st ''block'' 0 = Inr (card {rid. s_events st rid \<noteq> [] \<and>
    ev_policy_id (hd (s_events st rid)) = PStr ''block'' \<and> (\<exists>t. event_time (hd (s_events st rid)) = Inr t \<and> 0 < t)})"
proof (rule demo_applied)
  fix cmd k rid s st q ref oc
  assume "demo_run cmd (Apply rid) = s" "o_persist s = PStore st []" "\<not> s_closed st"
  then show ?thesis using admissions_counted [OF demo_run_reach [of cmd "Apply rid"]] demo_run_reach [of cmd "Apply rid"] by blast
qed

text \<open>
  C16. A catalog that loads is safe: it has at least one policy, identifiers are unique and match,
  every policy acts by a supported action for one minute to one day, needs an AI score of at least
  0.9 and at least one independent signal of a supported type, commands live at most 15 minutes and
  evidence at most a day, and the rate limit is positive.
\<close>

theorem loaded_catalog_safe:
  assumes "policy_catalog_from_mapping pr v = Inr c"
  shows "wf_catalog c"
  using policy_catalog_wf [OF assms] .

definition demo_document :: pyval where
  "demo_document = PDict [(''schema_version'', PStr ''response-policy-set-v1''),
     (''defaults'', PDict [(''protections'', PDict [(''block_private_ip_targets'', PBool True)]),
        (''rate_limit'', PDict [(''max_actions'', PInt 5), (''window_seconds'', PInt 300)]),
        (''dedup_seconds'', PInt 600), (''command_valid_for_seconds'', PInt 300), (''evidence_max_age_seconds'', PInt 300)]),
     (''policies'', PList [PDict [(''id'', PStr ''block''), (''version'', PStr ''1''), (''enabled'', PBool True),
        (''action'', PStr ''block_ip''), (''ttl_seconds'', PInt 600),
        (''when'', PDict [(''ai_score_gte'', PFloat (Fin (19 / 20))), (''require_any'', PList [PDict [(''type'', PStr ''suricata'')]])])]])]"

lemma demo_document_loads: "\<exists>c. policy_catalog_from_mapping demo_prims demo_document = Inr c"
proof -
  have "strip ''block'' = ''block''" "strip ''1'' = ''1''" "strip ''block_ip'' = ''block_ip''" "strip ''suricata'' = ''suricata''"
    by code_simp+
  then show ?thesis
    by (simp add: policy_catalog_from_mapping_def demo_document_def require_mapping_def exact_keys_def no_unknown_def
        require_positive_int_def protection_policy_from_mapping_def has_key_def addresses_def networks_def hosts_def string_list_def
        parse_all_def rate_limit_from_mapping_def response_policy_from_mapping_def require_string_def score_threshold_def
        float_0_9_def signal_requirement_from_mapping_def optional_int_def SUPPORTED_ACTIONS_def SUPPORTED_SIGNAL_TYPES_def Let_def)
qed

theorem loaded_catalog_safe_witness: "\<exists>c. policy_catalog_from_mapping demo_prims demo_document = Inr c \<and> wf_catalog c"
proof -
  obtain c where c: "policy_catalog_from_mapping demo_prims demo_document = Inr c"
    using demo_document_loads by blast
  then show ?thesis using loaded_catalog_safe [OF c] by blast
qed

section \<open>Round trips\<close>

text \<open>
  Wire formats lose nothing the program relies on: an instant of the years 1 to 9999 printed by
  \<^verbatim>\<open>_rfc3339\<close> parses back to itself cut to milliseconds, an IPv4 address printed canonically parses back
  to itself, and base64 without padding decodes to what was encoded.
\<close>

theorem wire_round_trips:
  assumes "in_range t" "0 \<le> v" "v < 2 ^ 32"
  shows "parse_rfc3339 CommandRejected (PStr (rfc3339 t)) = Inr (cut_ms t) \<and> cut_ms t \<le> t \<and> t - cut_ms t < 1000 \<and>
    ip_address (show_ip (IPv4 v)) = Some (IPv4 v) \<and> unb64 (b64 raw) = Inr raw"
proof -
  have "t - cut_ms t < 1000" by (simp add: cut_ms_alt)
  then show ?thesis using parse_rfc3339_rfc3339 [OF assms(1)] cut_ms_le ip_address_show_ipv4 [OF assms(2,3)] by simp
qed

theorem wire_round_trips_witness:
  "parse_rfc3339 CommandRejected (PStr (rfc3339 demo_now)) = Inr (cut_ms demo_now) \<and>
   ip_address (show_ip (IPv4 134744072)) = Some (IPv4 134744072) \<and> unb64 (b64 ''abc'') = Inr ''abc''"
  using wire_round_trips [OF demo_in_range(1), of 134744072 "''abc''"] by simp

end
